(* ===== verification/Prelude.thy ===== *)
theory Prelude
  imports Complex_Main "HOL-Library.AList" "HOL-Library.Multiset" "HOL-Library.List_Lexorder"
begin

text \<open>
  What every component of the model shares: results with errors as values, the ordered
  collections of JavaScript (\<open>Map\<close> and \<open>Set\<close> iterate in insertion order, so they are
  association lists and duplicate-free lists here), grouping and counting maps, and the
  stable \<open>Array.prototype.sort\<close> with its laws.
\<close>

named_theorems js_map \<open>lookups in the ordered maps\<close>
named_theorems js_sort_facts \<open>facts about the stable sort that need no assumption on the comparator\<close>
named_theorems result_simps \<open>inversion of the result combinators\<close>

section \<open>Results\<close>

text \<open>A computation that may throw: \<open>Inl e\<close> is the exception, \<open>Inr x\<close> the value.\<close>

fun and_then :: "'e + 'a \<Rightarrow> ('a \<Rightarrow> 'e + 'b) \<Rightarrow> 'e + 'b" where
  "and_then (Inl e) f = Inl e"
| "and_then (Inr x) f = f x"

fun traverse :: "('a \<Rightarrow> 'e + 'b) \<Rightarrow> 'a list \<Rightarrow> 'e + 'b list" where
  "traverse f [] = Inr []"
| "traverse f (x # xs) = and_then (f x) (\<lambda>y. and_then (traverse f xs) (\<lambda>ys. Inr (y # ys)))"

text \<open>A check that throws when it fails, for its effect only.\<close>

fun check_all :: "('a \<Rightarrow> 'e option) \<Rightarrow> 'a list \<Rightarrow> 'e option" where
  "check_all f [] = None"
| "check_all f (x # xs) = (case f x of Some e \<Rightarrow> Some e | None \<Rightarrow> check_all f xs)"

text \<open>\<open>x ?? d\<close>.\<close>

definition nullish :: "'a option \<Rightarrow> 'a \<Rightarrow> 'a" where
  "nullish x d = (case x of None \<Rightarrow> d | Some y \<Rightarrow> y)"

lemma nullish_simps [simp]: "nullish None d = d" "nullish (Some y) d = y"
  by (simp_all add: nullish_def)

lemma and_then_Inr [result_simps]: "and_then r f = Inr y \<longleftrightarrow> (\<exists>x. r = Inr x \<and> f x = Inr y)"
  by (cases r) auto

lemma and_then_Inl [result_simps]:
  "and_then r f = Inl e \<longleftrightarrow> r = Inl e \<or> (\<exists>x. r = Inr x \<and> f x = Inl e)"
  by (cases r) auto

lemma traverse_Inr:
  "traverse f xs = Inr ys \<longleftrightarrow> list_all2 (\<lambda>x y. f x = Inr y) xs ys"
  by (induction xs arbitrary: ys) (auto simp: result_simps list_all2_Cons1)

lemma traverse_length: "traverse f xs = Inr ys \<Longrightarrow> length ys = length xs"
  by (auto simp: traverse_Inr dest: list_all2_lengthD)

lemma traverse_ok: "traverse f xs = Inr ys \<Longrightarrow> y \<in> set ys \<Longrightarrow> \<exists>x \<in> set xs. f x = Inr y"
  by (auto simp: traverse_Inr list_all2_conv_all_nth in_set_conv_nth) (metis nth_mem)

lemma check_all_None: "check_all f xs = None \<longleftrightarrow> (\<forall>x \<in> set xs. f x = None)"
  by (induction xs) (auto split: option.splits)

section \<open>Ordered sets and maps\<close>

text \<open>\<open>new Set(xs)\<close>: the first occurrence of each element, in order.\<close>

fun set_onto :: "'a list \<Rightarrow> 'a list \<Rightarrow> 'a list" where
  "set_onto seen [] = seen"
| "set_onto seen (x # xs) = set_onto (if x \<in> set seen then seen else seen @ [x]) xs"

definition js_set :: "'a list \<Rightarrow> 'a list" where
  "js_set xs = set_onto [] xs"

lemma set_set_onto: "set (set_onto seen xs) = set seen \<union> set xs"
  by (induction xs arbitrary: seen) auto

lemma distinct_set_onto: "distinct seen \<Longrightarrow> distinct (set_onto seen xs)"
  by (induction xs arbitrary: seen) auto

lemma set_js_set [simp]: "set (js_set xs) = set xs"
  by (simp add: js_set_def set_set_onto)

lemma distinct_js_set [simp]: "distinct (js_set xs)"
  by (simp add: js_set_def distinct_set_onto)

lemma length_js_set: "length (js_set xs) = card (set xs)"
  using distinct_card [of "js_set xs"] by simp

lemma js_set_Nil [simp]: "js_set [] = []"
  by (simp add: js_set_def)

lemma js_set_empty_iff [simp]: "js_set xs = [] \<longleftrightarrow> xs = []"
  by (metis set_js_set set_empty)

text \<open>
  A \<open>Map\<close> is an association list with distinct keys: \<^const>\<open>map_of\<close> is \<open>get\<close>,
  \<^const>\<open>AList.update\<close> is \<open>set\<close> (in place for a known key, at the end for a new one) and
  \<^const>\<open>AList.delete\<close> is \<open>delete\<close>.
\<close>

abbreviation "js_keys m \<equiv> map fst m"
abbreviation "js_values m \<equiv> map snd m"

lemma update_new: "k \<notin> set (js_keys m) \<Longrightarrow> AList.update k v m = m @ [(k, v)]"
  by (induction m) auto

lemma map_of_update [js_map]: "map_of (AList.update k v m) = (map_of m)(k \<mapsto> v)"
  by (rule update_conv')

lemma map_of_delete [js_map]: "map_of (AList.delete k m) = (map_of m)(k := None)"
  by (rule delete_conv')

lemma in_values: "distinct (js_keys m) \<Longrightarrow> v \<in> set (js_values m) \<longleftrightarrow> (\<exists>k. map_of m k = Some v)"
  by (force simp: map_of_eq_Some_iff image_iff)

text \<open>\<open>m.set(k, [...(m.get(k) ?? []), v])\<close>: append to the list kept under a key.\<close>

definition map_push :: "'k \<Rightarrow> 'v \<Rightarrow> ('k \<times> 'v list) list \<Rightarrow> ('k \<times> 'v list) list" where
  "map_push k v m = AList.update k ((case map_of m k of None \<Rightarrow> [] | Some vs \<Rightarrow> vs) @ [v]) m"

lemma map_of_map_push [js_map]:
  "map_of (map_push k v m) = (map_of m)(k \<mapsto> (case map_of m k of None \<Rightarrow> [] | Some vs \<Rightarrow> vs) @ [v])"
  by (simp add: map_push_def js_map)

lemma keys_map_push: "js_keys (map_push k v m) = (if k \<in> set (js_keys m) then js_keys m else js_keys m @ [k])"
  by (simp add: map_push_def update_keys)

text \<open>Grouping a list by a key, in the order of first appearance.\<close>

fun group_onto :: "('a \<Rightarrow> 'k) \<Rightarrow> ('k \<times> 'a list) list \<Rightarrow> 'a list \<Rightarrow> ('k \<times> 'a list) list" where
  "group_onto f m [] = m"
| "group_onto f m (x # xs) = group_onto f (map_push (f x) x m) xs"

definition group_by :: "('a \<Rightarrow> 'k) \<Rightarrow> 'a list \<Rightarrow> ('k \<times> 'a list) list" where
  "group_by f xs = group_onto f [] xs"

lemma keys_group_onto: "js_keys (group_onto f m xs) = set_onto (js_keys m) (map f xs)"
  by (induction xs arbitrary: m) (auto simp: keys_map_push)

lemma map_of_group_onto:
  "map_of (group_onto f m xs) k =
    (if map_of m k = None \<and> k \<notin> f ` set xs then None
     else Some ((case map_of m k of None \<Rightarrow> [] | Some vs \<Rightarrow> vs) @ filter (\<lambda>x. f x = k) xs))"
  by (induction xs arbitrary: m) (auto simp: js_map split: option.splits)

lemma keys_group_by [simp]: "js_keys (group_by f xs) = js_set (map f xs)"
  by (simp add: group_by_def js_set_def keys_group_onto)

lemma map_of_group_by [js_map]:
  "map_of (group_by f xs) k = (if k \<in> f ` set xs then Some (filter (\<lambda>x. f x = k) xs) else None)"
  by (simp add: group_by_def map_of_group_onto)

lemma group_by_entry:
  assumes "(k, ys) \<in> set (group_by f xs)"
  shows "k \<in> f ` set xs" and "ys = filter (\<lambda>x. f x = k) xs" and "ys \<noteq> []"
proof -
  have "map_of (group_by f xs) k = Some ys"
    using assms by (simp add: map_of_eq_Some_iff)
  then show k: "k \<in> f ` set xs" and ys: "ys = filter (\<lambda>x. f x = k) xs"
    by (auto simp: js_map split: if_splits)
  from k ys show "ys \<noteq> []" by (auto simp: filter_empty_conv)
qed

lemma mset_map_push:
  "distinct (js_keys m) \<Longrightarrow> mset (concat (js_values (map_push k v m))) = add_mset v (mset (concat (js_values m)))"
proof (induction m)
  case Nil
  then show ?case by (simp add: map_push_def)
next
  case (Cons p m)
  then show ?case
    by (cases "fst p = k"; cases p) (auto simp: map_push_def)
qed

lemma mset_group_onto:
  "distinct (js_keys m) \<Longrightarrow>
   mset (concat (js_values (group_onto f m xs))) = mset (concat (js_values m)) + mset xs"
proof (induction xs arbitrary: m)
  case (Cons x xs)
  then have "distinct (js_keys (map_push (f x) x m))"
    by (simp add: keys_map_push)
  with Cons show ?case by (simp add: mset_map_push)
qed simp

text \<open>No element is lost or duplicated by grouping.\<close>

lemma mset_group_by: "mset (concat (js_values (group_by f xs))) = mset xs"
  by (simp add: group_by_def mset_group_onto)

text \<open>Counting: \<open>m.set(k, (m.get(k) ?? 0) + 1)\<close>.\<close>

definition bump :: "'k \<Rightarrow> ('k \<times> nat) list \<Rightarrow> ('k \<times> nat) list" where
  "bump k m = AList.update k ((case map_of m k of None \<Rightarrow> 0 | Some n \<Rightarrow> n) + 1) m"

fun tally_onto :: "('k \<times> nat) list \<Rightarrow> 'k list \<Rightarrow> ('k \<times> nat) list" where
  "tally_onto m [] = m"
| "tally_onto m (k # ks) = tally_onto (bump k m) ks"

definition tally :: "'k list \<Rightarrow> ('k \<times> nat) list" where
  "tally ks = tally_onto [] ks"

lemma keys_bump: "js_keys (bump k m) = (if k \<in> set (js_keys m) then js_keys m else js_keys m @ [k])"
  by (simp add: bump_def update_keys)

lemma keys_tally_onto: "js_keys (tally_onto m ks) = set_onto (js_keys m) ks"
  by (induction ks arbitrary: m) (auto simp: keys_bump)

lemma keys_tally [simp]: "js_keys (tally ks) = js_set ks"
  by (simp add: tally_def js_set_def keys_tally_onto)

lemma map_of_tally_onto:
  "map_of (tally_onto m ks) k =
    (if map_of m k = None \<and> k \<notin> set ks then None
     else Some ((case map_of m k of None \<Rightarrow> 0 | Some n \<Rightarrow> n) + count_list ks k))"
  by (induction ks arbitrary: m) (auto simp: bump_def js_map split: option.splits)

lemma map_of_tally [js_map]:
  "map_of (tally ks) k = (if k \<in> set ks then Some (count_list ks k) else None)"
  by (simp add: tally_def map_of_tally_onto)

lemma tally_entry: "(k, n) \<in> set (tally ks) \<longleftrightarrow> k \<in> set ks \<and> n = count_list ks k"
proof -
  have "(k, n) \<in> set (tally ks) \<longleftrightarrow> map_of (tally ks) k = Some n"
    by (simp add: map_of_eq_Some_iff)
  then show ?thesis by (auto simp: js_map)
qed

section \<open>The stable sort\<close>

text \<open>
  \<open>Array.prototype.sort(cmp)\<close> is stable; \<open>le a b\<close> stands for \<open>cmp(a, b) <= 0\<close>. With a
  consistent comparator the result is determined, so insertion sort computes it.
\<close>

fun insert_by :: "('a \<Rightarrow> 'a \<Rightarrow> bool) \<Rightarrow> 'a \<Rightarrow> 'a list \<Rightarrow> 'a list" where
  "insert_by le x [] = [x]"
| "insert_by le x (y # ys) = (if le x y then x # y # ys else y # insert_by le x ys)"

fun js_sort :: "('a \<Rightarrow> 'a \<Rightarrow> bool) \<Rightarrow> 'a list \<Rightarrow> 'a list" where
  "js_sort le [] = []"
| "js_sort le (x # xs) = insert_by le x (js_sort le xs)"

lemma mset_insert_by [js_sort_facts]: "mset (insert_by le x xs) = add_mset x (mset xs)"
  by (induction xs) auto

lemma mset_js_sort [simp, js_sort_facts]: "mset (js_sort le xs) = mset xs"
  by (induction xs) (auto simp: mset_insert_by)

lemma set_js_sort [simp, js_sort_facts]: "set (js_sort le xs) = set xs"
  by (rule mset_eq_setD) simp

lemma length_js_sort [simp, js_sort_facts]: "length (js_sort le xs) = length xs"
  by (rule mset_eq_length) simp

lemma js_sort_Nil_iff [simp]: "js_sort le xs = [] \<longleftrightarrow> xs = []"
  by (metis set_js_sort set_empty)

lemma distinct_js_sort [simp]: "distinct (js_sort le xs) \<longleftrightarrow> distinct xs"
  by (metis mset_eq_imp_distinct_iff mset_js_sort)

lemma js_sort_singleton [simp]: "js_sort le [x] = [x]"
  by simp

text \<open>
  The contract of a comparator: a total preorder. What a caller may then rely on is
  proved once, and each comparator of the code is an interpretation.
\<close>

locale ranked =
  fixes le :: "'a \<Rightarrow> 'a \<Rightarrow> bool"
  assumes le_total: "le x y \<or> le y x"
    and le_trans: "le x y \<Longrightarrow> le y z \<Longrightarrow> le x z"
begin

lemma le_refl: "le x x"
  using le_total by blast

lemma sorted_insert_by: "sorted_wrt le ys \<Longrightarrow> sorted_wrt le (insert_by le x ys)"
proof (induction ys)
  case (Cons y ys)
  have set_ins: "set (insert_by le x ys) = insert x (set ys)"
    using mset_insert_by [of le x ys] by (metis set_mset_add_mset_insert set_mset_mset)
  show ?case
  proof (cases "le x y")
    case True
    with Cons.prems show ?thesis by (auto intro: le_trans)
  next
    case False
    then have "le y x" using le_total by blast
    with False Cons show ?thesis by (auto simp: set_ins)
  qed
qed simp

lemma sorted_js_sort: "sorted_wrt le (js_sort le xs)"
  by (induction xs) (auto intro: sorted_insert_by)

lemma insert_by_stable:
  "filter (\<lambda>y. le z y \<and> le y z) (insert_by le x ys) = filter (\<lambda>y. le z y \<and> le y z) (x # ys)"
  if "sorted_wrt le ys"
  using that
proof (induction ys)
  case (Cons y ys)
  show ?case
  proof (cases "le x y")
    case False
    then have "\<not> (le z x \<and> le x z \<and> le z y \<and> le y z)"
      using le_trans by blast
    with False Cons show ?thesis by auto
  qed simp
qed simp

text \<open>Equivalent elements keep their order.\<close>

lemma js_sort_stable: "filter (\<lambda>y. le z y \<and> le y z) (js_sort le xs) = filter (\<lambda>y. le z y \<and> le y z) xs"
  by (induction xs) (simp_all add: insert_by_stable sorted_js_sort)

lemma hd_js_sort_least: "x \<in> set xs \<Longrightarrow> le (hd (js_sort le xs)) x"
proof -
  assume x: "x \<in> set xs"
  then have "x \<in> set (js_sort le xs)" by simp
  moreover have "sorted_wrt le (js_sort le xs)" by (rule sorted_js_sort)
  ultimately show ?thesis by (cases "js_sort le xs") (auto intro: le_refl)
qed

lemma hd_js_sort_in: "xs \<noteq> [] \<Longrightarrow> hd (js_sort le xs) \<in> set xs"
  by (metis hd_in_set js_sort_Nil_iff set_js_sort)

lemma insert_by_sorted_id: "sorted_wrt le (x # xs) \<Longrightarrow> insert_by le x xs = x # xs"
  by (cases xs) auto

lemma js_sort_sorted_id: "sorted_wrt le xs \<Longrightarrow> js_sort le xs = xs"
  by (induction xs) (simp_all add: insert_by_sorted_id [simplified])

lemma js_sort_idem: "js_sort le (js_sort le xs) = js_sort le xs"
  by (rule js_sort_sorted_id) (rule sorted_js_sort)

end

text \<open>
  The loop that keeps the best element seen so far and replaces it only by a strictly better
  one; \<open>le y x\<close> is the negation of the loop's test \<open>x < y\<close>.
\<close>

definition keep_best :: "('a \<Rightarrow> 'a \<Rightarrow> bool) \<Rightarrow> 'a option \<Rightarrow> 'a \<Rightarrow> 'a option" where
  "keep_best le b x = (case b of None \<Rightarrow> Some x | Some y \<Rightarrow> if le y x then b else Some x)"

definition best_of :: "('a \<Rightarrow> 'a \<Rightarrow> bool) \<Rightarrow> 'a list \<Rightarrow> 'a option" where
  "best_of le xs = foldl (keep_best le) None xs"

lemma foldl_keep_best_None: "foldl (keep_best le) b xs = None \<longleftrightarrow> b = None \<and> xs = []"
  by (induction xs arbitrary: b) (auto simp: keep_best_def split: option.splits)

lemma best_of_None [simp]: "best_of le xs = None \<longleftrightarrow> xs = []"
  by (simp add: best_of_def foldl_keep_best_None)

lemma best_of_Nil [simp]: "best_of le [] = None"
  by simp

lemma foldl_keep_best_in: "foldl (keep_best le) b xs = Some y \<Longrightarrow> b = Some y \<or> y \<in> set xs"
proof (induction xs arbitrary: b)
  case (Cons x xs)
  then have "keep_best le b x = Some y \<or> y \<in> set xs" by simp
  then show ?case by (auto simp: keep_best_def split: option.splits if_splits)
qed simp

lemma best_of_in: "best_of le xs = Some y \<Longrightarrow> y \<in> set xs"
  using foldl_keep_best_in [of le None xs y] by (simp add: best_of_def)

context ranked
begin

lemma foldl_keep_best_least:
  "foldl (keep_best le) b xs = Some y \<Longrightarrow> x \<in> set_option b \<union> set xs \<Longrightarrow> le y x"
proof (induction xs arbitrary: b x)
  case Nil
  then show ?case by (auto intro: le_refl)
next
  case (Cons z xs)
  have "keep_best le b z \<noteq> None" by (simp add: keep_best_def split: option.splits)
  then obtain w where w: "keep_best le b z = Some w" by auto
  then have IH: "le y u" if "u = w \<or> u \<in> set xs" for u
    using Cons.IH [of "Some w" u] Cons.prems(1) that by auto
  have w_le: "le w z" "\<And>v. b = Some v \<Longrightarrow> le w v"
    using w le_total le_refl by (auto simp: keep_best_def split: option.splits if_splits)
  from Cons.prems(2) show ?case
    using IH w_le le_trans [of y w] by (auto split: option.splits)
qed

lemma best_of_least: "best_of le xs = Some y \<Longrightarrow> x \<in> set xs \<Longrightarrow> le y x"
  by (auto simp: best_of_def intro: foldl_keep_best_least)

end

text \<open>Comparing by a key into a linear order, as \<open>(a, b) => f(a) - f(b)\<close> does, up and down.\<close>

lemma ranked_key: "ranked (\<lambda>a b. f a \<le> (f b :: 'b :: linorder))"
  by unfold_locales auto

lemma ranked_key_desc: "ranked (\<lambda>a b. f b \<le> (f a :: 'b :: linorder))"
  by unfold_locales auto

text \<open>\<open>cmp1(a, b) || cmp2(a, b)\<close>: the second comparator decides ties of the first.\<close>

definition then_by :: "('a \<Rightarrow> 'a \<Rightarrow> bool) \<Rightarrow> ('a \<Rightarrow> 'a \<Rightarrow> bool) \<Rightarrow> 'a \<Rightarrow> 'a \<Rightarrow> bool" where
  "then_by le1 le2 a b \<longleftrightarrow> (if le1 a b \<and> le1 b a then le2 a b else le1 a b)"

lemma ranked_then_by:
  assumes "ranked le1" and "ranked le2"
  shows "ranked (then_by le1 le2)"
proof -
  have total: "le1 x y \<or> le1 y x" "le2 x y \<or> le2 y x" for x y
    using ranked.le_total [OF assms(1), of x y] ranked.le_total [OF assms(2), of x y] by auto
  have trans: "le1 x y \<Longrightarrow> le1 y z \<Longrightarrow> le1 x z" "le2 x y \<Longrightarrow> le2 y z \<Longrightarrow> le2 x z" for x y z
    using ranked.le_trans [OF assms(1), of x y z] ranked.le_trans [OF assms(2), of x y z] by auto
  show ?thesis
  proof (unfold_locales, goal_cases)
    case (1 x y)
    then show ?case using total [of x y] by (auto simp: then_by_def)
  next
    case (2 x y z)
    then have "le1 x y" "le1 y z" by (auto simp: then_by_def split: if_splits)
    then have xz: "le1 x z" by (rule trans)
    show ?case
    proof (cases "le1 z x")
      case True
      then have "le1 y x" "le1 z y" using trans(1) \<open>le1 x y\<close> \<open>le1 y z\<close> by blast+
      with 2 \<open>le1 x y\<close> \<open>le1 y z\<close> have "le2 x y" "le2 y z" by (auto simp: then_by_def)
      then have "le2 x z" by (rule trans)
      with xz True show ?thesis by (simp add: then_by_def)
    next
      case False
      with xz show ?thesis by (simp add: then_by_def)
    qed
  qed
qed

lemma ranked_on: "ranked le \<Longrightarrow> ranked (\<lambda>a b. le (f a) (f b))"
  unfolding ranked_def by metis

lemma sorted_wrt_weaken: "sorted_wrt P xs \<Longrightarrow> (\<And>x y. P x y \<Longrightarrow> Q x y) \<Longrightarrow> sorted_wrt Q xs"
  by (rule sorted_wrt_mono_rel) auto

text \<open>\<open>localeCompare\<close> is implementation-defined; the language only promises a consistent comparator.\<close>

definition consistent_compare :: "('a \<Rightarrow> 'a \<Rightarrow> bool) \<Rightarrow> bool" where
  "consistent_compare le \<longleftrightarrow> (\<forall>x y. le x y \<or> le y x) \<and> (\<forall>x y z. le x y \<longrightarrow> le y z \<longrightarrow> le x z)"

lemma consistent_compare_ranked: "consistent_compare le \<longleftrightarrow> ranked le"
  by (auto simp: consistent_compare_def ranked_def)

section \<open>Lists\<close>

lemma find_Some_iff: "List.find P xs = Some x \<Longrightarrow> x \<in> set xs \<and> P x"
  by (induction xs) (auto split: if_splits)

lemma find_None_conv: "List.find P xs = None \<longleftrightarrow> (\<forall>x \<in> set xs. \<not> P x)"
  by (induction xs) auto

text \<open>\<open>xs.slice(i, i + n)\<close> for each multiple of \<open>n\<close>: cutting a list into chunks.\<close>

function chunks :: "nat \<Rightarrow> 'a list \<Rightarrow> 'a list list" where
  "chunks n xs = (if xs = [] \<or> n = 0 then [] else take n xs # chunks n (drop n xs))"
  by pat_completeness auto
termination
  by (relation "measure (\<lambda>(n, xs). length xs)") auto

declare chunks.simps [simp del]

lemma concat_chunks: "0 < n \<Longrightarrow> concat (chunks n xs) = xs"
proof (induction n xs rule: chunks.induct)
  case (1 n xs)
  then show ?case by (cases "xs = []") (simp_all add: chunks.simps [of n xs] chunks.simps [of n "[]"])
qed

lemma chunks_bounds: "c \<in> set (chunks n xs) \<Longrightarrow> c \<noteq> [] \<and> length c \<le> n"
proof (induction n xs rule: chunks.induct)
  case (1 n xs)
  show ?case
  proof (cases "xs = [] \<or> n = 0")
    case True
    with 1 show ?thesis by (simp add: chunks.simps [of n xs])
  next
    case False
    with "1.prems" have "c = take n xs \<or> c \<in> set (chunks n (drop n xs))"
      by (simp add: chunks.simps [of n xs])
    with False "1.IH" show ?thesis by auto
  qed
qed

lemma in_map_filter: "y \<in> set (List.map_filter f xs) \<longleftrightarrow> (\<exists>x \<in> set xs. f x = Some y)"
  by (induction xs) (auto simp: List.map_filter_simps split: option.splits)

end
