(* ===== verification/JsText.thy ===== *)
theory JsText
  imports Prelude
begin

text \<open>
  JavaScript strings as the code uses them: lists of UTF-16 code units (as integers), with the operations
  of \<open>String.prototype\<close> the source calls. Latin literals are written \<open>la ''abc''\<close>; Cyrillic
  ones \<open>ru ''moloko''\<close>, one ASCII letter for one Cyrillic letter. Case mapping is exact on
  Latin-1 and Cyrillic, the alphabets of the shops' catalogues, and the identity elsewhere.
\<close>

type_synonym jstr = "int list"

section \<open>Literals\<close>

definition la :: "string \<Rightarrow> jstr" where
  "la s = map of_char s"

text \<open>
  The lower-case Cyrillic letters from U+0430 to U+044F in order (\<open>C\<close>, \<open>S\<close>, \<open>W\<close>, \<open>X\<close>,
  \<open>Y\<close>, \<open>x\<close>, \<open>E\<close>, \<open>U\<close>, \<open>A\<close> are che, sha, shcha, the hard sign, yery, the soft sign, e, yu
  and ya), then yo and the Kazakh letters. Everything else stands for itself.
\<close>

definition ru_table :: "(char \<times> int) list" where
  "ru_table = zip ''abvgdejziyklmnoprstufhcCSWXYxEUA'' [1072..1103] @
     [(CHR ''O'', 1105), (CHR ''F'', 1241), (CHR ''G'', 1171), (CHR ''K'', 1179), (CHR ''N'', 1187),
      (CHR ''D'', 1257), (CHR ''L'', 1201), (CHR ''V'', 1199), (CHR ''H'', 1211), (CHR ''I'', 1110)]"

definition ru_char :: "char \<Rightarrow> int" where
  "ru_char c = (case map_of ru_table c of Some u \<Rightarrow> u | None \<Rightarrow> of_char c)"

definition ru :: "string \<Rightarrow> jstr" where
  "ru s = map ru_char s"

section \<open>Characters\<close>

definition lower_ch :: "int \<Rightarrow> int" where
  "lower_ch c =
    (if 65 \<le> c \<and> c \<le> 90 \<or> 192 \<le> c \<and> c \<le> 222 \<and> c \<noteq> 215 \<or> 1040 \<le> c \<and> c \<le> 1071 then c + 32
     else if 1024 \<le> c \<and> c \<le> 1039 then c + 80
     else if (1120 \<le> c \<and> c \<le> 1152 \<or> 1162 \<le> c \<and> c \<le> 1214 \<or> 1232 \<le> c \<and> c \<le> 1326) \<and> even c then c + 1
     else if 1217 \<le> c \<and> c \<le> 1229 \<and> odd c then c + 1
     else if c = 1216 then 1231
     else c)"

definition upper_ch :: "int \<Rightarrow> int" where
  "upper_ch c =
    (if 97 \<le> c \<and> c \<le> 122 \<or> 224 \<le> c \<and> c \<le> 254 \<and> c \<noteq> 247 \<or> 1072 \<le> c \<and> c \<le> 1103 then c - 32
     else if 1104 \<le> c \<and> c \<le> 1119 then c - 80
     else if (1121 \<le> c \<and> c \<le> 1153 \<or> 1163 \<le> c \<and> c \<le> 1215 \<or> 1233 \<le> c \<and> c \<le> 1327) \<and> odd c then c - 1
     else if 1218 \<le> c \<and> c \<le> 1230 \<and> even c then c - 1
     else if c = 1231 then 1216
     else c)"

definition digit_ch :: "int \<Rightarrow> bool" where
  "digit_ch c \<longleftrightarrow> 48 \<le> c \<and> c \<le> 57"

definition space_ch :: "int \<Rightarrow> bool" where
  "space_ch c \<longleftrightarrow> 9 \<le> c \<and> c \<le> 13 \<or> c = 32 \<or> c = 160 \<or> c = 5760 \<or> 8192 \<le> c \<and> c \<le> 8202 \<or>
     c = 8232 \<or> c = 8233 \<or> c = 8239 \<or> c = 8287 \<or> c = 12288 \<or> c = 65279"

definition word_ch :: "int \<Rightarrow> bool" where
  "word_ch c \<longleftrightarrow> digit_ch c \<or> 65 \<le> c \<and> c \<le> 90 \<or> 97 \<le> c \<and> c \<le> 122 \<or> c = 95"

section \<open>String operations\<close>

definition to_lower :: "jstr \<Rightarrow> jstr" where
  "to_lower = map lower_ch"

definition cap :: "jstr \<Rightarrow> jstr" where
  "cap s = (case s of [] \<Rightarrow> [] | c # t \<Rightarrow> upper_ch c # t)"

definition trim :: "jstr \<Rightarrow> jstr" where
  "trim s = rev (dropWhile space_ch (rev (dropWhile space_ch s)))"

fun starts_with :: "jstr \<Rightarrow> jstr \<Rightarrow> bool" where
  "starts_with s [] = True"
| "starts_with [] (p # ps) = False"
| "starts_with (c # s) (p # ps) = (c = p \<and> starts_with s ps)"

fun str_includes :: "jstr \<Rightarrow> jstr \<Rightarrow> bool" where
  "str_includes [] p = (p = [])"
| "str_includes (c # s) p = (starts_with (c # s) p \<or> str_includes s p)"

definition ends_with :: "jstr \<Rightarrow> jstr \<Rightarrow> bool" where
  "ends_with s p = starts_with (rev s) (rev p)"

fun join :: "jstr \<Rightarrow> jstr list \<Rightarrow> jstr" where
  "join sep [] = []"
| "join sep [x] = x"
| "join sep (x # y # xs) = x @ sep @ join sep (y # xs)"

text \<open>\<open>s.split(c)\<close> for a one-character separator; the result is never empty.\<close>

fun split_ch :: "int \<Rightarrow> jstr \<Rightarrow> jstr list" where
  "split_ch d [] = [[]]"
| "split_ch d (c # s) =
    (if c = d then [] # split_ch d s
     else (case split_ch d s of [] \<Rightarrow> [[c]] | w # ws \<Rightarrow> (c # w) # ws))"

text \<open>\<open>a < b\<close> on strings compares code units lexicographically.\<close>

definition str_le :: "jstr \<Rightarrow> jstr \<Rightarrow> bool" where
  "str_le a b \<longleftrightarrow> a \<le> b"

text \<open>\<open>Buffer.byteLength\<close>: the bytes of a text in UTF-8; a lone surrogate counts three.\<close>

fun byte_length :: "jstr \<Rightarrow> nat" where
  "byte_length [] = 0"
| "byte_length (c # s) =
    (if c < 128 then 1 + byte_length s
     else if c < 2048 then 2 + byte_length s
     else if 55296 \<le> c \<and> c \<le> 56319 then
       (case s of
          d # t \<Rightarrow> if 56320 \<le> d \<and> d \<le> 57343 then 4 + byte_length t else 3 + byte_length s
        | [] \<Rightarrow> 3)
     else 3 + byte_length s)"

section \<open>Numbers in strings\<close>

function show_nat :: "int \<Rightarrow> jstr" where
  "show_nat n = (if n < 10 then [48 + n] else show_nat (n div 10) @ [48 + n mod 10])"
  by pat_completeness auto
termination
  by (relation "measure nat") auto

declare show_nat.simps [simp del]

definition show_int :: "int \<Rightarrow> jstr" where
  "show_int i = (if i < 0 then 45 # show_nat (- i) else show_nat i)"

text \<open>The value of a string of decimal digits, most significant first.\<close>

definition digits_val :: "jstr \<Rightarrow> int" where
  "digits_val s = foldl (\<lambda>a d. 10 * a + (d - 48)) 0 s"

text \<open>\<open>Number\<close> or \<open>parseFloat\<close> of digits with an optional fraction (\<open>12\<close>, \<open>3.25\<close>), exactly.\<close>

definition dec_val :: "jstr \<Rightarrow> rat" where
  "dec_val s =
    (case split_ch 46 s of
       [i] \<Rightarrow> of_int (digits_val i)
     | [i, f] \<Rightarrow> of_int (digits_val i) + of_int (digits_val f) / 10 ^ length f
     | _ \<Rightarrow> 0)"

text \<open>
  \<open>`${n}`\<close> of a non-negative number with a finite decimal expansion of at most \<open>fuel\<close>
  fractional digits.
\<close>

fun show_frac :: "nat \<Rightarrow> rat \<Rightarrow> jstr" where
  "show_frac 0 q = []"
| "show_frac (Suc k) q =
    (if q = 0 then [] else (48 + \<lfloor>10 * q\<rfloor>) # show_frac k (10 * q - of_int \<lfloor>10 * q\<rfloor>))"

definition show_num :: "rat \<Rightarrow> jstr" where
  "show_num q =
    (let i = \<lfloor>\<bar>q\<bar>\<rfloor>; f = \<bar>q\<bar> - of_int i
     in (if q < 0 then [45] else []) @ show_nat i @ (if f = 0 then [] else 46 # show_frac 17 f))"

text \<open>\<open>Math.round\<close>: to the nearest integer, halves upwards.\<close>

definition js_round :: "rat \<Rightarrow> int" where
  "js_round q = \<lfloor>q + 1 / 2\<rfloor>"

section \<open>Lemmas\<close>

lemma to_lower_append [simp]: "to_lower (s @ t) = to_lower s @ to_lower t"
  by (simp add: to_lower_def)

lemma length_to_lower [simp]: "length (to_lower s) = length s"
  by (simp add: to_lower_def)

lemma starts_with_iff: "starts_with s p \<longleftrightarrow> (\<exists>t. s = p @ t)"
  by (induction s p rule: starts_with.induct) auto

lemma str_includes_iff: "str_includes s p \<longleftrightarrow> (\<exists>a b. s = a @ p @ b)"
proof (induction s)
  case (Cons c s)
  have "(\<exists>a b. c # s = a @ p @ b) \<longleftrightarrow> (\<exists>b. c # s = p @ b) \<or> (\<exists>a b. s = a @ p @ b)"
    by (metis append_Cons append_Nil neq_Nil_conv list.sel(3))
  with Cons show ?case by (simp add: starts_with_iff)
qed auto

lemma str_includes_append: "str_includes s p \<Longrightarrow> str_includes (a @ s @ b) p"
  unfolding str_includes_iff by (metis append.assoc)

lemma ends_with_iff: "ends_with s p \<longleftrightarrow> (\<exists>t. s = t @ p)"
  by (auto simp: ends_with_def starts_with_iff) (metis rev_append rev_rev_ident)

lemma split_ch_not_Nil [simp]: "split_ch d s \<noteq> []"
  by (induction s) (auto split: list.splits)

lemma join_split_ch: "join [d] (split_ch d s) = s"
proof (induction s)
  case (Cons c s)
  then show ?case
    by (cases "split_ch d s" rule: list.exhaust; cases "tl (split_ch d s)") auto
qed simp

lemma split_ch_no_sep: "w \<in> set (split_ch d s) \<Longrightarrow> d \<notin> set w"
  by (induction s arbitrary: w) (auto split: list.splits if_splits)

lemma split_ch_word: "d \<notin> set w \<Longrightarrow> split_ch d w = [w]"
  by (induction w) auto

lemma split_ch_append: "d \<notin> set w \<Longrightarrow> split_ch d (w @ d # s) = w # split_ch d s"
  by (induction w) auto

lemma set_dropWhile_subset: "set (dropWhile P s) \<subseteq> set s"
  by (induction s) auto

lemma trim_subset: "set (trim s) \<subseteq> set s"
  using set_dropWhileD [of _ space_ch] unfolding trim_def by (metis set_rev subsetI)

lemma trim_Nil [simp]: "trim [] = []"
  by (simp add: trim_def)

lemma dropWhile_all: "(\<forall>c \<in> set (dropWhile P s). P c) \<longleftrightarrow> (\<forall>c \<in> set s. P c)"
  by (induction s) auto

lemma trim_Nil_iff: "trim s = [] \<longleftrightarrow> (\<forall>c \<in> set s. space_ch c)"
  by (simp add: trim_def dropWhile_eq_Nil_conv dropWhile_all)

lemma trim_ends:
  assumes "trim s \<noteq> []"
  shows "\<not> space_ch (hd (trim s))" and "\<not> space_ch (last (trim s))"
proof -
  let ?u = "dropWhile space_ch s"
  have u: "?u \<noteq> []" using assms by (metis dropWhile.simps(1) rev.simps(1) trim_def)
  then have hd_u: "\<not> space_ch (hd ?u)" by (rule hd_dropWhile)
  have t: "dropWhile space_ch (rev ?u) \<noteq> []" using assms by (simp add: trim_def)
  from hd_dropWhile [OF t] show "\<not> space_ch (last (trim s))"
    by (simp add: trim_def last_rev)
  obtain v where "rev ?u = v @ dropWhile space_ch (rev ?u)"
    by (metis takeWhile_dropWhile_id)
  then have "last (rev ?u) = last (dropWhile space_ch (rev ?u))"
    using t by (metis last_appendR)
  then show "\<not> space_ch (hd (trim s))"
    using hd_u u t by (simp add: trim_def hd_rev last_rev)
qed

lemma dropWhile_hd: "s \<noteq> [] \<Longrightarrow> \<not> P (hd s) \<Longrightarrow> dropWhile P s = s"
  by (cases s) auto

lemma trim_idem [simp]: "trim (trim s) = trim s"
proof (cases "trim s = []")
  case False
  then have "dropWhile space_ch (trim s) = trim s"
    by (intro dropWhile_hd trim_ends)
  moreover have "dropWhile space_ch (rev (trim s)) = rev (trim s)"
    using False by (intro dropWhile_hd) (simp_all add: hd_rev trim_ends)
  ultimately show ?thesis by (subst trim_def) simp
qed simp

lemma digits_val_snoc: "digits_val (s @ [d]) = 10 * digits_val s + (d - 48)"
  by (simp add: digits_val_def)

lemma digits_val_Nil [simp]: "digits_val [] = 0"
  by (simp add: digits_val_def)

lemma show_nat_digits: "0 \<le> n \<Longrightarrow> show_nat n \<noteq> [] \<and> (\<forall>d \<in> set (show_nat n). digit_ch d)"
proof (induction n rule: show_nat.induct)
  case (1 n)
  show ?case
  proof (cases "n < 10")
    case True
    with 1 show ?thesis by (simp add: show_nat.simps [of n] digit_ch_def)
  next
    case False
    then have "0 \<le> n div 10" and "0 \<le> n mod 10" and "n mod 10 < 10" by auto
    with 1 False show ?thesis by (auto simp: show_nat.simps [of n] digit_ch_def)
  qed
qed

text \<open>Printing a natural number and reading it back.\<close>

lemma digits_val_show_nat [simp]: "0 \<le> n \<Longrightarrow> digits_val (show_nat n) = n"
proof (induction n rule: show_nat.induct)
  case (1 n)
  show ?case
  proof (cases "n < 10")
    case True
    then show ?thesis by (simp add: show_nat.simps [of n] digits_val_def)
  next
    case False
    with 1 show ?thesis by (simp add: show_nat.simps [of n] digits_val_snoc)
  qed
qed

lemma show_nat_inj: "0 \<le> m \<Longrightarrow> 0 \<le> n \<Longrightarrow> show_nat m = show_nat n \<longleftrightarrow> m = n"
  by (metis digits_val_show_nat)

lemma show_int_inj: "show_int m = show_int n \<longleftrightarrow> m = n"
proof
  have no_minus: "hd (show_nat k) \<noteq> 45" if "0 \<le> k" for k
    using show_nat_digits [OF that] by (cases "show_nat k") (auto simp: digit_ch_def)
  assume eq: "show_int m = show_int n"
  show "m = n"
  proof (cases "m < 0"; cases "n < 0")
    assume "m < 0" "n < 0"
    with eq show ?thesis using show_nat_inj [of "- m" "- n"] by (simp add: show_int_def)
  next
    assume "m < 0" "\<not> n < 0"
    with eq no_minus [of n] show ?thesis by (simp add: show_int_def) (metis list.sel(1) not_less)
  next
    assume "\<not> m < 0" "n < 0"
    with eq no_minus [of m] show ?thesis by (simp add: show_int_def)
  next
    assume "\<not> m < 0" "\<not> n < 0"
    with eq show ?thesis using show_nat_inj [of m n] by (simp add: show_int_def)
  qed
qed simp

lemma digits_no_dot: "\<forall>d \<in> set s. digit_ch d \<Longrightarrow> split_ch 46 s = [s]"
  by (rule split_ch_word) (auto simp: digit_ch_def)

lemma dec_val_digits: "\<forall>d \<in> set s. digit_ch d \<Longrightarrow> dec_val s = of_int (digits_val s)"
  by (simp add: dec_val_def digits_no_dot)

lemma digits_val_nonneg: "\<forall>d \<in> set s. digit_ch d \<Longrightarrow> 0 \<le> digits_val s"
  by (induction s rule: rev_induct) (auto simp: digits_val_snoc digit_ch_def)

lemma js_round_int [simp]: "js_round (of_int i) = i"
  unfolding js_round_def by linarith

lemma js_round_nonneg: "0 \<le> q \<Longrightarrow> 0 \<le> js_round q"
  by (simp add: js_round_def)

lemma js_round_mono: "p \<le> q \<Longrightarrow> js_round p \<le> js_round q"
  by (simp add: js_round_def floor_mono)

lemma js_round_near: "\<bar>of_int (js_round q) - q\<bar> \<le> 1 / 2"
  unfolding js_round_def by linarith

lemma js_round_pos: "1 / 2 \<le> q \<Longrightarrow> 1 \<le> js_round q"
  unfolding js_round_def by linarith

end
