(* ===== verification/JsValue.thy ===== *)
theory JsValue
  imports JsText
begin

text \<open>
  Untyped JavaScript values, for the places where the source handles \<open>unknown\<close>: query
  strings, JSON columns, language-model replies. A finite number is an exact rational; the
  source only parses, compares and rounds decimals of a few digits, on which doubles and
  rationals agree. Objects are association lists in insertion order.
\<close>

datatype jnum = Fin rat | PosInf | NegInf | NaN

datatype jval =
    JUndef
  | JNull
  | JBool bool
  | JNum jnum
  | JStr jstr
  | JArr "jval list"
  | JObj "(jstr \<times> jval) list"

datatype jtype = TUndefined | TObject | TBoolean | TNumber | TString

fun type_of :: "jval \<Rightarrow> jtype" where
  "type_of JUndef = TUndefined"
| "type_of JNull = TObject"
| "type_of (JBool _) = TBoolean"
| "type_of (JNum _) = TNumber"
| "type_of (JStr _) = TString"
| "type_of (JArr _) = TObject"
| "type_of (JObj _) = TObject"

fun is_finite :: "jnum \<Rightarrow> bool" where
  "is_finite (Fin _) = True"
| "is_finite _ = False"

text \<open>\<open>obj[key]\<close> on a plain object: \<open>undefined\<close> when the key is absent.\<close>

definition obj_get :: "(jstr \<times> jval) list \<Rightarrow> jstr \<Rightarrow> jval" where
  "obj_get ob k = (case map_of ob k of None \<Rightarrow> JUndef | Some v \<Rightarrow> v)"

text \<open>A primitive: what a filter option or an attribute can be (\<open>None\<close> stands for null).\<close>

datatype prim = PStr jstr | PNum jnum | PBool bool

fun prim_type :: "prim \<Rightarrow> jtype" where
  "prim_type (PStr _) = TString"
| "prim_type (PNum _) = TNumber"
| "prim_type (PBool _) = TBoolean"

fun as_prim :: "jval \<Rightarrow> prim option" where
  "as_prim (JStr s) = Some (PStr s)"
| "as_prim (JNum n) = Some (PNum n)"
| "as_prim (JBool b) = Some (PBool b)"
| "as_prim _ = None"

definition num :: "rat \<Rightarrow> prim" where
  "num q = PNum (Fin q)"

lemma num_inject [simp]: "num p = num q \<longleftrightarrow> p = q"
  by (simp add: num_def)

lemma prim_type_num [simp]: "prim_type (num q) = TNumber"
  by (simp add: num_def)

text \<open>\<open>String(v)\<close> of a primitive.\<close>

fun prim_text :: "prim \<Rightarrow> jstr" where
  "prim_text (PStr s) = s"
| "prim_text (PNum n) = (case n of Fin q \<Rightarrow> show_num q | PosInf \<Rightarrow> la ''Infinity'' | NegInf \<Rightarrow> la ''-Infinity'' | NaN \<Rightarrow> la ''NaN'')"
| "prim_text (PBool b) = (if b then la ''true'' else la ''false'')"

text \<open>JavaScript truthiness of an optional string and of an optional number.\<close>

definition truthy_str :: "jstr option \<Rightarrow> bool" where
  "truthy_str s \<longleftrightarrow> s \<noteq> None \<and> s \<noteq> Some []"

definition truthy_num :: "rat option \<Rightarrow> bool" where
  "truthy_num n \<longleftrightarrow> n \<noteq> None \<and> n \<noteq> Some 0"

text \<open>\<open>s || undefined\<close>.\<close>

definition or_undefined :: "jstr option \<Rightarrow> jstr option" where
  "or_undefined s = (if truthy_str s then s else None)"

lemma or_undefined_Some [simp]: "or_undefined s = Some t \<longleftrightarrow> s = Some t \<and> t \<noteq> []"
  by (auto simp: or_undefined_def truthy_str_def)

lemma or_undefined_None [simp]: "or_undefined s = None \<longleftrightarrow> \<not> truthy_str s"
  by (auto simp: or_undefined_def truthy_str_def)

end
