(* ===== verification/JsRegex.thy ===== *)
theory JsRegex
  imports JsText
begin

text \<open>
  The part of ECMAScript's \<open>RegExp\<close> the source uses. A pattern is a value of \<open>rx\<close>; the
  matcher returns every way a pattern can match at a position, in the order the language's
  backtracking search tries them, so the first element is the match JavaScript reports.
  Patterns with the \<open>i\<close> flag are written in lower case and run on the lower-cased text.
\<close>

text \<open>A character class: its ranges, and whether it is negated.\<close>

datatype cls = Cls (negated: bool) (ranges: "(int \<times> int) list")

definition in_cls :: "cls \<Rightarrow> int \<Rightarrow> bool" where
  "in_cls k c \<longleftrightarrow> (list_ex (\<lambda>(a, b). a \<le> c \<and> c \<le> b) (ranges k)) \<noteq> negated k"

datatype rx =
    Eps
  | Ch cls
  | Sq rx rx
  | Alt rx rx
  | Star bool rx         \<comment> \<open>greedy or lazy\<close>
  | Grp nat rx           \<comment> \<open>capture group\<close>
  | Ahead bool rx        \<comment> \<open>lookahead; \<open>True\<close> for the positive one\<close>
  | NotBehind cls        \<comment> \<open>negative lookbehind on one character\<close>
  | WordB                \<comment> \<open>word boundary\<close>
  | Bol
  | Eol

text \<open>A position: what is before it (reversed), what is after it, and the captures so far.\<close>

type_synonym rx_pos = "jstr \<times> jstr \<times> (nat \<times> jstr) list"

abbreviation "pos_rest p \<equiv> fst (snd p)"
abbreviation "pos_before p \<equiv> fst p"
abbreviation "pos_caps p \<equiv> snd (snd p)"

definition word_boundary :: "jstr \<Rightarrow> jstr \<Rightarrow> bool" where
  "word_boundary b r \<longleftrightarrow>
    ((case b of [] \<Rightarrow> False | c # _ \<Rightarrow> word_ch c) \<noteq> (case r of [] \<Rightarrow> False | c # _ \<Rightarrow> word_ch c))"

function rx_run :: "rx \<Rightarrow> rx_pos \<Rightarrow> rx_pos list" where
  "rx_run Eps p = [p]"
| "rx_run (Ch k) p =
    (case pos_rest p of [] \<Rightarrow> []
     | c # r \<Rightarrow> if in_cls k c then [(c # pos_before p, r, pos_caps p)] else [])"
| "rx_run (Sq e f) p = concat (map (rx_run f) (rx_run e p))"
| "rx_run (Alt e f) p = rx_run e p @ rx_run f p"
| "rx_run (Star g e) p =
    (let more = concat (map (\<lambda>q. if length (pos_rest q) < length (pos_rest p) then rx_run (Star g e) q else [])
                            (rx_run e p))
     in if g then more @ [p] else p # more)"
| "rx_run (Grp n e) p =
    map (\<lambda>(b, r, cs). (b, r, (n, take (length (pos_rest p) - length r) (pos_rest p)) # cs)) (rx_run e p)"
| "rx_run (Ahead pos e) p = (if (rx_run e p \<noteq> []) = pos then [p] else [])"
| "rx_run (NotBehind k) p = (case pos_before p of c # _ \<Rightarrow> if in_cls k c then [] else [p] | [] \<Rightarrow> [p])"
| "rx_run WordB p = (if word_boundary (pos_before p) (pos_rest p) then [p] else [])"
| "rx_run Bol p = (if pos_before p = [] then [p] else [])"
| "rx_run Eol p = (if pos_rest p = [] then [p] else [])"
  by pat_completeness auto
termination
  by (relation "measures [\<lambda>(e, p). size e, \<lambda>(e, p). length (pos_rest p)]") auto

declare rx_run.simps(5) [simp del]

text \<open>\<open>re.exec(s)\<close>: the leftmost start that matches, and the first match there.\<close>

fun rx_exec_from :: "rx \<Rightarrow> jstr \<Rightarrow> jstr \<Rightarrow> (nat \<times> jstr) list option" where
  "rx_exec_from e b [] = (case rx_run e (b, [], []) of q # _ \<Rightarrow> Some (pos_caps q) | [] \<Rightarrow> None)"
| "rx_exec_from e b (c # s) =
    (case rx_run e (b, c # s, []) of q # _ \<Rightarrow> Some (pos_caps q) | [] \<Rightarrow> rx_exec_from e (c # b) s)"

definition rx_exec :: "rx \<Rightarrow> jstr \<Rightarrow> (nat \<times> jstr) list option" where
  "rx_exec e s = rx_exec_from e [] s"

definition rx_test :: "rx \<Rightarrow> jstr \<Rightarrow> bool" where
  "rx_test e s \<longleftrightarrow> rx_exec e s \<noteq> None"

text \<open>\<open>re.exec(s)?.[n]\<close>.\<close>

definition rx_group :: "nat \<Rightarrow> rx \<Rightarrow> jstr \<Rightarrow> jstr option" where
  "rx_group n e s = (case rx_exec e s of None \<Rightarrow> None | Some cs \<Rightarrow> map_of cs n)"

text \<open>\<open>s.replace(re, f)\<close> with the \<open>g\<close> flag, for patterns that match at least one character.\<close>

function rx_replace_from :: "rx \<Rightarrow> ((nat \<times> jstr) list \<Rightarrow> jstr) \<Rightarrow> jstr \<Rightarrow> jstr \<Rightarrow> jstr" where
  "rx_replace_from e f b s =
    (case s of [] \<Rightarrow> []
     | c # t \<Rightarrow>
        (case rx_run e (b, s, []) of
           q # _ \<Rightarrow> if length (pos_rest q) < length s
             then f (pos_caps q) @ rx_replace_from e f (pos_before q) (pos_rest q)
             else c # rx_replace_from e f (c # b) t
         | [] \<Rightarrow> c # rx_replace_from e f (c # b) t))"
  by pat_completeness auto
termination
  by (relation "measure (\<lambda>(e, f, b, s). length s)") auto

declare rx_replace_from.simps [simp del]

definition rx_replace :: "rx \<Rightarrow> ((nat \<times> jstr) list \<Rightarrow> jstr) \<Rightarrow> jstr \<Rightarrow> jstr" where
  "rx_replace e f s = rx_replace_from e f [] s"

text \<open>\<open>s.matchAll(re)\<close>, for patterns that match at least one character.\<close>

function rx_matches_from :: "rx \<Rightarrow> jstr \<Rightarrow> jstr \<Rightarrow> (nat \<times> jstr) list list" where
  "rx_matches_from e b s =
    (case s of [] \<Rightarrow> []
     | c # t \<Rightarrow>
        (case rx_run e (b, s, []) of
           q # _ \<Rightarrow> if length (pos_rest q) < length s
             then pos_caps q # rx_matches_from e (pos_before q) (pos_rest q)
             else rx_matches_from e (c # b) t
         | [] \<Rightarrow> rx_matches_from e (c # b) t))"
  by pat_completeness auto
termination
  by (relation "measure (\<lambda>(e, b, s). length s)") auto

declare rx_matches_from.simps [simp del]

definition rx_matches :: "rx \<Rightarrow> jstr \<Rightarrow> (nat \<times> jstr) list list" where
  "rx_matches e s = rx_matches_from e [] s"

section \<open>Pattern syntax\<close>

definition chr :: "int \<Rightarrow> rx" where "chr c = Ch (Cls False [(c, c)])"

fun sq :: "rx list \<Rightarrow> rx" where
  "sq [] = Eps"
| "sq [e] = e"
| "sq (e # f # es) = Sq e (sq (f # es))"

fun alts :: "rx list \<Rightarrow> rx" where
  "alts [] = Ahead False Eps"
| "alts [e] = e"
| "alts (e # f # es) = Alt e (alts (f # es))"

definition lit :: "jstr \<Rightarrow> rx" where "lit s = sq (map chr s)"

definition opt :: "rx \<Rightarrow> rx" where "opt e = Alt e Eps"
definition many :: "rx \<Rightarrow> rx" where "many e = Star True e"
definition many1 :: "rx \<Rightarrow> rx" where "many1 e = Sq e (Star True e)"

text \<open>\<open>e{1,n}\<close>, greedy, as nested options.\<close>

fun upto_times :: "nat \<Rightarrow> rx \<Rightarrow> rx" where
  "upto_times 0 e = Eps"
| "upto_times (Suc n) e = Alt (Sq e (upto_times n e)) Eps"

definition c_digit :: cls where "c_digit = Cls False [(48, 57)]"
definition c_word :: cls where "c_word = Cls False [(48, 57), (65, 90), (95, 95), (97, 122)]"
definition c_any :: cls where "c_any = Cls True []"
text \<open>\<open>.\<close> in a pattern: anything but a line terminator.\<close>
definition c_dot :: cls where "c_dot = Cls True [(10, 10), (13, 13), (8232, 8233)]"
definition c_space :: cls where
  "c_space = Cls False [(9, 13), (32, 32), (160, 160), (5760, 5760), (8192, 8202), (8232, 8233),
     (8239, 8239), (8287, 8287), (12288, 12288), (65279, 65279)]"
text \<open>\<open>[a-z]\<close> with the Cyrillic range \<open>U+0430-U+044F\<close>, and that range alone.\<close>
definition c_ru_la :: cls where "c_ru_la = Cls False [(1072, 1103), (97, 122)]"
definition c_ru :: cls where "c_ru = Cls False [(1072, 1103)]"

text \<open>\<open>\d+(?:\.\d+)?\<close>, the decimal number of the unit patterns.\<close>

definition rx_decimal :: rx where
  "rx_decimal = Sq (many1 (Ch c_digit)) (opt (Sq (chr 46) (many1 (Ch c_digit))))"

section \<open>What a match consumes\<close>

text \<open>Every character a pattern can consume satisfies \<open>P\<close>, by inspection of its classes.\<close>

fun rx_only :: "(int \<Rightarrow> bool) \<Rightarrow> rx \<Rightarrow> bool" where
  "rx_only P (Ch k) \<longleftrightarrow> (\<forall>c. in_cls k c \<longrightarrow> P c)"
| "rx_only P (Sq e f) \<longleftrightarrow> rx_only P e \<and> rx_only P f"
| "rx_only P (Alt e f) \<longleftrightarrow> rx_only P e \<and> rx_only P f"
| "rx_only P (Star g e) \<longleftrightarrow> rx_only P e"
| "rx_only P (Grp n e) \<longleftrightarrow> rx_only P e"
| "rx_only P e \<longleftrightarrow> True"

lemma rx_only_True [simp]: "rx_only (\<lambda>_. True) e"
  by (induction e) auto

text \<open>The unfolding of a star, as a membership.\<close>

lemma in_star:
  "q \<in> set (rx_run (Star g e) p) \<longleftrightarrow>
    q = p \<or> (\<exists>m \<in> set (rx_run e p). length (pos_rest m) < length (pos_rest p) \<and> q \<in> set (rx_run (Star g e) m))"
  by (subst rx_run.simps(5)) (auto simp: Let_def split: if_splits)

definition consumes :: "(int \<Rightarrow> bool) \<Rightarrow> rx_pos \<Rightarrow> rx_pos \<Rightarrow> bool" where
  "consumes P p q \<longleftrightarrow> (\<exists>w. pos_rest p = w @ pos_rest q \<and> pos_before q = rev w @ pos_before p \<and> (\<forall>c \<in> set w. P c))"

lemma consumes_refl: "consumes P p p"
  by (simp add: consumes_def)

lemma consumes_trans: "consumes P p m \<Longrightarrow> consumes P m q \<Longrightarrow> consumes P p q"
  by (force simp: consumes_def)

lemma consumes_mono: "consumes P p q \<Longrightarrow> (\<And>c. P c \<Longrightarrow> Q c) \<Longrightarrow> consumes Q p q"
  by (force simp: consumes_def)

text \<open>A match splits the rest of the input into what it consumed and what is left.\<close>

lemma rx_run_consumes: "rx_only P e \<Longrightarrow> q \<in> set (rx_run e p) \<Longrightarrow> consumes P p q"
proof (induction e p arbitrary: q rule: rx_run.induct)
  case (2 k p)
  then obtain c r where "pos_rest p = c # r" "in_cls k c" "q = (c # pos_before p, r, pos_caps p)"
    by (cases "pos_rest p") (simp_all split: if_splits)
  with "2.prems"(1) show ?case by (simp add: consumes_def)
next
  case (3 e f p)
  then obtain m where m: "m \<in> set (rx_run e p)" "q \<in> set (rx_run f m)" by auto
  with 3 show ?case by (meson consumes_trans rx_only.simps(2))
next
  case (4 e f p)
  from "4.prems" show ?case by (simp del: split_paired_All) (metis "4.IH")
next
  case (5 g e p)
  from "5.prems"(2) show ?case
  proof (subst (asm) in_star, elim disjE bexE conjE)
    fix m assume m: "m \<in> set (rx_run e p)" "length (pos_rest m) < length (pos_rest p)"
      "q \<in> set (rx_run (Star g e) m)"
    have "consumes P p m" using "5.IH"(1) "5.prems"(1) m(1) by simp
    moreover have "consumes P m q" using "5.IH"(2) [OF m(1,2)] "5.prems"(1) m(3) by simp
    ultimately show ?thesis by (rule consumes_trans)
  qed (simp add: consumes_refl)
next
  case (6 n e p)
  from "6.prems"(2) obtain m where m: "m \<in> set (rx_run e p)"
    and q: "pos_rest q = pos_rest m" "pos_before q = pos_before m" by auto
  from "6.IH" [OF _ m] "6.prems"(1) have "consumes P p m" by simp
  then show ?case by (simp add: consumes_def q)
qed (simp_all add: consumes_refl split: if_splits list.splits)

lemma rx_run_rest_le: "q \<in> set (rx_run e p) \<Longrightarrow> length (pos_rest q) \<le> length (pos_rest p)"
  using rx_run_consumes [of "\<lambda>_. True" e q p] by (auto simp: consumes_def)

text \<open>What the capture groups of a pattern can hold: \<open>G n\<close> bounds the characters of group \<open>n\<close>.\<close>

fun rx_caps :: "(nat \<Rightarrow> int \<Rightarrow> bool) \<Rightarrow> rx \<Rightarrow> bool" where
  "rx_caps G (Sq e f) \<longleftrightarrow> rx_caps G e \<and> rx_caps G f"
| "rx_caps G (Alt e f) \<longleftrightarrow> rx_caps G e \<and> rx_caps G f"
| "rx_caps G (Star g e) \<longleftrightarrow> rx_caps G e"
| "rx_caps G (Grp n e) \<longleftrightarrow> rx_only (G n) e \<and> rx_caps G e"
| "rx_caps G e \<longleftrightarrow> True"

abbreviation "caps_ok G cs \<equiv> (\<forall>n w. (n, w) \<in> set cs \<longrightarrow> (\<forall>c \<in> set w. G n c))"

lemma rx_run_caps:
  "rx_caps G e \<Longrightarrow> q \<in> set (rx_run e p) \<Longrightarrow> caps_ok G (pos_caps p) \<Longrightarrow> caps_ok G (pos_caps q)"
proof (induction e p arbitrary: q rule: rx_run.induct)
  case (2 k p)
  then show ?case by (auto split: list.splits if_splits)
next
  case (3 e f p)
  then obtain m where "m \<in> set (rx_run e p)" "q \<in> set (rx_run f m)" by auto
  with 3 show ?case by (metis rx_caps.simps(1))
next
  case (5 g e p)
  from "5.prems"(2) show ?case
  proof (subst (asm) in_star, elim disjE bexE conjE)
    fix m assume m: "m \<in> set (rx_run e p)" "length (pos_rest m) < length (pos_rest p)"
      "q \<in> set (rx_run (Star g e) m)"
    have "caps_ok G (pos_caps m)" using "5.IH"(1) "5.prems" m(1) by simp
    then show ?thesis using "5.IH"(2) [OF m(1,2)] "5.prems"(1) m(3) by simp
  qed (use "5.prems" in simp)
next
  case (6 n e p)
  then obtain m where m: "m \<in> set (rx_run e p)"
    and q: "pos_caps q = (n, take (length (pos_rest p) - length (pos_rest m)) (pos_rest p)) # pos_caps m"
    by (auto split: prod.splits)
  have "consumes (G n) p m" using 6 m by (auto intro: rx_run_consumes)
  then have "\<forall>c \<in> set (take (length (pos_rest p) - length (pos_rest m)) (pos_rest p)). G n c"
    by (auto simp: consumes_def)
  moreover have "caps_ok G (pos_caps m)" using 6 m by simp
  ultimately show ?case by (simp add: q)
qed (auto split: if_splits list.splits)

lemma rx_exec_from_run:
  "rx_exec_from e b s = Some cs \<Longrightarrow> \<exists>b' s' q. q \<in> set (rx_run e (b', s', [])) \<and> pos_caps q = cs"
  by (induction s arbitrary: b) (auto split: list.splits, (metis list.set_intros(1) snd_conv)+)

lemma rx_group_chars: "rx_caps G e \<Longrightarrow> rx_group n e s = Some w \<Longrightarrow> \<forall>c \<in> set w. G n c"
proof -
  assume G: "rx_caps G e" and w: "rx_group n e s = Some w"
  from w obtain cs where cs: "rx_exec e s = Some cs" "map_of cs n = Some w"
    by (auto simp: rx_group_def split: option.splits)
  then obtain b' s' q where "q \<in> set (rx_run e (b', s', []))" "pos_caps q = cs"
    by (auto simp: rx_exec_def dest: rx_exec_from_run)
  with G have "caps_ok G cs" using rx_run_caps [of G e q "(b', s', [])"] by auto
  with cs show ?thesis by (auto dest: map_of_SomeD)
qed

section \<open>Literals and anchored patterns\<close>

lemma in_cls_single [simp]: "in_cls (Cls False [(a, b)]) c \<longleftrightarrow> a \<le> c \<and> c \<le> b"
  by (simp add: in_cls_def)

lemma in_c_digit [simp]: "in_cls c_digit c \<longleftrightarrow> digit_ch c"
  by (simp add: c_digit_def digit_ch_def)

lemma run_lit:
  "rx_run (lit p) (b, s, cs) = (if starts_with s p then [(rev p @ b, drop (length p) s, cs)] else [])"
proof (induction p arbitrary: b s)
  case Nil
  then show ?case by (simp add: lit_def)
next
  case (Cons c p)
  show ?case
  proof (cases p)
    case Nil
    then show ?thesis by (cases s) (auto simp: lit_def chr_def)
  next
    case (Cons d p')
    have "lit (c # p) = Sq (chr c) (lit p)" by (simp add: lit_def Cons)
    with Cons.IH show ?thesis by (cases s) (auto simp: chr_def)
  qed
qed

lemma run_alts: "rx_run (alts es) p = concat (map (\<lambda>e. rx_run e p) es)"
  by (induction es rule: alts.induct) auto

lemma exec_from_alts_lit:
  "rx_exec_from (alts (map lit ps)) b s \<noteq> None \<longleftrightarrow> (\<exists>p \<in> set ps. str_includes s p)"
proof (induction s arbitrary: b)
  case Nil
  have "rx_run (alts (map lit ps)) (b, [], []) = [] \<longleftrightarrow> (\<forall>p \<in> set ps. p \<noteq> [])"
    by (auto simp: run_alts run_lit starts_with_iff)
  then show ?case by (auto split: list.splits)
next
  case (Cons c s)
  have "rx_run (alts (map lit ps)) (b, c # s, []) = [] \<longleftrightarrow> (\<forall>p \<in> set ps. \<not> starts_with (c # s) p)"
    by (auto simp: run_alts run_lit)
  with Cons show ?case by (auto split: list.splits)
qed

text \<open>A pattern that is an alternation of literals tests for a substring.\<close>

lemma test_alts_lit: "rx_test (alts (map lit ps)) s \<longleftrightarrow> (\<exists>p \<in> set ps. str_includes s p)"
  by (simp only: rx_test_def rx_exec_def exec_from_alts_lit)

lemma test_Bol: "rx_test (Sq Bol e) s \<longleftrightarrow> rx_run e ([], s, []) \<noteq> []"
proof -
  have "b \<noteq> [] \<Longrightarrow> rx_exec_from (Sq Bol e) b s = None" for b s
    by (induction s arbitrary: b) auto
  then show ?thesis
    by (cases s) (auto simp: rx_test_def rx_exec_def split: list.splits)
qed

lemma star_cls_eol:
  "rx_run (Sq (Star True (Ch k)) Eol) (b, s, cs) \<noteq> [] \<longleftrightarrow> (\<forall>c \<in> set s. in_cls k c)"
proof (induction s arbitrary: b)
  case Nil
  then show ?case by (simp add: rx_run.simps(5))
next
  case (Cons c s)
  show ?case
  proof (cases "in_cls k c")
    case True
    then have "rx_run (Star True (Ch k)) (b, c # s, cs) = rx_run (Star True (Ch k)) (c # b, s, cs) @ [(b, c # s, cs)]"
      by (subst rx_run.simps(5)) simp
    with Cons.IH [of "c # b"] True show ?thesis by simp
  next
    case False
    then show ?thesis by (simp add: rx_run.simps(5))
  qed
qed

text \<open>\<open>/^[...]+$/\<close>: the whole string is a non-empty run of the class.\<close>

definition rx_all :: "cls \<Rightarrow> rx" where
  "rx_all k = sq [Bol, Ch k, many (Ch k), Eol]"

lemma test_rx_all: "rx_test (rx_all k) s \<longleftrightarrow> s \<noteq> [] \<and> (\<forall>c \<in> set s. in_cls k c)"
proof (cases s)
  case Nil
  then show ?thesis by (simp add: rx_all_def test_Bol)
next
  case (Cons c t)
  then show ?thesis
    using star_cls_eol [of k "[c]" t "[]"] by (simp add: rx_all_def test_Bol many_def)
qed

end
