(* ===== verification/Catalog.thy ===== *)
theory Catalog
  imports JsValue JsRegex
begin

text \<open>
  The catalogue of the backend: the data contract (\<open>contracts/catalog.ts\<close>), the product card
  (\<open>catalog/product-card.ts\<close>), the validation of a product query
  (\<open>catalog/product-query.ts\<close>) and the two services over a repository.
\<close>

section \<open>The contract\<close>

datatype store_code = DINA | DANA | FIX_PRICE

datatype filter_type = MultiSelect | BooleanFilter

record filter_def =
  f_key :: jstr
  f_label :: jstr
  f_type :: filter_type
  f_options :: "prim list option"

record filter_schema =
  s_category :: jstr
  s_filters :: "filter_def list"

record category =
  c_id :: jstr
  c_slug :: jstr
  c_name :: jstr

text \<open>Prices are integers: the \<open>Int\<close> columns of the database.\<close>

record offer =
  o_store :: store_code
  o_storeName :: jstr
  o_price :: int
  o_oldPrice :: "int option"

record product_card =
  p_id :: jstr
  p_name :: jstr
  p_brand :: "jstr option"
  p_catSlug :: jstr
  p_catName :: jstr
  p_imageUrl :: "jstr option"
  p_attributes :: "(jstr \<times> prim option) list"
  p_minPrice :: int
  p_offers :: "offer list"
  p_snapshotAt :: jstr

datatype sort_order = PriceAsc | PriceDesc | NameAsc

record product_query =
  q_category :: "jstr option"
  q_search :: "jstr option"
  q_sort :: "sort_order option"
  q_limit :: "int option"
  q_offset :: "int option"
  q_filters :: "(jstr \<times> prim list) list"

datatype http_error =
    BadRequest jstr
  | NotFound jstr
  | ServiceUnavailable jstr
  | InternalError jstr

section \<open>Product cards\<close>

definition normalizeProduct :: "product_card \<Rightarrow> product_card" where
  "normalizeProduct p =
    (let offers = js_sort (\<lambda>a b. o_price a \<le> o_price b) (p_offers p)
     in p\<lparr>p_offers := offers, p_minPrice := (case offers of [] \<Rightarrow> 0 | o1 # _ \<Rightarrow> o_price o1)\<rparr>)"

interpretation offer_order: ranked "\<lambda>a b. o_price a \<le> o_price b"
  by (rule ranked_key)

lemma normalizeProduct_fields [simp]:
  "p_id (normalizeProduct p) = p_id p" "p_name (normalizeProduct p) = p_name p"
  "p_brand (normalizeProduct p) = p_brand p" "p_catSlug (normalizeProduct p) = p_catSlug p"
  "p_imageUrl (normalizeProduct p) = p_imageUrl p" "p_attributes (normalizeProduct p) = p_attributes p"
  "p_offers (normalizeProduct p) = js_sort (\<lambda>a b. o_price a \<le> o_price b) (p_offers p)"
  by (simp_all add: normalizeProduct_def Let_def)

lemma normalizeProduct_min:
  assumes "p_offers p \<noteq> []"
  shows "p_minPrice (normalizeProduct p) \<in> o_price ` set (p_offers p)"
    and "x \<in> set (p_offers p) \<Longrightarrow> p_minPrice (normalizeProduct p) \<le> o_price x"
proof -
  let ?os = "js_sort (\<lambda>a b. o_price a \<le> o_price b) (p_offers p)"
  have ne: "?os \<noteq> []" using assms by simp
  then have m: "p_minPrice (normalizeProduct p) = o_price (hd ?os)"
    by (cases ?os) (simp_all add: normalizeProduct_def Let_def)
  show "p_minPrice (normalizeProduct p) \<in> o_price ` set (p_offers p)"
    using offer_order.hd_js_sort_in [OF assms] m by simp
  show "p_minPrice (normalizeProduct p) \<le> o_price x" if "x \<in> set (p_offers p)"
    using offer_order.hd_js_sort_least [OF that] m by simp
qed

lemma normalizeProduct_idem: "normalizeProduct (normalizeProduct p) = normalizeProduct p"
  by (simp add: normalizeProduct_def Let_def offer_order.js_sort_idem)

section \<open>Validation of a product query\<close>

definition standardKeys :: "jstr list" where
  "standardKeys = [la ''category'', la ''search'', la ''sort'', la ''limit'', la ''offset'']"

definition parseSort :: "jstr \<Rightarrow> sort_order option" where
  "parseSort s =
    (if s = la ''price_asc'' then Some PriceAsc
     else if s = la ''price_desc'' then Some PriceDesc
     else if s = la ''name_asc'' then Some NameAsc
     else None)"

fun scalar :: "jval \<Rightarrow> jstr \<Rightarrow> http_error + jstr" where
  "scalar (JStr s) key = Inr s"
| "scalar _ key = Inl (BadRequest (key @ la '' must be a single string''))"

definition max_safe_integer :: int where
  "max_safe_integer = 9007199254740991"

definition integerParam :: "jval \<Rightarrow> jstr \<Rightarrow> int \<Rightarrow> http_error + int option" where
  "integerParam value key minimum =
    (if value = JUndef then Inr None
     else and_then (scalar value key) (\<lambda>input.
       if \<not> rx_test (rx_all c_digit) input then Inl (BadRequest (key @ la '' must be an integer''))
       else let parsed = digits_val input
         in if parsed > max_safe_integer \<or> parsed < minimum
           then Inl (BadRequest (key @ la '' must be an integer >= '' @ show_int minimum))
           else Inr (Some parsed)))"

text \<open>\<open>/^-?\d+(?:\.\d+)?$/u\<close>\<close>

definition rx_number :: rx where
  "rx_number = sq [Bol, opt (chr 45), many1 (Ch c_digit), opt (Sq (chr 46) (many1 (Ch c_digit))), Eol]"

definition number_of :: "jstr \<Rightarrow> rat" where
  "number_of s = (case s of [] \<Rightarrow> 0 | c # t \<Rightarrow> if c = 45 then - dec_val t else dec_val s)"

definition invalid_value :: "filter_def \<Rightarrow> http_error" where
  "invalid_value f = BadRequest (la ''Invalid '' @ f_key f @ la '' value'')"

definition options_of :: "filter_def \<Rightarrow> prim list" where
  "options_of f = nullish (f_options f) []"

definition first_type :: "prim list \<Rightarrow> jtype" where
  "first_type os = (case os of [] \<Rightarrow> TUndefined | p # _ \<Rightarrow> prim_type p)"

definition parseFilterValue :: "jstr \<Rightarrow> filter_def \<Rightarrow> http_error + prim" where
  "parseFilterValue input f =
    (let options = options_of f
     in and_then
       (if f_type f = BooleanFilter \<or> first_type options = TBoolean
        then (if input \<noteq> la ''true'' \<and> input \<noteq> la ''false'' then Inl (invalid_value f)
              else Inr (PBool (input = la ''true'')))
        else if first_type options = TNumber
        then (if \<not> rx_test rx_number input then Inl (invalid_value f) else Inr (num (number_of input)))
        else Inr (PStr input))
       (\<lambda>parsed. if options \<noteq> [] \<and> parsed \<notin> set options then Inl (invalid_value f) else Inr parsed))"

definition optScalar :: "(jstr \<times> jval) list \<Rightarrow> jstr \<Rightarrow> http_error + jstr option" where
  "optScalar raw key =
    (if obj_get raw key = JUndef then Inr None
     else and_then (scalar (obj_get raw key) key) (\<lambda>s. Inr (Some (trim s))))"

definition parseFilterEntry ::
  "jstr option \<Rightarrow> filter_def list \<Rightarrow> jstr \<times> jval \<Rightarrow> http_error + jstr \<times> prim list" where
  "parseFilterEntry category definitions entry =
    (let key = fst entry; value = snd entry
     in if \<not> truthy_str category then Inl (BadRequest (la ''Dynamic filters require a category''))
        else case List.find (\<lambda>d. f_key d = key) definitions of
          None \<Rightarrow> Inl (BadRequest (la ''Unknown filter: '' @ key))
        | Some definition \<Rightarrow>
            and_then (traverse (\<lambda>input. and_then (scalar input key) (\<lambda>s. parseFilterValue s definition))
                        (case value of JArr vs \<Rightarrow> vs | v \<Rightarrow> [v]))
              (\<lambda>vs. Inr (key, vs)))"

definition parseFilters ::
  "jstr option \<Rightarrow> filter_def list \<Rightarrow> (jstr \<times> jval) list \<Rightarrow> http_error + (jstr \<times> prim list) list" where
  "parseFilters category definitions raw =
    traverse (parseFilterEntry category definitions) (filter (\<lambda>entry. fst entry \<notin> set standardKeys) raw)"

definition parseProductQuery ::
  "(jstr \<times> jval) list \<Rightarrow> filter_def list \<Rightarrow> http_error + product_query" where
  "parseProductQuery raw definitions =
    and_then (optScalar raw (la ''category'')) (\<lambda>category.
    and_then (optScalar raw (la ''search'')) (\<lambda>search.
    and_then (if obj_get raw (la ''sort'') = JUndef then Inr (la ''price_asc'')
              else scalar (obj_get raw (la ''sort'')) (la ''sort'')) (\<lambda>sort.
    case parseSort sort of
      None \<Rightarrow> Inl (BadRequest (la ''Invalid sort''))
    | Some order \<Rightarrow>
      and_then (integerParam (obj_get raw (la ''limit'')) (la ''limit'') 1) (\<lambda>l.
      let limit = nullish l 24
      in if limit > 100 then Inl (BadRequest (la ''limit must be <= 100''))
        else
          and_then (parseFilters category definitions raw) (\<lambda>filters.
          and_then (integerParam (obj_get raw (la ''offset'')) (la ''offset'') 0) (\<lambda>o1.
          Inr \<lparr>q_category = or_undefined category, q_search = or_undefined search,
               q_sort = Some order, q_limit = Some limit,
               q_offset = Some (nullish o1 0), q_filters = filters\<rparr>))))))"


subsection \<open>What a parsed query guarantees\<close>

lemma parseFilterValue_in_options:
  "parseFilterValue input f = Inr v \<Longrightarrow> options_of f \<noteq> [] \<Longrightarrow> v \<in> set (options_of f)"
  by (auto simp: parseFilterValue_def Let_def result_simps split: if_splits)

lemma parseFilterValue_type:
  "parseFilterValue input f = Inr v \<Longrightarrow> f_type f = BooleanFilter \<Longrightarrow> prim_type v = TBoolean"
  by (auto simp: parseFilterValue_def Let_def result_simps split: if_splits)

lemma integerParam_bounds:
  assumes "integerParam v key m = Inr (Some n)"
  shows "m \<le> n \<and> n \<le> max_safe_integer"
  using assms by (auto simp: integerParam_def Let_def result_simps split: if_splits)

text \<open>An accepted integer parameter is a non-empty string of digits, read as its value.\<close>

lemma integerParam_exact:
  "integerParam (JStr s) key m = Inr (Some n) \<longleftrightarrow>
    s \<noteq> [] \<and> (\<forall>c \<in> set s. digit_ch c) \<and> n = digits_val s \<and> m \<le> n \<and> n \<le> max_safe_integer"
  by (auto simp: integerParam_def Let_def test_rx_all)

text \<open>A filter value that may reach the repository: known key, allowed value.\<close>

definition filter_ok :: "filter_def list \<Rightarrow> jstr \<times> prim list \<Rightarrow> bool" where
  "filter_ok ds kv \<longleftrightarrow>
    (\<exists>d. List.find (\<lambda>d. f_key d = fst kv) ds = Some d \<and>
       (\<forall>v \<in> set (snd kv). (options_of d \<noteq> [] \<longrightarrow> v \<in> set (options_of d)) \<and>
          (f_type d = BooleanFilter \<longrightarrow> prim_type v = TBoolean)))"

definition query_ok :: "filter_def list \<Rightarrow> product_query \<Rightarrow> bool" where
  "query_ok ds q \<longleftrightarrow>
    q_sort q \<noteq> None \<and>
    (\<exists>l. q_limit q = Some l \<and> 1 \<le> l \<and> l \<le> 100) \<and>
    (\<exists>k. q_offset q = Some k \<and> 0 \<le> k \<and> k \<le> max_safe_integer) \<and>
    (q_filters q \<noteq> [] \<longrightarrow> q_category q \<noteq> None) \<and>
    q_category q \<noteq> Some [] \<and> q_search q \<noteq> Some [] \<and>
    (\<forall>kv \<in> set (q_filters q). filter_ok ds kv)"

lemma parseFilterEntry_ok:
  assumes "parseFilterEntry category ds e = Inr kv"
  shows "filter_ok ds kv" and "truthy_str category" and "fst kv = fst e"
proof -
  obtain d vs where d: "truthy_str category" "List.find (\<lambda>d. f_key d = fst e) ds = Some d" "kv = (fst e, vs)"
    and vs: "traverse (\<lambda>input. and_then (scalar input (fst e)) (\<lambda>s. parseFilterValue s d))
               (case snd e of JArr vs \<Rightarrow> vs | v \<Rightarrow> [v]) = Inr vs"
    using assms by (auto simp: parseFilterEntry_def Let_def result_simps split: if_splits option.splits)
  have "\<exists>s. parseFilterValue s d = Inr v" if "v \<in> set vs" for v
    using traverse_ok [OF vs that] by (auto simp: result_simps)
  then show "filter_ok ds kv" "truthy_str category" "fst kv = fst e"
    using d by (auto simp: filter_ok_def dest: parseFilterValue_in_options parseFilterValue_type)
qed

lemma parseFilters_ok:
  assumes "parseFilters category ds raw = Inr fs"
  shows "\<forall>kv \<in> set fs. filter_ok ds kv" and "fs \<noteq> [] \<Longrightarrow> truthy_str category"
  using assms parseFilterEntry_ok(1,2) unfolding parseFilters_def
  by (metis traverse_ok, metis hd_in_set traverse_ok)

lemma parseProductQuery_Inr:
  assumes "parseProductQuery raw ds = Inr q"
  obtains category search sort order l fs off where
    "optScalar raw (la ''category'') = Inr category" "optScalar raw (la ''search'') = Inr search"
    "parseSort sort = Some order"
    "integerParam (obj_get raw (la ''limit'')) (la ''limit'') 1 = Inr l" "nullish l 24 \<le> 100"
    "parseFilters category ds raw = Inr fs"
    "integerParam (obj_get raw (la ''offset'')) (la ''offset'') 0 = Inr off"
    "q = \<lparr>q_category = or_undefined category, q_search = or_undefined search, q_sort = Some order,
          q_limit = Some (nullish l 24), q_offset = Some (nullish off 0), q_filters = fs\<rparr>"
  using assms unfolding parseProductQuery_def and_then_Inr Let_def
  by (auto simp: and_then_Inr not_less split: option.splits if_splits)

lemma parseProductQuery_ok:
  assumes "parseProductQuery raw ds = Inr q"
  shows "query_ok ds q"
proof -
  from assms obtain category search sort order l fs off where
    l: "integerParam (obj_get raw (la ''limit'')) (la ''limit'') 1 = Inr l" "nullish l 24 \<le> 100"
    and fs: "parseFilters category ds raw = Inr fs"
    and off: "integerParam (obj_get raw (la ''offset'')) (la ''offset'') 0 = Inr off"
    and q: "q = \<lparr>q_category = or_undefined category, q_search = or_undefined search, q_sort = Some order,
          q_limit = Some (nullish l 24), q_offset = Some (nullish off 0), q_filters = fs\<rparr>"
    by (rule parseProductQuery_Inr)
  have "1 \<le> nullish l 24" using l(1) by (cases l) (auto dest: integerParam_bounds)
  moreover have "0 \<le> nullish off 0 \<and> nullish off 0 \<le> max_safe_integer"
    using off by (cases off) (auto dest: integerParam_bounds simp: max_safe_integer_def)
  ultimately show ?thesis
    using l(2) parseFilters_ok [OF fs] q by (auto simp: query_ok_def or_undefined_def truthy_str_def)
qed

text \<open>The keys of the parsed filters are those of the raw query, in its order.\<close>

lemma parseFilters_keys:
  "parseFilters category ds raw = Inr fs \<Longrightarrow> js_keys fs = filter (\<lambda>k. k \<notin> set standardKeys) (js_keys raw)"
  unfolding parseFilters_def
  by (induction raw arbitrary: fs) (auto simp: result_simps dest!: parseFilterEntry_ok(3))

section \<open>The repositories and the services over them\<close>

text \<open>\<open>ProductsService.findAll\<close> and \<open>findById\<close>, \<open>CategoriesService.findFilters\<close>, over any repository.\<close>

definition findAll ::
  "(jstr \<Rightarrow> http_error + filter_schema option) \<Rightarrow> (product_query \<Rightarrow> http_error + product_card list) \<Rightarrow>
   (jstr \<times> jval) list \<Rightarrow> http_error + product_card list" where
  "findAll findFilters findProducts raw =
    (let category = (case obj_get raw (la ''category'') of JStr s \<Rightarrow> Some (trim s) | _ \<Rightarrow> None)
     in and_then (if truthy_str category then findFilters (the category) else Inr None) (\<lambda>schema.
        and_then (parseProductQuery raw (nullish (map_option s_filters schema) [])) (\<lambda>query.
        and_then (findProducts query) (\<lambda>ps. Inr (map normalizeProduct ps)))))"

definition findById :: "(jstr \<Rightarrow> http_error + product_card option) \<Rightarrow> jstr \<Rightarrow> http_error + product_card" where
  "findById lookup i =
    and_then (lookup i) (\<lambda>r. case r of
      None \<Rightarrow> Inl (NotFound (la ''Product not found''))
    | Some p \<Rightarrow> Inr (normalizeProduct p))"

definition findFiltersService :: "(jstr \<Rightarrow> http_error + filter_schema option) \<Rightarrow> jstr \<Rightarrow> http_error + filter_schema" where
  "findFiltersService lookup slug =
    and_then (lookup slug) (\<lambda>r. case r of
      None \<Rightarrow> Inl (NotFound (la ''Category filter schema not found''))
    | Some s \<Rightarrow> Inr s)"

text \<open>A product fits a query: its category, and for every filter one of the wanted values.\<close>

definition attr_value :: "product_card \<Rightarrow> jstr \<Rightarrow> prim option" where
  "attr_value p key =
    (if key = la ''brand'' then map_option PStr (p_brand p)
     else case map_of (p_attributes p) key of None \<Rightarrow> None | Some v \<Rightarrow> v)"

definition fits :: "product_query \<Rightarrow> product_card \<Rightarrow> bool" where
  "fits q p \<longleftrightarrow>
    (\<forall>c. q_category q = Some c \<longrightarrow> c \<noteq> [] \<longrightarrow> p_catSlug p = c) \<and>
    (\<forall>(key, options) \<in> set (q_filters q). \<exists>v. attr_value p key = Some v \<and> v \<in> set options)"

definition has_usable_offers :: "product_card \<Rightarrow> bool" where
  "has_usable_offers p \<longleftrightarrow> p_offers p \<noteq> [] \<and> (\<forall>x \<in> set (p_offers p). 0 < o_price x)"

text \<open>
  The contract of \<open>ProductRepository\<close> (\<open>repositories.ts\<close>): what a query returns fits it, is
  offered somewhere at a positive price, and respects the limit.
\<close>

locale product_repository =
  fixes find_products :: "product_query \<Rightarrow> http_error + product_card list"
  assumes found_fits: "find_products q = Inr ps \<Longrightarrow> p \<in> set ps \<Longrightarrow> fits q p"
    and found_usable: "find_products q = Inr ps \<Longrightarrow> p \<in> set ps \<Longrightarrow> has_usable_offers p"
    and found_limit: "find_products q = Inr ps \<Longrightarrow> q_limit q = Some l \<Longrightarrow> 0 \<le> l \<Longrightarrow> length ps \<le> nat l"
begin

lemma found_min_price:
  assumes "find_products q = Inr ps" and "p \<in> set ps"
  shows "0 < p_minPrice (normalizeProduct p)"
    and "x \<in> set (p_offers p) \<Longrightarrow> p_minPrice (normalizeProduct p) \<le> o_price x"
  using found_usable [OF assms] normalizeProduct_min [of p]
  by (auto simp: has_usable_offers_def)

text \<open>Whatever the client sends, the service answers at most 100 fitting, priced cards.\<close>

lemma find_all_result:
  assumes "findAll findFilters find_products raw = Inr cards"
  shows "length cards \<le> 100"
    and "c \<in> set cards \<Longrightarrow> 0 < p_minPrice c \<and> (\<exists>x \<in> set (p_offers c). o_price x = p_minPrice c) \<and>
           (\<forall>x \<in> set (p_offers c). p_minPrice c \<le> o_price x)"
proof -
  obtain q ds ps where q: "parseProductQuery raw ds = Inr q"
    and ps: "find_products q = Inr ps" and cards: "cards = map normalizeProduct ps"
    using assms by (auto simp: findAll_def Let_def result_simps)
  from parseProductQuery_ok [OF q] obtain l where l: "q_limit q = Some l" "1 \<le> l" "l \<le> 100"
    by (auto simp: query_ok_def)
  with found_limit [OF ps l(1)] cards show "length cards \<le> 100" by simp
  assume "c \<in> set cards"
  then obtain p where p: "p \<in> set ps" "c = normalizeProduct p" using cards by auto
  with found_usable [OF ps] have ne: "p_offers p \<noteq> []" by (auto simp: has_usable_offers_def)
  show "0 < p_minPrice c \<and> (\<exists>x \<in> set (p_offers c). o_price x = p_minPrice c) \<and>
           (\<forall>x \<in> set (p_offers c). p_minPrice c \<le> o_price x)"
    using normalizeProduct_min(1) [OF ne] found_min_price [OF ps p(1)] p(2) by force
qed

end

end
