(* ===== verification/CatalogDb.thy ===== *)
theory CatalogDb
  imports Catalog
begin

text \<open>
  The PostgreSQL side of the catalogue (\<open>backend/src/database\<close>). The Prisma client is not part
  of the repository: what its queries return is an argument of the definitions (\<open>published\<close>,
  \<open>fetch\<close>, ...), and what the code relies on it for is a hypothesis. Every check the code makes
  on the rows is modelled.
\<close>

section \<open>Timestamps\<close>

text \<open>\<open>Date.prototype.toISOString\<close> of a time in milliseconds, for the years 0 to 9999.\<close>

definition civil_of_days :: "int \<Rightarrow> int \<times> int \<times> int" where
  "civil_of_days days =
    (let z = days + 719468; era = z div 146097; doe = z - era * 146097;
         yoe = (doe - doe div 1460 + doe div 36524 - doe div 146096) div 365;
         doy = doe - (365 * yoe + yoe div 4 - yoe div 100);
         mp = (5 * doy + 2) div 153;
         d = doy - (153 * mp + 2) div 5 + 1;
         m = (if mp < 10 then mp + 3 else mp - 9);
         y = yoe + era * 400 + (if m \<le> 2 then 1 else 0)
     in (y, m, d))"

definition pad :: "nat \<Rightarrow> int \<Rightarrow> jstr" where
  "pad n i = (let s = show_nat i in replicate (n - length s) 48 @ s)"

definition toISOString :: "int \<Rightarrow> jstr" where
  "toISOString ms =
    (let (y, m, d) = civil_of_days (ms div 86400000); t = ms mod 86400000
     in pad 4 y @ [45] @ pad 2 m @ [45] @ pad 2 d @ la ''T'' @ pad 2 (t div 3600000) @ [58] @
        pad 2 (t div 60000 mod 60) @ [58] @ pad 2 (t div 1000 mod 60) @ [46] @ pad 3 (t mod 1000) @ la ''Z'')"

section \<open>Rows and their mapping\<close>

record offer_row =
  or_store :: store_code
  or_storeName :: jstr
  or_price :: int
  or_oldPrice :: "int option"
  or_inStock :: bool
  or_snapshotAt :: int

record product_row =
  pr_id :: jstr
  pr_name :: jstr
  pr_brand :: "jstr option"
  pr_catSlug :: jstr
  pr_catName :: jstr
  pr_imageUrl :: "jstr option"
  pr_attributes :: jval
  pr_offers :: "offer_row list"

text \<open>\<open>scalarAttributes\<close>: the null, string, boolean and finite number entries of a JSON object.\<close>

fun scalarItem :: "jval \<Rightarrow> prim option option" where
  "scalarItem JNull = Some None"
| "scalarItem (JStr s) = Some (Some (PStr s))"
| "scalarItem (JBool b) = Some (Some (PBool b))"
| "scalarItem (JNum n) = (if is_finite n then Some (Some (PNum n)) else None)"
| "scalarItem _ = None"

fun scalarAttributes :: "jval \<Rightarrow> (jstr \<times> prim option) list" where
  "scalarAttributes (JObj ob) = List.map_filter (\<lambda>(k, v). map_option (Pair k) (scalarItem v)) ob"
| "scalarAttributes _ = []"

definition usableRow :: "offer_row \<Rightarrow> bool" where
  "usableRow r \<longleftrightarrow> or_inStock r \<and> 0 < or_price r"

definition mapOffer :: "offer_row \<Rightarrow> offer" where
  "mapOffer r = \<lparr>o_store = or_store r, o_storeName = or_storeName r, o_price = or_price r, o_oldPrice = or_oldPrice r\<rparr>"

definition mapProduct :: "product_row \<Rightarrow> product_card option" where
  "mapProduct row =
    (let usable = filter usableRow (pr_offers row)
     in case usable of
       [] \<Rightarrow> None
     | u # _ \<Rightarrow>
         let snapshotAt = foldl (\<lambda>latest r. if or_snapshotAt r > latest then or_snapshotAt r else latest)
                            (or_snapshotAt u) usable
         in Some (normalizeProduct
              \<lparr>p_id = pr_id row, p_name = pr_name row, p_brand = pr_brand row,
               p_catSlug = pr_catSlug row, p_catName = pr_catName row, p_imageUrl = pr_imageUrl row,
               p_attributes = scalarAttributes (pr_attributes row), p_minPrice = or_price u,
               p_offers = map mapOffer usable, p_snapshotAt = toISOString snapshotAt\<rparr>))"

lemma mapProduct_None: "mapProduct row = None \<longleftrightarrow> (\<forall>r \<in> set (pr_offers row). \<not> usableRow r)"
  by (auto simp: mapProduct_def Let_def filter_empty_conv split: list.splits)
     (metis filter_eq_Cons_iff in_set_conv_decomp list.discI filter_empty_conv)

lemma mapProduct_Some:
  assumes "mapProduct row = Some p"
  shows "has_usable_offers p"
    and "p_id p = pr_id row" "p_name p = pr_name row" "p_brand p = pr_brand row" "p_catSlug p = pr_catSlug row"
    and "p_attributes p = scalarAttributes (pr_attributes row)"
    and "mset (p_offers p) = mset (map mapOffer (filter usableRow (pr_offers row)))"
    and "sorted_wrt (\<lambda>a b. o_price a \<le> o_price b) (p_offers p)"
    and "x \<in> set (p_offers p) \<Longrightarrow> p_minPrice p \<le> o_price x"
    and "p_minPrice p \<in> o_price ` set (p_offers p)"
proof -
  obtain u us where us: "filter usableRow (pr_offers row) = u # us"
    using assms by (auto simp: mapProduct_def Let_def split: list.splits)
  obtain raw where p: "p = normalizeProduct raw"
    and raw: "p_id raw = pr_id row" "p_name raw = pr_name row" "p_brand raw = pr_brand row"
      "p_catSlug raw = pr_catSlug row" "p_attributes raw = scalarAttributes (pr_attributes row)"
      "p_offers raw = map mapOffer (filter usableRow (pr_offers row))"
    using assms us by (fastforce simp: mapProduct_def Let_def)
  have ne: "p_offers raw \<noteq> []" using us raw by simp
  show "p_id p = pr_id row" "p_name p = pr_name row" "p_brand p = pr_brand row" "p_catSlug p = pr_catSlug row"
    "p_attributes p = scalarAttributes (pr_attributes row)"
    "mset (p_offers p) = mset (map mapOffer (filter usableRow (pr_offers row)))"
    using p raw by simp_all
  show "has_usable_offers p"
    using p raw ne by (auto simp: has_usable_offers_def mapOffer_def usableRow_def)
  show "sorted_wrt (\<lambda>a b. o_price a \<le> o_price b) (p_offers p)"
    using p offer_order.sorted_js_sort by simp
  show "p_minPrice p \<le> o_price x" if "x \<in> set (p_offers p)"
    using normalizeProduct_min(2) [OF ne, of x] that p by simp
  show "p_minPrice p \<in> o_price ` set (p_offers p)"
    using normalizeProduct_min(1) [OF ne] p by simp
qed

section \<open>The published snapshot\<close>

definition withPublishedSnapshot :: "jstr option \<Rightarrow> (jstr \<Rightarrow> http_error + 'a) \<Rightarrow> http_error + 'a" where
  "withPublishedSnapshot latest read =
    (case latest of
       None \<Rightarrow> Inl (InternalError (la ''Published catalog unavailable''))
     | Some snapshotId \<Rightarrow> read snapshotId)"

section \<open>Products\<close>

definition matchesFilters :: "product_card \<Rightarrow> (jstr \<times> prim list) list \<Rightarrow> bool" where
  "matchesFilters p filters \<longleftrightarrow>
    list_all (\<lambda>(key, options). case attr_value p key of None \<Rightarrow> False | Some v \<Rightarrow> v \<in> set options) filters"

record product_where =
  w_snapshot :: jstr
  w_category :: "jstr option"
  w_search :: "jstr option"

text \<open>The comparator of each sort order; \<open>le_ru\<close> and \<open>le_id\<close> are \<open>localeCompare\<close> with and without a locale.\<close>

definition product_le ::
  "(jstr \<Rightarrow> jstr \<Rightarrow> bool) \<Rightarrow> (jstr \<Rightarrow> jstr \<Rightarrow> bool) \<Rightarrow> sort_order option \<Rightarrow> product_card \<Rightarrow> product_card \<Rightarrow> bool" where
  "product_le le_ru le_id order =
    (if order = Some NameAsc then then_by (\<lambda>a b. le_ru (p_name a) (p_name b)) (\<lambda>a b. le_id (p_id a) (p_id b))
     else if order = Some PriceDesc
       then then_by (\<lambda>a b. p_minPrice b \<le> p_minPrice a) (\<lambda>a b. le_id (p_id a) (p_id b))
     else then_by (\<lambda>a b. p_minPrice a \<le> p_minPrice b) (\<lambda>a b. le_id (p_id a) (p_id b)))"

definition slice_page :: "int option \<Rightarrow> int option \<Rightarrow> 'a list \<Rightarrow> 'a list" where
  "slice_page off limit xs =
    (let ys = drop (nat (nullish off 0)) xs
     in case limit of None \<Rightarrow> ys | Some l \<Rightarrow> take (nat l) ys)"

definition prismaFindProducts ::
  "jstr option \<Rightarrow> (product_where \<Rightarrow> product_row list) \<Rightarrow> (jstr \<Rightarrow> jstr \<Rightarrow> bool) \<Rightarrow> (jstr \<Rightarrow> jstr \<Rightarrow> bool) \<Rightarrow>
   product_query \<Rightarrow> http_error + product_card list" where
  "prismaFindProducts latest fetch le_ru le_id query =
    withPublishedSnapshot latest (\<lambda>snapshotId.
      let rows = fetch \<lparr>w_snapshot = snapshotId, w_category = or_undefined (q_category query),
                        w_search = or_undefined (q_search query)\<rparr>;
          products = filter (\<lambda>p. matchesFilters p (q_filters query)) (List.map_filter mapProduct rows)
      in Inr (slice_page (q_offset query) (q_limit query)
                (js_sort (product_le le_ru le_id (q_sort query)) products)))"

definition prismaFindById :: "jstr option \<Rightarrow> (jstr \<Rightarrow> jstr \<Rightarrow> product_row option) \<Rightarrow> jstr \<Rightarrow> http_error + product_card option" where
  "prismaFindById latest fetch i =
    withPublishedSnapshot latest (\<lambda>snapshotId.
      Inr (case fetch snapshotId i of None \<Rightarrow> None | Some row \<Rightarrow> mapProduct row))"

lemma ranked_product_le:
  "consistent_compare le_ru \<Longrightarrow> consistent_compare le_id \<Longrightarrow> ranked (product_le le_ru le_id s)"
  by (auto simp: product_le_def consistent_compare_ranked
      intro!: ranked_then_by ranked_on [of _ p_name] ranked_on [of _ p_id] ranked_key ranked_key_desc)

lemma set_slice_page: "set (slice_page off l xs) \<subseteq> set xs"
  by (auto simp: slice_page_def Let_def dest: in_set_dropD in_set_takeD split: option.splits)

lemma sorted_slice_page: "sorted_wrt P xs \<Longrightarrow> sorted_wrt P (slice_page off l xs)"
  by (simp add: slice_page_def Let_def sorted_wrt_drop sorted_wrt_take split: option.splits)

lemma prismaFindProducts_Inr:
  assumes "prismaFindProducts latest fetch le_ru le_id q = Inr ps"
  obtains sid where "latest = Some sid"
    and "ps = slice_page (q_offset q) (q_limit q) (js_sort (product_le le_ru le_id (q_sort q))
      (filter (\<lambda>p. matchesFilters p (q_filters q)) (List.map_filter mapProduct
        (fetch \<lparr>w_snapshot = sid, w_category = or_undefined (q_category q), w_search = or_undefined (q_search q)\<rparr>))))"
  using assms by (auto simp: prismaFindProducts_def withPublishedSnapshot_def Let_def split: option.splits)

lemma prismaFindProducts_member:
  assumes "prismaFindProducts latest fetch le_ru le_id q = Inr ps" and "p \<in> set ps"
  obtains sid row where "latest = Some sid"
    and "row \<in> set (fetch \<lparr>w_snapshot = sid, w_category = or_undefined (q_category q),
                           w_search = or_undefined (q_search q)\<rparr>)"
    and "mapProduct row = Some p" and "matchesFilters p (q_filters q)"
  using assms set_slice_page by (elim prismaFindProducts_Inr) (fastforce simp: in_map_filter)

text \<open>What the code needs of Prisma: rows of a \<open>where\<close> with a category are in that category.\<close>

definition honours_category :: "(product_where \<Rightarrow> product_row list) \<Rightarrow> bool" where
  "honours_category fetch \<longleftrightarrow>
    (\<forall>w c row. w_category w = Some c \<longrightarrow> row \<in> set (fetch w) \<longrightarrow> pr_catSlug row = c)"

lemma matchesFilters_fits:
  "matchesFilters p fs \<Longrightarrow> (\<forall>(key, options) \<in> set fs. \<exists>v. attr_value p key = Some v \<and> v \<in> set options)"
  by (force simp: matchesFilters_def list_all_iff split: option.splits)

lemma prisma_product_repository:
  assumes "honours_category fetch"
  shows "product_repository (prismaFindProducts latest fetch le_ru le_id)"
proof
  fix q ps p
  assume ps: "prismaFindProducts latest fetch le_ru le_id q = Inr ps"
  show "fits q p" if "p \<in> set ps"
    using ps that
  proof (rule prismaFindProducts_member)
    fix sid row
    assume row: "row \<in> set (fetch \<lparr>w_snapshot = sid, w_category = or_undefined (q_category q),
                           w_search = or_undefined (q_search q)\<rparr>)"
      and p: "mapProduct row = Some p" and m: "matchesFilters p (q_filters q)"
    have "p_catSlug p = c" if "q_category q = Some c" "c \<noteq> []" for c
      using assms row mapProduct_Some(5) [OF p] that unfolding honours_category_def
      by (metis or_undefined_Some product_where.select_convs(2))
    then show "fits q p" using matchesFilters_fits [OF m] by (simp add: fits_def)
  qed
  show "has_usable_offers p" if "p \<in> set ps"
    using ps that by (rule prismaFindProducts_member) (rule mapProduct_Some(1))
  show "length ps \<le> nat l" if "q_limit q = Some l" for l
    using ps that by (elim prismaFindProducts_Inr) (simp add: slice_page_def Let_def)
qed

section \<open>Categories and their filters\<close>

text \<open>\<open>definitions\<close>: what of a category's JSON filter schema is well formed.\<close>

fun filterOption :: "jval \<Rightarrow> prim option" where
  "filterOption (JStr s) = Some (PStr s)"
| "filterOption (JBool b) = Some (PBool b)"
| "filterOption (JNum n) = (if is_finite n then Some (PNum n) else None)"
| "filterOption _ = None"

definition filterItem :: "jval \<Rightarrow> filter_def option" where
  "filterItem item =
    (case item of
       JObj ob \<Rightarrow>
         (case (obj_get ob (la ''key''), obj_get ob (la ''label''), obj_get ob (la ''type'')) of
            (JStr k, JStr l, JStr t) \<Rightarrow>
              (if t = la ''boolean'' then
                 Some \<lparr>f_key = k, f_label = l, f_type = BooleanFilter, f_options = None\<rparr>
               else if t = la ''multi-select'' then
                 (case obj_get ob (la ''options'') of
                    JArr os \<Rightarrow> Some \<lparr>f_key = k, f_label = l, f_type = MultiSelect,
                                     f_options = Some (List.map_filter filterOption os)\<rparr>
                  | _ \<Rightarrow> None)
               else None)
          | _ \<Rightarrow> None)
     | _ \<Rightarrow> None)"

definition definitions :: "jval \<Rightarrow> filter_def list" where
  "definitions value =
    (case value of
       JObj ob \<Rightarrow> (case obj_get ob (la ''filters'') of
           JArr items \<Rightarrow> List.map_filter filterItem items
         | _ \<Rightarrow> [])
     | _ \<Rightarrow> [])"

record category_row =
  cr_id :: jstr
  cr_slug :: jstr
  cr_name :: jstr
  cr_filterSchema :: jval

definition prismaFindCategories :: "jstr option \<Rightarrow> (jstr \<Rightarrow> category_row list) \<Rightarrow> http_error + category list" where
  "prismaFindCategories latest fetch =
    withPublishedSnapshot latest (\<lambda>snapshotId.
      Inr (map (\<lambda>r. \<lparr>c_id = cr_id r, c_slug = cr_slug r, c_name = cr_name r\<rparr>) (fetch snapshotId)))"

text \<open>A row of usable products: its brand and its JSON attributes.\<close>

type_synonym attr_row = "jstr option \<times> jval"

definition actualValue :: "jstr \<Rightarrow> attr_row \<Rightarrow> prim option" where
  "actualValue key row =
    (if key = la ''brand'' then map_option PStr (fst row)
     else case map_of (scalarAttributes (snd row)) key of None \<Rightarrow> None | Some v \<Rightarrow> v)"

definition liveFilter :: "attr_row list \<Rightarrow> filter_def \<Rightarrow> filter_def option" where
  "liveFilter rows f =
    (let actual = js_set (List.map_filter (actualValue (f_key f)) rows)
     in if actual = [] then None
        else if f_type f = BooleanFilter then Some f
        else let options = filter (\<lambda>x. x \<in> set actual) (nullish (f_options f) [])
             in if options = [] then None else Some (f\<lparr>f_options := Some options\<rparr>))"

definition prismaFindFilters ::
  "jstr option \<Rightarrow> (jstr \<Rightarrow> category_row option) \<Rightarrow> (jstr \<Rightarrow> jstr \<Rightarrow> attr_row list) \<Rightarrow> jstr \<Rightarrow>
   http_error + filter_schema option" where
  "prismaFindFilters latest findCategory fetch slug =
    withPublishedSnapshot latest (\<lambda>snapshotId.
      case findCategory slug of
        None \<Rightarrow> Inr None
      | Some category \<Rightarrow>
          let schema = definitions (cr_filterSchema category)
          in if schema = [] then Inr (Some \<lparr>s_category = slug, s_filters = []\<rparr>)
             else Inr (Some \<lparr>s_category = slug,
                             s_filters = List.map_filter (liveFilter (fetch (cr_id category) snapshotId)) schema\<rparr>))"

text \<open>
  What the schema served for a category promises: the filter is on the category's allowlist,
  and each option it offers is on the list and held by some usable product.
\<close>

definition live_in :: "filter_def list \<Rightarrow> attr_row list \<Rightarrow> filter_def \<Rightarrow> bool" where
  "live_in schema rows f \<longleftrightarrow>
    (\<exists>d \<in> set schema. f_key f = f_key d \<and> f_label f = f_label d \<and> f_type f = f_type d \<and>
       (\<exists>row \<in> set rows. actualValue (f_key f) row \<noteq> None) \<and>
       (f_type f = MultiSelect \<longrightarrow> options_of f \<noteq> [] \<and>
          (\<forall>v \<in> set (options_of f). v \<in> set (options_of d) \<and>
             (\<exists>row \<in> set rows. actualValue (f_key f) row = Some v))))"

lemma liveFilter_live:
  assumes "d \<in> set schema" and "liveFilter rows d = Some f"
  shows "live_in schema rows f"
proof -
  let ?actual = "List.map_filter (actualValue (f_key d)) rows"
  have ne: "?actual \<noteq> []" using assms(2) by (auto simp: liveFilter_def Let_def split: if_splits)
  then obtain v where "v \<in> set ?actual" by (cases ?actual) auto
  then have row: "\<exists>row \<in> set rows. actualValue (f_key d) row \<noteq> None"
    by (auto simp: in_map_filter)
  show ?thesis
  proof (cases "f_type d")
    case BooleanFilter
    with assms ne have "f = d" by (simp add: liveFilter_def Let_def)
    with assms(1) row BooleanFilter show ?thesis by (auto simp: live_in_def)
  next
    case MultiSelect
    with assms(2) ne have f: "f = d\<lparr>f_options := Some (filter (\<lambda>x. x \<in> set ?actual) (options_of d))\<rparr>"
      and "filter (\<lambda>x. x \<in> set ?actual) (options_of d) \<noteq> []"
      by (auto simp: liveFilter_def Let_def options_of_def split: if_splits)
    then show ?thesis using assms(1) row MultiSelect
      by (auto simp: live_in_def options_of_def in_map_filter)
  qed
qed

lemma prismaFindFilters_live:
  assumes "prismaFindFilters latest findCategory fetch slug = Inr (Some s)"
  obtains sid c where "latest = Some sid" and "findCategory slug = Some c" and "s_category s = slug"
    and "\<forall>f \<in> set (s_filters s). live_in (definitions (cr_filterSchema c)) (fetch (cr_id c) sid) f"
proof -
  obtain sid c where sid: "latest = Some sid" and c: "findCategory slug = Some c"
    using assms by (auto simp: prismaFindFilters_def withPublishedSnapshot_def split: option.splits)
  have s: "s = \<lparr>s_category = slug, s_filters = List.map_filter (liveFilter (fetch (cr_id c) sid))
                 (definitions (cr_filterSchema c))\<rparr>"
    using assms sid c
    by (auto simp: prismaFindFilters_def withPublishedSnapshot_def Let_def List.map_filter_simps split: if_splits)
  show ?thesis
    by (rule that [OF sid c]) (auto simp: s in_map_filter liveFilter_live)
qed

lemma prismaFindFilters_category:
  "prismaFindFilters latest findCategory fetch slug = Inr (Some s) \<Longrightarrow> s_category s = slug"
  by (rule prismaFindFilters_live)

text \<open>The contract of \<open>CategoryRepository\<close>: a schema is the one of the category asked for.\<close>

locale category_repository =
  fixes find_filters :: "jstr \<Rightarrow> http_error + filter_schema option"
  assumes schema_category: "find_filters slug = Inr (Some s) \<Longrightarrow> s_category s = slug"
begin

lemma find_filters_service:
  "findFiltersService find_filters slug = Inr s \<Longrightarrow> find_filters slug = Inr (Some s) \<and> s_category s = slug"
  by (auto simp: findFiltersService_def result_simps split: option.splits intro: schema_category)

end

interpretation prisma_categories: category_repository "prismaFindFilters latest findCategory fetch"
  for latest findCategory fetch
  by unfold_locales (rule prismaFindFilters_category)

text \<open>
  The schema served for a category and the validation of a query agree: a filter value that
  passes is one of the options served, so some usable product carries it.
\<close>

lemma served_value_is_live:
  assumes served: "prismaFindFilters latest findCategory fetch slug = Inr (Some s)"
    and f: "f \<in> set (s_filters s)" "f_type f = MultiSelect"
    and v: "parseFilterValue input f = Inr v"
  shows "\<exists>sid c row. latest = Some sid \<and> findCategory slug = Some c \<and> row \<in> set (fetch (cr_id c) sid) \<and>
           actualValue (f_key f) row = Some v"
proof -
  from served obtain sid c where sid: "latest = Some sid" "findCategory slug = Some c"
    and live: "\<forall>f \<in> set (s_filters s). live_in (definitions (cr_filterSchema c)) (fetch (cr_id c) sid) f"
    by (rule prismaFindFilters_live)
  from bspec [OF live f(1)] f(2) have o: "options_of f \<noteq> []"
    "\<forall>v \<in> set (options_of f). \<exists>row \<in> set (fetch (cr_id c) sid). actualValue (f_key f) row = Some v"
    unfolding live_in_def by auto
  from parseFilterValue_in_options [OF v o(1)] o(2) sid show ?thesis by blast
qed

section \<open>Store locations\<close>

record location =
  l_store :: store_code
  l_storeName :: jstr
  l_name :: jstr
  l_address :: jstr
  l_latitude :: real
  l_longitude :: real

record location_row =
  lr_code :: store_code
  lr_storeName :: jstr
  lr_id :: jstr
  lr_name :: jstr
  lr_address :: jstr
  lr_latitude :: real
  lr_longitude :: real

definition mapLocation :: "location_row \<Rightarrow> location" where
  "mapLocation r = \<lparr>l_store = lr_code r, l_storeName = lr_storeName r, l_name = lr_name r,
     l_address = lr_address r, l_latitude = lr_latitude r, l_longitude = lr_longitude r\<rparr>"

definition prismaFindByStoreCode :: "(store_code \<Rightarrow> location_row list) \<Rightarrow> store_code \<Rightarrow> location list" where
  "prismaFindByStoreCode fetch code = map mapLocation (fetch code)"

end
