(* ===== verification/Dashboard.thy ===== *)
theory Dashboard
  imports CatalogDb
begin

text \<open>
  Store locations and the dashboard: \<open>location/haversine.ts\<close>, \<open>location/nearest-store.ts\<close>,
  \<open>dashboard/basket-config.ts\<close>, \<open>dashboard/basket-calculator.ts\<close> and
  \<open>database/prisma-dashboard.repository.ts\<close>.
\<close>

section \<open>Distance\<close>

definition EARTH_RADIUS_METERS :: real where
  "EARTH_RADIUS_METERS = 6371000"

definition radians :: "real \<Rightarrow> real" where
  "radians degrees = degrees * pi / 180"

definition haversineMeters :: "real \<Rightarrow> real \<Rightarrow> real \<Rightarrow> real \<Rightarrow> real" where
  "haversineMeters lat1 lon1 lat2 lon2 =
    (let latitudeDelta = radians (lat2 - lat1);
         longitudeDelta = radians (lon2 - lon1);
         a = sin (latitudeDelta / 2) ^ 2 +
             cos (radians lat1) * cos (radians lat2) * sin (longitudeDelta / 2) ^ 2
     in 2 * EARTH_RADIUS_METERS * arcsin (sqrt (min 1 a)))"

lemma radians_minus: "radians (a - b) = - radians (b - a)"
  by (simp add: radians_def field_simps)

lemma haversine_sym: "haversineMeters lat1 lon1 lat2 lon2 = haversineMeters lat2 lon2 lat1 lon1"
proof -
  have "sin (radians (a - b) / 2) ^ 2 = sin (radians (b - a) / 2) ^ 2" for a b
    by (subst radians_minus) simp
  then show ?thesis by (simp add: haversineMeters_def Let_def mult.commute)
qed

lemma haversine_self: "haversineMeters lat lon lat lon = 0"
  by (simp add: haversineMeters_def radians_def)

text \<open>On coordinates with latitudes within the poles the distance is between 0 and half a great circle.\<close>

lemma cos_radians_nonneg: "\<bar>lat\<bar> \<le> 90 \<Longrightarrow> 0 \<le> cos (radians lat)"
proof -
  assume "\<bar>lat\<bar> \<le> 90"
  then have l: "- 90 \<le> lat" "lat \<le> 90" by auto
  have "lat * pi \<le> 90 * pi" "(- 90) * pi \<le> lat * pi"
    using l by (intro mult_right_mono; simp)+
  then have "- (pi / 2) \<le> radians lat" "radians lat \<le> pi / 2"
    by (simp_all add: radians_def)
  then show ?thesis by (rule cos_ge_zero)
qed

lemma arcsin_unit: "0 \<le> y \<Longrightarrow> y \<le> 1 \<Longrightarrow> 0 \<le> arcsin y" "0 \<le> y \<Longrightarrow> y \<le> 1 \<Longrightarrow> arcsin y \<le> pi / 2"
  using arcsin_le_arcsin [of 0 y] arcsin_bounded [of y] by simp_all

lemma haversine_bounds:
  assumes "\<bar>lat1\<bar> \<le> 90" and "\<bar>lat2\<bar> \<le> 90"
  shows "0 \<le> haversineMeters lat1 lon1 lat2 lon2"
    and "haversineMeters lat1 lon1 lat2 lon2 \<le> pi * EARTH_RADIUS_METERS"
proof -
  let ?a = "sin (radians (lat2 - lat1) / 2) ^ 2 +
     cos (radians lat1) * cos (radians lat2) * sin (radians (lon2 - lon1) / 2) ^ 2"
  have "0 \<le> ?a" using assms by (simp add: cos_radians_nonneg)
  then have "0 \<le> sqrt (min 1 ?a)" "sqrt (min 1 ?a) \<le> 1" by auto
  then have "0 \<le> arcsin (sqrt (min 1 ?a))" "arcsin (sqrt (min 1 ?a)) \<le> pi / 2"
    by (rule arcsin_unit)+
  then show "0 \<le> haversineMeters lat1 lon1 lat2 lon2"
    "haversineMeters lat1 lon1 lat2 lon2 \<le> pi * EARTH_RADIUS_METERS"
    by (simp_all add: haversineMeters_def Let_def EARTH_RADIUS_METERS_def)
qed

section \<open>The nearest store\<close>

definition nearestStore :: "real \<Rightarrow> real \<Rightarrow> location list \<Rightarrow> (location \<times> real) option" where
  "nearestStore latitude longitude locations =
    foldl (\<lambda>nearest location.
        let distanceMeters = haversineMeters latitude longitude (l_latitude location) (l_longitude location)
        in case nearest of
             None \<Rightarrow> Some (location, distanceMeters)
           | Some (l, d) \<Rightarrow> if distanceMeters < d then Some (location, distanceMeters) else nearest)
      None locations"

abbreviation "distance_to lat lon l \<equiv> haversineMeters lat lon (l_latitude l) (l_longitude l)"

interpretation nearer: ranked "\<lambda>a b :: location \<times> real. snd a \<le> snd b"
  by (rule ranked_key)

lemma nearestStore_best:
  "nearestStore lat lon ls = best_of (\<lambda>a b. snd a \<le> snd b) (map (\<lambda>l. (l, distance_to lat lon l)) ls)"
  unfolding nearestStore_def best_of_def foldl_map
  by (rule arg_cong [of _ _ "\<lambda>f. foldl f None ls"])
     (auto simp: keep_best_def Let_def fun_eq_iff split: option.splits)

lemma nearestStore_None: "nearestStore lat lon ls = None \<longleftrightarrow> ls = []"
  by (simp add: nearestStore_best)

lemma nearestStore_least:
  assumes "nearestStore lat lon ls = Some (l, d)"
  shows "l \<in> set ls" and "d = distance_to lat lon l" and "m \<in> set ls \<Longrightarrow> d \<le> distance_to lat lon m"
  using assms best_of_in [of "\<lambda>a b. snd a \<le> snd b"]
    nearer.best_of_least [of "map (\<lambda>l. (l, distance_to lat lon l)) ls" "(l, d)" "(m, distance_to lat lon m)"]
  unfolding nearestStore_best by fastforce+

section \<open>Baskets\<close>

record basket_slot =
  b_key :: jstr
  b_name :: jstr
  b_category :: jstr
  b_attribute :: jstr
  b_min :: rat
  b_max :: rat
  b_pattern :: rx

definition BASKET_SLOTS :: "basket_slot list" where
  "BASKET_SLOTS =
    [\<lparr>b_key = la ''basket-milk'', b_name = cap (ru ''moloko 1 l''), b_category = la ''milk'',
      b_attribute = la ''volumeMl'', b_min = 1000, b_max = 1000,
      b_pattern = sq [Bol, lit (ru ''moloko '')]\<rparr>,
     \<lparr>b_key = la ''basket-pasta'', b_name = cap (ru ''makaronY 400 g''), b_category = la ''groats'',
      b_attribute = la ''weightGrams'', b_min = 400, b_max = 400,
      b_pattern = sq [Bol, Grp 1 (alts [lit (ru ''makaronY''), lit (ru ''spagetti'')])]\<rparr>,
     \<lparr>b_key = la ''basket-rice'', b_name = cap (ru ''ris 800 g''), b_category = la ''groats'',
      b_attribute = la ''weightGrams'', b_min = 800, b_max = 800,
      b_pattern = sq [Bol, lit (ru ''ris '')]\<rparr>,
     \<lparr>b_key = la ''basket-yogurt'', b_name = cap (ru ''yogurt '') @ la ''Fruttis '' @ ru ''115 g'',
      b_category = la ''dairy'', b_attribute = la ''weightGrams'', b_min = 115, b_max = 115,
      b_pattern = lit (la ''fruttis'')\<rparr>,
     \<lparr>b_key = la ''basket-oil'', b_name = cap (ru ''maslo podsolneCnoe 0,8'') @ [8211] @ ru ''1 l'',
      b_category = la ''oil'', b_attribute = la ''volumeMl'', b_min = 800, b_max = 1000,
      b_pattern = lit (ru ''podsolneC'')\<rparr>]"

text \<open>The patterns carry the \<open>i\<close> flag, so they run on the lower-cased name.\<close>

definition fitsSlot :: "product_card \<Rightarrow> basket_slot \<Rightarrow> bool" where
  "fitsSlot p slot =
    (case map_of (p_attributes p) (b_attribute slot) of
       Some (Some (PNum (Fin sz))) \<Rightarrow>
         b_min slot \<le> sz \<and> sz \<le> b_max slot \<and> rx_test (b_pattern slot) (to_lower (p_name p))
     | _ \<Rightarrow> False)"

record basket_item =
  i_categorySlug :: jstr
  i_categoryName :: jstr
  i_productId :: "jstr option"
  i_name :: "jstr option"
  i_price :: "int option"

record basket =
  k_store :: store_code
  k_storeName :: jstr
  k_total :: int
  k_items :: "basket_item list"

definition better_pick :: "product_card \<times> int \<Rightarrow> product_card \<times> int \<Rightarrow> bool" where
  "better_pick x y \<longleftrightarrow> snd x < snd y \<or> snd x = snd y \<and> p_id (fst x) < p_id (fst y)"

definition pick_offer ::
  "store_code \<Rightarrow> product_card \<Rightarrow> (product_card \<times> int) option \<Rightarrow> offer \<Rightarrow> (product_card \<times> int) option" where
  "pick_offer code p cheapest x =
    (if o_store x \<noteq> code \<or> o_price x \<le> 0 then cheapest
     else case cheapest of
            None \<Rightarrow> Some (p, o_price x)
          | Some c \<Rightarrow> if better_pick (p, o_price x) c then Some (p, o_price x) else cheapest)"

definition cheapestFor :: "basket_slot \<Rightarrow> store_code \<Rightarrow> product_card list \<Rightarrow> (product_card \<times> int) option" where
  "cheapestFor slot code products =
    foldl (\<lambda>cheapest p. if p_catSlug p \<noteq> b_category slot \<or> \<not> fitsSlot p slot then cheapest
                        else foldl (pick_offer code p) cheapest (p_offers p)) None products"

definition basketItem :: "store_code \<Rightarrow> product_card list \<Rightarrow> basket_slot \<Rightarrow> basket_item" where
  "basketItem code products slot =
    (let cheapest = cheapestFor slot code products
     in \<lparr>i_categorySlug = b_key slot, i_categoryName = b_name slot,
         i_productId = map_option (\<lambda>c. p_id (fst c)) cheapest,
         i_name = map_option (\<lambda>c. p_name (fst c)) cheapest,
         i_price = map_option snd cheapest\<rparr>)"

fun storeOrder :: "store_code \<Rightarrow> int" where
  "storeOrder DINA = 0"
| "storeOrder DANA = 1"
| "storeOrder FIX_PRICE = 2"

definition calculateBaskets :: "product_card list \<Rightarrow> (store_code \<times> jstr) list \<Rightarrow> basket list" where
  "calculateBaskets products stores =
    map (\<lambda>(code, name).
        let items = map (basketItem code products) BASKET_SLOTS
        in \<lparr>k_store = code, k_storeName = name,
            k_total = foldl (\<lambda>sum item. sum + nullish (i_price item) 0) 0 items,
            k_items = items\<rparr>)
      (js_sort (\<lambda>a b. storeOrder (fst a) \<le> storeOrder (fst b)) stores)"

subsection \<open>The cheapest product of a slot\<close>

text \<open>What a slot may choose from: the priced offers of the store for the products that fit.\<close>

definition slot_candidates :: "basket_slot \<Rightarrow> store_code \<Rightarrow> product_card list \<Rightarrow> (product_card \<times> int) list" where
  "slot_candidates slot code products =
    concat (map (\<lambda>p. map (\<lambda>x. (p, o_price x)) (filter (\<lambda>x. o_store x = code \<and> 0 < o_price x) (p_offers p)))
      (filter (\<lambda>p. p_catSlug p = b_category slot \<and> fitsSlot p slot) products))"

definition pick_le :: "product_card \<times> int \<Rightarrow> product_card \<times> int \<Rightarrow> bool" where
  "pick_le x y \<longleftrightarrow> \<not> better_pick y x"

interpretation picks: ranked pick_le
  by unfold_locales (auto simp: pick_le_def better_pick_def)

lemma foldl_pick_offer:
  "foldl (pick_offer code p) b xs =
    foldl (keep_best pick_le) b (map (\<lambda>x. (p, o_price x)) (filter (\<lambda>x. o_store x = code \<and> 0 < o_price x) xs))"
  by (induction xs arbitrary: b)
     (simp_all add: pick_offer_def keep_best_def pick_le_def not_le split: option.splits)

lemma cheapestFor_best: "cheapestFor slot code products = best_of pick_le (slot_candidates slot code products)"
proof -
  have "foldl (\<lambda>cheapest p. if p_catSlug p \<noteq> b_category slot \<or> \<not> fitsSlot p slot then cheapest
                        else foldl (pick_offer code p) cheapest (p_offers p)) b products =
        foldl (keep_best pick_le) b (slot_candidates slot code products)" for b
    by (induction products arbitrary: b) (simp_all add: slot_candidates_def foldl_pick_offer)
  then show ?thesis by (simp add: cheapestFor_def best_of_def)
qed

lemma cheapestFor_None: "cheapestFor slot code products = None \<longleftrightarrow> slot_candidates slot code products = []"
  by (simp add: cheapestFor_best)

lemma cheapestFor_Some:
  assumes "cheapestFor slot code products = Some (p, price)"
  shows "p \<in> set products" and "p_catSlug p = b_category slot" and "fitsSlot p slot" and "0 < price"
    and "\<exists>x \<in> set (p_offers p). o_store x = code \<and> o_price x = price"
    and "(q, price') \<in> set (slot_candidates slot code products) \<Longrightarrow>
           price < price' \<or> price = price' \<and> p_id p \<le> p_id q"
proof -
  have "(p, price) \<in> set (slot_candidates slot code products)"
    using assms best_of_in by (force simp: cheapestFor_best)
  then show "p \<in> set products" "p_catSlug p = b_category slot" "fitsSlot p slot" "0 < price"
    "\<exists>x \<in> set (p_offers p). o_store x = code \<and> o_price x = price"
    by (auto simp: slot_candidates_def)
  assume "(q, price') \<in> set (slot_candidates slot code products)"
  with assms have "pick_le (p, price) (q, price')"
    unfolding cheapestFor_best by (intro picks.best_of_least)
  then show "price < price' \<or> price = price' \<and> p_id p \<le> p_id q"
    by (auto simp: pick_le_def better_pick_def)
qed

lemma foldl_total: "foldl (\<lambda>s item. s + f item) (a :: int) xs = a + (\<Sum>x\<leftarrow>xs. f x)"
  by (induction xs arbitrary: a) simp_all

lemma calculateBaskets_entry:
  assumes "b \<in> set (calculateBaskets products stores)"
  shows "(k_store b, k_storeName b) \<in> set stores"
    and "k_items b = map (basketItem (k_store b) products) BASKET_SLOTS"
    and "k_total b = (\<Sum>item\<leftarrow>k_items b. nullish (i_price item) 0)"
  using assms by (auto simp: calculateBaskets_def Let_def foldl_total)

interpretation store_order: ranked "\<lambda>a b :: store_code \<times> jstr. storeOrder (fst a) \<le> storeOrder (fst b)"
  by (rule ranked_key)

lemma calculateBaskets_stores:
  "mset (map (\<lambda>b. (k_store b, k_storeName b)) (calculateBaskets products stores)) = mset stores"
  "sorted_wrt (\<lambda>a b. storeOrder (k_store a) \<le> storeOrder (k_store b)) (calculateBaskets products stores)"
proof -
  have "map (\<lambda>b. (k_store b, k_storeName b)) (calculateBaskets products stores) =
     js_sort (\<lambda>a b. storeOrder (fst a) \<le> storeOrder (fst b)) stores"
    by (auto simp: calculateBaskets_def Let_def intro!: map_idI)
  then show "mset (map (\<lambda>b. (k_store b, k_storeName b)) (calculateBaskets products stores)) = mset stores"
    by simp
  show "sorted_wrt (\<lambda>a b. storeOrder (k_store a) \<le> storeOrder (k_store b)) (calculateBaskets products stores)"
    using store_order.sorted_js_sort [of stores]
    by (auto simp: calculateBaskets_def Let_def sorted_wrt_map elim!: sorted_wrt_mono_rel [rotated])
qed

section \<open>The dashboard\<close>

record price_spread =
  d_productId :: jstr
  d_name :: jstr
  d_minPrice :: int
  d_maxPrice :: int
  d_differencePercent :: rat

record dashboard =
  t_canonicalProducts :: nat
  t_stores :: nat
  t_matchedAcrossStores :: nat
  t_snapshotAt :: jstr
  t_priceSpreads :: "price_spread list"
  t_locations :: "location list"
  t_baskets :: "basket list"

text \<open>\<open>Math.min(...xs)\<close> and \<open>Math.max(...xs)\<close> of a non-empty list.\<close>

definition min_of :: "int list \<Rightarrow> int" where "min_of xs = foldl min (hd xs) (tl xs)"
definition max_of :: "int list \<Rightarrow> int" where "max_of xs = foldl max (hd xs) (tl xs)"

definition matchedAcross :: "product_card \<Rightarrow> bool" where
  "matchedAcross p \<longleftrightarrow> length (js_set (map o_store (p_offers p))) \<ge> 2"

definition priceSpread :: "product_card \<Rightarrow> price_spread" where
  "priceSpread p =
    (let prices = map o_price (p_offers p); lo = min_of prices; hi = max_of prices
     in \<lparr>d_productId = p_id p, d_name = p_name p, d_minPrice = lo, d_maxPrice = hi,
         d_differencePercent = of_int (js_round (of_int (hi - lo) / of_int lo * 10000)) / 100\<rparr>)"

definition latestSnapshot :: "jstr \<Rightarrow> product_card list \<Rightarrow> jstr" where
  "latestSnapshot start products =
    foldl (\<lambda>latest p. if p_snapshotAt p > latest then p_snapshotAt p else latest) start products"

definition empty_query :: product_query where
  "empty_query = \<lparr>q_category = None, q_search = None, q_sort = None, q_limit = None, q_offset = None, q_filters = []\<rparr>"

definition prismaGetDashboard ::
  "(product_query \<Rightarrow> http_error + product_card list) \<Rightarrow> (store_code \<times> jstr) list \<Rightarrow> location_row list \<Rightarrow>
   (jstr \<Rightarrow> jstr \<Rightarrow> bool) \<Rightarrow> http_error + dashboard" where
  "prismaGetDashboard findProducts stores rows le_id =
    and_then (findProducts empty_query) (\<lambda>products.
      let matched = filter matchedAcross products;
          spreads = js_sort (then_by (\<lambda>a b. d_differencePercent b \<le> d_differencePercent a)
                                     (\<lambda>a b. le_id (d_productId a) (d_productId b)))
                      (map priceSpread matched)
      in Inr \<lparr>t_canonicalProducts = length products, t_stores = length stores,
              t_matchedAcrossStores = length matched, t_snapshotAt = latestSnapshot [] products,
              t_priceSpreads = spreads, t_locations = map mapLocation rows,
              t_baskets = calculateBaskets products stores\<rparr>)"

lemma foldl_min: "foldl min (a :: int) xs \<in> insert a (set xs) \<and> (\<forall>x \<in> insert a (set xs). foldl min a xs \<le> x)"
  by (induction xs arbitrary: a) (force simp: min_def split: if_splits)+

lemma foldl_max: "foldl max (a :: int) xs \<in> insert a (set xs) \<and> (\<forall>x \<in> insert a (set xs). x \<le> foldl max a xs)"
  by (induction xs arbitrary: a) (force simp: max_def split: if_splits)+

lemma min_of_least: "xs \<noteq> [] \<Longrightarrow> min_of xs \<in> set xs \<and> (\<forall>x \<in> set xs. min_of xs \<le> x)"
  using foldl_min [of "hd xs" "tl xs"] by (cases xs) (simp_all add: min_of_def)

lemma max_of_greatest: "xs \<noteq> [] \<Longrightarrow> max_of xs \<in> set xs \<and> (\<forall>x \<in> set xs. x \<le> max_of xs)"
  using foldl_max [of "hd xs" "tl xs"] by (cases xs) (simp_all add: max_of_def)

lemma priceSpread_bounds:
  assumes "p_offers p \<noteq> []" and "x \<in> set (p_offers p)"
  shows "d_minPrice (priceSpread p) \<le> o_price x" and "o_price x \<le> d_maxPrice (priceSpread p)"
proof -
  let ?ps = "map o_price (p_offers p)"
  have x: "?ps \<noteq> []" "o_price x \<in> set ?ps" using assms by auto
  have "min_of ?ps \<le> o_price x" "o_price x \<le> max_of ?ps"
    by (rule bspec [OF conjunct2 [OF min_of_least [OF x(1)]] x(2)],
        rule bspec [OF conjunct2 [OF max_of_greatest [OF x(1)]] x(2)])
  then show "d_minPrice (priceSpread p) \<le> o_price x" "o_price x \<le> d_maxPrice (priceSpread p)"
    by (simp_all add: priceSpread_def Let_def)
qed

lemma priceSpread_nonneg:
  assumes "has_usable_offers p"
  shows "0 \<le> d_differencePercent (priceSpread p)"
proof -
  let ?ps = "map o_price (p_offers p)"
  have "?ps \<noteq> []" using assms by (simp add: has_usable_offers_def)
  then have lo: "min_of ?ps \<in> set ?ps" "min_of ?ps \<le> max_of ?ps"
    using min_of_least max_of_greatest by blast+
  then have "0 < min_of ?ps" using assms by (auto simp: has_usable_offers_def)
  with lo(2) have "0 \<le> of_int (max_of ?ps - min_of ?ps) / (of_int (min_of ?ps) :: rat) * 10000"
    by simp
  then show ?thesis by (simp add: priceSpread_def Let_def js_round_nonneg)
qed

lemma ranked_spreads:
  "consistent_compare le_id \<Longrightarrow> ranked (then_by (\<lambda>a b. d_differencePercent b \<le> d_differencePercent a)
     (\<lambda>a b. le_id (d_productId a) (d_productId b)))"
  by (rule ranked_then_by [OF ranked_key_desc ranked_on]) (simp add: consistent_compare_ranked)

lemma then_by_first: "ranked le1 \<Longrightarrow> then_by le1 le2 a b \<Longrightarrow> le1 a b"
  by (auto simp: then_by_def split: if_splits)

end
