(* ===== verification/Fixtures.thy ===== *)
theory Fixtures
  imports Dashboard
begin

text \<open>
  The fixture repositories (\<open>backend/src/fixtures/repositories.ts\<close>): the in-memory implementation
  of the repository contracts, with its data.
\<close>

definition fixture_snapshotAt :: jstr where
  "fixture_snapshotAt = la ''2026-09-23T09:00:00.000Z''"

definition fixture_categories :: "category list" where
  "fixture_categories =
    [\<lparr>c_id = la ''bd82bf16-270e-4aa8-b78e-3981efb7eac2'', c_slug = la ''milk'', c_name = cap (ru ''moloko'')\<rparr>]"

definition milkFilters :: filter_schema where
  "milkFilters =
    \<lparr>s_category = la ''milk'',
     s_filters =
       [\<lparr>f_key = la ''volumeMl'', f_label = cap (ru ''obXOm''), f_type = MultiSelect,
         f_options = Some [num 500, num 1000]\<rparr>,
        \<lparr>f_key = la ''fatPercent'', f_label = cap (ru ''jirnostx''), f_type = MultiSelect,
         f_options = Some [num (5 / 2), num (16 / 5)]\<rparr>]\<rparr>"

definition fixture_products :: "product_card list" where
  "fixture_products =
    [\<lparr>p_id = la ''2358a413-8c03-4e59-baad-7675045b97bb'',
      p_name = cap (ru ''moloko '') @ la ''FoodMaster 3.2% 1 '' @ ru ''l'',
      p_brand = Some (la ''FoodMaster''), p_catSlug = la ''milk'', p_catName = cap (ru ''moloko''),
      p_imageUrl = None,
      p_attributes = [(la ''volumeMl'', Some (num 1000)), (la ''fatPercent'', Some (num (16 / 5)))],
      p_minPrice = 570,
      p_offers =
        [\<lparr>o_store = DINA, o_storeName = la ''Dina'', o_price = 570, o_oldPrice = None\<rparr>,
         \<lparr>o_store = DANA, o_storeName = la ''Dana'', o_price = 620, o_oldPrice = Some 650\<rparr>],
      p_snapshotAt = fixture_snapshotAt\<rparr>,
     \<lparr>p_id = la ''c6381f7d-b66a-445a-bbe6-3e56670656c2'',
      p_name = cap (ru ''moloko '') @ cap (ru ''adal'') @ la '' 2.5% 500 '' @ ru ''ml'',
      p_brand = Some (cap (ru ''adal'')), p_catSlug = la ''milk'', p_catName = cap (ru ''moloko''),
      p_imageUrl = None,
      p_attributes = [(la ''volumeMl'', Some (num 500)), (la ''fatPercent'', Some (num (5 / 2)))],
      p_minPrice = 390,
      p_offers =
        [\<lparr>o_store = DANA, o_storeName = la ''Dana'', o_price = 390, o_oldPrice = None\<rparr>,
         \<lparr>o_store = DINA, o_storeName = la ''Dina'', o_price = 420, o_oldPrice = None\<rparr>],
      p_snapshotAt = fixture_snapshotAt\<rparr>]"

definition unverified_address :: jstr where
  "unverified_address = cap (ru ''aktau'') @ la '', '' @ ru ''demonstracionnYy adres (ne proveren)''"

definition demo_point :: "jstr \<Rightarrow> jstr" where
  "demo_point store = store @ la '' '' @ [8212] @ la '' '' @ ru ''demo-toCka''"

definition fixture_locations :: "location list" where
  "fixture_locations =
    [\<lparr>l_store = DINA, l_storeName = la ''Dina'', l_name = demo_point (la ''Dina''),
      l_address = unverified_address, l_latitude = 43635 / 1000, l_longitude = 51169 / 1000\<rparr>,
     \<lparr>l_store = DANA, l_storeName = la ''Dana'', l_name = demo_point (la ''Dana''),
      l_address = unverified_address, l_latitude = 43645 / 1000, l_longitude = 51181 / 1000\<rparr>]"

section \<open>Products\<close>

definition fixtureMatches :: "product_query \<Rightarrow> product_card \<Rightarrow> bool" where
  "fixtureMatches query p \<longleftrightarrow>
    (\<not> truthy_str (q_category query) \<or> Some (p_catSlug p) = q_category query) \<and>
    (let search = map_option to_lower (q_search query)
     in \<not> truthy_str search \<or> str_includes (to_lower (p_name p)) (the search)) \<and>
    list_all (\<lambda>(key, values). case map_of (p_attributes p) key of
                Some (Some v) \<Rightarrow> v \<in> set values | _ \<Rightarrow> False) (q_filters query)"

definition fixture_le :: "(jstr \<Rightarrow> jstr \<Rightarrow> bool) \<Rightarrow> sort_order option \<Rightarrow> product_card \<Rightarrow> product_card \<Rightarrow> bool" where
  "fixture_le le_ru order =
    (if order = Some NameAsc then (\<lambda>a b. le_ru (p_name a) (p_name b))
     else if order = Some PriceDesc then (\<lambda>a b. p_minPrice b \<le> p_minPrice a)
     else (\<lambda>a b. p_minPrice a \<le> p_minPrice b))"

definition fixtureFindProducts ::
  "(jstr \<Rightarrow> jstr \<Rightarrow> bool) \<Rightarrow> product_query \<Rightarrow> http_error + product_card list" where
  "fixtureFindProducts le_ru query =
    (let filtered = map normalizeProduct (filter (fixtureMatches query) fixture_products)
     in Inr (slice_page (q_offset query) (q_limit query) (js_sort (fixture_le le_ru (q_sort query)) filtered)))"

definition fixtureFindById :: "jstr \<Rightarrow> http_error + product_card option" where
  "fixtureFindById i = Inr (List.find (\<lambda>p. p_id p = i) fixture_products)"

definition fixtureFindFilters :: "jstr \<Rightarrow> http_error + filter_schema option" where
  "fixtureFindFilters slug = Inr (if slug = la ''milk'' then Some milkFilters else None)"

definition fixtureFindAll :: "http_error + category list" where
  "fixtureFindAll = Inr fixture_categories"

definition fixtureFindByStoreCode :: "store_code \<Rightarrow> location list" where
  "fixtureFindByStoreCode code = filter (\<lambda>l. l_store l = code) fixture_locations"

lemma fixture_products_usable: "p \<in> set fixture_products \<Longrightarrow> has_usable_offers p"
  by (auto simp: fixture_products_def has_usable_offers_def)

lemma fixture_no_brand_key: "p \<in> set fixture_products \<Longrightarrow> map_of (p_attributes p) (la ''brand'') = None"
  by (auto simp: fixture_products_def la_def)

lemma fixtureMatches_fits: "p \<in> set fixture_products \<Longrightarrow> fixtureMatches q p \<Longrightarrow> fits q p"
  unfolding fits_def
proof (intro conjI allI ballI impI)
  fix c assume "fixtureMatches q p" "q_category q = Some c" "c \<noteq> []"
  then show "p_catSlug p = c" by (simp add: fixtureMatches_def truthy_str_def)
next
  fix kv assume p: "p \<in> set fixture_products" "fixtureMatches q p" and kv: "kv \<in> set (q_filters q)"
  obtain key vs where kv_eq: "kv = (key, vs)" by (cases kv)
  have "case map_of (p_attributes p) key of Some (Some v) \<Rightarrow> v \<in> set vs | _ \<Rightarrow> False"
    using p(2) kv kv_eq by (auto simp: fixtureMatches_def list_all_iff)
  then show "case kv of (key, options) \<Rightarrow> \<exists>v. attr_value p key = Some v \<and> v \<in> set options"
    using fixture_no_brand_key [OF p(1)] kv_eq by (auto simp: attr_value_def split: option.splits)
qed

lemma fits_normalizeProduct [simp]: "fits q (normalizeProduct p) = fits q p"
proof -
  have "attr_value (normalizeProduct p) = attr_value p" by (simp add: fun_eq_iff attr_value_def)
  then show ?thesis by (simp add: fits_def)
qed

lemma fixtureFindProducts_member:
  assumes "fixtureFindProducts le_ru q = Inr ps" and "p \<in> set ps"
  obtains r where "r \<in> set fixture_products" and "fixtureMatches q r" and "p = normalizeProduct r"
  using assms set_slice_page by (fastforce simp: fixtureFindProducts_def Let_def)

interpretation fixture_repository: product_repository "fixtureFindProducts le_ru"
  for le_ru
proof
  fix q ps p
  assume ps: "fixtureFindProducts le_ru q = Inr ps"
  show "fits q p" if "p \<in> set ps"
    using ps that
  proof (rule fixtureFindProducts_member)
    fix r assume "r \<in> set fixture_products" "fixtureMatches q r" and p: "p = normalizeProduct r"
    then have "fits q r" by (intro fixtureMatches_fits)
    then show "fits q p" by (simp add: p)
  qed
  show "has_usable_offers p" if "p \<in> set ps"
    using ps that
    by (rule fixtureFindProducts_member) (auto simp: has_usable_offers_def dest!: fixture_products_usable)
  show "length ps \<le> nat l" if "q_limit q = Some l" for l
    using ps that by (auto simp: fixtureFindProducts_def slice_page_def Let_def)
qed

interpretation fixture_categories: category_repository fixtureFindFilters
  by unfold_locales (auto simp: fixtureFindFilters_def milkFilters_def split: if_splits)

section \<open>Dashboard\<close>

definition fixtureGetDashboard :: dashboard where
  "fixtureGetDashboard =
    (let matched = filter matchedAcross fixture_products;
         spreads = js_sort (\<lambda>a b. d_differencePercent b \<le> d_differencePercent a) (map priceSpread matched)
     in \<lparr>t_canonicalProducts = length fixture_products,
         t_stores = length (js_set (map l_store fixture_locations)),
         t_matchedAcrossStores = length matched,
         t_snapshotAt = latestSnapshot (p_snapshotAt (hd fixture_products)) fixture_products,
         t_priceSpreads = spreads, t_locations = fixture_locations,
         t_baskets = calculateBaskets fixture_products [(DINA, la ''Dina''), (DANA, la ''Dana'')]\<rparr>)"

end
