(* ===== verification/CatalogProperties.thy ===== *)
theory CatalogProperties
  imports Fixtures
begin

text \<open>
  The properties of the catalogue, the dashboard and the store locations, with the concrete
  data their witnesses run on: a small table of rows served the way the database serves them.
\<close>

section \<open>A small table\<close>

definition milk_row :: "jstr \<Rightarrow> int \<Rightarrow> int \<Rightarrow> rat \<Rightarrow> product_row" where
  "milk_row i dina dana volume =
    \<lparr>pr_id = i, pr_name = ru ''moloko '' @ i, pr_brand = None, pr_catSlug = la ''milk'',
     pr_catName = ru ''moloko'', pr_imageUrl = None,
     pr_attributes = JObj [(la ''volumeMl'', JNum (Fin volume))],
     pr_offers =
       [\<lparr>or_store = DINA, or_storeName = la ''Dina'', or_price = dina, or_oldPrice = None, or_inStock = True, or_snapshotAt = 0\<rparr>,
        \<lparr>or_store = DANA, or_storeName = la ''Dana'', or_price = dana, or_oldPrice = None, or_inStock = True, or_snapshotAt = 0\<rparr>]\<rparr>"

definition milk_table :: "product_row list" where
  "milk_table = [milk_row (la ''a'') 600 570 1000, milk_row (la ''b'') 390 420 500, milk_row (la ''c'') 0 450 1000]"

definition table_fetch :: "product_where \<Rightarrow> product_row list" where
  "table_fetch w = filter (\<lambda>r. w_category w = None \<or> w_category w = Some (pr_catSlug r)) milk_table"

lemma table_honours_category: "honours_category table_fetch"
  by (auto simp: honours_category_def table_fetch_def)

lemma consistent_str_le: "consistent_compare str_le"
  by (auto simp: consistent_compare_def str_le_def)

definition milk_schema :: "filter_def list" where
  "milk_schema = [\<lparr>f_key = la ''volumeMl'', f_label = la ''V'', f_type = MultiSelect, f_options = Some [num 500, num 1000]\<rparr>]"

definition milk_request :: "(jstr \<times> jval) list" where
  "milk_request = [(la ''category'', JStr (la '' milk '')), (la ''volumeMl'', JArr [JStr (la ''1000'')]),
                   (la ''limit'', JStr (la ''2''))]"

definition milk_findFilters :: "jstr \<Rightarrow> http_error + filter_schema option" where
  "milk_findFilters slug = Inr (Some \<lparr>s_category = slug, s_filters = milk_schema\<rparr>)"

definition dina_basket :: basket where
  "dina_basket = hd (calculateBaskets fixture_products [(DINA, la ''Dina'')])"

definition stored_category :: "jstr \<Rightarrow> category_row option" where
  "stored_category slug = Some \<lparr>cr_id = la ''1'', cr_slug = slug, cr_name = slug, cr_filterSchema =
     JObj [(la ''filters'', JArr [JObj [(la ''key'', JStr (la ''volumeMl'')), (la ''label'', JStr (la ''V'')),
       (la ''type'', JStr (la ''multi-select'')),
       (la ''options'', JArr [JNum (Fin 500), JNull, JNum (Fin 1000)])]])]\<rparr>"

definition stored_attributes :: "jstr \<Rightarrow> jstr \<Rightarrow> attr_row list" where
  "stored_attributes cid sid = [(None, JObj [(la ''volumeMl'', JNum (Fin 1000))])]"

definition live_volume :: filter_def where
  "live_volume = \<lparr>f_key = la ''volumeMl'', f_label = la ''V'', f_type = MultiSelect, f_options = Some [num 1000]\<rparr>"

section \<open>Properties\<close>

text \<open>C3: A product query that passes validation is safe to run: it has a sort order, a limit between
  1 and 100, a non-negative offset, no empty search or category, filters only when a category is
  given, and every filter value is of a known filter and among its options.\<close>

theorem parsed_query_is_safe:
  assumes "parseProductQuery raw ds = Inr q"
  shows "query_ok ds q"
  using assms by (rule parseProductQuery_ok)

theorem parsed_query_is_safe_witness:
  "parseProductQuery milk_request milk_schema \<noteq> Inl (BadRequest []) \<and>
   query_ok milk_schema (projr (parseProductQuery milk_request milk_schema))"
proof -
  have "parseProductQuery milk_request milk_schema =
     Inr \<lparr>q_category = Some (la ''milk''), q_search = None, q_sort = Some PriceAsc, q_limit = Some 2,
          q_offset = Some 0, q_filters = [(la ''volumeMl'', [num 1000])]\<rparr>"
    by code_simp
  with parsed_query_is_safe [OF this] show ?thesis by simp
qed

text \<open>A limit or offset is accepted exactly when it is a non-empty string of digits whose value
  is at least the minimum and a safe integer, and is then that value.\<close>

theorem integer_parameter_exact:
  "integerParam (JStr s) key minimum = Inr (Some n) \<longleftrightarrow>
     s \<noteq> [] \<and> list_all digit_ch s \<and> n = digits_val s \<and> minimum \<le> n \<and> n \<le> max_safe_integer"
  using integerParam_exact [of s key minimum n] by (simp add: list_all_iff)

text \<open>C1: Whatever a client sends, the product list served from the database has at most 100 cards,
  each fits the client's category, is offered somewhere, and shows as its price the least of
  its offers, which is positive.\<close>

theorem served_cards:
  assumes "honours_category fetch"
    and "findAll findFilters (prismaFindProducts latest fetch le_ru le_id) raw = Inr cards"
  shows "length cards \<le> 100 \<and>
     (\<forall>c \<in> set cards. 0 < p_minPrice c \<and> (\<exists>x \<in> set (p_offers c). o_price x = p_minPrice c) \<and>
        (\<forall>x \<in> set (p_offers c). p_minPrice c \<le> o_price x))"
  using product_repository.find_all_result [OF prisma_product_repository [OF assms(1)] assms(2)] by blast

theorem served_cards_witness:
  "findAll milk_findFilters (prismaFindProducts (Some (la ''s'')) table_fetch str_le str_le) milk_request =
     Inr (map normalizeProduct (List.map_filter mapProduct [milk_row (la ''c'') 0 450 1000, milk_row (la ''a'') 600 570 1000])) \<and>
   length (projr (findAll milk_findFilters (prismaFindProducts (Some (la ''s'')) table_fetch str_le str_le) milk_request)) \<le> 100"
proof -
  have run: "findAll milk_findFilters (prismaFindProducts (Some (la ''s'')) table_fetch str_le str_le) milk_request =
     Inr (map normalizeProduct (List.map_filter mapProduct [milk_row (la ''c'') 0 450 1000, milk_row (la ''a'') 600 570 1000]))"
    by code_simp
  from served_cards [OF table_honours_category this] run show ?thesis by simp
qed

text \<open>Pages of a product query tile: a page followed by the next one is the page of both lengths,
  so paging neither skips nor repeats a product, whatever the comparators do.\<close>

theorem pages_tile:
  assumes "0 \<le> k" and "0 \<le> l" and "0 \<le> m"
    and "prismaFindProducts latest fetch le_ru le_id (q\<lparr>q_offset := Some k, q_limit := Some l\<rparr>) = Inr ps"
    and "prismaFindProducts latest fetch le_ru le_id (q\<lparr>q_offset := Some (k + l), q_limit := Some m\<rparr>) = Inr ps'"
  shows "prismaFindProducts latest fetch le_ru le_id (q\<lparr>q_offset := Some k, q_limit := Some (l + m)\<rparr>) = Inr (ps @ ps')"
proof -
  have tile: "take (nat l) (drop (nat k) xs) @ take (nat m) (drop (nat (k + l)) xs) = take (nat (l + m)) (drop (nat k) xs)"
    for xs :: "product_card list"
    using assms(1-3) by (simp add: nat_add_distrib take_add add.commute)
  obtain sid where "latest = Some sid"
    using assms(4) by (rule prismaFindProducts_Inr)
  with assms(4,5) show ?thesis
    by (auto simp: prismaFindProducts_def withPublishedSnapshot_def slice_page_def Let_def tile)
qed

theorem pages_tile_witness:
  "prismaFindProducts (Some (la ''s'')) table_fetch str_le str_le
     (empty_query\<lparr>q_offset := Some 0, q_limit := Some (1 + 2)\<rparr>) =
   Inr (List.map_filter mapProduct [milk_row (la ''b'') 390 420 500] @
        List.map_filter mapProduct [milk_row (la ''c'') 0 450 1000, milk_row (la ''a'') 600 570 1000])"
  by (rule pages_tile) (simp, simp, simp, code_simp, code_simp)

text \<open>With consistent locale comparators an unpaged query returns exactly the products that match
  it, each once, ordered by the comparator of the requested sort.\<close>

theorem query_complete_and_sorted:
  assumes "consistent_compare le_ru" and "consistent_compare le_id"
    and "q_limit q = None" and "q_offset q = None"
    and "prismaFindProducts (Some sid) fetch le_ru le_id q = Inr ps"
  shows "sorted_wrt (product_le le_ru le_id (q_sort q)) ps \<and>
     mset ps = mset (filter (\<lambda>p. matchesFilters p (q_filters q)) (List.map_filter mapProduct
       (fetch \<lparr>w_snapshot = sid, w_category = or_undefined (q_category q), w_search = or_undefined (q_search q)\<rparr>)))"
proof -
  have le: "ranked (product_le le_ru le_id (q_sort q))"
    using assms(1,2) by (rule ranked_product_le)
  from assms(5) show ?thesis
    using ranked.sorted_js_sort [OF le] assms(3,4)
    by (auto simp: prismaFindProducts_def withPublishedSnapshot_def slice_page_def Let_def)
qed

theorem query_complete_and_sorted_witness:
  "sorted_wrt (product_le str_le str_le None)
     (List.map_filter mapProduct [milk_row (la ''b'') 390 420 500, milk_row (la ''c'') 0 450 1000, milk_row (la ''a'') 600 570 1000])"
proof -
  have run: "prismaFindProducts (Some (la ''s'')) table_fetch str_le str_le empty_query =
     Inr (List.map_filter mapProduct [milk_row (la ''b'') 390 420 500, milk_row (la ''c'') 0 450 1000, milk_row (la ''a'') 600 570 1000])"
    by code_simp
  from query_complete_and_sorted [OF consistent_str_le consistent_str_le _ _ run]
  show ?thesis by (simp add: empty_query_def)
qed

text \<open>A value that passes the filter schema served for a category is carried by some usable
  product of that category in the published snapshot.\<close>

theorem accepted_filter_value_is_live:
  assumes "prismaFindFilters latest findCategory fetch slug = Inr (Some s)"
    and "f \<in> set (s_filters s)" and "f_type f = MultiSelect"
    and "parseFilterValue input f = Inr v"
  shows "\<exists>sid c row. latest = Some sid \<and> findCategory slug = Some c \<and> row \<in> set (fetch (cr_id c) sid) \<and>
           actualValue (f_key f) row = Some v"
  using assms by (rule served_value_is_live)

theorem accepted_filter_value_is_live_witness:
  "\<exists>sid c row. Some (la ''s'') = Some sid \<and> stored_category (la ''milk'') = Some c \<and>
     row \<in> set (stored_attributes (cr_id c) sid) \<and> actualValue (la ''volumeMl'') row = Some (num 1000)"
proof -
  have served: "prismaFindFilters (Some (la ''s'')) stored_category stored_attributes (la ''milk'') =
     Inr (Some \<lparr>s_category = la ''milk'', s_filters = [live_volume]\<rparr>)"
    by code_simp
  have parsed: "parseFilterValue (la ''1000'') live_volume = Inr (num 1000)" by code_simp
  show ?thesis
    using accepted_filter_value_is_live [OF served _ _ parsed] by (simp add: live_volume_def)
qed

text \<open>C30: Each basket holds, for every slot, the cheapest offer of the store among the products that
  fit the slot (ties by product id), or nothing when no product fits.\<close>

theorem basket_items_cheapest:
  assumes "b \<in> set (calculateBaskets products stores)" and "slot \<in> set BASKET_SLOTS"
  shows "\<exists>item \<in> set (k_items b). i_categorySlug item = b_key slot \<and>
    (case i_price item of
       None \<Rightarrow> i_productId item = None \<and> slot_candidates slot (k_store b) products = []
     | Some price \<Rightarrow>
         (\<exists>p \<in> set products. i_productId item = Some (p_id p) \<and> p_catSlug p = b_category slot \<and> fitsSlot p slot \<and>
            0 < price \<and> (\<exists>x \<in> set (p_offers p). o_store x = k_store b \<and> o_price x = price) \<and>
            (\<forall>(r, price') \<in> set (slot_candidates slot (k_store b) products).
               price < price' \<or> price = price' \<and> p_id p \<le> p_id r)))"
proof -
  let ?item = "basketItem (k_store b) products slot"
  have mem: "?item \<in> set (k_items b)"
    using calculateBaskets_entry(2) [OF assms(1)] assms(2) by simp
  show ?thesis
  proof (cases "cheapestFor slot (k_store b) products")
    case None
    then show ?thesis
      by (intro bexI [OF _ mem]) (simp add: basketItem_def Let_def flip: cheapestFor_None)
  next
    case (Some c)
    then obtain p price where c: "cheapestFor slot (k_store b) products = Some (p, price)"
      by (cases c) simp
    note least = cheapestFor_Some [OF c]
    from c show ?thesis
      by (intro bexI [OF _ mem]) (use least in \<open>auto simp: basketItem_def Let_def\<close>)
  qed
qed

theorem basket_items_cheapest_witness:
  "\<exists>item \<in> set (k_items dina_basket). i_categorySlug item = la ''basket-milk'' \<and> i_price item = Some 570"
proof -
  have "dina_basket \<in> set (calculateBaskets fixture_products [(DINA, la ''Dina'')])"
    by (simp add: dina_basket_def) code_simp
  moreover have "hd BASKET_SLOTS \<in> set BASKET_SLOTS" by (simp add: BASKET_SLOTS_def)
  ultimately have "\<exists>item \<in> set (k_items dina_basket). i_categorySlug item = b_key (hd BASKET_SLOTS)"
    using basket_items_cheapest by blast
  moreover have "\<forall>item \<in> set (k_items dina_basket). i_categorySlug item = la ''basket-milk'' \<longrightarrow> i_price item = Some 570"
    by code_simp
  moreover have "b_key (hd BASKET_SLOTS) = la ''basket-milk''" by (simp add: BASKET_SLOTS_def)
  ultimately show ?thesis by auto
qed

text \<open>There is one basket per store, in the fixed store order, and its total is the sum of the
  prices of its items.\<close>

theorem baskets_per_store:
  "mset (map (\<lambda>b. (k_store b, k_storeName b)) (calculateBaskets products stores)) = mset stores \<and>
   sorted_wrt (\<lambda>a b. storeOrder (k_store a) \<le> storeOrder (k_store b)) (calculateBaskets products stores) \<and>
   list_all (\<lambda>b. k_total b = (\<Sum>item\<leftarrow>k_items b. nullish (i_price item) 0)) (calculateBaskets products stores)"
  using calculateBaskets_stores calculateBaskets_entry(3) by (auto simp: list_all_iff)

text \<open>The nearest store is one of the given ones, at its haversine distance, and no other is
  closer; there is none exactly when no location is given.\<close>

theorem nearest_store_is_nearest:
  "case nearestStore lat lon ls of
     None \<Rightarrow> ls = []
   | Some (l, d) \<Rightarrow> l \<in> set ls \<and> d = distance_to lat lon l \<and> list_all (\<lambda>m. d \<le> distance_to lat lon m) ls"
  using nearestStore_None [of lat lon ls] nearestStore_least [of lat lon ls]
  by (auto simp: list_all_iff split: option.splits)

text \<open>The haversine distance is symmetric, zero at the same point, and between zero and half the
  circumference of the Earth for latitudes within the poles.\<close>

theorem haversine_is_a_distance:
  assumes "\<bar>lat1\<bar> \<le> 90" and "\<bar>lat2\<bar> \<le> 90"
  shows "0 \<le> haversineMeters lat1 lon1 lat2 lon2 \<and>
    haversineMeters lat1 lon1 lat2 lon2 \<le> pi * EARTH_RADIUS_METERS \<and>
    haversineMeters lat1 lon1 lat2 lon2 = haversineMeters lat2 lon2 lat1 lon1 \<and>
    haversineMeters lat1 lon1 lat1 lon1 = 0"
  by (intro conjI haversine_bounds [OF assms] haversine_sym haversine_self)

theorem haversine_is_a_distance_witness:
  "0 \<le> haversineMeters 43 51 44 52 \<and> haversineMeters 43 51 44 52 \<le> pi * EARTH_RADIUS_METERS"
  using haversine_is_a_distance [of 43 44 51 52] by simp

text \<open>The dashboard served from the database counts what it shows: every product offered by two
  or more stores has one price spread, the spreads are sorted by decreasing difference, and no
  difference is negative.\<close>

theorem dashboard_spreads:
  assumes "honours_category fetch" and "consistent_compare le_id"
    and "prismaGetDashboard (prismaFindProducts latest fetch le_ru le_id) stores rows le_id = Inr t"
  shows "length (t_priceSpreads t) = t_matchedAcrossStores t \<and> t_matchedAcrossStores t \<le> t_canonicalProducts t \<and>
    t_stores t = length stores \<and>
    sorted_wrt (\<lambda>a b. d_differencePercent b \<le> d_differencePercent a) (t_priceSpreads t) \<and>
    (\<forall>d \<in> set (t_priceSpreads t). 0 \<le> d_differencePercent d)"
proof -
  let ?le = "then_by (\<lambda>a b. d_differencePercent b \<le> d_differencePercent a) (\<lambda>a b. le_id (d_productId a) (d_productId b))"
  obtain ps where ps: "prismaFindProducts latest fetch le_ru le_id empty_query = Inr ps"
    using assms(3) by (auto simp: prismaGetDashboard_def result_simps)
  have spreads: "t_priceSpreads t = js_sort ?le (map priceSpread (filter matchedAcross ps))"
    and counts: "t_matchedAcrossStores t = length (filter matchedAcross ps)" "t_canonicalProducts t = length ps"
      "t_stores t = length stores"
    using assms(3) ps by (auto simp: prismaGetDashboard_def Let_def)
  have "sorted_wrt ?le (t_priceSpreads t)"
    unfolding spreads by (rule ranked.sorted_js_sort [OF ranked_spreads [OF assms(2)]])
  then have "sorted_wrt (\<lambda>a b. d_differencePercent b \<le> d_differencePercent a) (t_priceSpreads t)"
    by (rule sorted_wrt_weaken) (rule then_by_first [OF ranked_key_desc])
  moreover have "0 \<le> d_differencePercent (priceSpread p)" if "p \<in> set ps" for p
    using product_repository.found_usable [OF prisma_product_repository [OF assms(1)] ps that]
    by (rule priceSpread_nonneg)
  ultimately show ?thesis using counts by (auto simp: spreads length_filter_le)
qed

theorem dashboard_spreads_witness:
  "\<exists>t. prismaGetDashboard (prismaFindProducts (Some (la ''s'')) table_fetch str_le str_le) [(DINA, la ''Dina'')] [] str_le = Inr t \<and>
     t_matchedAcrossStores t = 2 \<and> length (t_priceSpreads t) = 2"
proof -
  let ?r = "prismaGetDashboard (prismaFindProducts (Some (la ''s'')) table_fetch str_le str_le) [(DINA, la ''Dina'')] [] str_le"
  have "case ?r of Inr t \<Rightarrow> t_matchedAcrossStores t = 2 | Inl _ \<Rightarrow> False" by code_simp
  then obtain t where t: "?r = Inr t" "t_matchedAcrossStores t = 2" by (auto split: sum.splits)
  from dashboard_spreads [OF table_honours_category consistent_str_le t(1)] t show ?thesis by auto
qed

end
