(* ===== verification/Nlp.thy ===== *)
theory Nlp
  imports Catalog
begin

text \<open>
  Understanding a voice request (\<open>backend/src/voice/nlp\<close>): the deterministic parser, the
  validation of what the language model answers, the failover over API keys and the service
  that combines them. The model, its HTTP endpoint and \<open>JSON\<close> text are parameters.
\<close>

section \<open>Queries\<close>

datatype voice_intent = Cheapest | SearchPrices

record parsed_query =
  y_intent :: "voice_intent option"
  y_category :: "jstr option"
  y_filters :: "(jstr \<times> prim option) list"

record nlp_input =
  n_text :: jstr
  n_categories :: "category list"
  n_schemas :: "filter_schema list"
  n_currentCategory :: "jstr option"

section \<open>Validation of an untrusted answer\<close>

text \<open>\<open>None\<close> stands for a null filter value.\<close>

fun scalarFilter :: "jval \<Rightarrow> prim option option" where
  "scalarFilter JNull = Some None"
| "scalarFilter v = map_option Some (as_prim v)"

fun finite_prim :: "prim \<Rightarrow> bool" where
  "finite_prim (PNum n) = is_finite n"
| "finite_prim _ = True"

definition validFilter :: "prim option \<Rightarrow> filter_def \<Rightarrow> bool" where
  "validFilter value f \<longleftrightarrow>
    (case value of
       None \<Rightarrow> True
     | Some v \<Rightarrow>
         let options = options_of f
         in if f_type f = BooleanFilter then prim_type v = TBoolean \<and> (options = [] \<or> v \<in> set options)
            else if options = [] then False
            else prim_type v = first_type options \<and> finite_prim v \<and> v \<in> set options)"

fun parseIntent :: "jval \<Rightarrow> voice_intent option option" where
  "parseIntent JNull = Some None"
| "parseIntent (JStr s) =
    (if s = la ''cheapest'' then Some (Some Cheapest) else if s = la ''search'' then Some (Some SearchPrices) else None)"
| "parseIntent _ = None"

fun parseCategory :: "category list \<Rightarrow> jval \<Rightarrow> jstr option option" where
  "parseCategory cs JNull = Some None"
| "parseCategory cs (JStr s) = (if s \<in> c_slug ` set cs then Some (Some s) else None)"
| "parseCategory cs _ = None"

definition nullish_or :: "'a option \<Rightarrow> 'a option \<Rightarrow> 'a option" where
  "nullish_or a b = (case a of None \<Rightarrow> b | Some _ \<Rightarrow> a)"

text \<open>The filters the schema of a category defines, if there is a schema.\<close>

definition schemaOf :: "nlp_input \<Rightarrow> jstr option \<Rightarrow> filter_schema option" where
  "schemaOf input category = List.find (\<lambda>s. Some (s_category s) = category) (n_schemas input)"

definition definitionOf :: "filter_schema option \<Rightarrow> jstr \<Rightarrow> filter_def option" where
  "definitionOf schema key =
    (case schema of None \<Rightarrow> None | Some s \<Rightarrow> List.find (\<lambda>f. f_key f = key) (s_filters s))"

fun validEntries ::
  "filter_schema option \<Rightarrow> (jstr \<times> jval) list \<Rightarrow> (jstr \<times> prim option) list option" where
  "validEntries schema [] = Some []"
| "validEntries schema ((key, value) # rest) =
    (case definitionOf schema key of
       None \<Rightarrow> None
     | Some f \<Rightarrow> (case scalarFilter value of
         None \<Rightarrow> None
       | Some v \<Rightarrow> if validFilter v f then map_option (Cons (key, v)) (validEntries schema rest) else None))"

definition validateNlpResult :: "jval \<Rightarrow> nlp_input \<Rightarrow> parsed_query option" where
  "validateNlpResult value input =
    (case value of
       JObj ob \<Rightarrow>
         if \<not> list_all (\<lambda>k. k \<in> set [la ''intent'', la ''category'', la ''filters'']) (js_keys ob) then None
         else (case parseIntent (obj_get ob (la ''intent'')) of
           None \<Rightarrow> None
         | Some intent \<Rightarrow> (case parseCategory (n_categories input) (obj_get ob (la ''category'')) of
             None \<Rightarrow> None
           | Some category \<Rightarrow> (case obj_get ob (la ''filters'') of
               JObj filters \<Rightarrow>
                 map_option (\<lambda>fs. \<lparr>y_intent = intent, y_category = category, y_filters = fs\<rparr>)
                   (validEntries (schemaOf input (nullish_or category (n_currentCategory input))) filters)
             | _ \<Rightarrow> None)))
     | _ \<Rightarrow> None)"

text \<open>
  What a parsed query may contain: a known category, and only filters of the category in
  question with values its schema allows.
\<close>

definition query_valid :: "nlp_input \<Rightarrow> parsed_query \<Rightarrow> bool" where
  "query_valid input y \<longleftrightarrow>
    (\<forall>c. y_category y = Some c \<longrightarrow> c \<in> c_slug ` set (n_categories input)) \<and>
    (\<forall>(k, v) \<in> set (y_filters y).
       \<exists>s f. schemaOf input (nullish_or (y_category y) (n_currentCategory input)) = Some s \<and>
         List.find (\<lambda>f. f_key f = k) (s_filters s) = Some f \<and> validFilter v f)"

lemma validEntries_Some:
  "validEntries schema kvs = Some fs \<Longrightarrow> (k, v) \<in> set fs \<Longrightarrow>
    \<exists>f. definitionOf schema k = Some f \<and> validFilter v f"
  by (induction schema kvs arbitrary: fs rule: validEntries.induct)
     (auto split: option.splits if_splits)

lemma validEntries_keys: "validEntries schema kvs = Some fs \<Longrightarrow> js_keys fs = js_keys kvs"
  by (induction schema kvs arbitrary: fs rule: validEntries.induct) (auto split: option.splits if_splits)

lemma parseCategory_known: "parseCategory cs v = Some (Some c) \<Longrightarrow> c \<in> c_slug ` set cs"
  by (cases v) (auto split: if_splits)

lemma validateNlpResult_Some:
  assumes "validateNlpResult value input = Some y"
  obtains ob filters where "value = JObj ob" and "parseIntent (obj_get ob (la ''intent'')) = Some (y_intent y)"
    and "parseCategory (n_categories input) (obj_get ob (la ''category'')) = Some (y_category y)"
    and "validEntries (schemaOf input (nullish_or (y_category y) (n_currentCategory input))) filters = Some (y_filters y)"
  using assms by (auto simp: validateNlpResult_def split: jval.splits if_splits option.splits)

lemma validateNlpResult_valid: "validateNlpResult value input = Some y \<Longrightarrow> query_valid input y"
proof (erule validateNlpResult_Some)
  fix ob filters
  let ?s = "schemaOf input (nullish_or (y_category y) (n_currentCategory input))"
  assume c: "parseCategory (n_categories input) (obj_get ob (la ''category'')) = Some (y_category y)"
    and v: "validEntries ?s filters = Some (y_filters y)"
  have "\<exists>s f. ?s = Some s \<and> List.find (\<lambda>f. f_key f = k) (s_filters s) = Some f \<and> validFilter w f"
    if "(k, w) \<in> set (y_filters y)" for k w
    using validEntries_Some [OF v that] by (auto simp: definitionOf_def split: option.splits)
  moreover have "\<forall>cat. y_category y = Some cat \<longrightarrow> cat \<in> c_slug ` set (n_categories input)"
    using c by (metis parseCategory_known)
  ultimately show "query_valid input y" by (auto simp: query_valid_def)
qed

section \<open>The deterministic parser\<close>

text \<open>\<open>\p{L}\<close> on the Latin and Cyrillic blocks and \<open>\p{N}\<close> on Latin-1.\<close>

definition letter_ranges :: "(int \<times> int) list" where
  "letter_ranges = [(65, 90), (97, 122), (170, 170), (181, 181), (186, 186), (192, 214), (216, 246), (248, 705),
     (1024, 1153), (1162, 1327)]"

definition number_ranges :: "(int \<times> int) list" where
  "number_ranges = [(48, 57), (178, 179), (185, 185), (188, 190)]"

definition no_letter_next :: rx where
  "no_letter_next = Ahead False (Ch (Cls False letter_ranges))"

definition categoryKeywords :: "(rx \<times> jstr) list" where
  "categoryKeywords =
    (let oa = Ch (Cls False [(1086, 1086), (1072, 1072)])
     in [(sq [lit (ru ''molok''), oa], la ''milk''),
         (lit (ru ''hleb''), la ''bread''),
         (sq [lit (ru ''Ayc''), oa], la ''eggs''),
         (lit (ru ''sahar''), la ''sugar''),
         (sq [lit (ru ''masl''), oa], la ''oil'')])"

text \<open>\<open>/\b500\s*ml(?!\p{L})/\<close>, the litre pattern and the fat percentage.\<close>

definition rx_500ml :: rx where
  "rx_500ml = sq [WordB, lit (la ''500''), many (Ch c_space), lit (ru ''ml''), no_letter_next]"

definition rx_litre :: rx where
  "rx_litre = sq [alts [Bol, Ch (Cls True (letter_ranges @ number_ranges))],
     alts [lit (la ''1''), lit (ru ''odin'')], many (Ch c_space),
     alts [sq [lit (ru ''litr''), opt (lit (ru ''a''))], lit (ru ''l'')], no_letter_next]"

definition rx_percent :: rx where
  "rx_percent = sq [WordB,
     Grp 1 (Sq (many1 (Ch c_digit)) (opt (Sq (Ch (Cls False [(46, 46), (44, 44)])) (many1 (Ch c_digit))))),
     many (Ch c_space), alts [lit (la ''%''), sq [lit (ru ''procent''), opt (alts [lit (ru ''a''), lit (ru ''ov'')])]],
     no_letter_next]"

definition rx_cheap :: rx where
  "rx_cheap = alts [sq [lit (ru ''deS''), Ch (Cls False [(1077, 1077), (1105, 1105)]), lit (ru ''v'')], lit (ru ''deSevle'')]"

definition rx_search :: rx where
  "rx_search = alts (map lit [ru ''cenY'', ru ''naydi'', ru ''nayti'', ru ''pokaji''])"

definition fallback_allowed :: "nlp_input \<Rightarrow> jstr \<Rightarrow> rat \<Rightarrow> bool" where
  "fallback_allowed input key value \<longleftrightarrow>
    (case definitionOf (schemaOf input (Some (la ''milk''))) key of
       None \<Rightarrow> False
     | Some f \<Rightarrow> (case f_options f of None \<Rightarrow> False | Some os \<Rightarrow> num value \<in> set os))"

definition milkFiltersOf :: "nlp_input \<Rightarrow> jstr \<Rightarrow> (jstr \<times> prim option) list" where
  "milkFiltersOf input text =
    (let volume = (if rx_test rx_500ml text then Some 500 else if rx_test rx_litre text then Some 1000 else None);
         fatPercent = map_option (\<lambda>s. dec_val (map (\<lambda>c. if c = 44 then 46 else c) s)) (rx_group 1 rx_percent text)
     in (case volume of Some v \<Rightarrow> if fallback_allowed input (la ''volumeMl'') v then [(la ''volumeMl'', Some (num v))] else []
          | None \<Rightarrow> []) @
        (case fatPercent of Some v \<Rightarrow> if fallback_allowed input (la ''fatPercent'') v then [(la ''fatPercent'', Some (num v))] else []
          | None \<Rightarrow> []))"

definition fallbackParse :: "nlp_input \<Rightarrow> parsed_query" where
  "fallbackParse input =
    (let text = to_lower (n_text input);
         detected = map_option snd (List.find (\<lambda>(pattern, _). rx_test pattern text) categoryKeywords);
         category = (case detected of None \<Rightarrow> None
           | Some d \<Rightarrow> if d \<in> c_slug ` set (n_categories input) then Some d else None);
         effective = nullish_or category (n_currentCategory input)
     in \<lparr>y_intent = (if rx_test rx_cheap text then Some Cheapest
                    else if rx_test rx_search text then Some SearchPrices else None),
         y_category = category,
         y_filters = (if effective = Some (la ''milk'') then milkFiltersOf input text else [])\<rparr>)"

lemma fallbackParse_category:
  "y_category (fallbackParse input) = Some c \<Longrightarrow> c \<in> c_slug ` set (n_categories input)"
  by (auto simp: fallbackParse_def Let_def split: option.splits if_splits)

lemma fallbackParse_cheapest:
  "y_intent (fallbackParse input) = Some SearchPrices \<Longrightarrow> \<not> rx_test rx_cheap (to_lower (n_text input))"
  by (auto simp: fallbackParse_def Let_def split: if_splits)

section \<open>The language model\<close>

definition GEMINI_KEY_NAMES :: "jstr list" where
  "GEMINI_KEY_NAMES = [la ''GEMINI_API_KEY'', la ''GEMINI_API_KEY2'', la ''GEMINI_API_KEY3'']"

definition distinct_keys :: "jstr list \<Rightarrow> jstr list" where
  "distinct_keys keys = js_set (filter (\<lambda>k. k \<noteq> []) (map trim keys))"

definition configuredGeminiKeys :: "(jstr \<Rightarrow> jstr option) \<Rightarrow> jstr list" where
  "configuredGeminiKeys env = distinct_keys (List.map_filter env GEMINI_KEY_NAMES)"

definition first_text :: "jval list \<Rightarrow> jstr option" where
  "first_text parts =
    (case List.find (\<lambda>p. case p of JObj ob \<Rightarrow> (case obj_get ob (la ''text'') of JStr _ \<Rightarrow> True | _ \<Rightarrow> False) | _ \<Rightarrow> False) parts of
       Some (JObj ob) \<Rightarrow> (case obj_get ob (la ''text'') of JStr s \<Rightarrow> Some s | _ \<Rightarrow> None)
     | _ \<Rightarrow> None)"

definition extractResponseText :: "jval \<Rightarrow> jstr option" where
  "extractResponseText body =
    (case body of
       JObj ob \<Rightarrow> (case obj_get ob (la ''candidates'') of
         JArr (JObj candidate # _) \<Rightarrow> (case obj_get candidate (la ''content'') of
           JObj content \<Rightarrow> (case obj_get content (la ''parts'') of JArr parts \<Rightarrow> first_text parts | _ \<Rightarrow> None)
         | _ \<Rightarrow> None)
       | _ \<Rightarrow> None)
     | _ \<Rightarrow> None)"

text \<open>
  One HTTP attempt: \<open>None\<close> when \<open>fetch\<close> rejects; otherwise whether the status is ok and the
  JSON body (\<open>None\<close> when it does not parse). \<open>parse_json\<close> is \<open>JSON.parse\<close> and \<open>aborted t\<close> says
  whether the shared deadline has passed at the \<open>t\<close>-th time the loop looks at it.
\<close>

record http_reply =
  h_ok :: bool
  h_body :: "jval option"

definition readReply :: "(jstr \<Rightarrow> jval option) \<Rightarrow> http_reply option \<Rightarrow> jval option" where
  "readReply parse_json reply =
    (case reply of
       None \<Rightarrow> None
     | Some r \<Rightarrow>
         if \<not> h_ok r then None
         else (case h_body r of
           None \<Rightarrow> None
         | Some body \<Rightarrow>
             let text = extractResponseText body
             in if \<not> truthy_str text then None else parse_json (the text)))"

text \<open>The loop over the keys: the keys it sent a request with, and the answer (\<open>None\<close>: it throws).\<close>

fun failover ::
  "(nat \<Rightarrow> bool) \<Rightarrow> (jstr \<Rightarrow> http_reply option) \<Rightarrow> (jstr \<Rightarrow> jval option) \<Rightarrow> nat \<Rightarrow> jstr list \<Rightarrow>
   jstr list \<times> jval option" where
  "failover aborted request parse_json t [] = ([], None)"
| "failover aborted request parse_json t (key # keys) =
    (if aborted t then ([], None)
     else (case readReply parse_json (request key) of
       Some result \<Rightarrow>
         if \<not> aborted (t + 1) then ([key], Some result)
         else (let (tried, r) = failover aborted request parse_json (t + 2) keys in (key # tried, r))
     | None \<Rightarrow> (let (tried, r) = failover aborted request parse_json (t + 1) keys in (key # tried, r))))"

definition requestGeminiWithFailover ::
  "(nat \<Rightarrow> bool) \<Rightarrow> (jstr \<Rightarrow> http_reply option) \<Rightarrow> (jstr \<Rightarrow> jval option) \<Rightarrow> jstr list \<Rightarrow> jstr list \<times> jval option" where
  "requestGeminiWithFailover aborted request parse_json keys =
    failover aborted request parse_json 0 (distinct_keys keys)"

lemma failover_tried: "\<exists>rest. fst (failover aborted request parse_json t keys) @ rest = keys"
  by (induction aborted request parse_json t keys rule: failover.induct)
     (auto split: option.splits prod.splits if_splits)

lemma failover_result:
  assumes "failover aborted request parse_json t keys = (tried, Some r)"
  shows "\<exists>key init. tried = init @ [key] \<and> readReply parse_json (request key) = Some r"
  using assms
  by (induction aborted request parse_json t keys arbitrary: tried rule: failover.induct)
     (fastforce split: option.splits prod.splits if_splits)+

text \<open>With time left, the first key that answers decides and the ones after it are not used.\<close>

lemma failover_first:
  assumes "\<And>t. \<not> aborted t"
  shows "failover aborted request parse_json t keys =
    (case List.find (\<lambda>k. readReply parse_json (request k) \<noteq> None) keys of
       None \<Rightarrow> (keys, None)
     | Some k \<Rightarrow> (takeWhile (\<lambda>k. readReply parse_json (request k) = None) keys @ [k], readReply parse_json (request k)))"
  using assms
  by (induction aborted request parse_json t keys rule: failover.induct) (auto split: option.splits)

lemma distinct_distinct_keys [simp]: "distinct (distinct_keys keys)"
  by (simp add: distinct_keys_def)

lemma distinct_keys_nonempty: "k \<in> set (distinct_keys keys) \<Longrightarrow> k \<noteq> [] \<and> trim k = k"
  by (auto simp: distinct_keys_def)

subsection \<open>The request\<close>

definition value_type :: "filter_def \<Rightarrow> jstr" where
  "value_type f =
    (if f_type f = BooleanFilter then la ''boolean''
     else if first_type (options_of f) = TNumber then la ''number'' else la ''string'')"

definition any_of_null :: "jstr \<Rightarrow> jval" where
  "any_of_null t = JObj [(la ''anyOf'', JArr [JObj [(la ''type'', JStr t)], JObj [(la ''type'', JStr (la ''null''))]])]"

definition filterProperties :: "filter_schema list \<Rightarrow> (jstr \<times> jval) list" where
  "filterProperties schemas =
    foldl (\<lambda>m f. AList.update (f_key f) (any_of_null (value_type f)) m) [] (concat (map s_filters schemas))"

definition gemini_prompt :: "(filter_schema list \<Rightarrow> jstr) \<Rightarrow> nlp_input \<Rightarrow> jstr" where
  "gemini_prompt stringify input =
    join [10]
     [la ''Extract only intent, category, and explicitly stated filter values from the user text.'',
      la ''Use null for missing intent/category and omit missing filters. Return JSON only.'',
      la ''Allowed intents: cheapest, search. Do not select products, prices, stores, or locations.'',
      la ''Allowed category and filter context: '' @ stringify (n_schemas input),
      la ''Allowed category slugs: '' @ join (la '', '') (map c_slug (n_categories input)),
      la ''Current category for a clarification, if any: '' @ nullish (n_currentCategory input) (la ''none''),
      la ''User text: '' @ n_text input]"

definition response_schema :: "filter_schema list \<Rightarrow> jval" where
  "response_schema schemas =
    JObj [(la ''type'', JStr (la ''object'')),
          (la ''properties'', JObj
             [(la ''intent'', any_of_null (la ''string'')), (la ''category'', any_of_null (la ''string'')),
              (la ''filters'', JObj [(la ''type'', JStr (la ''object'')),
                                   (la ''properties'', JObj (filterProperties schemas)),
                                   (la ''additionalProperties'', JBool False)])]),
          (la ''required'', JArr (map JStr [la ''intent'', la ''category'', la ''filters''])),
          (la ''additionalProperties'', JBool False)]"

definition gemini_body :: "(filter_schema list \<Rightarrow> jstr) \<Rightarrow> nlp_input \<Rightarrow> jval" where
  "gemini_body stringify input =
    JObj [(la ''contents'', JArr [JObj [(la ''parts'', JArr [JObj [(la ''text'', JStr (gemini_prompt stringify input))]])]]),
          (la ''generationConfig'', JObj [(la ''responseMimeType'', JStr (la ''application/json'')),
                                        (la ''responseJsonSchema'', response_schema (n_schemas input))])]"

text \<open>\<open>post url body key\<close> is the provider's answer to one request.\<close>

definition geminiParse ::
  "(jstr \<Rightarrow> jstr option) \<Rightarrow> (nat \<Rightarrow> bool) \<Rightarrow> (jstr \<Rightarrow> jval \<Rightarrow> jstr \<Rightarrow> http_reply option) \<Rightarrow>
   (jstr \<Rightarrow> jval option) \<Rightarrow> (filter_schema list \<Rightarrow> jstr) \<Rightarrow> nlp_input \<Rightarrow> jval option" where
  "geminiParse env aborted post parse_json stringify input =
    (let keys = configuredGeminiKeys env
     in if keys = [] then None
        else
          let configured = map_option trim (env (la ''GEMINI_MODEL''));
              model = (if truthy_str configured then the configured else la ''gemini-3.1-flash-lite'');
              url = la ''https://generativelanguage.googleapis.com/v1beta/models/'' @ model @ la '':generateContent''
          in snd (requestGeminiWithFailover aborted (post url (gemini_body stringify input)) parse_json keys))"

lemma filterProperties_keys:
  "set (js_keys (filterProperties schemas)) = {k. \<exists>s \<in> set schemas. k \<in> f_key ` set (s_filters s)}"
proof -
  have "set (js_keys (foldl (\<lambda>m f. AList.update (f_key f) (any_of_null (value_type f)) m) m fs)) =
     set (js_keys m) \<union> f_key ` set fs" for m and fs :: "filter_def list"
    by (induction fs arbitrary: m) (simp_all add: dom_update)
  then show ?thesis by (auto simp: filterProperties_def)
qed

section \<open>The service\<close>

definition intent_json :: "voice_intent option \<Rightarrow> jval" where
  "intent_json i = (case i of None \<Rightarrow> JNull | Some Cheapest \<Rightarrow> JStr (la ''cheapest'') | Some SearchPrices \<Rightarrow> JStr (la ''search''))"

fun prim_json :: "prim option \<Rightarrow> jval" where
  "prim_json None = JNull"
| "prim_json (Some (PStr s)) = JStr s"
| "prim_json (Some (PNum n)) = JNum n"
| "prim_json (Some (PBool b)) = JBool b"

text \<open>A \<open>ParsedVoiceQuery\<close> seen as the plain object it is.\<close>

definition query_json :: "parsed_query \<Rightarrow> jval" where
  "query_json y =
    JObj [(la ''intent'', intent_json (y_intent y)),
          (la ''category'', case y_category y of None \<Rightarrow> JNull | Some c \<Rightarrow> JStr c),
          (la ''filters'', JObj (map (\<lambda>(k, v). (k, prim_json v)) (y_filters y)))]"

definition empty_parse :: parsed_query where
  "empty_parse = \<lparr>y_intent = None, y_category = None, y_filters = []\<rparr>"

definition nlpServiceParse :: "bool \<Rightarrow> (nlp_input \<Rightarrow> jval option) \<Rightarrow> nlp_input \<Rightarrow> parsed_query" where
  "nlpServiceParse configured gemini input =
    (case (if configured then (case gemini input of None \<Rightarrow> None | Some v \<Rightarrow> validateNlpResult v input) else None) of
       Some parsed \<Rightarrow> parsed
     | None \<Rightarrow> nullish (validateNlpResult (query_json (fallbackParse input)) input) empty_parse)"

lemma nlpServiceParse_valid: "query_valid input (nlpServiceParse configured gemini input)"
proof -
  have "query_valid input empty_parse" by (simp add: query_valid_def empty_parse_def)
  then show ?thesis
    unfolding nlpServiceParse_def nullish_def by (auto split: option.splits intro: validateNlpResult_valid)
qed

text \<open>Validation accepts exactly the queries it could have produced: it is the identity on them.\<close>

lemma scalarFilter_json [simp]: "scalarFilter (prim_json v) = Some v"
  by (cases v rule: prim_json.cases) simp_all

lemma parseIntent_json [simp]: "parseIntent (intent_json i) = Some i"
  by (cases i) (simp_all add: intent_json_def la_def split: voice_intent.splits)

lemma validEntries_json:
  "(\<forall>(k, v) \<in> set fs. \<exists>f. definitionOf schema k = Some f \<and> validFilter v f) \<Longrightarrow>
   validEntries schema (map (\<lambda>(k, v). (k, prim_json v)) fs) = Some fs"
  by (induction fs) auto

lemma validateNlpResult_json:
  assumes "query_valid input y"
  shows "validateNlpResult (query_json y) input = Some y"
proof -
  have "validEntries (schemaOf input (nullish_or (y_category y) (n_currentCategory input)))
      (map (\<lambda>(k, v). (k, prim_json v)) (y_filters y)) = Some (y_filters y)"
    using assms by (intro validEntries_json) (fastforce simp: query_valid_def definitionOf_def)
  moreover have "parseCategory (n_categories input)
      (case y_category y of None \<Rightarrow> JNull | Some c \<Rightarrow> JStr c) = Some (y_category y)"
    using assms by (auto simp: query_valid_def split: option.splits)
  ultimately show ?thesis
    by (simp add: validateNlpResult_def query_json_def obj_get_def la_def)
qed

end
