(* ===== verification/Voice.thy ===== *)
theory Voice
  imports Nlp Dashboard
begin

text \<open>
  The voice assistant (\<open>backend/src/voice\<close>): the state of a conversation and how an utterance
  updates it, the session stores, and the service that starts, continues and answers one.
\<close>

section \<open>Requests\<close>

text \<open>The validated bodies of \<open>POST /voice/start\<close> and \<open>/voice/continue\<close>.\<close>

definition visible_text :: "jval \<Rightarrow> bool" where
  "visible_text v \<longleftrightarrow> (case v of JStr s \<Rightarrow> s \<noteq> [] \<and> list_ex (\<lambda>c. \<not> space_ch c) s | _ \<Rightarrow> False)"

definition number_within :: "rat \<Rightarrow> rat \<Rightarrow> jnum \<Rightarrow> bool" where
  "number_within lo hi n \<longleftrightarrow> (case n of Fin q \<Rightarrow> lo \<le> q \<and> q \<le> hi | _ \<Rightarrow> False)"

definition validVoiceStart :: "jval \<Rightarrow> jnum \<Rightarrow> jnum \<Rightarrow> bool" where
  "validVoiceStart text latitude longitude \<longleftrightarrow>
    visible_text text \<and> number_within (- 90) 90 latitude \<and> number_within (- 180) 180 longitude"

definition validVoiceContinue :: "jval \<Rightarrow> jval \<Rightarrow> bool" where
  "validVoiceContinue sessionId text \<longleftrightarrow> visible_text sessionId \<and> visible_text text"

section \<open>The state of a conversation\<close>

record voice_session =
  u_intent :: "voice_intent option"
  u_category :: "jstr option"
  u_filters :: "(jstr \<times> prim option) list"
  u_latitude :: real
  u_longitude :: real

definition session_of :: "parsed_query \<Rightarrow> real \<Rightarrow> real \<Rightarrow> voice_session" where
  "session_of y latitude longitude =
    \<lparr>u_intent = y_intent y, u_category = y_category y, u_filters = y_filters y,
     u_latitude = latitude, u_longitude = longitude\<rparr>"

definition allowed_keys :: "filter_schema list \<Rightarrow> jstr option \<Rightarrow> jstr list" where
  "allowed_keys schemas category =
    (case List.find (\<lambda>s. Some (s_category s) = category) schemas of
       None \<Rightarrow> [] | Some s \<Rightarrow> map f_key (s_filters s))"

definition put_filters :: "(jstr \<times> 'v) list \<Rightarrow> (jstr \<times> 'v) list \<Rightarrow> (jstr \<times> 'v) list" where
  "put_filters m kvs = foldl (\<lambda>m (k, v). AList.update k v m) m kvs"

definition mergeVoiceSession :: "voice_session \<Rightarrow> parsed_query \<Rightarrow> filter_schema list \<Rightarrow> voice_session" where
  "mergeVoiceSession previous upd schemas =
    (let category = nullish_or (y_category upd) (u_category previous);
         allowed = allowed_keys schemas category;
         kept = (if category = u_category previous
                 then put_filters [] (filter (\<lambda>(k, v). k \<in> set allowed) (u_filters previous)) else []);
         filters = put_filters kept (filter (\<lambda>(k, v). k \<in> set allowed \<and> v \<noteq> None) (y_filters upd))
     in \<lparr>u_intent = nullish_or (u_intent previous) (y_intent upd), u_category = category,
         u_filters = filters, u_latitude = u_latitude previous, u_longitude = u_longitude previous\<rparr>)"

text \<open>\<open>filters[key] == null\<close>: the key is absent or its value is null.\<close>

definition no_value :: "(jstr \<times> prim option) list \<Rightarrow> jstr \<Rightarrow> bool" where
  "no_value fs key \<longleftrightarrow> (case map_of fs key of Some (Some _) \<Rightarrow> False | _ \<Rightarrow> True)"

definition missingVoiceFields :: "voice_session \<Rightarrow> jstr list" where
  "missingVoiceFields session =
    (if u_intent session = None then [la ''intent''] else []) @
    (if \<not> truthy_str (u_category session) then [la ''category''] else []) @
    (if u_category session = Some (la ''milk'') then
       (if no_value (u_filters session) (la ''volumeMl'') then [la ''volumeMl''] else []) @
       (if no_value (u_filters session) (la ''fatPercent'') then [la ''fatPercent''] else [])
     else [])"

definition clarificationQuestion :: "jstr list \<Rightarrow> jstr" where
  "clarificationQuestion missing =
    (if la ''intent'' \<in> set missing then cap (ru ''Cto nujno sdelatx: nayti cenY ili samYy deSOvYy tovar?'')
     else if la ''category'' \<in> set missing then cap (ru ''kakoy tovar vY iWete?'')
     else if la ''volumeMl'' \<in> set missing \<and> la ''fatPercent'' \<in> set missing
       then cap (ru ''kakoy obXOm i jirnostx moloka vam nujnY?'')
     else if la ''volumeMl'' \<in> set missing then cap (ru ''kakoy obXOm moloka vam nujen?'')
     else cap (ru ''kakaA jirnostx moloka vam nujna?''))"

subsection \<open>What merging keeps\<close>

lemma map_of_put_filters: "map_of (put_filters m kvs) = map_of m ++ map_of (rev kvs)"
  by (induction kvs arbitrary: m) (auto simp: put_filters_def js_map split: prod.splits)

lemma keys_put_filters: "set (js_keys (put_filters m kvs)) = set (js_keys m) \<union> set (js_keys kvs)"
proof -
  have "dom (map_of (put_filters m kvs)) = dom (map_of m) \<union> dom (map_of (rev kvs))"
    by (auto simp: map_of_put_filters)
  then show ?thesis by (simp add: dom_map_of_conv_image_fst)
qed

lemma distinct_put_filters: "distinct (js_keys m) \<Longrightarrow> distinct (js_keys (put_filters m kvs))"
  by (induction kvs arbitrary: m) (auto simp: put_filters_def distinct_update split: prod.splits)

lemma merge_fields [simp]:
  "u_intent (mergeVoiceSession p y ss) = nullish_or (u_intent p) (y_intent y)"
  "u_category (mergeVoiceSession p y ss) = nullish_or (y_category y) (u_category p)"
  "u_latitude (mergeVoiceSession p y ss) = u_latitude p"
  "u_longitude (mergeVoiceSession p y ss) = u_longitude p"
  by (simp_all add: mergeVoiceSession_def Let_def)

text \<open>Every filter of the merged session belongs to the schema of its category.\<close>

lemma merge_allowed:
  "k \<in> set (js_keys (u_filters (mergeVoiceSession p y ss))) \<Longrightarrow>
   k \<in> set (allowed_keys ss (u_category (mergeVoiceSession p y ss)))"
  by (auto simp: mergeVoiceSession_def Let_def keys_put_filters simp del: set_map split: if_splits) auto

lemma map_of_filter_key:
  "map_of (filter (\<lambda>(k, v). P k) m) k = (if P k then map_of m k else None)"
  by (induction m) auto

lemma map_of_rev_distinct: "distinct (js_keys m) \<Longrightarrow> map_of (rev m) = map_of m"
  by (subst map_of_inject_set) (simp_all flip: rev_map)

lemma distinct_filter_keys: "distinct (js_keys m) \<Longrightarrow> distinct (js_keys (filter P m))"
  by (induction m) auto

lemma map_of_put_distinct:
  "distinct (js_keys kvs) \<Longrightarrow> map_of (put_filters m kvs) = map_of m ++ map_of kvs"
  by (simp add: map_of_put_filters map_of_rev_distinct)

lemma map_of_given:
  "distinct (js_keys m) \<Longrightarrow> map_of (filter (\<lambda>(k, v). k \<in> A \<and> v \<noteq> None) m) k =
    (if k \<in> A then (case map_of m k of Some (Some v) \<Rightarrow> Some (Some v) | _ \<Rightarrow> None) else None)"
proof (induction m)
  case (Cons e m)
  obtain k' v where e: "e = (k', v)" by (cases e)
  have none: "map_of m k' = None" using Cons.prems e by (auto simp: map_of_eq_None_iff)
  show ?case
    using Cons none by (auto simp: e split: option.splits)
qed simp

lemma option_option_exhaust:
  obtains "x = None" | "x = Some None" | v where "x = Some (Some v)"
  by (cases x) auto

text \<open>
  The new answer wins over the old one; the old one is kept as long as the category is.
\<close>

lemma merge_lookup:
  assumes "distinct (js_keys (y_filters y))" and "distinct (js_keys (u_filters p))"
    and "k \<in> set (allowed_keys ss (u_category (mergeVoiceSession p y ss)))"
  shows "map_of (u_filters (mergeVoiceSession p y ss)) k =
    (case map_of (y_filters y) k of
       Some (Some v) \<Rightarrow> Some (Some v)
     | _ \<Rightarrow> if u_category (mergeVoiceSession p y ss) = u_category p then map_of (u_filters p) k else None)"
proof -
  let ?c = "nullish_or (y_category y) (u_category p)"
  let ?A = "set (allowed_keys ss ?c)"
  let ?given = "filter (\<lambda>(k, v). k \<in> ?A \<and> v \<noteq> None) (y_filters y)"
  let ?kept = "if ?c = u_category p then put_filters [] (filter (\<lambda>(k, v). k \<in> ?A) (u_filters p)) else []"
  have k: "k \<in> ?A" using assms(3) by simp
  have kept: "map_of ?kept k = (if ?c = u_category p then map_of (u_filters p) k else None)"
    using k by (cases "?c = u_category p")
      (simp_all add: map_of_put_distinct distinct_filter_keys assms(2) map_of_filter_key del: map_of_eq_Some_iff)
  have "map_of (u_filters (mergeVoiceSession p y ss)) k = (map_of ?kept ++ map_of ?given) k"
    unfolding mergeVoiceSession_def Let_def voice_session.select_convs
    by (rule fun_cong [OF map_of_put_distinct]) (rule distinct_filter_keys [OF assms(1)])
  also have "\<dots> = (case map_of ?given k of None \<Rightarrow> map_of ?kept k | Some v \<Rightarrow> Some v)"
    by (simp only: map_add_def)
  finally show ?thesis
    unfolding map_of_given [OF assms(1)] kept merge_fields using k
    by (cases "map_of (y_filters y) k" rule: option_option_exhaust) (simp_all del: map_of_eq_Some_iff)
qed

lemma no_value_merge:
  assumes "distinct (js_keys (y_filters y))" and "distinct (js_keys (u_filters p))"
    and "k \<in> set (allowed_keys ss (u_category (mergeVoiceSession p y ss)))"
    and "u_category (mergeVoiceSession p y ss) = u_category p"
  shows "no_value (u_filters (mergeVoiceSession p y ss)) k \<longleftrightarrow> no_value (y_filters y) k \<and> no_value (u_filters p) k"
  using merge_lookup [OF assms(1-3)] assms(4) by (auto simp: no_value_def split: option.splits)

subsection \<open>What is asked for\<close>

definition session_complete :: "voice_session \<Rightarrow> bool" where
  "session_complete s \<longleftrightarrow> u_intent s \<noteq> None \<and> truthy_str (u_category s) \<and>
    (u_category s = Some (la ''milk'') \<longrightarrow>
       \<not> no_value (u_filters s) (la ''volumeMl'') \<and> \<not> no_value (u_filters s) (la ''fatPercent''))"

lemma missing_Nil_iff: "missingVoiceFields s = [] \<longleftrightarrow> session_complete s"
  by (auto simp: missingVoiceFields_def session_complete_def)

lemma missing_fields:
  "la ''intent'' \<in> set (missingVoiceFields s) \<longleftrightarrow> u_intent s = None"
  "la ''category'' \<in> set (missingVoiceFields s) \<longleftrightarrow> \<not> truthy_str (u_category s)"
  "la ''volumeMl'' \<in> set (missingVoiceFields s) \<longleftrightarrow>
     u_category s = Some (la ''milk'') \<and> no_value (u_filters s) (la ''volumeMl'')"
  "la ''fatPercent'' \<in> set (missingVoiceFields s) \<longleftrightarrow>
     u_category s = Some (la ''milk'') \<and> no_value (u_filters s) (la ''fatPercent'')"
  by (simp_all add: missingVoiceFields_def la_def)

lemma missing_set: "set (missingVoiceFields s) \<subseteq> {la ''intent'', la ''category'', la ''volumeMl'', la ''fatPercent''}"
  by (auto simp: missingVoiceFields_def)

text \<open>As long as the category stays, an utterance never makes a conversation less complete.\<close>

lemma merge_progress:
  assumes "distinct (js_keys (y_filters y))" and "distinct (js_keys (u_filters p))"
    and "u_category (mergeVoiceSession p y ss) = u_category p"
    and "u_category p = Some (la ''milk'') \<Longrightarrow>
          {la ''volumeMl'', la ''fatPercent''} \<subseteq> set (allowed_keys ss (Some (la ''milk'')))"
  shows "set (missingVoiceFields (mergeVoiceSession p y ss)) \<subseteq> set (missingVoiceFields p)"
proof
  let ?m = "mergeVoiceSession p y ss"
  fix k assume k: "k \<in> set (missingVoiceFields ?m)"
  have v: "no_value (u_filters ?m) f \<Longrightarrow> no_value (u_filters p) f"
    if "f \<in> {la ''volumeMl'', la ''fatPercent''}" "u_category ?m = Some (la ''milk'')" for f
    using no_value_merge [OF assms(1,2) _ assms(3), of f] assms(3,4) that by auto
  from k missing_set [of ?m] consider "k = la ''intent''" | "k = la ''category''"
    | "k = la ''volumeMl''" | "k = la ''fatPercent''" by auto
  then show "k \<in> set (missingVoiceFields p)"
  proof cases
    case 1
    with k have "u_intent p = None"
      by (auto simp: missing_fields nullish_or_def split: option.splits)
    with 1 show ?thesis by (simp add: missing_fields)
  next
    case 2
    with k assms(3) show ?thesis by (simp only: missing_fields) auto
  next
    case 3
    with k v [of k] assms(3) show ?thesis by (simp only: missing_fields) auto
  next
    case 4
    with k v [of k] assms(3) show ?thesis by (simp only: missing_fields) auto
  qed
qed

section \<open>Session stores\<close>

definition VOICE_SESSION_TTL_SECONDS :: int where
  "VOICE_SESSION_TTL_SECONDS = 600"

definition voiceSessionKey :: "jstr \<Rightarrow> jstr" where
  "voiceSessionKey sessionId = la ''voice-session:'' @ sessionId"

lemma voiceSessionKey_inj [simp]: "voiceSessionKey a = voiceSessionKey b \<longleftrightarrow> a = b"
  by (simp add: voiceSessionKey_def)

text \<open>
  The operations of \<open>VoiceSessionRepository\<close> on the state \<open>'s\<close> of a store. A store may throw:
  \<open>ss_get\<close> then gives \<open>None\<close>, the other two \<open>False\<close>.
\<close>

record 's session_ops =
  ss_get :: "jstr \<Rightarrow> 's \<Rightarrow> voice_session option option \<times> 's"
  ss_set :: "jstr \<Rightarrow> voice_session \<Rightarrow> int \<Rightarrow> 's \<Rightarrow> bool \<times> 's"
  ss_delete :: "jstr \<Rightarrow> 's \<Rightarrow> bool \<times> 's"

text \<open>\<open>MemoryVoiceSessionRepository\<close>: its map and the clock \<open>Date.now()\<close> reads.\<close>

record memory =
  m_entries :: "(jstr \<times> (voice_session \<times> int)) list"
  m_now :: int

definition memory_get :: "jstr \<Rightarrow> memory \<Rightarrow> voice_session option option \<times> memory" where
  "memory_get sessionId m =
    (let key = voiceSessionKey sessionId
     in case map_of (m_entries m) key of
          None \<Rightarrow> (Some None, m)
        | Some (session, expiresAt) \<Rightarrow>
            if expiresAt \<le> m_now m then (Some None, m\<lparr>m_entries := AList.delete key (m_entries m)\<rparr>)
            else (Some (Some session), m))"

definition memory_set :: "jstr \<Rightarrow> voice_session \<Rightarrow> int \<Rightarrow> memory \<Rightarrow> bool \<times> memory" where
  "memory_set sessionId session ttlSeconds m =
    (True, m\<lparr>m_entries := AList.update (voiceSessionKey sessionId)
                            (session, m_now m + ttlSeconds * 1000) (m_entries m)\<rparr>)"

definition memory_delete :: "jstr \<Rightarrow> memory \<Rightarrow> bool \<times> memory" where
  "memory_delete sessionId m = (True, m\<lparr>m_entries := AList.delete (voiceSessionKey sessionId) (m_entries m)\<rparr>)"

definition memory_ops :: "memory session_ops" where
  "memory_ops = \<lparr>ss_get = memory_get, ss_set = memory_set, ss_delete = memory_delete\<rparr>"

text \<open>\<open>UpstashVoiceSessionRepository\<close> over the Redis commands it sends.\<close>

definition upstash_ops ::
  "(jstr \<Rightarrow> 's \<Rightarrow> voice_session option option \<times> 's) \<Rightarrow> (jstr \<Rightarrow> voice_session \<Rightarrow> int \<Rightarrow> 's \<Rightarrow> bool \<times> 's) \<Rightarrow>
   (jstr \<Rightarrow> 's \<Rightarrow> bool \<times> 's) \<Rightarrow> 's session_ops" where
  "upstash_ops redis_get redis_set redis_del =
    \<lparr>ss_get = (\<lambda>i. redis_get (voiceSessionKey i)),
     ss_set = (\<lambda>i session ttl. redis_set (voiceSessionKey i) session ttl),
     ss_delete = (\<lambda>i. redis_del (voiceSessionKey i))\<rparr>"

definition later :: "int \<Rightarrow> memory \<Rightarrow> memory" where
  "later d m = m\<lparr>m_now := m_now m + d\<rparr>"

text \<open>
  The contract of a working store: a session is there until its time to live is over, then it
  is gone; deleting removes it; sessions do not affect each other.
\<close>

locale session_store =
  fixes ops :: "'s session_ops" and wait :: "int \<Rightarrow> 's \<Rightarrow> 's"
  assumes set_works: "fst (ss_set ops i v ttl s) = True"
    and get_set: "0 \<le> d \<Longrightarrow> d < ttl * 1000 \<Longrightarrow>
      fst (ss_get ops i (wait d (snd (ss_set ops i v ttl s)))) = Some (Some v)"
    and get_expired: "ttl * 1000 \<le> d \<Longrightarrow> fst (ss_get ops i (wait d (snd (ss_set ops i v ttl s)))) = Some None"
    and get_deleted: "fst (ss_get ops i (snd (ss_delete ops i s))) = Some None"
    and get_other: "i \<noteq> j \<Longrightarrow> fst (ss_get ops j (snd (ss_set ops i v ttl s))) = fst (ss_get ops j s)"
    and get_other_deleted: "i \<noteq> j \<Longrightarrow> fst (ss_get ops j (snd (ss_delete ops i s))) = fst (ss_get ops j s)"

interpretation memory_store: session_store memory_ops later
  by unfold_locales
     (simp_all add: memory_ops_def memory_get_def memory_set_def memory_delete_def later_def js_map Let_def
        split: option.splits prod.splits)

section \<open>The service\<close>

record voice_item =
  vi_name :: jstr
  vi_price :: int
  vi_store :: jstr
  vi_address :: "jstr option"
  vi_distanceMeters :: "int option"
  vi_imageUrl :: "jstr option"

datatype voice_mode = Single | Several

datatype voice_response =
    NeedsClarification jstr jstr "jstr list"
  | VoiceResult voice_mode jstr "voice_item list"

text \<open>What the service is given: the parser, the stores and repositories, and \<open>randomUUID\<close>.\<close>

record 's voice_deps =
  v_nlp :: "nlp_input \<Rightarrow> parsed_query"
  v_sessions :: "'s session_ops"
  v_categories :: "http_error + category list"
  v_filters :: "jstr \<Rightarrow> http_error + filter_schema option"
  v_products :: "product_query \<Rightarrow> http_error + product_card list"
  v_locations :: "store_code \<Rightarrow> http_error + location list"
  v_uuid :: "'s \<Rightarrow> jstr"

definition nlpContext :: "'s voice_deps \<Rightarrow> jstr \<Rightarrow> jstr option \<Rightarrow> http_error + nlp_input" where
  "nlpContext deps text currentCategory =
    and_then (v_categories deps) (\<lambda>categories.
    and_then (traverse (\<lambda>c. v_filters deps (c_slug c)) categories) (\<lambda>schemas.
      Inr \<lparr>n_text = text, n_categories = categories, n_schemas = List.map_filter id schemas,
           n_currentCategory = currentCategory\<rparr>))"

definition metersWord :: "int \<Rightarrow> jstr" where
  "metersWord distance =
    (let lastTwo = distance mod 100; final = distance mod 10
     in if 11 \<le> lastTwo \<and> lastTwo \<le> 14 then ru ''metrov''
        else if final = 1 then ru ''metr''
        else if 2 \<le> final \<and> final \<le> 4 then ru ''metra'' else ru ''metrov'')"

definition nothing_found :: jstr where
  "nothing_found = cap (ru ''podhodAWih tovarov ne naydeno.'')"

definition speech :: "voice_item list \<Rightarrow> voice_mode \<Rightarrow> jstr" where
  "speech items mode =
    (case items of
       [] \<Rightarrow> nothing_found
     | item # _ \<Rightarrow>
         if mode = Single then
           (let nearest = (case (vi_address item, vi_distanceMeters item) of
                (Some address, Some d) \<Rightarrow>
                  if address = [] then []
                  else la '' '' @ cap (ru ''blijayWaA toCka '') @ [8212] @ la '' '' @ address @ ru '', primerno '' @
                       show_int d @ la '' '' @ metersWord d @ la ''.''
              | _ \<Rightarrow> [])
            in cap (ru ''samoe vYgodnoe predlojenie: '') @ vi_name item @ ru '' za '' @ show_int (vi_price item) @
               ru '' tenge v '' @ vi_store item @ la ''.'' @ nearest)
         else
           (let introduction = (if length items = 1 then cap (ru ''naSOl odin variant.'')
                else cap (ru ''naSOl '') @ show_int (int (length items)) @ ru '' varianta.'');
                line = (\<lambda>(ordinal, it). ordinal @ la '' '' @ [8212] @ la '' '' @ vi_name it @ ru '' za '' @
                          show_int (vi_price it) @ ru '' tenge v '' @ vi_store it @ la ''.'')
            in introduction @ la '' '' @
               join (la '' '') (map line (zip [cap (ru ''pervYy''), cap (ru ''vtoroy''), cap (ru ''tretiy'')] items))))"

definition round_meters :: "real \<Rightarrow> int" where
  "round_meters d = \<lfloor>d + 1 / 2\<rfloor>"

text \<open>The item of one product: its first (cheapest) offer and the store's nearest branch.\<close>

definition voiceItem ::
  "(store_code \<Rightarrow> http_error + location list) \<Rightarrow> voice_session \<Rightarrow> product_card \<Rightarrow> http_error + voice_item list" where
  "voiceItem findLocations session p =
    (case p_offers p of
       [] \<Rightarrow> Inr []
     | offer # _ \<Rightarrow>
         and_then (findLocations (o_store offer)) (\<lambda>locations.
           let nearest = nearestStore (u_latitude session) (u_longitude session) locations
           in Inr [\<lparr>vi_name = p_name p, vi_price = o_price offer, vi_store = o_storeName offer,
                    vi_address = map_option (\<lambda>n. l_address (fst n)) nearest,
                    vi_distanceMeters = map_option (\<lambda>n. round_meters (snd n)) nearest,
                    vi_imageUrl = p_imageUrl p\<rparr>]))"

definition voice_query :: "voice_session \<Rightarrow> product_query" where
  "voice_query session =
    \<lparr>q_category = u_category session, q_search = None, q_sort = Some PriceAsc, q_limit = None, q_offset = None,
     q_filters = List.map_filter (\<lambda>(k, v). map_option (\<lambda>x. (k, [x])) v) (u_filters session)\<rparr>"

definition voiceResult :: "'s voice_deps \<Rightarrow> voice_session \<Rightarrow> http_error + voice_response" where
  "voiceResult deps session =
    (if u_intent session = None \<or> \<not> truthy_str (u_category session)
     then Inl (ServiceUnavailable (la ''Voice query incomplete''))
     else
       and_then (v_products deps (voice_query session)) (\<lambda>found.
         let products = js_sort (\<lambda>a b. p_minPrice a \<le> p_minPrice b)
                          (filter (\<lambda>p. p_offers p \<noteq> []) (map normalizeProduct found));
             limit = (if u_intent session = Some Cheapest then 1 else 3);
             mode = (if u_intent session = Some Cheapest then Single else Several)
         in and_then (traverse (voiceItem (v_locations deps) session) (take limit products)) (\<lambda>iss.
              let items = concat iss in Inr (VoiceResult mode (speech items mode) items))))"

definition advance ::
  "'s voice_deps \<Rightarrow> voice_session \<Rightarrow> jstr option \<Rightarrow> 's \<Rightarrow> (http_error + voice_response) \<times> 's" where
  "advance deps session sessionId s =
    (let missing = missingVoiceFields session
     in if missing \<noteq> [] then
          (let i = nullish sessionId (v_uuid deps s);
               (ok, s') = ss_set (v_sessions deps) i session VOICE_SESSION_TTL_SECONDS s
           in if ok then (Inr (NeedsClarification i (clarificationQuestion missing) missing), s')
              else (Inl (ServiceUnavailable (la ''Voice session unavailable'')), s'))
        else
          (case voiceResult deps session of
             Inl e \<Rightarrow> (Inl e, s)
           | Inr result \<Rightarrow>
               if truthy_str sessionId then (Inr result, snd (ss_delete (v_sessions deps) (the sessionId) s))
               else (Inr result, s)))"

definition voiceStart :: "'s voice_deps \<Rightarrow> jstr \<Rightarrow> real \<Rightarrow> real \<Rightarrow> 's \<Rightarrow> (http_error + voice_response) \<times> 's" where
  "voiceStart deps text latitude longitude s =
    (case nlpContext deps text None of
       Inl e \<Rightarrow> (Inl e, s)
     | Inr context \<Rightarrow> advance deps (session_of (v_nlp deps context) latitude longitude) None s)"

definition voiceContinue :: "'s voice_deps \<Rightarrow> jstr \<Rightarrow> jstr \<Rightarrow> 's \<Rightarrow> (http_error + voice_response) \<times> 's" where
  "voiceContinue deps sessionId text s =
    (case ss_get (v_sessions deps) sessionId s of
       (None, s1) \<Rightarrow> (Inl (ServiceUnavailable (la ''Voice session unavailable'')), s1)
     | (Some None, s1) \<Rightarrow> (Inl (NotFound (la ''Voice session not found or expired'')), s1)
     | (Some (Some previous), s1) \<Rightarrow>
         (case nlpContext deps text (u_category previous) of
            Inl e \<Rightarrow> (Inl e, s1)
          | Inr context \<Rightarrow>
              advance deps (mergeVoiceSession previous (v_nlp deps context) (n_schemas context)) (Some sessionId) s1))"

subsection \<open>What a turn of the conversation does\<close>

text \<open>A question is asked exactly when something is missing, and the session is then stored.\<close>

lemma advance_asks:
  assumes "advance deps session sid s = (Inr (NeedsClarification i q asked_for), s')"
  shows "asked_for = missingVoiceFields session" and "asked_for \<noteq> []" and "q = clarificationQuestion asked_for"
    and "i = nullish sid (v_uuid deps s)"
    and "ss_set (v_sessions deps) i session VOICE_SESSION_TTL_SECONDS s = (True, s')"
proof -
  have ne: "missingVoiceFields session \<noteq> []"
  proof
    assume "missingVoiceFields session = []"
    with assms obtain r where "voiceResult deps session = Inr r" "r = NeedsClarification i q asked_for"
      by (auto simp: advance_def Let_def split: sum.splits if_splits)
    then show False by (auto simp: voiceResult_def Let_def result_simps split: if_splits)
  qed
  with assms show "asked_for = missingVoiceFields session" and "asked_for \<noteq> []" and "q = clarificationQuestion asked_for"
    and "i = nullish sid (v_uuid deps s)"
    and "ss_set (v_sessions deps) i session VOICE_SESSION_TTL_SECONDS s = (True, s')"
    by (auto simp: advance_def Let_def split: prod.splits if_splits)
qed

lemma advance_answers:
  assumes "advance deps session sid s = (Inr (VoiceResult mode sp items), s')"
  shows "missingVoiceFields session = []" and "voiceResult deps session = Inr (VoiceResult mode sp items)"
  using assms by (auto simp: advance_def Let_def split: sum.splits if_splits prod.splits)

lemma voiceItem_length: "voiceItem f session p = Inr is \<Longrightarrow> length is \<le> 1"
  by (auto simp: voiceItem_def result_simps Let_def split: list.splits)

lemma voiceItem_price:
  "voiceItem f session p = Inr is \<Longrightarrow> i \<in> set is \<Longrightarrow>
    vi_price i = o_price (hd (p_offers p)) \<and> vi_name i = p_name p \<and> p_offers p \<noteq> []"
  by (auto simp: voiceItem_def result_simps Let_def split: list.splits)

lemma traverse_items:
  assumes "traverse (voiceItem f session) ps = Inr iss"
  shows "length (concat iss) \<le> length ps"
    and "i \<in> set (concat iss) \<Longrightarrow> \<exists>p \<in> set ps. p_offers p \<noteq> [] \<and> vi_price i = o_price (hd (p_offers p)) \<and> vi_name i = p_name p"
proof -
  have *: "list_all2 (\<lambda>p is. voiceItem f session p = Inr is) ps iss"
    using assms by (simp add: traverse_Inr)
  then show "length (concat iss) \<le> length ps"
    by (induction rule: list_all2_induct) (auto dest: voiceItem_length)
  show "\<exists>p \<in> set ps. p_offers p \<noteq> [] \<and> vi_price i = o_price (hd (p_offers p)) \<and> vi_name i = p_name p"
    if "i \<in> set (concat iss)"
    using * that by (induction rule: list_all2_induct) (auto dest: voiceItem_price)
qed

lemma voiceResult_Inr:
  assumes "voiceResult deps session = Inr r"
  obtains mode items found iss where "r = VoiceResult mode (speech items mode) items"
    and "u_intent session \<noteq> None" and "v_products deps (voice_query session) = Inr found"
    and "mode = (if u_intent session = Some Cheapest then Single else Several)"
    and "traverse (voiceItem (v_locations deps) session)
           (take (if u_intent session = Some Cheapest then 1 else 3)
             (js_sort (\<lambda>a b. p_minPrice a \<le> p_minPrice b)
                (filter (\<lambda>p. p_offers p \<noteq> []) (map normalizeProduct found)))) = Inr iss"
    and "items = concat iss"
  using assms unfolding voiceResult_def Let_def
  by (auto simp: and_then_Inr split: if_splits)

lemma voiceResult_limit:
  assumes "voiceResult deps session = Inr (VoiceResult mode sp items)"
  shows "length items \<le> (if mode = Single then 1 else 3)"
    and "mode = Single \<longleftrightarrow> u_intent session = Some Cheapest" and "sp = speech items mode"
proof -
  obtain found iss where mode: "mode = (if u_intent session = Some Cheapest then Single else Several)"
    and iss: "traverse (voiceItem (v_locations deps) session)
           (take (if u_intent session = Some Cheapest then 1 else 3)
             (js_sort (\<lambda>a b. p_minPrice a \<le> p_minPrice b)
                (filter (\<lambda>p. p_offers p \<noteq> []) (map normalizeProduct found)))) = Inr iss"
    and items: "items = concat iss" and sp: "sp = speech items mode"
    using assms by (rule voiceResult_Inr) (metis voice_response.inject(2))
  show "mode = Single \<longleftrightarrow> u_intent session = Some Cheapest" "sp = speech items mode"
    using mode sp by auto
  show "length items \<le> (if mode = Single then 1 else 3)"
    using traverse_items(1) [OF iss] mode items by (auto split: if_splits)
qed

interpretation min_price_order: ranked "\<lambda>a b. p_minPrice a \<le> p_minPrice b"
  by (rule ranked_key)

text \<open>The single answer to \<open>cheapest\<close> costs no more than any offer of any product found.\<close>

lemma voiceResult_cheapest:
  assumes "voiceResult deps session = Inr (VoiceResult mode sp items)"
    and "u_intent session = Some Cheapest"
    and "v_products deps (voice_query session) = Inr found"
    and "item \<in> set items" and "p \<in> set found" and "x \<in> set (p_offers p)"
  shows "vi_price item \<le> o_price x"
proof -
  let ?ps = "filter (\<lambda>p. p_offers p \<noteq> []) (map normalizeProduct found)"
  let ?sorted = "js_sort (\<lambda>a b. p_minPrice a \<le> p_minPrice b) ?ps"
  obtain iss where iss: "traverse (voiceItem (v_locations deps) session) (take 1 ?sorted) = Inr iss"
    and items: "items = concat iss"
    using assms(1) by (rule voiceResult_Inr) (use assms(2,3) in auto)
  obtain q where q: "q \<in> set (take 1 ?sorted)" "vi_price item = o_price (hd (p_offers q))"
    using traverse_items(2) [OF iss] assms(4) items by blast
  then have hd: "q = hd ?sorted" by (cases ?sorted) auto
  have p: "normalizeProduct p \<in> set ?ps" using assms(5,6) by auto
  then have "?sorted \<noteq> []" by (metis js_sort_Nil_iff list.distinct(1) list.set_cases)
  then have "q \<in> set ?ps" using hd min_price_order.hd_js_sort_in [of ?ps] by (metis js_sort_Nil_iff)
  then obtain r where r: "q = normalizeProduct r" "p_offers r \<noteq> []" by auto
  have "vi_price item = p_minPrice q"
    using q(2) r by (cases "js_sort (\<lambda>a b. o_price a \<le> o_price b) (p_offers r)")
      (simp_all add: normalizeProduct_def Let_def)
  also have "\<dots> \<le> p_minPrice (normalizeProduct p)"
    using min_price_order.hd_js_sort_least [OF p] hd by simp
  also have "\<dots> \<le> o_price x"
    using assms(6) by (intro normalizeProduct_min(2)) auto
  finally show ?thesis .
qed

context session_store
begin

text \<open>A question can be answered until the session expires, and not after.\<close>

lemma continue_in_time:
  assumes ops: "v_sessions deps = ops"
    and asked: "advance deps session sid s = (Inr (NeedsClarification i q asked_for), s')"
    and d: "0 \<le> d" "d < VOICE_SESSION_TTL_SECONDS * 1000"
    and ctx: "nlpContext deps text (u_category session) = Inr context"
  shows "\<exists>s1. voiceContinue deps i text (wait d s') =
    advance deps (mergeVoiceSession session (v_nlp deps context) (n_schemas context)) (Some i) s1"
proof -
  have "s' = snd (ss_set ops i session VOICE_SESSION_TTL_SECONDS s)"
    using advance_asks(5) [OF asked] ops by simp
  then have "fst (ss_get ops i (wait d s')) = Some (Some session)"
    using get_set [OF d] by simp
  then obtain s1 where "ss_get ops i (wait d s') = (Some (Some session), s1)"
    by (metis prod.collapse)
  then show ?thesis using ops ctx by (auto simp: voiceContinue_def)
qed

lemma continue_too_late:
  assumes ops: "v_sessions deps = ops"
    and asked: "advance deps session sid s = (Inr (NeedsClarification i q asked_for), s')"
    and d: "VOICE_SESSION_TTL_SECONDS * 1000 \<le> d"
  shows "fst (voiceContinue deps i text (wait d s')) = Inl (NotFound (la ''Voice session not found or expired''))"
proof -
  have "s' = snd (ss_set ops i session VOICE_SESSION_TTL_SECONDS s)"
    using advance_asks(5) [OF asked] ops by simp
  then have "fst (ss_get ops i (wait d s')) = Some None"
    using get_expired [OF d] by simp
  then obtain s1 where "ss_get ops i (wait d s') = (Some None, s1)"
    by (metis prod.collapse)
  then show ?thesis using ops by (auto simp: voiceContinue_def)
qed

text \<open>An answered conversation is over.\<close>

lemma answered_is_gone:
  assumes ops: "v_sessions deps = ops"
    and answered: "advance deps session (Some i) s = (Inr (VoiceResult mode sp items), s')" and "i \<noteq> []"
  shows "fst (voiceContinue deps i text s') = Inl (NotFound (la ''Voice session not found or expired''))"
proof -
  have "s' = snd (ss_delete ops i s)"
    using answered advance_answers [OF answered] ops assms(3) by (simp add: advance_def truthy_str_def)
  then have "fst (ss_get ops i s') = Some None" using get_deleted by simp
  then obtain s1 where "ss_get ops i s' = (Some None, s1)"
    by (metis prod.collapse)
  then show ?thesis using ops by (auto simp: voiceContinue_def)
qed

end

end
