(* ===== verification/VoiceProperties.thy ===== *)
theory VoiceProperties
  imports Voice Fixtures
begin

text \<open>
  The properties of the voice assistant. The witnesses run the service on the fixture
  repositories with the in-memory session store.
\<close>

section \<open>A running service\<close>

definition fixture_deps :: "(nlp_input \<Rightarrow> parsed_query) \<Rightarrow> memory voice_deps" where
  "fixture_deps nlp =
    \<lparr>v_nlp = nlp, v_sessions = memory_ops, v_categories = fixtureFindAll, v_filters = fixtureFindFilters,
     v_products = fixtureFindProducts str_le, v_locations = (\<lambda>code. Inr []),
     v_uuid = (\<lambda>m. la ''id-1'')\<rparr>"

definition empty_memory :: memory where
  "empty_memory = \<lparr>m_entries = [], m_now = 1000\<rparr>"

definition milk_only :: voice_session where
  "milk_only = \<lparr>u_intent = Some Cheapest, u_category = Some (la ''milk''), u_filters = [], u_latitude = 43, u_longitude = 51\<rparr>"

definition milk_asked :: "(http_error + voice_response) \<times> memory" where
  "milk_asked = advance (fixture_deps fallbackParse) milk_only None empty_memory"

definition milk_full :: voice_session where
  "milk_full = milk_only\<lparr>u_filters := [(la ''volumeMl'', Some (num 1000)), (la ''fatPercent'', Some (num (16 / 5)))]\<rparr>"

definition milk_context :: nlp_input where
  "milk_context = \<lparr>n_text = ru ''1 litr 3,2%'', n_categories = fixture_categories, n_schemas = [milkFilters],
                   n_currentCategory = Some (la ''milk'')\<rparr>"

lemma milk_context_eq:
  "nlpContext (fixture_deps fallbackParse) (ru ''1 litr 3,2%'') (u_category milk_only) = Inr milk_context"
  by (simp add: nlpContext_def fixture_deps_def milk_only_def milk_context_def fixture_categories_def
      fixtureFindAll_def fixtureFindFilters_def List.map_filter_simps)

lemma milk_asked_question:
  "advance (fixture_deps fallbackParse) milk_only None empty_memory =
     (Inr (NeedsClarification (la ''id-1'') (clarificationQuestion [la ''volumeMl'', la ''fatPercent''])
        [la ''volumeMl'', la ''fatPercent'']), snd milk_asked)"
proof -
  have m: "missingVoiceFields milk_only = [la ''volumeMl'', la ''fatPercent'']"
    by (simp add: missingVoiceFields_def milk_only_def no_value_def truthy_str_def la_def)
  show ?thesis
    by (simp add: milk_asked_def advance_def m Let_def fixture_deps_def memory_ops_def memory_set_def)
qed

section \<open>Properties\<close>

text \<open>C33: Whatever the language model answers, the parsed query is valid: its category is one of the
  catalogue and each filter belongs to the schema of the category in question with an allowed
  value.\<close>

theorem parsed_voice_query_valid:
  "query_valid input (nlpServiceParse configured gemini input)"
  by (rule nlpServiceParse_valid)

text \<open>Validating an answer of the language model loses nothing: an answer that is a valid query is
  accepted and read as that query.\<close>

theorem valid_answer_round_trip:
  assumes "query_valid input y"
  shows "validateNlpResult (query_json y) input = Some y \<and>
    nlpServiceParse True (\<lambda>i. Some (query_json y)) input = y"
  using validateNlpResult_json [OF assms] by (simp add: nlpServiceParse_def)

theorem valid_answer_round_trip_witness:
  "nlpServiceParse True (\<lambda>i. Some (query_json (fallbackParse milk_context))) milk_context =
     \<lparr>y_intent = None, y_category = None,
      y_filters = [(la ''volumeMl'', Some (num 1000)), (la ''fatPercent'', Some (num (16 / 5)))]\<rparr>"
proof -
  have p: "fallbackParse milk_context = \<lparr>y_intent = None, y_category = None,
      y_filters = [(la ''volumeMl'', Some (num 1000)), (la ''fatPercent'', Some (num (16 / 5)))]\<rparr>"
    by code_simp
  have "validateNlpResult (query_json (fallbackParse milk_context)) milk_context = Some (fallbackParse milk_context)"
    by code_simp
  then have "query_valid milk_context (fallbackParse milk_context)"
    by (rule validateNlpResult_valid)
  from valid_answer_round_trip [OF this] show ?thesis by (simp add: p)
qed

text \<open>The failover sends the request with each configured key at most once and in order, stops at
  the first key that gives a usable answer, and fails only after trying every key.\<close>

theorem failover_uses_first_working_key:
  assumes "\<And>t. \<not> aborted t"
  shows "requestGeminiWithFailover aborted request parse_json keys =
    (case List.find (\<lambda>k. readReply parse_json (request k) \<noteq> None) (distinct_keys keys) of
       None \<Rightarrow> (distinct_keys keys, None)
     | Some k \<Rightarrow> (takeWhile (\<lambda>k. readReply parse_json (request k) = None) (distinct_keys keys) @ [k],
                 readReply parse_json (request k)))"
  unfolding requestGeminiWithFailover_def using assms by (rule failover_first)

theorem failover_uses_first_working_key_witness:
  "fst (requestGeminiWithFailover (\<lambda>t. False) (\<lambda>k. None) (\<lambda>s. Some JNull) [la '' a'', la ''b'', la ''a '']) = [la ''a'', la ''b'']"
proof -
  have "distinct_keys [la '' a'', la ''b'', la ''a ''] = [la ''a'', la ''b'']" by code_simp
  then show ?thesis
    using failover_uses_first_working_key [of "\<lambda>t. False" "\<lambda>k. None" "\<lambda>s. Some JNull" "[la '' a'', la ''b'', la ''a '']"]
    by (simp add: readReply_def)
qed

text \<open>Even when the deadline passes midway, the keys tried are an initial part of the distinct
  configured keys, none is tried twice, and an answer is the one of the last key tried.\<close>

theorem failover_tries_each_key_once:
  assumes "requestGeminiWithFailover aborted request parse_json keys = (tried, result)"
  shows "distinct tried \<and> (\<exists>rest. tried @ rest = distinct_keys keys) \<and>
    (\<forall>r. result = Some r \<longrightarrow> tried \<noteq> [] \<and> readReply parse_json (request (last tried)) = Some r)"
proof -
  have run: "failover aborted request parse_json 0 (distinct_keys keys) = (tried, result)"
    using assms by (simp add: requestGeminiWithFailover_def)
  obtain rest where rest: "tried @ rest = distinct_keys keys"
    using failover_tried [of aborted request parse_json 0 "distinct_keys keys"] run by auto
  then have "distinct tried"
    by (metis distinct_append distinct_distinct_keys)
  moreover have "tried \<noteq> [] \<and> readReply parse_json (request (last tried)) = Some r" if "result = Some r" for r
    using failover_result [of aborted request parse_json 0 "distinct_keys keys" tried r] run that by auto
  ultimately show ?thesis using rest by blast
qed

theorem failover_tries_each_key_once_witness:
  "distinct [la ''a''] \<and> (\<exists>rest. [la ''a''] @ rest = distinct_keys [la ''a'', la ''b''])"
proof -
  have "requestGeminiWithFailover (\<lambda>t. t = 1) (\<lambda>k. None) (\<lambda>s. Some JNull) [la ''a'', la ''b''] = ([la ''a''], None)"
    by code_simp
  from failover_tries_each_key_once [OF this] show ?thesis by simp
qed

text \<open>Merging an utterance into a conversation: every filter kept belongs to the schema of the
  (possibly new) category, a value just given wins, an earlier one survives as long as the
  category does, the intent first understood stays, and so does the place.\<close>

theorem merge_keeps_and_overrides:
  assumes "distinct (js_keys (y_filters y))" and "distinct (js_keys (u_filters previous))"
  shows "let merged = mergeVoiceSession previous y schemas; allowed = allowed_keys schemas (u_category merged)
    in list_all (\<lambda>k. k \<in> set allowed) (js_keys (u_filters merged)) \<and>
       list_all (\<lambda>k. map_of (u_filters merged) k =
         (case map_of (y_filters y) k of
            Some (Some v) \<Rightarrow> Some (Some v)
          | _ \<Rightarrow> if u_category merged = u_category previous then map_of (u_filters previous) k else None)) allowed \<and>
       u_intent merged = nullish_or (u_intent previous) (y_intent y) \<and>
       u_latitude merged = u_latitude previous \<and> u_longitude merged = u_longitude previous"
  unfolding Let_def list_all_iff
  by (intro conjI ballI merge_lookup [OF assms] merge_fields) (rule merge_allowed)

theorem merge_keeps_and_overrides_witness:
  "let merged = mergeVoiceSession milk_only (fallbackParse milk_context) [milkFilters]
   in list_all (\<lambda>k. k \<in> set (allowed_keys [milkFilters] (u_category merged))) (js_keys (u_filters merged)) \<and>
      u_intent merged = Some Cheapest"
proof -
  have "distinct (js_keys (y_filters (fallbackParse milk_context)))" by code_simp
  from merge_keeps_and_overrides [OF this, of milk_only "[milkFilters]"]
  show ?thesis by (simp add: milk_only_def Let_def nullish_or_def)
qed

text \<open>Answering within the same category never undoes progress: the fields still missing after an
  utterance were missing before it.\<close>

theorem conversation_progresses:
  assumes "distinct (js_keys (y_filters y))" and "distinct (js_keys (u_filters previous))"
    and "u_category (mergeVoiceSession previous y schemas) = u_category previous"
    and "list_all (\<lambda>k. k \<in> set (allowed_keys schemas (Some (la ''milk'')))) [la ''volumeMl'', la ''fatPercent'']"
  shows "set (missingVoiceFields (mergeVoiceSession previous y schemas)) \<subseteq> set (missingVoiceFields previous)"
  using assms by (intro merge_progress) auto

theorem conversation_progresses_witness:
  "set (missingVoiceFields (mergeVoiceSession milk_only (fallbackParse milk_context) [milkFilters])) \<subseteq>
     {la ''volumeMl'', la ''fatPercent''}"
proof -
  have "distinct (js_keys (y_filters (fallbackParse milk_context)))" by code_simp
  moreover have "distinct (js_keys (u_filters milk_only))" by (simp add: milk_only_def)
  moreover have "u_category (mergeVoiceSession milk_only (fallbackParse milk_context) [milkFilters]) = u_category milk_only"
    by code_simp
  moreover have "list_all (\<lambda>k. k \<in> set (allowed_keys [milkFilters] (Some (la ''milk'')))) [la ''volumeMl'', la ''fatPercent'']"
    by code_simp
  ultimately have "set (missingVoiceFields (mergeVoiceSession milk_only (fallbackParse milk_context) [milkFilters])) \<subseteq>
      set (missingVoiceFields milk_only)"
    by (rule conversation_progresses)
  moreover have "missingVoiceFields milk_only = [la ''volumeMl'', la ''fatPercent'']"
    by (simp add: missingVoiceFields_def milk_only_def no_value_def truthy_str_def la_def)
  ultimately show ?thesis by simp
qed

text \<open>The service asks exactly when something is missing, and asks for what is missing; a question
  stores the session under the identifier it returns.\<close>

theorem asks_for_what_is_missing:
  assumes "advance deps session sid s = (Inr (NeedsClarification i q missing), s')"
  shows "\<not> session_complete session \<and> missing = missingVoiceFields session \<and> q = clarificationQuestion missing \<and>
    ss_set (v_sessions deps) i session VOICE_SESSION_TTL_SECONDS s = (True, s')"
  using advance_asks [OF assms] by (metis missing_Nil_iff)

theorem asks_for_what_is_missing_witness: "\<not> session_complete milk_only"
  using asks_for_what_is_missing [OF milk_asked_question] by simp

text \<open>C4: With the in-memory store, a question can be answered for ten minutes: a reply within that time
  continues from the stored session, a later one is told that the session expired, and so is a
  reply to a conversation that has been answered.\<close>

theorem question_answerable_until_expiry:
  assumes "v_sessions deps = memory_ops"
    and "advance deps session sid m = (Inr (NeedsClarification i q missing), m')"
    and "nlpContext deps text (u_category session) = Inr context"
    and "0 \<le> d"
  shows "if d < VOICE_SESSION_TTL_SECONDS * 1000
    then \<exists>m1. voiceContinue deps i text (later d m') =
           advance deps (mergeVoiceSession session (v_nlp deps context) (n_schemas context)) (Some i) m1
    else fst (voiceContinue deps i text (later d m')) = Inl (NotFound (la ''Voice session not found or expired''))"
  using memory_store.continue_in_time [OF assms(1,2,4) _ assms(3)] memory_store.continue_too_late [OF assms(1,2), of d]
  by simp

theorem question_answerable_until_expiry_witness:
  "fst (voiceContinue (fixture_deps fallbackParse) (la ''id-1'') (ru ''1 litr 3,2%'') (later 600000 (snd milk_asked))) =
     Inl (NotFound (la ''Voice session not found or expired''))"
  using question_answerable_until_expiry [OF _ milk_asked_question milk_context_eq, of 600000]
  by (simp add: fixture_deps_def VOICE_SESSION_TTL_SECONDS_def)

text \<open>A conversation that has been answered is over: its identifier is not accepted again.\<close>

theorem answered_conversation_is_over:
  assumes "v_sessions deps = memory_ops" and "i \<noteq> []"
    and "advance deps session (Some i) m = (Inr (VoiceResult mode text items), m')"
  shows "fst (voiceContinue deps i reply m') = Inl (NotFound (la ''Voice session not found or expired''))"
  using memory_store.answered_is_gone [OF assms(1,3,2)] .

text \<open>C27: Asked for the cheapest, the service answers one item at most, and its price is no more than
  that of any offer of any product found; otherwise it answers three items at most.\<close>

theorem cheapest_is_cheapest:
  assumes "voiceResult deps session = Inr (VoiceResult mode text items)"
    and "v_products deps (voice_query session) = Inr found"
  shows "length items \<le> (if u_intent session = Some Cheapest then 1 else 3) \<and>
    (u_intent session = Some Cheapest \<longrightarrow>
       list_all (\<lambda>item. list_all (\<lambda>p. list_all (\<lambda>x. vi_price item \<le> o_price x) (p_offers p)) found) items)"
  using voiceResult_limit [OF assms(1)] voiceResult_cheapest [OF assms(1) _ assms(2)]
  by (auto simp: list_all_iff)

text \<open>The identity of a session in the store is injective, and sessions do not interfere: writing
  or deleting one leaves every other as it was.\<close>

theorem sessions_do_not_interfere:
  assumes "i \<noteq> j"
  shows "fst (memory_get j (snd (memory_set i session ttl m))) = fst (memory_get j m) \<and>
    fst (memory_get j (snd (memory_delete i m))) = fst (memory_get j m)"
  using memory_store.get_other [OF assms, of session ttl m] memory_store.get_other_deleted [OF assms, of m]
  by (simp add: memory_ops_def)

theorem sessions_do_not_interfere_witness:
  "fst (memory_get (la ''b'') (snd (memory_set (la ''a'') milk_only 600 empty_memory))) = Some None"
  using sessions_do_not_interfere [of "la ''a''" "la ''b''" milk_only 600 empty_memory]
  by (simp add: la_def memory_get_def empty_memory_def)

section \<open>A whole answer\<close>

definition milk_answer :: "(http_error + voice_response) \<times> memory" where
  "milk_answer = advance (fixture_deps fallbackParse) milk_full (Some (la ''id-1'')) empty_memory"

definition milk_items :: "voice_item list" where
  "milk_items = [\<lparr>vi_name = p_name (hd fixture_products), vi_price = 570, vi_store = la ''Dina'',
                   vi_address = None, vi_distanceMeters = None, vi_imageUrl = None\<rparr>]"

definition milk_speech :: jstr where
  "milk_speech = speech milk_items Single"

lemma milk_found:
  "v_products (fixture_deps fallbackParse) (voice_query milk_full) = Inr [normalizeProduct (hd fixture_products)]"
  by code_simp

lemma milk_result: "voiceResult (fixture_deps fallbackParse) milk_full = Inr (VoiceResult Single milk_speech milk_items)"
proof -
  let ?p = "normalizeProduct (hd fixture_products)"
  have offers: "p_offers ?p =
    [\<lparr>o_store = DINA, o_storeName = la ''Dina'', o_price = 570, o_oldPrice = None\<rparr>,
     \<lparr>o_store = DANA, o_storeName = la ''Dana'', o_price = 620, o_oldPrice = Some 650\<rparr>]"
    and image: "p_imageUrl (hd fixture_products) = None"
    by (simp_all add: fixture_products_def)
  have item: "voiceItem (v_locations (fixture_deps fallbackParse)) milk_full ?p = Inr milk_items"
    unfolding voiceItem_def offers by (simp add: image fixture_deps_def milk_items_def nearestStore_def del: normalizeProduct_fields(7))
  have session: "u_intent milk_full = Some Cheapest" "truthy_str (u_category milk_full)"
    by (simp_all add: milk_full_def milk_only_def truthy_str_def la_def)
  show ?thesis
    unfolding voiceResult_def milk_found
    by (simp add: session item normalizeProduct_idem milk_speech_def offers del: normalizeProduct_fields(7))
qed

theorem answered_conversation_is_over_witness:
  "fst (voiceContinue (fixture_deps fallbackParse) (la ''id-1'') (la ''x'') (snd milk_answer)) =
     Inl (NotFound (la ''Voice session not found or expired''))"
proof -
  have "missingVoiceFields milk_full = []"
    by (simp add: missingVoiceFields_def milk_full_def milk_only_def no_value_def truthy_str_def la_def)
  then have "advance (fixture_deps fallbackParse) milk_full (Some (la ''id-1'')) empty_memory =
      (Inr (VoiceResult Single milk_speech milk_items), snd milk_answer)"
    by (simp add: milk_answer_def advance_def milk_result truthy_str_def la_def)
  then show ?thesis
    by (intro answered_conversation_is_over [where session = milk_full and m = empty_memory and mode = Single])
       (auto simp: fixture_deps_def la_def)
qed

theorem cheapest_is_cheapest_witness:
  "length milk_items \<le> 1 \<and>
   list_all (\<lambda>item. list_all (\<lambda>p. list_all (\<lambda>x. vi_price item \<le> o_price x) (p_offers p)) [normalizeProduct (hd fixture_products)]) milk_items"
  using cheapest_is_cheapest [OF milk_result milk_found] by (simp add: milk_full_def milk_only_def)

end
