(* ===== verification/JsNumber.thy ===== *)
theory JsNumber
  imports JsValue JsRegex
begin

text \<open>
  Numbers read from text and from JSON values, and the clean-ups of text the components share:
  \<open>Number(v)\<close>, JavaScript truthiness, decimal captures of a pattern, \<open>s.replace(/\s+/g, ' ')\<close>.
\<close>

section \<open>\<open>Number(s)\<close>\<close>

text \<open>
  ECMAScript's StringToNumber: white space around is ignored, the empty string is 0, \<open>0x\<close>,
  \<open>0o\<close> and \<open>0b\<close> introduce a radix, and a decimal has an optional sign, fraction and exponent.
  A finite value is exact.
\<close>

definition digit_of :: "int \<Rightarrow> int" where
  "digit_of c = (if digit_ch c then c - 48 else lower_ch c - 87)"

definition radix_val :: "int \<Rightarrow> jstr \<Rightarrow> int" where
  "radix_val r s = foldl (\<lambda>a c. r * a + digit_of c) 0 s"

definition radix_number :: "jstr \<Rightarrow> int option" where
  "radix_number s =
    (case s of
       z # x # ds \<Rightarrow>
         let r = (if lower_ch x = 120 then 16 else if lower_ch x = 111 then 8 else if lower_ch x = 98 then 2 else 0)
         in if z = 48 \<and> ds \<noteq> [] \<and> list_all (\<lambda>c. (digit_ch c \<or> 97 \<le> lower_ch c \<and> lower_ch c \<le> 102) \<and> digit_of c < r) ds
            then Some (radix_val r ds) else None
     | _ \<Rightarrow> None)"

text \<open>Sign, digits, fraction and exponent of a decimal literal.\<close>

definition rx_number :: rx where
  "rx_number = sq [Bol, Grp 1 (opt (Ch (Cls False [(43, 43), (45, 45)]))), Grp 2 (many (Ch c_digit)),
     opt (Sq (chr 46) (Grp 3 (many (Ch c_digit)))),
     opt (sq [Ch (Cls False [(69, 69), (101, 101)]), Grp 4 (opt (Ch (Cls False [(43, 43), (45, 45)]))), Grp 5 (many1 (Ch c_digit))]),
     Eol]"

definition scale_ten :: "jstr \<Rightarrow> nat \<Rightarrow> rat \<Rightarrow> rat" where
  "scale_ten sign e q = (if sign = [45] then q / 10 ^ e else q * 10 ^ e)"

definition decimal_number :: "jstr \<Rightarrow> jnum" where
  "decimal_number s =
    (case rx_exec rx_number s of
       None \<Rightarrow> NaN
     | Some g \<Rightarrow>
         let part = (\<lambda>n. nullish (map_of g n) []);
             m = of_int (digits_val (part 2)) + of_int (digits_val (part 3)) / 10 ^ length (part 3)
         in if part 2 = [] \<and> part 3 = [] then NaN
            else Fin ((if part 1 = [45] then -1 else 1) * scale_ten (part 4) (nat (digits_val (part 5))) m))"

definition js_number :: "jstr \<Rightarrow> jnum" where
  "js_number s =
    (let t = trim s
     in if t = [] then Fin 0
        else if t = la ''Infinity'' \<or> t = la ''+Infinity'' then PosInf
        else if t = la ''-Infinity'' then NegInf
        else case radix_number t of Some i \<Rightarrow> Fin (of_int i) | None \<Rightarrow> decimal_number t)"

text \<open>\<open>Number(v)\<close> of a JSON value; of an array or object the source never takes the number.\<close>

fun to_number :: "jval \<Rightarrow> jnum" where
  "to_number (JNum n) = n"
| "to_number JNull = Fin 0"
| "to_number (JBool b) = Fin (if b then 1 else 0)"
| "to_number (JStr s) = js_number s"
| "to_number _ = NaN"

fun truthy :: "jval \<Rightarrow> bool" where
  "truthy JUndef = False"
| "truthy JNull = False"
| "truthy (JBool b) = b"
| "truthy (JNum n) = (n \<noteq> Fin 0 \<and> n \<noteq> NaN)"
| "truthy (JStr s) = (s \<noteq> [])"
| "truthy _ = True"

section \<open>Clean-ups\<close>

definition collapse_spaces :: "jstr \<Rightarrow> jstr" where
  "collapse_spaces s = rx_replace (many1 (Ch c_space)) (\<lambda>_. [32]) s"

section \<open>Decimal captures\<close>

text \<open>The capture of a pattern whose first group is digits, or digits with a fraction.\<close>

definition decimal_ch :: "int \<Rightarrow> bool" where
  "decimal_ch c \<longleftrightarrow> digit_ch c \<or> c = 46"

lemma split_ch_subset: "p \<in> set (split_ch d s) \<Longrightarrow> set p \<subseteq> set s"
proof (induction s arbitrary: p)
  case (Cons c s)
  show ?case
  proof (cases "split_ch d s")
    case (Cons w ws)
    with Cons.prems Cons.IH have "p = [] \<or> p = c # w \<or> p \<in> set (split_ch d s)" by (auto split: if_splits)
    then show ?thesis using Cons.IH Cons by fastforce
  qed (use Cons.prems in simp)
qed simp

lemma dec_val_nonneg: "\<forall>c \<in> set w. decimal_ch c \<Longrightarrow> 0 \<le> dec_val w"
proof -
  assume w: "\<forall>c \<in> set w. decimal_ch c"
  have "\<forall>c \<in> set p. digit_ch c" if "p \<in> set (split_ch 46 w)" for p
    using w split_ch_subset [OF that] split_ch_no_sep [OF that] by (auto simp: decimal_ch_def)
  then have "0 \<le> digits_val p" if "p \<in> set (split_ch 46 w)" for p
    using that by (intro digits_val_nonneg)
  then show ?thesis
    by (auto simp: dec_val_def intro!: add_nonneg_nonneg divide_nonneg_nonneg split: list.splits)
qed

lemma group1_decimal:
  "rx_caps (\<lambda>n. decimal_ch) e \<Longrightarrow> rx_group 1 e clean = Some w \<Longrightarrow> 0 \<le> dec_val w"
  by (intro dec_val_nonneg) (rule rx_group_chars [where G = "\<lambda>n. decimal_ch"])


end
