(* ===== verification/Normalizer.thy ===== *)
theory Normalizer
  imports JsNumber
begin

text \<open>
  Reading a shop's product name (\<open>backend/src/modules/normalization/normalizer.service.ts\<close>):
  sizes, fat, counts, brand, product type and variants. Attributes the code leaves undefined or
  null are \<open>None\<close>.
\<close>

section \<open>Brands\<close>

text \<open>The patterns carry the \<open>i\<close> flag.\<close>

definition brandAliases :: "(jstr \<times> rx list) list" where
  "brandAliases =
   [(la ''Nemoloko'', [lit (la ''nemoloko''), lit (ru ''nemoloko'')]),
    (la ''FoodMaster'', [sq [lit (la ''food''), many (Ch c_space), lit (la ''master'')], sq [lit (ru ''fud''),
        many (Ch c_space), lit (ru ''master'')], lit (ru ''fudmaster'')]),
    (cap (ru ''rogaCevX''), [lit (ru ''rogaCev''), lit (ru ''rogaCevX'')]),
    (cap (ru ''sloboda''), [lit (ru ''sloboda'')]),
    (cap (ru ''zolotaA '') @ cap (ru ''semeCka''), [sq [lit (ru ''zolotaA''), many (Ch c_space),
        lit (ru ''semeCka'')]]),
    (cap (ru ''zateA''), [lit (ru ''zateA'')]),
    (cap (ru ''Sedevr''), [lit (ru ''Sedevr'')]),
    (cap (ru ''russkiy '') @ cap (ru ''sahar''), [sq [lit (ru ''russkiy''), many (Ch c_space), lit (ru ''sahar'')]]),
    (cap (ru ''cesna''), [lit (ru ''cesna''), lit (la ''tsesna'')]),
    (la ''Dr.Korner'', [sq [lit (la ''dr''), opt (chr 46), many (Ch c_space), lit (la ''korner'')],
        sq [lit (ru ''doktor''), many (Ch c_space), lit (ru ''kerner'')], lit (ru ''korner'')]),
    (la ''Greenfield'', [lit (la ''greenfield''), lit (ru ''grinfild'')]),
    (la ''Tess'', [lit (la ''tess''), lit (ru ''tess'')]),
    (cap (ru ''piala''), [sq [lit (ru ''piala''), many (Ch c_space), lit (la ''gold'')], lit (ru ''piala'')]),
    (cap (ru ''petropavlovskoe''), [sq [lit (ru ''petropavlovsk''), many (Ch c_word)]]),
    (cap (ru ''ayna''), [lit (ru ''ayna''), lit (ru ''aynalayYn'')]),
    (cap (ru ''kVndelIk''), [lit (ru ''kundelik''), lit (ru ''kVndelIk'')]),
    (la ''Promo'', [lit (la ''promo''), lit (ru ''promo'')]),
    (cap (ru ''Salun''), [lit (ru ''Salun'')]),
    (cap (ru ''pekarx''), [lit (ru ''pekarx'')]),
    (cap (ru ''russkiy '') @ cap (ru ''produkt''), [sq [lit (ru ''russkiy''), many (Ch c_space),
        lit (ru ''produkt'')]]),
    (cap (ru ''maslozavod '') @ [8470] @ la ''1'', [sq [lit (ru ''maslozavod''), many (Ch c_space),
        opt (alts [lit ([8470]), lit (la ''no'')]), many (Ch c_space), lit (la ''1'')]]),
    (la ''Oleina'', [lit (la ''oleina''), lit (ru ''oleyna'')]),
    (cap (ru ''magaS''), [lit (ru ''magaS''), lit (la ''magash'')]),
    (cap (ru ''altYn '') @ cap (ru ''dan''), [sq [lit (ru ''altYn''), many (Ch c_space), lit (ru ''dan'')]]),
    (cap (ru ''nur''), [sq [lit (ru ''hleb''), many (Ch c_dot), lit (ru ''nur'')], lit ([34] @ ru ''nur'' @ [34])]),
    (la ''Bionan'', [lit (la ''bionan''), lit (ru ''bionan'')]),
    (cap (ru ''ak'') @ cap (ru ''marjan''), [lit (ru ''akmarjan''), lit (ru ''ak-marjan'')]),
    (cap (ru ''barakat''), [lit (ru ''barakat'')]),
    (cap (ru ''Antarx''), [lit (ru ''Antarx'')]),
    (cap (ru ''domik v derevne''), [sq [lit (ru ''domik''), many (Ch c_space), lit (ru ''v''), many (Ch c_space),
        lit (ru ''derevne'')]]),
    (cap (ru ''prostokvaSino''), [lit (ru ''prostokvaSino'')]),
    (cap (ru ''derevenskoe''), [sq [lit (ru ''derevensk''), many (Ch c_word)]]),
    (cap (ru ''odari''), [lit (ru ''odari'')]),
    (cap (ru ''okolica''), [lit (ru ''okolica'')]),
    (cap (ru ''miloko''), [lit (ru ''miloko'')]),
    (cap (ru ''milkovo''), [lit (ru ''milkovo'')]),
    (cap (ru ''moO''), [lit (ru ''moO''), lit (ru ''moe'')]),
    (cap (ru ''kubanskiy '') @ cap (ru ''maslodel''), [sq [lit (ru ''kubanskiy''), many (Ch c_space),
        lit (ru ''maslodel'')]]),
    (cap (ru ''dostYk''), [lit (ru ''dostYk''), lit (la ''dostyk'')]),
    (cap (ru ''savuSkin''), [lit (ru ''savuSkin''), sq [lit (ru ''savuSkin''), many (Ch c_space),
        lit (ru ''produkt'')]]),
    (cap (ru ''Eko'') @ cap (ru ''niva''), [lit (ru ''Ekoniva''), sq [lit (ru ''Eko''), many (Ch c_space),
        lit (ru ''niva'')], lit (la ''ekoniva'')]),
    (cap (ru ''carx''), [lit (ru ''carx''), lit (ru ''car'')]),
    (la ''Barilla'', [lit (la ''barilla''), lit (ru ''barilla'')]),
    (cap (ru ''makfa''), [lit (ru ''makfa''), lit (la ''makfa'')]),
    (la ''DEP'', [sq [WordB, lit (la ''dep''), WordB], sq [WordB, lit (ru ''dep''), WordB]]),
    (cap (ru ''novYy '') @ cap (ru ''denx''), [sq [lit (ru ''novYy''), many (Ch c_space), lit (ru ''denx'')]]),
    (la ''3 '' @ cap (ru ''jelaniA''), [sq [lit (la ''3''), many (Ch c_space), lit (ru ''jelaniA'')],
        sq [lit (ru ''tri''), many (Ch c_space), lit (ru ''jelaniA'')]]),
    (cap (ru ''aknek''), [lit (ru ''aknek''), lit (la ''aknek'')]),
    (cap (ru ''tahir''), [lit (ru ''tahir''), lit (la ''tahir'')]),
    (cap (ru ''Cudo''), [sq [WordB, lit (ru ''Cudo''), WordB]]),
    (la ''Ehrmann'', [lit (la ''ehrmann''), lit (ru ''Ermann''), lit (ru ''Erman'')]),
    (cap (ru ''danissimo''), [lit (ru ''danissimo''), lit (la ''danissimo'')]),
    (cap (ru ''jasmin''), [lit (ru ''jasmin''), lit (la ''jasmin'')]),
    (cap (ru ''anvar''), [lit (ru ''anvar''), lit (la ''anvar'')]),
    (la ''Baraka'', [lit (la ''baraka''), lit (ru ''baraka'')]),
    (la ''Alpro'', [lit (la ''alpro''), lit (ru ''alxpro'')]),
    (cap (ru ''maslenkovo''), [lit (ru ''maslenkovo'')])]"

definition brand_of :: "jstr \<Rightarrow> jstr option" where
  "brand_of text = map_option fst (List.find (\<lambda>(_, patterns). list_ex (\<lambda>p. rx_test p (to_lower text)) patterns) brandAliases)"

definition canonicalizeBrand :: "jstr \<Rightarrow> jstr" where
  "canonicalizeBrand rawBrand = nullish (brand_of (trim rawBrand)) (trim rawBrand)"

section \<open>Types and variants\<close>

definition has :: "jstr \<Rightarrow> jstr list \<Rightarrow> bool" where
  "has clean ws \<longleftrightarrow> list_ex (str_includes clean) ws"

text \<open>A sequence of \<open>if (...) return ...\<close>: the first rule that applies.\<close>

definition first_rule :: "(bool \<times> jstr) list \<Rightarrow> jstr option" where
  "first_rule rules = map_option snd (List.find fst rules)"

definition flavor_rules :: "jstr \<Rightarrow> (bool \<times> jstr) list" where
  "flavor_rules clean =
     [(has clean [ru ''vanilx'', la ''vanilla''], la ''vanilla''),
      (has clean [ru ''Sokolad'', la ''chocolate''], la ''chocolate''),
      (has clean [ru ''klubnik'', la ''strawberry''], la ''strawberry''),
      (has clean [ru ''banan'', la ''banana''] \<and> \<not> starts_with clean (ru ''banan''), la ''banana''),
      (has clean [ru ''viSn'', la ''cherry''], la ''cherry''),
      (has clean [ru ''malin'', la ''raspberry''], la ''raspberry''),
      (has clean [ru ''persik'', la ''peach''], la ''peach''),
      (has clean [ru ''kokos'', la ''coconut''], la ''coconut''),
      (has clean [ru ''Agod'', ru ''lesn'', la ''berry''], la ''berries''),
      (has clean [ru ''karamel'', la ''caramel''], la ''caramel''),
      (has clean [ru ''klassiCesk'', la ''classic''], la ''classic'')]"

definition detectFlavorVariant :: "jstr \<Rightarrow> jstr option" where
  "detectFlavorVariant clean = first_rule (flavor_rules clean)"

definition detectOilVariant :: "jstr \<Rightarrow> jstr option" where
  "detectOilVariant clean =
    (if \<not> has clean [ru ''maslo''] \<and> \<not> has clean [ru ''masla''] \<and> \<not> has clean [la ''oleina''] \<and> \<not> has clean [ru ''sloboda'']
     then None
     else
       let hasOlive = has clean [ru ''olivkov'', la ''olive''];
           hasMix = has clean [ru ''miks'', la ''mix'', ru ''kupaj'', ru ''s dobavleniem''];
           hasSunflower = has clean [ru ''podsolneC'', ru ''kVnbaGYs''];
           hasCorn = has clean [ru ''kukuruz'']
       in first_rule
            [(hasOlive \<and> (hasSunflower \<or> hasMix), la ''sunflower_olive_mix''), (hasOlive, la ''olive''),
             (hasCorn, la ''corn''), (hasSunflower, la ''sunflower''), (hasMix, la ''mix'')])"

definition rx_confectionery :: rx where
  "rx_confectionery =
     alts [lit (ru ''Sokol''), lit (la ''chocolat''), lit (la ''kinder''), lit (ru ''kinder''), lit (ru ''sUrpriz''),
        lit (la ''surprise''), lit (ru ''podar''), lit (ru ''desert''), sq [lit (ru ''Soki''),
        opt (Ch (Cls False ([(45, 45)] @ ranges c_space))), lit (ru ''toki'')], sq [lit (ru ''Sok''),
        many1 (Ch c_space), lit (ru ''Ayc'')], lit (la ''kidsbox''), lit (ru ''kidsboks''), lit (ru ''konfet''),
        lit (ru ''igruS'')]"

definition rx_egg_toys :: rx where
  "rx_egg_toys =
     alts [lit (la ''kinder''), lit (ru ''kinder''), sq [lit (ru ''Soki''),
        opt (Ch (Cls False ([(45, 45)] @ ranges c_space))), lit (ru ''toki'')], lit (la ''kidsbox''),
        lit (ru ''kidsboks'')]"

definition product_rules :: "jstr \<Rightarrow> (bool \<times> jstr) list" where
  "product_rules clean =
    (let isEgg = has clean [ru ''Ayc'', ru ''jLmYrtK'']
     in [(isEgg \<and> rx_test rx_confectionery clean, la ''confectionery''),
      (has clean [ru ''mayonez''], la ''mayonnaise''),
      (has clean [ru ''suSk'', ru ''peCenx'', ru ''prAnik'', ru ''vafl'', ru ''tort'', ru ''pirog'', ru ''keks''],
        la ''bakery_sweet''),
      (has clean [ru ''hleb'', ru '' baton'', ru ''baget'', ru ''Ciabatta'', ru ''buloCk'', ru ''lepeSk''],
        la ''bread''),
      (has clean [ru ''hlebc''], la ''crispbread''),
      (has clean [ru ''greCk'', ru ''greCnev''], la ''buckwheat''),
      (has clean [ru ''ris '', ru ''ris,'', ru '' ris'',
        ru ''kVrIS''] \<and> \<not> has clean [ru ''hlebcY''] \<and> \<not> has clean [ru ''nemoloko''] \<and> \<not> has clean [la ''nemoloko''],
        la ''rice''),
      (has clean [ru ''muka'', ru '' Ln''] \<or> starts_with clean (ru ''Ln''), la ''flour''),
      (has clean [ru ''rojk'', ru ''makaron'', ru ''vermiSel'', ru ''spagetti'', ru ''rakuSk'', ru ''perxA''],
        la ''pasta''),
      (has clean [ru ''manka'', ru ''mann''], la ''semolina''),
      (has clean [ru ''ovsAn'',
        ru ''gerkules''] \<and> \<not> has clean [la ''nemoloko''] \<and> \<not> has clean [ru ''nemoloko''],
        la ''oats''),
      (has clean [ru ''pSeno'', ru ''pSenn''], la ''millet''),
      (has clean [ru ''perlov'', ru ''ACnev'', ru ''ACmen''], la ''barley''),
      (has clean [ru ''fasol'', ru ''goroh'', ru ''nut '', ru ''CeCevic''], la ''legumes''),
      (has clean [ru ''sYrok''], la ''cottage_cheese''),
      (has clean [ru ''kefir''], la ''kefir''),
      (has clean [ru ''tan '', ru ''tan,'', ru '' tan'', ru ''ayran''] \<or> starts_with clean (ru ''tan''),
        la ''tan_ayran''),
      (has clean [ru ''smetan'', ru ''KaymaK''], la ''sour_cream''),
      (has clean [ru ''tvorog'', ru ''tvoroj'', ru ''sVzbe''], la ''cottage_cheese''),
      (has clean [ru ''sYr '', ru ''sYr,'', ru ''sYrY'', ru ''IrImSIk''], la ''cheese''),
      (has clean [ru ''maslo'', ru ''spred''] \<and> has clean [ru ''slivoCn'', ru ''sarY may'', ru ''krestxAnsk'',
        ru ''korovxe'', ru ''derevenskoe'', ru ''jaylau'', ru ''osoboe'', ru ''oblegCennoe'', ru ''tradicionnoe''],
        la ''butter''),
      (has clean [ru ''slivoCn'', ru ''sarY may'', ru ''krestxAnsk''], la ''butter''),
      (has clean [ru ''slivk''], la ''cream''),
      (has clean [ru ''molok'', ru ''sVt'', la ''nemoloko'', ru ''nemoloko'',
        ru ''sguWen''] \<and> \<not> has clean [ru ''suSk''] \<and> \<not> has clean [ru ''sYrok''], la ''milk''),
      (has clean [ru ''sahar'', ru ''Kant'', ru ''rafinad''], la ''sugar''),
      (has clean [ru ''solx'',
        ru ''tLz''] \<and> \<not> has clean [ru ''fasol''] \<and> \<not> has clean [ru ''hlebcY''], la ''salt''),
      (has clean [ru ''podsolneCn'', ru ''rastitelxn'', ru ''kVnbaGYs'', ru ''olivkov''], la ''vegetable_oil''),
      (rx_test rx_egg_toys clean, la ''confectionery''),
      (isEgg, la ''eggs''),
      (has clean [ru ''kartof'', ru ''kartop''], la ''potato''),
      (has clean [ru ''morkov'', ru ''sFbIz''], la ''carrot''),
      (has clean [ru ''luk '', ru ''luk,'',
        ru ''piAz''] \<and> \<not> has clean [ru ''Ablok''] \<and> \<not> has clean [ru ''kukuruz''], la ''onion''),
      (has clean [ru ''kapust'', ru ''KYrYKKabat''], la ''cabbage''),
      (has clean [ru ''tomat'', ru ''pomidor'', ru ''KYzanaK''], la ''tomato''),
      (has clean [ru ''ogurc'', ru ''KiAr''], la ''cucumber''),
      (has clean [ru ''Ablok'', ru ''alma''], la ''apple''),
      (has clean [ru ''banan''], la ''banana''),
      (has clean [ru ''farS''], la ''minced_meat''),
      (has clean [ru ''krab paloCki'', ru ''krabovYe paloCki''], la ''crab_sticks''),
      (has clean [ru ''nogi '', ru ''nogi govAjx''], la ''meat_legs''),
      (has clean [ru ''govAdin'', ru ''siYr''], la ''beef''),
      (has clean [ru ''kuric'', ru ''kurY'', ru ''okoroC'', ru ''cYplenok'', ru ''tauYK'', ru ''broyler''],
        la ''chicken''),
      (has clean [ru ''rYb'', ru ''selxdx'', ru ''sudak'', ru ''sazan'', ru ''karasx'', ru ''balYK'', ru ''kalxmar'',
        ru ''midii''], la ''fish''),
      (has clean [ru ''Cay '', ru ''Cay,'', ru '' Cay'', ru ''SayY''], la ''tea'')])"

definition detectProductType :: "jstr \<Rightarrow> jstr option" where
  "detectProductType clean = first_rule (product_rules clean)"

section \<open>Attributes\<close>

record attributes =
  a_volumeMl :: "int option"
  a_weightGrams :: "int option"
  a_fatPercent :: "rat option"
  a_packageCount :: "int option"
  a_breadType :: "jstr option"
  a_sliced :: "bool option"
  a_brand :: "jstr option"
  a_productType :: "jstr option"
  a_teaType :: "jstr option"
  a_flavorVariant :: "jstr option"
  a_oilVariant :: "jstr option"
  a_cleanedName :: jstr

text \<open>\<open>/(\d+),(\d+)/g\<close> to \<open>$1.$2\<close> and \<open>/\s+/g\<close> to one space.\<close>

definition rx_comma :: rx where
  "rx_comma = sq [Grp 1 (many1 (Ch c_digit)), lit (la '',''), Grp 2 (many1 (Ch c_digit))]"

definition cleanName :: "jstr \<Rightarrow> jstr" where
  "cleanName rawName =
    (let lower = map (\<lambda>c. if c = 1105 then 1077 else c) (to_lower rawName);
         unquoted = map (\<lambda>c. if c \<in> {34, 39, 171, 187, 8222, 8220} then 32 else c) lower;
         dotted = rx_replace rx_comma (\<lambda>g. nullish (map_of g 1) [] @ [46] @ nullish (map_of g 2) []) unquoted
     in trim (collapse_spaces dotted))"

definition rx_litres :: rx where
  "rx_litres = sq [Grp 1 (sq [many1 (Ch c_digit), opt (sq [lit (la ''.''), many1 (Ch c_digit)])]), many (Ch c_space), alts [lit (ru ''l''), lit (la ''l''), sq [lit (ru ''litr''), many (Ch c_word)]]]"

definition rx_millilitres :: rx where
  "rx_millilitres = sq [Grp 1 (sq [many1 (Ch c_digit), opt (sq [lit (la ''.''), many1 (Ch c_digit)])]), many (Ch c_space), alts [lit (ru ''ml''), lit (la ''ml'')]]"

definition rx_kilos :: rx where
  "rx_kilos = sq [Grp 1 (sq [many1 (Ch c_digit), opt (sq [lit (la ''.''), many1 (Ch c_digit)])]), many (Ch c_space), alts [lit (ru ''kg''), lit (la ''kg''), sq [lit (ru ''kilogramm''), many (Ch c_word)]]]"

definition rx_grams :: rx where
  "rx_grams = sq [Grp 1 (sq [many1 (Ch c_digit), opt (sq [lit (la ''.''), many1 (Ch c_digit)])]), many (Ch c_space), alts [lit (ru ''g''), lit (la ''g''), lit (ru ''gr''), sq [lit (ru ''gramm''), many (Ch c_word)]]]"

definition rx_fat :: rx where
  "rx_fat = sq [Grp 1 (sq [many1 (Ch c_digit), opt (sq [lit (la ''.''), many1 (Ch c_digit)])]), many (Ch c_space), lit (la ''%'')]"

definition rx_count :: rx where
  "rx_count = sq [Grp 1 (many1 (Ch c_digit)), many (Ch c_space), alts [lit (ru ''St''), lit (ru ''pak''), sq [lit (ru ''paketik''), many (Ch c_word)]]]"

definition rx_egg_pack :: rx where
  "rx_egg_pack = sq [lit (la ''/''), many (Ch c_space), Grp 1 (sq [Ch c_digit, upto_times 1 (Ch c_digit)]), Ahead True (alts [Eol, Ch (Cls False ([(40, 40), (41, 41), (44, 44), (46, 46), (59, 59)] @ ranges c_space))])]"

text \<open>A size in the large unit (kept when it is between 0 and 50), else in the small one.\<close>

definition sizeOf :: "rx \<Rightarrow> rx \<Rightarrow> jstr \<Rightarrow> int option" where
  "sizeOf large small clean =
    (case rx_group 1 large clean of
       Some w \<Rightarrow> (let v = dec_val w in if 0 < v \<and> v < 50 then Some (js_round (v * 1000)) else None)
     | None \<Rightarrow> map_option (\<lambda>w. js_round (dec_val w)) (rx_group 1 small clean))"

definition fatOf :: "jstr \<Rightarrow> rat option" where
  "fatOf clean =
    (case rx_group 1 rx_fat clean of
       None \<Rightarrow> None
     | Some w \<Rightarrow> if 1 / 10 \<le> dec_val w \<and> dec_val w \<le> 999 / 10 then Some (dec_val w) else None)"

definition countOf :: "jstr option \<Rightarrow> jstr \<Rightarrow> int option" where
  "countOf productType clean =
    (case rx_group 1 rx_count clean of
       Some w \<Rightarrow> Some (digits_val w)
     | None \<Rightarrow> if productType = Some (la ''eggs'') then map_option digits_val (rx_group 1 rx_egg_pack clean) else None)"

definition breadTypeOf :: "jstr \<Rightarrow> jstr option" where
  "breadTypeOf clean =
    first_rule
      [(has clean [ru ''rjan'', ru ''borodinsk''], la ''rye''),
       (has clean [ru ''pSeniCn'', ru ''belYy'', ru ''formov''], la ''white''),
       (has clean [ru ''lepeSk''], la ''flatbread''),
       (has clean [ru ''baton''], la ''baton''),
       (has clean [ru ''hlebc''], la ''crispbread'')]"

definition teaTypeOf :: "jstr option \<Rightarrow> jstr \<Rightarrow> jstr option" where
  "teaTypeOf productType clean =
    (if productType = Some (la ''tea'') \<or> has clean [ru ''Cay''] then
       first_rule [(has clean [ru ''zelen'', la ''green''], la ''green''), (has clean [ru ''Cern'', la ''black''], la ''black'')]
     else None)"

definition no_attributes :: attributes where
  "no_attributes = \<lparr>a_volumeMl = None, a_weightGrams = None, a_fatPercent = None, a_packageCount = None,
     a_breadType = None, a_sliced = None, a_brand = None, a_productType = None, a_teaType = None,
     a_flavorVariant = None, a_oilVariant = None, a_cleanedName = []\<rparr>"

definition detectBrand :: "jstr option \<Rightarrow> jstr \<Rightarrow> jstr option" where
  "detectBrand knownBrand clean =
    (let known = (if truthy_str knownBrand then Some (canonicalizeBrand (the knownBrand)) else None)
     in if truthy_str known then known else brand_of clean)"

definition normalize :: "jstr \<Rightarrow> jstr option \<Rightarrow> attributes" where
  "normalize rawName knownBrand =
    (if rawName = [] then no_attributes
     else
       let clean = cleanName rawName; productType = detectProductType clean
       in \<lparr>a_volumeMl = sizeOf rx_litres rx_millilitres clean,
           a_weightGrams = sizeOf rx_kilos rx_grams clean,
           a_fatPercent = fatOf clean,
           a_packageCount = countOf productType clean,
           a_breadType = breadTypeOf clean,
           a_sliced = (if has clean [ru ''narez''] then Some True else None),
           a_brand = detectBrand knownBrand clean,
           a_productType = productType,
           a_teaType = teaTypeOf productType clean,
           a_flavorVariant = detectFlavorVariant clean,
           a_oilVariant = detectOilVariant clean,
           a_cleanedName = clean\<rparr>)"

section \<open>Titles\<close>

text \<open>A literal under the \<open>i\<close> flag, matched against text of any case.\<close>

definition lit_ci :: "jstr \<Rightarrow> rx" where
  "lit_ci s = sq (map (\<lambda>c. Ch (Cls False [(c, c), (upper_ch c, upper_ch c)])) s)"

definition title_sizes :: rx where
  "title_sizes = alts (map lit_ci
     [ru ''1l'', ru ''1000ml'', ru ''500ml'', ru ''0.5l'', la ''3.2%'', la ''2.5%'', la ''1.5%'', ru ''100g'',
      ru ''300g'', ru ''1kg'', ru ''450g''])"

definition amount_title :: "jstr \<Rightarrow> jstr \<Rightarrow> int \<Rightarrow> jstr" where
  "amount_title large small n =
    (if 1000 \<le> n then show_num (of_int n / 1000) @ la '' '' @ large else show_int n @ la '' '' @ small)"

text \<open>The second argument (the brand) of the source is not used by its body.\<close>

definition buildCanonicalTitle :: "jstr \<Rightarrow> attributes \<Rightarrow> jstr" where
  "buildCanonicalTitle name attrs =
    (let base = cap (trim (collapse_spaces (rx_replace title_sizes (\<lambda>_. []) name)));
         fat = (case a_fatPercent attrs of Some f \<Rightarrow> if f = 0 then [] else [show_num f @ la ''%''] | None \<Rightarrow> []);
         volume = nullish (a_volumeMl attrs) 0;
         weight = nullish (a_weightGrams attrs) 0;
         size = (if volume \<noteq> 0 then [amount_title (ru ''l'') (ru ''ml'') volume]
                 else if weight \<noteq> 0 then [amount_title (ru ''kg'') (ru ''g'') weight] else [])
     in join (la '' '') (base # fat @ size))"

section \<open>Lemmas\<close>

lemma first_rule_Some: "first_rule rules = Some r \<Longrightarrow> (True, r) \<in> set rules"
  by (auto simp: first_rule_def dest!: find_Some_iff)

lemma first_rule_in: "first_rule rules = Some r \<Longrightarrow> r \<in> set (map snd rules)"
  by (force dest: first_rule_Some)

lemma has_substring: "has clean [w @ v] \<Longrightarrow> has clean [w]"
  unfolding has_def by (auto simp: str_includes_iff)

lemma caps_decimal:
  "rx_caps (\<lambda>n. decimal_ch) rx_litres" "rx_caps (\<lambda>n. decimal_ch) rx_millilitres"
  "rx_caps (\<lambda>n. decimal_ch) rx_kilos" "rx_caps (\<lambda>n. decimal_ch) rx_grams"
  by (simp_all add: rx_litres_def rx_millilitres_def rx_kilos_def rx_grams_def opt_def many_def many1_def
      decimal_ch_def lit_def la_def ru_def chr_def)

lemma sizeOf_bounds:
  assumes "rx_caps (\<lambda>n. decimal_ch) large" and "rx_caps (\<lambda>n. decimal_ch) small" and "sizeOf large small clean = Some n"
  shows "0 \<le> n" and "rx_group 1 large clean \<noteq> None \<Longrightarrow> n \<le> 50000"
proof -
  show "0 \<le> n"
    using assms(3) group1_decimal [OF assms(1)] group1_decimal [OF assms(2)]
    by (auto simp: sizeOf_def Let_def intro!: js_round_nonneg split: option.splits if_splits)
  show "n \<le> 50000" if some: "rx_group 1 large clean \<noteq> None"
  proof -
    obtain w where w: "rx_group 1 large clean = Some w" using some by blast
    then have "dec_val w < 50" "n = js_round (dec_val w * 1000)"
      using assms(3) by (simp_all add: sizeOf_def Let_def split: if_splits)
    then show ?thesis
      using js_round_mono [of "dec_val w * 1000" "of_int 50000"] by (simp only: js_round_int)
  qed
qed

text \<open>
  A pattern that starts at a word boundary needs an ASCII letter, digit or underscore next to
  it: in text without any, such as a Cyrillic name, it never matches.
\<close>

lemma word_boundary_needs_word_ch:
  "\<forall>c \<in> set b. \<not> word_ch c \<Longrightarrow> \<forall>c \<in> set s. \<not> word_ch c \<Longrightarrow> rx_exec_from (sq (WordB # e # es)) b s = None"
proof (induction s arbitrary: b)
  case Nil
  then show ?case by (cases b) (simp_all add: word_boundary_def)
next
  case (Cons c s)
  have "\<not> word_boundary b (c # s)" using Cons.prems by (cases b) (simp_all add: word_boundary_def)
  moreover have "rx_exec_from (sq (WordB # e # es)) (c # b) s = None"
    using Cons by simp
  ultimately show ?case by simp
qed

definition chudo :: jstr where
  "chudo = cap (ru ''Cudo'')"

lemma chudo_patterns: "list_all (\<lambda>(c, ps). c = chudo \<longrightarrow> ps = [sq [WordB, lit (ru ''Cudo''), WordB]]) brandAliases"
  by code_simp

lemma brand_of_not_chudo:
  assumes "\<forall>c \<in> set text. \<not> word_ch (lower_ch c)"
  shows "brand_of text \<noteq> Some chudo"
proof
  assume "brand_of text = Some chudo"
  then obtain ps where ps: "(chudo, ps) \<in> set brandAliases" and p: "list_ex (\<lambda>p. rx_test p (to_lower text)) ps"
    by (auto simp: brand_of_def dest!: find_Some_iff)
  from ps chudo_patterns have "ps = [sq [WordB, lit (ru ''Cudo''), WordB]]"
    by (auto simp: list_all_iff)
  moreover have "rx_exec_from (sq [WordB, lit (ru ''Cudo''), WordB]) [] (to_lower text) = None"
    using assms by (intro word_boundary_needs_word_ch) (auto simp: to_lower_def)
  ultimately show False using p by (simp add: rx_test_def rx_exec_def)
qed

lemma la_eq_iff: "la s = la t \<longleftrightarrow> s = t"
proof -
  have "inj (of_char :: char \<Rightarrow> int)" by (rule injI) simp
  then show ?thesis by (simp add: la_def inj_map_eq_map)
qed

text \<open>The rule for crispbread comes after the one for bread, whose word it contains.\<close>

lemma not_crispbread: "detectProductType clean \<noteq> Some (la ''crispbread'')"
proof -
  have hlebc: "ru ''hlebc'' = ru ''hleb'' @ ru ''c''" by (simp add: ru_def)
  have "has clean [ru ''hlebc''] \<Longrightarrow> has clean [ru ''hleb'']" unfolding hlebc by (rule has_substring)
  then have "has clean [ru ''hlebc''] \<Longrightarrow> has clean [ru ''hleb'', ru '' baton'', ru ''baget'', ru ''Ciabatta'', ru ''buloCk'', ru ''lepeSk'']"
    by (auto simp: has_def)
  then show ?thesis
    unfolding detectProductType_def product_rules_def Let_def first_rule_def
    by (auto simp: la_eq_iff)
qed

end
