(* ===== verification/Matcher.thy ===== *)
theory Matcher
  imports Normalizer Catalog
begin

text \<open>
  Grouping the products of several shops (\<open>backend/src/modules/matching/matcher.service.ts\<close>):
  candidates with a fingerprint, the pairwise decision \<open>canMatch\<close> and the greedy grouping.
\<close>

section \<open>Products and candidates\<close>

text \<open>\<open>rw_barcode\<close> is the \<open>barcode\<close> of the raw payload.\<close>

record raw_product =
  rw_store :: store_code
  rw_sourceProductId :: jstr
  rw_sourceUrl :: "jstr option"
  rw_name :: jstr
  rw_brand :: "jstr option"
  rw_category :: "jstr option"
  rw_price :: rat
  rw_oldPrice :: "rat option"
  rw_imageUrl :: "jstr option"
  rw_barcode :: "jstr option"

record candidate =
  cd_raw :: raw_product
  cd_attrs :: attributes
  cd_fingerprint :: jstr
  cd_barcode :: "jstr option"

definition mapProductTypeToCategory :: "jstr \<Rightarrow> jstr" where
  "mapProductTypeToCategory pType =
    (if pType = la ''milk'' then la ''milk''
     else if pType = la ''bread'' \<or> pType = la ''crispbread'' then la ''bread''
     else if pType = la ''eggs'' then la ''eggs''
     else if pType = la ''sugar'' \<or> pType = la ''salt'' then la ''sugar''
     else if pType = la ''vegetable_oil'' then la ''oil''
     else la ''other'')"

definition or_else :: "jstr option \<Rightarrow> jstr \<Rightarrow> jstr" where
  "or_else s d = (if truthy_str s then the s else d)"

definition mapRawCategory :: "jstr option \<Rightarrow> jstr" where
  "mapRawCategory rawCategory =
    (let cat = trim (to_lower (or_else rawCategory (la ''other'')))
     in if cat \<in> set [la ''milk'', la ''bread'', la ''eggs'', la ''sugar'', la ''oil''] then cat else la ''other'')"

definition categoryOf :: "attributes \<Rightarrow> jstr option \<Rightarrow> jstr" where
  "categoryOf attrs raw =
    (if truthy_str (a_productType attrs) then mapProductTypeToCategory (the (a_productType attrs)) else mapRawCategory raw)"

definition truthy_int :: "int option \<Rightarrow> bool" where
  "truthy_int n \<longleftrightarrow> n \<noteq> None \<and> n \<noteq> Some 0"

definition buildFingerprint :: "jstr \<Rightarrow> attributes \<Rightarrow> jstr" where
  "buildFingerprint category attrs =
    (let pType = to_lower (or_else (a_productType attrs) (la ''notype''));
         cat = categoryOf attrs (Some category);
         brand = filter (\<lambda>c. \<not> space_ch c) (to_lower (or_else (a_brand attrs) (la ''nobrand'')));
         tea = or_else (a_teaType attrs) (la ''notea'');
         size = (if truthy_int (a_volumeMl attrs) then show_int (the (a_volumeMl attrs)) @ la ''ml''
                 else if truthy_int (a_weightGrams attrs) then show_int (the (a_weightGrams attrs)) @ la ''g''
                 else la ''nosize'');
         pack = (if truthy_int (a_packageCount attrs) then show_int (the (a_packageCount attrs)) @ la ''pcs'' else la ''nopack'');
         fat = (if truthy_num (a_fatPercent attrs) then show_num (the (a_fatPercent attrs)) @ la ''pct'' else la ''nofat'');
         variant = (if truthy_str (a_breadType attrs) then the (a_breadType attrs)
                    else if truthy_str (a_flavorVariant attrs) then the (a_flavorVariant attrs)
                    else or_else (a_oilVariant attrs) (la ''novariant''))
     in join (la ''|'') [cat, brand, pType, tea, size, pack, fat, variant])"

definition prepareCandidate :: "raw_product \<Rightarrow> candidate" where
  "prepareCandidate raw =
    (let attrs = normalize (rw_name raw) (rw_brand raw)
     in \<lparr>cd_raw = raw, cd_attrs = attrs,
         cd_fingerprint = buildFingerprint (or_else (rw_category raw) (la ''other'')) attrs,
         cd_barcode = or_undefined (rw_barcode raw)\<rparr>)"

section \<open>The pairwise decision\<close>

text \<open>Words of more than two characters, of the name without its punctuation.\<close>

fun split_spaces :: "jstr \<Rightarrow> jstr list" where
  "split_spaces [] = [[]]"
| "split_spaces (c # s) =
    (if space_ch c then [] # split_spaces s
     else (case split_spaces s of [] \<Rightarrow> [[c]] | w # ws \<Rightarrow> (c # w) # ws))"

definition punctuation :: "int list" where
  "punctuation = [34, 39, 171, 187, 8222, 8220, 40, 41, 91, 93, 44, 46, 47, 92, 58, 59]"

definition cleanTokens :: "jstr \<Rightarrow> jstr list" where
  "cleanTokens str =
    js_set (filter (\<lambda>t. length t > 2) (split_spaces (map (\<lambda>c. if c \<in> set punctuation then 32 else c) (to_lower str))))"

definition calculateTokenSimilarity :: "jstr \<Rightarrow> jstr \<Rightarrow> rat" where
  "calculateTokenSimilarity s1 s2 =
    (let tokens1 = cleanTokens s1; tokens2 = cleanTokens s2
     in if tokens1 = [] \<or> tokens2 = [] then 0
        else
          let intersection = of_nat (length (filter (\<lambda>t. t \<in> set tokens2) tokens1));
              jaccard = intersection / of_nat (length (js_set (tokens1 @ tokens2)));
              overlap = intersection / of_nat (min (length tokens1) (length tokens2))
          in 1 / 2 * jaccard + 1 / 2 * overlap)"

datatype match_method = Barcode | Deterministic

type_synonym match_result = "bool \<times> rat \<times> match_method"

definition both_differ :: "jstr option \<Rightarrow> jstr option \<Rightarrow> bool" where
  "both_differ x y \<longleftrightarrow> truthy_str x \<and> truthy_str y \<and> x \<noteq> y"

definition some_differ :: "jstr option \<Rightarrow> jstr option \<Rightarrow> bool" where
  "some_differ x y \<longleftrightarrow> (truthy_str x \<or> truthy_str y) \<and> x \<noteq> y"

definition far_apart :: "int \<Rightarrow> int option \<Rightarrow> int option \<Rightarrow> bool" where
  "far_apart tolerance x y \<longleftrightarrow> truthy_int x \<and> truthy_int y \<and> \<bar>the x - the y\<bar> > tolerance"

definition categoryConflict :: "candidate \<Rightarrow> candidate \<Rightarrow> bool" where
  "categoryConflict a b \<longleftrightarrow>
    (let catA = categoryOf (cd_attrs a) (rw_category (cd_raw a)); catB = categoryOf (cd_attrs b) (rw_category (cd_raw b))
     in catA \<noteq> [] \<and> catB \<noteq> [] \<and> catA \<noteq> la ''other'' \<and> catB \<noteq> la ''other'' \<and> catA \<noteq> catB)"

definition sameBarcode :: "candidate \<Rightarrow> candidate \<Rightarrow> bool" where
  "sameBarcode a b \<longleftrightarrow> truthy_str (cd_barcode a) \<and> truthy_str (cd_barcode b) \<and> cd_barcode a = cd_barcode b"

text \<open>Rules 3 to 12: attributes that can never belong to the same product.\<close>

definition attributesConflict :: "attributes \<Rightarrow> attributes \<Rightarrow> bool" where
  "attributesConflict x y \<longleftrightarrow>
    both_differ (a_productType x) (a_productType y) \<or>
    both_differ (a_teaType x) (a_teaType y) \<or>
    far_apart 0 (a_packageCount x) (a_packageCount y) \<or>
    (a_volumeMl x \<noteq> None \<and> a_weightGrams y \<noteq> None \<or> a_weightGrams x \<noteq> None \<and> a_volumeMl y \<noteq> None) \<or>
    far_apart 20 (a_volumeMl x) (a_volumeMl y) \<or>
    far_apart 25 (a_weightGrams x) (a_weightGrams y) \<or>
    (truthy_num (a_fatPercent x) \<and> truthy_num (a_fatPercent y) \<and> \<bar>the (a_fatPercent x) - the (a_fatPercent y)\<bar> > 1 / 10) \<or>
    some_differ (a_flavorVariant x) (a_flavorVariant y) \<or>
    some_differ (a_oilVariant x) (a_oilVariant y) \<or>
    both_differ (a_breadType x) (a_breadType y) \<or>
    both_differ (a_brand x) (a_brand y)"

definition sameSize :: "attributes \<Rightarrow> attributes \<Rightarrow> bool" where
  "sameSize x y \<longleftrightarrow>
    truthy_int (a_volumeMl x) \<and> truthy_int (a_volumeMl y) \<and> a_volumeMl x = a_volumeMl y \<or>
    truthy_int (a_weightGrams x) \<and> truthy_int (a_weightGrams y) \<and> a_weightGrams x = a_weightGrams y"

definition canMatch :: "candidate \<Rightarrow> candidate \<Rightarrow> match_result" where
  "canMatch a b =
    (let x = cd_attrs a; y = cd_attrs b
     in if categoryConflict a b then (False, 0, Deterministic)
        else if sameBarcode a b then (True, 1, Barcode)
        else if attributesConflict x y then (False, 0, Deterministic)
        else if cd_fingerprint a = cd_fingerprint b \<and> \<not> str_includes (cd_fingerprint a) (la ''nobrand'') \<and>
                \<not> str_includes (cd_fingerprint a) (la ''nosize'') then (True, 98 / 100, Deterministic)
        else
          let similarity = calculateTokenSimilarity (a_cleanedName x) (a_cleanedName y);
              sameBrand = truthy_str (a_brand x) \<and> truthy_str (a_brand y) \<and> a_brand x = a_brand y
          in if sameBrand \<and> sameSize x y \<and> 65 / 100 \<le> similarity then (True, max (95 / 100) similarity, Deterministic)
             else if 80 / 100 \<le> similarity \<and> (sameBrand \<or> \<not> truthy_str (a_brand x) \<or> \<not> truthy_str (a_brand y))
               then (True, similarity, Deterministic)
             else (False, similarity, Deterministic))"

section \<open>Grouping\<close>

datatype review_status = Approved | Pending

record match_member =
  mb_raw :: raw_product
  mb_method :: match_method
  mb_confidence :: rat
  mb_status :: review_status

record group_offer =
  go_store :: store_code
  go_price :: rat
  go_oldPrice :: "rat option"
  go_inStock :: bool

record match_group =
  g_id :: jstr
  g_canonicalName :: jstr
  g_brand :: "jstr option"
  g_category :: jstr
  g_imageUrl :: "jstr option"
  g_volumeMl :: "int option"
  g_weightGrams :: "int option"
  g_fatPercent :: "rat option"
  g_packageCount :: "int option"
  g_breadType :: "jstr option"
  g_sliced :: "bool option"
  g_productType :: "jstr option"
  g_members :: "match_member list"
  g_minPrice :: rat
  g_offers :: "group_offer list"

definition offer_of :: "raw_product \<Rightarrow> group_offer" where
  "offer_of raw = \<lparr>go_store = rw_store raw, go_price = rw_price raw, go_oldPrice = rw_oldPrice raw, go_inStock = True\<rparr>"

text \<open>
  A shop offers a product once, unless the barcode says that it is the same product.
\<close>

definition storeBlocks :: "candidate \<Rightarrow> match_group \<Rightarrow> bool" where
  "storeBlocks cand g \<longleftrightarrow>
    list_ex (\<lambda>x. go_store x = rw_store (cd_raw cand)) (g_offers g) \<and>
    \<not> (truthy_str (cd_barcode cand) \<and> list_ex (\<lambda>m. rw_barcode (mb_raw m) = cd_barcode cand) (g_members g))"

text \<open>The best group so far: its index, the confidence and the method.\<close>

type_synonym best_group = "nat option \<times> rat \<times> match_method"

definition considerGroup :: "candidate \<Rightarrow> best_group \<Rightarrow> nat \<times> match_group \<Rightarrow> best_group" where
  "considerGroup cand best ig =
    (let (i, g) = ig; (_, highest, _) = best
     in case g_members g of
          [] \<Rightarrow> best
        | representative # _ \<Rightarrow>
            if storeBlocks cand g then best
            else let (matches, confidence, method) = canMatch cand (prepareCandidate (mb_raw representative))
                 in if matches \<and> confidence > highest \<and> 80 / 100 \<le> confidence then (Some i, confidence, method) else best)"

definition bestGroup :: "candidate \<Rightarrow> match_group list \<Rightarrow> best_group" where
  "bestGroup cand gs = foldl (considerGroup cand) (None, 0, Deterministic) (enumerate 0 gs)"

definition addMember :: "candidate \<Rightarrow> rat \<Rightarrow> match_method \<Rightarrow> match_group \<Rightarrow> match_group" where
  "addMember cand confidence method g =
    (let raw = cd_raw cand
     in g\<lparr>g_members := g_members g @ [\<lparr>mb_raw = raw, mb_method = method, mb_confidence = confidence,
                                        mb_status = (if 90 / 100 \<le> confidence then Approved else Pending)\<rparr>],
          g_offers := g_offers g @ [offer_of raw],
          g_minPrice := (if rw_price raw < g_minPrice g then rw_price raw else g_minPrice g),
          g_imageUrl := (if \<not> truthy_str (g_imageUrl g) \<and> truthy_str (rw_imageUrl raw) then rw_imageUrl raw else g_imageUrl g),
          g_packageCount := (if g_packageCount g = None then a_packageCount (cd_attrs cand) else g_packageCount g),
          g_productType := (if g_productType g = None then a_productType (cd_attrs cand) else g_productType g)\<rparr>)"

definition newGroup :: "nat \<Rightarrow> candidate \<Rightarrow> match_group" where
  "newGroup n cand =
    (let raw = cd_raw cand; attrs = cd_attrs cand
     in \<lparr>g_id = la ''canon_'' @ show_nat (int n + 1), g_canonicalName = buildCanonicalTitle (rw_name raw) attrs,
         g_brand = or_undefined (a_brand attrs), g_category = categoryOf attrs (rw_category raw),
         g_imageUrl = or_undefined (rw_imageUrl raw),
         g_volumeMl = a_volumeMl attrs, g_weightGrams = a_weightGrams attrs, g_fatPercent = a_fatPercent attrs,
         g_packageCount = a_packageCount attrs, g_breadType = a_breadType attrs, g_sliced = a_sliced attrs,
         g_productType = a_productType attrs,
         g_members = [\<lparr>mb_raw = raw, mb_method = Deterministic, mb_confidence = 1, mb_status = Approved\<rparr>],
         g_minPrice = rw_price raw, g_offers = [offer_of raw]\<rparr>)"

definition placeCandidate :: "match_group list \<Rightarrow> candidate \<Rightarrow> match_group list" where
  "placeCandidate gs cand =
    (case bestGroup cand gs of
       (Some i, confidence, method) \<Rightarrow> gs[i := addMember cand confidence method (gs ! i)]
     | (None, _, _) \<Rightarrow> gs @ [newGroup (length gs) cand])"

definition sortOffers :: "match_group \<Rightarrow> match_group" where
  "sortOffers g = g\<lparr>g_offers := js_sort (\<lambda>a b. go_price a \<le> go_price b) (g_offers g)\<rparr>"

definition groupProducts :: "raw_product list \<Rightarrow> match_group list" where
  "groupProducts raws = map sortOffers (foldl placeCandidate [] (map prepareCandidate raws))"

section \<open>The decision is symmetric\<close>

lemma both_differ_sym: "both_differ x y \<longleftrightarrow> both_differ y x"
  by (auto simp: both_differ_def)

lemma some_differ_sym: "some_differ x y \<longleftrightarrow> some_differ y x"
  by (auto simp: some_differ_def)

lemma far_apart_sym: "far_apart t x y \<longleftrightarrow> far_apart t y x"
  by (auto simp: far_apart_def)

lemma attributesConflict_sym: "attributesConflict x y \<longleftrightarrow> attributesConflict y x"
  unfolding attributesConflict_def
  by (simp add: both_differ_sym [of "f x" "f y" for f] some_differ_sym [of "f x" "f y" for f]
      far_apart_sym [of t "f x" "f y" for t f] abs_minus_commute [of "the (a_fatPercent x)"]) blast

lemma categoryConflict_sym: "categoryConflict a b \<longleftrightarrow> categoryConflict b a"
  unfolding categoryConflict_def Let_def by auto

lemma sameBarcode_sym: "sameBarcode a b \<longleftrightarrow> sameBarcode b a"
  unfolding sameBarcode_def by auto

lemma sameSize_sym: "sameSize x y \<longleftrightarrow> sameSize y x"
  unfolding sameSize_def by auto

lemma similarity_sym: "calculateTokenSimilarity s1 s2 = calculateTokenSimilarity s2 s1"
proof -
  have d: "distinct (cleanTokens s)" for s by (simp add: cleanTokens_def)
  have common: "length (filter (\<lambda>t. t \<in> set ys) xs) = card (set xs \<inter> set ys)" if "distinct xs" for xs ys :: "jstr list"
    using that by (metis distinct_card distinct_filter inter_set_filter inf_commute)
  have "length (filter (\<lambda>t. t \<in> set (cleanTokens s2)) (cleanTokens s1)) =
        length (filter (\<lambda>t. t \<in> set (cleanTokens s1)) (cleanTokens s2))"
    by (simp add: common d inf_commute)
  then show ?thesis
    by (simp add: calculateTokenSimilarity_def Let_def length_js_set Un_commute min.commute disj_commute)
qed

lemma canMatch_sym: "canMatch a b = canMatch b a"
proof -
  note swap = categoryConflict_sym [of b a] sameBarcode_sym [of b a] attributesConflict_sym [of "cd_attrs b" "cd_attrs a"]
    sameSize_sym [of "cd_attrs b" "cd_attrs a"] similarity_sym [of "a_cleanedName (cd_attrs b)" "a_cleanedName (cd_attrs a)"]
  show ?thesis
  proof (cases "cd_fingerprint a = cd_fingerprint b"; cases "a_brand (cd_attrs a) = a_brand (cd_attrs b)")
  qed (simp_all add: canMatch_def Let_def swap disj_commute)
qed

section \<open>Products that can never match\<close>

text \<open>A positive decision without a common barcode: no attribute the two names state is in conflict.\<close>

lemma canMatch_True:
  assumes "canMatch a b = (True, confidence, method)"
  shows "\<not> categoryConflict a b"
    and "sameBarcode a b \<and> confidence = 1 \<and> method = Barcode \<or> \<not> attributesConflict (cd_attrs a) (cd_attrs b)"
    and "65 / 100 \<le> confidence"
  using assms unfolding canMatch_def Let_def by (auto split: if_splits)

lemma similarity_bounds: "0 \<le> calculateTokenSimilarity s1 s2 \<and> calculateTokenSimilarity s1 s2 \<le> 1"
proof (cases "cleanTokens s1 = [] \<or> cleanTokens s2 = []")
  case True
  then show ?thesis by (auto simp: calculateTokenSimilarity_def)
next
  case False
  let ?t1 = "cleanTokens s1" and ?t2 = "cleanTokens s2"
  let ?both = "filter (\<lambda>t. t \<in> set ?t2) ?t1"
  have d: "distinct ?t1" "distinct ?t2" by (simp_all add: cleanTokens_def)
  have len: "length ?both = card (set ?both)" by (rule distinct_card [symmetric]) (simp add: d)
  have "card (set ?both) \<le> card (set (?t1 @ ?t2))" "card (set ?both) \<le> card (set ?t1)" "card (set ?both) \<le> card (set ?t2)"
    by (auto intro!: card_mono)
  then have le: "length ?both \<le> length (js_set (?t1 @ ?t2))" "length ?both \<le> min (length ?t1) (length ?t2)"
    unfolding len length_js_set using d by (simp_all add: distinct_card del: set_filter)
  have pos: "0 < length (js_set (?t1 @ ?t2))" "0 < min (length ?t1) (length ?t2)" using False by auto
  let ?j = "of_nat (length ?both) / of_nat (length (js_set (?t1 @ ?t2))) :: rat"
  let ?o = "of_nat (length ?both) / of_nat (min (length ?t1) (length ?t2)) :: rat"
  have "0 \<le> ?j" "?j \<le> 1" "0 \<le> ?o" "?o \<le> 1"
    using le pos by (simp_all del: of_nat_min add: divide_le_eq_1)
  moreover have "calculateTokenSimilarity s1 s2 = 1 / 2 * ?j + 1 / 2 * ?o"
    by (simp only: calculateTokenSimilarity_def Let_def False if_False)
  ultimately show ?thesis by linarith
qed

lemma canMatch_confidence: "canMatch a b = (m, confidence, method) \<Longrightarrow> 0 \<le> confidence \<and> confidence \<le> 1"
  using similarity_bounds [of "a_cleanedName (cd_attrs a)" "a_cleanedName (cd_attrs b)"]
  unfolding canMatch_def Let_def by (auto split: if_splits)

section \<open>The best group\<close>

text \<open>Group \<open>i\<close> is open to a candidate with this decision.\<close>

definition open_to :: "candidate \<Rightarrow> match_group list \<Rightarrow> nat \<Rightarrow> rat \<Rightarrow> match_method \<Rightarrow> bool" where
  "open_to cand gs i confidence method \<longleftrightarrow>
    i < length gs \<and> g_members (gs ! i) \<noteq> [] \<and> \<not> storeBlocks cand (gs ! i) \<and> 80 / 100 \<le> confidence \<and>
    canMatch cand (prepareCandidate (mb_raw (hd (g_members (gs ! i))))) = (True, confidence, method)"

lemma considerGroup_cases:
  assumes "considerGroup cand best (i, g) = best'"
  shows "best' = best \<or> (\<exists>confidence method. best' = (Some i, confidence, method) \<and> fst (snd best) < confidence \<and>
     g_members g \<noteq> [] \<and> \<not> storeBlocks cand g \<and> 80 / 100 \<le> confidence \<and>
     canMatch cand (prepareCandidate (mb_raw (hd (g_members g)))) = (True, confidence, method))"
  using assms by (auto simp: considerGroup_def Let_def split: prod.splits list.splits if_splits)

lemma bestGroup_open:
  assumes "bestGroup cand gs = (Some i, confidence, method)"
  shows "open_to cand gs i confidence method"
proof -
  have "foldl (considerGroup cand) best igs = (Some i, confidence, method) \<Longrightarrow>
      best = (Some i, confidence, method) \<or>
      (\<exists>g. (i, g) \<in> set igs \<and> g_members g \<noteq> [] \<and> \<not> storeBlocks cand g \<and> 80 / 100 \<le> confidence \<and>
         canMatch cand (prepareCandidate (mb_raw (hd (g_members g)))) = (True, confidence, method))" for best igs
  proof (induction igs arbitrary: best)
    case (Cons ig igs)
    obtain j g where ig: "ig = (j, g)" by (cases ig)
    from Cons.prems have "foldl (considerGroup cand) (considerGroup cand best (j, g)) igs = (Some i, confidence, method)"
      by (simp add: ig)
    from Cons.IH [OF this] considerGroup_cases [of cand best j g, OF refl] ig show ?case
      by (elim disjE exE conjE) auto
  qed simp
  from this [of "(None, 0, Deterministic)" "enumerate 0 gs"] assms obtain g where
    g: "(i, g) \<in> set (enumerate 0 gs)" "g_members g \<noteq> []" "\<not> storeBlocks cand g" "80 / 100 \<le> confidence"
       "canMatch cand (prepareCandidate (mb_raw (hd (g_members g)))) = (True, confidence, method)"
    by (auto simp: bestGroup_def)
  from g(1) have "i < length gs" "gs ! i = g" by (auto simp: in_set_enumerate_eq)
  with g show ?thesis by (simp add: open_to_def)
qed

text \<open>A candidate left without a group is one no group is open to.\<close>

lemma considerGroup_None:
  assumes "fst (foldl (considerGroup cand) best igs) = None" and "fst (snd best) = 0"
  shows "fst best = None \<and> foldl (considerGroup cand) best igs = best"
  using assms
proof (induction igs arbitrary: best)
  case (Cons ig igs)
  obtain j g where ig: "ig = (j, g)" by (cases ig)
  have keeps: "fst (foldl (considerGroup cand) b xs) \<noteq> None" if "fst b \<noteq> None" for b xs
    using that
  proof (induction xs arbitrary: b)
    case (Cons x xs)
    have "fst (considerGroup cand b x) \<noteq> None"
      using considerGroup_cases [of cand b "fst x" "snd x", OF refl] Cons.prems by auto
    then show ?case using Cons.IH by simp
  qed simp
  from considerGroup_cases [of cand best j g, OF refl] show ?case
  proof (elim disjE exE conjE)
    assume same: "considerGroup cand best (j, g) = best"
    with Cons show ?thesis by (simp add: ig)
  next
    fix confidence how assume "considerGroup cand best (j, g) = (Some j, confidence, how)"
    with keeps [of "considerGroup cand best (j, g)" igs] Cons.prems(1) ig show ?thesis by simp
  qed
qed simp

section \<open>Invariants of the grouping\<close>

text \<open>The stores of a group: a repeated one comes with the barcode of an earlier member.\<close>

definition store_once :: "raw_product list \<Rightarrow> bool" where
  "store_once rs \<longleftrightarrow>
    (\<forall>j < length rs. \<forall>i < j. rw_store (rs ! i) = rw_store (rs ! j) \<longrightarrow>
       truthy_str (rw_barcode (rs ! j)) \<and> (\<exists>k < j. rw_barcode (rs ! k) = rw_barcode (rs ! j)))"

abbreviation "raws g \<equiv> map mb_raw (g_members g)"

text \<open>What holds of every group while the grouping runs.\<close>

definition group_ok :: "match_group \<Rightarrow> bool" where
  "group_ok g \<longleftrightarrow>
    g_members g \<noteq> [] \<and>
    g_offers g = map offer_of (raws g) \<and>
    g_minPrice g = Min (rw_price ` set (raws g)) \<and>
    store_once (raws g) \<and>
    list_all (\<lambda>m. 80 / 100 \<le> mb_confidence m \<and> mb_confidence m \<le> 1 \<and>
                (mb_status m = Approved \<longleftrightarrow> 90 / 100 \<le> mb_confidence m)) (g_members g) \<and>
    list_all (\<lambda>m. canMatch (prepareCandidate (mb_raw m)) (prepareCandidate (hd (raws g))) =
                (True, mb_confidence m, mb_method m)) (tl (g_members g))"

lemma store_once_snoc:
  assumes "store_once rs"
    and "\<And>r. r \<in> set rs \<Longrightarrow> rw_store r = rw_store x \<Longrightarrow>
           truthy_str (rw_barcode x) \<and> rw_barcode x \<in> rw_barcode ` set rs"
  shows "store_once (rs @ [x])"
  unfolding store_once_def
proof (intro allI impI)
  fix j i assume j: "j < length (rs @ [x])" and i: "i < j"
    and same: "rw_store ((rs @ [x]) ! i) = rw_store ((rs @ [x]) ! j)"
  show "truthy_str (rw_barcode ((rs @ [x]) ! j)) \<and> (\<exists>k<j. rw_barcode ((rs @ [x]) ! k) = rw_barcode ((rs @ [x]) ! j))"
  proof (cases "j < length rs")
    case True
    then have "(rs @ [x]) ! j = rs ! j" "k < j \<Longrightarrow> (rs @ [x]) ! k = rs ! k" for k
      by (simp_all add: nth_append)
    with assms(1) True i same show ?thesis unfolding store_once_def by metis
  next
    case False
    then have jl: "j = length rs" using j by simp
    then have x: "(rs @ [x]) ! j = x" "(rs @ [x]) ! i = rs ! i" using i by (simp_all add: nth_append)
    have "rs ! i \<in> set rs" using i jl by simp
    from assms(2) [OF this] same x have t: "truthy_str (rw_barcode x)" "rw_barcode x \<in> rw_barcode ` set rs" by auto
    from t(2) obtain k where "k < length rs" "rw_barcode (rs ! k) = rw_barcode x"
      by (auto simp: in_set_conv_nth)
    then show ?thesis using t(1) x jl by (auto simp: nth_append intro!: exI [of _ k])
  qed
qed

lemma newGroup_ok: "cand = prepareCandidate raw \<Longrightarrow> group_ok (newGroup n cand)"
  by (simp add: group_ok_def newGroup_def Let_def store_once_def)

lemma storeBlocks_iff:
  assumes "g_offers g = map offer_of (raws g)" and "cand = prepareCandidate raw"
  shows "storeBlocks cand g \<longleftrightarrow>
    (\<exists>r \<in> set (raws g). rw_store r = rw_store raw) \<and>
    \<not> (truthy_str (rw_barcode raw) \<and> rw_barcode raw \<in> rw_barcode ` set (raws g))"
proof -
  have "truthy_str (cd_barcode cand) \<longleftrightarrow> truthy_str (rw_barcode raw)"
    "truthy_str (rw_barcode raw) \<Longrightarrow> cd_barcode cand = rw_barcode raw" "cd_raw cand = raw"
    using assms(2) by (auto simp: prepareCandidate_def Let_def or_undefined_def truthy_str_def split: if_splits)
  moreover have "rw_barcode raw \<in> rw_barcode ` set (raws g) \<longleftrightarrow> (\<exists>m \<in> set (g_members g). rw_barcode (mb_raw m) = rw_barcode raw)"
    by (auto simp: image_iff eq_commute)
  ultimately show ?thesis
    unfolding storeBlocks_def list_ex_iff using assms(1) by (auto simp: offer_of_def)
qed

lemma addMember_ok:
  assumes "group_ok g" and "cand = prepareCandidate raw" and "\<not> storeBlocks cand g" and "80 / 100 \<le> confidence"
    and "canMatch cand (prepareCandidate (mb_raw (hd (g_members g)))) = (True, confidence, how)"
  shows "group_ok (addMember cand confidence how g)"
proof -
  have raw: "cd_raw cand = raw" using assms(2) by (simp add: prepareCandidate_def Let_def)
  have ne: "g_members g \<noteq> []" "g_offers g = map offer_of (raws g)" and mp: "g_minPrice g = Min (rw_price ` set (raws g))"
    and once: "store_once (raws g)"
    using assms(1) by (auto simp: group_ok_def)
  have "store_once (raws g @ [raw])"
    using once assms(3) storeBlocks_iff [OF ne(2) assms(2)] by (intro store_once_snoc) auto
  moreover have "g_minPrice (addMember cand confidence how g) = Min (rw_price ` set (raws g @ [raw]))"
  proof -
    have "Min (insert (rw_price raw) (rw_price ` set (raws g))) = min (rw_price raw) (g_minPrice g)"
      unfolding mp using ne(1) by (intro Min_insert) auto
    then show ?thesis by (simp add: addMember_def Let_def raw min_def)
  qed
  moreover have "tl (g_members g @ [m]) = tl (g_members g) @ [m]" "hd (raws g @ [r]) = hd (raws g)" for m r
    using ne(1) by (cases "g_members g"; simp)+
  moreover have "mb_raw (hd (g_members g)) = hd (raws g)" using ne(1) by (simp add: hd_map)
  moreover have "confidence \<le> 1" using canMatch_confidence [OF assms(5)] by simp
  moreover have "raws (addMember cand confidence how g) = raws g @ [raw]"
    "g_offers (addMember cand confidence how g) = map offer_of (raws g @ [raw])"
    "g_members (addMember cand confidence how g) = g_members g @ [\<lparr>mb_raw = raw, mb_method = how,
       mb_confidence = confidence, mb_status = (if 90 / 100 \<le> confidence then Approved else Pending)\<rparr>]"
    by (simp_all add: addMember_def Let_def raw ne(2))
  ultimately show ?thesis
    using assms(1,2,4,5) unfolding group_ok_def by (simp del: set_append)
qed

abbreviation "all_raws gs \<equiv> concat (map raws gs)"

lemma mset_concat_update:
  "i < length xs \<Longrightarrow> mset (f y) = mset (f (xs ! i)) + d \<Longrightarrow>
   mset (concat (map f (xs[i := y]))) = mset (concat (map f xs)) + d"
proof (induction xs arbitrary: i)
  case (Cons x xs)
  then show ?case by (cases i) (simp_all add: union_assoc union_commute)
qed simp

text \<open>One step: invariants, no product lost or repeated, identifiers in order.\<close>

definition grouping_ok :: "raw_product list \<Rightarrow> match_group list \<Rightarrow> bool" where
  "grouping_ok rs gs \<longleftrightarrow>
    list_all group_ok gs \<and> mset (all_raws gs) = mset rs \<and>
    map g_id gs = map (\<lambda>i. la ''canon_'' @ show_nat (int i + 1)) [0..<length gs]"

lemma placeCandidate_ok:
  assumes "grouping_ok rs gs" and "cand = prepareCandidate raw"
  shows "grouping_ok (rs @ [raw]) (placeCandidate gs cand)"
proof -
  obtain i confidence how where best: "bestGroup cand gs = (i, confidence, how)" by (cases "bestGroup cand gs")
  have raw: "cd_raw cand = raw" using assms(2) by (simp add: prepareCandidate_def Let_def)
  show ?thesis
  proof (cases i)
    case None
    then have p: "placeCandidate gs cand = gs @ [newGroup (length gs) cand]" using best by (simp add: placeCandidate_def)
    have n: "raws (newGroup (length gs) cand) = [raw]" "g_id (newGroup (length gs) cand) = la ''canon_'' @ show_nat (int (length gs) + 1)"
      by (simp_all add: newGroup_def Let_def raw)
    show ?thesis using assms(1) newGroup_ok [OF assms(2)] by (simp add: grouping_ok_def p n)
  next
    case (Some k)
    then have o': "open_to cand gs k confidence how" using best by (intro bestGroup_open) simp
    then have k: "k < length gs" by (simp add: open_to_def)
    have p: "placeCandidate gs cand = gs[k := addMember cand confidence how (gs ! k)]"
      using best Some by (simp add: placeCandidate_def)
    have "group_ok (gs ! k)" using assms(1) k by (simp add: grouping_ok_def list_all_length)
    then have "group_ok (addMember cand confidence how (gs ! k))"
      using o' assms(2) by (intro addMember_ok) (auto simp: open_to_def)
    then have "list_all group_ok (placeCandidate gs cand)"
      using assms(1) k by (auto simp: p grouping_ok_def list_all_length nth_list_update)
    moreover have "mset (all_raws (placeCandidate gs cand)) = mset (all_raws gs) + {#raw#}"
      unfolding p by (rule mset_concat_update [OF k]) (simp add: addMember_def Let_def raw)
    moreover have "map g_id (placeCandidate gs cand) = map g_id gs"
    proof -
      have "g_id (addMember cand confidence how (gs ! k)) = map g_id gs ! k"
        using k by (simp add: addMember_def Let_def)
      then show ?thesis unfolding p map_update by (simp only: list_update_id)
    qed
    ultimately show ?thesis using assms(1) by (simp add: grouping_ok_def p)
  qed
qed

lemma foldl_place_ok:
  "grouping_ok rs gs \<Longrightarrow> grouping_ok (rs @ raws') (foldl placeCandidate gs (map prepareCandidate raws'))"
proof (induction raws' arbitrary: rs gs)
  case (Cons r raws')
  from placeCandidate_ok [OF Cons.prems refl, of r] Cons.IH [of "rs @ [r]"] show ?case by simp
qed simp

lemma groupProducts_ok: "grouping_ok raws' (foldl placeCandidate [] (map prepareCandidate raws'))"
  using foldl_place_ok [of "[]" "[]" raws'] by (simp add: grouping_ok_def)

interpretation offer_price_order: ranked "\<lambda>a b. go_price a \<le> go_price b"
  by (rule ranked_key)

end
