(* ===== verification/Scrapers.thy ===== *)
theory Scrapers
  imports Matcher
begin

text \<open>
  The backend's importers (\<open>backend/src/modules/import/scrapers\<close>): what they make of an item
  and how they walk the shops' pages. The HTTP client and the HTML parser are parameters that
  give the items of a page, or \<open>None\<close> when the request throws.
\<close>

section \<open>Dina\<close>

record dina_item =
  di_id :: "jstr option"
  di_xid :: "jstr option"
  di_name :: "jstr option"
  di_slug :: "jstr option"
  di_price :: jval
  di_oldPrice :: jval
  di_price_type :: "jstr option"
  di_isWeightProduct :: bool
  di_previewUrl :: "jstr option"
  di_imageUrl :: "jstr option"

definition dina_category_rules :: "jstr \<Rightarrow> (bool \<times> jstr) list" where
  "dina_category_rules lower =
      [(has lower [ru ''mayonez''], la ''other''),
       (has lower [ru ''hleb'', ru ''baton'', ru ''lepeSk'', ru ''baget'', ru ''buloCk'', ru ''Ciabatta''], la ''bread''),
       (has lower [ru ''Ayc'', ru ''jLmYrtK''], la ''eggs''),
       (has lower [ru ''kefir'', ru ''tvorog'', ru ''smetan'', ru ''tan '', ru ''tan,'', ru ''ayran'', ru ''sYr '', ru ''sYr,'', ru ''maslo slivoCn''], la ''other''),
       (has lower [ru ''molok'', la ''nemoloko'', ru ''nemoloko'', ru ''sVt'', ru ''sguWen''], la ''milk''),
       (has lower [ru ''sahar'', ru ''rafinad''] \<or> has lower [ru ''solx'', ru ''tLz''] \<and> \<not> has lower [ru ''fasol''] \<and> \<not> has lower [ru ''hlebcY''], la ''sugar''),
       (has lower [ru ''maslo podsolneC'', ru ''maslo rastitelxn'', ru ''maslo olivkov''], la ''oil'')]"

definition detectCategory :: "jstr \<Rightarrow> jstr" where
  "detectCategory name = nullish (first_rule (dina_category_rules (to_lower name))) (la ''other'')"

definition rx_kg_in_name :: rx where
  "rx_kg_in_name = sq [Grp 1 (sq [many1 (Ch c_digit), opt (sq [lit (la ''.''), many1 (Ch c_digit)])]), many (Ch c_space), alts [lit (ru ''kg''), lit (la ''kg'')]]"

definition rx_g_in_name :: rx where
  "rx_g_in_name = sq [Grp 1 (sq [many1 (Ch c_digit), opt (sq [lit (la ''.''), many1 (Ch c_digit)])]), many (Ch c_space), alts [lit (ru ''g''), lit (la ''g''), lit (ru ''gr'')]]"

text \<open>What a price per gram is multiplied by.\<close>

definition weightMultiplier :: "jstr \<Rightarrow> rat" where
  "weightMultiplier name =
    (case rx_group 1 rx_kg_in_name (to_lower name) of
       Some w \<Rightarrow> dec_val w * 1000
     | None \<Rightarrow> (case rx_group 1 rx_g_in_name (to_lower name) of
         Some w \<Rightarrow> if dec_val w > 50 then dec_val w else 1000
       | None \<Rightarrow> 1000))"

definition dinaOldPrice :: "rat \<Rightarrow> jval \<Rightarrow> rat option" where
  "dinaOldPrice multiplier v =
    (if \<not> truthy v then None
     else case to_number v of
            Fin q \<Rightarrow> Some (if q = 0 then 0 else of_int (js_round (q * multiplier)))
          | _ \<Rightarrow> None)"

text \<open>\<open>item.id || item.xid\<close> is printed by \<open>String\<close>; an old price that is not a number is left out.\<close>

definition processProductItem :: "dina_item \<Rightarrow> raw_product option" where
  "processProductItem item =
    (let name = trim (nullish (di_name item) [])
     in case to_number (di_price item) of
          Fin rawPrice \<Rightarrow>
            if name = [] \<or> rawPrice \<le> 0 then None
            else
              let isWeight = (di_price_type item = Some (la ''weight'') \<or> di_isWeightProduct item);
                  multiplier = (if isWeight then weightMultiplier name else 1)
              in Some \<lparr>rw_store = DINA,
                       rw_sourceProductId = (if truthy_str (di_id item) then the (di_id item)
                                             else nullish (di_xid item) (la ''undefined'')),
                       rw_sourceUrl = (if truthy_str (di_slug item)
                         then Some (la ''https://dinamarket.kz/product/'' @ the (di_slug item)) else None),
                       rw_name = name, rw_brand = None, rw_category = Some (detectCategory name),
                       rw_price = of_int (js_round (rawPrice * multiplier)),
                       rw_oldPrice = dinaOldPrice multiplier (di_oldPrice item),
                       rw_imageUrl = (if truthy_str (di_previewUrl item) then di_previewUrl item
                                      else or_undefined (di_imageUrl item)),
                       rw_barcode = None\<rparr>
        | _ \<Rightarrow> None)"

text \<open>The identifiers seen and the products kept so far.\<close>

type_synonym collected = "jstr list \<times> raw_product list"

definition keepProduct :: "collected \<Rightarrow> raw_product option \<Rightarrow> collected" where
  "keepProduct st product =
    (case product of
       None \<Rightarrow> st
     | Some p \<Rightarrow> if rw_sourceProductId p \<in> set (fst st) then st
                 else (fst st @ [rw_sourceProductId p], snd st @ [p]))"

definition keepItems :: "collected \<Rightarrow> dina_item list \<Rightarrow> collected" where
  "keepItems st items = foldl (\<lambda>st item. keepProduct st (processProductItem item)) st items"

datatype dina_request = CategoryPage jstr nat nat | TopPage nat | Keyword jstr

definition categoryConfigs :: "(jstr \<times> jstr \<times> nat) list" where
  "categoryConfigs =
    [(la ''1'', la ''vegetables'', 2),
     (la ''3'', la ''bread'', 2),
     (la ''4'', la ''meat'', 2),
     (la ''6'', la ''milk'', 3),
     (la ''7'', la ''groats'', 3),
     (la ''8'', la ''oil'', 2),
     (la ''13'', la ''other'', 1)]"

text \<open>Pages of a category: two attempts each; an empty page (or two failures) ends the category.\<close>

fun categoryPages :: "(dina_request \<Rightarrow> dina_item list option) \<Rightarrow> jstr \<Rightarrow> nat list \<Rightarrow> collected \<Rightarrow> collected" where
  "categoryPages post cat [] st = st"
| "categoryPages post cat (page # pages) st =
    (let edges = (case post (CategoryPage cat page 1) of
                    Some es \<Rightarrow> es
                  | None \<Rightarrow> nullish (post (CategoryPage cat page 2)) [])
     in if edges = [] then st else categoryPages post cat pages (keepItems st edges))"

text \<open>General pages: a failure ends them.\<close>

fun topPages :: "(dina_request \<Rightarrow> dina_item list option) \<Rightarrow> nat list \<Rightarrow> collected \<Rightarrow> collected" where
  "topPages post [] st = st"
| "topPages post (page # pages) st =
    (case post (TopPage page) of None \<Rightarrow> st | Some es \<Rightarrow> topPages post pages (keepItems st es))"

definition targetKeywords :: "jstr list" where
  "targetKeywords = [ru ''moloko'', la ''foodmaster'', ru ''hleb'', ru ''baton'', ru ''Ayca'', ru ''maslo podsolneCnoe'', ru ''sahar'', la ''nemoloko'', ru ''Ekoniva'', ru ''dostYk'', ru ''savuSkin'']"

definition keywordSearch :: "(dina_request \<Rightarrow> dina_item list option) \<Rightarrow> collected \<Rightarrow> jstr \<Rightarrow> collected" where
  "keywordSearch post st kw = (case post (Keyword kw) of None \<Rightarrow> st | Some es \<Rightarrow> keepItems st es)"

definition dinaFetchProducts :: "(dina_request \<Rightarrow> dina_item list option) \<Rightarrow> raw_product list" where
  "dinaFetchProducts post =
    (let byCategory = foldl (\<lambda>st (cat, _, pages). categoryPages post cat [1..<pages + 1] st) ([], []) categoryConfigs;
         withTop = topPages post [1, 2, 3] byCategory
     in snd (foldl (keywordSearch post) withTop targetKeywords))"

section \<open>Dana\<close>

text \<open>What the selectors of the source find in one element of a catalogue page.\<close>

record dana_element =
  de_dataId :: "jstr option"
  de_innerDataId :: "jstr option"
  de_idAttr :: "jstr option"
  de_title :: jstr
  de_href :: "jstr option"
  de_priceText :: jstr
  de_oldPriceText :: jstr
  de_imageSrc :: "jstr option"
  de_imageDataSrc :: "jstr option"

definition baseUrl :: jstr where
  "baseUrl = la ''https://dana-market.kz''"

definition categoryUrls :: "(jstr \<times> jstr) list" where
  "categoryUrls =
    [(la ''milk'', la ''/catalog/produkty_pitaniya_/molochnye_produkty/moloko/''),
     (la ''other'', la ''/catalog/produkty_pitaniya_/molochnye_produkty/smetana/''),
     (la ''other'', la ''/catalog/produkty_pitaniya_/molochnye_produkty/tvorog_i_tvorozhnye_izdeliya/''),
     (la ''other'', la ''/catalog/produkty_pitaniya_/molochnye_produkty/maslo_i_zhiry/''),
     (la ''bread'', la ''/catalog/produkty_pitaniya_/khlebobulochnye_izdeliya/khleb_lepyeshki_/''),
     (la ''eggs'', la ''/catalog/produkty_pitaniya_/molochnye_produkty/yaytsa/''),
     (la ''sugar'', la ''/catalog/produkty_pitaniya_/bakaleya/sakhar_sol/''),
     (la ''sugar'', la ''/catalog/produkty_pitaniya_/pripravy_spetsii_sousy_zapravki/sol_drozhi_i_rozrykhliteli/''),
     (la ''oil'', la ''/catalog/produkty_pitaniya_/bakaleya/rasitelnye_masla/''),
     (la ''groats'', la ''/catalog/produkty_pitaniya_/bakaleya/krupy/''),
     (la ''groats'', la ''/catalog/produkty_pitaniya_/bakaleya/makaronnye_izdeliya/''),
     (la ''groats'', la ''/catalog/produkty_pitaniya_/bakaleya/muka_konditerskie_dobavki/''),
     (la ''vegetables'', la ''/catalog/produkty_pitaniya_/ovoshchi_frukty_i_yagody/''),
     (la ''meat'', la ''/catalog/produkty_pitaniya_/myaso_i_ptitsa/''),
     (la ''other'', la ''/catalog/produkty_pitaniya_/bakaleya/chay_kofe_kakao/'')]"

definition dana_category_rules :: "jstr \<Rightarrow> (bool \<times> jstr) list" where
  "dana_category_rules lower =
      [(has lower [ru ''mayonez''], la ''other''),
       (has lower [ru ''hleb'', ru ''baton'', ru ''lepeSk''], la ''bread''),
       (has lower [ru ''Ayc'', ru ''jLmYrtK''], la ''eggs''),
       (has lower [ru ''kefir'', ru ''tvorog'', ru ''tvoroj'', ru ''smetan'', ru ''tan'', ru ''ayran'', ru ''sYr'', ru ''maslo slivoCn'', ru ''sarY may'', ru ''krestxAnsk''], la ''other''),
       (has lower [ru ''molok'', la ''nemoloko'', ru ''nemoloko'', ru ''sVt'', ru ''sguWen''], la ''milk''),
       (has lower [ru ''solx'', ru ''tLz'', ru ''sahar'', ru ''rafinad''] \<and> \<not> has lower [ru ''fasol''] \<and> \<not> has lower [ru ''hlebcY''], la ''sugar''),
       (has lower [ru ''maslo podsolneC'', ru ''maslo rastitelxn'', ru ''olivkov''], la ''oil'')]"

definition refineCategory :: "jstr \<Rightarrow> jstr \<Rightarrow> jstr" where
  "refineCategory name assignedSlug =
    nullish (first_rule (dana_category_rules (to_lower name)))
      (if assignedSlug \<in> set [la ''milk'', la ''bread'', la ''eggs'', la ''sugar'', la ''oil''] then assignedSlug else la ''other'')"

definition digits_of :: "jstr \<Rightarrow> jstr" where
  "digits_of = filter digit_ch"

definition danaRawId :: "dana_element \<Rightarrow> jstr option" where
  "danaRawId el =
    (if truthy_str (de_dataId el) then de_dataId el
     else if truthy_str (de_innerDataId el) then de_innerDataId el
     else or_undefined (map_option digits_of (de_idAttr el)))"

definition danaImage :: "dana_element \<Rightarrow> jstr option" where
  "danaImage el =
    (let img = (if truthy_str (de_imageSrc el) then de_imageSrc el else or_undefined (de_imageDataSrc el))
     in map_option (\<lambda>u. if starts_with u (la ''http'') then u else baseUrl @ u) img)"

text \<open>An identifier is marked as seen before the element is checked.\<close>

definition danaElement :: "jstr \<Rightarrow> collected \<Rightarrow> dana_element \<Rightarrow> collected" where
  "danaElement slug st el =
    (case danaRawId el of
       None \<Rightarrow> st
     | Some rawId \<Rightarrow>
         let sourceId = la ''dana_'' @ rawId
         in if sourceId \<in> set (fst st) then st
            else
              let seen = fst st @ [sourceId];
                  name = trim (de_title el);
                  price = digits_val (digits_of (de_priceText el));
                  oldText = digits_of (de_oldPriceText el)
              in if name = [] \<or> price \<le> 0 then (seen, snd st)
                 else (seen, snd st @
                   [\<lparr>rw_store = DANA, rw_sourceProductId = sourceId,
                     rw_sourceUrl = (if truthy_str (de_href el) then Some (baseUrl @ the (de_href el)) else None),
                     rw_name = name, rw_brand = None, rw_category = Some (refineCategory name slug),
                     rw_price = of_int price,
                     rw_oldPrice = (if oldText = [] then None else Some (of_int (digits_val oldText))),
                     rw_imageUrl = danaImage el, rw_barcode = None\<rparr>]))"

definition danaFetchProducts :: "(jstr \<Rightarrow> dana_element list option) \<Rightarrow> raw_product list" where
  "danaFetchProducts get =
    snd (foldl (\<lambda>st (slug, path). case get (baseUrl @ path) of
                  None \<Rightarrow> st
                | Some els \<Rightarrow> foldl (danaElement slug) st els) ([], []) categoryUrls)"

section \<open>Fix Price\<close>

record fixprice_row =
  fx_sourceProductId :: "jstr option"
  fx_id :: "jstr option"
  fx_sourceUrl :: "jstr option"
  fx_name :: jstr
  fx_brand :: "jstr option"
  fx_category :: "jstr option"
  fx_price :: rat
  fx_oldPrice :: "rat option"
  fx_imageUrl :: "jstr option"
  fx_barcode :: "jstr option"

definition fixpriceProduct :: "fixprice_row \<Rightarrow> raw_product" where
  "fixpriceProduct p =
    \<lparr>rw_store = FIX_PRICE,
     rw_sourceProductId = (if truthy_str (fx_sourceProductId p) then the (fx_sourceProductId p)
                           else nullish (fx_id p) (la ''undefined'')),
     rw_sourceUrl = fx_sourceUrl p, rw_name = fx_name p, rw_brand = or_undefined (fx_brand p),
     rw_category = Some (or_else (fx_category p) (la ''other'')), rw_price = fx_price p,
     rw_oldPrice = (if truthy_num (fx_oldPrice p) then fx_oldPrice p else None),
     rw_imageUrl = or_undefined (fx_imageUrl p), rw_barcode = fx_barcode p\<rparr>"

text \<open>The file is missing (\<open>None\<close>) or holds rows.\<close>

definition fixpriceLoad :: "fixprice_row list option \<Rightarrow> raw_product list option" where
  "fixpriceLoad file = map_option (map fixpriceProduct) file"

section \<open>What the importers deliver\<close>

text \<open>Every product kept is usable, its identifier is recorded, and identifiers are not repeated.\<close>

definition collected_ok :: "store_code \<Rightarrow> collected \<Rightarrow> bool" where
  "collected_ok store st \<longleftrightarrow>
    distinct (map rw_sourceProductId (snd st)) \<and>
    set (map rw_sourceProductId (snd st)) \<subseteq> set (fst st) \<and>
    list_all (\<lambda>p. rw_store p = store \<and> rw_name p \<noteq> [] \<and> trim (rw_name p) = rw_name p \<and> 0 \<le> rw_price p) (snd st)"

lemma collected_start [simp]: "collected_ok store ([], [])"
  by (simp add: collected_ok_def)

lemma weightMultiplier_nonneg: "0 \<le> weightMultiplier name"
proof -
  have "rx_caps (\<lambda>n. decimal_ch) rx_kg_in_name"
    by (simp add: rx_kg_in_name_def opt_def many_def many1_def decimal_ch_def lit_def la_def ru_def chr_def)
  then have "0 \<le> dec_val w" if "rx_group 1 rx_kg_in_name (to_lower name) = Some w" for w
    using that by (rule group1_decimal)
  then show ?thesis by (simp add: weightMultiplier_def split: option.split)
qed

lemma processProductItem_ok:
  assumes "processProductItem item = Some p"
  shows "rw_store p = DINA" and "rw_name p \<noteq> []" and "trim (rw_name p) = rw_name p" and "0 \<le> rw_price p"
proof -
  let ?m = "if di_price_type item = Some (la ''weight'') \<or> di_isWeightProduct item
            then weightMultiplier (trim (nullish (di_name item) [])) else 1"
  have m: "0 \<le> ?m" by (simp add: weightMultiplier_nonneg)
  obtain q where q: "to_number (di_price item) = Fin q" "\<not> q \<le> 0" "trim (nullish (di_name item) []) \<noteq> []"
    using assms by (auto simp: processProductItem_def Let_def split: jnum.splits if_splits)
  with assms have p: "rw_store p = DINA" "rw_name p = trim (nullish (di_name item) [])"
    "rw_price p = of_int (js_round (q * ?m))"
    by (auto simp: processProductItem_def Let_def)
  show "rw_store p = DINA" "rw_name p \<noteq> []" "trim (rw_name p) = rw_name p" using p q(3) by simp_all
  have "0 \<le> js_round (q * ?m)" using q(2) m by (intro js_round_nonneg mult_nonneg_nonneg) auto
  then show "0 \<le> rw_price p" using p(3) by simp
qed

lemma keepProduct_ok:
  assumes "collected_ok DINA st"
  shows "collected_ok DINA (keepProduct st (processProductItem item))"
proof (cases "processProductItem item")
  case (Some p)
  from processProductItem_ok [OF Some] assms show ?thesis
    unfolding Some keepProduct_def collected_ok_def by auto
qed (use assms in \<open>simp add: keepProduct_def\<close>)

lemma keepItems_ok: "collected_ok DINA st \<Longrightarrow> collected_ok DINA (keepItems st items)"
  unfolding keepItems_def by (induction items arbitrary: st) (simp_all add: keepProduct_ok)

lemma categoryPages_ok: "collected_ok DINA st \<Longrightarrow> collected_ok DINA (categoryPages post cat pages st)"
  by (induction post cat pages st rule: categoryPages.induct) (simp_all add: Let_def keepItems_ok)

lemma topPages_ok: "collected_ok DINA st \<Longrightarrow> collected_ok DINA (topPages post pages st)"
  by (induction post pages st rule: topPages.induct) (simp_all add: keepItems_ok split: option.splits)

text \<open>A loop whose body keeps an invariant keeps it.\<close>

lemma foldl_keeps: "I st \<Longrightarrow> (\<And>st x. I st \<Longrightarrow> I (f st x)) \<Longrightarrow> I (foldl f st xs)"
  by (induction xs arbitrary: st) simp_all

lemma some_seen: "collected_ok store st \<Longrightarrow> \<exists>seen. collected_ok store (seen, snd st)"
  by (cases st) auto

lemma dinaFetch_ok: "\<exists>seen. collected_ok DINA (seen, dinaFetchProducts post)"
proof -
  have kw: "collected_ok DINA (keywordSearch post st kw)" if "collected_ok DINA st" for st kw
    using that by (simp add: keywordSearch_def keepItems_ok split: option.splits)
  have "collected_ok DINA (foldl (keywordSearch post) (topPages post [1, 2, 3]
      (foldl (\<lambda>st (cat, _, pages). categoryPages post cat [1..<pages + 1] st) ([], []) categoryConfigs)) targetKeywords)"
    by (intro foldl_keeps [where I = "collected_ok DINA"] kw topPages_ok) (auto intro: categoryPages_ok)
  then show ?thesis unfolding dinaFetchProducts_def Let_def by (rule some_seen)
qed

lemma danaElement_ok:
  assumes "collected_ok DANA st"
  shows "collected_ok DANA (danaElement slug st el)"
proof (cases "danaRawId el")
  case (Some i)
  show ?thesis
  proof (cases "la ''dana_'' @ i \<in> set (fst st) \<or> trim (de_title el) = [] \<or> digits_val (digits_of (de_priceText el)) \<le> 0")
    case True
    with Some assms show ?thesis by (auto simp: danaElement_def Let_def collected_ok_def)
  next
    case False
    with Some assms show ?thesis
      by (auto simp: danaElement_def Let_def collected_ok_def not_le)
  qed
qed (use assms in \<open>simp add: danaElement_def\<close>)

lemma danaFetch_ok: "\<exists>seen. collected_ok DANA (seen, danaFetchProducts get)"
proof -
  have page: "collected_ok DANA (foldl (danaElement slug) st els)" if "collected_ok DANA st" for slug st els
    using that by (induction els arbitrary: st) (simp_all add: danaElement_ok)
  have "collected_ok DANA (foldl (\<lambda>st (slug, path). case get (baseUrl @ path) of
                  None \<Rightarrow> st | Some els \<Rightarrow> foldl (danaElement slug) st els) ([], []) categoryUrls)"
    by (rule foldl_keeps [where I = "collected_ok DANA"])
       (simp_all add: page split: option.split prod.split)
  then show ?thesis unfolding danaFetchProducts_def by (rule some_seen)
qed

end
