(* ===== verification/ImportProperties.thy ===== *)
theory ImportProperties
  imports Scrapers
begin

text \<open>
  The properties of the import side of the backend: reading product names, deciding whether two
  products are the same, grouping them, and what the shop importers deliver.
\<close>

lemma raws_sortOffers [simp]: "raws (sortOffers g) = raws g" "g_id (sortOffers g) = g_id g"
  "g_minPrice (sortOffers g) = g_minPrice g" "g_members (sortOffers g) = g_members g"
  by (simp_all add: sortOffers_def)

definition barcode_candidate :: candidate where
  "barcode_candidate =
    \<lparr>cd_raw = \<lparr>rw_store = DINA, rw_sourceProductId = la ''1'', rw_sourceUrl = None, rw_name = la ''x'', rw_brand = None,
               rw_category = None, rw_price = 1, rw_oldPrice = None, rw_imageUrl = None, rw_barcode = Some (la ''487'')\<rparr>,
     cd_attrs = no_attributes, cd_fingerprint = [], cd_barcode = Some (la ''487'')\<rparr>"

section \<open>Properties\<close>

text \<open>Grouping loses and repeats nothing: every imported product is a member of exactly one
  position of exactly one group, and the groups are numbered in order.\<close>

theorem grouping_is_a_partition:
  "mset (concat (map raws (groupProducts products))) = mset products \<and>
   map g_id (groupProducts products) =
     map (\<lambda>i. la ''canon_'' @ show_nat (int i + 1)) [0..<length (groupProducts products)]"
proof -
  have "grouping_ok products (foldl placeCandidate [] (map prepareCandidate products))"
    by (rule groupProducts_ok)
  then show ?thesis
    by (simp add: grouping_ok_def groupProducts_def comp_def)
qed

text \<open>Every group is consistent: it has members, its offers are those of its members by rising
  price, its minimum price is the least of them, a store appears twice only with a barcode
  already in the group, and every later member matches the first one with the confidence
  recorded, at least 80 percent, approved from 90.\<close>

theorem groups_are_consistent:
  "list_all (\<lambda>g.
     g_members g \<noteq> [] \<and>
     mset (g_offers g) = mset (map offer_of (raws g)) \<and>
     sorted_wrt (\<lambda>a b. go_price a \<le> go_price b) (g_offers g) \<and>
     g_minPrice g = Min (rw_price ` set (raws g)) \<and>
     store_once (raws g) \<and>
     list_all (\<lambda>m. 80 / 100 \<le> mb_confidence m \<and> mb_confidence m \<le> 1 \<and>
                 (mb_status m = Approved \<longleftrightarrow> 90 / 100 \<le> mb_confidence m)) (g_members g) \<and>
     list_all (\<lambda>m. canMatch (prepareCandidate (mb_raw m)) (prepareCandidate (hd (raws g))) =
                 (True, mb_confidence m, mb_method m)) (tl (g_members g)))
   (groupProducts products)"
proof -
  have "list_all group_ok (foldl placeCandidate [] (map prepareCandidate products))"
    using groupProducts_ok [of products] by (simp add: grouping_ok_def)
  then show ?thesis
    unfolding groupProducts_def list.pred_map comp_def raws_sortOffers
    by (rule list.pred_mono_strong)
       (simp add: group_ok_def sortOffers_def offer_price_order.sorted_js_sort)
qed

text \<open>Whether two products match, how confidently and by which method does not depend on the order
  they are compared in.\<close>

theorem matching_is_symmetric: "canMatch a b = canMatch b a"
  by (rule canMatch_sym)

text \<open>Two products are declared the same only within one known category, and unless they share a
  barcode none of the attributes their names state is in conflict: type, tea, count, measure,
  volume, weight, fat, flavour, oil, bread, brand.\<close>

theorem match_has_no_conflict:
  assumes "canMatch a b = (True, confidence, method)"
  shows "\<not> categoryConflict a b \<and> 65 / 100 \<le> confidence \<and> confidence \<le> 1 \<and>
    (sameBarcode a b \<and> method = Barcode \<or> \<not> attributesConflict (cd_attrs a) (cd_attrs b))"
  using canMatch_True [OF assms] canMatch_confidence [OF assms] by auto

theorem match_has_no_conflict_witness:
  "\<not> categoryConflict barcode_candidate barcode_candidate \<and> sameBarcode barcode_candidate barcode_candidate"
proof -
  have "canMatch barcode_candidate barcode_candidate = (True, 1, Barcode)" by code_simp
  moreover have "sameBarcode barcode_candidate barcode_candidate" by code_simp
  ultimately show ?thesis using match_has_no_conflict by blast
qed

text \<open>The amounts read from a name are sane: volumes, weights and counts are not negative, a volume
  read in litres or a weight in kilograms is at most 50 of them, and a fat content lies between
  0.1 and 99.9 percent.\<close>

theorem amounts_are_sane:
  "(case a_volumeMl (normalize name brand) of None \<Rightarrow> True
    | Some v \<Rightarrow> 0 \<le> v \<and> (rx_group 1 rx_litres (cleanName name) = None \<or> v \<le> 50000)) \<and>
   (case a_weightGrams (normalize name brand) of None \<Rightarrow> True
    | Some w \<Rightarrow> 0 \<le> w \<and> (rx_group 1 rx_kilos (cleanName name) = None \<or> w \<le> 50000)) \<and>
   (case a_packageCount (normalize name brand) of None \<Rightarrow> True | Some n \<Rightarrow> 0 \<le> n) \<and>
   (case a_fatPercent (normalize name brand) of None \<Rightarrow> True | Some f \<Rightarrow> 1 / 10 \<le> f \<and> f \<le> 999 / 10)"
proof (cases "name = []")
  case True
  then show ?thesis by (simp add: normalize_def no_attributes_def)
next
  case False
  let ?clean = "cleanName name"
  have digits: "rx_caps (\<lambda>n. digit_ch) rx_count" "rx_caps (\<lambda>n. digit_ch) rx_egg_pack"
    by (simp_all add: rx_count_def rx_egg_pack_def many1_def many_def lit_def la_def ru_def chr_def numeral_eq_Suc)
  have count: "0 \<le> n" if "countOf t ?clean = Some n" for t n
    using that rx_group_chars [OF digits(1)] rx_group_chars [OF digits(2)]
    by (auto simp: countOf_def intro!: digits_val_nonneg split: option.splits if_splits)
  have fat: "1 / 10 \<le> f \<and> f \<le> 999 / 10" if "fatOf ?clean = Some f" for f
    using that by (auto simp: fatOf_def split: option.splits if_splits)
  have vol: "0 \<le> v \<and> (rx_group 1 rx_litres ?clean = None \<or> v \<le> 50000)"
    if "sizeOf rx_litres rx_millilitres ?clean = Some v" for v
    using sizeOf_bounds [OF caps_decimal(1,2) that] by blast
  have wt: "0 \<le> v \<and> (rx_group 1 rx_kilos ?clean = None \<or> v \<le> 50000)"
    if "sizeOf rx_kilos rx_grams ?clean = Some v" for v
    using sizeOf_bounds [OF caps_decimal(3,4) that] by blast
  have "a_volumeMl (normalize name brand) = sizeOf rx_litres rx_millilitres ?clean"
    "a_weightGrams (normalize name brand) = sizeOf rx_kilos rx_grams ?clean"
    "a_packageCount (normalize name brand) = countOf (detectProductType ?clean) ?clean"
    "a_fatPercent (normalize name brand) = fatOf ?clean"
    using False by (simp_all add: normalize_def Let_def)
  then show ?thesis
    using count fat vol wt by (simp split: option.splits)
qed

text \<open>The product type of crispbread is never detected: every name with its word contains the word for
  bread, and the rule for bread comes first.\<close>

theorem crispbread_never_detected: "detectProductType clean \<noteq> Some (la ''crispbread'')"
  by (rule not_crispbread)

text \<open>The yoghurt brand whose pattern stands between word boundaries is never recognised in a name
  without Latin letters, digits or underscores, because those are all a boundary knows.\<close>

theorem cyrillic_word_boundary_misses_brand:
  assumes "list_all (\<lambda>c. \<not> word_ch (lower_ch c)) text"
  shows "brand_of text \<noteq> Some chudo"
  using assms by (intro brand_of_not_chudo) (simp add: list_all_iff)

theorem cyrillic_word_boundary_misses_brand_witness: "brand_of (ru ''Cudo'') \<noteq> Some chudo"
  by (rule cyrillic_word_boundary_misses_brand) code_simp

text \<open>Whatever the two shops answer, an import never repeats a product identifier, and each product
  has the shop's code, a trimmed non-empty name and a price that is not negative.\<close>

theorem imports_are_clean:
  "distinct (map rw_sourceProductId (dinaFetchProducts post)) \<and>
   distinct (map rw_sourceProductId (danaFetchProducts get)) \<and>
   list_all (\<lambda>p. rw_store p = DINA \<and> rw_name p \<noteq> [] \<and> trim (rw_name p) = rw_name p \<and> 0 \<le> rw_price p) (dinaFetchProducts post) \<and>
   list_all (\<lambda>p. rw_store p = DANA \<and> rw_name p \<noteq> [] \<and> trim (rw_name p) = rw_name p \<and> 0 \<le> rw_price p) (danaFetchProducts get)"
  using dinaFetch_ok [of post] danaFetch_ok [of get] by (auto simp: collected_ok_def)

end
