(* ===== verification/SourceFile.thy ===== *)
theory SourceFile
  imports JsNumber
begin

text \<open>
  The pipeline's source files (\<open>pipeline/src/types.ts\<close>, \<open>source-file.ts\<close>): what a scraper
  collects from one shop, the schema a file must satisfy, and the atomic way it is written.
  \<open>JSON\<close> text and the schema library's check of the shape are parameters (\<open>render\<close>, \<open>decode\<close>);
  so are its checks of URLs and timestamps. The constraints of the schema are written out.
\<close>

section \<open>Errors\<close>

text \<open>\<open>ZodError\<close> is thrown by a schema, \<open>NoFile\<close> by reading an absent file.\<close>

datatype perror = ZodError | NoFile | Error jstr

section \<open>The data\<close>

datatype chain = Dina | Dana | FixPrice | Anvar

definition chain_code :: "chain \<Rightarrow> jstr" where
  "chain_code c = (case c of Dina \<Rightarrow> la ''DINA'' | Dana \<Rightarrow> la ''DANA'' | FixPrice \<Rightarrow> la ''FIX_PRICE'' | Anvar \<Rightarrow> la ''ANVAR'')"

record source_product =
  sp_id :: jstr
  sp_name :: jstr
  sp_price :: int
  sp_oldPrice :: "int option"
  sp_imageUrl :: "jstr option"
  sp_sourceUrl :: "jstr option"
  sp_brand :: "jstr option"
  sp_path :: "jstr list"
  sp_raw :: "(jstr \<times> jval) list"

text \<open>What is known about a file besides its products.\<close>

record source_meta =
  sf_store :: chain
  sf_city :: jstr
  sf_capturedAt :: jstr
  sf_errorCount :: nat
  sf_stats :: "(jstr \<times> jval) list"

record source_file = source_meta +
  sf_products :: "source_product list"

section \<open>The schema\<close>

definition valid_price :: "int \<Rightarrow> bool" where
  "valid_price p \<longleftrightarrow> 0 < p \<and> p \<le> 2147483647"

text \<open>\<open>z.string().trim().min(1)\<close>: the trimmed text, if it is not empty.\<close>

definition trimmed :: "jstr \<Rightarrow> jstr option" where
  "trimmed s = (if trim s = [] then None else Some (trim s))"

definition nullable :: "('a \<Rightarrow> 'a option) \<Rightarrow> 'a option \<Rightarrow> 'a option option" where
  "nullable f x = (case x of None \<Rightarrow> Some None | Some y \<Rightarrow> map_option Some (f y))"

definition checked :: "('a \<Rightarrow> bool) \<Rightarrow> 'a \<Rightarrow> 'a option" where
  "checked P x = (if P x then Some x else None)"

text \<open>\<open>SourceProductSchema\<close> on a value of the right shape.\<close>

definition parseProduct :: "(jstr \<Rightarrow> bool) \<Rightarrow> source_product \<Rightarrow> source_product option" where
  "parseProduct is_url p =
    (case (trimmed (sp_id p), trimmed (sp_name p), checked valid_price (sp_price p),
           nullable (checked valid_price) (sp_oldPrice p), nullable (checked is_url) (sp_imageUrl p),
           nullable (checked is_url) (sp_sourceUrl p), nullable trimmed (sp_brand p)) of
       (Some i, Some n, Some _, Some _, Some _, Some _, Some b) \<Rightarrow>
         Some (p\<lparr>sp_id := i, sp_name := n, sp_brand := b\<rparr>)
     | _ \<Rightarrow> None)"

fun all_some :: "('a \<Rightarrow> 'b option) \<Rightarrow> 'a list \<Rightarrow> 'b list option" where
  "all_some f [] = Some []"
| "all_some f (x # xs) =
    (case (f x, all_some f xs) of (Some y, Some ys) \<Rightarrow> Some (y # ys) | _ \<Rightarrow> None)"

definition stat_value :: "jval \<Rightarrow> bool" where
  "stat_value v \<longleftrightarrow> (case v of JNum n \<Rightarrow> n \<noteq> NaN | JStr _ \<Rightarrow> True | JBool _ \<Rightarrow> True | _ \<Rightarrow> False)"

text \<open>\<open>SourceFileSchema\<close>, likewise.\<close>

definition parseFile :: "(jstr \<Rightarrow> bool) \<Rightarrow> (jstr \<Rightarrow> bool) \<Rightarrow> source_file \<Rightarrow> source_file option" where
  "parseFile is_url is_datetime f =
    (if sf_city f = la ''Aktau'' \<and> is_datetime (sf_capturedAt f) \<and> list_all (\<lambda>(k, v). stat_value v) (sf_stats f)
     then map_option (\<lambda>ps. f\<lparr>sf_products := ps\<rparr>) (all_some (parseProduct is_url) (sf_products f))
     else None)"

section \<open>Validation\<close>

fun first_duplicate :: "jstr list \<Rightarrow> jstr list \<Rightarrow> jstr option" where
  "first_duplicate seen [] = None"
| "first_duplicate seen (x # xs) = (if x \<in> set seen then Some x else first_duplicate (x # seen) xs)"

definition validate :: "(jstr \<Rightarrow> bool) \<Rightarrow> (jstr \<Rightarrow> bool) \<Rightarrow> source_file \<Rightarrow> perror + source_file" where
  "validate is_url is_datetime input =
    (case parseFile is_url is_datetime input of
       None \<Rightarrow> Inl ZodError
     | Some f \<Rightarrow>
         if sf_products f = [] then Inl (Error (chain_code (sf_store f) @ la '': no products '' @ [8212] @ la '' refusing to write''))
         else case first_duplicate [] (map sp_id (sf_products f)) of
                Some d \<Rightarrow> Inl (Error (chain_code (sf_store f) @ la '': duplicate sourceProductId '' @ d))
              | None \<Rightarrow> Inr f)"

section \<open>Files\<close>

text \<open>A file system holds the text of each path; the operations of an atomic write.\<close>

datatype 'c fs_op = WriteFile jstr 'c | RenameFile jstr jstr

fun fs_apply :: "'c fs_op \<Rightarrow> (jstr \<rightharpoonup> 'c) \<Rightarrow> (jstr \<rightharpoonup> 'c)" where
  "fs_apply (WriteFile path c) fs = fs(path \<mapsto> c)"
| "fs_apply (RenameFile old new) fs = (case fs old of None \<Rightarrow> fs | Some c \<Rightarrow> (fs(old := None))(new \<mapsto> c))"

definition atomicWrite :: "jstr \<Rightarrow> 'c \<Rightarrow> 'c fs_op list" where
  "atomicWrite path c = [WriteFile (path @ la ''.tmp'') c, RenameFile (path @ la ''.tmp'') path]"

text \<open>
  What a crash can leave: it may strike between two operations or in the middle of a write,
  which then leaves arbitrary text.
\<close>

inductive crash :: "'c fs_op list \<Rightarrow> (jstr \<rightharpoonup> 'c) \<Rightarrow> (jstr \<rightharpoonup> 'c) \<Rightarrow> bool" where
  crash_now: "crash ops fs fs"
| crash_torn: "crash (WriteFile path c # ops) fs (fs(path \<mapsto> c'))"
| crash_later: "crash ops (fs_apply op fs) fs' \<Longrightarrow> crash (op # ops) fs fs'"

inductive_cases crash_NilE: "crash [] fs fs'"
inductive_cases crash_ConsE: "crash (op # ops) fs fs'"

text \<open>The operations a write performs, none when the file is not valid.\<close>

definition writeSourceFile ::
  "(jstr \<Rightarrow> bool) \<Rightarrow> (jstr \<Rightarrow> bool) \<Rightarrow> (source_file \<Rightarrow> 'c) \<Rightarrow> jstr \<Rightarrow> source_file \<Rightarrow> perror + 'c fs_op list" where
  "writeSourceFile is_url is_datetime render path file =
    and_then (validate is_url is_datetime file) (\<lambda>valid. Inr (atomicWrite path (render valid)))"

definition readSourceFile ::
  "(jstr \<Rightarrow> bool) \<Rightarrow> (jstr \<Rightarrow> bool) \<Rightarrow> ('c \<Rightarrow> source_file option) \<Rightarrow> (jstr \<rightharpoonup> 'c) \<Rightarrow> jstr \<Rightarrow> perror + source_file" where
  "readSourceFile is_url is_datetime decode fs path =
    (case fs path of
       None \<Rightarrow> Inl NoFile
     | Some c \<Rightarrow> (case decode c of None \<Rightarrow> Inl ZodError | Some f \<Rightarrow> validate is_url is_datetime f))"

section \<open>Lemmas\<close>

lemma all_some_Cons:
  "all_some f (x # xs) = Some ys \<longleftrightarrow> (\<exists>z zs. ys = z # zs \<and> f x = Some z \<and> all_some f xs = Some zs)"
  by (auto split: option.splits)

lemma all_some_in: "all_some f xs = Some ys \<Longrightarrow> y \<in> set ys \<Longrightarrow> \<exists>x \<in> set xs. f x = Some y"
  by (induction xs arbitrary: ys) (auto simp: all_some_Cons simp del: all_some.simps(2))

lemma all_some_fixed: "all_some f xs = Some xs \<longleftrightarrow> (\<forall>x \<in> set xs. f x = Some x)"
  by (induction xs) (auto simp: all_some_Cons simp del: all_some.simps(2))

lemma first_duplicate_None: "first_duplicate seen xs = None \<longleftrightarrow> distinct xs \<and> set seen \<inter> set xs = {}"
  by (induction xs arbitrary: seen) auto

lemma trimmed_Some: "trimmed s = Some t \<longleftrightarrow> t = trim s \<and> t \<noteq> []"
  by (auto simp: trimmed_def)

lemma trimmed_trim: "trimmed s = Some t \<Longrightarrow> trimmed t = Some t"
  by (auto simp: trimmed_Some)

lemma nullable_Some: "nullable f x = Some y \<longleftrightarrow> (x = None \<and> y = None) \<or> (\<exists>a b. x = Some a \<and> f a = Some b \<and> y = Some b)"
  by (auto simp: nullable_def split: option.splits)

lemma checked_Some: "checked P x = Some y \<longleftrightarrow> y = x \<and> P x"
  by (auto simp: checked_def)

lemma parseProduct_Some:
  "parseProduct is_url p = Some q \<longleftrightarrow>
    trimmed (sp_id p) = Some (sp_id q) \<and> trimmed (sp_name p) = Some (sp_name q) \<and>
    nullable trimmed (sp_brand p) = Some (sp_brand q) \<and> valid_price (sp_price p) \<and>
    nullable (checked valid_price) (sp_oldPrice p) = Some (sp_oldPrice p) \<and>
    nullable (checked is_url) (sp_imageUrl p) = Some (sp_imageUrl p) \<and>
    nullable (checked is_url) (sp_sourceUrl p) = Some (sp_sourceUrl p) \<and>
    q = p\<lparr>sp_id := sp_id q, sp_name := sp_name q, sp_brand := sp_brand q\<rparr>"
  by (cases "trimmed (sp_id p)"; cases "trimmed (sp_name p)"; cases "nullable trimmed (sp_brand p)")
    (auto simp: parseProduct_def checked_def nullable_def split: option.splits if_splits)

text \<open>What the schema accepts it leaves unchanged the next time.\<close>

lemma parseProduct_idem: "parseProduct is_url p = Some q \<Longrightarrow> parseProduct is_url q = Some q"
proof -
  assume q: "parseProduct is_url p = Some q"
  then have parts: "sp_price q = sp_price p" "sp_oldPrice q = sp_oldPrice p" "sp_imageUrl q = sp_imageUrl p"
      "sp_sourceUrl q = sp_sourceUrl p"
    unfolding parseProduct_Some by (metis source_product.select_convs source_product.surjective source_product.update_convs)+
  have texts: "trimmed (sp_id p) = Some (sp_id q)" "trimmed (sp_name p) = Some (sp_name q)"
      "nullable trimmed (sp_brand p) = Some (sp_brand q)"
    using q unfolding parseProduct_Some by blast+
  then have "nullable trimmed (sp_brand q) = Some (sp_brand q)"
    by (auto simp: nullable_Some dest: trimmed_trim)
  with q texts(1,2) [THEN trimmed_trim] show ?thesis
    unfolding parseProduct_Some parts by simp
qed

lemma parseFile_SomeE:
  assumes "parseFile is_url is_datetime f = Some g"
  obtains ps where "sf_city f = la ''Aktau''" "is_datetime (sf_capturedAt f)"
    "list_all (\<lambda>(k, v). stat_value v) (sf_stats f)"
    "all_some (parseProduct is_url) (sf_products f) = Some ps" "g = f\<lparr>sf_products := ps\<rparr>"
  using assms by (auto simp: parseFile_def split: if_splits)

lemma parseFile_idem: "parseFile is_url is_datetime f = Some g \<Longrightarrow> parseFile is_url is_datetime g = Some g"
proof -
  assume "parseFile is_url is_datetime f = Some g"
  then obtain ps where f: "sf_city f = la ''Aktau''" "is_datetime (sf_capturedAt f)"
      "list_all (\<lambda>(k, v). stat_value v) (sf_stats f)"
    and ps: "all_some (parseProduct is_url) (sf_products f) = Some ps" and g: "g = f\<lparr>sf_products := ps\<rparr>"
    by (rule parseFile_SomeE)
  have "\<forall>q \<in> set ps. parseProduct is_url q = Some q"
    using ps parseProduct_idem by (blast dest: all_some_in)
  then have "all_some (parseProduct is_url) ps = Some ps"
    by (simp add: all_some_fixed)
  with f show ?thesis by (simp add: g parseFile_def)
qed

definition sound_file :: "source_file \<Rightarrow> bool" where
  "sound_file f \<longleftrightarrow> sf_products f \<noteq> [] \<and> distinct (map sp_id (sf_products f)) \<and>
     list_all (\<lambda>p. valid_price (sp_price p) \<and> trim (sp_id p) = sp_id p \<and> sp_id p \<noteq> [] \<and>
       trim (sp_name p) = sp_name p \<and> sp_name p \<noteq> []) (sf_products f)"

lemma validate_Inr:
  "validate is_url is_datetime f = Inr g \<longleftrightarrow>
    parseFile is_url is_datetime f = Some g \<and> sf_products g \<noteq> [] \<and> distinct (map sp_id (sf_products g))"
proof (cases "parseFile is_url is_datetime f")
  case (Some h)
  then show ?thesis
    using first_duplicate_None [of "[]" "map sp_id (sf_products h)"]
    by (cases "first_duplicate [] (map sp_id (sf_products h))") (auto simp: validate_def)
qed (simp add: validate_def)

lemma validate_idem: "validate is_url is_datetime f = Inr g \<Longrightarrow> validate is_url is_datetime g = Inr g"
  by (auto simp: validate_Inr dest: parseFile_idem)

lemma validate_sound: "validate is_url is_datetime f = Inr g \<Longrightarrow> sound_file g"
proof -
  assume v: "validate is_url is_datetime f = Inr g"
  then have "parseFile is_url is_datetime f = Some g" by (simp add: validate_Inr)
  then have g: "all_some (parseProduct is_url) (sf_products f) = Some (sf_products g)"
    by (rule parseFile_SomeE) simp
  have "valid_price (sp_price q) \<and> trim (sp_id q) = sp_id q \<and> sp_id q \<noteq> [] \<and> trim (sp_name q) = sp_name q \<and> sp_name q \<noteq> []"
    if q: "q \<in> set (sf_products g)" for q
  proof -
    obtain p where p: "parseProduct is_url p = Some q" using all_some_in [OF g q] by blast
    then have "parseProduct is_url q = Some q" by (rule parseProduct_idem)
    then have "trimmed (sp_id q) = Some (sp_id q)" "trimmed (sp_name q) = Some (sp_name q)" "valid_price (sp_price q)"
      unfolding parseProduct_Some by blast+
    then show ?thesis by (simp add: trimmed_Some)
  qed
  with v show ?thesis by (simp add: sound_file_def validate_Inr list_all_iff)
qed

text \<open>A crash during an atomic write leaves the target as it was or holding the new text.\<close>

lemma atomicWrite_crash:
  assumes "crash (atomicWrite path c) fs fs'"
  shows "fs' path = fs path \<or> fs' path = Some c"
  using assms by (auto simp: atomicWrite_def la_def elim!: crash_ConsE crash_NilE)

lemma atomicWrite_done: "foldl (\<lambda>fs op. fs_apply op fs) fs (atomicWrite path c) path = Some c"
  by (simp add: atomicWrite_def la_def)

text \<open>A small file for concrete evaluations.\<close>

definition plain_product :: "jstr \<Rightarrow> jstr \<Rightarrow> int \<Rightarrow> (jstr \<times> jval) list \<Rightarrow> source_product" where
  "plain_product i name price raw =
    \<lparr>sp_id = i, sp_name = name, sp_price = price, sp_oldPrice = None, sp_imageUrl = None, sp_sourceUrl = None,
     sp_brand = None, sp_path = [], sp_raw = raw\<rparr>"

definition plain_file :: "chain \<Rightarrow> source_product list \<Rightarrow> source_file" where
  "plain_file store ps =
    \<lparr>sf_store = store, sf_city = la ''Aktau'', sf_capturedAt = [], sf_errorCount = 0, sf_stats = [], sf_products = ps\<rparr>"

end
