(* ===== verification/Units.thy ===== *)
theory Units
  imports SourceFile
begin

text \<open>
  What the pipeline reads from a product's name and the taxonomy it sorts products into:
  sizes and fat (\<open>agent/units.ts\<close>), the categories with their filters (\<open>agent/taxonomy.ts\<close>), the
  milk rule (\<open>mapping/milk.ts\<close>), products sold by weight (\<open>mapping/weight.ts\<close>) and the
  published scope (\<open>mapping/scope.ts\<close>).
\<close>

section \<open>Sizes\<close>

record product_size =
  sz_volumeMl :: "int option"
  sz_weightGrams :: "int option"
  sz_packageCount :: "int option"

definition normalizeText :: "jstr \<Rightarrow> jstr" where
  "normalizeText s =
    (let e = map (\<lambda>c. if c = 1105 then 1077 else c) (to_lower s);
         unquoted = map (\<lambda>c. if c \<in> {34, 39, 171, 187, 8222, 8220, 8221} then 32 else c) e;
         dotted = rx_replace (sq [Grp 1 (Ch c_digit), lit (la '',''), Grp 2 (Ch c_digit)])
           (\<lambda>g. nullish (map_of g 1) [] @ [46] @ nullish (map_of g 2) []) unquoted
     in trim (collapse_spaces dotted))"

definition rxp_multi :: rx where
  "rxp_multi = sq [Grp 1 (many1 (Ch c_digit)), many (Ch c_space), Ch (Cls False [(120, 120), (1093, 1093), (215, 215), (42, 42)]), many (Ch c_space), Grp 2 (sq [many1 (Ch c_digit), opt (sq [lit (la ''.''), many1 (Ch c_digit)])]), many (Ch c_space), Grp 3 (alts [lit (ru ''l''), lit (ru ''ml''), lit (ru ''kg''), lit (ru ''g'')]), Ahead False (Ch (Cls False [(1072, 1103), (97, 122)]))]"

definition rxp_litres :: rx where
  "rxp_litres = sq [Grp 1 (sq [many1 (Ch c_digit), opt (sq [lit (la ''.''), many1 (Ch c_digit)])]), many (Ch c_space), alts [lit (ru ''l''), lit (la ''l''), sq [lit (ru ''litr''), many (Ch c_word)]], Ahead False (Ch (Cls False [(1072, 1103)]))]"

definition rxp_ml :: rx where
  "rxp_ml = sq [Grp 1 (sq [many1 (Ch c_digit), opt (sq [lit (la ''.''), many1 (Ch c_digit)])]), many (Ch c_space), alts [lit (ru ''ml''), lit (la ''ml'')], Ahead False (Ch (Cls False [(1072, 1103), (97, 122)]))]"

definition rxp_kilos :: rx where
  "rxp_kilos = sq [Grp 1 (sq [many1 (Ch c_digit), opt (sq [lit (la ''.''), many1 (Ch c_digit)])]), many (Ch c_space), alts [lit (ru ''kg''), lit (la ''kg'')], Ahead False (Ch (Cls False [(1072, 1103), (97, 122)]))]"

definition rxp_grams :: rx where
  "rxp_grams = sq [Grp 1 (sq [many1 (Ch c_digit), opt (sq [lit (la ''.''), many1 (Ch c_digit)])]), many (Ch c_space), alts [lit (ru ''g''), lit (ru ''gr''), lit (la ''g'')], Ahead False (Ch (Cls False [(1072, 1103)]))]"

definition rxp_pieces :: rx where
  "rxp_pieces = sq [Grp 1 (many1 (Ch c_digit)), many (Ch c_space), alts [lit (ru ''St''), lit (ru ''Stuk'')]]"

definition rxp_fat :: rx where
  "rxp_fat = sq [Grp 1 (sq [many1 (Ch c_digit), opt (sq [lit (la ''.''), many1 (Ch c_digit)])]), many (Ch c_space), lit (la ''%'')]"

text \<open>A litre or kilogram amount counts when it is between 0 and 50.\<close>

definition large_unit :: "jstr option \<Rightarrow> int option" where
  "large_unit m =
    (case m of
       Some w \<Rightarrow> if 0 < dec_val w \<and> dec_val w < 50 then Some (js_round (dec_val w * 1000)) else None
     | None \<Rightarrow> None)"

text \<open>\<open>!n\<close> for an optional number.\<close>

definition falsy_int :: "int option \<Rightarrow> bool" where
  "falsy_int n \<longleftrightarrow> n = None \<or> n = Some 0"

definition keep_positive :: "int option \<Rightarrow> int option" where
  "keep_positive n = (case n of Some i \<Rightarrow> if i > 0 then Some i else None | None \<Rightarrow> None)"

definition extractSize :: "jstr \<Rightarrow> product_size" where
  "extractSize name =
    (let t = normalizeText name;
         multi = map_option digits_val (rx_group 1 rxp_multi t);
         volume = (case rx_group 1 rxp_ml t of
                     Some w \<Rightarrow> Some (js_round (dec_val w))
                   | None \<Rightarrow> large_unit (rx_group 1 rxp_litres t));
         weight = (case large_unit (rx_group 1 rxp_kilos t) of
                     Some w \<Rightarrow> Some w
                   | None \<Rightarrow> if falsy_int volume then map_option (\<lambda>w. js_round (dec_val w)) (rx_group 1 rxp_grams t) else None);
         pieces = map_option digits_val (rx_group 1 rxp_pieces t);
         count = (if pieces \<noteq> None \<and> falsy_int multi then pieces else multi)
     in \<lparr>sz_volumeMl = keep_positive volume, sz_weightGrams = keep_positive weight, sz_packageCount = keep_positive count\<rparr>)"

definition extractFat :: "jstr \<Rightarrow> rat option" where
  "extractFat name =
    (case rx_group 1 rxp_fat (normalizeText name) of
       None \<Rightarrow> None
     | Some w \<Rightarrow> if 1 / 10 \<le> dec_val w \<and> dec_val w < 100 then Some (dec_val w) else None)"

section \<open>Attributes\<close>

text \<open>
  \<open>Attributes\<close> is an object with the numeric keys \<open>volumeMl\<close>, \<open>weightGrams\<close>, \<open>packageCount\<close>
  and \<open>fatPercent\<close>; the dictionary's cards may carry others, so it is a map.
\<close>

type_synonym attrs = "(jstr \<times> rat) list"

definition k_volume :: jstr where "k_volume = la ''volumeMl''"
definition k_weight :: jstr where "k_weight = la ''weightGrams''"
definition k_count :: jstr where "k_count = la ''packageCount''"
definition k_fat :: jstr where "k_fat = la ''fatPercent''"

definition opt_attr :: "jstr \<Rightarrow> rat option \<Rightarrow> attrs" where
  "opt_attr k v = (case v of None \<Rightarrow> [] | Some q \<Rightarrow> [(k, q)])"

definition size_attrs :: "product_size \<Rightarrow> attrs" where
  "size_attrs s =
    opt_attr k_volume (map_option of_int (sz_volumeMl s)) @
    opt_attr k_weight (map_option of_int (sz_weightGrams s)) @
    opt_attr k_count (map_option of_int (sz_packageCount s))"

text \<open>\<open>{ ...extractSize(name), ...(fat !== null ? { fatPercent: fat } : {}) }\<close>.\<close>

definition name_attrs :: "jstr \<Rightarrow> attrs" where
  "name_attrs name = size_attrs (extractSize name) @ opt_attr k_fat (extractFat name)"

section \<open>The taxonomy\<close>

record cat_filter =
  cf_key :: jstr
  cf_label :: jstr
  cf_allow :: "prim list option"

record tax_category =
  tc_slug :: jstr
  tc_name :: jstr
  tc_filters :: "cat_filter list"

definition MILK_FAT_OPTIONS :: "prim list" where
  "MILK_FAT_OPTIONS = [num (3 / 2), num (5 / 2), num (16 / 5), num 6]"

definition size_filter :: "jstr \<Rightarrow> jstr \<Rightarrow> cat_filter" where
  "size_filter key label = \<lparr>cf_key = key, cf_label = label, cf_allow = None\<rparr>"

definition brand_filter :: cat_filter where
  "brand_filter = \<lparr>cf_key = la ''brand'', cf_label = cap (ru ''brend''), cf_allow = None\<rparr>"

definition CATEGORIES :: "tax_category list" where
  "CATEGORIES =
    [\<lparr>tc_slug = la ''milk'', tc_name = cap (ru ''moloko''),
       tc_filters = [size_filter (la ''volumeMl'') (cap (ru ''obXOm'')), \<lparr>cf_key = la ''fatPercent'', cf_label = cap (ru ''jirnostx''), cf_allow = Some MILK_FAT_OPTIONS\<rparr>, brand_filter]\<rparr>,
     \<lparr>tc_slug = la ''dairy'', tc_name = cap (ru ''kislomoloCnYe produktY i sYrY''),
       tc_filters = [brand_filter]\<rparr>,
     \<lparr>tc_slug = la ''eggs'', tc_name = cap (ru ''Ayca''),
       tc_filters = [\<lparr>cf_key = la ''packageCount'', cf_label = cap (ru ''koliCestvo''), cf_allow = None\<rparr>]\<rparr>,
     \<lparr>tc_slug = la ''bread'', tc_name = cap (ru ''hleb i vYpeCka''),
       tc_filters = [size_filter (la ''weightGrams'') (cap (ru ''ves'')), brand_filter]\<rparr>,
     \<lparr>tc_slug = la ''meat'', tc_name = cap (ru ''mAso i ptica''),
       tc_filters = [brand_filter]\<rparr>,
     \<lparr>tc_slug = la ''fish'', tc_name = cap (ru ''rYba i moreproduktY''),
       tc_filters = [brand_filter]\<rparr>,
     \<lparr>tc_slug = la ''sausages'', tc_name = cap (ru ''kolbasY i delikatesY''),
       tc_filters = [brand_filter]\<rparr>,
     \<lparr>tc_slug = la ''vegetables'', tc_name = cap (ru ''ovoWi, fruktY, zelenx''),
       tc_filters = []\<rparr>,
     \<lparr>tc_slug = la ''groats'', tc_name = cap (ru ''krupY, makaronY, muka''),
       tc_filters = [size_filter (la ''weightGrams'') (cap (ru ''ves'')), brand_filter]\<rparr>,
     \<lparr>tc_slug = la ''sugar'', tc_name = cap (ru ''sahar''),
       tc_filters = [size_filter (la ''weightGrams'') (cap (ru ''ves''))]\<rparr>,
     \<lparr>tc_slug = la ''salt'', tc_name = cap (ru ''solx''),
       tc_filters = [size_filter (la ''weightGrams'') (cap (ru ''ves''))]\<rparr>,
     \<lparr>tc_slug = la ''oil'', tc_name = cap (ru ''rastitelxnYe masla''),
       tc_filters = [size_filter (la ''volumeMl'') (cap (ru ''obXOm'')), brand_filter]\<rparr>,
     \<lparr>tc_slug = la ''canned'', tc_name = cap (ru ''konservY''),
       tc_filters = [brand_filter]\<rparr>,
     \<lparr>tc_slug = la ''sauces'', tc_name = cap (ru ''sousY i specii''),
       tc_filters = [brand_filter]\<rparr>,
     \<lparr>tc_slug = la ''sweets'', tc_name = cap (ru ''sladosti i sneki''),
       tc_filters = [brand_filter]\<rparr>,
     \<lparr>tc_slug = la ''tea-coffee'', tc_name = cap (ru ''Cay i kofe''),
       tc_filters = [brand_filter]\<rparr>,
     \<lparr>tc_slug = la ''drinks'', tc_name = cap (ru ''napitki i voda''),
       tc_filters = [size_filter (la ''volumeMl'') (cap (ru ''obXOm'')), brand_filter]\<rparr>,
     \<lparr>tc_slug = la ''frozen'', tc_name = cap (ru ''zamorojennYe produktY''),
       tc_filters = [brand_filter]\<rparr>,
     \<lparr>tc_slug = la ''baby'', tc_name = cap (ru ''detskie tovarY''),
       tc_filters = [brand_filter]\<rparr>,
     \<lparr>tc_slug = la ''household'', tc_name = cap (ru ''bYtovaA himiA''),
       tc_filters = [brand_filter]\<rparr>,
     \<lparr>tc_slug = la ''hygiene'', tc_name = cap (ru ''gigiena i kosmetika''),
       tc_filters = [brand_filter]\<rparr>,
     \<lparr>tc_slug = la ''home'', tc_name = cap (ru ''tovarY dlA doma''),
       tc_filters = []\<rparr>,
     \<lparr>tc_slug = la ''other'', tc_name = cap (ru ''proCie tovarY''),
       tc_filters = []\<rparr>]"

definition isCategorySlug :: "jstr \<Rightarrow> bool" where
  "isCategorySlug s \<longleftrightarrow> s \<in> tc_slug ` set CATEGORIES"

section \<open>The milk rule\<close>

definition CONCENTRATED_FAT_MIN :: rat where
  "CONCENTRATED_FAT_MIN = 7"

definition PLANT_BASED :: rx where
  "PLANT_BASED = alts [lit (ru ''kokos''), lit (ru ''soev''), lit (ru ''ovsAn''), lit (ru ''risov''), lit (ru ''mindal''), lit (ru ''greCnev''), lit (la ''nemoloko''), lit (ru ''nemoloko''), lit (la ''alpro''), lit (ru ''alxpro'')]"

definition NOT_DRINKING :: rx where
  "NOT_DRINKING = alts [lit (ru ''slivk''), lit (ru ''sguW''), lit (ru ''koncentr''), lit (ru ''kokteyl''), lit (ru ''suhoe''), lit (ru ''suhie''), lit (ru ''kIlegey''), lit (ru ''KoUland'')]"

definition refineCategory :: "jstr \<Rightarrow> jstr \<Rightarrow> rat option \<Rightarrow> jstr" where
  "refineCategory category name fatPercent =
    (if category \<noteq> la ''milk'' then category
     else if rx_test PLANT_BASED (to_lower name) then la ''drinks''
     else if rx_test NOT_DRINKING (to_lower name) then la ''dairy''
     else if (case fatPercent of None \<Rightarrow> False | Some f \<Rightarrow> CONCENTRATED_FAT_MIN \<le> f) then la ''dairy''
     else la ''milk'')"

section \<open>Products sold by weight\<close>

definition DANA_WEIGHT_MARK :: rx where
  "DANA_WEIGHT_MARK = alts [sq [NotBehind (Cls False [(1072, 1103), (97, 122)]), lit (ru ''ves''), opt (sq [lit (ru ''ov''), alts [lit (ru ''oy''), lit (ru ''aA''), lit (ru ''oe''), lit (ru ''Ye'')]]), Ahead False (Ch (Cls False [(1072, 1103), (97, 122)]))], sq [WordB, lit (la ''plu''), many (Ch c_space), Ch (Cls False [(58, 58), (59, 59)]), many (Ch c_space), many1 (Ch c_digit)]]"

definition isVariableWeight :: "chain \<Rightarrow> source_product \<Rightarrow> bool" where
  "isVariableWeight store p \<longleftrightarrow>
    (case store of
       Dina \<Rightarrow> obj_get (sp_raw p) (la ''price_type'') = JStr (la ''weight'') \<or>
               obj_get (sp_raw p) (la ''isWeightProduct'') = JBool True
     | Dana \<Rightarrow> rx_test DANA_WEIGHT_MARK (to_lower (sp_name p))
     | _ \<Rightarrow> False)"

section \<open>The published scope\<close>

definition DEFAULT_PUBLISH_CATEGORIES :: "jstr list" where
  "DEFAULT_PUBLISH_CATEGORIES =
    [la ''milk'', la ''dairy'', la ''eggs'', la ''bread'', la ''meat'', la ''vegetables'', la ''groats'', la ''sugar'', la ''oil'']"

fun publish_loop :: "jstr list \<Rightarrow> jstr list \<Rightarrow> perror + jstr list" where
  "publish_loop out [] = Inr out"
| "publish_loop out (raw # rest) =
    (let slug = trim raw
     in if \<not> isCategorySlug slug then Inl (Error (la ''PUBLISH_CATEGORIES: unknown category '' @ slug))
        else if slug \<notin> set DEFAULT_PUBLISH_CATEGORIES then
          Inl (Error (la ''PUBLISH_CATEGORIES: category '' @ slug @ la '' has no row in the taxonomy migration; add it to the migration first''))
        else publish_loop (if slug \<in> set out then out else out @ [slug]) rest)"

definition publishCategories :: "jstr option \<Rightarrow> perror + jstr list" where
  "publishCategories env =
    (if trim (nullish env []) = [] then Inr DEFAULT_PUBLISH_CATEGORIES
     else publish_loop [] (split_ch 44 (nullish env [])))"

section \<open>Lemmas\<close>

lemma keep_positive_Some: "keep_positive n = Some i \<longleftrightarrow> n = Some i \<and> 0 < i"
  by (auto simp: keep_positive_def split: option.splits)

lemma extractSize_positive:
  "sz_volumeMl (extractSize name) = Some v \<Longrightarrow> 0 < v"
  "sz_weightGrams (extractSize name) = Some w \<Longrightarrow> 0 < w"
  "sz_packageCount (extractSize name) = Some c \<Longrightarrow> 0 < c"
  by (simp_all add: extractSize_def Let_def keep_positive_Some)

lemma extractFat_range: "extractFat name = Some f \<Longrightarrow> 1 / 10 \<le> f \<and> f < 100"
  by (auto simp: extractFat_def split: option.splits if_splits)

lemma map_of_opt_attr: "map_of (opt_attr k v) x = (if x = k then v else None)"
  by (auto simp: opt_attr_def split: option.splits)

lemma attr_keys [simp]:
  "k_volume \<noteq> k_weight" "k_volume \<noteq> k_count" "k_volume \<noteq> k_fat"
  "k_weight \<noteq> k_count" "k_weight \<noteq> k_fat" "k_count \<noteq> k_fat"
  "k_weight \<noteq> k_volume" "k_count \<noteq> k_volume" "k_fat \<noteq> k_volume"
  "k_count \<noteq> k_weight" "k_fat \<noteq> k_weight" "k_fat \<noteq> k_count"
  by (simp_all add: k_volume_def k_weight_def k_count_def k_fat_def la_def)

lemma extractFat_pos: "Some f = extractFat name \<Longrightarrow> 0 < f"
  using extractFat_range [of name f] by simp

lemma name_attrs_positive: "(k, v) \<in> set (name_attrs name) \<Longrightarrow> 0 < v"
  by (auto simp: name_attrs_def size_attrs_def opt_attr_def extractSize_positive extractFat_pos split: option.splits)

lemma refineCategory_other: "category \<noteq> la ''milk'' \<Longrightarrow> refineCategory category name f = category"
  by (simp add: refineCategory_def)

text \<open>Refining a refined category changes nothing, so it may be applied at every sync.\<close>

lemma refineCategory_idem: "refineCategory (refineCategory category name f) name f = refineCategory category name f"
  by (auto simp: refineCategory_def)

lemma category_slugs: "map tc_slug CATEGORIES =
   [la ''milk'', la ''dairy'', la ''eggs'', la ''bread'', la ''meat'', la ''fish'', la ''sausages'',
    la ''vegetables'', la ''groats'', la ''sugar'', la ''salt'', la ''oil'', la ''canned'', la ''sauces'',
    la ''sweets'', la ''tea-coffee'', la ''drinks'', la ''frozen'', la ''baby'', la ''household'', la ''hygiene'',
    la ''home'', la ''other'']"
  by (simp add: CATEGORIES_def)

lemma isCategorySlug_iff: "isCategorySlug s \<longleftrightarrow> s \<in> set (map tc_slug CATEGORIES)"
  by (simp add: isCategorySlug_def)

lemma slug_milk_dairy_drinks: "isCategorySlug (la ''milk'')" "isCategorySlug (la ''dairy'')" "isCategorySlug (la ''drinks'')" "isCategorySlug (la ''other'')"
  unfolding isCategorySlug_iff category_slugs by simp_all

lemma refineCategory_known: "isCategorySlug category \<Longrightarrow> isCategorySlug (refineCategory category name f)"
  by (simp add: refineCategory_def slug_milk_dairy_drinks)

lemma default_scope_known: "list_all isCategorySlug DEFAULT_PUBLISH_CATEGORIES"
  unfolding DEFAULT_PUBLISH_CATEGORIES_def isCategorySlug_iff category_slugs by simp

lemma publish_loop_ok:
  "publish_loop out raws = Inr scope \<Longrightarrow> distinct out \<Longrightarrow> set out \<subseteq> set DEFAULT_PUBLISH_CATEGORIES \<Longrightarrow>
   distinct scope \<and> set scope \<subseteq> set DEFAULT_PUBLISH_CATEGORIES \<and> set scope = set out \<union> trim ` set raws"
proof (induction raws arbitrary: out)
  case (Cons raw raws)
  let ?out = "if trim raw \<in> set out then out else out @ [trim raw]"
  have step: "publish_loop ?out raws = Inr scope" "trim raw \<in> set DEFAULT_PUBLISH_CATEGORIES"
    using Cons.prems(1) by (auto simp: Let_def split: if_splits)
  have "distinct ?out" "set ?out \<subseteq> set DEFAULT_PUBLISH_CATEGORIES" "set ?out = insert (trim raw) (set out)"
    using Cons.prems(2,3) step(2) by auto
  with Cons.IH [OF step(1)] show ?case by auto
qed simp

lemma publishCategories_ok:
  assumes "publishCategories env = Inr scope"
  shows "distinct scope" and "set scope \<subseteq> set DEFAULT_PUBLISH_CATEGORIES" and "scope \<noteq> []"
proof -
  have base: "distinct DEFAULT_PUBLISH_CATEGORIES" "DEFAULT_PUBLISH_CATEGORIES \<noteq> []"
    by (simp_all add: DEFAULT_PUBLISH_CATEGORIES_def la_def)
  show "distinct scope" "set scope \<subseteq> set DEFAULT_PUBLISH_CATEGORIES" "scope \<noteq> []"
    using assms base publish_loop_ok [of "[]" "split_ch 44 (nullish env [])" scope]
    by (auto simp: publishCategories_def split: if_splits)
qed

end
