(* ===== verification/Classify.thy ===== *)
theory Classify
  imports Units
begin

text \<open>
  The pipeline's agent, first half: classifying products with a language model
  (\<open>agent/classify.ts\<close>) and cutting them into blocks of comparable products
  (\<open>agent/block.ts\<close>). The model is a parameter: for each attempt and prompt it gives the items of
  its answer, or nothing when the call throws or the answer does not have the required shape.
\<close>

section \<open>Classified products\<close>

type_synonym classify_input = "chain \<times> source_product"

record classified =
  cl_store :: chain
  cl_product :: source_product
  cl_category :: jstr
  cl_type :: jstr
  cl_brand :: "jstr option"
  cl_attrs :: attrs
  cl_display :: jstr
  cl_flags :: "jstr list"

text \<open>An item of the model's answer; \<open>valid_item\<close> is what its schema checks.\<close>

record llm_item =
  it_id :: jstr
  it_category :: jstr
  it_type :: jstr
  it_brand :: "jstr option"
  it_volume :: "rat option"
  it_weight :: "rat option"
  it_count :: "rat option"
  it_fat :: "rat option"
  it_display :: jstr

definition positive_or_none :: "rat option \<Rightarrow> bool" where
  "positive_or_none n \<longleftrightarrow> (case n of None \<Rightarrow> True | Some q \<Rightarrow> 0 < q)"

definition valid_item :: "llm_item \<Rightarrow> bool" where
  "valid_item r \<longleftrightarrow> it_type r \<noteq> [] \<and> it_display r \<noteq> [] \<and>
     list_all positive_or_none [it_volume r, it_weight r, it_count r, it_fat r]"

definition product_key :: "chain \<Rightarrow> jstr \<Rightarrow> jstr" where
  "product_key store i = chain_code store @ [58] @ i"

definition input_key :: "classify_input \<Rightarrow> jstr" where
  "input_key i = product_key (fst i) (sp_id (snd i))"

text \<open>What the prompt tells about each product, after its fixed instructions.\<close>

type_synonym prompt_row = "jstr \<times> chain \<times> jstr \<times> jstr"

definition prompt :: "classify_input list \<Rightarrow> prompt_row list" where
  "prompt items =
    map (\<lambda>i. (input_key i, fst i, sp_name (snd i), join (la '' / '') (sp_path (snd i)))) items"

definition fallback :: "classify_input \<Rightarrow> classified" where
  "fallback i =
    \<lparr>cl_store = fst i, cl_product = snd i, cl_category = la ''other'', cl_type = la ''unknown'',
     cl_brand = sp_brand (snd i), cl_attrs = name_attrs (sp_name (snd i)), cl_display = sp_name (snd i),
     cl_flags = [la ''llm_fallback'']\<rparr>"

text \<open>A size read from the name wins over the model's; what rounds to nothing is dropped.\<close>

definition merged_size :: "int option \<Rightarrow> rat option \<Rightarrow> rat option" where
  "merged_size re llm =
    (case (case re of Some i \<Rightarrow> Some (of_int i) | None \<Rightarrow> llm) of
       None \<Rightarrow> None
     | Some v \<Rightarrow> if 0 < js_round v then Some (of_int (js_round v)) else None)"

definition size_conflict :: "int option \<Rightarrow> rat option \<Rightarrow> jstr list" where
  "size_conflict re llm =
    (case (re, llm) of
       (Some i, Some q) \<Rightarrow> if js_round q \<noteq> i then [la ''size_conflict''] else []
     | _ \<Rightarrow> [])"

definition merge_item :: "classify_input \<Rightarrow> llm_item \<Rightarrow> classified" where
  "merge_item i r =
    (let p = snd i; rx = extractSize (sp_name p);
         fat = (case extractFat (sp_name p) of Some f \<Rightarrow> Some f | None \<Rightarrow> it_fat r);
         brand = trim (nullish (it_brand r) [])
     in \<lparr>cl_store = fst i, cl_product = p, cl_category = it_category r,
         cl_type = to_lower (trim (it_type r)),
         cl_brand = (if brand = [] then sp_brand p else Some brand),
         cl_attrs = opt_attr k_volume (merged_size (sz_volumeMl rx) (it_volume r)) @
           opt_attr k_weight (merged_size (sz_weightGrams rx) (it_weight r)) @
           opt_attr k_count (merged_size (sz_packageCount rx) (it_count r)) @ opt_attr k_fat fat,
         cl_display = trim (it_display r),
         cl_flags = size_conflict (sz_volumeMl rx) (it_volume r) @ size_conflict (sz_weightGrams rx) (it_weight r) @
           size_conflict (sz_packageCount rx) (it_count r)\<rparr>)"

type_synonym classified_map = "(jstr \<times> classified) list"

text \<open>\<open>byKey.get(id)\<close>: of two products with one key the later is kept.\<close>

definition by_key :: "classify_input list \<Rightarrow> jstr \<Rightarrow> classify_input option" where
  "by_key items = map_of (rev (map (\<lambda>i. (input_key i, i)) items))"

definition take_item :: "classify_input list \<Rightarrow> classified_map \<Rightarrow> llm_item \<Rightarrow> classified_map" where
  "take_item items got r =
    (case by_key items (it_id r) of
       None \<Rightarrow> got
     | Some src \<Rightarrow>
         if map_of got (it_id r) \<noteq> None \<or> \<not> isCategorySlug (it_category r) then got
         else got @ [(it_id r, merge_item src r)])"

type_synonym classifier = "nat \<Rightarrow> prompt_row list \<Rightarrow> llm_item list option"

definition pending_items :: "classify_input list \<Rightarrow> classified_map \<Rightarrow> classify_input list" where
  "pending_items items got = filter (\<lambda>i. map_of got (input_key i) = None) items"

definition classify_attempt :: "classifier \<Rightarrow> classify_input list \<Rightarrow> nat \<Rightarrow> classified_map \<Rightarrow> classified_map" where
  "classify_attempt llm items attempt got =
    (case llm attempt (prompt (pending_items items got)) of
       None \<Rightarrow> got
     | Some rs \<Rightarrow> foldl (take_item items) got rs)"

text \<open>Two attempts at most, the second only for what is still missing.\<close>

fun classify_loop :: "classifier \<Rightarrow> classify_input list \<Rightarrow> nat list \<Rightarrow> classified_map \<Rightarrow> classified_map" where
  "classify_loop llm items [] got = got"
| "classify_loop llm items (attempt # rest) got =
    (if length got < length items then classify_loop llm items rest (classify_attempt llm items attempt got) else got)"

definition classifyBatch :: "classifier \<Rightarrow> classify_input list \<Rightarrow> classified list" where
  "classifyBatch llm items =
    (let got = classify_loop llm items [0, 1] []
     in map (\<lambda>i. nullish (map_of got (input_key i)) (fallback i)) items)"

section \<open>Blocks\<close>

definition truthy_attr :: "attrs \<Rightarrow> jstr \<Rightarrow> bool" where
  "truthy_attr a k \<longleftrightarrow> truthy_num (map_of a k)"

definition attr_text :: "attrs \<Rightarrow> jstr \<Rightarrow> jstr" where
  "attr_text a k = show_num (nullish (map_of a k) 0)"

definition blockKey :: "classified \<Rightarrow> jstr" where
  "blockKey c =
    (let a = cl_attrs c;
         amount = (if truthy_attr a k_volume then attr_text a k_volume @ la ''ml''
                   else if truthy_attr a k_weight then attr_text a k_weight @ la ''g''
                   else if truthy_attr a k_count then attr_text a k_count @ la ''pcs''
                   else la ''nosize'');
         pack = (if truthy_attr a k_count \<and> (truthy_attr a k_volume \<or> truthy_attr a k_weight)
                 then la ''x'' @ attr_text a k_count else [])
     in cl_category c @ la ''|'' @ cl_type c @ la ''|'' @ amount @ pack)"

definition brandInitial :: "classified \<Rightarrow> jstr" where
  "brandInitial c = take 1 (to_lower (nullish (cl_brand c) (la ''?'')))"

definition split_group :: "nat \<Rightarrow> classified list \<Rightarrow> classified list list" where
  "split_group maxSize g =
    (if length g \<le> maxSize then [g]
     else concat (map (chunks maxSize) (js_values (group_by brandInitial g))))"

definition buildBlocks :: "nat \<Rightarrow> classified list \<Rightarrow> classified list list" where
  "buildBlocks maxSize items = concat (map (split_group maxSize) (js_values (group_by blockKey items)))"

section \<open>Lemmas on classification\<close>

text \<open>What every classified product keeps of its source, and what its category and sizes are.\<close>

definition classified_from :: "classify_input \<Rightarrow> classified \<Rightarrow> bool" where
  "classified_from i c \<longleftrightarrow> cl_store c = fst i \<and> cl_product c = snd i \<and> isCategorySlug (cl_category c) \<and>
     list_all (\<lambda>k. case map_of (cl_attrs c) k of None \<Rightarrow> True | Some v \<Rightarrow> 0 < v \<and> v = of_int \<lfloor>v\<rfloor>) [k_volume, k_weight, k_count]"

definition done_ok :: "classify_input list \<Rightarrow> classified_map \<Rightarrow> bool" where
  "done_ok items got \<longleftrightarrow> (\<forall>k c. map_of got k = Some c \<longrightarrow> (\<exists>i. by_key items k = Some i \<and> classified_from i c))"

lemma merged_size_Some: "merged_size re llm = Some v \<Longrightarrow> 0 < v \<and> v = of_int \<lfloor>v\<rfloor>"
  by (auto simp: merged_size_def split: option.splits if_splits)

lemma sizes_of_attrs:
  "map_of (opt_attr k_volume v @ opt_attr k_weight w @ opt_attr k_count c @ opt_attr k_fat f) k_volume = v"
  "map_of (opt_attr k_volume v @ opt_attr k_weight w @ opt_attr k_count c @ opt_attr k_fat f) k_weight = w"
  "map_of (opt_attr k_volume v @ opt_attr k_weight w @ opt_attr k_count c @ opt_attr k_fat f) k_count = c"
  "map_of (opt_attr k_volume v @ opt_attr k_weight w @ opt_attr k_count c @ opt_attr k_fat f) k_fat = f"
  by (simp_all add: map_of_opt_attr map_add_def split: option.splits)

lemma merge_item_attrs: "cl_attrs (merge_item i r) =
    opt_attr k_volume (merged_size (sz_volumeMl (extractSize (sp_name (snd i)))) (it_volume r)) @
    opt_attr k_weight (merged_size (sz_weightGrams (extractSize (sp_name (snd i)))) (it_weight r)) @
    opt_attr k_count (merged_size (sz_packageCount (extractSize (sp_name (snd i)))) (it_count r)) @
    opt_attr k_fat (case extractFat (sp_name (snd i)) of Some f \<Rightarrow> Some f | None \<Rightarrow> it_fat r)"
  by (simp add: merge_item_def Let_def)

lemma merge_item_from: "isCategorySlug (it_category r) \<Longrightarrow> classified_from i (merge_item i r)"
  unfolding classified_from_def merge_item_attrs sizes_of_attrs list.pred_inject
  by (auto simp: merge_item_def Let_def split: option.splits dest: merged_size_Some)

lemma name_attrs_sizes:
  "map_of (name_attrs name) k_volume = map_option of_int (sz_volumeMl (extractSize name))"
  "map_of (name_attrs name) k_weight = map_option of_int (sz_weightGrams (extractSize name))"
  "map_of (name_attrs name) k_count = map_option of_int (sz_packageCount (extractSize name))"
  unfolding name_attrs_def size_attrs_def append_assoc sizes_of_attrs by (rule refl)+

lemma fallback_from: "classified_from i (fallback i)"
  using extractSize_positive [of "sp_name (snd i)"]
  by (auto simp: classified_from_def fallback_def name_attrs_sizes slug_milk_dairy_drinks split: option.splits)

lemma take_item_ok: "done_ok items got \<Longrightarrow> done_ok items (take_item items got r)"
  by (auto simp: done_ok_def take_item_def map_add_def merge_item_from split: option.splits if_splits)

lemma foldl_take_item_ok: "done_ok items got \<Longrightarrow> done_ok items (foldl (take_item items) got rs)"
  by (induction rs arbitrary: got) (simp_all add: take_item_ok)

lemma classify_loop_ok: "done_ok items got \<Longrightarrow> done_ok items (classify_loop llm items attempts got)"
  by (induction attempts arbitrary: got) (simp_all add: classify_attempt_def foldl_take_item_ok split: option.split)

lemma by_key_distinct:
  "distinct (map input_key items) \<Longrightarrow> i \<in> set items \<Longrightarrow> by_key items (input_key i) = Some i"
  unfolding by_key_def by (rule map_of_is_SomeI) (auto simp: rev_map [symmetric] o_def)

section \<open>Lemmas on blocks\<close>

lemma mset_concat_map: "(\<And>x. x \<in> set xs \<Longrightarrow> mset (concat (f x)) = mset x) \<Longrightarrow> mset (concat (concat (map f xs))) = mset (concat xs)"
  by (induction xs) auto

lemma concat_chunks_map: "0 < n \<Longrightarrow> concat (concat (map (chunks n) gs)) = concat gs"
  by (induction gs) (simp_all add: concat_chunks)

lemma mset_split_group: "0 < n \<Longrightarrow> mset (concat (split_group n g)) = mset g"
  by (simp add: split_group_def concat_chunks_map mset_group_by del: map_map)

lemma in_group_values: "ys \<in> set (js_values (group_by f xs)) \<Longrightarrow> ys \<noteq> [] \<and> (\<exists>k. \<forall>y \<in> set ys. f y = k)"
  by (auto dest: group_by_entry)

lemma chunks_subset: "c \<in> set (chunks n xs) \<Longrightarrow> set c \<subseteq> set xs"
proof (cases "0 < n")
  case True
  assume "c \<in> set (chunks n xs)"
  with True show ?thesis by (metis concat_chunks set_concat UN_upper)
next
  case False
  assume "c \<in> set (chunks n xs)"
  with False show ?thesis by (simp add: chunks.simps)
qed

lemma split_group_block:
  assumes "b \<in> set (split_group n g)" and "g \<noteq> []"
  shows "b \<noteq> []" and "length b \<le> n" and "set b \<subseteq> set g"
proof -
  have "b \<noteq> [] \<and> length b \<le> n \<and> set b \<subseteq> set g"
  proof (cases "length g \<le> n")
    case True
    with assms show ?thesis by (simp add: split_group_def)
  next
    case False
    then obtain part where part: "part \<in> set (js_values (group_by brandInitial g))" "b \<in> set (chunks n part)"
      using assms(1) by (auto simp: split_group_def)
    have "set part \<subseteq> set g" using part(1) by (auto dest: group_by_entry)
    with part(2) chunks_bounds chunks_subset show ?thesis by blast
  qed
  then show "b \<noteq> []" "length b \<le> n" "set b \<subseteq> set g" by simp_all
qed

end
