(* ===== verification/Match.thy ===== *)
theory Match
  imports Classify
begin

text \<open>
  The pipeline's agent, second half: clustering the products of a block that different shops
  sell under different names (\<open>agent/match.ts\<close>). The model proposes clusters, the guards decide.
\<close>

section \<open>Clusters\<close>

datatype cluster_method = DeterministicMatch | AiMatch
datatype review = Approved | PendingReview

record cluster =
  cr_members :: "classified list"
  cr_method :: cluster_method
  cr_confidence :: rat
  cr_review :: review

definition cl_key :: "classified \<Rightarrow> jstr" where
  "cl_key c = product_key (cl_store c) (sp_id (cl_product c))"

definition single :: "classified \<Rightarrow> cluster" where
  "single m = \<lparr>cr_members = [m], cr_method = DeterministicMatch, cr_confidence = 1, cr_review = Approved\<rparr>"

section \<open>Similarity of names\<close>

definition token_ch :: "int \<Rightarrow> bool" where
  "token_ch c \<longleftrightarrow> 97 \<le> c \<and> c \<le> 122 \<or> 1072 \<le> c \<and> c \<le> 1103 \<or> digit_ch c \<or> c = 46"

text \<open>\<open>s.split(/[^...]+/).filter(Boolean)\<close>: the maximal runs of token characters.\<close>

fun token_runs :: "jstr \<Rightarrow> jstr \<Rightarrow> jstr list" where
  "token_runs w [] = (if w = [] then [] else [rev w])"
| "token_runs w (c # s) =
    (if token_ch c then token_runs (c # w) s
     else (if w = [] then [] else [rev w]) @ token_runs [] s)"

definition tokens :: "jstr \<Rightarrow> jstr list" where
  "tokens s = js_set (token_runs [] (normalizeText s))"

definition similarity :: "jstr \<Rightarrow> jstr \<Rightarrow> rat" where
  "similarity a b =
    (let x = tokens a; y = tokens b; inter = length (filter (\<lambda>t. t \<in> set y) x)
     in of_nat inter / of_nat (max 1 (length x + length y - inter)))"

section \<open>Guards\<close>

definition sameShape :: "classified \<Rightarrow> classified \<Rightarrow> bool" where
  "sameShape anchor x \<longleftrightarrow>
    list_all (\<lambda>k. map_of (cl_attrs anchor) k = map_of (cl_attrs x) k) [k_volume, k_weight, k_count, k_fat]"

type_synonym guarded = "classified list \<times> classified list"   \<comment> \<open>kept and ejected\<close>

definition guard_member :: "classified \<Rightarrow> guarded \<Rightarrow> classified \<Rightarrow> guarded" where
  "guard_member anchor st m =
    (if \<not> sameShape anchor m \<or> cl_store m \<in> cl_store ` set (fst st)
     then (fst st, snd st @ [m]) else (fst st @ [m], snd st))"

text \<open>Those most like the anchor come first, so of two offers of one shop the most similar stays.\<close>

definition guard_rest :: "classified \<Rightarrow> classified list \<Rightarrow> guarded" where
  "guard_rest anchor rest =
    (let name = sp_name (cl_product anchor)
     in foldl (guard_member anchor) ([anchor], [])
          (js_sort (\<lambda>p q. similarity name (sp_name (cl_product q)) \<le> similarity name (sp_name (cl_product p))) rest))"

definition applyGuards :: "cluster \<Rightarrow> cluster list" where
  "applyGuards c =
    (case cr_members c of
       [] \<Rightarrow> [c]
     | [_] \<Rightarrow> [c]
     | anchor # rest \<Rightarrow>
         let (kept, ejected) = guard_rest anchor rest
         in c\<lparr>cr_members := kept\<rparr> # map single ejected)"

section \<open>Matching a block\<close>

text \<open>
  The clusters the model answers, as identifiers with a confidence; nothing when a call throws
  or the answer has the wrong shape. \<open>valid_reply\<close> is what the schema checks.
\<close>

type_synonym match_reply = "(jstr list \<times> rat) list"

definition valid_reply :: "match_reply \<Rightarrow> bool" where
  "valid_reply r \<longleftrightarrow> list_all (\<lambda>(ids, confidence). ids \<noteq> [] \<and> 0 \<le> confidence \<and> confidence \<le> 1) r"

type_synonym match_row = "jstr \<times> chain \<times> jstr \<times> jstr option \<times> attrs"

definition match_prompt :: "classified list \<Rightarrow> match_row list" where
  "match_prompt block = map (\<lambda>b. (cl_key b, cl_store b, sp_name (cl_product b), cl_brand b, cl_attrs b)) block"

type_synonym matcher = "nat \<Rightarrow> match_row list \<Rightarrow> match_reply option"

definition ask_twice :: "matcher \<Rightarrow> match_row list \<Rightarrow> match_reply option" where
  "ask_twice llm p = (case llm 0 p of Some r \<Rightarrow> Some r | None \<Rightarrow> llm 1 p)"

definition by_id :: "classified list \<Rightarrow> jstr \<Rightarrow> classified option" where
  "by_id block = map_of (rev (map (\<lambda>b. (cl_key b, b)) block))"

definition cluster_members :: "classified list \<Rightarrow> jstr list \<Rightarrow> jstr list \<Rightarrow> classified list" where
  "cluster_members block used ids =
    map (\<lambda>x. the (by_id block x)) (filter (\<lambda>x. by_id block x \<noteq> None \<and> x \<notin> set used) ids)"

text \<open>The clusters made of one answered cluster.\<close>

definition accept_cluster :: "classified list \<Rightarrow> rat \<Rightarrow> cluster list" where
  "accept_cluster members confidence =
    (if members = [] then []
     else if length members = 1 \<or> confidence < 4 / 5 then map single members
     else applyGuards \<lparr>cr_members = members, cr_method = AiMatch, cr_confidence = confidence,
       cr_review = (if 19 / 20 \<le> confidence then Approved else PendingReview)\<rparr>)"

type_synonym match_state = "jstr list \<times> cluster list"   \<comment> \<open>\<open>used\<close> and \<open>out\<close>\<close>

definition take_cluster :: "classified list \<Rightarrow> match_state \<Rightarrow> jstr list \<times> rat \<Rightarrow> match_state" where
  "take_cluster block st c =
    (let members = cluster_members block (fst st) (fst c)
     in (fst st @ map cl_key members, snd st @ accept_cluster members (snd c)))"

definition matchBlock :: "matcher \<Rightarrow> classified list \<Rightarrow> cluster list" where
  "matchBlock llm block =
    (if length (js_set (map cl_store block)) < 2 then map single block
     else case ask_twice llm (match_prompt block) of
            None \<Rightarrow> map single block
          | Some reply \<Rightarrow>
              let (used, out) = foldl (take_cluster block) ([], []) reply
              in out @ map single (filter (\<lambda>b. cl_key b \<notin> set used) block))"

section \<open>Lemmas\<close>

abbreviation members_of :: "cluster list \<Rightarrow> classified list" where
  "members_of cs \<equiv> concat (map cr_members cs)"

lemma members_single [simp]: "members_of (map single ms) = ms"
  by (induction ms) (simp_all add: single_def)

lemma members_single' [simp]: "concat (map (cr_members \<circ> single) ms) = ms"
  using members_single [of ms] by simp

lemma common_le: "distinct xs \<Longrightarrow> length (filter (\<lambda>t. t \<in> set ys) xs) \<le> length ys"
proof -
  assume "distinct xs"
  then have "length (filter (\<lambda>t. t \<in> set ys) xs) = card (set (filter (\<lambda>t. t \<in> set ys) xs))"
    by (intro distinct_card [symmetric] distinct_filter)
  also have "\<dots> \<le> card (set ys)" by (rule card_mono) auto
  also have "\<dots> \<le> length ys" by (rule card_length)
  finally show ?thesis .
qed

lemma similarity_range: "0 \<le> similarity a b" "similarity a b \<le> 1"
proof -
  define x where "x = tokens a"
  define y where "y = tokens b"
  define i where "i = length (filter (\<lambda>t. t \<in> set y) x)"
  have s: "similarity a b = of_nat i / of_nat (max 1 (length x + length y - i))"
    by (simp add: similarity_def Let_def x_def y_def i_def)
  show "0 \<le> similarity a b" by (simp add: s)
  have "i \<le> length y" unfolding i_def by (rule common_le) (simp add: x_def tokens_def)
  moreover have "i \<le> length x" by (simp add: i_def)
  ultimately have "i \<le> max 1 (length x + length y - i)" by linarith
  then have "(of_nat i :: rat) \<le> of_nat (max 1 (length x + length y - i))" by (rule of_nat_mono)
  moreover have "(0 :: rat) < of_nat (max 1 (length x + length y - i))" by simp
  ultimately show "similarity a b \<le> 1" unfolding s by (simp only: divide_le_eq_1_pos)
qed

text \<open>A cluster that may be published as one product: one offer per shop, equal sizes.\<close>

definition coherent :: "cluster \<Rightarrow> bool" where
  "coherent c \<longleftrightarrow> distinct (map cl_store (cr_members c)) \<and>
     (\<forall>m \<in> set (cr_members c). sameShape (hd (cr_members c)) m)"

lemma sameShape_refl [simp]: "sameShape m m"
  by (simp add: sameShape_def)

lemma coherent_single [simp]: "coherent (single m)"
  by (simp add: coherent_def single_def sameShape_def)

definition guard_inv :: "classified \<Rightarrow> guarded \<Rightarrow> bool" where
  "guard_inv anchor st \<longleftrightarrow> distinct (map cl_store (fst st)) \<and> list_all (sameShape anchor) (fst st) \<and>
     fst st \<noteq> [] \<and> hd (fst st) = anchor"

lemma guard_member_inv: "guard_inv anchor st \<Longrightarrow> guard_inv anchor (guard_member anchor st m)"
  by (auto simp: guard_inv_def guard_member_def)

lemma foldl_guard_inv: "guard_inv anchor st \<Longrightarrow> guard_inv anchor (foldl (guard_member anchor) st ms)"
  by (induction ms arbitrary: st) (simp_all add: guard_member_inv)

lemma guard_member_mset:
  "mset (fst (guard_member anchor st m) @ snd (guard_member anchor st m)) = add_mset m (mset (fst st @ snd st))"
  by (simp add: guard_member_def)

lemma foldl_guard_mset:
  "mset (fst (foldl (guard_member anchor) st ms) @ snd (foldl (guard_member anchor) st ms)) = mset (fst st @ snd st) + mset ms"
proof (induction ms arbitrary: st)
  case (Cons m ms)
  then show ?case
    using guard_member_mset [of anchor st m] by simp
qed simp

lemma guard_rest_mset: "mset (fst (guard_rest anchor rest)) + mset (snd (guard_rest anchor rest)) = add_mset anchor (mset rest)"
  using foldl_guard_mset [of anchor "([anchor], [])"] by (simp add: guard_rest_def Let_def)

lemma guard_rest_inv: "guard_inv anchor (guard_rest anchor rest)"
  unfolding guard_rest_def Let_def by (rule foldl_guard_inv) (simp add: guard_inv_def)

lemma applyGuards_Cons:
  "cr_members c = anchor # m # rest \<Longrightarrow>
   applyGuards c = c\<lparr>cr_members := fst (guard_rest anchor (m # rest))\<rparr> # map single (snd (guard_rest anchor (m # rest)))"
  by (simp add: applyGuards_def split: prod.splits)

lemma applyGuards_short: "length (cr_members c) < 2 \<Longrightarrow> applyGuards c = [c]"
  by (cases "cr_members c"; cases "tl (cr_members c)") (auto simp: applyGuards_def)

lemma two_members: "\<not> length xs < 2 \<Longrightarrow> (\<And>a b ys. xs = a # b # ys \<Longrightarrow> P) \<Longrightarrow> P"
  by (cases xs; cases "tl xs") auto

lemma applyGuards_mset: "mset (members_of (applyGuards c)) = mset (cr_members c)"
proof (cases "length (cr_members c) < 2")
  case False
  then obtain anchor m rest where c: "cr_members c = anchor # m # rest" by (rule two_members)
  then show ?thesis using guard_rest_mset [of anchor "m # rest"] by (simp add: applyGuards_Cons)
qed (simp add: applyGuards_short)

lemma applyGuards_coherent:
  assumes "d \<in> set (applyGuards c)" and "cr_members c \<noteq> []"
  shows "coherent d \<and> cr_members d \<noteq> []"
proof (cases "length (cr_members c) < 2")
  case False
  then obtain anchor m rest where c: "cr_members c = anchor # m # rest" by (rule two_members)
  let ?st = "guard_rest anchor (m # rest)"
  have "d = c\<lparr>cr_members := fst ?st\<rparr> \<or> d \<in> single ` set (snd ?st)"
    using assms(1) by (simp add: applyGuards_Cons [OF c])
  then show ?thesis
    using guard_rest_inv [of anchor "m # rest"]
    by (elim disjE) (auto simp: coherent_def guard_inv_def list_all_iff single_def sameShape_refl)
next
  case True
  with assms have "d = c" by (simp add: applyGuards_short)
  moreover from True assms(2) obtain m where "cr_members c = [m]"
    by (cases "cr_members c"; cases "tl (cr_members c)") auto
  ultimately show ?thesis by (simp add: coherent_def sameShape_refl)
qed

lemma accept_cluster_mset: "mset (members_of (accept_cluster ms q)) = mset ms"
  by (auto simp: accept_cluster_def applyGuards_mset)

lemma accept_cluster_coherent: "d \<in> set (accept_cluster ms q) \<Longrightarrow> coherent d \<and> cr_members d \<noteq> []"
  by (auto simp: accept_cluster_def single_def coherent_def dest!: applyGuards_coherent split: if_splits)

lemma by_id_key: "by_id block x = Some b \<Longrightarrow> b \<in> set block \<and> cl_key b = x"
  by (auto simp: by_id_def dest!: map_of_SomeD)

lemma by_id_member: "distinct (map cl_key block) \<Longrightarrow> b \<in> set block \<Longrightarrow> by_id block (cl_key b) = Some b"
  unfolding by_id_def by (rule map_of_is_SomeI) (auto simp: rev_map [symmetric] o_def)

lemma key_of_by_id: "by_id block x \<noteq> None \<Longrightarrow> cl_key (the (by_id block x)) = x"
  using by_id_key by auto

lemma keys_cluster_members:
  "map cl_key (cluster_members block used ids) = filter (\<lambda>x. by_id block x \<noteq> None \<and> x \<notin> set used) ids"
  unfolding cluster_members_def map_map by (rule map_idI) (simp add: key_of_by_id del: not_None_eq)

lemma cluster_members_subset: "set (cluster_members block used ids) \<subseteq> set block"
  by (auto simp: cluster_members_def dest: by_id_key)

text \<open>
  How often the answer has a product taken: as often as the first cluster that names it names it,
  since the identifiers are marked as used only after the members of a cluster are collected.
\<close>

definition times_named :: "match_reply \<Rightarrow> jstr \<Rightarrow> nat" where
  "times_named cs x = (case List.find (\<lambda>c. x \<in> set (fst c)) cs of None \<Rightarrow> 0 | Some c \<Rightarrow> count_list (fst c) x)"

lemma find_append: "List.find P (xs @ ys) = (case List.find P xs of None \<Rightarrow> List.find P ys | Some x \<Rightarrow> Some x)"
  by (induction xs) simp_all

lemma find_SomeD: "List.find P xs = Some x \<Longrightarrow> x \<in> set xs \<and> P x"
  by (induction xs) (auto split: if_splits)

lemma times_named_snoc: "times_named (cs @ [c]) x = (if 0 < times_named cs x then times_named cs x else count_list (fst c) x)"
proof (cases "List.find (\<lambda>c. x \<in> set (fst c)) cs")
  case (Some d)
  then have "x \<in> set (fst d)" by (auto dest: find_SomeD)
  then have "count_list (fst d) x \<noteq> 0" by (simp add: count_list_0_iff)
  with Some show ?thesis by (simp add: times_named_def find_append)
next
  case None
  then show ?thesis by (simp add: times_named_def find_append count_list_0_iff [symmetric])
qed

lemma times_named_once:
  assumes "list_all (\<lambda>c. distinct (fst c)) cs"
  shows "times_named cs x \<le> 1"
proof (cases "List.find (\<lambda>c. x \<in> set (fst c)) cs")
  case (Some c)
  then have "c \<in> set cs" by (auto dest: find_SomeD)
  then have "distinct (fst c)" using assms by (simp add: list_all_iff)
  then have "count_list (fst c) x \<le> 1" by (simp add: count_mset [symmetric] distinct_count_atmost_1 split: if_splits)
  with Some show ?thesis by (simp add: times_named_def)
qed (simp add: times_named_def)

text \<open>What the loop over the answer keeps.\<close>

definition match_inv :: "classified list \<Rightarrow> match_reply \<Rightarrow> match_state \<Rightarrow> bool" where
  "match_inv block cs st \<longleftrightarrow> mset (map cl_key (members_of (snd st))) = mset (fst st) \<and>
     (\<forall>x. count_list (fst st) x = (if by_id block x = None then 0 else times_named cs x)) \<and>
     set (members_of (snd st)) \<subseteq> set block \<and> list_all (\<lambda>c. coherent c \<and> cr_members c \<noteq> []) (snd st)"

lemma count_list_filter: "count_list (filter P xs) x = (if P x then count_list xs x else 0)"
  by (induction xs) auto

lemma count_list_distinct: "distinct xs \<Longrightarrow> count_list xs x = (if x \<in> set xs then 1 else 0)"
  by (induction xs) auto

lemma take_cluster_inv:
  assumes "match_inv block cs st"
  shows "match_inv block (cs @ [c]) (take_cluster block st c)"
proof -
  let ?ms = "cluster_members block (fst st) (fst c)"
  have acc: "mset (members_of (accept_cluster ?ms (snd c))) = mset ?ms" by (rule accept_cluster_mset)
  then have in_block: "set (members_of (accept_cluster ?ms (snd c))) \<subseteq> set block"
    using cluster_members_subset mset_eq_setD by metis
  have keys: "mset (map cl_key (members_of (accept_cluster ?ms (snd c)))) = mset (map cl_key ?ms)"
    using acc by (metis mset_map)
  have used: "x \<in> set (fst st) \<longleftrightarrow> by_id block x \<noteq> None \<and> 0 < times_named cs x" for x
    using assms count_list_0_iff [of "fst st" x] by (auto simp: match_inv_def split: if_splits)
  have "count_list (fst st @ map cl_key ?ms) x = (if by_id block x = None then 0 else times_named (cs @ [c]) x)" for x
    using assms used [of x] by (auto simp: match_inv_def keys_cluster_members count_list_filter times_named_snoc)
  with assms keys in_block show ?thesis
    by (auto simp: match_inv_def take_cluster_def Let_def list_all_iff dest: accept_cluster_coherent)
qed

lemma foldl_take_cluster_inv:
  "match_inv block ds st \<Longrightarrow> match_inv block (ds @ cs) (foldl (take_cluster block) st cs)"
proof (induction cs arbitrary: ds st)
  case (Cons c cs)
  from Cons.IH [OF take_cluster_inv [OF Cons.prems, of c]] show ?case by simp
qed simp

lemma count_by_key: "inj_on f S \<Longrightarrow> set xs \<subseteq> S \<Longrightarrow> m \<in> S \<Longrightarrow> count_list (map f xs) (f m) = count_list xs m"
  by (induction xs) (auto dest: inj_onD)

text \<open>The whole answer: a product is clustered as often as it is named, and once when it is not.\<close>

lemma clustered_counts:
  assumes inv: "match_inv block cs st" and keys: "distinct (map cl_key block)" and m: "m \<in> set block"
  shows "count_list (members_of (snd st @ map single (filter (\<lambda>b. cl_key b \<notin> set (fst st)) block))) m = max 1 (times_named cs (cl_key m))"
proof -
  let ?ms = "members_of (snd st)" and ?rest = "filter (\<lambda>b. cl_key b \<notin> set (fst st)) block"
  have sub: "set ?ms \<subseteq> set block" and same: "mset (map cl_key ?ms) = mset (fst st)" using inv by (simp_all add: match_inv_def)
  have known: "by_id block (cl_key m) = Some m" by (rule by_id_member [OF keys m])
  have "count_list ?ms m = count_list (map cl_key ?ms) (cl_key m)"
    by (rule count_by_key [OF _ sub m, symmetric]) (use keys in \<open>simp add: distinct_map\<close>)
  also have "\<dots> = count_list (fst st) (cl_key m)" using same by (metis count_mset)
  finally have used: "count_list ?ms m = times_named cs (cl_key m)" using inv known by (simp add: match_inv_def)
  have "count_list block m = 1" using keys m by (simp add: distinct_map count_list_distinct)
  then have "count_list ?rest m = (if cl_key m \<in> set (fst st) then 0 else 1)" by (simp add: count_list_filter)
  moreover have "cl_key m \<in> set (fst st) \<longleftrightarrow> 0 < times_named cs (cl_key m)"
    using inv known count_list_0_iff [of "fst st" "cl_key m"] by (auto simp: match_inv_def)
  ultimately show ?thesis using used by simp
qed

end
