(* ===== verification/Bundle.thy ===== *)
theory Bundle
  imports Match
begin

text \<open>
  The bundle the pipeline delivers to the server (\<open>agent/bundle.ts\<close>): the offers as collected,
  the canonical products with their members, a run per source; the quality report; and the
  comparison of two bundles (\<open>sync/compare.ts\<close>).
\<close>

section \<open>The data\<close>

record bundle_raw =
  br_store :: chain
  br_id :: jstr
  br_sourceUrl :: "jstr option"
  br_name :: jstr
  br_brand :: "jstr option"
  br_category :: "jstr option"
  br_price :: int
  br_oldPrice :: "int option"
  br_imageUrl :: "jstr option"
  br_payload :: "(jstr \<times> jval) list"

record bundle_member =
  bm_raw :: bundle_raw
  bm_method :: cluster_method
  bm_confidence :: rat
  bm_review :: review

record bundle_canonical =
  bc_name :: jstr
  bc_brand :: "jstr option"
  bc_category :: jstr
  bc_imageUrl :: "jstr option"
  bc_attributes :: attrs
  bc_members :: "bundle_member list"

record source_run =
  sr_store :: chain
  sr_capturedAt :: jstr
  sr_productCount :: nat
  sr_errorCount :: nat

record sync_bundle =
  bu_version :: jstr
  bu_generatedAt :: jstr
  bu_raw :: "bundle_raw list"
  bu_canonicals :: "bundle_canonical list"
  bu_runs :: "source_run list"

section \<open>Building it\<close>

definition IMAGE_ORDER :: "chain list" where
  "IMAGE_ORDER = [Dina, Dana, Anvar, FixPrice]"

fun index_in :: "'a list \<Rightarrow> 'a \<Rightarrow> nat" where
  "index_in [] x = 0"
| "index_in (y # ys) x = (if x = y then 0 else Suc (index_in ys x))"

definition BULKY_PAYLOAD_KEYS :: "jstr list" where
  "BULKY_PAYLOAD_KEYS = [la ''images'', la ''resources'', la ''preview'']"

definition slimPayload :: "(jstr \<times> jval) list \<Rightarrow> (jstr \<times> jval) list" where
  "slimPayload payload = filter (\<lambda>(k, v). k \<notin> set BULKY_PAYLOAD_KEYS) payload"

definition toRaw :: "classified \<Rightarrow> bundle_raw" where
  "toRaw c =
    (let p = cl_product c
     in \<lparr>br_store = cl_store c, br_id = sp_id p, br_sourceUrl = sp_sourceUrl p, br_name = sp_name p,
         br_brand = cl_brand c, br_category = or_undefined (Some (join (la '' / '') (sp_path p))),
         br_price = sp_price p, br_oldPrice = sp_oldPrice p, br_imageUrl = sp_imageUrl p,
         br_payload = AList.update (la ''agentFlags'') (JStr (join (la '','') (cl_flags c))) (slimPayload (sp_raw p))\<rparr>)"

text \<open>The most frequent value, the earliest of those that tie.\<close>

definition mode_of :: "'a list \<Rightarrow> 'a option" where
  "mode_of xs = (case js_sort (\<lambda>a b. snd b \<le> snd a) (tally xs) of [] \<Rightarrow> None | (x, _) # _ \<Rightarrow> Some x)"

definition has_https_image :: "classified \<Rightarrow> bool" where
  "has_https_image m = (case sp_imageUrl (cl_product m) of None \<Rightarrow> False | Some u \<Rightarrow> starts_with u (la ''https://''))"

text \<open>The member whose picture is shown, by the order of the shops.\<close>

definition with_image :: "classified list \<Rightarrow> classified option" where
  "with_image ms =
    List.find has_https_image
      (js_sort (\<lambda>x y. index_in IMAGE_ORDER (cl_store x) \<le> index_in IMAGE_ORDER (cl_store y)) ms)"

definition lead_of :: "classified list \<Rightarrow> classified" where
  "lead_of ms = (case with_image ms of Some m \<Rightarrow> m | None \<Rightarrow> hd ms)"

definition canonical_of :: "cluster \<Rightarrow> bundle_canonical" where
  "canonical_of c =
    (let ms = cr_members c; lead = lead_of ms
     in \<lparr>bc_name = cl_display lead,
         bc_brand = mode_of (List.map_filter or_undefined (map cl_brand ms)),
         bc_category = cl_category lead,
         bc_imageUrl = (case with_image ms of Some m \<Rightarrow> sp_imageUrl (cl_product m) | None \<Rightarrow> None),
         bc_attributes = cl_attrs lead,
         bc_members = map (\<lambda>m. \<lparr>bm_raw = toRaw m, bm_method = cr_method c, bm_confidence = cr_confidence c, bm_review = cr_review c\<rparr>) ms\<rparr>)"

text \<open>A cluster without members would make \<open>lead\<close> undefined and its use throw.\<close>

definition buildBundle :: "cluster list \<Rightarrow> source_meta list \<Rightarrow> jstr \<Rightarrow> perror + sync_bundle" where
  "buildBundle clusters sources generatedAt =
    (if list_ex (\<lambda>c. cr_members c = []) clusters then Inl (Error (la ''TypeError''))
     else
       let raws = concat (map (\<lambda>c. map toRaw (cr_members c)) clusters);
           count = (\<lambda>s. length (filter (\<lambda>r. br_store r = s) raws))
       in Inr \<lparr>bu_version = la ''1.0'', bu_generatedAt = generatedAt, bu_raw = raws,
               bu_canonicals = map canonical_of clusters,
               bu_runs = map (\<lambda>s. \<lparr>sr_store = sf_store s, sr_capturedAt = sf_capturedAt s,
                 sr_productCount = count (sf_store s), sr_errorCount = sf_errorCount s\<rparr>) sources\<rparr>)"

section \<open>The quality report\<close>

definition chains_of :: "bundle_canonical \<Rightarrow> nat" where
  "chains_of g = length (js_set (map (\<lambda>m. br_store (bm_raw m)) (bc_members g)))"

definition count_text :: "'a list \<Rightarrow> jstr" where
  "count_text xs = show_nat (int (length xs))"

definition qualityReport :: "sync_bundle \<Rightarrow> jstr" where
  "qualityReport b =
    (let cs = bu_canonicals b;
         by_cat = js_sort (\<lambda>x y. snd y \<le> snd x) (tally (map bc_category cs));
         pending = filter (\<lambda>m. bm_review m = PendingReview) (concat (map bc_members cs))
     in join [10]
          ([la ''# Data quality report ('' @ bu_generatedAt b @ la '')'', []] @
           map (\<lambda>s. la ''- '' @ chain_code (sr_store s) @ la '' raw: '' @ show_nat (int (sr_productCount s)) @
                    la '' (errors '' @ show_nat (int (sr_errorCount s)) @ la '')'') (bu_runs b) @
           [la ''- Canonical: '' @ count_text cs,
            la ''- Offers: '' @ count_text (bu_raw b),
            la ''- Matched across 2+ stores: '' @ count_text (filter (\<lambda>g. 2 \<le> chains_of g) cs),
            la ''- Matched across 3+ stores: '' @ count_text (filter (\<lambda>g. 3 \<le> chains_of g) cs),
            la ''- Missing image: '' @ count_text (filter (\<lambda>g. \<not> truthy_str (bc_imageUrl g)) cs),
            la ''- Pending review mappings: '' @ count_text pending,
            [], la ''## Canonical by category''] @
           map (\<lambda>(k, v). la ''- '' @ k @ la '': '' @ show_nat (int v)) by_cat))"

section \<open>Comparing two bundles\<close>

record price_change =
  pc_id :: jstr
  pc_a :: int
  pc_b :: int

record bundle_diff =
  df_a :: nat
  df_b :: nat
  df_onlyA :: "jstr list"
  df_onlyB :: "jstr list"
  df_priceChanged :: "price_change list"
  df_mismatchRatio :: rat
  df_perStore :: "(chain \<times> nat \<times> nat) list"

definition raw_key :: "bundle_raw \<Rightarrow> jstr" where
  "raw_key r = product_key (br_store r) (br_id r)"

text \<open>\<open>new Map(entries)\<close>: the last entry of a key, at the place of its first.\<close>

definition index_bundle :: "sync_bundle \<Rightarrow> (jstr \<times> bundle_raw) list" where
  "index_bundle b = foldl (\<lambda>m r. AList.update (raw_key r) r m) [] (bu_raw b)"

definition count_store :: "bool \<Rightarrow> (chain \<times> nat \<times> nat) list \<Rightarrow> bundle_raw \<Rightarrow> (chain \<times> nat \<times> nat) list" where
  "count_store left m r =
    (let (a, b) = nullish (map_of m (br_store r)) (0, 0)
     in AList.update (br_store r) (if left then (a + 1, b) else (a, b + 1)) m)"

definition price_change_of :: "(jstr \<times> bundle_raw) list \<Rightarrow> jstr \<times> bundle_raw \<Rightarrow> price_change option" where
  "price_change_of ib e =
    (case map_of ib (fst e) of
       None \<Rightarrow> None
     | Some rb \<Rightarrow> if br_price rb \<noteq> br_price (snd e)
         then Some \<lparr>pc_id = fst e, pc_a = br_price (snd e), pc_b = br_price rb\<rparr> else None)"

definition compareBundles :: "sync_bundle \<Rightarrow> sync_bundle \<Rightarrow> bundle_diff" where
  "compareBundles a b =
    (let ia = index_bundle a; ib = index_bundle b;
         onlyA = filter (\<lambda>k. map_of ib k = None) (js_keys ia);
         onlyB = filter (\<lambda>k. map_of ia k = None) (js_keys ib);
         stores = foldl (count_store False) (foldl (count_store True) [] (js_values ia)) (js_values ib)
     in \<lparr>df_a = length ia, df_b = length ib, df_onlyA = onlyA, df_onlyB = onlyB,
         df_priceChanged = List.map_filter (price_change_of ib) ia,
         df_mismatchRatio = of_nat (length onlyA + length onlyB) / of_nat (max (length ia) 1),
         df_perStore = stores\<rparr>)"

section \<open>Lemmas\<close>

interpretation image_order: ranked "\<lambda>x y. index_in IMAGE_ORDER (cl_store x) \<le> index_in IMAGE_ORDER (cl_store y)"
  by (rule ranked_key)

interpretation most_frequent: ranked "\<lambda>a b. snd b \<le> (snd a :: nat)"
  by (rule ranked_key_desc)

lemma mode_of_None [simp]: "mode_of xs = None \<longleftrightarrow> xs = []"
proof -
  have "tally xs = [] \<longleftrightarrow> xs = []" by (metis keys_tally map_is_Nil_conv js_set_empty_iff)
  then show ?thesis
    by (cases "js_sort (\<lambda>a b. snd b \<le> snd a) (tally xs)") (auto simp: mode_of_def)
qed

lemma mode_of_most_frequent:
  assumes "mode_of xs = Some x"
  shows "x \<in> set xs" and "y \<in> set xs \<Longrightarrow> count_list xs y \<le> count_list xs x"
proof -
  let ?s = "js_sort (\<lambda>a b. snd b \<le> snd a) (tally xs)"
  obtain n rest where s: "?s = (x, n) # rest"
    using assms by (auto simp: mode_of_def split: list.splits)
  have "(x, n) \<in> set ?s" unfolding s by simp
  then have x: "x \<in> set xs" "n = count_list xs x" by (simp_all add: tally_entry)
  then show "x \<in> set xs" by simp
  assume "y \<in> set xs"
  then have "(y, count_list xs y) \<in> set (tally xs)" by (simp add: tally_entry)
  from most_frequent.hd_js_sort_least [OF this] show "count_list xs y \<le> count_list xs x"
    by (simp add: s x(2))
qed

lemma with_image_in: "with_image ms = Some m \<Longrightarrow> m \<in> set ms \<and> has_https_image m"
  by (auto simp: with_image_def dest!: find_Some_iff)

lemma lead_of_in: "ms \<noteq> [] \<Longrightarrow> lead_of ms \<in> set ms"
  by (cases "with_image ms") (auto simp: lead_of_def dest: with_image_in)

lemma buildBundle_Inr:
  "buildBundle clusters sources generatedAt = Inr b \<Longrightarrow>
    bu_raw b = concat (map (\<lambda>c. map toRaw (cr_members c)) clusters) \<and> bu_canonicals b = map canonical_of clusters \<and>
    bu_generatedAt b = generatedAt \<and> list_all (\<lambda>c. cr_members c \<noteq> []) clusters"
  by (auto simp: buildBundle_def Let_def list_all_iff list_ex_iff split: if_splits)

lemma buildBundle_ok: "list_all (\<lambda>c. cr_members c \<noteq> []) clusters \<Longrightarrow> \<exists>b. buildBundle clusters sources generatedAt = Inr b"
  by (auto simp: buildBundle_def Let_def list_all_iff list_ex_iff)

lemma foldl_index: 
  "map_of (foldl (\<lambda>m r. AList.update (f r) r m) m rs) k =
    (case List.find (\<lambda>r. f r = k) (rev rs) of Some r \<Rightarrow> Some r | None \<Rightarrow> map_of m k)"
proof (induction rs arbitrary: m rule: rev_induct)
  case (snoc r rs)
  then show ?case by (auto simp: js_map)
qed simp

lemma keys_foldl_index: "js_keys (foldl (\<lambda>m r. AList.update (f r) r m) m rs) = set_onto (js_keys m) (map f rs)"
  by (induction rs arbitrary: m) (auto simp: update_keys)

lemma keys_index_bundle [simp]: "js_keys (index_bundle b) = js_set (map raw_key (bu_raw b))"
  by (simp add: index_bundle_def keys_foldl_index js_set_def)

lemma map_of_index_None [simp]: "map_of (index_bundle b) k = None \<longleftrightarrow> k \<notin> raw_key ` set (bu_raw b)"
  by (metis keys_index_bundle map_of_eq_None_iff set_js_set set_map)

lemma index_bundle_key: "map_of (index_bundle b) k = Some r \<Longrightarrow> r \<in> set (bu_raw b) \<and> raw_key r = k"
  by (auto simp: index_bundle_def foldl_index dest!: find_Some_iff split: option.splits)

lemma length_le_members: "length (filter P xs) = 0 \<longleftrightarrow> (\<forall>x \<in> set xs. \<not> P x)"
  by (simp add: filter_empty_conv)

end
