(* ===== verification/Dictionary.thy ===== *)
theory Dictionary
  imports Bundle
begin

text \<open>
  The dictionary of canonical products (\<open>mapping/dictionary.ts\<close>): the cards, the card of each
  known product and the category of each shop's category; how it is built from a bundle, how a
  product's category is resolved, how it is written and read. The digest, \<open>JSON\<close> text and
  \<open>localeCompare\<close> are parameters.
\<close>

section \<open>The data\<close>

record card =
  ca_name :: jstr
  ca_brand :: "jstr option"
  ca_category :: jstr
  ca_attributes :: attrs
  ca_method :: cluster_method
  ca_confidence :: rat
  ca_review :: review

text \<open>Objects used as dictionaries are maps from their own keys.\<close>

record dictionary =
  dc_generatedAt :: jstr
  dc_canonicals :: "(jstr \<times> card) list"
  dc_products :: "(jstr \<times> jstr) list"
  dc_storeCategories :: "(jstr \<times> jstr) list"

definition valid_card :: "card \<Rightarrow> bool" where
  "valid_card c \<longleftrightarrow> ca_name c \<noteq> [] \<and> isCategorySlug (ca_category c) \<and> 0 \<le> ca_confidence c \<and> ca_confidence c \<le> 1"

definition valid_dictionary :: "(jstr \<Rightarrow> bool) \<Rightarrow> dictionary \<Rightarrow> bool" where
  "valid_dictionary is_datetime d \<longleftrightarrow> is_datetime (dc_generatedAt d) \<and>
     list_all (\<lambda>(k, c). valid_card c) (dc_canonicals d) \<and>
     list_all (\<lambda>(k, s). isCategorySlug s) (dc_storeCategories d)"

definition parseDictionary :: "(jstr \<Rightarrow> bool) \<Rightarrow> dictionary \<Rightarrow> perror + dictionary" where
  "parseDictionary is_datetime d = (if valid_dictionary is_datetime d then Inr d else Inl ZodError)"

section \<open>Resolving a category\<close>

text \<open>The key of a shop's category; a path is joined, an absent one is empty.\<close>

definition storeCategoryKey :: "chain \<Rightarrow> jstr \<Rightarrow> jstr" where
  "storeCategoryKey store path = chain_code store @ [124] @ path"

text \<open>The category, and the card with its key when the product is known.\<close>

type_synonym resolved = "jstr \<times> (jstr \<times> card) option"

definition known_card :: "dictionary \<Rightarrow> chain \<Rightarrow> source_product \<Rightarrow> (jstr \<times> card) option" where
  "known_card d store p =
    (case map_of (dc_products d) (product_key store (sp_id p)) of
       None \<Rightarrow> None
     | Some key \<Rightarrow> if key = [] then None else map_option (Pair key) (map_of (dc_canonicals d) key))"

definition resolveCategory :: "dictionary \<Rightarrow> chain \<Rightarrow> source_product \<Rightarrow> resolved" where
  "resolveCategory d store p =
    (case known_card d store p of
       Some (key, c) \<Rightarrow> (refineCategory (ca_category c) (ca_name c) (map_of (ca_attributes c) k_fat), Some (key, c))
     | None \<Rightarrow>
         let storeCategory = nullish (map_of (dc_storeCategories d) (storeCategoryKey store (join (la '' / '') (sp_path p)))) (la ''other'')
         in (refineCategory storeCategory (sp_name p) (extractFat (sp_name p)), None))"

section \<open>Building the dictionary\<close>

text \<open>The key of a card is fixed by the least identifier of its first members.\<close>

definition canonicalKey :: "(jstr \<Rightarrow> jstr) \<Rightarrow> jstr list \<Rightarrow> perror + jstr" where
  "canonicalKey sha memberIds =
    (case js_sort str_le memberIds of
       [] \<Rightarrow> Inl (Error (la ''canonical without members''))
     | first # _ \<Rightarrow> if first = [] then Inl (Error (la ''canonical without members''))
                    else Inr (la ''c_'' @ take 16 (sha first)))"

record building =
  bd_canonicals :: "(jstr \<times> card) list"
  bd_products :: "(jstr \<times> jstr) list"
  bd_votes :: "(jstr \<times> (jstr \<times> nat) list) list"

definition member_id :: "bundle_member \<Rightarrow> jstr" where
  "member_id m = raw_key (bm_raw m)"

definition add_vote :: "jstr \<Rightarrow> building \<Rightarrow> bundle_member \<Rightarrow> building" where
  "add_vote category b m =
    (case br_category (bm_raw m) of
       None \<Rightarrow> b
     | Some path \<Rightarrow>
         if path = [] then b
         else let k = storeCategoryKey (br_store (bm_raw m)) path
              in b\<lparr>bd_votes := AList.update k (bump category (nullish (map_of (bd_votes b) k) [])) (bd_votes b)\<rparr>)"

definition add_product :: "jstr \<Rightarrow> jstr \<Rightarrow> building \<Rightarrow> bundle_member \<Rightarrow> building" where
  "add_product key category b m = add_vote category (b\<lparr>bd_products := AList.update (member_id m) key (bd_products b)\<rparr>) m"

definition add_canonical :: "(jstr \<Rightarrow> jstr) \<Rightarrow> building \<Rightarrow> bundle_canonical \<Rightarrow> perror + building" where
  "add_canonical sha b g =
    and_then (canonicalKey sha (map member_id (bc_members g))) (\<lambda>key.
      if map_of (bd_canonicals b) key \<noteq> None then Inl (Error (la ''canonical key collision '' @ key))
      else
        let first = hd (bc_members g);
            c = \<lparr>ca_name = bc_name g, ca_brand = bc_brand g, ca_category = bc_category g, ca_attributes = bc_attributes g,
                 ca_method = bm_method first, ca_confidence = bm_confidence first, ca_review = bm_review first\<rparr>
        in Inr (foldl (add_product key (bc_category g)) (b\<lparr>bd_canonicals := bd_canonicals b @ [(key, c)]\<rparr>) (bc_members g)))"

fun add_canonicals :: "(jstr \<Rightarrow> jstr) \<Rightarrow> building \<Rightarrow> bundle_canonical list \<Rightarrow> perror + building" where
  "add_canonicals sha b [] = Inr b"
| "add_canonicals sha b (g # gs) = and_then (add_canonical sha b g) (\<lambda>b. add_canonicals sha b gs)"

text \<open>The category with the most votes, the first in the alphabet when several tie.\<close>

definition vote_le :: "(jstr \<Rightarrow> jstr \<Rightarrow> bool) \<Rightarrow> jstr \<times> nat \<Rightarrow> jstr \<times> nat \<Rightarrow> bool" where
  "vote_le locale_le = then_by (\<lambda>x y. snd y \<le> snd x) (\<lambda>x y. locale_le (fst x) (fst y))"

definition winner :: "(jstr \<Rightarrow> jstr \<Rightarrow> bool) \<Rightarrow> (jstr \<times> nat) list \<Rightarrow> jstr" where
  "winner locale_le v = fst (hd (js_sort (vote_le locale_le) v))"

definition buildDictionary ::
  "(jstr \<Rightarrow> bool) \<Rightarrow> (jstr \<Rightarrow> jstr) \<Rightarrow> (jstr \<Rightarrow> jstr \<Rightarrow> bool) \<Rightarrow> sync_bundle \<Rightarrow> perror + dictionary" where
  "buildDictionary is_datetime sha locale_le b =
    and_then (add_canonicals sha \<lparr>bd_canonicals = [], bd_products = [], bd_votes = []\<rparr> (bu_canonicals b)) (\<lambda>st.
      parseDictionary is_datetime
        \<lparr>dc_generatedAt = bu_generatedAt b, dc_canonicals = bd_canonicals st, dc_products = bd_products st,
         dc_storeCategories = map (\<lambda>(k, v). (k, winner locale_le v)) (bd_votes st)\<rparr>)"

section \<open>Writing and reading\<close>

text \<open>One entry per line, the keys sorted; \<open>quote\<close> and \<open>json\<close> are \<open>JSON.stringify\<close>.\<close>

definition dict_lines :: "(jstr \<Rightarrow> jstr) \<Rightarrow> ('v \<Rightarrow> jstr) \<Rightarrow> (jstr \<times> 'v) list \<Rightarrow> jstr" where
  "dict_lines quote json m =
    (if m = [] then la ''{}''
     else la ''{'' @ [10] @
       join (la '','' @ [10]) (map (\<lambda>k. la ''    '' @ quote k @ la '': '' @ json (the (map_of m k))) (js_sort str_le (js_keys m))) @
       [10] @ la ''  }'')"

definition dictionary_text :: "(jstr \<Rightarrow> jstr) \<Rightarrow> (card \<Rightarrow> jstr) \<Rightarrow> dictionary \<Rightarrow> jstr" where
  "dictionary_text quote card_json d =
     la ''{'' @ [10] @ la ''  '' @ [34] @ la ''version'' @ [34] @ la '': 1,'' @ [10] @
     la ''  '' @ [34] @ la ''generatedAt'' @ [34] @ la '': '' @ quote (dc_generatedAt d) @ la '','' @ [10] @
     la ''  '' @ [34] @ la ''canonicals'' @ [34] @ la '': '' @ dict_lines quote card_json (dc_canonicals d) @ la '','' @ [10] @
     la ''  '' @ [34] @ la ''products'' @ [34] @ la '': '' @ dict_lines quote quote (dc_products d) @ la '','' @ [10] @
     la ''  '' @ [34] @ la ''storeCategories'' @ [34] @ la '': '' @ dict_lines quote quote (dc_storeCategories d) @ [10] @
     la ''}'' @ [10]"

definition writeDictionary ::
  "(jstr \<Rightarrow> bool) \<Rightarrow> (jstr \<Rightarrow> jstr) \<Rightarrow> (card \<Rightarrow> jstr) \<Rightarrow> jstr \<Rightarrow> dictionary \<Rightarrow> perror + jstr fs_op list" where
  "writeDictionary is_datetime quote card_json path d =
    and_then (parseDictionary is_datetime d) (\<lambda>v. Inr (atomicWrite path (dictionary_text quote card_json v)))"

definition dangling :: "dictionary \<Rightarrow> jstr \<times> jstr \<Rightarrow> perror option" where
  "dangling d e =
    (if map_of (dc_canonicals d) (snd e) = None then Some (Error (fst e @ la '': missing canonical '' @ snd e)) else None)"

definition readDictionary ::
  "(jstr \<Rightarrow> bool) \<Rightarrow> (jstr \<Rightarrow> dictionary option) \<Rightarrow> (jstr \<rightharpoonup> jstr) \<Rightarrow> jstr \<Rightarrow> perror + dictionary" where
  "readDictionary is_datetime decode fs path =
    (case fs path of
       None \<Rightarrow> Inl NoFile
     | Some text \<Rightarrow> (case decode text of
         None \<Rightarrow> Inl ZodError
       | Some d0 \<Rightarrow> and_then (parseDictionary is_datetime d0) (\<lambda>d.
           case check_all (dangling d) (dc_products d) of Some e \<Rightarrow> Inl e | None \<Rightarrow> Inr d)))"

section \<open>Lemmas\<close>

text \<open>Keys of products of different shops never collide.\<close>

lemma chain_code_no_colon: "58 \<notin> set (chain_code c)"
  by (cases c) (simp_all add: chain_code_def la_def)

lemma chain_code_inj: "chain_code c = chain_code d \<longleftrightarrow> c = d"
  by (cases c; cases d) (simp_all add: chain_code_def la_def)

lemma product_key_inj: "product_key c i = product_key d j \<longleftrightarrow> c = d \<and> i = j"
proof
  assume "product_key c i = product_key d j"
  then have eq: "chain_code c @ 58 # i = chain_code d @ 58 # j" by (simp add: product_key_def)
  have "split_ch 58 (chain_code c @ 58 # i) = split_ch 58 (chain_code d @ 58 # j)" by (simp only: eq)
  then have "chain_code c # split_ch 58 i = chain_code d # split_ch 58 j"
    by (simp only: split_ch_append [OF chain_code_no_colon])
  then have "chain_code c = chain_code d" by simp
  with eq show "c = d \<and> i = j" by (simp add: chain_code_inj)
qed simp

lemma resolveCategory_known:
  assumes "list_all (\<lambda>(k, c). valid_card c) (dc_canonicals d)" and "list_all (\<lambda>(k, s). isCategorySlug s) (dc_storeCategories d)"
  shows "isCategorySlug (fst (resolveCategory d store p))"
proof (cases "known_card d store p")
  case None
  have "isCategorySlug (nullish (map_of (dc_storeCategories d) k) (la ''other''))" for k
    using assms(2) by (cases "map_of (dc_storeCategories d) k")
      (auto simp: slug_milk_dairy_drinks list_all_iff dest!: map_of_SomeD)
  with None show ?thesis by (simp add: resolveCategory_def Let_def refineCategory_known)
next
  case (Some kc)
  then obtain key c where kc: "kc = (key, c)" "map_of (dc_canonicals d) key = Some c"
    by (auto simp: known_card_def split: option.splits if_splits)
  then have "isCategorySlug (ca_category c)"
    using assms(1) by (auto simp: list_all_iff valid_card_def dest!: map_of_SomeD)
  with Some kc show ?thesis by (simp add: resolveCategory_def refineCategory_known)
qed

text \<open>What the builder keeps: the products refer to cards, the cards have distinct keys.\<close>

definition building_ok :: "building \<Rightarrow> bool" where
  "building_ok b \<longleftrightarrow> distinct (js_keys (bd_canonicals b)) \<and> distinct (js_keys (bd_products b)) \<and>
     (\<forall>i k. map_of (bd_products b) i = Some k \<longrightarrow> k \<in> set (js_keys (bd_canonicals b)) \<and> k \<noteq> [])"

lemma add_vote_frame [simp]:
  "bd_canonicals (add_vote cat b m) = bd_canonicals b" "bd_products (add_vote cat b m) = bd_products b"
  by (simp_all add: add_vote_def Let_def split: option.splits)

lemma add_product_frame [simp]:
  "bd_canonicals (add_product key cat b m) = bd_canonicals b"
  "bd_products (add_product key cat b m) = AList.update (member_id m) key (bd_products b)"
  by (simp_all add: add_product_def)

lemma foldl_add_product_canonicals [simp]: "bd_canonicals (foldl (add_product key cat) b ms) = bd_canonicals b"
  by (induction ms arbitrary: b) simp_all

lemma map_of_foldl_add_product:
  "map_of (bd_products (foldl (add_product key cat) b ms)) i =
    (if i \<in> member_id ` set ms then Some key else map_of (bd_products b) i)"
  by (induction ms arbitrary: b) (auto simp: js_map)

lemma keys_foldl_add_product: "distinct (js_keys (bd_products b)) \<Longrightarrow> distinct (js_keys (bd_products (foldl (add_product key cat) b ms)))"
  by (induction ms arbitrary: b) (simp_all add: distinct_update)

lemma canonicalKey_not_Nil: "canonicalKey sha ids = Inr key \<Longrightarrow> key \<noteq> [] \<and> ids \<noteq> []"
  by (auto simp: canonicalKey_def la_def split: list.splits if_splits)

lemma add_canonical_Inr:
  assumes "add_canonical sha b g = Inr b'"
  obtains key c where "canonicalKey sha (map member_id (bc_members g)) = Inr key" "key \<notin> set (js_keys (bd_canonicals b))"
    "bc_members g \<noteq> []"
    "c = \<lparr>ca_name = bc_name g, ca_brand = bc_brand g, ca_category = bc_category g, ca_attributes = bc_attributes g,
       ca_method = bm_method (hd (bc_members g)), ca_confidence = bm_confidence (hd (bc_members g)), ca_review = bm_review (hd (bc_members g))\<rparr>"
    "b' = foldl (add_product key (bc_category g)) (b\<lparr>bd_canonicals := bd_canonicals b @ [(key, c)]\<rparr>) (bc_members g)"
proof -
  from assms obtain key where key: "canonicalKey sha (map member_id (bc_members g)) = Inr key"
    by (auto simp: add_canonical_def result_simps)
  then have "bc_members g \<noteq> []" using canonicalKey_not_Nil by auto
  with key that assms show thesis
    by (auto simp: add_canonical_def Let_def map_of_eq_None_iff split: if_splits)
qed

lemma add_canonical_ok: "building_ok b \<Longrightarrow> add_canonical sha b g = Inr b' \<Longrightarrow> building_ok b'"
proof (erule add_canonical_Inr)
  fix key c
  assume b: "building_ok b" and key: "canonicalKey sha (map member_id (bc_members g)) = Inr key"
    and new: "key \<notin> set (js_keys (bd_canonicals b))"
    and b': "b' = foldl (add_product key (bc_category g)) (b\<lparr>bd_canonicals := bd_canonicals b @ [(key, c)]\<rparr>) (bc_members g)"
  have "key \<noteq> []" using key canonicalKey_not_Nil by auto
  with b new show "building_ok b'"
    by (auto simp: building_ok_def b' map_of_foldl_add_product keys_foldl_add_product split: if_splits)
qed

lemma add_canonicals_ok: "building_ok b \<Longrightarrow> add_canonicals sha b gs = Inr b' \<Longrightarrow> building_ok b'"
  by (induction gs arbitrary: b) (auto simp: result_simps dest: add_canonical_ok)

text \<open>A product keeps the card it was given, unless a later card claims it too.\<close>

lemma add_canonical_keeps:
  "add_canonical sha b g = Inr b' \<Longrightarrow> map_of (bd_canonicals b) k = Some c \<Longrightarrow> map_of (bd_canonicals b') k = Some c"
  by (erule add_canonical_Inr) (auto simp: map_add_def)

lemma add_canonicals_keeps:
  "add_canonicals sha b gs = Inr b' \<Longrightarrow> map_of (bd_canonicals b) k = Some c \<Longrightarrow> map_of (bd_canonicals b') k = Some c"
  by (induction gs arbitrary: b) (auto simp: result_simps dest: add_canonical_keeps)

lemma add_canonicals_frame:
  "add_canonicals sha b gs = Inr b' \<Longrightarrow> i \<notin> member_id ` (\<Union>g \<in> set gs. set (bc_members g)) \<Longrightarrow>
   map_of (bd_products b') i = map_of (bd_products b) i"
proof (induction gs arbitrary: b)
  case (Cons g gs)
  from Cons.prems(1) obtain b1 where b1: "add_canonical sha b g = Inr b1" "add_canonicals sha b1 gs = Inr b'"
    by (auto simp: result_simps)
  have "map_of (bd_products b1) i = map_of (bd_products b) i"
    using b1(1) Cons.prems(2) by (elim add_canonical_Inr) (auto simp: map_of_foldl_add_product)
  moreover have "map_of (bd_products b') i = map_of (bd_products b1) i"
    using Cons.IH [OF b1(2)] Cons.prems(2) by auto
  ultimately show ?case by simp
qed simp

text \<open>The card built from a canonical product.\<close>

definition card_of :: "bundle_canonical \<Rightarrow> card" where
  "card_of g = \<lparr>ca_name = bc_name g, ca_brand = bc_brand g, ca_category = bc_category g, ca_attributes = bc_attributes g,
     ca_method = bm_method (hd (bc_members g)), ca_confidence = bm_confidence (hd (bc_members g)), ca_review = bm_review (hd (bc_members g))\<rparr>"

abbreviation all_ids :: "bundle_canonical list \<Rightarrow> jstr list" where
  "all_ids gs \<equiv> concat (map (\<lambda>g. map member_id (bc_members g)) gs)"

lemma add_canonicals_card:
  "add_canonicals sha b gs = Inr b' \<Longrightarrow> distinct (all_ids gs) \<Longrightarrow> g \<in> set gs \<Longrightarrow> m \<in> set (bc_members g) \<Longrightarrow>
   \<exists>key. key \<noteq> [] \<and> map_of (bd_products b') (member_id m) = Some key \<and> map_of (bd_canonicals b') key = Some (card_of g)"
proof (induction gs arbitrary: b)
  case (Cons h gs)
  from Cons.prems(1) obtain b1 where b1: "add_canonical sha b h = Inr b1" "add_canonicals sha b1 gs = Inr b'"
    by (auto simp: result_simps)
  show ?case
  proof (cases "g = h \<and> member_id m \<notin> set (all_ids gs)")
    case True
    from b1(1) obtain key where key: "key \<noteq> []" "map_of (bd_canonicals b1) key = Some (card_of h)"
      "map_of (bd_products b1) (member_id m) = Some key"
    proof (elim add_canonical_Inr)
      fix key c
      assume "canonicalKey sha (map member_id (bc_members h)) = Inr key" "key \<notin> set (js_keys (bd_canonicals b))"
        "c = \<lparr>ca_name = bc_name h, ca_brand = bc_brand h, ca_category = bc_category h, ca_attributes = bc_attributes h,
          ca_method = bm_method (hd (bc_members h)), ca_confidence = bm_confidence (hd (bc_members h)), ca_review = bm_review (hd (bc_members h))\<rparr>"
        "b1 = foldl (add_product key (bc_category h)) (b\<lparr>bd_canonicals := bd_canonicals b @ [(key, c)]\<rparr>) (bc_members h)"
      then show thesis
        using True Cons.prems(4) canonicalKey_not_Nil
        by (intro that [of key]) (auto simp: map_of_foldl_add_product card_of_def map_add_def map_of_eq_None_iff [symmetric] split: option.splits)
    qed
    have "map_of (bd_products b') (member_id m) = Some key"
      using add_canonicals_frame [OF b1(2), of "member_id m"] True key(3) by auto
    with key True add_canonicals_keeps [OF b1(2) key(2)] show ?thesis by blast
  next
    case False
    have "g \<in> set gs"
    proof (rule ccontr)
      assume "g \<notin> set gs"
      with Cons.prems(3) have "g = h" by simp
      with False have "member_id m \<in> set (all_ids gs)" by simp
      with \<open>g = h\<close> Cons.prems(2,4) show False by auto
    qed
    with Cons.IH [OF b1(2)] Cons.prems(2,4) show ?thesis by simp
  qed
qed simp

lemma readDictionary_Inr:
  "readDictionary is_datetime decode fs path = Inr d \<Longrightarrow>
   valid_dictionary is_datetime d \<and> (\<forall>(i, k) \<in> set (dc_products d). map_of (dc_canonicals d) k \<noteq> None)"
  by (auto simp: readDictionary_def parseDictionary_def result_simps check_all_None dangling_def
      split: option.splits if_splits)

end
