(* ===== verification/Overrides.thy ===== *)
theory Overrides
  imports Dictionary
begin

text \<open>
  Manual corrections of the dictionary (\<open>mapping/overrides.ts\<close>): moving a card to another
  category, taking products out of a card, approving a card.
\<close>

section \<open>The corrections\<close>

record move_override =
  mv_key :: jstr
  mv_to :: jstr

record split_override =
  so_key :: jstr
  so_ids :: "jstr list option"

record overrides =
  ov_moveCategory :: "move_override list"
  ov_split :: "split_override list"
  ov_approve :: "jstr list"

definition valid_overrides :: "overrides \<Rightarrow> bool" where
  "valid_overrides v \<longleftrightarrow> list_all (\<lambda>m. isCategorySlug (mv_to m)) (ov_moveCategory v) \<and>
     list_all (\<lambda>s. so_ids s \<noteq> Some []) (ov_split v)"

section \<open>Applying them\<close>

definition readOverrides :: "('c \<Rightarrow> overrides option) \<Rightarrow> (jstr \<rightharpoonup> 'c) \<Rightarrow> jstr \<Rightarrow> perror + overrides" where
  "readOverrides decode fs path =
    (case fs path of
       None \<Rightarrow> Inl NoFile
     | Some text \<Rightarrow> (case decode text of
         None \<Rightarrow> Inl ZodError
       | Some v \<Rightarrow> if valid_overrides v then Inr v else Inl ZodError))"

definition membersOf :: "dictionary \<Rightarrow> jstr \<Rightarrow> jstr list" where
  "membersOf d key = map fst (filter (\<lambda>(i, k). k = key) (dc_products d))"

definition unknown_key :: "jstr \<Rightarrow> perror" where
  "unknown_key key = Error (la ''overrides: unknown canonical key '' @ key)"

text \<open>Changing a card in place; an unknown key throws.\<close>

definition update_card :: "(card \<Rightarrow> card) \<Rightarrow> dictionary \<Rightarrow> jstr \<Rightarrow> perror + dictionary" where
  "update_card f d key =
    (case map_of (dc_canonicals d) key of
       None \<Rightarrow> Inl (unknown_key key)
     | Some c \<Rightarrow> Inr (d\<lparr>dc_canonicals := AList.update key (f c) (dc_canonicals d)\<rparr>))"

fun fold_m :: "('s \<Rightarrow> 'a \<Rightarrow> 'e + 's) \<Rightarrow> 's \<Rightarrow> 'a list \<Rightarrow> 'e + 's" where
  "fold_m f s [] = Inr s"
| "fold_m f s (x # xs) = and_then (f s x) (\<lambda>s. fold_m f s xs)"

definition move_card :: "dictionary \<Rightarrow> move_override \<Rightarrow> perror + dictionary" where
  "move_card d m = update_card (\<lambda>c. c\<lparr>ca_category := mv_to m\<rparr>) d (mv_key m)"

definition approve_card :: "dictionary \<Rightarrow> jstr \<Rightarrow> perror + dictionary" where
  "approve_card d key = update_card (\<lambda>c. c\<lparr>ca_review := Approved\<rparr>) d key"

text \<open>A product that is already alone on the card its own identifier determines.\<close>

definition alreadyIsolated :: "(jstr \<Rightarrow> jstr) \<Rightarrow> dictionary \<Rightarrow> jstr \<Rightarrow> perror + bool" where
  "alreadyIsolated sha d i =
    (case map_of (dc_products d) i of
       None \<Rightarrow> Inr False
     | Some k \<Rightarrow> if k = [] then Inr False
         else and_then (canonicalKey sha [i]) (\<lambda>own. Inr (k = own \<and> length (membersOf d k) = 1)))"

fun every_m :: "('a \<Rightarrow> 'e + bool) \<Rightarrow> 'a list \<Rightarrow> 'e + bool" where
  "every_m f [] = Inr True"
| "every_m f (x # xs) = and_then (f x) (\<lambda>b. if b then every_m f xs else Inr False)"

definition check_member :: "(jstr \<Rightarrow> jstr) \<Rightarrow> dictionary \<Rightarrow> jstr \<Rightarrow> unit \<Rightarrow> jstr \<Rightarrow> perror + unit" where
  "check_member sha d key u i =
    (if map_of (dc_products d) i = Some key then Inr ()
     else and_then (alreadyIsolated sha d i) (\<lambda>b.
       if b then Inr () else Inl (Error (la ''overrides: '' @ i @ la '' is not a member of '' @ key))))"

definition assign :: "jstr \<Rightarrow> dictionary \<Rightarrow> jstr \<Rightarrow> dictionary" where
  "assign key d i = d\<lparr>dc_products := AList.update i key (dc_products d)\<rparr>"

text \<open>The products that stay get a card of their own key.\<close>

definition keep_remaining :: "(jstr \<Rightarrow> jstr) \<Rightarrow> card \<Rightarrow> dictionary \<Rightarrow> jstr list \<Rightarrow> perror + dictionary" where
  "keep_remaining sha original d remaining =
    (if remaining = [] then Inr d
     else and_then (canonicalKey sha remaining) (\<lambda>newKey.
       Inr (foldl (assign newKey) (d\<lparr>dc_canonicals := AList.update newKey original (dc_canonicals d)\<rparr>) remaining)))"

definition isolate_product :: "(jstr \<Rightarrow> jstr) \<Rightarrow> card \<Rightarrow> dictionary \<Rightarrow> jstr \<Rightarrow> perror + dictionary" where
  "isolate_product sha original d i =
    and_then (canonicalKey sha [i]) (\<lambda>key.
      if map_of (dc_canonicals d) key \<noteq> None then Inl (Error (la ''overrides: canonical key collision '' @ key))
      else Inr (assign key (d\<lparr>dc_canonicals := AList.update key
             (original\<lparr>ca_method := DeterministicMatch, ca_confidence := 1, ca_review := Approved\<rparr>) (dc_canonicals d)\<rparr>) i))"

definition split_members :: "(jstr \<Rightarrow> jstr) \<Rightarrow> dictionary \<Rightarrow> jstr \<Rightarrow> card \<Rightarrow> jstr list \<Rightarrow> perror + dictionary" where
  "split_members sha d key original ids =
    (let members = membersOf d key;
         moving = filter (\<lambda>i. map_of (dc_products d) i = Some key) ids;
         remaining = filter (\<lambda>i. i \<notin> set moving) members
     in if moving = [] then Inr d
        else and_then (keep_remaining sha original (d\<lparr>dc_canonicals := AList.delete key (dc_canonicals d)\<rparr>) remaining)
               (\<lambda>d. fold_m (isolate_product sha original) d moving))"

definition split_card :: "(jstr \<Rightarrow> jstr) \<Rightarrow> dictionary \<Rightarrow> split_override \<Rightarrow> perror + dictionary" where
  "split_card sha d s =
    (case map_of (dc_canonicals d) (so_key s) of
       None \<Rightarrow> (case so_ids s of
           None \<Rightarrow> Inl (unknown_key (so_key s))
         | Some ids \<Rightarrow> and_then (every_m (alreadyIsolated sha d) ids) (\<lambda>b. if b then Inr d else Inl (unknown_key (so_key s))))
     | Some original \<Rightarrow>
         let ids = nullish (so_ids s) (membersOf d (so_key s))
         in and_then (fold_m (check_member sha d (so_key s)) () ids) (\<lambda>_. split_members sha d (so_key s) original ids))"

definition applyOverrides :: "(jstr \<Rightarrow> bool) \<Rightarrow> (jstr \<Rightarrow> jstr) \<Rightarrow> dictionary \<Rightarrow> overrides \<Rightarrow> perror + dictionary" where
  "applyOverrides is_datetime sha dict v =
    and_then (parseDictionary is_datetime dict) (\<lambda>d.
    and_then (fold_m move_card d (ov_moveCategory v)) (\<lambda>d.
    and_then (fold_m (split_card sha) d (ov_split v)) (\<lambda>d.
    and_then (fold_m approve_card d (ov_approve v)) (parseDictionary is_datetime))))"

section \<open>Lemmas\<close>

text \<open>A dictionary whose maps have distinct keys and whose products all have a card.\<close>

abbreviation dict_ids :: "dictionary \<Rightarrow> jstr set" where
  "dict_ids d \<equiv> fst ` set (dc_products d)"

abbreviation card_keys :: "dictionary \<Rightarrow> jstr set" where
  "card_keys d \<equiv> fst ` set (dc_canonicals d)"

definition no_dangling :: "dictionary \<Rightarrow> bool" where
  "no_dangling d \<longleftrightarrow> distinct (js_keys (dc_products d)) \<and>
     (\<forall>i k. map_of (dc_products d) i = Some k \<longrightarrow> k \<in> card_keys d)"

text \<open>An invariant of every step of a monadic loop holds at its end.\<close>

lemma fold_m_invariant:
  assumes "fold_m f s xs = Inr t" and "P s" and "\<And>s x t. x \<in> set xs \<Longrightarrow> f s x = Inr t \<Longrightarrow> P s \<Longrightarrow> P t"
  shows "P t"
  using assms by (induction xs arbitrary: s) (auto simp: result_simps)

lemma fst_set_update [simp]: "fst ` set (AList.update k v m) = insert k (fst ` set m)"
  by (metis dom_map_of_conv_image_fst dom_update insert_is_Un list.set_map set_map dom_fun_upd update_conv' option.distinct(1))

lemma fst_set_delete [simp]: "fst ` set (AList.delete k m) = fst ` set m - {k}"
  by (force simp: AList.delete_eq)

lemma update_card_frame:
  assumes "update_card f d key = Inr e"
  shows "dc_products e = dc_products d" and "card_keys e = card_keys d"
    and "dc_storeCategories e = dc_storeCategories d"
proof -
  obtain c where c: "map_of (dc_canonicals d) key = Some c"
    "e = d\<lparr>dc_canonicals := AList.update key (f c) (dc_canonicals d)\<rparr>"
    using assms by (auto simp: update_card_def split: option.splits)
  then show "dc_products e = dc_products d" "dc_storeCategories e = dc_storeCategories d" by simp_all
  have "key \<in> card_keys d"
    using c(1) by (metis map_of_eq_None_iff option.distinct(1))
  then show "card_keys e = card_keys d"
    by (auto simp: c(2))
qed

lemma update_card_keeps: "update_card f d key = Inr e \<Longrightarrow> no_dangling d \<Longrightarrow> no_dangling e"
  using update_card_frame [of f d key e] by (simp add: no_dangling_def)

lemma assign_simps [simp]:
  "dc_canonicals (assign key d i) = dc_canonicals d" "dc_storeCategories (assign key d i) = dc_storeCategories d"
  "dc_products (assign key d i) = AList.update i key (dc_products d)"
  by (simp_all add: assign_def)

lemma foldl_assign:
  "dc_canonicals (foldl (assign key) d is) = dc_canonicals d"
  "map_of (dc_products (foldl (assign key) d is)) i = (if i \<in> set is then Some key else map_of (dc_products d) i)"
  "distinct (js_keys (dc_products d)) \<Longrightarrow> distinct (js_keys (dc_products (foldl (assign key) d is)))"
  "dict_ids (foldl (assign key) d is) = dict_ids d \<union> set is"
  by (induction "is" arbitrary: d) (auto simp: js_map distinct_update update_keys)

text \<open>
  While a card is being split, the products still assigned to its key are those that have to
  move; all others have a card.
\<close>

definition splitting :: "jstr set \<Rightarrow> jstr list \<Rightarrow> jstr \<Rightarrow> dictionary \<Rightarrow> bool" where
  "splitting ids todo key d \<longleftrightarrow> distinct (js_keys (dc_products d)) \<and> dict_ids d = ids \<and>
     (\<forall>i k. map_of (dc_products d) i = Some k \<longrightarrow> k \<in> card_keys d \<or> i \<in> set todo)"

lemma isolate_product_splitting:
  assumes "isolate_product sha original d i = Inr e" and "splitting ids (i # todo) key d" and "i \<in> ids"
  shows "splitting ids todo key e"
proof -
  obtain own where "map_of (dc_canonicals d) own = None"
    and e: "e = assign own (d\<lparr>dc_canonicals := AList.update own
             (original\<lparr>ca_method := DeterministicMatch, ca_confidence := 1, ca_review := Approved\<rparr>) (dc_canonicals d)\<rparr>) i"
    using assms(1) by (auto simp: isolate_product_def result_simps split: if_splits)
  show ?thesis unfolding splitting_def
  proof (intro conjI allI impI)
    show "distinct (js_keys (dc_products e))" "dict_ids e = ids"
      using assms(2,3) by (auto simp: e splitting_def distinct_update)
    fix j k assume "map_of (dc_products e) j = Some k"
    then show "k \<in> card_keys e \<or> j \<in> set todo"
      using assms(2) by (auto simp: e splitting_def js_map split: if_splits)
  qed
qed

lemma isolate_products_splitting:
  "fold_m (isolate_product sha original) d todo = Inr e \<Longrightarrow> splitting ids todo key d \<Longrightarrow> set todo \<subseteq> ids \<Longrightarrow> splitting ids [] key e"
  by (induction todo arbitrary: d) (auto simp: result_simps intro: isolate_product_splitting)

lemma map_of_in_keys: "map_of m k = Some v \<Longrightarrow> k \<in> fst ` set m"
  by (metis map_of_eq_None_iff option.distinct(1))

lemma in_membersOf: "distinct (js_keys (dc_products d)) \<Longrightarrow> i \<in> set (membersOf d key) \<longleftrightarrow> map_of (dc_products d) i = Some key"
  by (force simp: membersOf_def map_of_eq_Some_iff)

lemma keep_remaining_splitting:
  assumes "keep_remaining sha original d remaining = Inr e" and "splitting ids (remaining @ todo) key d" and "set remaining \<subseteq> ids"
  shows "splitting ids todo key e"
proof (cases "remaining = []")
  case True
  with assms show ?thesis by (simp add: keep_remaining_def)
next
  case False
  then obtain newKey where e: "e = foldl (assign newKey) (d\<lparr>dc_canonicals := AList.update newKey original (dc_canonicals d)\<rparr>) remaining"
    using assms(1) by (auto simp: keep_remaining_def result_simps)
  show ?thesis unfolding splitting_def
  proof (intro conjI allI impI)
    show "distinct (js_keys (dc_products e))" "dict_ids e = ids"
      using assms(2,3) unfolding e foldl_assign by (auto simp: splitting_def foldl_assign)
    fix j k assume "map_of (dc_products e) j = Some k"
    then show "k \<in> card_keys e \<or> j \<in> set todo"
      using assms(2) by (auto simp: e splitting_def foldl_assign split: if_splits)
  qed
qed

lemma split_members_keeps:
  assumes "split_members sha d key original ids = Inr e" and "no_dangling d"
  shows "no_dangling e \<and> dict_ids e = dict_ids d"
proof -
  let ?moving = "filter (\<lambda>i. map_of (dc_products d) i = Some key) ids"
  let ?remaining = "filter (\<lambda>i. i \<notin> set ?moving) (membersOf d key)"
  let ?all = "dict_ids d"
  have dist: "distinct (js_keys (dc_products d))" using assms(2) by (simp add: no_dangling_def)
  show ?thesis
  proof (cases "?moving = []")
    case True
    with assms show ?thesis by (simp add: split_members_def Let_def)
  next
    case False
    then obtain d1 where d1: "keep_remaining sha original (d\<lparr>dc_canonicals := AList.delete key (dc_canonicals d)\<rparr>) ?remaining = Inr d1"
      and e: "fold_m (isolate_product sha original) d1 ?moving = Inr e"
      using assms(1) by (auto simp: split_members_def Let_def result_simps)
    have "splitting ?all (?remaining @ ?moving) key (d\<lparr>dc_canonicals := AList.delete key (dc_canonicals d)\<rparr>)"
      using assms(2) by (auto simp: splitting_def no_dangling_def in_membersOf delete_keys)
    moreover have sub: "set ?remaining \<subseteq> ?all" "set ?moving \<subseteq> ?all"
      by (auto simp: membersOf_def intro: map_of_in_keys)
    ultimately have "splitting ?all [] key e"
      using keep_remaining_splitting [OF d1] isolate_products_splitting [OF e] by blast
    then show ?thesis by (auto simp: splitting_def no_dangling_def)
  qed
qed

lemma split_card_keeps:
  assumes "split_card sha d s = Inr e" and "no_dangling d"
  shows "no_dangling e \<and> dict_ids e = dict_ids d"
proof (cases "map_of (dc_canonicals d) (so_key s)")
  case None
  with assms show ?thesis by (auto simp: split_card_def result_simps split: option.splits if_splits)
next
  case (Some original)
  with assms(1) have "split_members sha d (so_key s) original (nullish (so_ids s) (membersOf d (so_key s))) = Inr e"
    by (auto simp: split_card_def Let_def result_simps)
  then show ?thesis using assms(2) by (rule split_members_keeps)
qed

lemma applyOverrides_keeps:
  assumes "applyOverrides is_datetime sha d v = Inr e" and "no_dangling d"
  shows "no_dangling e" and "dict_ids e = dict_ids d" and "valid_dictionary is_datetime e"
proof -
  from assms(1) obtain d1 d2 d3 where d1: "fold_m move_card d (ov_moveCategory v) = Inr d1"
    and d2: "fold_m (split_card sha) d1 (ov_split v) = Inr d2" and d3: "fold_m approve_card d2 (ov_approve v) = Inr d3"
    and e: "parseDictionary is_datetime d3 = Inr e"
    by (auto simp: applyOverrides_def result_simps parseDictionary_def split: if_splits)
  let ?P = "\<lambda>x. no_dangling x \<and> dict_ids x = dict_ids d"
  have "?P d1"
    by (rule fold_m_invariant [OF d1, where P = ?P]) (use assms(2) update_card_keeps update_card_frame(1) in \<open>auto simp: move_card_def\<close>)
  then have "?P d2"
    by (rule fold_m_invariant [OF d2, where P = ?P]) (use split_card_keeps in auto)
  then have "?P d3"
    by (rule fold_m_invariant [OF d3, where P = ?P]) (use update_card_keeps update_card_frame(1) in \<open>auto simp: approve_card_def\<close>)
  with e show "no_dangling e" "dict_ids e = dict_ids d" "valid_dictionary is_datetime e"
    by (auto simp: parseDictionary_def split: if_splits)
qed

end
