(* ===== verification/Sync.thy ===== *)
theory Sync
  imports Dictionary
begin

text \<open>
  The daily synchronisation (\<open>sync/sync.ts\<close>): the sources must be fresh, each product is put
  under its card or apart, and what may not be shown as one product is taken apart
  (\<open>mapping/publish.ts\<close>, \<open>mapping/scope.ts\<close>).
\<close>

section \<open>Freshness\<close>

text \<open>\<open>parse_date\<close> is \<open>Date.parse\<close> in milliseconds; an unreadable date makes the age \<open>NaN\<close>.\<close>

definition age_hours :: "(jstr \<Rightarrow> int option) \<Rightarrow> int \<Rightarrow> source_file \<Rightarrow> rat option" where
  "age_hours parse_date now f = map_option (\<lambda>t. of_int (now - t) / 3600000) (parse_date (sf_capturedAt f))"

definition script_name :: "chain \<Rightarrow> jstr" where
  "script_name c = filter (\<lambda>x. x \<noteq> 95) (to_lower (chain_code c))"

text \<open>\<open>age > maxAge\<close>; the bound comes from \<open>Number\<close> of a setting, and nothing exceeds \<open>NaN\<close>.\<close>

definition exceeds :: "rat \<Rightarrow> jnum \<Rightarrow> bool" where
  "exceeds age maxAge = (case maxAge of Fin q \<Rightarrow> q < age | NegInf \<Rightarrow> True | _ \<Rightarrow> False)"

definition stale_store :: "(jstr \<Rightarrow> int option) \<Rightarrow> int \<Rightarrow> jnum \<Rightarrow> source_file list \<Rightarrow> chain \<Rightarrow> perror option" where
  "stale_store parse_date now maxAge files store =
    (case List.find (\<lambda>f. sf_store f = store) files of
       None \<Rightarrow> Some (Error (chain_code store @ la '': source file missing '' @ [8212] @ la '' run pnpm scrape:'' @ script_name store))
     | Some f \<Rightarrow>
         (case age_hours parse_date now f of
            None \<Rightarrow> None
          | Some age \<Rightarrow> if exceeds age maxAge
              then Some (Error (chain_code store @ la '': source file is stale ('' @ show_int (js_round age) @ la '' h old)''))
              else None))"

definition assertFresh :: "(jstr \<Rightarrow> int option) \<Rightarrow> source_file list \<Rightarrow> chain list \<Rightarrow> int \<Rightarrow> jnum \<Rightarrow> perror option" where
  "assertFresh parse_date files required now maxAge = check_all (stale_store parse_date now maxAge files) required"

section \<open>What goes to the site\<close>

definition isolate :: "cluster \<Rightarrow> cluster list" where
  "isolate c = map (\<lambda>m. c\<lparr>cr_members := [m]\<rparr>) (cr_members c)"

definition weighs :: "classified \<Rightarrow> bool" where
  "weighs m = isVariableWeight (cl_store m) (cl_product m)"

definition publish_cluster :: "cluster \<Rightarrow> cluster list" where
  "publish_cluster c =
    (if length (cr_members c) < 2 then [c]
     else if cr_review c = PendingReview then isolate c
     else
       let weighed = filter weighs (cr_members c)
       in if weighed = [] \<or> length weighed = length (cr_members c) then [c]
          else c\<lparr>cr_members := filter (\<lambda>m. \<not> weighs m) (cr_members c)\<rparr> # isolate (c\<lparr>cr_members := weighed\<rparr>))"

definition isolateForPublish :: "cluster list \<Rightarrow> cluster list" where
  "isolateForPublish clusters = concat (map publish_cluster clusters)"

definition filterClustersByScope :: "jstr list \<Rightarrow> cluster list \<Rightarrow> cluster list" where
  "filterClustersByScope scope clusters = filter (\<lambda>c. list_all (\<lambda>m. cl_category m \<in> set scope) (cr_members c)) clusters"

section \<open>The synchronisation\<close>

record unmapped =
  un_store :: chain
  un_id :: jstr
  un_name :: jstr
  un_price :: int
  un_path :: "jstr list"
  un_guess :: jstr

record sync_state =
  sy_known :: "(jstr \<times> classified list) list"
  sy_clusters :: "cluster list"
  sy_unmapped :: "unmapped list"

definition from_card :: "chain \<Rightarrow> source_product \<Rightarrow> jstr \<Rightarrow> card \<Rightarrow> classified" where
  "from_card store p category c =
    \<lparr>cl_store = store, cl_product = p, cl_category = category, cl_type = la ''dictionary'', cl_brand = ca_brand c,
     cl_attrs = ca_attributes c, cl_display = ca_name c, cl_flags = []\<rparr>"

definition from_name :: "chain \<Rightarrow> source_product \<Rightarrow> jstr \<Rightarrow> classified" where
  "from_name store p category =
    \<lparr>cl_store = store, cl_product = p, cl_category = category, cl_type = la ''unmapped'', cl_brand = sp_brand p,
     cl_attrs = name_attrs (sp_name p), cl_display = sp_name p, cl_flags = [la ''unmapped'']\<rparr>"

text \<open>\<open>None\<close> for the scope publishes everything.\<close>

definition in_scope :: "jstr list option \<Rightarrow> jstr \<Rightarrow> bool" where
  "in_scope scope category = (case scope of None \<Rightarrow> True | Some s \<Rightarrow> category \<in> set s)"

definition sync_product :: "dictionary \<Rightarrow> jstr list option \<Rightarrow> sync_state \<Rightarrow> chain \<times> source_product \<Rightarrow> sync_state" where
  "sync_product dict scope st i =
    (let store = fst i; p = snd i
     in case resolveCategory dict store p of
          (category, Some (key, c)) \<Rightarrow> st\<lparr>sy_known := map_push key (from_card store p category c) (sy_known st)\<rparr>
        | (category, None) \<Rightarrow>
            if \<not> in_scope scope category then st
            else st\<lparr>sy_unmapped := sy_unmapped st @
                      [\<lparr>un_store = store, un_id = sp_id p, un_name = sp_name p, un_price = sp_price p,
                        un_path = sp_path p, un_guess = category\<rparr>],
                    sy_clusters := sy_clusters st @
                      [\<lparr>cr_members = [from_name store p category], cr_method = DeterministicMatch,
                        cr_confidence = 1, cr_review = PendingReview\<rparr>]\<rparr>)"

definition sync_inputs :: "source_file list \<Rightarrow> (chain \<times> source_product) list" where
  "sync_inputs files = concat (map (\<lambda>f. map (Pair (sf_store f)) (sf_products f)) files)"

definition sync_loop :: "dictionary \<Rightarrow> jstr list option \<Rightarrow> source_file list \<Rightarrow> sync_state" where
  "sync_loop dict scope files =
    foldl (sync_product dict scope) \<lparr>sy_known = [], sy_clusters = [], sy_unmapped = []\<rparr> (sync_inputs files)"

definition known_cluster :: "dictionary \<Rightarrow> (jstr \<times> classified list) list \<Rightarrow> jstr \<Rightarrow> cluster" where
  "known_cluster dict known key =
    (let c = the (map_of (dc_canonicals dict) key)
     in \<lparr>cr_members = the (map_of known key), cr_method = ca_method c, cr_confidence = ca_confidence c, cr_review = ca_review c\<rparr>)"

definition sync_clusters :: "dictionary \<Rightarrow> sync_state \<Rightarrow> cluster list" where
  "sync_clusters dict st = sy_clusters st @ map (known_cluster dict (sy_known st)) (js_sort str_le (js_keys (sy_known st)))"

definition published :: "jstr list option \<Rightarrow> cluster list \<Rightarrow> cluster list" where
  "published scope clusters =
    isolateForPublish (case scope of None \<Rightarrow> clusters | Some s \<Rightarrow> filterClustersByScope s clusters)"

definition buildSyncBundle ::
  "source_file list \<Rightarrow> dictionary \<Rightarrow> jstr \<Rightarrow> jstr list option \<Rightarrow> perror + sync_bundle \<times> unmapped list" where
  "buildSyncBundle files dict generatedAt scope =
    (let st = sync_loop dict scope files
     in and_then (buildBundle (published scope (sync_clusters dict st)) (map source_meta.truncate files) generatedAt)
          (\<lambda>b. Inr (b, sy_unmapped st)))"

section \<open>Lemmas on publishing\<close>

lemma members_isolate [simp]: "members_of (isolate c) = cr_members c"
  by (simp add: isolate_def o_def)

lemma publish_cluster_mset: "mset (members_of (publish_cluster c)) = mset (cr_members c)"
proof -
  have "mset (filter (\<lambda>m. \<not> weighs m) ms) + mset (filter weighs ms) = mset ms" for ms
    by (metis add.commute multiset_partition mset_filter)
  then show ?thesis by (simp add: publish_cluster_def Let_def)
qed

lemma isolateForPublish_mset: "mset (members_of (isolateForPublish cs)) = mset (members_of cs)"
  by (induction cs) (simp_all add: isolateForPublish_def publish_cluster_mset)

text \<open>What may appear as one product: approved by someone, and not a mixture of prices per kilogram and per piece.\<close>

definition publishable :: "cluster \<Rightarrow> bool" where
  "publishable c \<longleftrightarrow> cr_members c \<noteq> [] \<and>
     (length (cr_members c) < 2 \<or> cr_review c = Approved \<and> (\<forall>m \<in> set (cr_members c). \<forall>n \<in> set (cr_members c). weighs m = weighs n))"

lemma isolate_publishable: "d \<in> set (isolate c) \<Longrightarrow> publishable d"
  by (auto simp: isolate_def publishable_def)

lemma all_weigh: "length (filter P xs) = length xs \<Longrightarrow> \<forall>x \<in> set xs. P x"
  by (induction xs) (auto split: if_splits, metis Suc_n_not_le_n length_filter_le)

lemma some_unweighed: "length (filter P xs) \<noteq> length xs \<Longrightarrow> filter (\<lambda>x. \<not> P x) xs \<noteq> []"
  by (induction xs) (auto split: if_splits)

lemma publish_cluster_publishable: "d \<in> set (publish_cluster c) \<Longrightarrow> cr_members c \<noteq> [] \<Longrightarrow> publishable d"
proof -
  assume d: "d \<in> set (publish_cluster c)" and ne: "cr_members c \<noteq> []"
  let ?w = "filter weighs (cr_members c)"
  consider "length (cr_members c) < 2" | "\<not> length (cr_members c) < 2" "cr_review c = PendingReview"
    | "\<not> length (cr_members c) < 2" "cr_review c = Approved" "?w = [] \<or> length ?w = length (cr_members c)"
    | "\<not> length (cr_members c) < 2" "cr_review c = Approved" "?w \<noteq> []" "length ?w \<noteq> length (cr_members c)"
    by (metis review.exhaust)
  then show "publishable d"
  proof cases
    case 1
    with d ne show ?thesis by (simp add: publish_cluster_def publishable_def)
  next
    case 2
    with d show ?thesis by (simp add: publish_cluster_def isolate_publishable)
  next
    case 3
    then have "d = c" using d by (simp add: publish_cluster_def Let_def split: if_splits)
    moreover from 3(3) have "(\<forall>m \<in> set (cr_members c). \<not> weighs m) \<or> (\<forall>m \<in> set (cr_members c). weighs m)"
    proof
      assume "?w = []"
      then show ?thesis by (simp add: filter_empty_conv)
    next
      assume "length ?w = length (cr_members c)"
      then show ?thesis using all_weigh by blast
    qed
    then have "\<forall>m \<in> set (cr_members c). \<forall>n \<in> set (cr_members c). weighs m = weighs n" by blast
    ultimately show ?thesis using 3(2) ne unfolding publishable_def by blast
  next
    case 4
    then have "d = c\<lparr>cr_members := filter (\<lambda>m. \<not> weighs m) (cr_members c)\<rparr> \<or> d \<in> set (isolate (c\<lparr>cr_members := ?w\<rparr>))"
      using d by (simp add: publish_cluster_def Let_def)
    moreover have "publishable (c\<lparr>cr_members := filter (\<lambda>m. \<not> weighs m) (cr_members c)\<rparr>)"
      using 4(2,4) some_unweighed [of weighs "cr_members c"] by (simp add: publishable_def)
    ultimately show ?thesis using isolate_publishable by blast
  qed
qed

lemma isolateForPublish_publishable:
  "d \<in> set (isolateForPublish cs) \<Longrightarrow> list_all (\<lambda>c. cr_members c \<noteq> []) cs \<Longrightarrow> publishable d"
  by (auto simp: isolateForPublish_def list_all_iff dest: publish_cluster_publishable)

text \<open>When the members of each cluster share a category, the scope keeps or drops them together.\<close>

definition one_category :: "cluster \<Rightarrow> bool" where
  "one_category c \<longleftrightarrow> cr_members c \<noteq> [] \<and> (\<exists>k. \<forall>m \<in> set (cr_members c). cl_category m = k)"

lemma members_filterClustersByScope:
  "list_all one_category cs \<Longrightarrow>
   members_of (filterClustersByScope scope cs) = filter (\<lambda>m. cl_category m \<in> set scope) (members_of cs)"
proof (induction cs)
  case (Cons c cs)
  from Cons.prems obtain k where "cr_members c \<noteq> []" and k: "\<forall>m \<in> set (cr_members c). cl_category m = k"
    by (auto simp: one_category_def)
  then have "filter (\<lambda>m. cl_category m \<in> set scope) (cr_members c) = (if k \<in> set scope then cr_members c else [])"
    and "list_all (\<lambda>m. cl_category m \<in> set scope) (cr_members c) \<longleftrightarrow> k \<in> set scope"
    by (auto simp: list_all_iff filter_id_conv filter_empty_conv)
  with Cons show ?case by (simp add: filterClustersByScope_def)
qed (simp add: filterClustersByScope_def)

section \<open>Lemmas on the loop\<close>

definition source_of :: "classified \<Rightarrow> chain \<times> source_product" where
  "source_of m = (cl_store m, cl_product m)"

definition category_of :: "dictionary \<Rightarrow> chain \<times> source_product \<Rightarrow> jstr" where
  "category_of dict i = fst (resolveCategory dict (fst i) (snd i))"

definition considered :: "dictionary \<Rightarrow> jstr list option \<Rightarrow> chain \<times> source_product \<Rightarrow> bool" where
  "considered dict scope i \<longleftrightarrow> known_card dict (fst i) (snd i) \<noteq> None \<or> in_scope scope (category_of dict i)"

definition all_members :: "sync_state \<Rightarrow> classified list" where
  "all_members st = members_of (sy_clusters st) @ concat (js_values (sy_known st))"

text \<open>The category a card gives its products.\<close>

definition card_category :: "dictionary \<Rightarrow> jstr \<Rightarrow> jstr" where
  "card_category dict key =
    (case map_of (dc_canonicals dict) key of
       None \<Rightarrow> []
     | Some c \<Rightarrow> refineCategory (ca_category c) (ca_name c) (map_of (ca_attributes c) k_fat))"

definition sync_inv :: "dictionary \<Rightarrow> jstr list option \<Rightarrow> (chain \<times> source_product) list \<Rightarrow> sync_state \<Rightarrow> bool" where
  "sync_inv dict scope seen st \<longleftrightarrow>
     distinct (js_keys (sy_known st)) \<and>
     mset (map source_of (all_members st)) = mset (filter (considered dict scope) seen) \<and>
     (\<forall>m \<in> set (all_members st). cl_category m = category_of dict (source_of m)) \<and>
     list_all (\<lambda>c. length (cr_members c) = 1) (sy_clusters st) \<and>
     (\<forall>k ms. map_of (sy_known st) k = Some ms \<longrightarrow> ms \<noteq> [] \<and> (\<forall>m \<in> set ms. cl_category m = card_category dict k))"

lemma sync_inv_known:
  assumes "sync_inv dict scope seen st" and "map_of (sy_known st) k = Some ms"
  shows "ms \<noteq> [] \<and> (\<forall>m \<in> set ms. cl_category m = card_category dict k)"
proof -
  have "\<forall>k ms. map_of (sy_known st) k = Some ms \<longrightarrow> ms \<noteq> [] \<and> (\<forall>m \<in> set ms. cl_category m = card_category dict k)"
    using assms(1) unfolding sync_inv_def by (elim conjE)
  with assms(2) show ?thesis by (elim allE impE)
qed

lemma resolve_known:
  "known_card dict store p = Some (key, c) \<Longrightarrow>
   resolveCategory dict store p = (card_category dict key, Some (key, c)) \<and> map_of (dc_canonicals dict) key = Some c"
  by (auto simp: resolveCategory_def known_card_def card_category_def split: option.splits if_splits)

lemma resolve_unknown:
  "known_card dict store p = None \<Longrightarrow> resolveCategory dict store p = (category_of dict (store, p), None)"
  by (simp add: category_of_def resolveCategory_def Let_def)

lemma sync_product_known:
  "known_card dict (fst i) (snd i) = Some (key, c) \<Longrightarrow>
   sync_product dict scope st i =
     st\<lparr>sy_known := map_push key (from_card (fst i) (snd i) (card_category dict key) c) (sy_known st)\<rparr>"
  by (simp add: sync_product_def resolve_known)

lemma sync_product_skipped:
  "known_card dict (fst i) (snd i) = None \<Longrightarrow> \<not> in_scope scope (category_of dict i) \<Longrightarrow> sync_product dict scope st i = st"
  by (simp add: sync_product_def resolve_unknown)

lemma sync_product_unmapped:
  assumes "known_card dict (fst i) (snd i) = None" and "in_scope scope (category_of dict i)"
  shows "sy_known (sync_product dict scope st i) = sy_known st"
    and "sy_clusters (sync_product dict scope st i) = sy_clusters st @
      [\<lparr>cr_members = [from_name (fst i) (snd i) (category_of dict i)], cr_method = DeterministicMatch, cr_confidence = 1, cr_review = PendingReview\<rparr>]"
  using assms by (simp_all add: sync_product_def resolve_unknown Let_def)

lemma mset_set_push: "distinct (js_keys m) \<Longrightarrow> set (concat (js_values (map_push k v m))) = insert v (set (concat (js_values m)))"
  using mset_map_push [of m k v] by (metis set_mset_add_mset_insert set_mset_mset)

lemma mset_map_add: "mset xs = add_mset m (mset ys) \<Longrightarrow> mset (map f xs) = add_mset (f m) (mset (map f ys))"
  by simp

lemma sync_product_inv:
  assumes inv: "sync_inv dict scope seen st"
  shows "sync_inv dict scope (seen @ [i]) (sync_product dict scope st i)"
proof (cases "known_card dict (fst i) (snd i)")
  case (Some kc)
  then obtain key c where kc: "known_card dict (fst i) (snd i) = Some (key, c)" by (cases kc) auto
  let ?m = "from_card (fst i) (snd i) (card_category dict key) c"
  have src: "source_of ?m = i" and cat: "cl_category ?m = card_category dict key"
    by (simp_all add: source_of_def from_card_def)
  have cat_i: "category_of dict i = card_category dict key"
    using resolve_known [OF kc] by (simp add: category_of_def)
  have cons: "considered dict scope i" using kc by (simp add: considered_def)
  have dist: "distinct (js_keys (sy_known st))" using inv by (simp add: sync_inv_def)
  have st': "sync_product dict scope st i = st\<lparr>sy_known := map_push key ?m (sy_known st)\<rparr>"
    by (rule sync_product_known) (rule kc)
  have ms: "mset (all_members (sync_product dict scope st i)) = add_mset ?m (mset (all_members st))"
    using mset_map_push [OF dist, of key ?m] by (simp add: st' all_members_def)
  have "mset (map source_of (all_members (sync_product dict scope st i))) = mset (filter (considered dict scope) (seen @ [i]))"
    using inv mset_map_add [OF ms, of source_of] cons by (simp add: sync_inv_def src)
  moreover have "\<forall>m \<in> set (all_members (sync_product dict scope st i)). cl_category m = category_of dict (source_of m)"
    using inv ms src cat cat_i by (metis insert_iff set_mset_add_mset_insert set_mset_mset sync_inv_def)
  moreover have "distinct (js_keys (sy_known (sync_product dict scope st i)))"
    using dist by (simp add: st' keys_map_push)
  ultimately show ?thesis
    using inv by (auto simp: sync_inv_def st' js_map cat split: option.splits)
next
  case None
  show ?thesis
  proof (cases "in_scope scope (category_of dict i)")
    case False
    with None inv show ?thesis by (simp add: sync_product_skipped sync_inv_def considered_def)
  next
    case True
    let ?m = "from_name (fst i) (snd i) (category_of dict i)"
    have cons: "considered dict scope i" using True by (simp add: considered_def)
    have src: "source_of ?m = i" and cat: "cl_category ?m = category_of dict i"
      by (simp_all add: source_of_def from_name_def)
    note new = sync_product_unmapped [OF None True, of st]
    have ms: "mset (all_members (sync_product dict scope st i)) = add_mset ?m (mset (all_members st))"
      by (simp add: all_members_def new)
    have "mset (map source_of (all_members (sync_product dict scope st i))) = mset (filter (considered dict scope) (seen @ [i]))"
      using inv mset_map_add [OF ms, of source_of] cons by (simp add: sync_inv_def src)
    moreover have "\<forall>m \<in> set (all_members (sync_product dict scope st i)). cl_category m = category_of dict (source_of m)"
      using inv ms src cat by (metis insert_iff set_mset_add_mset_insert set_mset_mset sync_inv_def)
    ultimately show ?thesis using inv by (simp add: sync_inv_def new)
  qed
qed

lemma foldl_sync_inv:
  "sync_inv dict scope seen st \<Longrightarrow> sync_inv dict scope (seen @ is) (foldl (sync_product dict scope) st is)"
proof (induction "is" arbitrary: st seen)
  case (Cons i "is")
  from Cons.IH [OF sync_product_inv [OF Cons.prems], of i] show ?case by simp
qed simp

lemma sync_loop_inv: "sync_inv dict scope (sync_inputs files) (sync_loop dict scope files)"
proof -
  have "sync_inv dict scope [] \<lparr>sy_known = [], sy_clusters = [], sy_unmapped = []\<rparr>"
    by (simp add: sync_inv_def all_members_def)
  from foldl_sync_inv [OF this, of "sync_inputs files"] show ?thesis by (simp add: sync_loop_def)
qed

lemma values_by_keys: "distinct (js_keys m) \<Longrightarrow> map (\<lambda>k. the (map_of m k)) (js_keys m) = js_values m"
proof -
  assume d: "distinct (js_keys m)"
  have "the (map_of m (fst e)) = snd e" if "e \<in> set m" for e
    using map_of_is_SomeI [OF d, of "fst e" "snd e"] that by simp
  then show ?thesis by simp
qed

lemma mset_concat_image: "mset (concat (map f xs)) = (\<Sum>x \<in># mset xs. mset (f x))"
  by (induction xs) simp_all

lemma sync_clusters_members:
  assumes "sync_inv dict scope seen st"
  shows "mset (members_of (sync_clusters dict st)) = mset (all_members st)" and "list_all one_category (sync_clusters dict st)"
proof -
  let ?keys = "js_keys (sy_known st)"
  have dist: "distinct ?keys" using assms by (simp add: sync_inv_def)
  have "mset (concat (map (\<lambda>k. the (map_of (sy_known st) k)) (js_sort str_le ?keys)))
      = mset (concat (map (\<lambda>k. the (map_of (sy_known st) k)) ?keys))"
    unfolding mset_concat_image mset_js_sort ..
  moreover have "map cr_members (map (known_cluster dict (sy_known st)) ks) = map (\<lambda>k. the (map_of (sy_known st) k)) ks" for ks
    by (simp add: known_cluster_def Let_def)
  ultimately show "mset (members_of (sync_clusters dict st)) = mset (all_members st)"
    unfolding sync_clusters_def all_members_def map_append concat_append mset_append
    by (simp only: values_by_keys [OF dist])
  have one: "one_category c" if "length (cr_members c) = 1" for c
    using that by (cases "cr_members c") (auto simp: one_category_def)
  have "one_category (known_cluster dict (sy_known st) k)" if k: "k \<in> set ?keys" for k
  proof -
    have "map_of (sy_known st) k \<noteq> None" using k by (simp add: map_of_eq_None_iff)
    then obtain ms where ms: "map_of (sy_known st) k = Some ms" by blast
    then have "ms \<noteq> [] \<and> (\<forall>m \<in> set ms. cl_category m = card_category dict k)"
      by (rule sync_inv_known [OF assms])
    moreover have "cr_members (known_cluster dict (sy_known st) k) = ms" by (simp add: known_cluster_def Let_def ms)
    ultimately show ?thesis unfolding one_category_def by blast
  qed
  then have "\<forall>c \<in> known_cluster dict (sy_known st) ` set ?keys. one_category c" by blast
  then have "list_all one_category (map (known_cluster dict (sy_known st)) (js_sort str_le ?keys))"
    by (simp only: list_all_iff set_map set_js_sort)
  moreover have "list_all one_category (sy_clusters st)"
    using assms one by (simp add: sync_inv_def list_all_iff)
  ultimately show "list_all one_category (sync_clusters dict st)"
    by (simp add: sync_clusters_def)
qed

text \<open>What is published is what the scope keeps of the members.\<close>

lemma published_members:
  assumes "list_all one_category cs"
  shows "mset (members_of (published scope cs)) = mset (filter (\<lambda>m. in_scope scope (cl_category m)) (members_of cs))"
  using assms by (cases scope) (simp_all add: published_def isolateForPublish_mset in_scope_def members_filterClustersByScope)

lemma published_publishable:
  assumes "list_all one_category cs" and "d \<in> set (published scope cs)"
  shows "publishable d"
proof -
  have ne: "list_all (\<lambda>c. cr_members c \<noteq> []) cs"
    using assms(1) by (auto simp: list_all_iff one_category_def)
  then have "list_all (\<lambda>c. cr_members c \<noteq> []) (filterClustersByScope s cs)" for s
    by (auto simp: list_all_iff filterClustersByScope_def)
  with ne assms(2) show ?thesis
    by (auto simp: published_def split: option.splits intro: isolateForPublish_publishable)
qed

end
