(* ===== verification/Taxonomy.thy ===== *)
theory Taxonomy
  imports Dictionary
begin

text \<open>
  The filters of the published categories, generated from the dictionary into a database
  migration (\<open>mapping/taxonomy-sql.ts\<close>). The \<open>JSON\<close> text of a schema is a parameter.
\<close>

section \<open>The filters of a category\<close>

record filter_definition =
  fd_key :: jstr
  fd_label :: jstr
  fd_type :: jstr
  fd_options :: jval

text \<open>\<open>compare(a, b) <= 0\<close>: numbers by value, anything else by its text.\<close>

fun prim_le :: "prim \<Rightarrow> prim \<Rightarrow> bool" where
  "prim_le (PNum (Fin a)) (PNum (Fin b)) = (a \<le> b)"
| "prim_le a b = str_le (prim_text a) (prim_text b)"

fun prim_val :: "prim \<Rightarrow> jval" where
  "prim_val (PStr s) = JStr s"
| "prim_val (PNum n) = JNum n"
| "prim_val (PBool b) = JBool b"

definition category_cards :: "dictionary \<Rightarrow> jstr \<Rightarrow> card list" where
  "category_cards dict slug =
    filter (\<lambda>c. refineCategory (ca_category c) (ca_name c) (map_of (ca_attributes c) k_fat) = slug) (js_values (dc_canonicals dict))"

definition card_value :: "jstr \<Rightarrow> card \<Rightarrow> prim option" where
  "card_value key c =
    (if key = la ''brand'' then map_option PStr (ca_brand c) else map_option num (map_of (ca_attributes c) key))"

definition allowed :: "prim list option \<Rightarrow> prim \<Rightarrow> bool" where
  "allowed allow v = (case allow of None \<Rightarrow> True | Some vs \<Rightarrow> v \<in> set vs)"

text \<open>The values of a filter: what the cards of the category really have, within the curated list.\<close>

definition filter_values :: "card list \<Rightarrow> cat_filter \<Rightarrow> prim list" where
  "filter_values cards f = js_set (filter (allowed (cf_allow f)) (List.map_filter (card_value (cf_key f)) cards))"

definition filter_for :: "card list \<Rightarrow> cat_filter \<Rightarrow> filter_definition option" where
  "filter_for cards f =
    (let values = filter_values cards f
     in if values = [] then None
        else Some \<lparr>fd_key = cf_key f, fd_label = cf_label f, fd_type = la ''multi-select'',
                   fd_options = JArr (map prim_val (js_sort prim_le values))\<rparr>)"

definition filterSchemaFor :: "dictionary \<Rightarrow> jstr \<Rightarrow> perror + filter_definition list" where
  "filterSchemaFor dict slug =
    (case List.find (\<lambda>c. tc_slug c = slug) CATEGORIES of
       None \<Rightarrow> Inl (Error (la ''unknown category '' @ slug))
     | Some category \<Rightarrow> Inr (List.map_filter (filter_for (category_cards dict slug)) (tc_filters category)))"

section \<open>What the server accepts\<close>

definition is_primitive :: "jval \<Rightarrow> bool" where
  "is_primitive v \<longleftrightarrow> type_of v \<in> {TString, TNumber, TBoolean}"

definition unservable :: "jstr \<Rightarrow> filter_definition \<Rightarrow> perror option" where
  "unservable slug f =
    (let place = slug @ la ''.'' @ fd_key f
     in if fd_type f \<noteq> la ''multi-select'' then None
        else case fd_options f of
               JArr os \<Rightarrow>
                 if os = [] then Some (Error (place @ la '': multi-select without options is dropped by the API''))
                 else if \<not> list_all is_primitive os then Some (Error (place @ la '': options must be primitives''))
                 else if length (js_set os) \<noteq> length os then Some (Error (place @ la '': duplicate options''))
                 else None
             | _ \<Rightarrow> Some (Error (place @ la '': multi-select without options is dropped by the API'')))"

definition assertServableSchema :: "jstr \<Rightarrow> filter_definition list \<Rightarrow> perror option" where
  "assertServableSchema slug schema = check_all (unservable slug) schema"

section \<open>The migration\<close>

definition schema_json :: "filter_definition list \<Rightarrow> jval" where
  "schema_json fs =
    JObj [(la ''filters'', JArr (map (\<lambda>f. JObj [(la ''key'', JStr (fd_key f)), (la ''label'', JStr (fd_label f)),
      (la ''type'', JStr (fd_type f)), (la ''options'', fd_options f)]) fs))]"

definition sqlString :: "jstr \<Rightarrow> jstr" where
  "sqlString s = [39] @ concat (map (\<lambda>c. if c = 39 then [39, 39] else [c]) s) @ [39]"

definition migration_row :: "(jval \<Rightarrow> jstr) \<Rightarrow> dictionary \<Rightarrow> jstr \<Rightarrow> perror + jstr" where
  "migration_row json dict slug =
    (case List.find (\<lambda>c. tc_slug c = slug) CATEGORIES of
       None \<Rightarrow> Inl (Error (la ''TypeError''))
     | Some category \<Rightarrow>
         and_then (filterSchemaFor dict slug) (\<lambda>filterSchema.
           case assertServableSchema slug filterSchema of
             Some e \<Rightarrow> Inl e
           | None \<Rightarrow> Inr (la '' ('' @ sqlString (la ''cat-'' @ slug) @ la '','' @ sqlString slug @ la '','' @
               sqlString (tc_name category) @ la '','' @ sqlString (json (schema_json filterSchema)) @ la '')'')))"

definition buildTaxonomyMigration :: "(jval \<Rightarrow> jstr) \<Rightarrow> dictionary \<Rightarrow> perror + jstr" where
  "buildTaxonomyMigration json dict =
    and_then (traverse (migration_row json dict) DEFAULT_PUBLISH_CATEGORIES) (\<lambda>rows.
      Inr (join [10]
        [la ''-- Catalog taxonomy (SCRUM-19: milk = drinking milk, dairy without fat). Data-only, idempotent, no DDL.'',
         la ''-- GENERATED by `pnpm taxonomy:sql` from data/mapping/dictionary.json; do not edit by hand (pipeline/test/taxonomy.test.ts checks it).'',
         la ''-- Existing rows keep their id; name and filterSchema are set deterministically. Legacy `other` is not touched.'',
         la ''BEGIN;'',
         la ''SET LOCAL lock_timeout = '' @ [39] @ la ''5s'' @ [39] @ la '';'',
         la ''SET LOCAL statement_timeout = '' @ [39] @ la ''30s'' @ [39] @ la '';'',
         [],
         la ''INSERT INTO public.categories (id, slug, name, '' @ [34] @ la ''filterSchema'' @ [34] @ la '') VALUES'',
         join [44, 10] rows,
         la ''ON CONFLICT (slug) DO UPDATE SET name = EXCLUDED.name, '' @ [34] @ la ''filterSchema'' @ [34] @ la '' = EXCLUDED.'' @ [34] @ la ''filterSchema'' @ [34] @ la '';'',
         la ''COMMIT;'',
         []]))"

section \<open>Lemmas\<close>

lemma prim_val_inj: "prim_val a = prim_val b \<longleftrightarrow> a = b"
  by (cases a; cases b) auto

lemma prim_val_primitive: "is_primitive (prim_val p)"
  by (cases p) (simp_all add: is_primitive_def)

lemma filter_for_Some:
  assumes "filter_for cards f = Some d"
  obtains vs where "vs \<noteq> []" "distinct vs" "set vs = set (filter_values cards f)" "fd_key d = cf_key f" "fd_label d = cf_label f"
    "fd_type d = la ''multi-select''" "fd_options d = JArr (map prim_val vs)"
proof (rule that)
  let ?vs = "js_sort prim_le (filter_values cards f)"
  have ne: "filter_values cards f \<noteq> []" using assms by (auto simp: filter_for_def Let_def split: if_splits)
  then show "?vs \<noteq> []" by simp
  show "distinct ?vs" by (simp add: filter_values_def)
  show "set ?vs = set (filter_values cards f)" by simp
  show "fd_key d = cf_key f" "fd_label d = cf_label f" "fd_type d = la ''multi-select''" "fd_options d = JArr (map prim_val ?vs)"
    using assms ne by (auto simp: filter_for_def Let_def)
qed

lemma distinct_length_js_set: "distinct xs \<Longrightarrow> length (js_set xs) = length xs"
  by (simp add: length_js_set distinct_card)

lemma filter_for_servable: "filter_for cards f = Some d \<Longrightarrow> unservable slug d = None"
proof (erule filter_for_Some)
  fix vs
  assume "vs \<noteq> []" "distinct vs" "fd_type d = la ''multi-select''" "fd_options d = JArr (map prim_val vs)"
  moreover have "distinct (map prim_val vs)" using \<open>distinct vs\<close> by (simp add: distinct_map inj_on_def prim_val_inj)
  moreover have "list_all is_primitive (map prim_val vs)" by (simp add: list_all_iff prim_val_primitive)
  ultimately show ?thesis by (simp add: unservable_def Let_def distinct_length_js_set)
qed

lemma known_category: "isCategorySlug slug \<Longrightarrow> \<exists>c. List.find (\<lambda>c. tc_slug c = slug) CATEGORIES = Some c"
  by (cases "List.find (\<lambda>c. tc_slug c = slug) CATEGORIES") (auto simp: find_None_conv isCategorySlug_def)

lemma filterSchemaFor_servable:
  assumes "filterSchemaFor dict slug = Inr fs"
  shows "assertServableSchema slug fs = None"
proof -
  obtain c where c: "List.find (\<lambda>c. tc_slug c = slug) CATEGORIES = Some c"
    using assms by (cases "List.find (\<lambda>c. tc_slug c = slug) CATEGORIES") (simp_all add: filterSchemaFor_def)
  have fs: "fs = List.map_filter (filter_for (category_cards dict slug)) (tc_filters c)"
    using assms by (simp add: filterSchemaFor_def c)
  show ?thesis
    unfolding assertServableSchema_def check_all_None fs by (auto simp: in_map_filter dest: filter_for_servable)
qed

lemma traverse_total: "\<forall>x \<in> set xs. \<exists>y. f x = Inr y \<Longrightarrow> \<exists>ys. traverse f xs = Inr ys"
  by (induction xs) auto

lemma migration_row_ok: "isCategorySlug slug \<Longrightarrow> \<exists>row. migration_row json dict slug = Inr row"
proof -
  assume "isCategorySlug slug"
  then obtain c where c: "List.find (\<lambda>c. tc_slug c = slug) CATEGORIES = Some c" using known_category by blast
  then have fs: "filterSchemaFor dict slug = Inr (List.map_filter (filter_for (category_cards dict slug)) (tc_filters c))"
    by (simp add: filterSchemaFor_def)
  from filterSchemaFor_servable [OF fs] show ?thesis by (simp add: migration_row_def c fs)
qed

text \<open>A quoted string ends where it should: its quotes are all doubled.\<close>

lemma sqlString_quotes: "count_list (sqlString s) 39 = 2 * count_list s 39 + 2"
proof -
  have "count_list (concat (map (\<lambda>c. if c = 39 then [39, 39] else [c]) s)) 39 = 2 * count_list s 39"
    by (induction s) auto
  then show ?thesis by (simp add: sqlString_def)
qed

text \<open>Reading a quoted string back: every pair of quotes is one.\<close>

fun sql_unquote :: "jstr \<Rightarrow> jstr" where
  "sql_unquote (a # b # s) = (if a = 39 \<and> b = 39 then 39 # sql_unquote s else a # sql_unquote (b # s))"
| "sql_unquote s = s"

lemma sql_unquote_body: "sql_unquote (concat (map (\<lambda>c. if c = 39 then [39, 39] else [c]) s)) = s"
proof (induction s)
  case (Cons c s)
  then show ?case
    by (cases "concat (map (\<lambda>c. if c = 39 then [39, 39] else [c]) s)") auto
qed simp

end
