(* ===== verification/SyncProperties.thy ===== *)
theory SyncProperties
  imports Overrides Sync Taxonomy
begin

text \<open>
  The properties of the pipeline after the scrape: classifying and matching the products,
  the dictionary and its corrections, and the bundle that is published.
\<close>

section \<open>The bundle\<close>

lemma sync_members:
  "mset (members_of (sync_clusters dict (sync_loop dict scope files))) = mset (all_members (sync_loop dict scope files))"
  "list_all one_category (sync_clusters dict (sync_loop dict scope files))"
  by (rule sync_clusters_members [OF sync_loop_inv])+

lemma filter_image_mset:
  assumes "\<And>m. m \<in># M \<Longrightarrow> P m \<longleftrightarrow> Q (f m)"
  shows "image_mset f (filter_mset P M) = filter_mset Q (image_mset f M)"
  using assms by (induction M) simp_all

lemma published_sources:
  "mset (map source_of (members_of (published scope (sync_clusters dict (sync_loop dict scope files))))) =
   mset (filter (\<lambda>i. in_scope scope (category_of dict i)) (sync_inputs files))"
proof -
  let ?st = "sync_loop dict scope files"
  let ?P = "\<lambda>m. in_scope scope (cl_category m)" and ?Q = "\<lambda>i. in_scope scope (category_of dict i)"
  have inv: "sync_inv dict scope (sync_inputs files) ?st" by (rule sync_loop_inv)
  then have cat: "\<forall>m \<in> set (all_members ?st). cl_category m = category_of dict (source_of m)"
    and src: "mset (map source_of (all_members ?st)) = mset (filter (considered dict scope) (sync_inputs files))"
    unfolding sync_inv_def by blast+
  have "mset (map source_of (members_of (published scope (sync_clusters dict ?st)))) =
      image_mset source_of (filter_mset ?P (mset (all_members ?st)))"
    using published_members [OF sync_members(2), of scope dict scope files] by (simp add: sync_members(1))
  also have "\<dots> = filter_mset ?Q (image_mset source_of (mset (all_members ?st)))"
    by (rule filter_image_mset) (use cat in \<open>simp only: set_mset_mset\<close>)
  also have "\<dots> = mset (filter ?Q (filter (considered dict scope) (sync_inputs files)))"
    using src by (simp only: mset_map mset_filter)
  also have "filter ?Q (filter (considered dict scope) (sync_inputs files)) = filter ?Q (sync_inputs files)"
    unfolding filter_filter by (rule filter_cong) (auto simp: considered_def)
  finally show ?thesis .
qed

definition raw_summary :: "bundle_raw \<Rightarrow> chain \<times> jstr \<times> jstr \<times> int" where
  "raw_summary r = (br_store r, br_id r, br_name r, br_price r)"

definition source_summary :: "chain \<times> source_product \<Rightarrow> chain \<times> jstr \<times> jstr \<times> int" where
  "source_summary i = (fst i, sp_id (snd i), sp_name (snd i), sp_price (snd i))"

lemma raw_summary_toRaw: "raw_summary (toRaw m) = source_summary (source_of m)"
  by (simp add: raw_summary_def source_summary_def toRaw_def Let_def source_of_def)

text \<open>A card that may be shown: one offer, or several that were approved.\<close>

definition showable :: "bundle_canonical \<Rightarrow> bool" where
  "showable g \<longleftrightarrow> bc_members g \<noteq> [] \<and>
     (length (bc_members g) = 1 \<or> list_all (\<lambda>m. bm_review m = Approved) (bc_members g))"

lemma canonical_showable: "publishable c \<Longrightarrow> showable (canonical_of c)"
  by (cases "cr_members c") (auto simp: publishable_def showable_def canonical_of_def Let_def list_all_iff)

lemma sync_unmapped:
  "sy_unmapped (sync_loop dict scope files) =
    map (\<lambda>i. \<lparr>un_store = fst i, un_id = sp_id (snd i), un_name = sp_name (snd i), un_price = sp_price (snd i),
              un_path = sp_path (snd i), un_guess = category_of dict i\<rparr>)
      (filter (\<lambda>i. known_card dict (fst i) (snd i) = None \<and> in_scope scope (category_of dict i)) (sync_inputs files))"
proof -
  have "sy_unmapped (foldl (sync_product dict scope) st is) = sy_unmapped st @
    map (\<lambda>i. \<lparr>un_store = fst i, un_id = sp_id (snd i), un_name = sp_name (snd i), un_price = sp_price (snd i),
              un_path = sp_path (snd i), un_guess = category_of dict i\<rparr>)
      (filter (\<lambda>i. known_card dict (fst i) (snd i) = None \<and> in_scope scope (category_of dict i)) is)" for st "is"
  proof (induction "is" arbitrary: st)
    case (Cons i "is")
    show ?case
    proof (cases "known_card dict (fst i) (snd i)")
      case None
      then have "resolveCategory dict (fst i) (snd i) = (category_of dict i, None)" using resolve_unknown [OF None] by simp
      with None Cons.IH show ?thesis by (simp add: sync_product_def Let_def)
    next
      case (Some kc)
      then have "sync_product dict scope st i =
          st\<lparr>sy_known := map_push (fst kc) (from_card (fst i) (snd i) (card_category dict (fst kc)) (snd kc)) (sy_known st)\<rparr>"
        by (intro sync_product_known) simp
      with Some Cons.IH show ?thesis by simp
    qed
  qed simp
  then show ?thesis by (simp add: sync_loop_def)
qed

lemma sync_bundle_offers:
  "\<exists>b. buildSyncBundle files dict generatedAt scope = Inr (b, sy_unmapped (sync_loop dict scope files)) \<and>
     mset (map raw_summary (bu_raw b)) =
       mset (map source_summary (filter (\<lambda>i. in_scope scope (category_of dict i)) (sync_inputs files))) \<and>
     list_all showable (bu_canonicals b) \<and>
     map (\<lambda>r. (sr_store r, sr_capturedAt r)) (bu_runs b) = map (\<lambda>f. (sf_store f, sf_capturedAt f)) files"
proof -
  let ?st = "sync_loop dict scope files"
  let ?cs = "published scope (sync_clusters dict ?st)"
  have pub: "list_all publishable ?cs"
    using published_publishable [OF sync_members(2)] by (simp add: list_all_iff)
  then obtain b where b: "buildBundle ?cs (map source_meta.truncate files) generatedAt = Inr b"
    using buildBundle_ok [of ?cs "map source_meta.truncate files" generatedAt] by (auto simp: list_all_iff publishable_def)
  have "map raw_summary (bu_raw b) = map source_summary (map source_of (members_of ?cs))"
    using buildBundle_Inr [OF b] by (simp add: map_concat comp_def raw_summary_toRaw)
  then have "mset (map raw_summary (bu_raw b)) = image_mset source_summary (mset (map source_of (members_of ?cs)))"
    by (simp only: mset_map)
  also have "\<dots> = mset (map source_summary (filter (\<lambda>i. in_scope scope (category_of dict i)) (sync_inputs files)))"
    using published_sources [of scope dict files] by (simp only: mset_map)
  finally have offers: "mset (map raw_summary (bu_raw b)) =
      mset (map source_summary (filter (\<lambda>i. in_scope scope (category_of dict i)) (sync_inputs files)))" .
  have "list_all showable (bu_canonicals b)"
    using buildBundle_Inr [OF b] pub by (simp add: list_all_iff canonical_showable)
  moreover have "map (\<lambda>r. (sr_store r, sr_capturedAt r)) (bu_runs b) = map (\<lambda>f. (sf_store f, sf_capturedAt f)) files"
    using b by (auto simp: buildBundle_def Let_def source_meta.truncate_def split: if_splits)
  ultimately show ?thesis using offers b by (simp add: buildSyncBundle_def Let_def)
qed

text \<open>C2: The bundle that is published can always be built, and it offers exactly the products of the
  shop files whose category is in scope, each once with its shop, identifier, name and price;
  a card with several offers consists of approved matches only, and the products listed as
  unmapped are exactly those in scope without a card in the dictionary.\<close>

theorem sync_offers_each_product_once:
  "\<exists>b un. buildSyncBundle files dict generatedAt scope = Inr (b, un) \<and>
     mset (map raw_summary (bu_raw b)) =
       mset (map source_summary (filter (\<lambda>i. in_scope scope (category_of dict i)) (sync_inputs files))) \<and>
     list_all showable (bu_canonicals b) \<and>
     map (\<lambda>u. (un_store u, un_id u)) un =
       map (\<lambda>i. (fst i, sp_id (snd i)))
         (filter (\<lambda>i. known_card dict (fst i) (snd i) = None \<and> in_scope scope (category_of dict i)) (sync_inputs files))"
  using sync_bundle_offers [of files dict generatedAt scope] by (auto simp: sync_unmapped comp_def)

definition sync_milk :: source_file where
  "sync_milk = plain_file Dina [plain_product (la ''1'') (la ''milk'') 500 []]"

section \<open>Classification and matching\<close>

text \<open>C37: Whatever the language model answers, or fails to answer, classifying a batch returns one record
  per product in the order of the batch, each about its own product, in a category of the
  taxonomy, with sizes that are positive whole numbers.\<close>

theorem classification_answers_every_product:
  assumes "distinct (map input_key items)"
  shows "list_all2 classified_from items (classifyBatch llm items)"
proof -
  let ?got = "classify_loop llm items [0, 1] []"
  have ok: "done_ok items ?got" by (rule classify_loop_ok) (simp add: done_ok_def)
  have "classified_from i (nullish (map_of ?got (input_key i)) (fallback i))" if "i \<in> set items" for i
  proof (cases "map_of ?got (input_key i)")
    case None
    then show ?thesis by (simp add: fallback_from)
  next
    case (Some c)
    with ok obtain j where "by_key items (input_key i) = Some j" "classified_from j c" unfolding done_ok_def by blast
    with Some by_key_distinct [OF assms that] show ?thesis by simp
  qed
  then show ?thesis by (simp add: classifyBatch_def Let_def list_all2_map2 list.rel_refl_strong)
qed

definition garbage_classifier :: classifier where
  "garbage_classifier attempt rows =
    (if attempt = 0 then None
     else Some [\<lparr>it_id = la ''DINA:1'', it_category = la ''milk'', it_type = la ''Milk'', it_brand = None, it_volume = Some (1 / 3),
       it_weight = None, it_count = None, it_fat = None, it_display = la ''Milk''\<rparr>])"

theorem classification_answers_every_product_witness:
  "list_all2 classified_from (sync_inputs [sync_milk]) (classifyBatch garbage_classifier (sync_inputs [sync_milk])) \<and>
   map cl_category (classifyBatch garbage_classifier (sync_inputs [sync_milk])) = [la ''milk'']"
proof -
  have "distinct (map input_key (sync_inputs [sync_milk]))" by (simp add: sync_inputs_def sync_milk_def plain_file_def)
  moreover have "map cl_category (classifyBatch garbage_classifier (sync_inputs [sync_milk])) = [la ''milk'']" by code_simp
  ultimately show ?thesis using classification_answers_every_product by blast
qed

text \<open>Blocking loses and repeats no product, and every block handed to the matcher is non-empty, no
  longer than the limit and made of products with one category, type and amount.\<close>

theorem blocks_are_a_partition:
  assumes "0 < maxSize"
  shows "mset (concat (buildBlocks maxSize items)) = mset items \<and>
    list_all (\<lambda>b. b \<noteq> [] \<and> length b \<le> maxSize \<and> list_all (\<lambda>c. blockKey c = blockKey (hd b)) b) (buildBlocks maxSize items)"
proof -
  let ?gs = "js_values (group_by blockKey items)"
  have "mset (concat (buildBlocks maxSize items)) = mset (concat ?gs)"
    unfolding buildBlocks_def by (rule mset_concat_map) (rule mset_split_group [OF assms])
  moreover have "mset (concat ?gs) = mset items" by (rule mset_group_by)
  moreover have "b \<noteq> [] \<and> length b \<le> maxSize \<and> (\<forall>c \<in> set b. blockKey c = blockKey (hd b))"
    if "g \<in> set ?gs" "b \<in> set (split_group maxSize g)" for g b
  proof -
    from in_group_values [OF that(1)] obtain k where g: "g \<noteq> []" "\<forall>y \<in> set g. blockKey y = k" by blast
    note b = split_group_block [OF that(2) g(1)]
    then have "hd b \<in> set g" using hd_in_set by blast
    with b g(2) show ?thesis by auto
  qed
  ultimately show ?thesis unfolding buildBlocks_def by (auto simp: list_all_iff)
qed

theorem blocks_are_a_partition_witness:
  "mset (concat (buildBlocks 40 (classifyBatch garbage_classifier (sync_inputs [sync_milk])))) =
   mset (classifyBatch garbage_classifier (sync_inputs [sync_milk]))"
  using blocks_are_a_partition [of 40 "classifyBatch garbage_classifier (sync_inputs [sync_milk])"] by simp

definition confident :: "cluster \<Rightarrow> bool" where
  "confident c \<longleftrightarrow> cr_method c = DeterministicMatch \<or>
     4 / 5 \<le> cr_confidence c \<and> (cr_review c = Approved \<longleftrightarrow> 19 / 20 \<le> cr_confidence c)"

lemma confident_single [simp]: "confident (single m)"
  by (simp add: confident_def single_def)

lemma confident_applyGuards: "confident c \<Longrightarrow> list_all confident (applyGuards c)"
proof (cases "length (cr_members c) < 2")
  case False
  then show "confident c \<Longrightarrow> list_all confident (applyGuards c)"
    by (rule two_members) (simp add: applyGuards_Cons list_all_iff, simp add: confident_def)
qed (simp add: applyGuards_short)

lemma confident_accept: "list_all confident (accept_cluster ms q)"
proof -
  have "list_all confident (map single ms)" by (simp add: list_all_iff)
  moreover have "list_all confident (applyGuards \<lparr>cr_members = ms, cr_method = AiMatch, cr_confidence = q,
      cr_review = (if 19 / 20 \<le> q then Approved else PendingReview)\<rparr>)" if "4 / 5 \<le> q"
    by (rule confident_applyGuards) (use that in \<open>simp add: confident_def\<close>)
  ultimately show ?thesis by (simp add: accept_cluster_def)
qed

lemma confident_foldl: "list_all confident (snd st) \<Longrightarrow> list_all confident (snd (foldl (take_cluster block) st cs))"
  by (induction cs arbitrary: st) (simp_all add: take_cluster_def Let_def confident_accept)

text \<open>How often a product is among the clusters: once, except where the model's answer repeats it.\<close>

definition times_matched :: "matcher \<Rightarrow> classified list \<Rightarrow> classified \<Rightarrow> nat" where
  "times_matched llm block m =
    (if length (js_set (map cl_store block)) < 2 then 1
     else case ask_twice llm (match_prompt block) of None \<Rightarrow> 1 | Some reply \<Rightarrow> max 1 (times_named reply (cl_key m)))"

lemma matched_alone:
  assumes "length (js_set (map cl_store block)) < 2 \<or> ask_twice llm (match_prompt block) = None"
  shows "matchBlock llm block = map single block"
  using assms by (auto simp: matchBlock_def)

text \<open>The clusters made of an answer, and the invariant they end with.\<close>

lemma matched_reply:
  assumes "\<not> (length (js_set (map cl_store block)) < 2 \<or> ask_twice llm (match_prompt block) = None)"
  obtains reply st where "ask_twice llm (match_prompt block) = Some reply" and "match_inv block reply st" and "list_all confident (snd st)"
    and "matchBlock llm block = snd st @ map single (filter (\<lambda>b. cl_key b \<notin> set (fst st)) block)"
proof -
  obtain reply where r: "ask_twice llm (match_prompt block) = Some reply" using assms by blast
  let ?st = "foldl (take_cluster block) ([], []) reply"
  have "match_inv block [] ([], [])" by (simp add: match_inv_def times_named_def)
  then have "match_inv block reply ?st" using foldl_take_cluster_inv [of block "[]" "([], [])" reply] by simp
  moreover have "list_all confident (snd ?st)" by (rule confident_foldl) simp
  moreover have "matchBlock llm block = snd ?st @ map single (filter (\<lambda>b. cl_key b \<notin> set (fst ?st)) block)"
    using assms r by (simp add: matchBlock_def case_prod_unfold Let_def)
  ultimately show thesis using that r by blast
qed

lemma matched_clusters: "list_all (\<lambda>c. cr_members c \<noteq> [] \<and> coherent c \<and> confident c) (matchBlock llm block)"
proof (cases "length (js_set (map cl_store block)) < 2 \<or> ask_twice llm (match_prompt block) = None")
  case True
  show ?thesis unfolding matched_alone [OF True] by (simp add: list_all_iff) (simp add: single_def)
next
  case False
  obtain reply st where inv: "match_inv block reply st" and ok: "list_all confident (snd st)"
    and eq: "matchBlock llm block = snd st @ map single (filter (\<lambda>b. cl_key b \<notin> set (fst st)) block)"
    by (rule matched_reply [OF False])
  have "list_all (\<lambda>c. coherent c \<and> cr_members c \<noteq> []) (snd st)" using inv by (simp add: match_inv_def)
  with ok show ?thesis unfolding eq by (auto simp: list_all_iff) (simp add: single_def)
qed

lemma matched_counts:
  assumes keys: "distinct (map cl_key block)" and m: "m \<in> set block"
  shows "count_list (members_of (matchBlock llm block)) m = times_matched llm block m"
proof (cases "length (js_set (map cl_store block)) < 2 \<or> ask_twice llm (match_prompt block) = None")
  case True
  have "count_list block m = 1" using keys m by (simp add: distinct_map count_list_distinct)
  then show ?thesis using True by (auto simp: matched_alone [OF True] times_matched_def)
next
  case False
  obtain reply st where r: "ask_twice llm (match_prompt block) = Some reply" and inv: "match_inv block reply st"
    and eq: "matchBlock llm block = snd st @ map single (filter (\<lambda>b. cl_key b \<notin> set (fst st)) block)"
    by (rule matched_reply [OF False])
  show ?thesis unfolding eq using clustered_counts [OF inv keys m] False r by (simp add: times_matched_def)
qed

lemma matched_members:
  assumes keys: "distinct (map cl_key block)"
  shows "set (members_of (matchBlock llm block)) = set block"
proof
  show "set (members_of (matchBlock llm block)) \<subseteq> set block"
  proof (cases "length (js_set (map cl_store block)) < 2 \<or> ask_twice llm (match_prompt block) = None")
    case True
    then show ?thesis by (simp add: matched_alone)
  next
    case False
    obtain reply st where inv: "match_inv block reply st"
      and eq: "matchBlock llm block = snd st @ map single (filter (\<lambda>b. cl_key b \<notin> set (fst st)) block)"
      by (rule matched_reply [OF False])
    then show ?thesis by (auto simp: eq match_inv_def)
  qed
  show "set block \<subseteq> set (members_of (matchBlock llm block))"
  proof
    fix m assume "m \<in> set block"
    then have "count_list (members_of (matchBlock llm block)) m = times_matched llm block m" by (rule matched_counts [OF keys])
    moreover have "0 < times_matched llm block m" by (auto simp: times_matched_def split: option.split)
    ultimately show "m \<in> set (members_of (matchBlock llm block))" using count_list_0_iff [of "members_of (matchBlock llm block)" m] by linarith
  qed
qed

text \<open>C28: Whatever the model answers, matching a block of products with different identifiers returns all the
  products of the block and nothing else; every cluster is non-empty, has at most one product per
  shop and only products of one size and fat, and what the model joined was joined with
  confidence at least 0.8 and approved only from 0.95. A product is returned as often as the first
  cluster of the answer that names it names it, and once if none does: so every product is in exactly
  one cluster unless the model repeats an identifier within one cluster, against its instructions
  (\<open>match.ts\<close> marks the identifiers of a cluster as used only after it has collected them).\<close>

theorem matching_keeps_every_product:
  assumes "distinct (map cl_key block)"
  shows "set (members_of (matchBlock llm block)) = set block \<and>
    list_all (\<lambda>c. cr_members c \<noteq> [] \<and> coherent c \<and> confident c) (matchBlock llm block) \<and>
    (\<forall>m \<in> set block. count_list (members_of (matchBlock llm block)) m = times_matched llm block m) \<and>
    ((\<forall>reply. ask_twice llm (match_prompt block) = Some reply \<longrightarrow> list_all (\<lambda>c. distinct (fst c)) reply) \<longrightarrow>
       mset (members_of (matchBlock llm block)) = mset block)"
proof -
  note counts = matched_counts [OF assms, of _ llm]
  have members: "set (members_of (matchBlock llm block)) = set block" by (rule matched_members [OF assms])
  have "mset (members_of (matchBlock llm block)) = mset block"
    if once: "\<forall>reply. ask_twice llm (match_prompt block) = Some reply \<longrightarrow> list_all (\<lambda>c. distinct (fst c)) reply"
  proof (rule multiset_eqI)
    fix m
    have "times_matched llm block m = 1"
      using once times_named_once [of _ "cl_key m"] by (simp add: times_matched_def max_absorb1 split: option.split)
    moreover have "count_list block m = (if m \<in> set block then 1 else 0)"
      using assms by (intro count_list_distinct) (simp add: distinct_map)
    ultimately show "count (mset (members_of (matchBlock llm block))) m = count (mset block) m"
      using counts [of m] members count_list_0_iff [of "members_of (matchBlock llm block)" m]
      unfolding count_mset by (cases "m \<in> set block") (simp_all only: if_True if_False simp_thms)
  qed
  then show ?thesis using members matched_clusters counts by blast
qed

definition milk_of :: "chain \<Rightarrow> classified" where
  "milk_of store = fallback (store, plain_product (la ''1'') (la ''milk 1 l'') 500 [])"

definition milk_block :: "classified list" where
  "milk_block = [milk_of Dina, milk_of Dana]"

definition answering :: "match_reply \<Rightarrow> matcher" where
  "answering reply attempt rows = Some reply"

theorem matching_keeps_every_product_witness:
  "mset (members_of (matchBlock (answering [([la ''DINA:1'', la ''DANA:1''], 9 / 10)]) milk_block)) = mset milk_block \<and>
   length (matchBlock (answering [([la ''DINA:1'', la ''DANA:1''], 9 / 10)]) milk_block) = 1 \<and>
   count_list (members_of (matchBlock (answering [([la ''DINA:1'', la ''DINA:1''], 1 / 2)]) milk_block)) (milk_of Dina) = 2"
proof -
  have keys: "distinct (map cl_key milk_block)" by code_simp
  have "list_all (\<lambda>c. distinct (fst c)) reply"
    if "ask_twice (answering [([la ''DINA:1'', la ''DANA:1''], 9 / 10)]) (match_prompt milk_block) = Some reply" for reply
    using that by (auto simp: ask_twice_def answering_def) code_simp
  then have "mset (members_of (matchBlock (answering [([la ''DINA:1'', la ''DANA:1''], 9 / 10)]) milk_block)) = mset milk_block"
    using matching_keeps_every_product [OF keys] by blast
  moreover have "length (matchBlock (answering [([la ''DINA:1'', la ''DANA:1''], 9 / 10)]) milk_block) = 1" by code_simp
  moreover have "times_matched (answering [([la ''DINA:1'', la ''DINA:1''], 1 / 2)]) milk_block (milk_of Dina) = 2" by code_simp
  moreover have "count_list (members_of (matchBlock llm milk_block)) (milk_of Dina) = times_matched llm milk_block (milk_of Dina)" for llm
    using matching_keeps_every_product [OF keys, of llm] by (simp add: milk_block_def)
  ultimately show ?thesis by (simp only: simp_thms)
qed

text \<open>
  An identifier the model repeats within one cluster is indeed taken twice.
\<close>

lemma repeated_identifier_repeats_the_product:
  "members_of (matchBlock (answering [([la ''DINA:1'', la ''DINA:1''], 1 / 2)]) milk_block) =
   [milk_of Dina, milk_of Dina, milk_of Dana]"
  by code_simp

section \<open>The dictionary\<close>

lemma member_of_canonical:
  assumes "m \<in> set (cr_members c)"
  obtains n where "n \<in> set (bc_members (canonical_of c))" "member_id n = cl_key m"
  using assms by (force simp: canonical_of_def Let_def member_id_def raw_key_def toRaw_def cl_key_def)

lemma all_ids_canonicals: "all_ids (map canonical_of cs) = map cl_key (members_of cs)"
  by (induction cs) (simp_all add: canonical_of_def Let_def member_id_def raw_key_def toRaw_def cl_key_def)

text \<open>C29: What was matched is found again: in the dictionary built from the bundle of the clusters, every
  product resolves to the card of its own cluster, with the name and the attributes of the
  cluster's leading product and the category of that product as refined by the milk rule.\<close>

theorem dictionary_remembers_the_matching:
  assumes "buildBundle clusters sources stamp = Inr b" and "buildDictionary is_datetime sha locale_le b = Inr d"
    and "distinct (map cl_key (members_of clusters))" and "c \<in> set clusters" and "m \<in> set (cr_members c)"
  shows "\<exists>key. resolveCategory d (cl_store m) (cl_product m) =
    (refineCategory (cl_category (lead_of (cr_members c))) (cl_display (lead_of (cr_members c)))
       (map_of (cl_attrs (lead_of (cr_members c))) k_fat), Some (key, card_of (canonical_of c)))"
proof -
  have cs: "bu_canonicals b = map canonical_of clusters" using buildBundle_Inr [OF assms(1)] by blast
  obtain st where st: "add_canonicals sha \<lparr>bd_canonicals = [], bd_products = [], bd_votes = []\<rparr> (map canonical_of clusters) = Inr st"
    and d: "dc_canonicals d = bd_canonicals st" "dc_products d = bd_products st"
    using assms(2) by (auto simp: buildDictionary_def cs result_simps parseDictionary_def split: if_splits)
  obtain n where n: "n \<in> set (bc_members (canonical_of c))" "member_id n = cl_key m"
    using assms(5) by (rule member_of_canonical)
  have "\<exists>key. key \<noteq> [] \<and> map_of (bd_products st) (member_id n) = Some key \<and> map_of (bd_canonicals st) key = Some (card_of (canonical_of c))"
    by (rule add_canonicals_card [OF st _ _ n(1)]) (use assms(3,4) in \<open>simp_all only: all_ids_canonicals set_map image_eqI\<close>)
  then obtain key where key: "key \<noteq> []" "map_of (dc_products d) (cl_key m) = Some key"
    "map_of (dc_canonicals d) key = Some (card_of (canonical_of c))"
    by (auto simp: n(2) d)
  have "known_card d (cl_store m) (cl_product m) = Some (key, card_of (canonical_of c))"
    using key by (simp add: known_card_def cl_key_def)
  then show ?thesis
    by (auto simp: resolveCategory_def card_of_def canonical_of_def Let_def)
qed

definition milk_cluster :: cluster where
  "milk_cluster = \<lparr>cr_members = milk_block, cr_method = AiMatch, cr_confidence = 9 / 10, cr_review = PendingReview\<rparr>"

theorem dictionary_remembers_the_matching_witness:
  "\<exists>b d key. buildBundle [milk_cluster] [] [] = Inr b \<and> buildDictionary (\<lambda>_. True) (\<lambda>s. s) str_le b = Inr d \<and>
     snd (resolveCategory d Dana (cl_product (milk_of Dana))) = Some (key, card_of (canonical_of milk_cluster))"
proof -
  have "(case buildBundle [milk_cluster] [] [] of Inr b \<Rightarrow>
      (case buildDictionary (\<lambda>_. True) (\<lambda>s. s) str_le b of Inr d \<Rightarrow> True | _ \<Rightarrow> False) | _ \<Rightarrow> False)" by code_simp
  then obtain b d where b: "buildBundle [milk_cluster] [] [] = Inr b" and d: "buildDictionary (\<lambda>_. True) (\<lambda>s. s) str_le b = Inr d"
    by (auto split: sum.splits)
  have "distinct (map cl_key (members_of [milk_cluster]))" by code_simp
  from dictionary_remembers_the_matching [OF b d this, of milk_cluster "milk_of Dana"]
  have "\<exists>key. snd (resolveCategory d (cl_store (milk_of Dana)) (cl_product (milk_of Dana))) = Some (key, card_of (canonical_of milk_cluster))"
    by (fastforce simp: milk_cluster_def milk_block_def)
  with b d show ?thesis by (simp add: milk_of_def fallback_def)
qed

text \<open>C35: Applying the corrections to a dictionary never loses a product and never leaves one without its
  card: the corrected dictionary has exactly the same products, each still pointing to an
  existing card, and satisfies the schema.\<close>

theorem corrections_keep_every_product:
  assumes "applyOverrides is_datetime sha d v = Inr e" and "no_dangling d"
  shows "no_dangling e \<and> dict_ids e = dict_ids d \<and> valid_dictionary is_datetime e"
  using applyOverrides_keeps [OF assms] by blast

definition milk_card :: "jstr \<Rightarrow> card" where
  "milk_card category = \<lparr>ca_name = la ''milk'', ca_brand = None, ca_category = category, ca_attributes = [],
     ca_method = AiMatch, ca_confidence = 1, ca_review = PendingReview\<rparr>"

definition one_card :: "jstr \<Rightarrow> dictionary" where
  "one_card category =
    \<lparr>dc_generatedAt = [], dc_canonicals = [(la ''c'', milk_card category)],
     dc_products = [(la ''DINA:1'', la ''c''), (la ''DANA:1'', la ''c'')], dc_storeCategories = []\<rparr>"

definition two_cards :: dictionary where
  "two_cards =
    \<lparr>dc_generatedAt = [],
     dc_canonicals = [(la ''c_DANA:1'', milk_card (la ''dairy'')),
       (la ''c_DINA:1'', (milk_card (la ''dairy''))\<lparr>ca_method := DeterministicMatch, ca_confidence := 1, ca_review := Approved\<rparr>)],
     dc_products = [(la ''DINA:1'', la ''c_DINA:1''), (la ''DANA:1'', la ''c_DANA:1'')], dc_storeCategories = []\<rparr>"

definition move_and_split :: overrides where
  "move_and_split =
    \<lparr>ov_moveCategory = [\<lparr>mv_key = la ''c'', mv_to = la ''dairy''\<rparr>],
     ov_split = [\<lparr>so_key = la ''c'', so_ids = Some [la ''DINA:1'']\<rparr>], ov_approve = []\<rparr>"

lemma one_card_parses: "parseDictionary (\<lambda>_. True) (one_card (la ''milk'')) = Inr (one_card (la ''milk''))"
  by (simp add: parseDictionary_def valid_dictionary_def valid_card_def one_card_def milk_card_def slug_milk_dairy_drinks) (simp add: la_def)

lemma one_card_moves: "fold_m move_card (one_card (la ''milk'')) (ov_moveCategory move_and_split) = Inr (one_card (la ''dairy''))"
  by code_simp

lemma one_card_splits: "fold_m (split_card (\<lambda>s. s)) (one_card (la ''dairy'')) (ov_split move_and_split) = Inr two_cards"
  by code_simp

lemma two_cards_parse: "parseDictionary (\<lambda>_. True) two_cards = Inr two_cards"
  by (simp add: parseDictionary_def valid_dictionary_def valid_card_def two_cards_def milk_card_def slug_milk_dairy_drinks) (simp add: la_def)

theorem corrections_keep_every_product_witness:
  "applyOverrides (\<lambda>_. True) (\<lambda>s. s) (one_card (la ''milk'')) move_and_split = Inr two_cards \<and>
   no_dangling two_cards \<and> dict_ids two_cards = dict_ids (one_card (la ''milk''))"
proof -
  have "applyOverrides (\<lambda>_. True) (\<lambda>s. s) (one_card (la ''milk'')) move_and_split = Inr two_cards"
    by (simp add: applyOverrides_def one_card_parses one_card_moves one_card_splits) (simp add: move_and_split_def two_cards_parse)
  moreover have "no_dangling (one_card (la ''milk''))" by (auto simp: no_dangling_def one_card_def la_def split: if_splits)
  ultimately show ?thesis using corrections_keep_every_product by blast
qed

text \<open>Applying the same corrections again can fail: the split has deleted the key the move names.\<close>

lemma corrections_are_not_idempotent:
  "applyOverrides (\<lambda>_. True) (\<lambda>s. s) two_cards move_and_split = Inl (unknown_key (la ''c''))"
proof -
  have "fold_m move_card two_cards (ov_moveCategory move_and_split) = Inl (unknown_key (la ''c''))" by code_simp
  then show ?thesis by (simp add: applyOverrides_def two_cards_parse)
qed

section \<open>The taxonomy\<close>

text \<open>The taxonomy migration can be generated from any dictionary: none of its checks ever fails for
  the published categories, and every filter schema it writes passes the check of what the API
  serves.\<close>

theorem migration_never_fails:
  "(\<exists>sql. buildTaxonomyMigration json dict = Inr sql) \<and>
   list_all (\<lambda>slug. case filterSchemaFor dict slug of Inl e \<Rightarrow> False | Inr fs \<Rightarrow> assertServableSchema slug fs = None)
     DEFAULT_PUBLISH_CATEGORIES"
proof -
  have rows: "\<forall>slug \<in> set DEFAULT_PUBLISH_CATEGORIES. \<exists>row. migration_row json dict slug = Inr row"
    using default_scope_known by (auto simp: list_all_iff intro: migration_row_ok)
  then have "\<exists>sql. buildTaxonomyMigration json dict = Inr sql"
    using traverse_total [OF rows] by (auto simp: buildTaxonomyMigration_def)
  moreover have "case filterSchemaFor dict slug of Inl e \<Rightarrow> False | Inr fs \<Rightarrow> assertServableSchema slug fs = None"
    if "isCategorySlug slug" for slug
    using known_category [OF that] filterSchemaFor_servable [of dict slug]
    by (auto simp: filterSchemaFor_def split: sum.splits)
  ultimately show ?thesis using default_scope_known by (auto simp: list_all_iff)
qed

end
