(* ===== verification/Cover.thy ===== *)
theory Cover
  imports Dictionary
begin

text \<open>
  Which shop sections a daily run has to visit (\<open>mapping/dina-scope.ts\<close>,
  \<open>mapping/dana-scope.ts\<close>): a greedy cover of the products in the published scope, the file
  that keeps it, and when that file may be used.
\<close>

section \<open>The greedy cover\<close>

text \<open>The products still to be covered, each with its sections.\<close>

type_synonym uncovered = "(jstr \<times> jstr list) list"

definition gain_of :: "uncovered \<Rightarrow> (jstr \<times> nat) list" where
  "gain_of u = tally (concat (js_values u))"

text \<open>The section a comparator puts first; none when no product has a section.\<close>

definition best_section :: "(jstr \<times> nat \<Rightarrow> jstr \<times> nat \<Rightarrow> bool) \<Rightarrow> uncovered \<Rightarrow> jstr option" where
  "best_section le u = (case js_sort le (gain_of u) of [] \<Rightarrow> None | (s, _) # _ \<Rightarrow> Some s)"

definition drop_covered :: "jstr \<Rightarrow> uncovered \<Rightarrow> uncovered" where
  "drop_covered s u = filter (\<lambda>e. s \<notin> set (snd e)) u"

lemma best_section_in: "best_section le u = Some s \<Longrightarrow> \<exists>e \<in> set u. s \<in> set (snd e)"
proof -
  assume "best_section le u = Some s"
  then obtain n rest where "js_sort le (gain_of u) = (s, n) # rest"
    by (auto simp: best_section_def split: list.splits)
  then have "(s, n) \<in> set (js_sort le (gain_of u))" by simp
  then show ?thesis by (auto simp: gain_of_def tally_entry)
qed

lemma drop_covered_shrinks: "best_section le u = Some s \<Longrightarrow> length (drop_covered s u) < length u"
  unfolding drop_covered_def by (drule best_section_in) (auto intro: length_filter_less)

text \<open>The loop; each turn covers at least one product, so it ends.\<close>

function greedy_cover :: "(jstr \<times> nat \<Rightarrow> jstr \<times> nat \<Rightarrow> bool) \<Rightarrow> uncovered \<Rightarrow> jstr list \<times> nat" where
  "greedy_cover le u =
    (case best_section le u of
       None \<Rightarrow> ([], 0)
     | Some s \<Rightarrow>
         let (rest, n) = greedy_cover le (drop_covered s u)
         in (s # rest, length u - length (drop_covered s u) + n))"
  by pat_completeness auto
termination
  by (relation "measure (\<lambda>(le, u). length u)") (auto simp: drop_covered_shrinks)

declare greedy_cover.simps [simp del]

text \<open>By decreasing gain, then increasing size of the section, then a last comparison of the names.\<close>

definition cover_le :: "(jstr \<times> nat) list \<Rightarrow> (jstr \<Rightarrow> jstr \<Rightarrow> bool) \<Rightarrow> jstr \<times> nat \<Rightarrow> jstr \<times> nat \<Rightarrow> bool" where
  "cover_le sizes name_le =
    then_by (\<lambda>x y. snd y \<le> snd x)
      (then_by (\<lambda>x y. nullish (map_of sizes (fst x)) 0 \<le> nullish (map_of sizes (fst y)) 0) (\<lambda>x y. name_le (fst x) (fst y)))"

section \<open>Dina\<close>

record dina_scope =
  ds_generatedAt :: jstr
  ds_scope :: "jstr list"
  ds_categoryIds :: "jstr list"
  ds_covered :: nat
  ds_scopeProducts :: nat

text \<open>\<open>String(v)\<close>.\<close>

fun js_string :: "jval \<Rightarrow> jstr" where
  "js_string JUndef = la ''undefined''"
| "js_string JNull = la ''null''"
| "js_string (JBool b) = (if b then la ''true'' else la ''false'')"
| "js_string (JNum n) = (case n of Fin q \<Rightarrow> show_num q | PosInf \<Rightarrow> la ''Infinity'' | NegInf \<Rightarrow> la ''-Infinity'' | NaN \<Rightarrow> la ''NaN'')"
| "js_string (JStr s) = s"
| "js_string (JArr vs) = join (la '','') (map (\<lambda>v. if v = JNull \<or> v = JUndef then [] else js_string v) vs)"
| "js_string (JObj _) = la ''[object Object]''"

fun id_of :: "jval \<Rightarrow> jval" where
  "id_of (JObj ob) = obj_get ob (la ''id'')"
| "id_of _ = JUndef"

definition category_id :: "jval \<Rightarrow> jstr option" where
  "category_id c =
    (let i = id_of c in if i = JUndef \<or> i = JNull \<or> js_string i = [] then None else Some (js_string i))"

definition dinaCategoryIds :: "source_product \<Rightarrow> jstr list" where
  "dinaCategoryIds p =
    (case obj_get (sp_raw p) (la ''categories'') of
       JArr cs \<Rightarrow> js_set (List.map_filter category_id cs)
     | _ \<Rightarrow> [])"

text \<open>The sign of \<open>Number(a) - Number(b)\<close>; \<open>None\<close> when the difference is 0 or not a number.\<close>

fun num_before :: "jnum \<Rightarrow> jnum \<Rightarrow> bool option" where
  "num_before (Fin x) (Fin y) = (if x = y then None else Some (x < y))"
| "num_before NaN _ = None"
| "num_before _ NaN = None"
| "num_before PosInf PosInf = None"
| "num_before NegInf NegInf = None"
| "num_before NegInf _ = Some True"
| "num_before _ NegInf = Some False"
| "num_before PosInf _ = Some False"
| "num_before _ PosInf = Some True"

definition byNumber :: "(jstr \<Rightarrow> jstr \<Rightarrow> bool) \<Rightarrow> jstr \<Rightarrow> jstr \<Rightarrow> bool" where
  "byNumber locale_le a b = (case num_before (js_number a) (js_number b) of Some l \<Rightarrow> l | None \<Rightarrow> locale_le a b)"

text \<open>The products of the scope with the sections a function gives them.\<close>

definition scope_products :: "dictionary \<Rightarrow> chain \<Rightarrow> jstr list \<Rightarrow> source_product list \<Rightarrow> source_product list" where
  "scope_products dict store scope ps = filter (\<lambda>p. fst (resolveCategory dict store p) \<in> set scope) ps"

definition to_cover :: "(source_product \<Rightarrow> jstr list) \<Rightarrow> source_product list \<Rightarrow> uncovered" where
  "to_cover sections ps = foldl (\<lambda>u p. AList.update (sp_id p) (sections p) u) [] (filter (\<lambda>p. sections p \<noteq> []) ps)"

definition section_sizes :: "(source_product \<Rightarrow> jstr list) \<Rightarrow> source_product list \<Rightarrow> (jstr \<times> nat) list" where
  "section_sizes sections ps = tally (concat (map sections ps))"

definition computeDinaScope ::
  "(jstr \<Rightarrow> jstr \<Rightarrow> bool) \<Rightarrow> source_file \<Rightarrow> dictionary \<Rightarrow> jstr list \<Rightarrow> jstr \<Rightarrow> dina_scope" where
  "computeDinaScope locale_le file dict scope generatedAt =
    (let ps = scope_products dict Dina scope (sf_products file);
         sizes = section_sizes dinaCategoryIds (sf_products file);
         (ids, covered) = greedy_cover (cover_le sizes (byNumber locale_le)) (to_cover dinaCategoryIds ps)
     in \<lparr>ds_generatedAt = generatedAt, ds_scope = js_sort str_le scope, ds_categoryIds = js_sort (byNumber locale_le) ids,
         ds_covered = covered, ds_scopeProducts = length ps\<rparr>)"

definition rx_digits :: rx where
  "rx_digits = rx_all c_digit"

definition valid_dina_scope :: "(jstr \<Rightarrow> bool) \<Rightarrow> dina_scope \<Rightarrow> bool" where
  "valid_dina_scope is_datetime s \<longleftrightarrow> is_datetime (ds_generatedAt s) \<and> list_all isCategorySlug (ds_scope s) \<and>
     list_all (rx_test rx_digits) (ds_categoryIds s)"

text \<open>What a kept set of sections is good for: not empty, and computed for every category published now.\<close>

definition usable_sections :: "jstr list \<Rightarrow> jstr list \<Rightarrow> jstr list \<Rightarrow> jstr list option" where
  "usable_sections stored published sections =
    (if sections = [] \<or> filter (\<lambda>s. s \<notin> set stored) published \<noteq> [] then None else Some sections)"

definition readDinaScope ::
  "(jstr \<Rightarrow> bool) \<Rightarrow> ('c \<Rightarrow> dina_scope option) \<Rightarrow> (jstr \<rightharpoonup> 'c) \<Rightarrow> jstr \<Rightarrow> jstr list \<Rightarrow> jstr list option" where
  "readDinaScope is_datetime decode fs path published =
    (case fs path of
       None \<Rightarrow> None
     | Some text \<Rightarrow> (case decode text of
         None \<Rightarrow> None
       | Some s \<Rightarrow> if valid_dina_scope is_datetime s then usable_sections (ds_scope s) published (ds_categoryIds s) else None))"

definition writeDinaScope ::
  "(jstr \<Rightarrow> jstr \<Rightarrow> bool) \<Rightarrow> (jstr \<Rightarrow> bool) \<Rightarrow> (dina_scope \<Rightarrow> 'c) \<Rightarrow> jstr \<Rightarrow> dina_scope \<Rightarrow> perror + 'c fs_op list" where
  "writeDinaScope locale_le is_datetime render path s =
    (let v = s\<lparr>ds_categoryIds := js_sort (byNumber locale_le) (ds_categoryIds s)\<rparr>
     in if valid_dina_scope is_datetime v then Inr (atomicWrite path (render v)) else Inl ZodError)"

section \<open>Dana\<close>

record dana_scope =
  na_generatedAt :: jstr
  na_scope :: "jstr list"
  na_root :: jstr
  na_sections :: "jstr list"
  na_covered :: nat
  na_scopeProducts :: nat
  na_unsectioned :: nat

text \<open>The first of the shop's roots, whose sections are visited (\<open>scrapers/dana.ts\<close>).\<close>

definition DANA_ROOTS :: "(jstr \<times> jstr) list" where
  "DANA_ROOTS =
    [(la ''/catalog/483/'', cap (ru ''produktY pitaniA'')),
     (la ''/catalog/605/'', cap (ru ''bYtovaA himiA'')),
     (la ''/catalog/589/'', cap (ru ''detskie tovarY'')),
     (la ''/catalog/650/'', cap (ru ''kosmetika i gigiena'')),
     (la ''/catalog/640/'', cap (ru ''tovarY dlA doma'')),
     (la ''/catalog/921/'', cap (ru ''kancelArskie tovarY''))]"

definition DANA_SCOPE_ROOTS :: "(jstr \<times> jstr) list" where
  "DANA_SCOPE_ROOTS = take 1 DANA_ROOTS"

definition DANA_SECTION_RE :: rx where
  "DANA_SECTION_RE = sq [Bol, lit (la ''/catalog/''), many1 (Ch c_digit), lit (la ''/''), Eol]"

definition dana_root :: "jstr \<times> jstr" where
  "dana_root = hd DANA_SCOPE_ROOTS"

fun string_of :: "jval \<Rightarrow> jstr option" where
  "string_of (JStr s) = (if s = [] then None else Some s)"
| "string_of _ = None"

definition danaSections :: "source_product \<Rightarrow> jstr list" where
  "danaSections p =
    (case obj_get (sp_raw p) (la ''sections'') of JArr vs \<Rightarrow> List.map_filter string_of vs | _ \<Rightarrow> [])"

definition in_dana_root :: "source_product \<Rightarrow> bool" where
  "in_dana_root p = (case sp_path p of [] \<Rightarrow> False | name # _ \<Rightarrow> name = snd dana_root)"

definition computeDanaScope ::
  "(jstr \<Rightarrow> jstr \<Rightarrow> bool) \<Rightarrow> source_file \<Rightarrow> dictionary \<Rightarrow> jstr list \<Rightarrow> jstr \<Rightarrow> dana_scope" where
  "computeDanaScope locale_le file dict scope generatedAt =
    (let rooted = filter in_dana_root (sf_products file);
         ps = scope_products dict Dana scope rooted;
         sizes = section_sizes danaSections rooted;
         (sections, covered) = greedy_cover (cover_le sizes locale_le) (to_cover danaSections ps)
     in \<lparr>na_generatedAt = generatedAt, na_scope = js_sort str_le scope, na_root = fst dana_root,
         na_sections = js_sort str_le sections, na_covered = covered, na_scopeProducts = length ps,
         na_unsectioned = length (filter (\<lambda>p. danaSections p = []) ps)\<rparr>)"

definition valid_dana_scope :: "(jstr \<Rightarrow> bool) \<Rightarrow> dana_scope \<Rightarrow> bool" where
  "valid_dana_scope is_datetime s \<longleftrightarrow> is_datetime (na_generatedAt s) \<and> list_all isCategorySlug (na_scope s) \<and>
     list_all (\<lambda>x. rx_test DANA_SECTION_RE x \<and> x \<noteq> na_root s) (na_sections s)"

definition readDanaScope ::
  "(jstr \<Rightarrow> bool) \<Rightarrow> ('c \<Rightarrow> dana_scope option) \<Rightarrow> (jstr \<rightharpoonup> 'c) \<Rightarrow> jstr \<Rightarrow> jstr list \<Rightarrow> jstr list option" where
  "readDanaScope is_datetime decode fs path published =
    (case fs path of
       None \<Rightarrow> None
     | Some text \<Rightarrow> (case decode text of
         None \<Rightarrow> None
       | Some s \<Rightarrow> if valid_dana_scope is_datetime s then usable_sections (na_scope s) published (na_sections s) else None))"

definition writeDanaScope ::
  "(jstr \<Rightarrow> bool) \<Rightarrow> (dana_scope \<Rightarrow> 'c) \<Rightarrow> jstr \<Rightarrow> dana_scope \<Rightarrow> perror + 'c fs_op list" where
  "writeDanaScope is_datetime render path s =
    (let v = s\<lparr>na_sections := js_sort str_le (na_sections s)\<rparr>
     in if valid_dana_scope is_datetime v then Inr (atomicWrite path (render v)) else Inl ZodError)"

section \<open>Lemmas\<close>

lemma tally_Nil_iff: "tally ks = [] \<longleftrightarrow> ks = []"
proof -
  have "js_keys (tally ks) = [] \<longleftrightarrow> ks = []" by (simp only: keys_tally js_set_empty_iff map_is_Nil_conv)
  then show ?thesis by (simp only: map_is_Nil_conv)
qed

lemma best_section_None: "best_section le u = None \<longleftrightarrow> concat (js_values u) = []"
proof -
  have "best_section le u = None \<longleftrightarrow> gain_of u = []"
    by (cases "js_sort le (gain_of u)") (auto simp: best_section_def)
  then show ?thesis by (simp only: gain_of_def tally_Nil_iff)
qed

text \<open>Everything that has a section is covered, whatever the comparator.\<close>

lemma greedy_cover_covers:
  "e \<in> set u \<Longrightarrow> snd e \<noteq> [] \<Longrightarrow> \<exists>s \<in> set (fst (greedy_cover le u)). s \<in> set (snd e)"
proof (induction le u rule: greedy_cover.induct)
  case (1 le u)
  show ?case
  proof (cases "best_section le u")
    case None
    with "1.prems" show ?thesis by (auto simp: best_section_None)
  next
    case (Some s)
    have cover: "fst (greedy_cover le u) = s # fst (greedy_cover le (drop_covered s u))"
      by (subst greedy_cover.simps) (simp add: Some split: prod.splits)
    show ?thesis
    proof (cases "s \<in> set (snd e)")
      case False
      then have "e \<in> set (drop_covered s u)" using "1.prems"(1) by (simp add: drop_covered_def)
      with "1.IH" [OF Some] "1.prems"(2) show ?thesis by (simp add: cover)
    qed (simp add: cover)
  qed
qed

text \<open>Every section chosen is a section of a product, no section is chosen twice, and all are counted.\<close>

lemma greedy_cover_sound: "s \<in> set (fst (greedy_cover le u)) \<Longrightarrow> \<exists>e \<in> set u. s \<in> set (snd e)"
proof (induction le u rule: greedy_cover.induct)
  case (1 le u)
  show ?case
  proof (cases "best_section le u")
    case None
    with "1.prems" show ?thesis by (simp add: greedy_cover.simps [of le u])
  next
    case (Some b)
    have "fst (greedy_cover le u) = b # fst (greedy_cover le (drop_covered b u))"
      by (subst greedy_cover.simps) (simp add: Some split: prod.splits)
    with "1.prems" have "s = b \<or> s \<in> set (fst (greedy_cover le (drop_covered b u)))" by simp
    then show ?thesis
    proof
      assume "s = b"
      then show ?thesis using best_section_in [OF Some] by simp
    next
      assume "s \<in> set (fst (greedy_cover le (drop_covered b u)))"
      from "1.IH" [OF Some this] obtain e where "e \<in> set (drop_covered b u)" "s \<in> set (snd e)" by (elim bexE)
      then show ?thesis by (auto simp: drop_covered_def)
    qed
  qed
qed

lemma greedy_cover_distinct: "distinct (fst (greedy_cover le u))"
proof (induction le u rule: greedy_cover.induct)
  case (1 le u)
  show ?case
  proof (cases "best_section le u")
    case None
    then show ?thesis by (simp add: greedy_cover.simps [of le u])
  next
    case (Some b)
    have "b \<notin> set (fst (greedy_cover le (drop_covered b u)))"
      using greedy_cover_sound [of b le "drop_covered b u"] by (auto simp: drop_covered_def)
    moreover have "fst (greedy_cover le u) = b # fst (greedy_cover le (drop_covered b u))"
      by (subst greedy_cover.simps) (simp add: Some split: prod.splits)
    ultimately show ?thesis using "1.IH" [OF Some] by simp
  qed
qed

lemma greedy_cover_count:
  "list_all (\<lambda>e. snd e \<noteq> []) u \<Longrightarrow> snd (greedy_cover le u) = length u"
proof (induction le u rule: greedy_cover.induct)
  case (1 le u)
  show ?case
  proof (cases "best_section le u")
    case None
    with "1.prems" have "u = []" by (cases u) (auto simp: best_section_None)
    with None show ?thesis by (simp add: greedy_cover.simps [of le "[]"])
  next
    case (Some b)
    have "list_all (\<lambda>e. snd e \<noteq> []) (drop_covered b u)"
      using "1.prems" by (auto simp: list_all_iff drop_covered_def)
    with "1.IH" [OF Some] have "snd (greedy_cover le (drop_covered b u)) = length (drop_covered b u)" by simp
    moreover have "length (drop_covered b u) < length u" by (rule drop_covered_shrinks) (rule Some)
    moreover have "snd (greedy_cover le u) = length u - length (drop_covered b u) + snd (greedy_cover le (drop_covered b u))"
      by (subst greedy_cover.simps) (simp add: Some split: prod.splits)
    ultimately show ?thesis by simp
  qed
qed

text \<open>With distinct identifiers the map to cover has one entry per product that has a section.\<close>

lemma foldl_update_new:
  "distinct (map f ps) \<Longrightarrow> set (map f ps) \<inter> set (js_keys u) = {} \<Longrightarrow>
   foldl (\<lambda>u p. AList.update (f p) (g p) u) u ps = u @ map (\<lambda>p. (f p, g p)) ps"
proof (induction ps arbitrary: u)
  case (Cons p ps)
  have "AList.update (f p) (g p) u = u @ [(f p, g p)]" using Cons.prems(2) by (intro update_new) simp
  with Cons show ?case by simp
qed simp

lemma to_cover_eq:
  assumes "distinct (map sp_id ps)"
  shows "to_cover sections ps = map (\<lambda>p. (sp_id p, sections p)) (filter (\<lambda>p. sections p \<noteq> []) ps)"
proof -
  have "distinct (map sp_id (filter (\<lambda>p. sections p \<noteq> []) ps))" using assms by (rule distinct_map_filter)
  then show ?thesis unfolding to_cover_def by (subst foldl_update_new) auto
qed

lemma cover_products:
  assumes "distinct (map sp_id ps)"
  shows "p \<in> set ps \<Longrightarrow> sections p \<noteq> [] \<Longrightarrow> \<exists>s \<in> set (fst (greedy_cover le (to_cover sections ps))). s \<in> set (sections p)"
    and "snd (greedy_cover le (to_cover sections ps)) = length (filter (\<lambda>p. sections p \<noteq> []) ps)"
proof -
  let ?u = "to_cover sections ps"
  note u = to_cover_eq [OF assms, of sections]
  show "\<exists>s \<in> set (fst (greedy_cover le ?u)). s \<in> set (sections p)" if "p \<in> set ps" "sections p \<noteq> []"
    using greedy_cover_covers [of "(sp_id p, sections p)" ?u le] that by (auto simp: u)
  have "list_all (\<lambda>e. snd e \<noteq> []) ?u" by (auto simp: u list_all_iff)
  from greedy_cover_count [OF this] show "snd (greedy_cover le ?u) = length (filter (\<lambda>p. sections p \<noteq> []) ps)"
    by (simp add: u)
qed

lemma scope_products_distinct: "distinct (map sp_id ps) \<Longrightarrow> distinct (map sp_id (scope_products dict store scope ps))"
  unfolding scope_products_def by (rule distinct_map_filter)

text \<open>The comparator is a total preorder when the last comparison is.\<close>

lemma ranked_cover_le: "ranked name_le \<Longrightarrow> ranked (cover_le sizes name_le)"
  unfolding cover_le_def
  by (intro ranked_then_by ranked_key_desc ranked_key ranked_on [where f = fst])

text \<open>Each choice gains at least as much as any other section would.\<close>

lemma best_section_greedy:
  assumes "ranked name_le" and "best_section (cover_le sizes name_le) u = Some s"
  shows "count_list (concat (js_values u)) x \<le> count_list (concat (js_values u)) s"
proof (cases "x \<in> set (concat (js_values u))")
  case True
  let ?le = "cover_le sizes name_le" and ?g = "gain_of u"
  obtain n rest where sorted: "js_sort ?le ?g = (s, n) # rest"
    using assms(2) by (auto simp: best_section_def split: list.splits)
  then have "(s, n) \<in> set (js_sort ?le ?g)" by simp
  then have n: "n = count_list (concat (js_values u)) s" by (simp add: gain_of_def tally_entry)
  have "(x, count_list (concat (js_values u)) x) \<in> set ?g" using True by (simp add: gain_of_def tally_entry del: set_concat)
  then have "?le (hd (js_sort ?le ?g)) (x, count_list (concat (js_values u)) x)"
    by (rule ranked.hd_js_sort_least [OF ranked_cover_le [OF assms(1)]])
  then have "?le (s, n) (x, count_list (concat (js_values u)) x)" by (simp only: sorted list.sel)
  then show ?thesis by (simp add: n cover_le_def then_by_def split: if_splits)
next
  case False
  then show ?thesis by (simp add: count_list_0_iff)
qed

end
