(* ===== verification/Http.thy ===== *)
theory Http
  imports JsNumber
begin

text \<open>
  The pipeline's way over the network: the polite fetch with retries (\<open>pipeline/src/http.ts\<close>),
  the language-model client with throttling, backoff, several keys and a cache
  (\<open>agent/gemini.ts\<close>), and the counter of failures around it (\<open>agent/llm-stats.ts\<close>). The
  network, the clock's progress and the digest are parameters.
\<close>

section \<open>The polite fetch\<close>

text \<open>What one request gives: a response with its status and content, or an exception with its message.\<close>

datatype 'b fetched = Response nat 'b | Thrown jstr

definition response_ok :: "nat \<Rightarrow> bool" where
  "response_ok status \<longleftrightarrow> 200 \<le> status \<and> status \<le> 299"

definition http_message :: "nat \<Rightarrow> jstr \<Rightarrow> jstr" where
  "http_message status url = la ''HTTP '' @ show_nat (int status) @ [32] @ url"

definition is_http4 :: "jstr \<Rightarrow> bool" where
  "is_http4 msg = starts_with msg (la ''HTTP 4'')"

text \<open>
  One attempt: the content, an error that ends the loop, or one to be remembered. An error
  thrown for a status that is neither 429 nor 5xx passes through the loop's own \<open>catch\<close>, which
  only lets those of 4xx out.
\<close>

datatype 'b attempt = Returned nat 'b | Fatal jstr | is_retry: Retry jstr

definition attempt_result :: "jstr \<Rightarrow> 'b fetched \<Rightarrow> 'b attempt" where
  "attempt_result url r =
    (case r of
       Response status b \<Rightarrow>
         if response_ok status then Returned status b
         else if status \<noteq> 429 \<and> status < 500 \<and> is_http4 (http_message status url) then Fatal (http_message status url)
         else Retry (http_message status url)
     | Thrown msg \<Rightarrow> if is_http4 msg then Fatal msg else Retry msg)"

text \<open>The waits before the attempts made so far, and what came out.\<close>

definition pause_before :: "nat \<Rightarrow> nat \<Rightarrow> nat" where
  "pause_before delayMs attempt = (if attempt = 0 then delayMs else delayMs * 2 ^ attempt)"

fun fetch_loop :: "jstr \<Rightarrow> nat \<Rightarrow> (nat \<Rightarrow> 'b fetched) \<Rightarrow> nat list \<Rightarrow> jstr option \<Rightarrow> (jstr + nat \<times> 'b) \<times> nat list" where
  "fetch_loop url delayMs fetch [] lastError = (Inl (nullish lastError (la ''request failed '' @ url)), [])"
| "fetch_loop url delayMs fetch (a # as) lastError =
    (case attempt_result url (fetch a) of
       Returned status b \<Rightarrow> (Inr (status, b), [pause_before delayMs a])
     | Fatal e \<Rightarrow> (Inl e, [pause_before delayMs a])
     | Retry e \<Rightarrow> (let r = fetch_loop url delayMs fetch as (Some e) in (fst r, pause_before delayMs a # snd r)))"

definition politeFetch :: "jstr \<Rightarrow> nat \<Rightarrow> nat \<Rightarrow> (nat \<Rightarrow> 'b fetched) \<Rightarrow> (jstr + nat \<times> 'b) \<times> nat list" where
  "politeFetch url delayMs retries fetch = fetch_loop url delayMs fetch [0..<Suc retries] None"

section \<open>Counting failures\<close>

record llm_stats =
  st_calls :: nat
  st_failures :: nat

definition count_call :: "llm_stats \<Rightarrow> 'e + 'v \<Rightarrow> llm_stats" where
  "count_call s r =
    (case r of Inl _ \<Rightarrow> \<lparr>st_calls = st_calls s + 1, st_failures = st_failures s + 1\<rparr>
             | Inr _ \<Rightarrow> \<lparr>st_calls = st_calls s + 1, st_failures = st_failures s\<rparr>)"

section \<open>The language-model client\<close>

record gemini_options =
  go_minInterval :: rat
  go_maxRetries :: nat
  go_backoffBase :: rat
  go_cooldown :: rat

definition MAX_WAIT_MS :: rat where
  "MAX_WAIT_MS = 120000"

text \<open>The \<open>Retry-After\<close> header in seconds, or an exponential backoff, at most two minutes.\<close>

definition retry_wait :: "jstr option \<Rightarrow> nat \<Rightarrow> rat \<Rightarrow> rat" where
  "retry_wait header attempt base =
    (let backoff = base * 2 ^ attempt;
         ms = (case header of
                 None \<Rightarrow> backoff
               | Some h \<Rightarrow> (case js_number h of Fin sec \<Rightarrow> if 0 < sec then sec * 1000 else backoff | _ \<Rightarrow> backoff))
     in min ms MAX_WAIT_MS)"

text \<open>
  A request's answer: the status with the \<open>Retry-After\<close> header and the text's value when the
  reply has one that is \<open>JSON\<close>, or an exception; and how long it took.
\<close>

datatype gemini_reply = Status nat "jstr option" "jval option" | NetworkError

record gemini_state =
  gs_now :: rat
  gs_lastStart :: rat
  gs_coolUntil :: "(jstr \<times> rat) list"
  gs_requests :: "jstr list"            \<comment> \<open>the keys of the requests made so far\<close>

definition pause :: "rat \<Rightarrow> gemini_state \<Rightarrow> gemini_state" where
  "pause ms s = s\<lparr>gs_now := gs_now s + ms\<rparr>"

definition throttle :: "gemini_options \<Rightarrow> gemini_state \<Rightarrow> gemini_state" where
  "throttle opts s =
    (let wait = gs_lastStart s + go_minInterval opts - gs_now s;
         s' = (if 0 < wait then pause wait s else s)
     in s'\<lparr>gs_lastStart := gs_now s'\<rparr>)"

text \<open>\<open>post n key\<close> is the answer to the \<open>n\<close>-th request, and its duration.\<close>

type_synonym gemini_post = "nat \<Rightarrow> jstr \<Rightarrow> gemini_reply \<times> rat"

definition gemini_request :: "gemini_options \<Rightarrow> gemini_post \<Rightarrow> jstr \<Rightarrow> gemini_state \<Rightarrow> gemini_reply \<times> gemini_state" where
  "gemini_request opts post key s =
    (let s1 = throttle opts s; (reply, duration) = post (length (gs_requests s1)) key
     in (reply, s1\<lparr>gs_now := gs_now s1 + duration, gs_requests := gs_requests s1 @ [key]\<rparr>))"

text \<open>The attempts with one key, \<open>attempt\<close> counting up to \<open>maxRetries\<close>.\<close>

fun try_gemini_key ::
  "gemini_options \<Rightarrow> gemini_post \<Rightarrow> jstr \<Rightarrow> nat list \<Rightarrow> gemini_state \<Rightarrow> jval option \<times> gemini_state" where
  "try_gemini_key opts post key [] s = (None, s)"
| "try_gemini_key opts post key (attempt # rest) s =
    (case gemini_request opts post key s of
       (NetworkError, s1) \<Rightarrow> (None, s1)
     | (Status status header body, s1) \<Rightarrow>
         if status = 429 \<or> 500 \<le> status then
           if attempt < go_maxRetries opts
           then try_gemini_key opts post key rest (pause (retry_wait header attempt (go_backoffBase opts)) s1)
           else try_gemini_key opts post key rest
                  (s1\<lparr>gs_coolUntil := AList.update key (gs_now s1 + go_cooldown opts) (gs_coolUntil s1)\<rparr>)
         else if \<not> response_ok status then (None, s1)
         else (body, s1))"

fun try_gemini_keys :: "gemini_options \<Rightarrow> gemini_post \<Rightarrow> jstr list \<Rightarrow> gemini_state \<Rightarrow> jval option \<times> gemini_state" where
  "try_gemini_keys opts post [] s = (None, s)"
| "try_gemini_keys opts post (key # keys) s =
    (case try_gemini_key opts post key [0..<Suc (go_maxRetries opts)] s of
       (Some v, s1) \<Rightarrow> (Some v, s1)
     | (None, s1) \<Rightarrow> try_gemini_keys opts post keys s1)"

text \<open>The keys that are not cooling down, or all of them when every one is.\<close>

definition ready_keys :: "jstr list \<Rightarrow> gemini_state \<Rightarrow> jstr list" where
  "ready_keys keys s =
    (let ready = filter (\<lambda>k. nullish (map_of (gs_coolUntil s) k) 0 \<le> gs_now s) keys
     in if ready = [] then keys else ready)"

text \<open>The keys from the environment, in the order of their numbers, without repetition.\<close>

definition rx_key_name :: rx where
  "rx_key_name = sq [Bol, lit (la ''GEMINI_API_KEY''), many (Ch c_digit), Eol]"

definition key_order :: "jstr \<Rightarrow> int" where
  "key_order name =
    (let suffix = drop (length (la ''GEMINI_API_KEY'')) name in if suffix = [] then 1 else digits_val suffix)"

definition gemini_keys :: "(jstr \<times> jstr) list \<Rightarrow> jstr list" where
  "gemini_keys env =
    (let names = js_sort (\<lambda>a b. key_order a \<le> key_order b) (filter (rx_test rx_key_name) (map fst env))
     in js_set (filter (\<lambda>k. k \<noteq> []) (map (\<lambda>n. trim (nullish (map_of env n) [])) names)))"

text \<open>A call with the cache of answers, keyed by the digest of what is asked.\<close>

definition geminiCall ::
  "gemini_options \<Rightarrow> jstr list \<Rightarrow> gemini_post \<Rightarrow> (jstr \<times> jval) list option \<Rightarrow> jstr \<Rightarrow> gemini_state \<Rightarrow>
   (jstr + jval) \<times> (jstr \<times> jval) list option \<times> gemini_state" where
  "geminiCall opts keys post cache hash s =
    (case (case cache of None \<Rightarrow> None | Some c \<Rightarrow> map_of c hash) of
       Some v \<Rightarrow> (Inr v, cache, s)
     | None \<Rightarrow>
         (case try_gemini_keys opts post (ready_keys keys s) s of
            (Some v, s1) \<Rightarrow> (Inr v, map_option (AList.update hash v) cache, s1)
          | (None, s1) \<Rightarrow> (Inl (la ''Gemini request failed on all keys''), cache, s1)))"

section \<open>Lemmas on the polite fetch\<close>

text \<open>What an attempt says when it is the one that counts.\<close>

fun settled :: "'b attempt \<Rightarrow> jstr + nat \<times> 'b" where
  "settled (Returned status b) = Inr (status, b)"
| "settled (Fatal e) = Inl e"
| "settled (Retry e) = Inl e"

text \<open>
  The reference: the first attempt that is not to be repeated decides, else the last one; the
  waits are those before the attempts up to it.
\<close>

definition fetch_reference :: "jstr \<Rightarrow> (nat \<Rightarrow> 'b fetched) \<Rightarrow> nat list \<Rightarrow> jstr + nat \<times> 'b" where
  "fetch_reference url fetch as =
    (let r = (\<lambda>a. attempt_result url (fetch a))
     in case dropWhile (\<lambda>a. is_retry (r a)) as of a # _ \<Rightarrow> settled (r a) | [] \<Rightarrow> settled (r (last as)))"

definition attempts_made :: "jstr \<Rightarrow> (nat \<Rightarrow> 'b fetched) \<Rightarrow> nat list \<Rightarrow> nat list" where
  "attempts_made url fetch as =
    (let again = (\<lambda>a. is_retry (attempt_result url (fetch a))) in takeWhile again as @ take 1 (dropWhile again as))"

lemma fetch_loop_reference:
  "fst (fetch_loop url d fetch as l) = (if as = [] then Inl (nullish l (la ''request failed '' @ url)) else fetch_reference url fetch as)"
proof (induction as arbitrary: l)
  case (Cons a as)
  show ?case
  proof (cases "attempt_result url (fetch a)")
    case (Retry e)
    then have "fst (fetch_loop url d fetch (a # as) l) = fst (fetch_loop url d fetch as (Some e))" by (simp add: Let_def)
    also have "\<dots> = fetch_reference url fetch (a # as)"
      unfolding Cons.IH using Retry by (cases "as = []"; cases "dropWhile (\<lambda>a. is_retry (attempt_result url (fetch a))) as")
        (simp_all add: fetch_reference_def Let_def del: dropWhile_eq_Nil_conv)
    finally show ?thesis by simp
  qed (simp_all add: fetch_reference_def Let_def)
qed simp

lemma fetch_loop_waits: "snd (fetch_loop url d fetch as l) = map (pause_before d) (attempts_made url fetch as)"
  by (induction as arbitrary: l) (simp_all add: attempts_made_def Let_def split: attempt.split)

lemma attempt_result_Returned:
  "attempt_result url r = Returned s b \<longleftrightarrow> r = Response s b \<and> response_ok s"
  by (auto simp: attempt_result_def split: fetched.splits if_splits)

section \<open>Lemmas on the language-model client\<close>

lemma retry_wait_bound: "retry_wait header attempt base \<le> 120000"
  by (simp add: retry_wait_def Let_def MAX_WAIT_MS_def)

lemma throttle_requests [simp]: "gs_requests (throttle opts s) = gs_requests s"
  by (simp add: throttle_def Let_def pause_def)

lemma gemini_request_log: "gs_requests (snd (gemini_request opts post key s)) = gs_requests s @ [key]"
  by (simp add: gemini_request_def Let_def split: prod.split)

text \<open>The requests a call makes: each key a bounded number of times, the keys in order.\<close>

lemma try_gemini_key_log:
  "\<exists>n \<le> length as. gs_requests (snd (try_gemini_key opts post key as s)) = gs_requests s @ replicate n key"
proof (induction as arbitrary: s)
  case (Cons a as)
  obtain r s1 where r: "gemini_request opts post key s = (r, s1)" by fastforce
  then have log: "gs_requests s1 = gs_requests s @ [key]" using gemini_request_log [of opts post key s] by simp
  have one: "\<exists>n \<le> length (a # as). gs_requests s1 = gs_requests s @ replicate n key"
    by (rule exI [of _ 1]) (simp add: log)
  have more: "\<exists>n \<le> length (a # as). gs_requests (snd (try_gemini_key opts post key as s2)) = gs_requests s @ replicate n key"
    if "gs_requests s2 = gs_requests s1" for s2
  proof -
    obtain n where "n \<le> length as" "gs_requests (snd (try_gemini_key opts post key as s2)) = gs_requests s2 @ replicate n key"
      using Cons.IH by blast
    then show ?thesis by (intro exI [of _ "Suc n"]) (simp add: that log)
  qed
  show ?case
  proof (cases r)
    case NetworkError
    with r one show ?thesis by simp
  next
    case (Status status header body)
    with r one more [of "pause (retry_wait header a (go_backoffBase opts)) s1"]
      more [of "s1\<lparr>gs_coolUntil := AList.update key (gs_now s1 + go_cooldown opts) (gs_coolUntil s1)\<rparr>"]
    show ?thesis by (simp add: pause_def)
  qed
qed simp

lemma try_gemini_keys_log:
  "\<exists>ns. length ns \<le> length keys \<and> list_all (\<lambda>n. n \<le> Suc (go_maxRetries opts)) ns \<and>
     gs_requests (snd (try_gemini_keys opts post keys s)) = gs_requests s @ concat (map2 replicate ns keys)"
proof (induction keys arbitrary: s)
  case (Cons k keys)
  obtain r s1 where r: "try_gemini_key opts post k [0..<Suc (go_maxRetries opts)] s = (r, s1)" by fastforce
  obtain n where n: "n \<le> Suc (go_maxRetries opts)" "gs_requests s1 = gs_requests s @ replicate n k"
    using try_gemini_key_log [of "[0..<Suc (go_maxRetries opts)]" opts post k s] by (auto simp: r simp del: upt_Suc)
  show ?case
  proof (cases r)
    case None
    obtain ns where "length ns \<le> length keys" "list_all (\<lambda>n. n \<le> Suc (go_maxRetries opts)) ns"
      "gs_requests (snd (try_gemini_keys opts post keys s1)) = gs_requests s1 @ concat (map2 replicate ns keys)"
      using Cons.IH by blast
    with None r n show ?thesis by (intro exI [of _ "n # ns"]) (simp del: upt_Suc)
  next
    case (Some v)
    with r n show ?thesis by (intro exI [of _ "[n]"]) (simp del: upt_Suc)
  qed
qed simp

lemma gemini_keys_distinct: "distinct (gemini_keys env) \<and> [] \<notin> set (gemini_keys env)"
  by (simp add: gemini_keys_def Let_def)

end
