(* ===== verification/DinaCrawl.thy ===== *)
theory DinaCrawl
  imports Units Http
begin

text \<open>
  The pipeline's scraper of Dina (\<open>scrapers/dina.ts\<close>, \<open>scrapers/dina-batch.ts\<close>): what it makes
  of an item, the walk over the categories of the catalogue and the batches of pages. The
  shop's GraphQL endpoint is a parameter: an answer, or nothing when the request throws.
\<close>

section \<open>Items\<close>

text \<open>An item of the API with the fields the code reads; \<open>dn_raw\<close> is the whole object.\<close>

record dina_node =
  dn_id :: "jstr option"
  dn_xid :: "jstr option"
  dn_name :: "jstr option"
  dn_slug :: "jstr option"
  dn_price :: jval
  dn_oldPrice :: jval
  dn_price_type :: "jstr option"
  dn_isWeightProduct :: bool
  dn_previewUrl :: "jstr option"
  dn_imageUrls :: "jstr option list"
  dn_categories :: "(jstr \<times> jstr) list"
  dn_raw :: "(jstr \<times> jval) list"

definition DINA_PER_KG_MIN_PRICE :: rat where
  "DINA_PER_KG_MIN_PRICE = 100"

text \<open>A price of at least 100 is already per kilogram.\<close>

definition per_kg :: "rat \<Rightarrow> bool" where
  "per_kg raw \<longleftrightarrow> DINA_PER_KG_MIN_PRICE \<le> raw"

definition rxd_kg :: rx where
  "rxd_kg = sq [Grp 1 (sq [many1 (Ch c_digit), opt (sq [Ch (Cls False [(46, 46), (44, 44)]), many1 (Ch c_digit)])]), many (Ch c_space), alts [lit (ru ''kg''), lit (la ''kg'')]]"

definition rxd_g :: rx where
  "rxd_g = sq [Grp 1 (sq [many1 (Ch c_digit), opt (sq [Ch (Cls False [(46, 46), (44, 44)]), many1 (Ch c_digit)])]), many (Ch c_space), alts [lit (ru ''g''), lit (ru ''gr''), lit (la ''g'')], WordB]"

text \<open>\<open>parseFloat\<close> stops at a comma; the kilograms have it replaced first.\<close>

definition dot_val :: "jstr \<Rightarrow> rat" where
  "dot_val w = dec_val (map (\<lambda>c. if c = 44 then 46 else c) w)"

definition upto_comma :: "jstr \<Rightarrow> rat" where
  "upto_comma w = dec_val (takeWhile (\<lambda>c. c \<noteq> 44) w)"

definition weight_factor :: "jstr \<Rightarrow> rat" where
  "weight_factor name =
    (case rx_group 1 rxd_kg (to_lower name) of
       Some w \<Rightarrow> dot_val w * 1000
     | None \<Rightarrow> (case rx_group 1 rxd_g (to_lower name) of
         Some w \<Rightarrow> if upto_comma w > 50 then upto_comma w else 1000
       | None \<Rightarrow> 1000))"

definition scaled_price :: "bool \<Rightarrow> rat \<Rightarrow> rat \<Rightarrow> int" where
  "scaled_price weight k v = js_round (if weight then (if per_kg v then v / 1000 else v) * k else v * k)"

definition old_price_of :: "bool \<Rightarrow> rat \<Rightarrow> jval \<Rightarrow> int option" where
  "old_price_of weight k v =
    (if \<not> truthy v then None
     else case to_number v of Fin q \<Rightarrow> Some (scaled_price weight k q) | _ \<Rightarrow> None)"

definition sold_by_weight :: "dina_node \<Rightarrow> bool" where
  "sold_by_weight item \<longleftrightarrow> dn_price_type item = Some (la ''weight'') \<or> dn_isWeightProduct item"

definition node_image :: "dina_node \<Rightarrow> jstr option" where
  "node_image item =
    (if truthy_str (dn_previewUrl item) then dn_previewUrl item
     else case List.find truthy_str (dn_imageUrls item) of Some u \<Rightarrow> u | None \<Rightarrow> None)"

definition mapDinaItem :: "dina_node \<Rightarrow> source_product option" where
  "mapDinaItem item =
    (let name = trim (nullish (dn_name item) [])
     in case to_number (dn_price item) of
          Fin raw \<Rightarrow>
            if name = [] \<or> raw \<le> 0 then None
            else
              let weight = sold_by_weight item;
                  k = (if weight then weight_factor name else 1);
                  price = scaled_price weight k raw;
                  old = old_price_of weight k (dn_oldPrice item)
              in if price \<le> 0 then None
                 else Some
                   \<lparr>sp_id = nullish (dn_id item) (nullish (dn_xid item) (la ''undefined'')),
                    sp_name = name, sp_price = price,
                    sp_oldPrice = (case old of Some q \<Rightarrow> if price < q then Some q else None | None \<Rightarrow> None),
                    sp_imageUrl = node_image item,
                    sp_sourceUrl = (if truthy_str (dn_slug item)
                      then Some (la ''https://dinamarket.kz/product/'' @ the (dn_slug item)) else None),
                    sp_brand = None, sp_path = map snd (dn_categories item),
                    sp_raw = AList.update (la ''priceUnit'') (if weight then JStr (if per_kg raw then la ''kg'' else la ''g'') else JNull)
                      (AList.update (la ''pricePerUnitMultiplier'') (JNum (Fin k)) (dn_raw item))\<rparr>
        | _ \<Rightarrow> None)"

text \<open>The products collected: the first of an identifier stays.\<close>

type_synonym collected_products = "(jstr \<times> source_product) list"

definition collect_product :: "collected_products \<Rightarrow> source_product option \<Rightarrow> collected_products" where
  "collect_product m p =
    (case p of
       None \<Rightarrow> m
     | Some q \<Rightarrow> if map_of m (sp_id q) \<noteq> None then m else m @ [(sp_id q, q)])"

definition add_edges :: "collected_products \<Rightarrow> dina_node list \<Rightarrow> collected_products" where
  "add_edges m items = foldl (\<lambda>m e. collect_product m (mapDinaItem e)) m items"

section \<open>The shop\<close>

definition SHOP_ID :: jstr where "SHOP_ID = la ''28''"
definition PAGE_SIZE :: nat where "PAGE_SIZE = 24"
definition DINA_BATCH_PAGES :: nat where "DINA_BATCH_PAGES = 20"

definition assertAktauShop :: "(jstr \<times> jstr option) list \<Rightarrow> jstr \<Rightarrow> perror option" where
  "assertAktauShop shops shopId =
    (case List.find (\<lambda>s. fst s = shopId) shops of
       None \<Rightarrow> Some (Error (la ''DINA: shop '' @ shopId @ la '' not found''))
     | Some shop \<Rightarrow>
         let city = map_option trim (snd shop)
         in if city = Some (cap (ru ''aktau'')) then None
            else Some (Error (la ''DINA: shop '' @ shopId @ la '' is not in Aktau ('' @ nullish city (la ''unknown city'') @ la '')'')))"

definition DINA_SCOPE_ROOTS :: "jstr list" where
  "DINA_SCOPE_ROOTS =
    [cap (ru ''maslo, sousY i pripravY''), cap (ru ''makaronY, krupY, muka''), cap (ru ''moloko, Ayca, maslo''),
     cap (ru ''kolbasa i sYr''), cap (ru ''konservaciA''), cap (ru ''zamorozka''),
     cap (ru ''Cay''), cap (ru ''mAso i rYba''), cap (ru ''suhie zavtraki, mUsli''), cap (ru ''zdorovoe pitanie''),
     cap (ru ''hleb i vYpeCka''), cap (ru ''gotovaA eda''),
     cap (ru ''produktY bYstrogo prigotovleniA''), cap (ru ''ovoWi, fruktY''), cap (ru ''tortY i pirogi'')]"

section \<open>The walk over categories\<close>

text \<open>A page of a category: its items and the total the API reports.\<close>

type_synonym dina_page = "dina_node list \<times> nat option"
type_synonym dina_api = "jstr \<Rightarrow> nat \<Rightarrow> dina_page option"

record walk =
  wk_products :: collected_products
  wk_errors :: nat
  wk_pages :: nat
  wk_queue :: "(jstr \<times> jstr) list"
  wk_queued :: "jstr list"

definition inScope :: "jstr list option \<Rightarrow> jstr option \<Rightarrow> bool" where
  "inScope scopeRoots rootName =
    (case scopeRoots of None \<Rightarrow> True | Some rs \<Rightarrow> (case rootName of None \<Rightarrow> False | Some r \<Rightarrow> r \<in> set rs))"

definition enqueue :: "jstr list option \<Rightarrow> dina_node \<Rightarrow> walk \<Rightarrow> jstr \<times> jstr \<Rightarrow> walk" where
  "enqueue scopeRoots e w c =
    (if fst c \<notin> set (wk_queued w) \<and> inScope scopeRoots (map_option snd (List.find (\<lambda>_. True) (dn_categories e)))
     then w\<lparr>wk_queued := wk_queued w @ [fst c], wk_queue := wk_queue w @ [c]\<rparr> else w)"

definition walk_edge :: "jstr list option \<Rightarrow> walk \<Rightarrow> dina_node \<Rightarrow> walk" where
  "walk_edge scopeRoots w e =
    foldl (enqueue scopeRoots e) (w\<lparr>wk_products := collect_product (wk_products w) (mapDinaItem e)\<rparr>) (dn_categories e)"

text \<open>The pages of one category, until a short page, the reported total, the limit or an error.\<close>

fun walk_pages :: "dina_api \<Rightarrow> jstr list option \<Rightarrow> jstr \<Rightarrow> nat list \<Rightarrow> walk \<Rightarrow> perror + walk" where
  "walk_pages api scopeRoots cat [] w = Inr w"
| "walk_pages api scopeRoots cat (page # rest) w =
    (case api cat page of
       None \<Rightarrow>
         let w1 = w\<lparr>wk_errors := wk_errors w + 1\<rparr>
         in if wk_errors w1 > 10 then Inl (Error (la ''DINA: too many page errors, aborting'')) else Inr w1
     | Some (edges, tot) \<Rightarrow>
         let w1 = foldl (walk_edge scopeRoots) (w\<lparr>wk_pages := wk_pages w + 1\<rparr>) edges
         in if length edges < PAGE_SIZE \<or> (case tot of None \<Rightarrow> False | Some t \<Rightarrow> t \<le> page * PAGE_SIZE)
            then Inr w1 else walk_pages api scopeRoots cat rest w1)"

text \<open>
  The queue grows while it is walked; \<open>fuel\<close> bounds the categories visited, and running out of
  it is reported as \<open>None\<close>.
\<close>

fun walk_queue :: "nat \<Rightarrow> dina_api \<Rightarrow> jstr list option \<Rightarrow> nat \<Rightarrow> nat \<Rightarrow> walk \<Rightarrow> (perror + walk) option" where
  "walk_queue fuel api scopeRoots maxPages qi w =
    (if qi \<ge> length (wk_queue w) then Some (Inr w)
     else case fuel of
            0 \<Rightarrow> None
          | Suc fuel' \<Rightarrow>
              (case walk_pages api scopeRoots (fst (wk_queue w ! qi)) [1..<Suc maxPages] w of
                 Inl e \<Rightarrow> Some (Inl e)
               | Inr w1 \<Rightarrow> walk_queue fuel' api scopeRoots maxPages (qi + 1) w1))"

declare walk_queue.simps [simp del]

definition scrapeDinaRoots ::
  "nat \<Rightarrow> (jstr \<times> jstr) list \<Rightarrow> dina_api \<Rightarrow> jstr list option \<Rightarrow> nat \<Rightarrow> (perror + walk) option" where
  "scrapeDinaRoots fuel categories api scopeRoots maxPages =
    (if categories = [] then Some (Inl (Error (la ''DINA: category list is empty'')))
     else
       let queue = filter (\<lambda>c. inScope scopeRoots (Some (snd c))) categories
       in if queue = [] then Some (Inl (Error (la ''DINA: no categories left after scope filter'')))
          else walk_queue fuel api scopeRoots maxPages 0
            \<lparr>wk_products = [], wk_errors = 0, wk_pages = 0, wk_queue = queue, wk_queued = js_set (map fst queue)\<rparr>)"

section \<open>Batches\<close>

type_synonym page_request = "jstr \<times> nat"

datatype page_result = PageOk rat "dina_node list" | PageBad jstr

definition only_digits :: "jstr \<Rightarrow> bool" where
  "only_digits s = rx_test (rx_all c_digit) s"

definition DINA_PRODUCT_FIELDS :: jstr where
  "DINA_PRODUCT_FIELDS =
    la ''id xid name slug price oldPrice price_type isWeightProduct'' @ [10] @
    la ''      preview { url } images { url } stock { amount } categories { id name }''"

definition alias_of :: "nat \<Rightarrow> jstr" where
  "alias_of i = la ''p'' @ show_nat (int i)"

text \<open>One alias of the document; \<open>quote\<close> is \<open>JSON.stringify\<close> of a string.\<close>

definition batch_part :: "(jstr \<Rightarrow> jstr) \<Rightarrow> jstr \<Rightarrow> nat \<Rightarrow> nat \<times> page_request \<Rightarrow> perror + jstr" where
  "batch_part quote shopId pageSize p =
    (let i = fst p; r = snd p
     in if \<not> only_digits (fst r) then Inl (Error (la ''DINA: invalid category id '' @ quote (fst r)))
        else Inr (alias_of i @ la '': products(shop_id: '' @ shopId @ la '', _page: '' @ show_nat (int (snd r)) @
          la '', _limit: '' @ show_nat (int pageSize) @ la '', category_id: '' @ fst r @
          la '') { pageInfo { total } edges { '' @ DINA_PRODUCT_FIELDS @ la '' } }''))"

definition buildBatchQuery :: "(jstr \<Rightarrow> jstr) \<Rightarrow> page_request list \<Rightarrow> jstr \<Rightarrow> nat \<Rightarrow> perror + jstr" where
  "buildBatchQuery quote reqs shopId pageSize =
    and_then (traverse (batch_part quote shopId pageSize) (zip [0..<length reqs] reqs)) (\<lambda>parts.
      Inr (la ''{ '' @ join [32] parts @ la '' }''))"

text \<open>Reading the answer of a batch; \<open>decode\<close> takes an item of the API apart.\<close>

fun as_obj :: "jval \<Rightarrow> (jstr \<times> jval) list" where
  "as_obj (JObj ob) = ob"
| "as_obj _ = []"

fun as_list :: "jval \<Rightarrow> jval list" where
  "as_list (JArr vs) = vs"
| "as_list _ = []"

fun truthy_text :: "jval \<Rightarrow> jstr option" where
  "truthy_text (JStr s) = (if s = [] then None else Some s)"
| "truthy_text _ = None"

definition error_message :: "jval \<Rightarrow> jval" where
  "error_message e = obj_get (as_obj e) (la ''message'')"

definition error_alias :: "jval \<Rightarrow> jval" where
  "error_alias e = (case as_list (obj_get (as_obj e) (la ''path'')) of [] \<Rightarrow> JUndef | a # _ \<Rightarrow> a)"

definition text_or :: "jval \<Rightarrow> jstr \<Rightarrow> jstr" where
  "text_or v d = (case v of JStr s \<Rightarrow> s | _ \<Rightarrow> d)"

definition node_total :: "jval \<Rightarrow> rat" where
  "node_total node = (case obj_get (as_obj (obj_get (as_obj node) (la ''pageInfo''))) (la ''total'') of JNum (Fin q) \<Rightarrow> q | _ \<Rightarrow> -1)"

definition batch_result :: "(jval \<Rightarrow> dina_node) \<Rightarrow> jval list \<Rightarrow> jstr option \<Rightarrow> (jstr \<times> jval) list \<Rightarrow> nat \<Rightarrow> page_result" where
  "batch_result decode errors firstMessage data i =
    (let al = alias_of i
     in case List.find (\<lambda>e. error_alias e = JStr al) errors of
          Some err \<Rightarrow> PageBad (text_or (error_message err) (la ''DINA: '' @ al @ la '' failed''))
        | None \<Rightarrow>
            let node = obj_get data al
            in if \<not> truthy node then PageBad (nullish firstMessage (la ''DINA: '' @ al @ la '' missing in response''))
               else PageOk (node_total node) (map decode (as_list (obj_get (as_obj node) (la ''edges'')))))"

definition parseBatchResponse :: "(jval \<Rightarrow> dina_node) \<Rightarrow> jval \<Rightarrow> nat \<Rightarrow> page_result list" where
  "parseBatchResponse decode body cnt =
    (let b = as_obj body;
         errors = as_list (obj_get b (la ''errors''));
         firstMessage = (case List.find (\<lambda>e. truthy_text (error_message e) \<noteq> None) errors of
                           None \<Rightarrow> None | Some e \<Rightarrow> truthy_text (error_message e))
     in case obj_get b (la ''data'') of
          JObj data \<Rightarrow> map (batch_result decode errors firstMessage data) [0..<cnt]
        | JArr _ \<Rightarrow> map (batch_result decode errors firstMessage []) [0..<cnt]
        | _ \<Rightarrow> replicate cnt (PageBad (nullish firstMessage (la ''DINA: empty graphql response''))))"

text \<open>The state of the batch walk, with the pages still to be asked for.\<close>

record batch =
  ba_products :: collected_products
  ba_errors :: nat
  ba_pages :: nat
  ba_requests :: nat
  ba_rest :: "page_request list"

definition pageError :: "batch \<Rightarrow> perror + batch" where
  "pageError b =
    (let b1 = b\<lparr>ba_errors := ba_errors b + 1\<rparr>
     in if ba_errors b1 > 10 then Inl (Error (la ''DINA: too many page errors, aborting'')) else Inr b1)"

text \<open>What each pass does with a page it got: the first also learns how many there are.\<close>

definition first_pass :: "batch \<Rightarrow> page_request \<Rightarrow> rat \<Rightarrow> dina_node list \<Rightarrow> perror + batch" where
  "first_pass b req tot edges =
    (if tot < 0 then pageError b
     else
       let b1 = b\<lparr>ba_pages := ba_pages b + 1, ba_products := add_edges (ba_products b) edges\<rparr>
       in if tot = 0 \<or> length edges < PAGE_SIZE then Inr b1
          else Inr (b1\<lparr>ba_rest := ba_rest b1 @ map (Pair (fst req)) [2..<Suc (nat \<lceil>tot / of_nat PAGE_SIZE\<rceil>)]\<rparr>))"

definition second_pass :: "batch \<Rightarrow> page_request \<Rightarrow> rat \<Rightarrow> dina_node list \<Rightarrow> perror + batch" where
  "second_pass b req tot edges = Inr (b\<lparr>ba_pages := ba_pages b + 1, ba_products := add_edges (ba_products b) edges\<rparr>)"

type_synonym on_page = "batch \<Rightarrow> page_request \<Rightarrow> rat \<Rightarrow> dina_node list \<Rightarrow> perror + batch"

fun take_results :: "on_page \<Rightarrow> (page_request \<times> page_result) list \<Rightarrow> batch \<Rightarrow> perror + batch" where
  "take_results onPage [] b = Inr b"
| "take_results onPage ((req, res) # rest) b =
    and_then (case res of PageOk tot edges \<Rightarrow> onPage b req tot edges | PageBad e \<Rightarrow> pageError b) (take_results onPage rest)"

text \<open>\<open>post query\<close> is the answer to a batch, or nothing when the request throws.\<close>

type_synonym batch_post = "jstr \<Rightarrow> jval option"

fun run_chunks ::
  "(jval \<Rightarrow> dina_node) \<Rightarrow> batch_post \<Rightarrow> on_page \<Rightarrow> (page_request list \<times> jstr) list \<Rightarrow> batch \<Rightarrow> perror + batch" where
  "run_chunks decode post onPage [] b = Inr b"
| "run_chunks decode post onPage ((reqs, query) # rest) b =
    (let b1 = b\<lparr>ba_requests := ba_requests b + 1\<rparr>
     in and_then
          (case post query of
             None \<Rightarrow> pageError b1
           | Some body \<Rightarrow> take_results onPage (zip reqs (parseBatchResponse decode body (length reqs))) b1)
          (run_chunks decode post onPage rest))"

text \<open>All queries are built before the first request: a bad identifier stops the run at once.\<close>

definition run_pass ::
  "(jstr \<Rightarrow> jstr) \<Rightarrow> (jval \<Rightarrow> dina_node) \<Rightarrow> batch_post \<Rightarrow> nat \<Rightarrow> on_page \<Rightarrow> page_request list \<Rightarrow> batch \<Rightarrow> perror + batch" where
  "run_pass quote decode post batchPages onPage reqs b =
    and_then (traverse (\<lambda>c. and_then (buildBatchQuery quote c SHOP_ID PAGE_SIZE) (\<lambda>q. Inr (c, q))) (chunks batchPages reqs))
      (\<lambda>cs. run_chunks decode post onPage cs b)"

definition scrapeDinaBatch ::
  "(jstr \<Rightarrow> jstr) \<Rightarrow> (jval \<Rightarrow> dina_node) \<Rightarrow> batch_post \<Rightarrow> jstr list \<Rightarrow> nat \<Rightarrow> perror + batch" where
  "scrapeDinaBatch quote decode post categoryIds batchPages =
    (if batchPages < 1 then Inl (Error (la ''DINA: batchPages must be a positive integer ('' @ show_nat (int batchPages) @ la '')''))
     else
       and_then (run_pass quote decode post batchPages first_pass (map (\<lambda>c. (c, 1)) (js_set categoryIds))
                   \<lparr>ba_products = [], ba_errors = 0, ba_pages = 0, ba_requests = 0, ba_rest = []\<rparr>)
         (\<lambda>b. run_pass quote decode post batchPages second_pass (ba_rest b) b))"

section \<open>The scrape\<close>

definition jnat :: "nat \<Rightarrow> jval" where "jnat n = JNum (Fin (of_nat n))"

definition dina_file :: "jstr \<Rightarrow> nat \<Rightarrow> (jstr \<times> jval) list \<Rightarrow> collected_products \<Rightarrow> source_file" where
  "dina_file stamp errors stats m =
    \<lparr>sf_store = Dina, sf_city = la ''Aktau'', sf_capturedAt = stamp, sf_errorCount = errors,
     sf_stats = [(la ''shopId'', JStr SHOP_ID), (la ''shopCity'', JStr (cap (ru ''aktau'')))] @ stats,
     sf_products = map snd m\<rparr>"

definition batch_file :: "jstr \<Rightarrow> jstr list \<Rightarrow> batch \<Rightarrow> source_file" where
  "batch_file stamp ids b =
    dina_file stamp (ba_errors b)
      [(la ''mode'', JStr (la ''batch'')), (la ''categories'', jnat (length (js_set ids))), (la ''pages'', jnat (ba_pages b)),
       (la ''requests'', jnat (ba_requests b)), (la ''scoped'', JBool True)] (ba_products b)"

definition roots_file :: "jstr \<Rightarrow> jval \<Rightarrow> bool \<Rightarrow> walk \<Rightarrow> source_file" where
  "roots_file stamp reported scoped w =
    dina_file stamp (wk_errors w)
      [(la ''total'', reported), (la ''pages'', jnat (wk_pages w)), (la ''categories'', jnat (length (wk_queue w))),
       (la ''scoped'', JBool scoped)] (wk_products w)"

text \<open>
  The answers the run asks for before the walk: the shops, the categories and the total the
  API reports (\<open>-1\<close> when it reports none); \<open>Inl\<close> where a request throws.
\<close>

record dina_shop =
  ds_shops :: "perror + (jstr \<times> jstr option) list"
  ds_categories :: "perror + (jstr \<times> jstr) list"
  ds_total :: "perror + jval"
  ds_page :: dina_api
  ds_post :: batch_post
  ds_decode :: "jval \<Rightarrow> dina_node"
  ds_quote :: "jstr \<Rightarrow> jstr"

record dina_opts =
  do_maxPages :: nat
  do_scopeRoots :: "jstr list option"
  do_categoryIds :: "jstr list option"
  do_batchPages :: nat

definition scrapeDina :: "nat \<Rightarrow> dina_shop \<Rightarrow> jstr \<Rightarrow> dina_opts \<Rightarrow> (perror + source_file) option" where
  "scrapeDina fuel shop stamp opts =
    (case and_then (ds_shops shop) (\<lambda>shops. case assertAktauShop shops SHOP_ID of Some e \<Rightarrow> Inl e | None \<Rightarrow> Inr ()) of
       Inl e \<Rightarrow> Some (Inl e)
     | Inr _ \<Rightarrow>
         (case do_categoryIds opts of
            Some (i # is') \<Rightarrow>
              Some (and_then (scrapeDinaBatch (ds_quote shop) (ds_decode shop) (ds_post shop) (i # is') (do_batchPages opts))
                (\<lambda>b. Inr (batch_file stamp (i # is') b)))
          | _ \<Rightarrow>
              (case ds_categories shop of
                 Inl e \<Rightarrow> Some (Inl e)
               | Inr categories \<Rightarrow>
                   if categories = [] then Some (Inl (Error (la ''DINA: category list is empty'')))
                   else case ds_total shop of
                          Inl e \<Rightarrow> Some (Inl e)
                        | Inr reported \<Rightarrow>
                            map_option (\<lambda>r. and_then r (\<lambda>w. Inr (roots_file stamp reported (do_scopeRoots opts \<noteq> None) w)))
                              (scrapeDinaRoots fuel categories (ds_page shop) (do_scopeRoots opts) (do_maxPages opts)))))"

section \<open>Lemmas\<close>

text \<open>A product as every scraper must deliver it.\<close>

definition good_product :: "source_product \<Rightarrow> bool" where
  "good_product p \<longleftrightarrow> 0 < sp_price p \<and> sp_name p \<noteq> [] \<and> trim (sp_name p) = sp_name p \<and>
     (case sp_oldPrice p of None \<Rightarrow> True | Some q \<Rightarrow> sp_price p < q)"

definition collection_ok :: "collected_products \<Rightarrow> bool" where
  "collection_ok m \<longleftrightarrow> distinct (js_keys m) \<and> (\<forall>(i, p) \<in> set m. sp_id p = i \<and> good_product p)"

lemma mapDinaItem_good: "mapDinaItem item = Some p \<Longrightarrow> good_product p"
proof -
  assume a: "mapDinaItem item = Some p"
  obtain raw where "to_number (dn_price item) = Fin raw"
    using a by (cases "to_number (dn_price item)") (simp_all add: mapDinaItem_def Let_def)
  with a show ?thesis
    by (auto simp: mapDinaItem_def Let_def good_product_def split: if_splits option.splits)
qed

lemma collection_ok_Nil [simp]: "collection_ok []"
  by (simp add: collection_ok_def)

lemma collect_product_ok:
  "collection_ok m \<Longrightarrow> (\<And>q. p = Some q \<Longrightarrow> good_product q) \<Longrightarrow> collection_ok (collect_product m p)"
  by (auto simp: collect_product_def collection_ok_def map_of_eq_None_iff split: option.splits)

lemma add_edges_ok: "collection_ok m \<Longrightarrow> collection_ok (add_edges m items)"
  unfolding add_edges_def
  by (induction items arbitrary: m) (simp_all add: collect_product_ok mapDinaItem_good)

text \<open>Nothing that can be mapped is lost.\<close>

lemma collect_product_keeps: "map_of m i = Some p \<Longrightarrow> map_of (collect_product m q) i = Some p"
  by (auto simp: collect_product_def map_add_def split: option.splits)

lemma collect_product_has: "map_of (collect_product m (Some p)) (sp_id p) \<noteq> None"
  by (auto simp: collect_product_def map_add_def)

lemma add_edges_keeps: "map_of m i \<noteq> None \<Longrightarrow> map_of (add_edges m items) i \<noteq> None"
  unfolding add_edges_def
proof (induction items arbitrary: m)
  case (Cons e items)
  from Cons.prems obtain p where "map_of m i = Some p" by blast
  then have "map_of (collect_product m (mapDinaItem e)) i \<noteq> None" by (simp add: collect_product_keeps)
  with Cons.IH show ?case by simp
qed simp

lemma add_edges_has: "e \<in> set items \<Longrightarrow> mapDinaItem e = Some p \<Longrightarrow> map_of (add_edges m items) (sp_id p) \<noteq> None"
proof (induction items arbitrary: m)
  case (Cons x items)
  have step: "add_edges m (x # items) = add_edges (collect_product m (mapDinaItem x)) items" by (simp add: add_edges_def)
  show ?case
  proof (cases "x = e")
    case True
    then have "map_of (collect_product m (mapDinaItem x)) (sp_id p) \<noteq> None"
      using Cons.prems(2) collect_product_has by simp
    then show ?thesis unfolding step by (rule add_edges_keeps)
  next
    case False
    with Cons show ?thesis unfolding step by simp
  qed
qed simp

text \<open>Only identifiers made of digits reach a query.\<close>

lemma only_digits_iff: "only_digits s \<longleftrightarrow> s \<noteq> [] \<and> (\<forall>c \<in> set s. digit_ch c)"
  by (simp add: only_digits_def test_rx_all)

lemma buildBatchQuery_digits: "buildBatchQuery quote reqs shopId n = Inr q \<Longrightarrow> r \<in> set reqs \<Longrightarrow> only_digits (fst r)"
proof -
  assume q: "buildBatchQuery quote reqs shopId n = Inr q" and r: "r \<in> set reqs"
  from q obtain parts where parts: "traverse (batch_part quote shopId n) (zip [0..<length reqs] reqs) = Inr parts"
    by (auto simp: buildBatchQuery_def result_simps)
  from r obtain i where i: "i < length reqs" "reqs ! i = r" by (auto simp: in_set_conv_nth)
  from parts have "list_all2 (\<lambda>x y. batch_part quote shopId n x = Inr y) (zip [0..<length reqs] reqs) parts"
    by (simp add: traverse_Inr)
  then obtain y where "batch_part quote shopId n (i, r) = Inr y"
    using i list_all2_nthD [of _ "zip [0..<length reqs] reqs" parts i] by auto
  then show ?thesis by (auto simp: batch_part_def split: if_splits)
qed

lemma parseBatchResponse_length [simp]: "length (parseBatchResponse decode body n) = n"
  by (simp add: parseBatchResponse_def Let_def split: jval.split)

text \<open>The walks keep the collection in order and stop at ten errors.\<close>

definition batch_ok :: "batch \<Rightarrow> bool" where
  "batch_ok b \<longleftrightarrow> collection_ok (ba_products b) \<and> ba_errors b \<le> 10"

lemma pageError_ok: "pageError b = Inr b' \<Longrightarrow> batch_ok b \<Longrightarrow> batch_ok b'"
  by (auto simp: pageError_def Let_def batch_ok_def split: if_splits)

lemma first_pass_ok: "first_pass b req tot edges = Inr b' \<Longrightarrow> batch_ok b \<Longrightarrow> batch_ok b'"
  by (auto simp: first_pass_def Let_def batch_ok_def add_edges_ok intro: pageError_ok [unfolded batch_ok_def] split: if_splits
      dest: pageError_ok [unfolded batch_ok_def])

lemma second_pass_ok: "second_pass b req tot edges = Inr b' \<Longrightarrow> batch_ok b \<Longrightarrow> batch_ok b'"
  by (auto simp: second_pass_def batch_ok_def add_edges_ok)

lemma take_results_ok:
  "take_results onPage rs b = Inr b' \<Longrightarrow> batch_ok b \<Longrightarrow>
   (\<And>b req tot edges b'. onPage b req tot edges = Inr b' \<Longrightarrow> batch_ok b \<Longrightarrow> batch_ok b') \<Longrightarrow> batch_ok b'"
proof (induction onPage rs b rule: take_results.induct)
  case (2 onPage req res rest b)
  from "2.prems"(1) obtain b1 where b1: "(case res of PageOk tot edges \<Rightarrow> onPage b req tot edges | PageBad e \<Rightarrow> pageError b) = Inr b1"
    "take_results onPage rest b1 = Inr b'" by (auto simp: result_simps)
  have "batch_ok b1" using b1(1) "2.prems"(2,3) pageError_ok by (cases res) auto
  with "2.IH" b1(2) "2.prems"(3) show ?case by blast
qed simp

lemma run_chunks_ok:
  "run_chunks decode post onPage cs b = Inr b' \<Longrightarrow> batch_ok b \<Longrightarrow>
   (\<And>b req tot edges b'. onPage b req tot edges = Inr b' \<Longrightarrow> batch_ok b \<Longrightarrow> batch_ok b') \<Longrightarrow> batch_ok b'"
proof (induction decode post onPage cs b rule: run_chunks.induct)
  case (2 decode post onPage reqs query rest b)
  let ?b1 = "b\<lparr>ba_requests := ba_requests b + 1\<rparr>"
  from "2.prems"(1) obtain b2 where b2: "(case post query of None \<Rightarrow> pageError ?b1
      | Some body \<Rightarrow> take_results onPage (zip reqs (parseBatchResponse decode body (length reqs))) ?b1) = Inr b2"
    "run_chunks decode post onPage rest b2 = Inr b'" by (auto simp: result_simps Let_def simp del: Suc_eq_plus1 One_nat_def add_Suc_right)
  have "batch_ok ?b1" using "2.prems"(2) by (simp add: batch_ok_def)
  have "batch_ok b2"
  proof (cases "post query")
    case None
    with b2(1) have "pageError ?b1 = Inr b2" by (simp del: Suc_eq_plus1 One_nat_def add_Suc_right)
    then show ?thesis using \<open>batch_ok ?b1\<close> by (rule pageError_ok)
  next
    case (Some body)
    with b2(1) have "take_results onPage (zip reqs (parseBatchResponse decode body (length reqs))) ?b1 = Inr b2"
      by (simp del: Suc_eq_plus1 One_nat_def add_Suc_right)
    then show ?thesis using \<open>batch_ok ?b1\<close> "2.prems"(3) by (rule take_results_ok)
  qed
  then show ?case using "2.IH" [OF refl b2(2)] "2.prems"(3) by blast
qed simp

lemma run_pass_ok:
  "run_pass quote decode post n onPage reqs b = Inr b' \<Longrightarrow> batch_ok b \<Longrightarrow>
   (\<And>b req tot edges b'. onPage b req tot edges = Inr b' \<Longrightarrow> batch_ok b \<Longrightarrow> batch_ok b') \<Longrightarrow> batch_ok b'"
  unfolding run_pass_def and_then_Inr using run_chunks_ok by blast

lemma scrapeDinaBatch_ok: "scrapeDinaBatch quote decode post ids n = Inr b \<Longrightarrow> batch_ok b"
proof -
  assume "scrapeDinaBatch quote decode post ids n = Inr b"
  then obtain b1 where b1: "run_pass quote decode post n first_pass (map (\<lambda>c. (c, 1)) (js_set ids))
      \<lparr>ba_products = [], ba_errors = 0, ba_pages = 0, ba_requests = 0, ba_rest = []\<rparr> = Inr b1"
    and b: "run_pass quote decode post n second_pass (ba_rest b1) b1 = Inr b"
    by (auto simp: scrapeDinaBatch_def result_simps split: if_splits)
  have "batch_ok b1" by (rule run_pass_ok [OF b1 _ first_pass_ok]) (simp_all add: batch_ok_def)
  then show ?thesis by (rule run_pass_ok [OF b _ second_pass_ok])
qed

text \<open>The walk over the queue keeps the same collection.\<close>

definition walk_ok :: "walk \<Rightarrow> bool" where
  "walk_ok w \<longleftrightarrow> collection_ok (wk_products w) \<and> wk_errors w \<le> 10"

lemma enqueue_products [simp]:
  "wk_products (enqueue s e w c) = wk_products w" "wk_errors (enqueue s e w c) = wk_errors w"
  by (simp_all add: enqueue_def)

lemma foldl_enqueue_products [simp]:
  "wk_products (foldl (enqueue s e) w cs) = wk_products w" "wk_errors (foldl (enqueue s e) w cs) = wk_errors w"
  by (induction cs arbitrary: w) simp_all

lemma walk_edges_ok: "walk_ok w \<Longrightarrow> walk_ok (foldl (walk_edge s) w es)"
proof (induction es arbitrary: w)
  case (Cons e es)
  have "walk_ok (walk_edge s w e)"
    using Cons.prems by (simp add: walk_edge_def walk_ok_def collect_product_ok mapDinaItem_good)
  with Cons.IH show ?case by simp
qed simp

lemma walk_pages_ok: "walk_pages api s cat ps w = Inr w' \<Longrightarrow> walk_ok w \<Longrightarrow> walk_ok w'"
proof (induction api s cat ps w rule: walk_pages.induct)
  case (2 api s cat page rest w)
  show ?case
  proof (cases "api cat page")
    case None
    with 2 show ?thesis by (auto simp: Let_def walk_ok_def split: if_splits)
  next
    case (Some r)
    obtain edges tot where r: "r = (edges, tot)" by fastforce
    have "walk_ok (foldl (walk_edge s) (w\<lparr>wk_pages := wk_pages w + 1\<rparr>) edges)"
      using "2.prems"(2) by (intro walk_edges_ok) (simp add: walk_ok_def)
    then show ?thesis using "2.prems" "2.IH" [OF Some [unfolded r] refl refl] Some r by (auto simp: Let_def split: if_splits)
  qed
qed simp

lemma walk_queue_ok: "walk_queue fuel api s mp qi w = Some (Inr w') \<Longrightarrow> walk_ok w \<Longrightarrow> walk_ok w'"
proof (induction fuel arbitrary: qi w)
  case 0
  then show ?case by (subst (asm) walk_queue.simps) (auto split: if_splits)
next
  case (Suc fuel)
  from Suc.prems(1) show ?case
    by (subst (asm) walk_queue.simps)
      (use Suc.prems(2) in \<open>auto split: if_splits sum.splits intro: walk_pages_ok Suc.IH\<close>)
qed

lemma scrapeDinaRoots_ok: "scrapeDinaRoots fuel cs api s mp = Some (Inr w) \<Longrightarrow> walk_ok w"
  by (auto simp: scrapeDinaRoots_def Let_def walk_ok_def split: if_splits dest!: walk_queue_ok [unfolded walk_ok_def])

text \<open>Whatever way it goes, the scrape delivers distinct, well-formed products of the fixed shop.\<close>

definition dina_file_ok :: "source_file \<Rightarrow> bool" where
  "dina_file_ok f \<longleftrightarrow> sf_store f = Dina \<and> sf_errorCount f \<le> 10 \<and> distinct (map sp_id (sf_products f)) \<and>
     list_all good_product (sf_products f)"

lemma collection_ids: "collection_ok m \<Longrightarrow> map sp_id (map snd m) = js_keys m"
  by (induction m) (auto simp: collection_ok_def)

lemma dina_file_ok: "collection_ok m \<Longrightarrow> n \<le> 10 \<Longrightarrow> dina_file_ok (dina_file stamp n stats m)"
proof -
  assume m: "collection_ok m" and "n \<le> 10"
  moreover have "distinct (map sp_id (map snd m))" unfolding collection_ids [OF m] using m by (simp add: collection_ok_def)
  moreover have "list_all good_product (map snd m)" using m by (auto simp: collection_ok_def list_all_iff)
  ultimately show ?thesis by (simp add: dina_file_ok_def dina_file_def del: map_map)
qed

lemma scrapeDina_ok: "scrapeDina fuel shop stamp opts = Some (Inr f) \<Longrightarrow> dina_file_ok f"
  unfolding scrapeDina_def
  by (auto simp: result_simps batch_file_def roots_file_def walk_ok_def batch_ok_def split: sum.splits option.splits list.splits if_splits
      intro!: dina_file_ok dest: scrapeDinaBatch_ok scrapeDinaRoots_ok)

text \<open>
  The weight in grams is not read when the unit is Cyrillic and ends the word: the boundary in
  the pattern holds only next to a Latin letter or a digit.
\<close>

lemma cyrillic_grams_are_ignored:
  "weight_factor (ru ''sYr 300 g'') = 1000" "weight_factor (la ''cheese 300 g'') = 300"
  by code_simp+

text \<open>
  The walk ends: what it adds to the queue has identifiers it has not queued before, so a shop that
  names finitely many categories is walked in as many steps.
\<close>

definition queue_inv :: "(jstr \<times> jstr) list \<Rightarrow> jstr set \<Rightarrow> walk \<Rightarrow> bool" where
  "queue_inv start ids w \<longleftrightarrow> (\<exists>added. wk_queue w = start @ added \<and> distinct (map fst added) \<and> fst ` set added \<subseteq> ids \<inter> set (wk_queued w))"

lemma queue_inv_fields [simp]:
  "queue_inv start ids (w\<lparr>wk_products := m\<rparr>) = queue_inv start ids w" "queue_inv start ids (w\<lparr>wk_errors := n\<rparr>) = queue_inv start ids w"
  "queue_inv start ids (w\<lparr>wk_pages := n\<rparr>) = queue_inv start ids w"
  by (simp_all add: queue_inv_def)

lemma queue_inv_enqueue: "queue_inv start ids w \<Longrightarrow> fst c \<in> ids \<Longrightarrow> queue_inv start ids (enqueue s e w c)"
proof -
  assume "queue_inv start ids w" and c: "fst c \<in> ids"
  then obtain added where a: "wk_queue w = start @ added" "distinct (map fst added)" "fst ` set added \<subseteq> ids \<inter> set (wk_queued w)"
    by (auto simp: queue_inv_def)
  have "queue_inv start ids (w\<lparr>wk_queued := wk_queued w @ [fst c], wk_queue := wk_queue w @ [c]\<rparr>)" if "fst c \<notin> set (wk_queued w)"
    using a c that unfolding queue_inv_def by (intro exI [of _ "added @ [c]"]) auto
  then show ?thesis using \<open>queue_inv start ids w\<close> by (simp add: enqueue_def)
qed

lemma queue_inv_foldl: "queue_inv start ids w \<Longrightarrow> fst ` set cs \<subseteq> ids \<Longrightarrow> queue_inv start ids (foldl (enqueue s e) w cs)"
  by (induction cs arbitrary: w) (simp_all add: queue_inv_enqueue)

lemma queue_inv_edges:
  "queue_inv start ids w \<Longrightarrow> (\<And>e. e \<in> set es \<Longrightarrow> fst ` set (dn_categories e) \<subseteq> ids) \<Longrightarrow> queue_inv start ids (foldl (walk_edge s) w es)"
proof (induction es arbitrary: w)
  case (Cons e es)
  have "queue_inv start ids (walk_edge s w e)"
    using Cons.prems(1) Cons.prems(2) [of e] by (simp add: walk_edge_def queue_inv_foldl)
  then show ?case using Cons.IH Cons.prems(2) by simp
qed simp

lemma queue_inv_pages:
  assumes known: "\<And>cat page edges tot e. api cat page = Some (edges, tot) \<Longrightarrow> e \<in> set edges \<Longrightarrow> fst ` set (dn_categories e) \<subseteq> ids"
  shows "walk_pages api s cat ps w = Inr w' \<Longrightarrow> queue_inv start ids w \<Longrightarrow> queue_inv start ids w'"
proof (induction ps arbitrary: w)
  case (Cons page rest)
  show ?case
  proof (cases "api cat page")
    case None
    then show ?thesis using Cons.prems by (auto simp: Let_def split: if_splits)
  next
    case (Some r)
    obtain edges tot where r: "r = (edges, tot)" by fastforce
    have "queue_inv start ids (foldl (walk_edge s) (w\<lparr>wk_pages := wk_pages w + 1\<rparr>) edges)"
      using Cons.prems(2) known [OF Some [unfolded r]] by (intro queue_inv_edges) simp_all
    then show ?thesis using Cons.prems(1) Cons.IH Some r by (auto simp: Let_def split: if_splits)
  qed
qed simp

lemma queue_inv_length: "queue_inv start (set ids) w \<Longrightarrow> length (wk_queue w) \<le> length start + length ids"
proof -
  assume "queue_inv start (set ids) w"
  then obtain added where a: "wk_queue w = start @ added" "distinct (map fst added)" "fst ` set added \<subseteq> set ids" by (auto simp: queue_inv_def)
  have "length added = card (fst ` set added)" using distinct_card [OF a(2)] by simp
  also have "\<dots> \<le> card (set ids)" using a(3) by (simp add: card_mono)
  also have "\<dots> \<le> length ids" by (rule card_length)
  finally show ?thesis using a(1) by simp
qed

lemma walk_queue_ends:
  assumes known: "\<And>cat page edges tot e. api cat page = Some (edges, tot) \<Longrightarrow> e \<in> set edges \<Longrightarrow> fst ` set (dn_categories e) \<subseteq> set ids"
  shows "queue_inv start (set ids) w \<Longrightarrow> length start + length ids \<le> qi + fuel \<Longrightarrow> walk_queue fuel api s maxPages qi w \<noteq> None"
proof (induction fuel arbitrary: qi w)
  case 0
  then have "length (wk_queue w) \<le> qi" using queue_inv_length [OF 0(1)] by simp
  then show ?case by (subst walk_queue.simps) simp
next
  case (Suc fuel)
  show ?case
  proof (cases "walk_pages api s (fst (wk_queue w ! qi)) [1..<Suc maxPages] w")
    case (Inl e)
    then show ?thesis by (subst walk_queue.simps) simp
  next
    case (Inr w1)
    have "queue_inv start (set ids) w1" by (rule queue_inv_pages [OF known Inr Suc.prems(1)])
    then have "walk_queue fuel api s maxPages (qi + 1) w1 \<noteq> None" using Suc.prems(2) by (intro Suc.IH) simp_all
    then show ?thesis using Inr by (subst walk_queue.simps) simp
  qed
qed

end
