(* ===== verification/Pool.thy ===== *)
theory Pool
  imports Prelude
begin

text \<open>
  The pool of bounded concurrency (\<open>pipeline/src/pool.ts\<close>) as a step relation: the workers
  interleave in any order the answers arrive in, and the result does not depend on it.
\<close>

section \<open>States and steps\<close>

text \<open>
  The shared counter, what each worker is waiting for (\<open>None\<close> once it has left its loop) and
  the results written so far. \<open>fn i\<close> is what the task of item \<open>i\<close> resolves to.
\<close>

record 'r pool =
  pl_next :: nat
  pl_workers :: "nat option list"
  pl_results :: "'r option list"

definition worker_count :: "nat \<Rightarrow> nat \<Rightarrow> nat" where
  "worker_count limit n = max 1 (min limit n)"

text \<open>Each worker runs up to its first \<open>await\<close> before the next one starts.\<close>

definition pool_start :: "nat \<Rightarrow> nat \<Rightarrow> 'r pool" where
  "pool_start limit n =
    \<lparr>pl_next = min (worker_count limit n) n,
     pl_workers = map (\<lambda>w. if w < n then Some w else None) [0..<worker_count limit n],
     pl_results = replicate n None\<rparr>"

text \<open>A worker whose task is done stores the result, then takes the next item or stops.\<close>

definition resume_worker :: "(nat \<Rightarrow> 'r) \<Rightarrow> nat \<Rightarrow> nat \<Rightarrow> 'r pool \<Rightarrow> 'r pool" where
  "resume_worker fn w i s =
    (let results = (pl_results s)[i := Some (fn i)]
     in if pl_next s < length results
        then \<lparr>pl_next = pl_next s + 1, pl_workers = (pl_workers s)[w := Some (pl_next s)], pl_results = results\<rparr>
        else \<lparr>pl_next = pl_next s, pl_workers = (pl_workers s)[w := None], pl_results = results\<rparr>)"

inductive pool_step :: "(nat \<Rightarrow> 'r) \<Rightarrow> 'r pool \<Rightarrow> 'r pool \<Rightarrow> bool" for fn where
  resolve: "w < length (pl_workers s) \<Longrightarrow> pl_workers s ! w = Some i \<Longrightarrow> pool_step fn s (resume_worker fn w i s)"

inductive_cases pool_stepE: "pool_step fn s t"

text \<open>Runs, with the number of steps they take.\<close>

inductive pool_run :: "(nat \<Rightarrow> 'r) \<Rightarrow> 'r pool \<Rightarrow> nat \<Rightarrow> 'r pool \<Rightarrow> bool" for fn s where
  run_start: "pool_run fn s 0 s"
| run_step: "pool_run fn s k t \<Longrightarrow> pool_step fn t u \<Longrightarrow> pool_run fn s (Suc k) u"

definition pool_done :: "'r pool \<Rightarrow> bool" where
  "pool_done s \<longleftrightarrow> list_all (\<lambda>w. w = None) (pl_workers s)"

section \<open>Invariants\<close>

definition in_flight :: "'r pool \<Rightarrow> nat list" where
  "in_flight s = List.map_filter (\<lambda>w. w) (pl_workers s)"

text \<open>
  The items taken are those below the counter; each is either being waited for by exactly one
  worker, or its result is in place.
\<close>

definition pool_inv :: "(nat \<Rightarrow> 'r) \<Rightarrow> nat \<Rightarrow> nat \<Rightarrow> 'r pool \<Rightarrow> bool" where
  "pool_inv fn n k s \<longleftrightarrow>
     length (pl_workers s) = k \<and> length (pl_results s) = n \<and> pl_next s \<le> n \<and>
     distinct (in_flight s) \<and> set (in_flight s) \<subseteq> {..<pl_next s} \<and>
     (pl_next s < n \<longrightarrow> None \<notin> set (pl_workers s)) \<and>
     (\<forall>i < n. pl_results s ! i = (if i < pl_next s \<and> i \<notin> set (in_flight s) then Some (fn i) else None))"

text \<open>How many items are done.\<close>

definition completed :: "'r pool \<Rightarrow> nat" where
  "completed s = pl_next s - length (in_flight s)"

lemma in_flight_simps [simp]:
  "List.map_filter (\<lambda>w. w) [] = []"
  "List.map_filter (\<lambda>w. w) (None # ws) = List.map_filter (\<lambda>w. w) ws"
  "List.map_filter (\<lambda>w. w) (Some i # ws) = i # List.map_filter (\<lambda>w. w) ws"
  by (simp_all add: List.map_filter_def)

lemma map_filter_append: "List.map_filter f (xs @ ys) = List.map_filter f xs @ List.map_filter f ys"
  by (simp add: List.map_filter_def)

lemma map_filter_all_some: "List.map_filter (\<lambda>w. w) (map Some xs) = xs"
  by (induction xs) simp_all

lemma split_worker:
  assumes "w < length ws" and "ws ! w = x"
  obtains a b where "ws = a @ x # b" "\<forall>y. ws[w := y] = a @ y # b"
proof
  show "ws = take w ws @ x # drop (Suc w) ws" by (metis assms id_take_nth_drop)
  show "\<forall>y. ws[w := y] = take w ws @ y # drop (Suc w) ws" using assms(1) by (simp add: upd_conv_take_nth_drop)
qed

lemma start_workers:
  assumes "0 < n"
  shows "pl_workers (pool_start limit n) = map Some [0..<worker_count limit n]" and "worker_count limit n \<le> n"
    and "in_flight (pool_start limit n) = [0..<worker_count limit n]"
proof -
  show k: "worker_count limit n \<le> n" using assms by (simp add: worker_count_def)
  then show ws: "pl_workers (pool_start limit n) = map Some [0..<worker_count limit n]"
    by (auto simp: pool_start_def)
  show "in_flight (pool_start limit n) = [0..<worker_count limit n]"
    unfolding in_flight_def ws by (rule map_filter_all_some)
qed

lemma pool_start_empty: "pool_inv fn 0 (worker_count limit 0) (pool_start limit 0)" "completed (pool_start limit 0) = 0"
  by (simp_all add: pool_inv_def pool_start_def worker_count_def in_flight_def completed_def)

lemma pool_start_inv: "pool_inv fn n (worker_count limit n) (pool_start limit n)"
proof (cases "n = 0")
  case False
  then have n: "0 < n" by simp
  have next_k: "pl_next (pool_start limit n) = worker_count limit n" "pl_results (pool_start limit n) = replicate n None"
    using start_workers(2) [OF n] by (simp_all add: pool_start_def)
  show ?thesis
    by (auto simp: pool_inv_def next_k start_workers [OF n])
qed (simp add: pool_start_empty)

lemma resume_worker_inv:
  assumes inv: "pool_inv fn n k s" and w: "w < length (pl_workers s)" "pl_workers s ! w = Some i"
  shows "pool_inv fn n k (resume_worker fn w i s)"
proof -
  obtain a b where ws: "pl_workers s = a @ Some i # b" and upd: "\<forall>y. (pl_workers s)[w := y] = a @ y # b"
    by (rule split_worker [OF w])
  let ?fa = "List.map_filter (\<lambda>w. w) a" and ?fb = "List.map_filter (\<lambda>w. w) b"
  have fl: "in_flight s = ?fa @ i # ?fb" by (simp add: in_flight_def ws map_filter_append)
  have d: "distinct (?fa @ ?fb)" "i \<notin> set (?fa @ ?fb)" "i < pl_next s" "\<forall>j \<in> set (?fa @ ?fb). j < pl_next s"
    and len: "length (pl_results s) = n" "pl_next s \<le> n" "length (pl_workers s) = k"
    and res: "\<forall>j < n. pl_results s ! j = (if j < pl_next s \<and> j \<notin> set (in_flight s) then Some (fn j) else None)"
    and busy: "pl_next s < n \<longrightarrow> None \<notin> set (pl_workers s)"
    using inv by (auto simp: pool_inv_def fl)
  show ?thesis
  proof (cases "pl_next s < n")
    case True
    let ?t = "resume_worker fn w i s"
    have t: "pl_next ?t = pl_next s + 1" "pl_workers ?t = a @ Some (pl_next s) # b" "pl_results ?t = (pl_results s)[i := Some (fn i)]"
      using True by (simp_all add: resume_worker_def Let_def len upd)
    have fl': "in_flight ?t = ?fa @ pl_next s # ?fb" by (simp add: t in_flight_def map_filter_append)
    have "pl_results ?t ! j = (if j < pl_next ?t \<and> j \<notin> set (in_flight ?t) then Some (fn j) else None)" if "j < n" for j
      using res that d by (cases "j = i") (auto simp: t fl fl' nth_list_update len less_Suc_eq)
    moreover have "distinct (in_flight ?t)" "set (in_flight ?t) \<subseteq> {..<pl_next ?t}"
      using d by (auto simp: fl') (auto simp: t less_Suc_eq)
    moreover have "None \<notin> set (pl_workers ?t)" using busy True by (auto simp: t ws)
    ultimately show ?thesis
      using True len by (simp add: pool_inv_def t ws)
  next
    case False
    let ?t = "resume_worker fn w i s"
    have t: "pl_next ?t = pl_next s" "pl_workers ?t = a @ None # b" "pl_results ?t = (pl_results s)[i := Some (fn i)]"
      using False by (simp_all add: resume_worker_def Let_def len upd)
    have fl': "in_flight ?t = ?fa @ ?fb" by (simp add: t in_flight_def map_filter_append)
    have "pl_results ?t ! j = (if j < pl_next ?t \<and> j \<notin> set (in_flight ?t) then Some (fn j) else None)" if "j < n" for j
      using res that d by (cases "j = i") (auto simp: t fl fl' nth_list_update len)
    moreover have "distinct (in_flight ?t)" "set (in_flight ?t) \<subseteq> {..<pl_next ?t}"
      using d by (auto simp: fl') (auto simp: t)
    ultimately show ?thesis
      using False len by (simp add: pool_inv_def t ws)
  qed
qed

lemma pool_step_inv: "pool_step fn s t \<Longrightarrow> pool_inv fn n k s \<Longrightarrow> pool_inv fn n k t"
  by (elim pool_stepE) (simp add: resume_worker_inv)

lemma pool_run_inv: "pool_run fn s j t \<Longrightarrow> pool_inv fn n k s \<Longrightarrow> pool_inv fn n k t"
  by (induction rule: pool_run.induct) (auto intro: pool_step_inv)

section \<open>Progress\<close>

lemma in_flight_le_next: "pool_inv fn n k s \<Longrightarrow> length (in_flight s) \<le> pl_next s"
proof -
  assume "pool_inv fn n k s"
  then have "distinct (in_flight s)" "set (in_flight s) \<subseteq> {..<pl_next s}" by (simp_all add: pool_inv_def)
  then have "card (set (in_flight s)) \<le> card {..<pl_next s}" by (intro card_mono) simp_all
  with \<open>distinct (in_flight s)\<close> show ?thesis by (simp add: distinct_card)
qed

lemma in_flight_le_workers: "length (in_flight s) \<le> length (pl_workers s)"
  by (simp add: in_flight_def List.map_filter_def)

text \<open>Every step completes exactly one item.\<close>

lemma pool_step_completed:
  assumes "pool_step fn s t" and inv: "pool_inv fn n k s"
  shows "completed t = Suc (completed s)"
proof -
  obtain w i where w: "w < length (pl_workers s)" "pl_workers s ! w = Some i" and t: "t = resume_worker fn w i s"
    using assms(1) by (elim pool_stepE)
  obtain a b where ws: "pl_workers s = a @ Some i # b" and upd: "\<forall>y. (pl_workers s)[w := y] = a @ y # b"
    by (rule split_worker [OF w])
  have len: "length (in_flight s) = Suc (length (List.map_filter (\<lambda>w. w) a) + length (List.map_filter (\<lambda>w. w) b))"
    by (simp add: in_flight_def ws map_filter_append)
  have "length (in_flight s) \<le> pl_next s" by (rule in_flight_le_next) (rule inv)
  moreover have "pl_workers t = a @ (if pl_next s < length (pl_results s) then Some (pl_next s) else None) # b"
    "pl_next t = (if pl_next s < length (pl_results s) then Suc (pl_next s) else pl_next s)"
    by (simp_all add: t resume_worker_def Let_def upd)
  ultimately show ?thesis
    using len by (simp add: completed_def in_flight_def map_filter_append)
qed

lemma pool_run_completed: "pool_run fn s j t \<Longrightarrow> pool_inv fn n k s \<Longrightarrow> completed t = completed s + j"
  by (induction rule: pool_run.induct) (auto dest: pool_run_inv pool_step_completed)

lemma completed_start: "completed (pool_start limit n) = 0"
proof (cases "n = 0")
  case False
  then have n: "0 < n" by simp
  show ?thesis
    unfolding completed_def start_workers(3) [OF n] using start_workers(2) [OF n] by (simp add: pool_start_def)
qed (simp add: pool_start_empty)

text \<open>While a worker waits, a step is possible; once none does, all items are done.\<close>

lemma pool_progress: "\<not> pool_done s \<Longrightarrow> \<exists>t. pool_step fn s t"
proof -
  assume "\<not> pool_done s"
  then obtain x where "x \<in> set (pl_workers s)" "x \<noteq> None" by (auto simp: pool_done_def list_all_iff)
  then obtain w i where "w < length (pl_workers s)" "pl_workers s ! w = Some i" by (auto simp: in_set_conv_nth)
  then show ?thesis by (blast intro: pool_step.intros)
qed

lemma pool_done_results:
  assumes "pool_inv fn n k s" and "pool_done s" and "0 < k"
  shows "pl_results s = map (\<lambda>i. Some (fn i)) [0..<n]" and "completed s = n"
proof -
  have none: "\<forall>x \<in> set (pl_workers s). x = None" using assms(2) by (simp add: pool_done_def list_all_iff)
  have fl: "in_flight s = []" using none unfolding in_flight_def by (induction "pl_workers s") (auto simp: List.map_filter_def)
  have "pl_workers s \<noteq> []" using assms(1,3) by (auto simp: pool_inv_def)
  then have "None \<in> set (pl_workers s)" using none by (cases "pl_workers s") auto
  then have next_n: "pl_next s = n" using assms(1) by (auto simp: pool_inv_def)
  then show "completed s = n" by (simp add: completed_def fl)
  show "pl_results s = map (\<lambda>i. Some (fn i)) [0..<n]"
    using assms(1) next_n fl by (intro nth_equalityI) (simp_all add: pool_inv_def)
qed

text \<open>What the callers of the pool rely on: the array of the results, in the order of the items.\<close>

definition mapPool :: "'a list \<Rightarrow> ('a \<Rightarrow> 'r) \<Rightarrow> 'r list" where
  "mapPool items fn = map fn items"

end
