(* ===== verification/DanaCrawl.thy ===== *)
theory DanaCrawl
  imports Cover DinaCrawl Pool
begin

text \<open>
  The pipeline's scraper of Dana (\<open>scrapers/dana.ts\<close>): reading a catalogue page, and the three
  ways it walks the shop (roots, sections, full). A page is its text, and what the HTML library
  finds in it: the cards, the links of the pagination and of the menu. The network is a
  function of the path and the page. The pool of workers is the map it is proved to refine.
\<close>

section \<open>Reading a page\<close>

definition BASE :: jstr where "BASE = la ''https://dana-market.kz''"

definition dana_abs :: "jstr option \<Rightarrow> jstr option" where
  "dana_abs u =
    (if \<not> truthy_str u then None
     else if starts_with (the u) (la ''http'') then u else Some (BASE @ the u))"

text \<open>The number in a text: digits with blanks between them and an optional fraction.\<close>

definition rx_price_text :: rx where
  "rx_price_text = Grp 0 (sq [Ch c_digit, many (Ch (Cls False ([(48, 57)] @ ranges c_space))), opt (sq [Ch (Cls False [(46, 46), (44, 44)]), many1 (Ch c_digit)])])"

definition priceText :: "jstr \<Rightarrow> int" where
  "priceText s =
    (case rx_group 0 rx_price_text s of
       None \<Rightarrow> 0
     | Some m \<Rightarrow> js_round (dot_val (filter (\<lambda>c. \<not> space_ch c) m)))"

text \<open>
  \<open>parseFloat\<close> of a text of digits and dots. A text without digits, which JavaScript reads as
  \<open>NaN\<close> and the schema of the file refuses, is read as zero here, which skips the card.
\<close>

definition float_of :: "jstr \<Rightarrow> rat" where
  "float_of w =
    (let whole = takeWhile digit_ch w; rest = dropWhile digit_ch w;
         fraction = (case rest of [] \<Rightarrow> [] | _ # f \<Rightarrow> takeWhile digit_ch f)
     in of_int (digits_val whole) + of_int (digits_val fraction) / 10 ^ length fraction)"

definition rx_item_price :: rx where
  "rx_item_price = sq [lit ([39] @ la ''PRODUCT'' @ [39] @ la '':{'' @ [39] @ la ''ID'' @ [39] @ la '':'' @ [39]), Grp 1 (many1 (Ch c_digit)), lit ([39]), Star False (Ch (Cls True [])), lit ([39] @ la ''ITEM_PRICES'' @ [39] @ la '':[{''), Star False (Ch (Cls True [(125, 125)])), lit ([39] @ la ''BASE_PRICE'' @ [39] @ la '':'' @ [39]), Grp 2 (many1 (Ch (Cls False [(48, 57), (46, 46)]))), lit ([39] @ la '','' @ [39] @ la ''PRICE'' @ [39] @ la '':'' @ [39]), Grp 3 (many1 (Ch (Cls False [(48, 57), (46, 46)]))), lit ([39])]"

text \<open>Price and base price of each product identifier.\<close>

definition parseItemPrices :: "jstr \<Rightarrow> (jstr \<times> int \<times> int) list" where
  "parseItemPrices html =
    foldl (\<lambda>out m. AList.update (nullish (map_of m 1) [])
        (js_round (float_of (nullish (map_of m 3) [])), js_round (float_of (nullish (map_of m 2) []))) out)
      [] (rx_matches rx_item_price html)"

record dana_card =
  dk_href :: "jstr option"
  dk_boxId :: "jstr option"
  dk_title :: jstr
  dk_current :: jstr
  dk_old :: jstr
  dk_style :: "jstr option"

record dana_html =
  dh_text :: jstr
  dh_cards :: "dana_card list"
  dh_pagination :: "jstr list"
  dh_menu :: "jstr \<Rightarrow> jstr list"      \<comment> \<open>the links under the menu entry of a root\<close>

definition rx_href_id :: rx where
  "rx_href_id = sq [lit (la ''/''), Grp 1 (many1 (Ch c_digit)), opt (chr 47), opt (sq [Ch (Cls False [(63, 63), (35, 35)]), many (Ch c_dot)]), Eol]"

definition rx_box_id :: rx where
  "rx_box_id = sq [Bol, lit (la ''bx_''), many1 (Ch c_digit), lit (la ''_''), Grp 1 (many1 (Ch c_digit)), lit (la ''_'')]"

text \<open>The quote, when there is one, has to close; without one the text up to the first bracket.\<close>

definition rx_url :: rx where
  "rx_url = alts [sq [lit (la ''url('' @ [39]), Grp 2 (Star False (Ch c_dot)), lit ([39] @ la '')'')],
     sq [lit (la ''url('' @ [34]), Grp 2 (Star False (Ch c_dot)), lit ([34] @ la '')'')],
     sq [lit (la ''url(''), Grp 2 (Star False (Ch c_dot)), lit (la '')'')]]"

definition raw_id :: "dana_card \<Rightarrow> jstr option" where
  "raw_id box =
    (case rx_group 1 rx_href_id (nullish (dk_href box) []) of
       Some i \<Rightarrow> Some i
     | None \<Rightarrow> rx_group 1 rx_box_id (nullish (dk_boxId box) []))"

definition opt_num :: "int option \<Rightarrow> jval" where
  "opt_num n = (case n of None \<Rightarrow> JNull | Some i \<Rightarrow> JNum (Fin (of_int i)))"

definition parse_card :: "(jstr \<times> int \<times> int) list \<Rightarrow> jstr list \<Rightarrow> dana_card \<Rightarrow> source_product option" where
  "parse_card unit_prices sectionPath box =
    (case raw_id box of
       None \<Rightarrow> None
     | Some rawId \<Rightarrow>
         let name = trim (dk_title box);
             json = map_of unit_prices rawId;
             price = (case json of Some (p, _) \<Rightarrow> p | None \<Rightarrow> priceText (dk_current box))
         in if name = [] \<or> price \<le> 0 then None
            else
              let old = (case json of Some (_, b) \<Rightarrow> b | None \<Rightarrow> priceText (dk_old box));
                  oldPrice = (if old > price then Some old else None)
              in Some \<lparr>sp_id = la ''dana_'' @ rawId, sp_name = name, sp_price = price, sp_oldPrice = oldPrice,
                       sp_imageUrl = dana_abs (rx_group 2 rx_url (nullish (dk_style box) [])),
                       sp_sourceUrl = dana_abs (dk_href box), sp_brand = None, sp_path = sectionPath,
                       sp_raw = [(la ''rawId'', JStr rawId), (la ''name'', JStr name), (la ''price'', opt_num (Some price)),
                         (la ''oldPrice'', opt_num oldPrice), (la ''section'', JStr (join (la '' / '') sectionPath)),
                         (la ''sections'', JArr [])]\<rparr>)"

definition parseDanaPage :: "dana_html \<Rightarrow> jstr list \<Rightarrow> source_product list" where
  "parseDanaPage html sectionPath = List.map_filter (parse_card (parseItemPrices (dh_text html)) sectionPath) (dh_cards html)"

definition rx_pagen :: rx where
  "rx_pagen = sq [lit (la ''PAGEN_1=''), Grp 1 (many1 (Ch c_digit))]"

definition parseDanaPageCount :: "dana_html \<Rightarrow> nat" where
  "parseDanaPageCount html =
    foldl (\<lambda>m href. case rx_group 1 rx_pagen href of None \<Rightarrow> m | Some w \<Rightarrow> max m (nat (digits_val w))) 1 (dh_pagination html)"

definition parseDanaSections :: "dana_html \<Rightarrow> jstr \<Rightarrow> jstr list" where
  "parseDanaSections html rootPath =
    js_sort str_le (js_set (filter (\<lambda>href. rx_test DANA_SECTION_RE href \<and> href \<noteq> rootPath) (dh_menu html rootPath)))"

section \<open>The walk\<close>

datatype dana_mode = DanaRoots | DanaSections | DanaFull

record dana_target =
  tg_path :: jstr
  tg_rootName :: jstr
  tg_sectionPath :: "jstr option"

datatype page_answer = DanaProducts "source_product list" nat | DanaEnd | DanaError jstr

definition MAX_PAGES_PER_ROOT :: nat where "MAX_PAGES_PER_ROOT = 500"

type_synonym dana_site = "jstr \<Rightarrow> nat \<Rightarrow> jstr + dana_html"

record dana_opts =
  da_roots :: "(jstr \<times> jstr) list option"
  da_sections :: "jstr list option"
  da_full :: bool
  da_concurrency :: nat

definition mode_of_opts :: "dana_opts \<Rightarrow> dana_mode" where
  "mode_of_opts opts = (if da_full opts then DanaFull else if da_sections opts \<noteq> None then DanaSections else DanaRoots)"

text \<open>The first page of the menu's root, fetched in the modes that need the menu.\<close>

definition menu_page :: "dana_site \<Rightarrow> dana_opts \<Rightarrow> dana_html option" where
  "menu_page site opts =
    (if mode_of_opts opts = DanaRoots then None
     else case site (fst dana_root) 1 of Inl _ \<Rightarrow> None | Inr html \<Rightarrow> Some html)"

definition menu_of :: "dana_html option \<Rightarrow> jstr list" where
  "menu_of page = (case page of None \<Rightarrow> [] | Some html \<Rightarrow> parseDanaSections html (fst dana_root))"

definition section_target :: "jstr \<Rightarrow> dana_target" where
  "section_target path = \<lparr>tg_path = path, tg_rootName = snd dana_root, tg_sectionPath = Some path\<rparr>"

definition root_target :: "jstr \<times> jstr \<Rightarrow> dana_target" where
  "root_target r = \<lparr>tg_path = fst r, tg_rootName = snd r, tg_sectionPath = None\<rparr>"

definition missing_section :: "jstr list \<Rightarrow> jstr \<Rightarrow> bool" where
  "missing_section menu path \<longleftrightarrow> menu \<noteq> [] \<and> path \<notin> set menu"

definition dana_targets :: "dana_opts \<Rightarrow> jstr list \<Rightarrow> dana_target list" where
  "dana_targets opts menu =
    (if mode_of_opts opts = DanaSections
     then map section_target (filter (\<lambda>p. \<not> missing_section menu p) (nullish (da_sections opts) []))
     else map root_target (nullish (da_roots opts) DANA_ROOTS) @
          (if mode_of_opts opts = DanaFull then map section_target menu else []))"

text \<open>The errors before the walk: no menu where one is needed, sections the menu does not have.\<close>

definition menu_errors :: "dana_opts \<Rightarrow> jstr list \<Rightarrow> nat" where
  "menu_errors opts menu =
    (if mode_of_opts opts \<noteq> DanaRoots \<and> menu = [] then 1 else 0) +
    (if mode_of_opts opts = DanaSections
     then length (filter (missing_section menu) (nullish (da_sections opts) [])) else 0)"

definition fetch_html :: "dana_site \<Rightarrow> dana_html option \<Rightarrow> dana_target \<Rightarrow> nat \<Rightarrow> jstr + dana_html" where
  "fetch_html site menuHtml t page =
    (case (if page = 1 \<and> tg_path t = fst dana_root then menuHtml else None) of
       Some html \<Rightarrow> Inr html
     | None \<Rightarrow> site (tg_path t) page)"

definition fetch_page :: "dana_site \<Rightarrow> dana_html option \<Rightarrow> dana_target \<Rightarrow> nat \<Rightarrow> page_answer" where
  "fetch_page site menuHtml t page =
    (case fetch_html site menuHtml t page of
       Inl e \<Rightarrow> if page > 1 \<and> starts_with e (la ''HTTP 404'') then DanaEnd else DanaError e
     | Inr html \<Rightarrow>
         let products = parseDanaPage html [tg_rootName t]
         in if products = [] then DanaError (la ''no product cards on the page'')
            else DanaProducts products (if page = 1 then min (parseDanaPageCount html) MAX_PAGES_PER_ROOT else 1))"

text \<open>The pages after the first one of every target, as one queue of target index and page.\<close>

definition page_jobs :: "page_answer list \<Rightarrow> (nat \<times> nat) list" where
  "page_jobs first =
    concat (map (\<lambda>(ti, r). case r of DanaProducts _ n \<Rightarrow> map (Pair ti) [2..<Suc n] | _ \<Rightarrow> []) (enumerate 0 first))"

fun is_error :: "page_answer \<Rightarrow> bool" where
  "is_error (DanaError _) = True"
| "is_error _ = False"

fun answer_products :: "page_answer \<Rightarrow> source_product list" where
  "answer_products (DanaProducts ps _) = ps"
| "answer_products _ = []"

text \<open>The products so far, each with the sections it was seen in.\<close>

type_synonym dana_products = "(jstr \<times> source_product \<times> jstr list) list"

definition add_section :: "jstr option \<Rightarrow> jstr list \<Rightarrow> jstr list" where
  "add_section s ss = (case s of None \<Rightarrow> ss | Some x \<Rightarrow> if x = [] \<or> x \<in> set ss then ss else ss @ [x])"

definition take_card :: "jstr option \<Rightarrow> dana_products \<Rightarrow> source_product \<Rightarrow> dana_products" where
  "take_card s m p =
    (case map_of m (sp_id p) of
       None \<Rightarrow> m @ [(sp_id p, p, add_section s [])]
     | Some (q, ss) \<Rightarrow> AList.update (sp_id p) (q, add_section s ss) m)"

definition merge_target :: "dana_products \<Rightarrow> dana_target \<times> page_answer list \<Rightarrow> dana_products" where
  "merge_target m tr = foldl (take_card (tg_sectionPath (fst tr))) m (concat (map answer_products (snd tr)))"

definition with_sections :: "source_product \<times> jstr list \<Rightarrow> source_product" where
  "with_sections e = (fst e)\<lparr>sp_raw := AList.update (la ''sections'') (JArr (map JStr (js_sort str_le (snd e)))) (sp_raw (fst e))\<rparr>"

definition pages_fetched :: "dana_site \<Rightarrow> dana_html option \<Rightarrow> (dana_target \<times> nat) list \<Rightarrow> nat" where
  "pages_fetched site menuHtml asked =
    (if menuHtml = None then 0 else 1) +
    length (filter (\<lambda>(t, page). \<not> (page = 1 \<and> tg_path t = fst dana_root \<and> menuHtml \<noteq> None) \<and>
      (case site (tg_path t) page of Inl _ \<Rightarrow> False | Inr _ \<Rightarrow> True)) asked)"

definition mode_name :: "dana_mode \<Rightarrow> jstr" where
  "mode_name m = (case m of DanaRoots \<Rightarrow> la ''roots'' | DanaSections \<Rightarrow> la ''sections'' | DanaFull \<Rightarrow> la ''full'')"

definition scrapeDana :: "dana_site \<Rightarrow> jstr \<Rightarrow> dana_opts \<Rightarrow> source_file" where
  "scrapeDana site stamp opts =
    (let menuHtml = menu_page site opts;
         menu = menu_of menuHtml;
         targets = dana_targets opts menu;
         first = mapPool targets (\<lambda>t. fetch_page site menuHtml t 1);
         jobs = page_jobs first;
         rest = mapPool jobs (\<lambda>(ti, page). fetch_page site menuHtml (targets ! ti) page);
         perTarget = map (\<lambda>(ti, r). r # map snd (filter (\<lambda>jr. fst (fst jr) = ti) (zip jobs rest))) (enumerate 0 first);
         merged = foldl merge_target [] (zip targets perTarget);
         asked = map (\<lambda>t. (t, 1)) targets @ map (\<lambda>(ti, page). (targets ! ti, page)) jobs
     in \<lparr>sf_store = Dana, sf_city = la ''Aktau'', sf_capturedAt = stamp,
         sf_errorCount = menu_errors opts menu + length (filter is_error first) + length (filter is_error rest),
         sf_stats = [(la ''mode'', JStr (mode_name (mode_of_opts opts))), (la ''pages'', jnat (pages_fetched site menuHtml asked)),
           (la ''roots'', jnat (if mode_of_opts opts = DanaSections then 1 else length (nullish (da_roots opts) DANA_ROOTS))),
           (la ''sections'', jnat (length (filter (\<lambda>t. tg_sectionPath t \<noteq> None) targets))),
           (la ''concurrency'', jnat (da_concurrency opts))],
         sf_products = map with_sections (map snd merged)\<rparr>)"

section \<open>Lemmas\<close>

lemma parse_card_good: "parse_card u path box = Some p \<Longrightarrow> good_product p"
  by (auto simp: parse_card_def Let_def good_product_def split: option.splits if_splits)

lemma parseDanaPage_good: "p \<in> set (parseDanaPage html path) \<Longrightarrow> good_product p"
  by (auto simp: parseDanaPage_def in_map_filter dest: parse_card_good)

text \<open>The collected products: distinct, each under its identifier, each well formed.\<close>

definition dana_ok :: "dana_products \<Rightarrow> bool" where
  "dana_ok m \<longleftrightarrow> distinct (js_keys m) \<and> (\<forall>(i, p, ss) \<in> set m. sp_id p = i \<and> good_product p)"

lemma dana_ok_entry: "dana_ok m \<Longrightarrow> map_of m i = Some (q, ss) \<Longrightarrow> sp_id q = i \<and> good_product q"
  by (auto simp: dana_ok_def dest!: map_of_SomeD)

lemma set_update_subset: "set (AList.update k v m) \<subseteq> insert (k, v) (set m)"
  by (induction m) auto

lemma take_card_ok:
  assumes ok: "dana_ok m" and p: "good_product p"
  shows "dana_ok (take_card s m p)"
proof (cases "map_of m (sp_id p)")
  case None
  then have "take_card s m p = m @ [(sp_id p, p, add_section s [])]" by (simp add: take_card_def)
  with None ok p show ?thesis by (auto simp: dana_ok_def map_of_eq_None_iff)
next
  case (Some e)
  obtain q ss where e: "e = (q, ss)" by fastforce
  let ?m = "AList.update (sp_id p) (q, add_section s ss) m"
  have m: "take_card s m p = ?m" using Some e by (simp add: take_card_def)
  have q: "sp_id q = sp_id p \<and> good_product q" using dana_ok_entry ok Some e by blast
  have "sp_id q' = i \<and> good_product q'" if "(i, q', ss') \<in> set ?m" for i q' ss'
  proof (cases "(i, q', ss') = (sp_id p, q, add_section s ss)")
    case False
    then have "(i, q', ss') \<in> set m" using subsetD [OF set_update_subset that] by blast
    with ok show ?thesis by (auto simp: dana_ok_def)
  qed (use q in simp)
  moreover have "distinct (js_keys ?m)" using ok by (simp add: dana_ok_def distinct_update)
  ultimately show ?thesis unfolding m dana_ok_def by blast
qed

lemma foldl_take_card_ok: "dana_ok m \<Longrightarrow> list_all good_product ps \<Longrightarrow> dana_ok (foldl (take_card s) m ps)"
  by (induction ps arbitrary: m) (simp_all add: take_card_ok)

text \<open>What has been seen stays, with its sections.\<close>

definition seen_in :: "jstr \<Rightarrow> dana_products \<Rightarrow> jstr \<Rightarrow> bool" where
  "seen_in s m i \<longleftrightarrow> (\<exists>q ss. map_of m i = Some (q, ss) \<and> s \<in> set ss)"

lemma add_section_keeps: "x \<in> set ss \<Longrightarrow> x \<in> set (add_section s ss)"
  by (auto simp: add_section_def split: option.split)

lemma take_card_keeps: "seen_in x m i \<Longrightarrow> seen_in x (take_card s m p) i"
  by (auto simp: seen_in_def take_card_def update_conv' map_add_def add_section_keeps split: option.splits)

lemma take_card_sees: "x \<noteq> [] \<Longrightarrow> seen_in x (take_card (Some x) m p) (sp_id p)"
  by (cases "map_of m (sp_id p)") (auto simp: seen_in_def take_card_def update_conv' map_add_def add_section_def)

lemma foldl_take_card_keeps: "seen_in x m i \<Longrightarrow> seen_in x (foldl (take_card s) m ps) i"
  by (induction ps arbitrary: m) (simp_all add: take_card_keeps)

lemma foldl_take_card_sees: "x \<noteq> [] \<Longrightarrow> p \<in> set ps \<Longrightarrow> seen_in x (foldl (take_card (Some x)) m ps) (sp_id p)"
  by (induction ps arbitrary: m) (auto simp: foldl_take_card_keeps take_card_sees)

lemma foldl_merge_keeps: "seen_in x m i \<Longrightarrow> seen_in x (foldl merge_target m trs) i"
  by (induction trs arbitrary: m) (simp_all add: merge_target_def foldl_take_card_keeps)

lemma foldl_merge_sees:
  assumes "(t, rs) \<in> set trs" and "tg_sectionPath t = Some x" and "x \<noteq> []" and "r \<in> set rs" and "p \<in> set (answer_products r)"
  shows "seen_in x (foldl merge_target m trs) (sp_id p)"
  using assms(1)
proof (induction trs arbitrary: m)
  case (Cons tr trs)
  show ?case
  proof (cases "tr = (t, rs)")
    case True
    have "seen_in x (merge_target m tr) (sp_id p)"
      using assms(2-5) by (auto simp: True merge_target_def intro!: foldl_take_card_sees)
    then show ?thesis by (simp add: foldl_merge_keeps)
  next
    case False
    with Cons show ?thesis by simp
  qed
qed simp

lemma foldl_merge_ok:
  "dana_ok m \<Longrightarrow> list_all (\<lambda>tr. \<forall>r \<in> set (snd tr). list_all good_product (answer_products r)) trs \<Longrightarrow>
   dana_ok (foldl merge_target m trs)"
proof (induction trs arbitrary: m)
  case (Cons tr trs)
  have "dana_ok (merge_target m tr)"
    unfolding merge_target_def by (rule foldl_take_card_ok) (use Cons.prems in \<open>auto simp: list_all_iff\<close>)
  with Cons show ?case by simp
qed simp

lemma fetch_page_good: "list_all good_product (answer_products (fetch_page site menu t page))"
  by (auto simp: fetch_page_def Let_def list_all_iff split: sum.splits dest: parseDanaPage_good)

lemma ids_with_sections: "dana_ok m \<Longrightarrow> map sp_id (map with_sections (map snd m)) = js_keys m"
  by (induction m) (auto simp: dana_ok_def with_sections_def)

lemma good_with_sections: "good_product (with_sections e) = good_product (fst e)"
  by (simp add: with_sections_def good_product_def split: option.split)

text \<open>The sections a product was seen in are those the scope computation reads.\<close>

lemma sections_round_trip: "danaSections (with_sections (q, ss)) = filter (\<lambda>s. s \<noteq> []) (js_sort str_le ss)"
proof -
  have "List.map_filter string_of (map JStr xs) = filter (\<lambda>s. s \<noteq> []) xs" for xs
    by (induction xs) (simp_all add: List.map_filter_simps)
  then show ?thesis by (simp add: danaSections_def with_sections_def obj_get_def update_conv')
qed

text \<open>The pages of a target as they end up in its row: the first, and the later ones in order.\<close>

definition later_pages :: "page_answer \<Rightarrow> nat list" where
  "later_pages r = (case r of DanaProducts _ n \<Rightarrow> [2..<Suc n] | _ \<Rightarrow> [])"

lemma jobs_of_target:
  "filter (\<lambda>j. fst j = ti) (concat (map (\<lambda>(ti, r). map (Pair ti) (later_pages r)) (enumerate k rs))) =
    (if k \<le> ti \<and> ti < k + length rs then map (Pair ti) (later_pages (rs ! (ti - k))) else [])"
proof (induction rs arbitrary: k)
  case (Cons r rs)
  have "filter (\<lambda>j. fst j = ti) (map (Pair k) xs) = (if k = ti then map (Pair ti) xs else [])" for xs :: "nat list"
    by (induction xs) auto
  with Cons show ?case by (auto simp: nth_Cons' Suc_le_eq)
qed auto

lemma page_jobs_eq: "page_jobs first = concat (map (\<lambda>(ti, r). map (Pair ti) (later_pages r)) (enumerate 0 first))"
  unfolding page_jobs_def by (rule arg_cong [of _ _ concat], rule map_cong) (auto simp: later_pages_def split: page_answer.split)

lemma answers_of_target:
  assumes "ti < length first"
  shows "map snd (filter (\<lambda>jr. fst (fst jr) = ti) (zip (page_jobs first) (map g (page_jobs first)))) =
    map (\<lambda>page. g (ti, page)) (later_pages (first ! ti))"
proof -
  have "filter (\<lambda>jr. fst (fst jr) = ti) (zip js (map g js)) = map (\<lambda>j. (j, g j)) (filter (\<lambda>j. fst j = ti) js)" for js :: "(nat \<times> nat) list"
    by (induction js) auto
  then show ?thesis using assms by (simp add: page_jobs_eq jobs_of_target comp_def)
qed

section \<open>The whole scrape\<close>

definition dana_row :: "dana_site \<Rightarrow> dana_html option \<Rightarrow> dana_target \<Rightarrow> page_answer list" where
  "dana_row site menuHtml t =
    (let r = fetch_page site menuHtml t 1 in r # map (fetch_page site menuHtml t) (later_pages r))"

lemma perTarget_rows:
  fixes site :: dana_site and menuHtml :: "dana_html option" and targets :: "dana_target list"
  defines "first \<equiv> map (\<lambda>t. fetch_page site menuHtml t 1) targets"
  shows "map (\<lambda>(ti, r). r # map snd (filter (\<lambda>jr. fst (fst jr) = ti)
      (zip (page_jobs first) (map (\<lambda>(ti, page). fetch_page site menuHtml (targets ! ti) page) (page_jobs first)))))
    (enumerate 0 first) = map (dana_row site menuHtml) targets"
proof (rule nth_equalityI)
  fix i assume "i < length (map (\<lambda>(ti, r). r # map snd (filter (\<lambda>jr. fst (fst jr) = ti)
      (zip (page_jobs first) (map (\<lambda>(ti, page). fetch_page site menuHtml (targets ! ti) page) (page_jobs first)))))
    (enumerate 0 first))"
  then have "i < length first" "i < length targets" by (simp_all add: first_def)
  then show "map (\<lambda>(ti, r). r # map snd (filter (\<lambda>jr. fst (fst jr) = ti)
      (zip (page_jobs first) (map (\<lambda>(ti, page). fetch_page site menuHtml (targets ! ti) page) (page_jobs first)))))
    (enumerate 0 first) ! i = map (dana_row site menuHtml) targets ! i"
    by (simp add: nth_enumerate_eq answers_of_target dana_row_def Let_def first_def)
qed (simp add: first_def)

text \<open>The file in terms of the rows.\<close>

lemma scrapeDana_products:
  "sf_products (scrapeDana site stamp opts) =
    (let menuHtml = menu_page site opts; targets = dana_targets opts (menu_of menuHtml)
     in map with_sections (map snd (foldl merge_target [] (zip targets (map (dana_row site menuHtml) targets)))))"
  unfolding scrapeDana_def mapPool_def Let_def perTarget_rows by simp

lemma scrapeDana_errors:
  fixes site :: dana_site
  assumes "sf_errorCount (scrapeDana site stamp opts) = 0"
  defines "menuHtml \<equiv> menu_page site opts"
  shows "menu_errors opts (menu_of menuHtml) = 0"
    and "t \<in> set (dana_targets opts (menu_of menuHtml)) \<Longrightarrow> r \<in> set (dana_row site menuHtml t) \<Longrightarrow> \<not> is_error r"
proof -
  let ?ts = "dana_targets opts (menu_of menuHtml)"
  let ?first = "map (\<lambda>t. fetch_page site menuHtml t 1) ?ts"
  let ?g = "\<lambda>(ti, page). fetch_page site menuHtml (?ts ! ti) page"
  have sum: "menu_errors opts (menu_of menuHtml) + length (filter is_error ?first) +
      length (filter is_error (map ?g (page_jobs ?first))) = 0"
    using assms(1) by (simp add: scrapeDana_def mapPool_def Let_def menuHtml_def)
  then show "menu_errors opts (menu_of menuHtml) = 0" by simp
  assume t: "t \<in> set ?ts" and r: "r \<in> set (dana_row site menuHtml t)"
  then obtain ti where ti: "ti < length ?ts" "?ts ! ti = t" by (auto simp: in_set_conv_nth)
  have first: "\<not> is_error x" if "x \<in> set ?first" for x using sum that by (auto simp: filter_empty_conv)
  have rest: "\<not> is_error (?g j)" if "j \<in> set (page_jobs ?first)" for j using sum that by (auto simp: filter_empty_conv)
  have "(ti, page) \<in> set (page_jobs ?first)" if "page \<in> set (later_pages (?first ! ti))" for page
    unfolding page_jobs_eq using ti(1) that by (force simp: in_set_enumerate_eq)
  then have "\<not> is_error (fetch_page site menuHtml t page)" if "page \<in> set (later_pages (fetch_page site menuHtml t 1))" for page
    using rest [of "(ti, page)"] that ti by simp
  moreover have "\<not> is_error (fetch_page site menuHtml t 1)" using first t by auto
  ultimately show "\<not> is_error r" using r by (auto simp: dana_row_def Let_def)
qed

definition dana_merged :: "dana_site \<Rightarrow> dana_opts \<Rightarrow> dana_products" where
  "dana_merged site opts =
    (let menuHtml = menu_page site opts; targets = dana_targets opts (menu_of menuHtml)
     in foldl merge_target [] (zip targets (map (dana_row site menuHtml) targets)))"

lemma scrapeDana_merged: "sf_products (scrapeDana site stamp opts) = map with_sections (map snd (dana_merged site opts))"
  by (simp only: scrapeDana_products dana_merged_def Let_def)

lemma dana_merged_ok: "dana_ok (dana_merged site opts)"
  unfolding dana_merged_def Let_def
proof (rule foldl_merge_ok)
  let ?ts = "dana_targets opts (menu_of (menu_page site opts))"
  show "list_all (\<lambda>tr. \<forall>r \<in> set (snd tr). list_all good_product (answer_products r)) (zip ?ts (map (dana_row site (menu_page site opts)) ?ts))"
    by (auto simp: list_all_iff [of _ "zip _ _"] dana_row_def Let_def fetch_page_good dest!: set_zip_rightD)
qed (simp add: dana_ok_def)

lemma scrapeDana_clean:
  "distinct (map sp_id (sf_products (scrapeDana site stamp opts))) \<and> list_all good_product (sf_products (scrapeDana site stamp opts))"
proof -
  have "distinct (map sp_id (map with_sections (map snd (dana_merged site opts))))"
    unfolding ids_with_sections [OF dana_merged_ok] using dana_merged_ok [of site opts] by (simp add: dana_ok_def)
  moreover have "list_all good_product (map with_sections (map snd (dana_merged site opts)))"
    using dana_merged_ok [of site opts] by (auto simp: dana_ok_def list_all_iff good_with_sections)
  ultimately show ?thesis by (simp add: scrapeDana_merged del: map_map)
qed

text \<open>Every product of a page of a section's row is in the file, with the section among its own.\<close>

lemma row_products_kept:
  assumes "t \<in> set (dana_targets opts (menu_of (menu_page site opts)))" and "tg_sectionPath t = Some path" and "path \<noteq> []"
    and "r \<in> set (dana_row site (menu_page site opts) t)" and "p \<in> set (answer_products r)"
  shows "\<exists>q \<in> set (sf_products (scrapeDana site stamp opts)). sp_id q = sp_id p \<and> path \<in> set (danaSections q)"
proof -
  let ?ts = "dana_targets opts (menu_of (menu_page site opts))"
  have "(t, dana_row site (menu_page site opts) t) \<in> set (zip ?ts (map (dana_row site (menu_page site opts)) ?ts))"
    using assms(1) by (force simp: set_zip in_set_conv_nth)
  then have "seen_in path (dana_merged site opts) (sp_id p)"
    unfolding dana_merged_def Let_def using assms(2-5) by (rule foldl_merge_sees)
  then obtain q ss where q: "map_of (dana_merged site opts) (sp_id p) = Some (q, ss)" "path \<in> set ss"
    by (auto simp: seen_in_def)
  have "with_sections (q, ss) \<in> set (sf_products (scrapeDana site stamp opts))"
    unfolding scrapeDana_merged using map_of_SomeD [OF q(1)] by force
  moreover have "sp_id (with_sections (q, ss)) = sp_id p"
    using dana_ok_entry [OF dana_merged_ok q(1)] by (simp add: with_sections_def)
  moreover have "path \<in> set (danaSections (with_sections (q, ss)))" using q(2) assms(3) by (simp add: sections_round_trip)
  ultimately show ?thesis by blast
qed

end
