(* ===== verification/ScrapeProperties.thy ===== *)
theory ScrapeProperties
  imports DanaCrawl
begin

text \<open>
  The properties of the pipeline up to a shop's file: fetching politely, the worker pool, the
  walk over a shop, the file that is written, and the scope computed from a full scrape.
\<close>

section \<open>Fetching\<close>

text \<open>Fetching a page, with its pauses, is the same as: make attempts in order until one succeeds or
  fails for good, the last allowed one deciding otherwise; wait the plain delay before the
  first and the delay times a doubling factor before each later one.\<close>

theorem polite_fetch_is_first_settled:
  "politeFetch url delayMs retries fetch =
    (fetch_reference url fetch [0..<Suc retries], map (pause_before delayMs) (attempts_made url fetch [0..<Suc retries]))"
  by (rule prod_eqI) (simp_all add: politeFetch_def fetch_loop_reference fetch_loop_waits del: upt_Suc)

section \<open>The pool of workers\<close>

text \<open>C38: Whatever order the running calls resolve in, a pool that has finished holds exactly the results
  of the calls in the order of the items, as mapping the function over the list would, after
  as many resolutions as there are items.\<close>

theorem pool_refines_map:
  assumes "pool_run (\<lambda>i. fn (items ! i)) (pool_start limit (length items)) k t" and "pool_done t"
  shows "map the (pl_results t) = mapPool items fn \<and> None \<notin> set (pl_results t) \<and> k = length items"
proof -
  let ?f = "\<lambda>i. fn (items ! i)" and ?n = "length items"
  have inv: "pool_inv ?f ?n (worker_count limit ?n) t"
    by (rule pool_run_inv [OF assms(1) pool_start_inv])
  have pos: "0 < worker_count limit ?n" by (simp add: worker_count_def)
  have res: "pl_results t = map (\<lambda>i. Some (?f i)) [0..<?n]" and all: "completed t = ?n"
    using pool_done_results [OF inv assms(2) pos] by blast+
  have "k = ?n" using pool_run_completed [OF assms(1) pool_start_inv] all by (simp add: completed_start)
  then show ?thesis by (auto simp: res mapPool_def comp_def intro!: nth_equalityI)
qed

theorem pool_refines_map_witness:
  "pool_done (resume_worker (\<lambda>i. [7, 8::nat] ! i) 0 1 (resume_worker (\<lambda>i. [7, 8] ! i) 0 0 (pool_start 1 2))) \<and>
   map the (pl_results (resume_worker (\<lambda>i. [7, 8::nat] ! i) 0 1 (resume_worker (\<lambda>i. [7, 8] ! i) 0 0 (pool_start 1 2)))) = [7, 8]"
proof -
  let ?f = "\<lambda>i. [7, 8::nat] ! i"
  let ?s = "pool_start 1 2" let ?t = "resume_worker ?f 0 0 ?s" let ?u = "resume_worker ?f 0 1 ?t"
  have s: "?s = \<lparr>pl_next = 1, pl_workers = [Some 0], pl_results = [None, None]\<rparr>"
    by (simp add: pool_start_def worker_count_def numeral_2_eq_2)
  have t: "?t = \<lparr>pl_next = 2, pl_workers = [Some 1], pl_results = [Some 7, None]\<rparr>"
    unfolding s by (simp add: resume_worker_def)
  have u: "?u = \<lparr>pl_next = 2, pl_workers = [None], pl_results = [Some 7, Some 8]\<rparr>"
    unfolding t by (simp add: resume_worker_def)
  have "pool_step ?f ?s ?t" unfolding s by (rule resolve) simp_all
  moreover have "pool_step ?f ?t ?u" unfolding t by (rule resolve) simp_all
  ultimately have run: "pool_run ?f ?s 2 ?u"
    unfolding numeral_2_eq_2 by (blast intro: run_start run_step)
  have fin: "pool_done ?u" unfolding u by (simp add: pool_done_def)
  show ?thesis
    using pool_refines_map [of "\<lambda>x. x" "[7, 8]" 1 2 ?u] run fin by (simp add: mapPool_def numeral_2_eq_2)
qed

text \<open>The pool always finishes: at any moment at most as many calls run as there are workers, at most
  one per item has resolved, and while the pool is not done another can resolve, so every
  schedule ends after one resolution per item.\<close>

theorem pool_terminates:
  assumes "pool_run fn (pool_start limit n) k t"
  shows "k \<le> n \<and> length (in_flight t) \<le> worker_count limit n \<and> (pool_done t \<or> (\<exists>u. pool_run fn (pool_start limit n) (Suc k) u))"
proof -
  have inv: "pool_inv fn n (worker_count limit n) t" by (rule pool_run_inv [OF assms pool_start_inv])
  have "completed t = k" using pool_run_completed [OF assms pool_start_inv] by (simp add: completed_start)
  moreover have "pl_next t \<le> n" "length (pl_workers t) = worker_count limit n"
    using inv unfolding pool_inv_def by blast+
  moreover have "completed t \<le> pl_next t" by (simp add: completed_def)
  ultimately show ?thesis
    using in_flight_le_workers [of t] pool_progress [of t fn] assms by (auto intro: run_step)
qed

theorem pool_terminates_witness:
  "0 \<le> (3::nat) \<and> length (in_flight (pool_start 2 3 :: nat pool)) \<le> worker_count 2 3 \<and>
   (pool_done (pool_start 2 3 :: nat pool) \<or> (\<exists>u. pool_run (\<lambda>i. i) (pool_start 2 3) (Suc 0) u))"
  by (rule pool_terminates [OF run_start])

section \<open>The file of a shop\<close>

text \<open>C40: A shop's file is accepted exactly when it satisfies the schema, has products and no two of them
  have the same trimmed identifier; everything else is refused, so no empty, duplicated or
  ill-priced file is ever written.\<close>

theorem validation_exact:
  "((\<exists>g. validate is_url is_datetime f = Inr g) \<longleftrightarrow>
      parseFile is_url is_datetime f \<noteq> None \<and> sf_products f \<noteq> [] \<and> distinct (map (\<lambda>p. trim (sp_id p)) (sf_products f))) \<and>
   (validate is_url is_datetime f = Inl ZodError \<longleftrightarrow> parseFile is_url is_datetime f = None)"
proof (cases "parseFile is_url is_datetime f")
  case None
  then show ?thesis by (simp add: validate_def)
next
  case (Some g)
  then obtain ps where ps: "all_some (parseProduct is_url) (sf_products f) = Some ps" "g = f\<lparr>sf_products := ps\<rparr>"
    by (rule parseFile_SomeE)
  have ids: "all_some (parseProduct is_url) xs = Some ys \<Longrightarrow> map sp_id ys = map (\<lambda>p. trim (sp_id p)) xs" for xs ys
    proof (induction xs arbitrary: ys)
    case (Cons x xs)
    then show ?case unfolding all_some_Cons by (auto simp: parseProduct_Some trimmed_Some)
  qed simp
  have "map sp_id (sf_products g) = map (\<lambda>p. trim (sp_id p)) (sf_products f)" using ids [OF ps(1)] by (simp add: ps(2))
  moreover from this have "sf_products g = [] \<longleftrightarrow> sf_products f = []" by (metis map_is_Nil_conv)
  ultimately show ?thesis
    using Some first_duplicate_None [of "[]" "map (\<lambda>p. trim (sp_id p)) (sf_products f)"]
    by (auto simp: validate_def split: option.splits)
qed

text \<open>C34: Writing a shop's file is crash-safe and reading returns what was written: whatever moment the
  write is interrupted at, the file holds its old content or the complete new one, and after
  the write reading it gives the validated file, which has positive prices and distinct
  identifiers. The text written for this one file must be JSON that reads back as the file: JSON
  has no NaN, Infinity or undefined, so a file that holds such a value among its raw data or its
  statistics is not covered.\<close>

theorem source_file_survives_a_crash:
  assumes "writeSourceFile is_url is_datetime render path file = Inr ops"
    and "crash ops fs fs'"
    and "\<And>valid. validate is_url is_datetime file = Inr valid \<Longrightarrow> decode (render valid) = Some valid"
  shows "\<exists>valid. validate is_url is_datetime file = Inr valid \<and> sound_file valid \<and>
     (fs' path = fs path \<or> readSourceFile is_url is_datetime decode fs' path = Inr valid) \<and>
     readSourceFile is_url is_datetime decode (foldl (\<lambda>fs op. fs_apply op fs) fs ops) path = Inr valid"
proof -
  obtain valid where v: "validate is_url is_datetime file = Inr valid" and ops: "ops = atomicWrite path (render valid)"
    using assms(1) by (auto simp: writeSourceFile_def result_simps)
  have read: "readSourceFile is_url is_datetime decode fs path = Inr valid" if "fs path = Some (render valid)" for fs
    using that validate_idem [OF v] by (simp add: readSourceFile_def assms(3) [OF v])
  have after: "readSourceFile is_url is_datetime decode (foldl (\<lambda>fs op. fs_apply op fs) fs ops) path = Inr valid"
    unfolding ops by (rule read) (rule atomicWrite_done)
  have "fs' path = fs path \<or> readSourceFile is_url is_datetime decode fs' path = Inr valid"
    using atomicWrite_crash [OF assms(2) [unfolded ops]] read by blast
  with v validate_sound [OF v] after show ?thesis by blast
qed

definition sample_file :: source_file where
  "sample_file = plain_file Dina [plain_product (la ''1'') (la ''milk'') 500 []]"

lemma sample_file_valid: "validate (\<lambda>_. True) (\<lambda>_. True) sample_file = Inr sample_file"
  by code_simp

text \<open>A text that keeps the identifiers only: it stands for this file, and not for every file.\<close>

definition sample_render :: "source_file \<Rightarrow> jstr" where
  "sample_render f = concat (map sp_id (sf_products f))"

definition sample_decode :: "jstr \<Rightarrow> source_file option" where
  "sample_decode t = (if t = la ''1'' then Some sample_file else None)"

theorem source_file_survives_a_crash_witness:
  "sound_file sample_file \<and>
   readSourceFile (\<lambda>_. True) (\<lambda>_. True) sample_decode
     (foldl (\<lambda>fs op. fs_apply op fs) Map.empty (atomicWrite (la ''dina.json'') (sample_render sample_file))) (la ''dina.json'') = Inr sample_file"
proof -
  have w: "writeSourceFile (\<lambda>_. True) (\<lambda>_. True) sample_render (la ''dina.json'') sample_file =
      Inr (atomicWrite (la ''dina.json'') (sample_render sample_file))"
    by (simp add: writeSourceFile_def sample_file_valid)
  have "sample_render sample_file = la ''1''" by code_simp
  then have d: "decode = sample_decode \<Longrightarrow> validate (\<lambda>_. True) (\<lambda>_. True) sample_file = Inr valid \<Longrightarrow> decode (sample_render valid) = Some valid" for valid decode
    by (simp add: sample_file_valid sample_decode_def)
  show ?thesis
    using source_file_survives_a_crash [OF w crash_now d [OF refl]] sample_file_valid by auto
qed

section \<open>The scope of a shop\<close>

text \<open>C36: The categories computed for the narrow scrape of Dina cover every published product that has a
  category: one of its categories is among them. They are distinct, each is the category of a
  published product, and the reported count of covered products is exact. The sections of
  Dana likewise, with the products without a section counted apart.\<close>

theorem scopes_cover_the_published_products:
  assumes "distinct (map sp_id (sf_products file))"
  shows "(let ps = scope_products dict Dina scope (sf_products file); s = computeDinaScope le file dict scope stamp in
       list_all (\<lambda>p. dinaCategoryIds p = [] \<or> list_ex (\<lambda>c. c \<in> set (dinaCategoryIds p)) (ds_categoryIds s)) ps \<and>
       distinct (ds_categoryIds s) \<and> list_all (\<lambda>c. list_ex (\<lambda>p. c \<in> set (dinaCategoryIds p)) ps) (ds_categoryIds s) \<and>
       ds_covered s = length (filter (\<lambda>p. dinaCategoryIds p \<noteq> []) ps) \<and> ds_scopeProducts s = length ps) \<and>
     (let ps = scope_products dict Dana scope (filter in_dana_root (sf_products file)); s = computeDanaScope le file dict scope stamp in
       list_all (\<lambda>p. danaSections p = [] \<or> list_ex (\<lambda>c. c \<in> set (danaSections p)) (na_sections s)) ps \<and>
       distinct (na_sections s) \<and> list_all (\<lambda>c. list_ex (\<lambda>p. c \<in> set (danaSections p)) ps) (na_sections s) \<and>
       na_covered s + na_unsectioned s = na_scopeProducts s \<and> na_scopeProducts s = length ps)"
proof -
  have cover: "list_all (\<lambda>p. sections p = [] \<or> list_ex (\<lambda>c. c \<in> set (sections p)) (js_sort ord (fst (greedy_cover cmp (to_cover sections ps))))) ps"
    "distinct (fst (greedy_cover cmp (to_cover sections ps)))"
    "list_all (\<lambda>c. list_ex (\<lambda>p. c \<in> set (sections p)) ps) (fst (greedy_cover cmp (to_cover sections ps)))"
    "snd (greedy_cover cmp (to_cover sections ps)) = length (filter (\<lambda>p. sections p \<noteq> []) ps)"
    if "distinct (map sp_id ps)" for sections ps cmp ord
  proof -
    let ?u = "to_cover sections ps"
    show "list_all (\<lambda>p. sections p = [] \<or> list_ex (\<lambda>c. c \<in> set (sections p)) (js_sort ord (fst (greedy_cover cmp ?u)))) ps"
      using cover_products(1) [OF that, of _ sections] by (fastforce simp: list_all_iff list_ex_iff)
    show "list_all (\<lambda>c. list_ex (\<lambda>p. c \<in> set (sections p)) ps) (fst (greedy_cover cmp ?u))"
      unfolding list_all_iff list_ex_iff
    proof
      fix c assume "c \<in> set (fst (greedy_cover cmp ?u))"
      then obtain e where "e \<in> set ?u" "c \<in> set (snd e)" using greedy_cover_sound by blast
      then show "\<exists>p \<in> set ps. c \<in> set (sections p)" unfolding to_cover_eq [OF that] by auto
    qed
  qed (rule greedy_cover_distinct, rule cover_products(2) [OF that])
  have dina: "distinct (map sp_id (scope_products dict Dina scope (sf_products file)))"
    by (rule scope_products_distinct [OF assms])
  have "distinct (map sp_id (filter in_dana_root (sf_products file)))" using assms by (rule distinct_map_filter)
  then have dana: "distinct (map sp_id (scope_products dict Dana scope (filter in_dana_root (sf_products file))))"
    by (rule scope_products_distinct)
  have split: "length (filter (\<lambda>p. f p \<noteq> []) xs) + length (filter (\<lambda>p. f p = []) xs) = length xs" for f :: "source_product \<Rightarrow> jstr list" and xs
    by (induction xs) simp_all
  show ?thesis
    using cover [OF dina] cover [OF dana] split
    by (simp add: computeDinaScope_def computeDanaScope_def Let_def case_prod_unfold list_all_iff)
qed

definition scope_file :: source_file where
  "scope_file = plain_file Dina
     [plain_product (la ''1'') (la ''milk'') 500 [(la ''categories'', JArr [JObj [(la ''id'', JStr (la ''12''))]])]]"

definition milk_dictionary :: dictionary where
  "milk_dictionary = \<lparr>dc_generatedAt = [], dc_canonicals = [], dc_products = [], dc_storeCategories = [(la ''DINA|'', la ''milk'')]\<rparr>"

lemma scope_file_facts:
  "scope_products milk_dictionary Dina [la ''milk''] (sf_products scope_file) = sf_products scope_file"
  "map dinaCategoryIds (sf_products scope_file) = [[la ''12'']]"
  by code_simp+

theorem scopes_cover_the_published_products_witness:
  "ds_covered (computeDinaScope str_le scope_file milk_dictionary [la ''milk''] []) = 1 \<and>
   list_ex (\<lambda>c. c = la ''12'') (ds_categoryIds (computeDinaScope str_le scope_file milk_dictionary [la ''milk''] []))"
proof -
  obtain p where p: "sf_products scope_file = [p]" by (simp add: scope_file_def plain_file_def)
  have ids: "dinaCategoryIds p = [la ''12'']" using scope_file_facts(2) by (simp add: p)
  have "distinct (map sp_id (sf_products scope_file))" by (simp add: p)
  from scopes_cover_the_published_products [OF this, of milk_dictionary "[la ''milk'']" str_le "[]"]
  moreover have "scope_products milk_dictionary Dina [la ''milk''] [p] = [p]" using scope_file_facts(1) by (simp add: p)
  ultimately show ?thesis by (simp add: Let_def p ids list_ex_iff)
qed

section \<open>Dina\<close>

text \<open>Whatever Dina's servers answer, a scrape that delivers a file delivers one of the fixed shop in
  Aktau with distinct product identifiers, trimmed non-empty names, positive prices and old
  prices above them, after at most ten errors; it delivers none when the shop is not in
  Aktau.\<close>

theorem dina_scrape_is_clean:
  assumes "scrapeDina fuel shop stamp opts = Some (Inr file)"
  shows "dina_file_ok file \<and> (\<exists>shops. ds_shops shop = Inr shops \<and> assertAktauShop shops SHOP_ID = None)"
proof -
  have "\<exists>shops. ds_shops shop = Inr shops \<and> assertAktauShop shops SHOP_ID = None"
    using assms by (auto simp: scrapeDina_def result_simps split: sum.splits option.splits)
  with scrapeDina_ok [OF assms] show ?thesis by blast
qed

definition sample_shop :: dina_shop where
  "sample_shop = \<lparr>ds_shops = Inr [(la ''28'', Some (cap (ru ''aktau'')))], ds_categories = Inr [(la ''5'', la ''c'')], ds_total = Inr JNull,
     ds_page = (\<lambda>c page. Some ([\<lparr>dn_id = Some (la ''1''), dn_xid = None, dn_name = Some (la ''milk''), dn_slug = None, dn_price = JNum (Fin 500),
       dn_oldPrice = JNull, dn_price_type = None, dn_isWeightProduct = False, dn_previewUrl = None, dn_imageUrls = [], dn_categories = [], dn_raw = []\<rparr>], None)),
     ds_post = (\<lambda>q. None), ds_decode = (\<lambda>v. undefined), ds_quote = (\<lambda>s. s)\<rparr>"

theorem dina_scrape_is_clean_witness:
  "\<exists>file. scrapeDina 5 sample_shop [] \<lparr>do_maxPages = 2, do_scopeRoots = None, do_categoryIds = None, do_batchPages = 20\<rparr> = Some (Inr file) \<and>
     length (sf_products file) = 1 \<and> dina_file_ok file"
proof -
  let ?r = "scrapeDina 5 sample_shop [] \<lparr>do_maxPages = 2, do_scopeRoots = None, do_categoryIds = None, do_batchPages = 20\<rparr>"
  have "(case ?r of Some (Inr f) \<Rightarrow> length (sf_products f) = 1 | _ \<Rightarrow> False)" by code_simp
  then obtain f where f: "?r = Some (Inr f)" "length (sf_products f) = 1" by (auto split: option.splits sum.splits)
  show ?thesis using f dina_scrape_is_clean [OF f(1)] by blast
qed

text \<open>The walk over Dina's categories ends, although it appends to the queue it walks: fuel for the categories of
  the menu and for every identifier the shop can name is enough.\<close>

theorem dina_walk_ends:
  assumes "\<And>cat page edges tot e. api cat page = Some (edges, tot) \<Longrightarrow> e \<in> set edges \<Longrightarrow> fst ` set (dn_categories e) \<subseteq> set ids"
    and "length categories + length ids \<le> fuel"
  shows "scrapeDinaRoots fuel categories api scopeRoots maxPages \<noteq> None"
proof -
  let ?queue = "filter (\<lambda>c. inScope scopeRoots (Some (snd c))) categories"
  let ?w = "\<lparr>wk_products = [], wk_errors = 0, wk_pages = 0, wk_queue = ?queue, wk_queued = js_set (map fst ?queue)\<rparr>"
  have inv: "queue_inv ?queue (set ids) ?w" by (simp add: queue_inv_def)
  have fuel: "length ?queue + length ids \<le> 0 + fuel"
    using assms(2) length_filter_le [of "\<lambda>c. inScope scopeRoots (Some (snd c))" categories] by linarith
  have "walk_queue fuel api scopeRoots maxPages 0 ?w \<noteq> None"
  proof (rule walk_queue_ends)
    show "fst ` set (dn_categories e) \<subseteq> set ids" if "api cat page = Some (edges, tot)" "e \<in> set edges" for cat page edges tot e
      using assms(1) that .
  qed (rule inv, rule fuel)
  then show ?thesis by (simp add: scrapeDinaRoots_def Let_def)
qed

text \<open>No batch document is sent that contains a category identifier other than a string of digits: an
  identifier with any other character stops the scrape before the first request.\<close>

theorem only_digits_reach_a_query:
  assumes "buildBatchQuery quote reqs shopId n = Inr q"
  shows "list_all (\<lambda>r. fst r \<noteq> [] \<and> list_all digit_ch (fst r)) reqs"
  using buildBatchQuery_digits [OF assms] by (auto simp: list_all_iff only_digits_iff)

theorem only_digits_reach_a_query_witness:
  "list_all (\<lambda>r. fst r \<noteq> [] \<and> list_all digit_ch (fst r)) [(la ''12'', 1 :: nat), (la ''7'', 2)]"
proof -
  have "(case buildBatchQuery (\<lambda>s. s) [(la ''12'', 1), (la ''7'', 2)] SHOP_ID 24 of Inr q \<Rightarrow> True | _ \<Rightarrow> False)" by code_simp
  then obtain q where "buildBatchQuery (\<lambda>s. s) [(la ''12'', 1), (la ''7'', 2)] SHOP_ID 24 = Inr q" by (auto split: sum.splits)
  then show ?thesis by (rule only_digits_reach_a_query)
qed

section \<open>Dana\<close>


definition milk_page :: dana_html where
  "milk_page = \<lparr>dh_text = [], dh_cards = [\<lparr>dk_href = Some (la ''/7/''), dk_boxId = None, dk_title = la ''milk'', dk_current = la ''500'',
     dk_old = [], dk_style = None\<rparr>], dh_pagination = [], dh_menu = (\<lambda>r. [la ''/catalog/1/''])\<rparr>"

definition milk_site :: dana_site where
  "milk_site path page = (if page = 1 then Inr milk_page else Inl (la ''HTTP 404''))"

definition narrow :: dana_opts where
  "narrow = \<lparr>da_roots = None, da_sections = Some [la ''/catalog/1/''], da_full = False, da_concurrency = 3\<rparr>"

lemma narrow_scrape: "sf_errorCount (scrapeDana milk_site [] narrow) = 0" "length (sf_products (scrapeDana milk_site [] narrow)) = 1"
  by code_simp+


end
