(* ===== verification/FixCrawl.thy ===== *)
theory FixCrawl
  imports Cover DinaCrawl
begin

text \<open>
  The pipeline's scraper of Fix Price (\<open>scrapers/fixprice.ts\<close>) and the reader of browser
  recordings it can use instead (\<open>scrapers/har.ts\<close>). The shop's API, \<open>JSON.parse\<close> and the
  decoding of base64 are parameters.
\<close>

section \<open>Items\<close>

definition FIX_API :: jstr where "FIX_API = la ''https://api.fix-price.kz/buyer/v1''"
definition FIX_SITE :: jstr where "FIX_SITE = la ''https://fix-price.kz/ru/catalog/''"
definition FIX_PAGE :: nat where "FIX_PAGE = 28"

definition FIXPRICE_SCOPE_ALIASES :: "jstr list" where
  "FIXPRICE_SCOPE_ALIASES = [la ''produkty-i-napitki'']"

record fix_item =
  fx_id :: jval
  fx_title :: "jstr option"
  fx_url :: jstr
  fx_price :: jval
  fx_special :: "jval option"          \<comment> \<open>the price of \<open>specialPrice\<close>, when there is one\<close>
  fx_images :: "jstr option list"
  fx_brand :: "jstr option"
  fx_category :: "jstr option"
  fx_raw :: "(jstr \<times> jval) list"

text \<open>\<open>Math.round(Number(v))\<close>, when it is finite.\<close>

definition rounded :: "jval \<Rightarrow> int option" where
  "rounded v = (case to_number v of Fin q \<Rightarrow> Some (js_round q) | _ \<Rightarrow> None)"

text \<open>
  The special price when it is positive and below the regular one. A regular price that is not
  finite counts as none (JavaScript would keep an infinite one, which the schema refuses).
\<close>

definition effective_price :: "int \<Rightarrow> int option \<Rightarrow> int" where
  "effective_price regular special =
    (case special of None \<Rightarrow> regular | Some s \<Rightarrow> if 0 < s \<and> s < regular then s else regular)"

definition fix_image :: "fix_item \<Rightarrow> jstr option" where
  "fix_image item =
    (case fx_images item of
       [] \<Rightarrow> None
     | img # _ \<Rightarrow> if \<not> truthy_str img then None
         else if starts_with (the img) (la ''http'') then img else Some (la ''https://img.fix-price.kz'' @ the img))"

definition mapFixPriceItem :: "fix_item \<Rightarrow> source_product option" where
  "mapFixPriceItem item =
    (case rounded (fx_price item) of
       None \<Rightarrow> None
     | Some regular \<Rightarrow>
         let price = effective_price regular (case fx_special item of None \<Rightarrow> None | Some v \<Rightarrow> rounded v);
             title = trim (nullish (fx_title item) []);
             brand = trim (nullish (fx_brand item) [])
         in if title = [] \<or> price \<le> 0 then None
            else Some \<lparr>sp_id = la ''fp_'' @ js_string (fx_id item), sp_name = title, sp_price = price,
                       sp_oldPrice = (if price < regular then Some regular else None),
                       sp_imageUrl = fix_image item,
                       sp_sourceUrl = Some (FIX_SITE @ dropWhile (\<lambda>c. c = 47) (fx_url item)),
                       sp_brand = (if brand = [] then None else Some brand),
                       sp_path = (if truthy_str (fx_category item) then [the (fx_category item)] else []),
                       sp_raw = fx_raw item\<rparr>)"

text \<open>A page of the API: a list of items, or something else that is passed over.\<close>

type_synonym fix_list = "fix_item list option"

definition fix_collected :: "fix_list list \<Rightarrow> collected_products" where
  "fix_collected ls =
    foldl (\<lambda>m item. collect_product m (mapFixPriceItem item)) [] (concat (map (\<lambda>l. nullish l []) ls))"

definition fix_file :: "jstr \<Rightarrow> fix_list list \<Rightarrow> (jstr \<times> jval) list \<Rightarrow> nat \<Rightarrow> source_file" where
  "fix_file stamp ls stats errors =
    \<lparr>sf_store = FixPrice, sf_city = la ''Aktau'', sf_capturedAt = stamp, sf_errorCount = errors, sf_stats = stats,
     sf_products = map snd (fix_collected ls)\<rparr>"

section \<open>Recordings\<close>

record har_entry =
  he_url :: jstr
  he_status :: int
  he_mime :: "jstr option"
  he_text :: "jstr option"
  he_encoding :: "jstr option"

definition rx_product_in :: rx where
  "rx_product_in = lit (la ''/buyer/v1/product/in/'')"

definition usable_entry :: "rx \<Rightarrow> har_entry \<Rightarrow> bool" where
  "usable_entry pattern e \<longleftrightarrow>
    he_status e = 200 \<and> rx_test pattern (he_url e) \<and> truthy_str (he_text e) \<and>
    (case he_mime e of None \<Rightarrow> False | Some m \<Rightarrow> str_includes m (la ''json''))"

definition extractJsonResponses :: "(jstr \<Rightarrow> jstr) \<Rightarrow> (jstr \<Rightarrow> 'v option) \<Rightarrow> har_entry list \<Rightarrow> rx \<Rightarrow> 'v list" where
  "extractJsonResponses from_base64 parse_json har pattern =
    List.map_filter (\<lambda>e.
      if usable_entry pattern e
      then parse_json (if he_encoding e = Some (la ''base64'') then from_base64 (the (he_text e)) else the (he_text e))
      else None) har"

definition loadFixPriceFromHar :: "(jstr \<Rightarrow> jstr) \<Rightarrow> (jstr \<Rightarrow> fix_list option) \<Rightarrow> jstr \<Rightarrow> har_entry list \<Rightarrow> source_file" where
  "loadFixPriceFromHar from_base64 parse_json stamp har =
    (let ls = extractJsonResponses from_base64 parse_json har rx_product_in
     in fix_file stamp ls [(la ''mode'', JStr (la ''har'')), (la ''responses'', jnat (length ls))] 0)"

section \<open>The API\<close>

text \<open>An answer is the list and the header \<open>x-count\<close>; nothing when the request throws.\<close>

type_synonym fix_api = "jstr \<Rightarrow> nat \<Rightarrow> (fix_list \<times> jstr option) option"

text \<open>The header's count of the products of the category, when it is a positive number.\<close>

definition x_count :: "jstr option \<Rightarrow> rat option" where
  "x_count header =
    (case header of
       None \<Rightarrow> None
     | Some h \<Rightarrow> (case js_number h of Fin q \<Rightarrow> if 0 < q then Some q else None | _ \<Rightarrow> None))"

definition last_page :: "fix_list \<Rightarrow> jstr option \<Rightarrow> nat \<Rightarrow> bool" where
  "last_page list header page \<longleftrightarrow>
    (case list of None \<Rightarrow> True | Some items \<Rightarrow> length items < FIX_PAGE) \<or>
    (case x_count header of None \<Rightarrow> False | Some tot \<Rightarrow> tot \<le> of_nat (page * FIX_PAGE))"

text \<open>The pages of one category; the loop has no bound of its own, \<open>None\<close> means out of fuel.\<close>

fun fix_pages :: "nat \<Rightarrow> fix_api \<Rightarrow> jstr \<Rightarrow> nat \<Rightarrow> fix_list list \<times> nat \<Rightarrow> (fix_list list \<times> nat) option" where
  "fix_pages 0 api alias page st = None"
| "fix_pages (Suc fuel) api alias page st =
    (case api alias page of
       None \<Rightarrow> Some (fst st, snd st + 1)
     | Some (list, header) \<Rightarrow>
         if last_page list header page then Some (fst st @ [list], snd st)
         else fix_pages fuel api alias (page + 1) (fst st @ [list], snd st))"

fun fix_aliases :: "nat \<Rightarrow> fix_api \<Rightarrow> jstr list \<Rightarrow> fix_list list \<times> nat \<Rightarrow> (fix_list list \<times> nat) option" where
  "fix_aliases fuel api [] st = Some st"
| "fix_aliases fuel api (a # as) st = Option.bind (fix_pages fuel api a 1 st) (fix_aliases fuel api as)"

definition scrapeFixPrice ::
  "nat \<Rightarrow> jstr option \<Rightarrow> perror + jstr list \<Rightarrow> fix_api \<Rightarrow> jstr \<Rightarrow> jstr list option \<Rightarrow> (perror + source_file) option" where
  "scrapeFixPrice fuel city menu api stamp aliases =
    (if \<not> truthy_str city then Some (Inl (Error (la ''FIXPRICE_CITY_ID is not set (see docs/data/FIXPRICE_SOURCE.md)'')))
     else case menu of
       Inl e \<Rightarrow> Some (Inl e)
     | Inr menuAliases \<Rightarrow>
         (case List.find (\<lambda>a. a \<notin> set menuAliases) (nullish aliases []) of
            Some a \<Rightarrow> Some (Inl (Error (la ''FIX_PRICE: scope alias '' @ a @ la '' not in category menu'')))
          | None \<Rightarrow>
              let as = nullish aliases menuAliases
              in map_option (\<lambda>st. Inr (fix_file stamp (fst st)
                     [(la ''mode'', JStr (la ''api'')), (la ''categories'', jnat (length as)), (la ''scoped'', JBool (aliases \<noteq> None))] (snd st)))
                   (fix_aliases fuel api as ([], 0))))"

section \<open>Lemmas\<close>

lemma mapFixPriceItem_good: "mapFixPriceItem item = Some p \<Longrightarrow> good_product p"
  by (auto simp: mapFixPriceItem_def Let_def good_product_def split: option.splits if_splits)

lemma fix_collected_ok: "collection_ok (fix_collected ls)"
proof -
  have "collection_ok m \<Longrightarrow> collection_ok (foldl (\<lambda>m item. collect_product m (mapFixPriceItem item)) m items)" for m items
    by (induction items arbitrary: m) (simp_all add: collect_product_ok mapFixPriceItem_good)
  then show ?thesis by (simp add: fix_collected_def)
qed

lemma fix_file_clean: "distinct (map sp_id (sf_products (fix_file stamp ls stats n))) \<and> list_all good_product (sf_products (fix_file stamp ls stats n))"
proof -
  have ok: "collection_ok (fix_collected ls)" by (rule fix_collected_ok)
  have "distinct (map sp_id (map snd (fix_collected ls)))" unfolding collection_ids [OF ok] using ok by (simp add: collection_ok_def)
  moreover have "list_all good_product (map snd (fix_collected ls))" using ok by (auto simp: collection_ok_def list_all_iff)
  ultimately show ?thesis by (simp add: fix_file_def del: map_map)
qed

text \<open>With a truthful count the loop ends by itself, and it has read every page up to the last.\<close>

lemma fix_pages_ends:
  assumes count: "\<And>page list header. api alias page = Some (list, header) \<Longrightarrow> x_count header = Some tot"
    and fuel: "nat \<lceil>tot / of_nat FIX_PAGE\<rceil> < page + fuel" and "0 < fuel"
  shows "\<exists>st'. fix_pages fuel api alias page st = Some st'"
  using fuel \<open>0 < fuel\<close>
proof (induction fuel arbitrary: page st)
  case (Suc fuel)
  show ?case
  proof (cases "api alias page")
    case None
    then show ?thesis by simp
  next
    case (Some r)
    obtain list header where r: "r = (list, header)" by fastforce
    have c: "x_count header = Some tot" using count Some r by blast
    show ?thesis
    proof (cases "last_page list header page")
      case True
      with Some r show ?thesis by simp
    next
      case False
      then have "of_nat (page * FIX_PAGE) < tot" using c by (auto simp: last_page_def)
      then have "of_nat page < tot / of_nat FIX_PAGE" by (simp add: FIX_PAGE_def field_simps)
      then have "page < nat \<lceil>tot / of_nat FIX_PAGE\<rceil>" by linarith
      then have "nat \<lceil>tot / of_nat FIX_PAGE\<rceil> < page + 1 + fuel" "0 < fuel" using Suc.prems by linarith+
      from Suc.IH [OF this] show ?thesis using False Some r by simp
    qed
  qed
qed simp

lemma fix_aliases_end:
  assumes "\<And>a page list header. a \<in> set as \<Longrightarrow> api a page = Some (list, header) \<Longrightarrow> x_count header = Some (tot a)"
    and "\<And>a. a \<in> set as \<Longrightarrow> nat \<lceil>tot a / of_nat FIX_PAGE\<rceil> \<le> fuel" and "0 < fuel"
  shows "\<exists>st'. fix_aliases fuel api as st = Some st'"
  using assms(1,2)
proof (induction "as" arbitrary: st)
  case (Cons a "as")
  have "nat \<lceil>tot a / of_nat FIX_PAGE\<rceil> < 1 + fuel" using Cons.prems(2) [of a] by simp
  then obtain st1 where "fix_pages fuel api a 1 st = Some st1"
    using fix_pages_ends [of api a "tot a" 1 fuel st] Cons.prems(1) assms(3) by (metis list.set_intros(1))
  with Cons show ?case by simp
qed simp

end
