(* ===== verification/Commands.thy ===== *)
theory Commands
  imports Overrides Sync Taxonomy DanaCrawl FixCrawl
begin

text \<open>
  The pipeline's commands (\<open>cli/*.ts\<close>) and what they are decided by (\<open>scrape-policy.ts\<close>,
  \<open>paths.ts\<close>): which way a shop is scraped, which results may be written, how the bundle, the
  dictionary and the scope files come about. The process environment, the clock, the resolving
  of paths and the file system are parameters; a non-zero exit is an error.
\<close>

section \<open>The policy of a scrape\<close>

definition stat_is :: "source_file \<Rightarrow> jstr \<Rightarrow> jval \<Rightarrow> bool" where
  "stat_is f key v \<longleftrightarrow> obj_get (sf_stats f) key = v"

definition isFragileScrape :: "source_file \<Rightarrow> bool" where
  "isFragileScrape f =
    (case sf_store f of
       Dina \<Rightarrow> stat_is f (la ''mode'') (JStr (la ''batch''))
     | FixPrice \<Rightarrow> stat_is f (la ''scoped'') (JBool True)
     | Dana \<Rightarrow> stat_is f (la ''mode'') (JStr (la ''sections''))
     | Anvar \<Rightarrow> False)"

definition assertCompleteScrape :: "bool \<Rightarrow> source_file \<Rightarrow> perror option" where
  "assertCompleteScrape all f =
    (if all \<or> sf_errorCount f = 0 \<or> \<not> isFragileScrape f then None
     else Some (Error (chain_code (sf_store f) @ la '': scoped scrape finished with '' @ show_nat (int (sf_errorCount f)) @
       la '' error(s) ('' @ show_nat (int (length (sf_products f))) @
       la '' products collected) '' @ [8212] @ la '' refusing to write, keeping previous file'')))"

text \<open>A positive whole number from the environment, with a default and a maximum.\<close>

definition positive_setting :: "nat \<Rightarrow> nat \<Rightarrow> jstr option \<Rightarrow> nat" where
  "positive_setting initial maximum env =
    (let raw = trim (nullish env [])
     in if raw = [] then initial
        else case js_number raw of
               Fin n \<Rightarrow> if n \<noteq> of_int \<lfloor>n\<rfloor> \<or> n < 1 then initial
                        else if n > of_nat maximum then maximum else nat \<lfloor>n\<rfloor>
             | _ \<Rightarrow> initial)"

definition resolveDinaBatchPages :: "jstr option \<Rightarrow> nat" where
  "resolveDinaBatchPages env = positive_setting DINA_BATCH_PAGES DINA_BATCH_PAGES env"

definition DANA_CONCURRENCY :: nat where "DANA_CONCURRENCY = 3"
definition DANA_MAX_CONCURRENCY :: nat where "DANA_MAX_CONCURRENCY = 4"

definition resolveDanaConcurrency :: "jstr option \<Rightarrow> nat" where
  "resolveDanaConcurrency env = positive_setting DANA_CONCURRENCY DANA_MAX_CONCURRENCY env"

section \<open>Paths\<close>

text \<open>\<open>resolve\<close> resolves a path against the root of the repository.\<close>

definition dirFromEnv :: "(jstr \<Rightarrow> jstr) \<Rightarrow> jstr option \<Rightarrow> jstr \<Rightarrow> jstr" where
  "dirFromEnv resolve value otherwise =
    (let v = trim (nullish value []) in if v = [] then resolve otherwise else resolve v)"

definition sourcesDir :: "(jstr \<Rightarrow> jstr) \<Rightarrow> jstr option \<Rightarrow> jstr" where
  "sourcesDir resolve env = dirFromEnv resolve env (la ''data/sources'')"

definition syncOutDir :: "(jstr \<Rightarrow> jstr) \<Rightarrow> jstr option \<Rightarrow> jstr" where
  "syncOutDir resolve env = dirFromEnv resolve env (la ''data/sync'')"

definition mappingDir :: "(jstr \<Rightarrow> jstr) \<Rightarrow> jstr" where
  "mappingDir resolve = resolve (la ''data/mapping'')"

text \<open>The file of a shop within a directory.\<close>

definition source_path :: "jstr \<Rightarrow> chain \<Rightarrow> jstr" where
  "source_path dir store = dir @ la ''/'' @ to_lower (chain_code store) @ la ''.json''"

section \<open>scrape\<close>

definition whole_dina :: dina_opts where
  "whole_dina = \<lparr>do_maxPages = 1000, do_scopeRoots = None, do_categoryIds = None, do_batchPages = DINA_BATCH_PAGES\<rparr>"

text \<open>The whole shop on demand; the categories of the scope file; without a usable one the old walk.\<close>

definition dina_plan :: "bool \<Rightarrow> jstr list option \<Rightarrow> jstr option \<Rightarrow> dina_opts" where
  "dina_plan all ids env =
    (if all then whole_dina
     else case ids of
       None \<Rightarrow> whole_dina\<lparr>do_scopeRoots := Some DINA_SCOPE_ROOTS\<rparr>
     | Some i \<Rightarrow> whole_dina\<lparr>do_categoryIds := Some i, do_batchPages := resolveDinaBatchPages env\<rparr>)"

definition dana_plan :: "bool \<Rightarrow> jstr list option \<Rightarrow> jstr option \<Rightarrow> dana_opts" where
  "dana_plan all sections env =
    (let concurrency = resolveDanaConcurrency env
     in if all then \<lparr>da_roots = None, da_sections = None, da_full = True, da_concurrency = concurrency\<rparr>
        else case sections of
          None \<Rightarrow> \<lparr>da_roots = Some DANA_SCOPE_ROOTS, da_sections = None, da_full = False, da_concurrency = concurrency\<rparr>
        | Some s \<Rightarrow> \<lparr>da_roots = None, da_sections = Some s, da_full = False, da_concurrency = concurrency\<rparr>)"

definition fix_plan :: "bool \<Rightarrow> jstr list option" where
  "fix_plan all = (if all then None else Some FIXPRICE_SCOPE_ALIASES)"

datatype scrape_call = CallDina dina_opts | CallDana dana_opts | CallHar jstr | CallFix "jstr list option"

record scrape_env =
  ev_all :: bool
  ev_dinaScope :: "jstr list option"       \<comment> \<open>what \<open>readDinaScope\<close> returns\<close>
  ev_danaScope :: "jstr list option"
  ev_batchPages :: "jstr option"
  ev_concurrency :: "jstr option"
  ev_har :: "jstr option"

definition pick_scraper :: "scrape_env \<Rightarrow> jstr \<Rightarrow> perror + scrape_call" where
  "pick_scraper ev code =
    (if code = la ''DINA'' then Inr (CallDina (dina_plan (ev_all ev) (ev_dinaScope ev) (ev_batchPages ev)))
     else if code = la ''DANA'' then Inr (CallDana (dana_plan (ev_all ev) (ev_danaScope ev) (ev_concurrency ev)))
     else if code = la ''FIX_PRICE'' then
       Inr (if truthy_str (ev_har ev) then CallHar (the (ev_har ev)) else CallFix (fix_plan (ev_all ev)))
     else Inl (Error (la ''usage: scrape <DINA|DANA|FIX_PRICE>'')))"

text \<open>The world the shops' scrapers see; \<open>sw_har\<close> is the parsed recording, if its file can be read.\<close>

record scrape_world =
  sw_fuel :: nat
  sw_shop :: dina_shop
  sw_site :: dana_site
  sw_city :: "jstr option"
  sw_menu :: "perror + jstr list"
  sw_api :: fix_api
  sw_har :: "jstr \<Rightarrow> perror + har_entry list"
  sw_base64 :: "jstr \<Rightarrow> jstr"
  sw_json :: "jstr \<Rightarrow> fix_list option"
  sw_stamp :: jstr

definition run_call :: "scrape_world \<Rightarrow> scrape_call \<Rightarrow> (perror + source_file) option" where
  "run_call w call =
    (case call of
       CallDina opts \<Rightarrow> scrapeDina (sw_fuel w) (sw_shop w) (sw_stamp w) opts
     | CallDana opts \<Rightarrow> Some (Inr (scrapeDana (sw_site w) (sw_stamp w) opts))
     | CallHar path \<Rightarrow> Some (and_then (sw_har w path) (\<lambda>es. Inr (loadFixPriceFromHar (sw_base64 w) (sw_json w) (sw_stamp w) es)))
     | CallFix aliases \<Rightarrow> scrapeFixPrice (sw_fuel w) (sw_city w) (sw_menu w) (sw_api w) (sw_stamp w) aliases)"

text \<open>The file is checked against the policy before it is written over the previous one.\<close>

definition store_scrape ::
  "(jstr \<Rightarrow> bool) \<Rightarrow> (jstr \<Rightarrow> bool) \<Rightarrow> (source_file \<Rightarrow> 'c) \<Rightarrow> bool \<Rightarrow> jstr \<Rightarrow> source_file \<Rightarrow> perror + 'c fs_op list" where
  "store_scrape is_url is_datetime render all dir file =
    (case assertCompleteScrape all file of
       Some e \<Rightarrow> Inl e
     | None \<Rightarrow> writeSourceFile is_url is_datetime render (source_path dir (sf_store file)) file)"

text \<open>The whole command: what it writes, or why it ends without writing; \<open>None\<close> is a scraper that does not return.\<close>

definition run_scrape ::
  "(jstr \<Rightarrow> bool) \<Rightarrow> (jstr \<Rightarrow> bool) \<Rightarrow> (source_file \<Rightarrow> 'c) \<Rightarrow> scrape_world \<Rightarrow> scrape_env \<Rightarrow> jstr \<Rightarrow> jstr \<Rightarrow> (perror + 'c fs_op list) option" where
  "run_scrape is_url is_datetime render w ev dir code =
    (case pick_scraper ev code of
       Inl e \<Rightarrow> Some (Inl e)
     | Inr call \<Rightarrow> map_option (\<lambda>r. and_then r (store_scrape is_url is_datetime render (ev_all ev) dir)) (run_call w call))"

section \<open>sync\<close>

definition STORE_CODES :: "chain list" where
  "STORE_CODES = [Dina, Dana, FixPrice, Anvar]"

definition chain_of :: "jstr \<Rightarrow> chain option" where
  "chain_of code = List.find (\<lambda>c. chain_code c = code) STORE_CODES"

definition sync_stores :: "jstr option \<Rightarrow> perror + chain list" where
  "sync_stores env =
    (let codes = map trim (split_ch 44 (nullish env (la ''DINA,DANA,FIX_PRICE'')))
     in case all_some chain_of codes of
          None \<Rightarrow> Inl (Error (la ''SYNC_STORES invalid: '' @ join [44] codes))
        | Some cs \<Rightarrow> Inr cs)"

definition max_age :: "jstr option \<Rightarrow> jnum" where
  "max_age env = js_number (nullish env (la ''36''))"

record sync_env =
  se_stores :: "jstr option"
  se_maxAge :: "jstr option"
  se_publish :: "jstr option"
  se_now :: int
  se_stamp :: jstr
  se_dir :: jstr
  se_dictionary :: jstr

definition sync_files ::
  "(jstr \<Rightarrow> bool) \<Rightarrow> (jstr \<Rightarrow> bool) \<Rightarrow> ('c \<Rightarrow> source_file option) \<Rightarrow> (jstr \<rightharpoonup> 'c) \<Rightarrow> jstr \<Rightarrow> chain list \<Rightarrow> perror + source_file list" where
  "sync_files is_url is_datetime decode fs dir required =
    traverse (\<lambda>s. readSourceFile is_url is_datetime decode fs (source_path dir s)) required"

text \<open>\<open>load_dictionary\<close> is \<open>readDictionary\<close> on the dictionary's path.\<close>

definition run_sync ::
  "(jstr \<Rightarrow> bool) \<Rightarrow> (jstr \<Rightarrow> bool) \<Rightarrow> (jstr \<Rightarrow> int option) \<Rightarrow> ('c \<Rightarrow> source_file option) \<Rightarrow> (jstr \<rightharpoonup> 'c) \<Rightarrow>
   (jstr \<Rightarrow> perror + dictionary) \<Rightarrow> sync_env \<Rightarrow> perror + sync_bundle \<times> unmapped list" where
  "run_sync is_url is_datetime parse_date decode fs load_dictionary ev =
    and_then (sync_stores (se_stores ev)) (\<lambda>required.
    and_then (sync_files is_url is_datetime decode fs (se_dir ev) required) (\<lambda>files.
      case assertFresh parse_date files required (se_now ev) (max_age (se_maxAge ev)) of
        Some e \<Rightarrow> Inl e
      | None \<Rightarrow>
          and_then (load_dictionary (se_dictionary ev)) (\<lambda>dict.
          and_then (publishCategories (se_publish ev)) (\<lambda>scope.
            buildSyncBundle files dict (se_stamp ev) (Some scope)))))"

section \<open>compare\<close>

definition compare_gate :: "jnum \<Rightarrow> sync_bundle \<Rightarrow> sync_bundle \<Rightarrow> perror + bundle_diff" where
  "compare_gate maximum a b =
    (case maximum of
       Fin m \<Rightarrow>
         if m < 0 then Inl (Error (la ''--max-mismatch must be a non-negative number''))
         else let d = compareBundles a b
              in if df_mismatchRatio d > m then Inl (Error (la ''mismatch exceeds the maximum'')) else Inr d
     | _ \<Rightarrow> Inl (Error (la ''--max-mismatch must be a non-negative number'')))"

section \<open>classify and match\<close>

definition BATCH :: nat where "BATCH = 40"
definition BLOCK :: nat where "BLOCK = 40"

definition classify_all :: "classifier \<Rightarrow> source_file list \<Rightarrow> classified list" where
  "classify_all llm files = concat (map (classifyBatch llm) (chunks BATCH (sync_inputs files)))"

definition fallback_count :: "classified list \<Rightarrow> nat" where
  "fallback_count cs = length (filter (\<lambda>c. la ''llm_fallback'' \<in> set (cl_flags c)) cs)"

text \<open>More than five percent fallbacks end the run with an error, after the file is written.\<close>

definition classify_exit :: "classified list \<Rightarrow> bool" where
  "classify_exit cs \<longleftrightarrow> cs \<noteq> [] \<and> of_nat (fallback_count cs) / of_nat (length cs) > (5 / 100 :: rat)"

definition too_many_failures :: "llm_stats \<Rightarrow> bool" where
  "too_many_failures s \<longleftrightarrow> st_calls s > 0 \<and> of_nat (st_failures s) / of_nat (st_calls s) > (2 / 100 :: rat)"

definition match_all :: "matcher \<Rightarrow> classified list \<Rightarrow> cluster list" where
  "match_all llm items = concat (map (matchBlock llm) (buildBlocks BLOCK items))"

text \<open>
  The bundle of the published scope and the dictionary of everything; \<open>stats\<close> are the calls
  of the model counted while matching.
\<close>

definition run_match ::
  "(jstr \<Rightarrow> bool) \<Rightarrow> (jstr \<Rightarrow> jstr) \<Rightarrow> (jstr \<Rightarrow> jstr \<Rightarrow> bool) \<Rightarrow> matcher \<Rightarrow> llm_stats \<Rightarrow> jstr option \<Rightarrow> jstr \<Rightarrow>
   source_meta list \<Rightarrow> classified list \<Rightarrow> perror + sync_bundle \<times> dictionary" where
  "run_match is_datetime sha locale_le llm stats env stamp sources items =
    (let clusters = match_all llm items
     in if too_many_failures stats then Inl (Error (la ''LLM failures over 2 percent''))
        else
          and_then (buildBundle clusters sources stamp) (\<lambda>full.
          and_then (publishCategories env) (\<lambda>scope.
          and_then (buildBundle (isolateForPublish (filterClustersByScope scope clusters)) sources stamp) (\<lambda>b.
          and_then (buildDictionary is_datetime sha locale_le full) (\<lambda>d. Inr (b, d))))))"

section \<open>dict:apply and the scope commands\<close>

definition run_dict_apply ::
  "(jstr \<Rightarrow> bool) \<Rightarrow> (jstr \<Rightarrow> jstr) \<Rightarrow> (jstr \<Rightarrow> jstr) \<Rightarrow> (card \<Rightarrow> jstr) \<Rightarrow> (jstr \<Rightarrow> perror + dictionary) \<Rightarrow> (jstr \<Rightarrow> perror + overrides) \<Rightarrow>
   jstr \<Rightarrow> jstr \<Rightarrow> perror + jstr fs_op list" where
  "run_dict_apply is_datetime sha quote card_json load_dictionary load_overrides dictionary_path overrides_path =
    and_then (load_dictionary dictionary_path) (\<lambda>dict.
    and_then (load_overrides overrides_path) (\<lambda>v.
    and_then (applyOverrides is_datetime sha dict v) (\<lambda>next_dict.
      writeDictionary is_datetime quote card_json dictionary_path next_dict)))"

text \<open>The scope is computed from a full scrape only.\<close>

definition full_dina :: "source_file \<Rightarrow> perror option" where
  "full_dina f =
    (if sf_store f \<noteq> Dina then Some (Error (la ''scope:dina expects a DINA source file, got '' @ chain_code (sf_store f)))
     else if stat_is f (la ''scoped'') (JBool True) \<or> stat_is f (la ''mode'') (JStr (la ''batch''))
       then Some (Error (la ''scope:dina needs a full Dina scrape (SCRAPE_ALL=1)'')) else None)"

definition full_dana :: "source_file \<Rightarrow> perror option" where
  "full_dana f =
    (if sf_store f \<noteq> Dana then Some (Error (la ''scope:dana expects a DANA source file, got '' @ chain_code (sf_store f)))
     else if \<not> stat_is f (la ''mode'') (JStr (la ''full''))
       then Some (Error (la ''scope:dana needs a full Dana scrape (SCRAPE_ALL=1)'')) else None)"

definition run_scope_dina ::
  "(jstr \<Rightarrow> jstr \<Rightarrow> bool) \<Rightarrow> (jstr \<Rightarrow> bool) \<Rightarrow> (dina_scope \<Rightarrow> 'c) \<Rightarrow> perror + source_file \<Rightarrow> perror + dictionary \<Rightarrow> jstr option \<Rightarrow> jstr \<Rightarrow> jstr \<Rightarrow>
   perror + 'c fs_op list" where
  "run_scope_dina locale_le is_datetime render input dictionary env stamp out =
    and_then input (\<lambda>file.
      case full_dina file of
        Some e \<Rightarrow> Inl e
      | None \<Rightarrow>
          and_then dictionary (\<lambda>dict.
          and_then (publishCategories env) (\<lambda>scope.
            writeDinaScope locale_le is_datetime render out (computeDinaScope locale_le file dict scope stamp))))"

text \<open>The scope of Dana is written first; products it does not cover then end the run with an error.\<close>

definition run_scope_dana ::
  "(jstr \<Rightarrow> jstr \<Rightarrow> bool) \<Rightarrow> (jstr \<Rightarrow> bool) \<Rightarrow> (dana_scope \<Rightarrow> 'c) \<Rightarrow> perror + source_file \<Rightarrow> perror + dictionary \<Rightarrow> jstr option \<Rightarrow> jstr \<Rightarrow> jstr \<Rightarrow>
   perror + 'c fs_op list \<times> bool" where
  "run_scope_dana locale_le is_datetime render input dictionary env stamp out =
    and_then input (\<lambda>file.
      case full_dana file of
        Some e \<Rightarrow> Inl e
      | None \<Rightarrow>
          and_then dictionary (\<lambda>dict.
          and_then (publishCategories env) (\<lambda>scope.
            let s = computeDanaScope locale_le file dict scope stamp
            in and_then (writeDanaScope is_datetime render out s) (\<lambda>ops. Inr (ops, na_unsectioned s = 0)))))"

section \<open>Lemmas\<close>

lemma positive_setting_bounds: "1 \<le> initial \<Longrightarrow> initial \<le> maximum \<Longrightarrow> 1 \<le> positive_setting initial maximum env \<and> positive_setting initial maximum env \<le> maximum"
  by (auto simp: positive_setting_def Let_def split: jnum.split)

lemma chain_of_Some: "chain_of code = Some c \<Longrightarrow> chain_code c = code"
  by (auto simp: chain_of_def dest: find_Some_iff)

end
