(* ===== verification/CommandProperties.thy ===== *)
theory CommandProperties
  imports Commands SyncProperties ScrapeProperties
begin

text \<open>
  The properties of the pipeline's commands as they run every day: what a narrow scrape may write
  over the file of the day before, and what the synchronisation publishes from those files.
\<close>

section \<open>The daily scrape\<close>

text \<open>The plan of a narrow scrape makes its file fragile, whatever the shop answers.\<close>

definition narrow_env :: "scrape_env \<Rightarrow> jstr \<Rightarrow> bool" where
  "narrow_env ev code \<longleftrightarrow> \<not> ev_all ev \<and>
     (code = la ''DINA'' \<longrightarrow> (case ev_dinaScope ev of Some (_ # _) \<Rightarrow> True | _ \<Rightarrow> False)) \<and>
     (code = la ''DANA'' \<longrightarrow> ev_danaScope ev \<noteq> None) \<and> (code = la ''FIX_PRICE'' \<longrightarrow> \<not> truthy_str (ev_har ev))"

lemma batch_scrape_fragile:
  assumes "scrapeDina fuel shop stamp opts = Some (Inr out)" and "do_categoryIds opts = Some (i # is)"
  shows "sf_store out = Dina \<and> isFragileScrape out"
  using assms by (auto simp: scrapeDina_def result_simps batch_file_def dina_file_def isFragileScrape_def stat_is_def obj_get_def la_def split: sum.splits option.splits)

lemma section_scrape_fragile:
  assumes "\<not> da_full opts" and "da_sections opts = Some ss"
  shows "sf_store (scrapeDana site stamp opts) = Dana \<and> isFragileScrape (scrapeDana site stamp opts)"
  using assms by (simp add: scrapeDana_def Let_def mode_of_opts_def mode_name_def isFragileScrape_def stat_is_def obj_get_def)

lemma alias_scrape_fragile:
  assumes "scrapeFixPrice fuel city menu api stamp (Some as) = Some (Inr out)"
  shows "sf_store out = FixPrice \<and> isFragileScrape out"
  using assms by (auto simp: scrapeFixPrice_def fix_file_def isFragileScrape_def stat_is_def obj_get_def la_def split: if_splits sum.splits option.splits)

lemma narrow_call_fragile:
  assumes "narrow_env ev code" and "pick_scraper ev code = Inr call" and "run_call w call = Some (Inr out)"
  shows "chain_code (sf_store out) = code \<and> isFragileScrape out"
proof -
  have all: "\<not> ev_all ev" using assms(1) by (simp add: narrow_env_def)
  consider (dina) i "is" where "code = la ''DINA''" "ev_dinaScope ev = Some (i # is)" "call = CallDina (dina_plan False (Some (i # is)) (ev_batchPages ev))"
    | (dana) ss where "code = la ''DANA''" "ev_danaScope ev = Some ss" "call = CallDana (dana_plan False (Some ss) (ev_concurrency ev))"
    | (prices) "code = la ''FIX_PRICE''" "call = CallFix (Some FIXPRICE_SCOPE_ALIASES)"
    using assms(1,2) by (auto simp: narrow_env_def pick_scraper_def fix_plan_def split: if_splits option.splits list.splits)
  then show ?thesis
  proof cases
    case dina
    then show ?thesis
      using batch_scrape_fragile [of _ _ _ _ out i "is"] assms(3) by (auto simp: run_call_def dina_plan_def chain_code_def)
  next
    case dana
    then show ?thesis
      using section_scrape_fragile [of "dana_plan False (Some ss) (ev_concurrency ev)" ss] assms(3)
      by (auto simp: run_call_def dana_plan_def Let_def chain_code_def)
  next
    case prices
    then show ?thesis
      using alias_scrape_fragile [of _ _ _ _ _ _ out] assms(3) by (auto simp: run_call_def chain_code_def)
  qed
qed

text \<open>C14: A narrow daily scrape replaces the file of the day before only when it is complete: whatever is
  written comes from a scrape without a single error, passes validation, and goes to the
  shop's own file in one atomic step; in every other case nothing is written.\<close>

theorem narrow_scrape_writes_only_complete_files:
  assumes "narrow_env ev code" and "run_scrape is_url is_datetime render w ev dir code = Some (Inr ops)"
  shows "\<exists>call out valid. pick_scraper ev code = Inr call \<and> run_call w call = Some (Inr out) \<and>
     chain_code (sf_store out) = code \<and> sf_errorCount out = 0 \<and>
     validate is_url is_datetime out = Inr valid \<and> sound_file valid \<and>
     ops = atomicWrite (source_path dir (sf_store out)) (render valid)"
proof -
  obtain call where call: "pick_scraper ev code = Inr call"
    using assms(2) by (auto simp: run_scrape_def split: sum.splits)
  with assms(2) obtain out where out: "run_call w call = Some (Inr out)"
    and st: "store_scrape is_url is_datetime render (ev_all ev) dir out = Inr ops"
    by (auto simp: run_scrape_def result_simps)
  have fragile: "chain_code (sf_store out) = code" "isFragileScrape out"
    using narrow_call_fragile [OF assms(1) call out] by blast+
  have "assertCompleteScrape (ev_all ev) out = None" using st by (auto simp: store_scrape_def split: option.splits)
  then have "sf_errorCount out = 0"
    using fragile(2) assms(1) by (simp add: assertCompleteScrape_def narrow_env_def split: if_splits)
  moreover obtain valid where "validate is_url is_datetime out = Inr valid" "ops = atomicWrite (source_path dir (sf_store out)) (render valid)"
    using st by (auto simp: store_scrape_def writeSourceFile_def result_simps split: option.splits)
  ultimately show ?thesis using call out fragile validate_sound by blast
qed

definition milk_world :: scrape_world where
  "milk_world = \<lparr>sw_fuel = 5, sw_shop = sample_shop, sw_site = milk_site, sw_city = None, sw_menu = Inr [], sw_api = (\<lambda>a page. None),
     sw_har = (\<lambda>path. Inl NoFile), sw_base64 = (\<lambda>s. s), sw_json = (\<lambda>s. None), sw_stamp = []\<rparr>"

definition milk_env :: scrape_env where
  "milk_env = \<lparr>ev_all = False, ev_dinaScope = None, ev_danaScope = Some [la ''/catalog/1/''], ev_batchPages = None, ev_concurrency = None, ev_har = None\<rparr>"

lemma milk_scrape:
  "(case run_scrape (\<lambda>_. True) (\<lambda>_. True) sf_products milk_world milk_env (la ''d'') (la ''DANA'') of
      Some (Inr ops) \<Rightarrow> length ops = 2 | _ \<Rightarrow> False)"
  by code_simp

theorem narrow_scrape_writes_only_complete_files_witness:
  "\<exists>ops valid. run_scrape (\<lambda>_. True) (\<lambda>_. True) sf_products milk_world milk_env (la ''d'') (la ''DANA'') = Some (Inr ops) \<and>
     ops = atomicWrite (source_path (la ''d'') Dana) (sf_products valid) \<and> sound_file valid"
proof -
  obtain ops where run: "run_scrape (\<lambda>_. True) (\<lambda>_. True) sf_products milk_world milk_env (la ''d'') (la ''DANA'') = Some (Inr ops)"
    using milk_scrape by (auto split: option.splits sum.splits)
  have "narrow_env milk_env (la ''DANA'')" by (simp add: narrow_env_def milk_env_def la_def)
  from narrow_scrape_writes_only_complete_files [OF this run] obtain out valid :: source_file where
    "chain_code (sf_store out) = la ''DANA''" "sound_file valid" "ops = atomicWrite (source_path (la ''d'') (sf_store out)) (sf_products valid)"
    by blast
  moreover from this(1) have "sf_store out = Dana" by (cases "sf_store out") (simp_all add: chain_code_def la_def)
  ultimately show ?thesis using run by auto
qed

section \<open>The daily synchronisation\<close>

text \<open>Every required shop has a file among as many files as shops: each has exactly one.\<close>

lemma one_file_per_store:
  assumes "distinct required" and "length files = length required"
    and "\<And>s. s \<in> set required \<Longrightarrow> List.find (\<lambda>f. sf_store f = s) files \<noteq> None"
  shows "distinct (map sf_store files)" and "set (map sf_store files) = set required"
proof -
  have sub: "set required \<subseteq> set (map sf_store files)" using assms(3) by (fastforce simp: find_None_iff)
  have "length (map sf_store files) = card (set required)" using assms(1,2) by (simp add: distinct_card)
  then show eq: "set (map sf_store files) = set required"
    using card_seteq [OF _ sub] card_length [of "map sf_store files"] by simp
  show "distinct (map sf_store files)"
    by (rule card_distinct) (use eq assms(1,2) in \<open>simp add: distinct_card del: set_map\<close>)
qed

lemma found_by_store: "distinct (map sf_store files) \<Longrightarrow> f \<in> set files \<Longrightarrow> List.find (\<lambda>g. sf_store g = sf_store f) files = Some f"
  by (induction files) auto

lemma sync_inputs_distinct:
  assumes "distinct (map sf_store files)" and "list_all sound_file files"
  shows "distinct (map (\<lambda>i. (fst i, sp_id (snd i))) (sync_inputs files))"
  using assms
proof (induction files)
  case (Cons f fs)
  then have "distinct (map (\<lambda>p. (sf_store f, sp_id p)) (sf_products f))"
    by (simp add: sound_file_def distinct_map inj_on_def)
  moreover have "set (map (\<lambda>p. (sf_store f, sp_id p)) (sf_products f)) \<inter> set (map (\<lambda>i. (fst i, sp_id (snd i))) (sync_inputs fs)) = {}"
    using Cons.prems(1) by (auto simp: sync_inputs_def)
  ultimately show ?case using Cons by (simp add: sync_inputs_def comp_def)
qed (simp add: sync_inputs_def)

lemma run_sync_InrE:
  assumes "run_sync is_url is_datetime parse_date decode fs load_dictionary ev = Inr (b, un)"
  obtains required files dict scope where "sync_stores (se_stores ev) = Inr required"
    and "length files = length required" and "list_all sound_file files"
    and "\<And>s. s \<in> set required \<Longrightarrow> stale_store parse_date (se_now ev) (max_age (se_maxAge ev)) files s = None"
    and "publishCategories (se_publish ev) = Inr scope"
    and "buildSyncBundle files dict (se_stamp ev) (Some scope) = Inr (b, un)"
    and "sync_files is_url is_datetime decode fs (se_dir ev) required = Inr files" and "load_dictionary (se_dictionary ev) = Inr dict"
proof -
  obtain required files dict scope where r: "sync_stores (se_stores ev) = Inr required"
    and t: "sync_files is_url is_datetime decode fs (se_dir ev) required = Inr files"
    and a: "assertFresh parse_date files required (se_now ev) (max_age (se_maxAge ev)) = None"
    and rest: "publishCategories (se_publish ev) = Inr scope" "buildSyncBundle files dict (se_stamp ev) (Some scope) = Inr (b, un)"
      "load_dictionary (se_dictionary ev) = Inr dict"
    using assms by (auto simp: run_sync_def result_simps split: option.splits)
  have "list_all sound_file files"
  proof -
    have "sound_file f" if f: "f \<in> set files" for f
    proof -
      obtain s where "readSourceFile is_url is_datetime decode fs (source_path (se_dir ev) s) = Inr f"
        using traverse_ok [OF t [unfolded sync_files_def] f] by blast
      then show ?thesis by (auto simp: readSourceFile_def split: option.splits dest: validate_sound)
    qed
    then show ?thesis by (simp add: list_all_iff)
  qed
  moreover have "length files = length required" using t by (simp add: sync_files_def traverse_length)
  moreover have "stale_store parse_date (se_now ev) (max_age (se_maxAge ev)) files s = None" if "s \<in> set required" for s
    using a that by (simp add: assertFresh_def check_all_None)
  ultimately show thesis using that r rest t by blast
qed

lemma offers_from_inputs:
  assumes "mset (map raw_summary raws) = mset (map source_summary (filter P (sync_inputs files)))"
    and "distinct (map sf_store files)" and "list_all sound_file files"
  shows "distinct (map (\<lambda>r. (br_store r, br_id r)) raws)"
    and "r \<in> set raws \<Longrightarrow> \<exists>f \<in> set files. br_store r = sf_store f \<and> (\<exists>p \<in> set (sf_products f). br_id r = sp_id p \<and> br_name r = sp_name p \<and> br_price r = sp_price p)"
proof -
  let ?key = "\<lambda>s :: chain \<times> jstr \<times> jstr \<times> int. (fst s, fst (snd s))"
  have "mset (map ?key (map raw_summary raws)) = mset (map ?key (map source_summary (filter P (sync_inputs files))))"
    using arg_cong [OF assms(1), of "image_mset ?key"] by (simp only: mset_map)
  then have keys: "mset (map (\<lambda>r. (br_store r, br_id r)) raws) = mset (map (\<lambda>i. (fst i, sp_id (snd i))) (filter P (sync_inputs files)))"
    by (simp add: raw_summary_def source_summary_def comp_def)
  have "distinct (map (\<lambda>i. (fst i, sp_id (snd i))) (filter P (sync_inputs files)))"
    by (rule distinct_map_filter [OF sync_inputs_distinct [OF assms(2,3)]])
  with keys show "distinct (map (\<lambda>r. (br_store r, br_id r)) raws)" by (metis mset_eq_imp_distinct_iff)
  assume "r \<in> set raws"
  then have "raw_summary r \<in> set (map source_summary (filter P (sync_inputs files)))"
    using arg_cong [OF assms(1), of set_mset] by auto
  then show "\<exists>f \<in> set files. br_store r = sf_store f \<and> (\<exists>p \<in> set (sf_products f). br_id r = sp_id p \<and> br_name r = sp_name p \<and> br_price r = sp_price p)"
    by (fastforce simp: raw_summary_def source_summary_def sync_inputs_def)
qed


definition milk_sync :: sync_env where
  "milk_sync = \<lparr>se_stores = Some (la ''DINA''), se_maxAge = None, se_publish = None, se_now = 3600000, se_stamp = [], se_dir = la ''d'',
     se_dictionary = la ''dictionary.json''\<rparr>"

definition milk_files :: "jstr \<rightharpoonup> source_file" where
  "milk_files = [source_path (la ''d'') Dina \<mapsto> sync_milk]"

lemma milk_sync_steps:
  "sync_stores (se_stores milk_sync) = Inr [Dina]"
  "max_age (se_maxAge milk_sync) = Fin 36"
  "validate (\<lambda>_. True) (\<lambda>_. True) sync_milk = Inr sync_milk"
  "\<exists>scope. publishCategories (se_publish milk_sync) = Inr scope"
  by (code_simp, code_simp, code_simp, simp add: publishCategories_def milk_sync_def trim_def)

lemma milk_sync_run:
  "\<exists>b un. run_sync (\<lambda>_. True) (\<lambda>_. True) (\<lambda>d. Some 0) Some milk_files (\<lambda>p. Inr milk_dictionary) milk_sync = Inr (b, un)"
proof -
  have "sync_files (\<lambda>_. True) (\<lambda>_. True) Some milk_files (se_dir milk_sync) [Dina] = Inr [sync_milk]"
    by (simp add: sync_files_def readSourceFile_def milk_files_def milk_sync_def milk_sync_steps(3) [unfolded milk_sync_def])
  moreover have "assertFresh (\<lambda>d. Some 0) [sync_milk] [Dina] (se_now milk_sync) (Fin 36) = None"
    by (simp add: assertFresh_def stale_store_def age_hours_def exceeds_def milk_sync_def sync_milk_def plain_file_def)
  moreover obtain scope where "publishCategories (se_publish milk_sync) = Inr scope" using milk_sync_steps(4) by blast
  ultimately show ?thesis
    using sync_bundle_offers [of "[sync_milk]" milk_dictionary "se_stamp milk_sync" "Some scope"]
    by (auto simp: run_sync_def milk_sync_steps(1,2))
qed


section \<open>Fix Price\<close>

text \<open>C26: A scrape of Fix Price ends as soon as the shop's header reports the number of products of each
  category truthfully, although its loop over the pages has no bound of its own: one page for
  every 28 products suffices. The file it delivers has distinct, well-formed products.\<close>

theorem fix_price_scrape_ends:
  assumes "\<And>a page ls header. api a page = Some (ls, header) \<Longrightarrow> x_count header = Some (tot a)"
    and "\<And>a. a \<in> set (nullish aliases menuAliases) \<Longrightarrow> nat \<lceil>tot a / of_nat FIX_PAGE\<rceil> \<le> fuel" and "0 < fuel"
  shows "\<exists>r. scrapeFixPrice fuel city (Inr menuAliases) api stamp aliases = Some r \<and>
     (case r of Inl e \<Rightarrow> \<not> truthy_str city \<or> \<not> set (nullish aliases []) \<subseteq> set menuAliases
      | Inr out \<Rightarrow> distinct (map sp_id (sf_products out)) \<and> list_all good_product (sf_products out))"
proof -
  let ?as = "nullish aliases menuAliases"
  obtain st where st: "fix_aliases fuel api ?as ([], 0) = Some st"
    using fix_aliases_end [of ?as api tot fuel] assms by metis
  show ?thesis
  proof (cases "truthy_str city \<and> List.find (\<lambda>a. a \<notin> set menuAliases) (nullish aliases []) = None")
    case True
    then show ?thesis using fix_file_clean by (simp add: scrapeFixPrice_def Let_def st)
  next
    case False
    then consider "\<not> truthy_str city" | a where "truthy_str city" "List.find (\<lambda>a. a \<notin> set menuAliases) (nullish aliases []) = Some a" by auto
    then show ?thesis
    proof cases
      case 2
      from find_Some_iff [OF 2(2)] have "\<not> set (nullish aliases []) \<subseteq> set menuAliases" by blast
      with 2 show ?thesis by (simp add: scrapeFixPrice_def)
    qed (simp add: scrapeFixPrice_def)
  qed
qed

definition three_pages :: fix_api where
  "three_pages a page =
    Some (Some (replicate 28 \<lparr>fx_id = jnat page, fx_title = Some (la ''tea''), fx_url = la ''p'', fx_price = JNum (Fin 500), fx_special = None,
      fx_images = [], fx_brand = None, fx_category = None, fx_raw = []\<rparr>), Some (la ''60''))"

theorem fix_price_scrape_ends_witness:
  "\<exists>r. scrapeFixPrice 3 (Some (la ''aktau'')) (Inr [la ''food'']) three_pages [] None = Some r \<and>
     (case r of Inl e \<Rightarrow> False | Inr out \<Rightarrow> distinct (map sp_id (sf_products out)))"
proof -
  have "x_count (Some (la ''60'')) = Some 60" by code_simp
  then have count: "three_pages a page = Some (ls, header) \<Longrightarrow> x_count header = Some 60" for a page ls header
    by (auto simp: three_pages_def)
  have "nat \<lceil>(60::rat) / of_nat FIX_PAGE\<rceil> \<le> 3" by code_simp
  then have pages: "nat \<lceil>(60::rat) / of_nat FIX_PAGE\<rceil> \<le> 3" if "a \<in> set (nullish None [la ''food''])" for a .
  have "\<exists>r. scrapeFixPrice 3 (Some (la ''aktau'')) (Inr [la ''food'']) three_pages [] None = Some r \<and>
     (case r of Inl e \<Rightarrow> \<not> truthy_str (Some (la ''aktau'')) \<or> \<not> set (nullish None []) \<subseteq> set [la ''food'']
      | Inr out \<Rightarrow> distinct (map sp_id (sf_products out)) \<and> list_all good_product (sf_products out))"
    by (rule fix_price_scrape_ends [where tot = "\<lambda>_. 60", OF count pages]) simp_all
  then obtain r where "scrapeFixPrice 3 (Some (la ''aktau'')) (Inr [la ''food'']) three_pages [] None = Some r"
    "case r of Inl e \<Rightarrow> \<not> truthy_str (Some (la ''aktau'')) \<or> \<not> set (nullish None []) \<subseteq> set [la ''food'']
      | Inr out \<Rightarrow> distinct (map sp_id (sf_products out)) \<and> list_all good_product (sf_products out)"
    by blast
  moreover have "truthy_str (Some (la ''aktau''))" by (simp add: truthy_str_def la_def)
  ultimately show ?thesis by (cases r) simp_all
qed

end
