(* ===== verification/Manifest.thy ===== *)
theory Manifest
  imports JsNumber
begin

text \<open>
  The manifest of a revalidation run (\<open>scripts/revalidation/c2-manifest.mjs\<close>): the projections
  of the published data before and after a publication, their validation, and the six pages
  whose time stamps must change. The input is JSON data; checking it and reading it into the
  records below is one step here. What JavaScript can hide in an object besides its own
  data (prototypes, accessors, symbol keys) JSON does not have, and equal objects in a list
  are different objects.
\<close>

section \<open>Shapes\<close>

datatype reason =
    InvalidProjection | InvalidMembership | ProjectionIdentity | UnqualifiedProvenance | InvalidProducts | InvalidRun
  | ConflictingProvenance | UnchangedDashboard | NoChangedWitness | UnqualifiedBefore | SnapshotChain | UnqualifiedAfter
  | UnchangedMarker

definition require :: "bool \<Rightarrow> 'e \<Rightarrow> 'e + unit" where
  "require P r = (if P then Inr () else Inl r)"

definition id_ch :: "int \<Rightarrow> bool" where
  "id_ch c \<longleftrightarrow> digit_ch c \<or> 97 \<le> c \<and> c \<le> 122 \<or> 65 \<le> c \<and> c \<le> 90 \<or> c = 95 \<or> c = 45"

definition slug_ch :: "int \<Rightarrow> bool" where
  "slug_ch c \<longleftrightarrow> digit_ch c \<or> 97 \<le> c \<and> c \<le> 122 \<or> c = 45"

definition hex_ch :: "int \<Rightarrow> bool" where
  "hex_ch c \<longleftrightarrow> digit_ch c \<or> 97 \<le> c \<and> c \<le> 102"

text \<open>The regular expressions: a number of characters of a class.\<close>

definition text_in :: "(int \<Rightarrow> bool) \<Rightarrow> nat \<Rightarrow> nat \<Rightarrow> jstr \<Rightarrow> bool" where
  "text_in chars low high s \<longleftrightarrow> low \<le> length s \<and> length s \<le> high \<and> list_all chars s"

definition is_id :: "jstr \<Rightarrow> bool" where "is_id = text_in id_ch 1 128"
definition is_slug :: "jstr \<Rightarrow> bool" where "is_slug = text_in slug_ch 1 64"
definition is_hex :: "nat \<Rightarrow> jstr \<Rightarrow> bool" where "is_hex n = text_in hex_ch n n"

definition is_uuid :: "jstr \<Rightarrow> bool" where
  "is_uuid s \<longleftrightarrow> map length (split_ch 45 s) = [8, 4, 4, 4, 12] \<and> list_all (list_all hex_ch) (split_ch 45 s)"

text \<open>
  A time stamp that \<open>toISOString\<close> writes back unchanged: the fixed shape, and a moment of the
  calendar.
\<close>

definition iso_shape :: "jstr \<Rightarrow> bool" where
  "iso_shape s \<longleftrightarrow> list_all2 (\<lambda>p c. if p = 48 then digit_ch c else c = p) (la ''0000-00-00T00:00:00.000Z'') s"

definition month_days :: "int \<Rightarrow> int \<Rightarrow> int" where
  "month_days y m = (if m = 2 then (if y mod 4 = 0 \<and> (y mod 100 \<noteq> 0 \<or> y mod 400 = 0) then 29 else 28)
     else if m \<in> {4, 6, 9, 11} then 30 else 31)"

definition digits_at :: "nat \<Rightarrow> nat \<Rightarrow> jstr \<Rightarrow> int" where
  "digits_at i n s = digits_val (take n (drop i s))"

definition is_iso :: "jstr \<Rightarrow> bool" where
  "is_iso s \<longleftrightarrow> iso_shape s \<and>
    (let y = digits_at 0 4 s; m = digits_at 5 2 s; d = digits_at 8 2 s
     in 1 \<le> m \<and> m \<le> 12 \<and> 1 \<le> d \<and> d \<le> month_days y m \<and> digits_at 11 2 s \<le> 23 \<and> digits_at 14 2 s \<le> 59 \<and> digits_at 17 2 s \<le> 59)"

text \<open>\<open>a < b\<close> on strings.\<close>

definition str_lt :: "jstr \<Rightarrow> jstr \<Rightarrow> bool" where
  "str_lt a b \<longleftrightarrow> \<not> str_le b a"

definition str_is :: "(jstr \<Rightarrow> bool) \<Rightarrow> jval \<Rightarrow> bool" where
  "str_is P v = (case v of JStr s \<Rightarrow> P s | _ \<Rightarrow> False)"

definition int_in :: "int \<Rightarrow> int \<Rightarrow> jval \<Rightarrow> bool" where
  "int_in low high v = (case v of JNum (Fin q) \<Rightarrow> q = of_int \<lfloor>q\<rfloor> \<and> of_int low \<le> q \<and> q \<le> of_int high | _ \<Rightarrow> False)"

definition null_or :: "(jval \<Rightarrow> bool) \<Rightarrow> jval \<Rightarrow> bool" where
  "null_or P v \<longleftrightarrow> v = JNull \<or> P v"

text \<open>Reading a value that was checked.\<close>

definition str_of :: "jval \<Rightarrow> jstr" where "str_of v = (case v of JStr s \<Rightarrow> s | _ \<Rightarrow> [])"
definition opt_str :: "jval \<Rightarrow> jstr option" where "opt_str v = (case v of JStr s \<Rightarrow> Some s | _ \<Rightarrow> None)"
definition opt_nat :: "jval \<Rightarrow> nat option" where "opt_nat v = (case v of JNum (Fin q) \<Rightarrow> Some (nat \<lfloor>q\<rfloor>) | _ \<Rightarrow> None)"

definition keys :: "jval \<Rightarrow> jstr list \<Rightarrow> reason + (jstr \<times> jval) list" where
  "keys v names =
    (case v of
       JObj ob \<Rightarrow> if length ob = length names \<and> list_all (\<lambda>(k, _). k \<in> set names) ob \<and> list_all (\<lambda>n. n \<in> set (js_keys ob)) names
         then Inr ob else Inl InvalidProjection
     | _ \<Rightarrow> Inl InvalidProjection)"

definition is_primitive :: "jval \<Rightarrow> bool" where
  "is_primitive v = (case v of JArr _ \<Rightarrow> False | JObj _ \<Rightarrow> False | _ \<Rightarrow> True)"

definition items :: "jval \<Rightarrow> nat \<Rightarrow> (jval \<Rightarrow> bool) \<Rightarrow> reason + jval list" where
  "items v maximum valid =
    (case v of
       JArr xs \<Rightarrow> if length xs \<le> maximum \<and> list_all valid xs \<and> distinct (filter is_primitive xs) then Inr xs else Inl InvalidMembership
     | _ \<Rightarrow> Inl InvalidMembership)"

definition nth_opt :: "'a list \<Rightarrow> nat \<Rightarrow> 'a option" where
  "nth_opt xs i = (if i < length xs then Some (xs ! i) else None)"

section \<open>Projections, version 2\<close>

datatype phase = BeforeMutation | AfterCommit

definition phase_name :: "phase \<Rightarrow> jstr" where
  "phase_name ph = (case ph of BeforeMutation \<Rightarrow> la ''before-canonical-mutation'' | AfterCommit \<Rightarrow> la ''after-commit'')"

record candidate =
  cd_id :: jstr
  cd_slug :: "jstr option"
  cd_snapshotAt :: "jstr option"
  cd_top :: "nat option"
  cd_category :: "nat option"
  cd_sitemap :: "nat option"

record pbody =
  pb_dashboardAt :: jstr
  pb_topEight :: "jstr list"
  pb_witness :: "jstr option"
  pb_candidates :: "candidate list"
  pb_pages :: "(jstr \<times> jstr list) list"
  pb_slugs :: "jstr list"
  pb_count :: nat

text \<open>\<open>pj_policy\<close> is the digest of the site policy; without one the frontend is named by its commit.\<close>

record projection =
  pj_attemptId :: jstr
  pj_snapshotId :: jstr
  pj_previous :: "jstr option"
  pj_state :: jstr
  pj_sourceSha :: jstr
  pj_frontendSha :: "jstr option"
  pj_policy :: "jstr option"
  pj_body :: pbody

definition read_page :: "nat \<Rightarrow> (jstr \<times> jstr list) list \<Rightarrow> jval \<Rightarrow> reason + (jstr \<times> jstr list) list" where
  "read_page maximum pages page =
    and_then (keys page [la ''slug'', la ''productIds'']) (\<lambda>ob.
    and_then (require (str_is is_slug (obj_get ob (la ''slug'')) \<and> str_of (obj_get ob (la ''slug'')) \<notin> set (js_keys pages)) InvalidMembership) (\<lambda>_.
    and_then (items (obj_get ob (la ''productIds'')) maximum (str_is is_id)) (\<lambda>xs.
      Inr (pages @ [(str_of (obj_get ob (la ''slug'')), map str_of xs)]))))"

fun read_all :: "('s \<Rightarrow> jval \<Rightarrow> 'e + 's) \<Rightarrow> 's \<Rightarrow> jval list \<Rightarrow> 'e + 's" where
  "read_all f s [] = Inr s"
| "read_all f s (x # xs) = and_then (f s x) (\<lambda>s'. read_all f s' xs)"

definition page_at :: "(jstr \<times> jstr list) list \<Rightarrow> jstr option \<Rightarrow> nat \<Rightarrow> jstr option" where
  "page_at pages slug i = Option.bind slug (\<lambda>s. Option.bind (map_of pages s) (\<lambda>ids. nth_opt ids i))"

definition index_of :: "'a list \<Rightarrow> 'a \<Rightarrow> nat option" where
  "index_of xs x = (if x \<in> set xs then Some (length (takeWhile (\<lambda>y. y \<noteq> x) xs)) else None)"

text \<open>A claimed position must be the position of the candidate; \<open>null\<close> claims nothing.\<close>

definition claims_hold :: "pbody \<Rightarrow> candidate \<Rightarrow> bool" where
  "claims_hold b c \<longleftrightarrow>
    (case cd_top c of None \<Rightarrow> True | Some i \<Rightarrow> nth_opt (pb_topEight b) i = Some (cd_id c)) \<and>
    (case cd_category c of None \<Rightarrow> True | Some i \<Rightarrow> page_at (pb_pages b) (cd_slug c) i = Some (cd_id c)) \<and>
    (case cd_sitemap c of None \<Rightarrow> True | Some i \<Rightarrow> i < pb_count b)"

definition candidate_of :: "(jstr \<times> jval) list \<Rightarrow> candidate" where
  "candidate_of ob =
    \<lparr>cd_id = str_of (obj_get ob (la ''id'')), cd_slug = opt_str (obj_get ob (la ''slug'')),
     cd_snapshotAt = opt_str (obj_get ob (la ''snapshotAt'')), cd_top = opt_nat (obj_get ob (la ''topEightIndex'')),
     cd_category = opt_nat (obj_get ob (la ''categoryIndex'')), cd_sitemap = opt_nat (obj_get ob (la ''sitemapIndex''))\<rparr>"

definition read_candidate :: "phase \<Rightarrow> pbody \<Rightarrow> candidate list \<Rightarrow> jval \<Rightarrow> reason + candidate list" where
  "read_candidate ph b seen v =
    and_then (keys v [la ''id'', la ''slug'', la ''snapshotAt'', la ''topEightIndex'', la ''categoryIndex'', la ''sitemapIndex'']) (\<lambda>ob.
      let c = candidate_of ob
      in
      and_then (require (str_is is_id (obj_get ob (la ''id'')) \<and> cd_id c \<notin> set (map cd_id seen) \<and>
          null_or (str_is is_slug) (obj_get ob (la ''slug'')) \<and> null_or (str_is is_iso) (obj_get ob (la ''snapshotAt'')) \<and>
          (case cd_snapshotAt c of None \<Rightarrow> True | Some t \<Rightarrow> str_le t (pb_dashboardAt b)) \<and>
          null_or (int_in 0 7) (obj_get ob (la ''topEightIndex'')) \<and> null_or (int_in 0 23) (obj_get ob (la ''categoryIndex'')) \<and>
          null_or (int_in 0 4999) (obj_get ob (la ''sitemapIndex''))) InvalidProducts) (\<lambda>_.
      and_then (require (ph = BeforeMutation \<longrightarrow> cd_id c \<in> set (pb_topEight b) \<and> cd_top c = index_of (pb_topEight b) (cd_id c)) InvalidProducts) (\<lambda>_.
      and_then (require (ph = BeforeMutation \<longrightarrow> (cd_sitemap c = None \<or> cd_sitemap c \<notin> set (map cd_sitemap seen))) InvalidMembership) (\<lambda>_.
      and_then (require (claims_hold b c) InvalidMembership) (\<lambda>_.
        Inr (seen @ [c]))))))"

definition read_body :: "phase \<Rightarrow> jval \<Rightarrow> reason + pbody" where
  "read_body ph v =
    and_then (keys v [la ''dashboardAt'', la ''topEight'', la ''witnessId'', la ''candidates'', la ''categoryPages'', la ''sitemap'']) (\<lambda>b.
    and_then (require (str_is is_iso (obj_get b (la ''dashboardAt'')) \<and> null_or (str_is is_id) (obj_get b (la ''witnessId''))) InvalidProducts) (\<lambda>_.
    and_then (items (obj_get b (la ''topEight'')) 8 (str_is is_id)) (\<lambda>top.
    and_then (items (obj_get b (la ''candidates'')) 8 (\<lambda>_. True)) (\<lambda>candidates.
    and_then (items (obj_get b (la ''categoryPages'')) 8 (\<lambda>_. True)) (\<lambda>pages.
    and_then (keys (obj_get b (la ''sitemap'')) [la ''categorySlugs'', la ''productCount'', la ''truncated'']) (\<lambda>m.
    and_then (items (obj_get m (la ''categorySlugs'')) 64 (str_is is_slug)) (\<lambda>slugs.
    and_then (require (int_in 0 5000 (obj_get m (la ''productCount'')) \<and>
        (case obj_get m (la ''truncated'') of JBool t \<Rightarrow> t \<longrightarrow> obj_get m (la ''productCount'') = JNum (Fin 5000) | _ \<Rightarrow> False)) InvalidMembership) (\<lambda>_.
    and_then (read_all (read_page 24) [] pages) (\<lambda>ps.
      let body = \<lparr>pb_dashboardAt = str_of (obj_get b (la ''dashboardAt'')), pb_topEight = map str_of top,
                  pb_witness = opt_str (obj_get b (la ''witnessId'')), pb_candidates = [], pb_pages = ps,
                  pb_slugs = map str_of slugs, pb_count = nullish (opt_nat (obj_get m (la ''productCount''))) 0\<rparr>
      in and_then (read_all (read_candidate ph body) [] candidates) (\<lambda>cs.
         and_then (require (ph = AfterCommit \<longrightarrow> length cs = 1 \<and> length ps = 1) InvalidProducts) (\<lambda>_.
           Inr (body\<lparr>pb_candidates := cs\<rparr>))))))))))))"

text \<open>Whether the frontend is identified by the content of the site rather than by a commit.\<close>

definition site_policy :: "jval \<Rightarrow> bool" where
  "site_policy s = (case s of JObj ob \<Rightarrow> obj_get ob (la ''evidencePolicy'') = JStr (la ''site-content-verification'') | _ \<Rightarrow> False)"

definition provenance_names :: "bool \<Rightarrow> jstr list" where
  "provenance_names site =
    [la ''kind'', la ''evidenceId'', la ''canonicalStateId'', la ''sourceSha''] @
    (if site then [la ''evidencePolicy'', la ''policyVersion'', la ''policySha256''] else [la ''frontendSha'']) @
    [la ''semantics'', la ''snapshotStatus'', la ''consistentRead'']"

definition evidence_id :: "jstr \<Rightarrow> phase \<Rightarrow> jstr" where
  "evidence_id attempt ph = attempt @ la ''-'' @ (case ph of AfterCommit \<Rightarrow> la ''after'' | BeforeMutation \<Rightarrow> la ''before'')"

definition validateProjectionV2 :: "jval \<Rightarrow> phase \<Rightarrow> jval \<Rightarrow> reason + projection" where
  "validateProjectionV2 v ph attempt =
    and_then (keys v [la ''version'', la ''phase'', la ''attemptId'', la ''snapshotId'', la ''previousSnapshotId'', la ''provenance'', la ''body'']) (\<lambda>p.
    and_then (require (obj_get p (la ''version'') = JNum (Fin 2) \<and> obj_get p (la ''phase'') = JStr (phase_name ph) \<and>
        str_is (is_hex 32) attempt \<and> obj_get p (la ''attemptId'') = attempt \<and> str_is is_uuid (obj_get p (la ''snapshotId'')) \<and>
        null_or (str_is is_uuid) (obj_get p (la ''previousSnapshotId'')) \<and>
        obj_get p (la ''previousSnapshotId'') \<noteq> obj_get p (la ''snapshotId'')) ProjectionIdentity) (\<lambda>_.
      let site = site_policy (obj_get p (la ''provenance''))
      in
    and_then (keys (obj_get p (la ''provenance'')) (provenance_names site)) (\<lambda>s.
    and_then (require (obj_get s (la ''kind'') = JStr (la ''sealed-repository-projection'') \<and>
        obj_get s (la ''evidenceId'') = JStr (evidence_id (str_of attempt) ph) \<and>
        str_is (is_hex 64) (obj_get s (la ''canonicalStateId'')) \<and> str_is (is_hex 40) (obj_get s (la ''sourceSha'')) \<and>
        (if site then obj_get s (la ''policyVersion'') = JNum (Fin 2) \<and> str_is (is_hex 64) (obj_get s (la ''policySha256''))
         else str_is (is_hex 40) (obj_get s (la ''frontendSha''))) \<and>
        obj_get s (la ''semantics'') = JStr (la ''go-next-c2-v2'') \<and> obj_get s (la ''snapshotStatus'') = JStr (la ''published'') \<and>
        obj_get s (la ''consistentRead'') = JBool True) UnqualifiedProvenance) (\<lambda>_.
    and_then (read_body ph (obj_get p (la ''body''))) (\<lambda>b.
      Inr \<lparr>pj_attemptId = str_of attempt, pj_snapshotId = str_of (obj_get p (la ''snapshotId'')),
           pj_previous = opt_str (obj_get p (la ''previousSnapshotId'')), pj_state = str_of (obj_get s (la ''canonicalStateId'')),
           pj_sourceSha = str_of (obj_get s (la ''sourceSha'')),
           pj_frontendSha = (if site then None else opt_str (obj_get s (la ''frontendSha''))),
           pj_policy = (if site then opt_str (obj_get s (la ''policySha256'')) else None), pj_body = b\<rparr>)))))"

definition eligible :: "pbody \<Rightarrow> candidate \<Rightarrow> bool" where
  "eligible b c \<longleftrightarrow> cd_snapshotAt c \<noteq> None \<and> cd_top c \<noteq> None \<and> cd_category c \<noteq> None \<and> cd_sitemap c \<noteq> None \<and>
     (case cd_slug c of None \<Rightarrow> False | Some s \<Rightarrow> s \<in> set (pb_slugs b))"

section \<open>The pages to watch\<close>

datatype target_name = ProductRu | ProductKk | SitemapPage | CatalogPage | DashboardPage | CategoryPage

text \<open>Before the publication there is no \<open>after\<close> yet.\<close>

record target =
  ot_name :: target_name
  ot_path :: jstr
  ot_productId :: jstr
  ot_slug :: jstr
  ot_before :: jstr
  ot_after :: "jstr option"
  ot_productBefore :: jstr
  ot_productAfter :: "jstr option"

definition target_path :: "target_name \<Rightarrow> jstr \<Rightarrow> jstr \<Rightarrow> jstr" where
  "target_path n pid slug =
    (case n of
       ProductRu \<Rightarrow> la ''/ru/products/'' @ pid
     | ProductKk \<Rightarrow> la ''/kk/products/'' @ pid
     | SitemapPage \<Rightarrow> la ''/sitemap.xml''
     | CatalogPage \<Rightarrow> la ''/ru/catalog''
     | DashboardPage \<Rightarrow> la ''/ru/dashboard''
     | CategoryPage \<Rightarrow> la ''/ru/collections/'' @ slug)"

text \<open>Which pages carry the time stamp of the product, the others that of the dashboard.\<close>

definition shows_product :: "target_name \<Rightarrow> bool" where
  "shows_product n \<longleftrightarrow> n \<in> {ProductRu, ProductKk, CategoryPage}"

definition TARGET_NAMES :: "target_name list" where
  "TARGET_NAMES = [ProductRu, ProductKk, SitemapPage, CatalogPage, DashboardPage, CategoryPage]"

definition targets_of :: "jstr \<Rightarrow> jstr \<Rightarrow> jstr \<Rightarrow> jstr \<Rightarrow> jstr \<Rightarrow> jstr \<Rightarrow> target list" where
  "targets_of pid slug dashBefore dashAfter productBefore productAfter =
    map (\<lambda>n. \<lparr>ot_name = n, ot_path = target_path n pid slug, ot_productId = pid, ot_slug = slug,
              ot_before = (if shows_product n then productBefore else dashBefore),
              ot_after = Some (if shows_product n then productAfter else dashAfter),
              ot_productBefore = productBefore, ot_productAfter = Some productAfter\<rparr>) TARGET_NAMES"

text \<open>A candidate's slug and time stamp, where they were checked not to be null.\<close>

definition cd_slug_of :: "candidate \<Rightarrow> jstr" where "cd_slug_of c = nullish (cd_slug c) []"
definition cd_time_of :: "candidate \<Rightarrow> jstr" where "cd_time_of c = nullish (cd_snapshotAt c) []"

definition targetsV2 :: "projection \<Rightarrow> projection \<Rightarrow> candidate \<Rightarrow> candidate \<Rightarrow> target list" where
  "targetsV2 b a p q =
    targets_of (cd_id p) (cd_slug_of p) (pb_dashboardAt (pj_body b)) (pb_dashboardAt (pj_body a)) (cd_time_of p) (cd_time_of q)"

definition without_after :: "target \<Rightarrow> target" where
  "without_after t = t\<lparr>ot_after := None, ot_productAfter := None\<rparr>"

record prepared =
  pp_before :: projection
  pp_witness :: candidate
  pp_targets :: "target list"

text \<open>The candidate that can be watched with the least identifier.\<close>

definition watchable :: "pbody \<Rightarrow> candidate \<Rightarrow> bool" where
  "watchable b c \<longleftrightarrow> cd_snapshotAt c \<noteq> None \<and> cd_category c \<noteq> None \<and> cd_sitemap c \<noteq> None \<and>
     (case cd_slug c of None \<Rightarrow> False | Some s \<Rightarrow> s \<in> set (pb_slugs b))"

definition least_watchable :: "pbody \<Rightarrow> candidate option" where
  "least_watchable b =
    (case js_sort (\<lambda>x y. str_le (cd_id x) (cd_id y)) (filter (watchable b) (pb_candidates b)) of [] \<Rightarrow> None | c # _ \<Rightarrow> Some c)"

definition attempt_of :: "jval \<Rightarrow> jval" where
  "attempt_of v = (case v of JObj ob \<Rightarrow> obj_get ob (la ''attemptId'') | _ \<Rightarrow> JUndef)"

definition prepareBeforeV2 :: "jval \<Rightarrow> prepared option" where
  "prepareBeforeV2 before =
    (case validateProjectionV2 before BeforeMutation (attempt_of before) of
       Inl _ \<Rightarrow> None
     | Inr b \<Rightarrow>
         (case least_watchable (pj_body b) of
            None \<Rightarrow> None
          | Some w \<Rightarrow>
              if pb_witness (pj_body b) \<noteq> Some (cd_id w) \<or> \<not> eligible (pj_body b) w then None
              else Some \<lparr>pp_before = b, pp_witness = w, pp_targets = map without_after (targetsV2 b b w w)\<rparr>))"

record manifest =
  mf_snapshotId :: jstr
  mf_attemptId :: jstr
  mf_targets :: "target list"

definition find_candidate :: "projection \<Rightarrow> jstr \<Rightarrow> candidate option" where
  "find_candidate b i = List.find (\<lambda>c. cd_id c = i) (pb_candidates (pj_body b))"

definition buildManifestV2 :: "(jstr \<times> jval) list \<Rightarrow> reason + manifest" where
  "buildManifestV2 ob0 =
    and_then (keys (JObj ob0) [la ''version'', la ''attemptId'', la ''before'', la ''after'']) (\<lambda>ob.
      case prepareBeforeV2 (obj_get ob (la ''before'')) of
        None \<Rightarrow> Inl UnqualifiedBefore
      | Some pre \<Rightarrow>
          let b = pp_before pre
          in
          and_then (require (obj_get ob (la ''attemptId'') = attempt_of (obj_get ob (la ''before''))) UnqualifiedBefore) (\<lambda>_.
          and_then (validateProjectionV2 (obj_get ob (la ''after'')) AfterCommit (obj_get ob (la ''attemptId''))) (\<lambda>a.
          and_then (require (pj_previous a = Some (pj_snapshotId b) \<and> pj_snapshotId a \<noteq> pj_snapshotId b) SnapshotChain) (\<lambda>_.
          and_then (require (pj_sourceSha a = pj_sourceSha b \<and> pj_frontendSha a = pj_frontendSha b \<and> pj_policy a = pj_policy b \<and>
              pj_state a \<noteq> pj_state b) ConflictingProvenance) (\<lambda>_.
            let p = pp_witness pre
            in case find_candidate a (cd_id p) of
                 None \<Rightarrow> Inl UnqualifiedAfter
               | Some q \<Rightarrow>
                   and_then (require (pb_witness (pj_body a) = Some (cd_id p) \<and> eligible (pj_body a) q \<and> cd_slug q = cd_slug p) UnqualifiedAfter) (\<lambda>_.
                   and_then (require (str_lt (cd_time_of p) (cd_time_of q) \<and>
                       str_lt (pb_dashboardAt (pj_body b)) (pb_dashboardAt (pj_body a))) UnchangedMarker) (\<lambda>_.
                     Inr \<lparr>mf_snapshotId = pj_snapshotId a, mf_attemptId = str_of (obj_get ob (la ''attemptId'')),
                          mf_targets = targetsV2 b a p q\<rparr>)))))))"

section \<open>Version 1\<close>

record product_v1 =
  pv_id :: jstr
  pv_slug :: jstr
  pv_snapshotAt :: jstr

record projection_v1 =
  p1_kind :: jval
  p1_evidenceId :: jval
  p1_state :: jval
  p1_sourceSha :: jval
  p1_frontendSha :: jval
  p1_dashboardAt :: jstr
  p1_topEight :: "jstr list"
  p1_products :: "product_v1 list"
  p1_pages :: "(jstr \<times> jstr list) list"
  p1_slugs :: "jstr list"
  p1_productIds :: "jstr list"

definition read_product :: "jstr \<Rightarrow> jstr list \<Rightarrow> product_v1 list \<Rightarrow> jval \<Rightarrow> reason + product_v1 list" where
  "read_product dashboardAt eight seen v =
    and_then (keys v [la ''id'', la ''slug'', la ''snapshotAt'']) (\<lambda>ob.
      let c = \<lparr>pv_id = str_of (obj_get ob (la ''id'')), pv_slug = str_of (obj_get ob (la ''slug'')), pv_snapshotAt = str_of (obj_get ob (la ''snapshotAt''))\<rparr>
      in
      and_then (require (str_is is_id (obj_get ob (la ''id'')) \<and> str_is is_slug (obj_get ob (la ''slug'')) \<and>
          str_is is_iso (obj_get ob (la ''snapshotAt'')) \<and> str_le (pv_snapshotAt c) dashboardAt \<and>
          pv_id c \<notin> set (map pv_id seen) \<and> pv_id c \<in> set eight) InvalidProducts) (\<lambda>_.
        Inr (seen @ [c])))"

definition projection_of :: "jval \<Rightarrow> phase \<Rightarrow> jval \<Rightarrow> jval \<Rightarrow> reason + projection_v1" where
  "projection_of v ph snapshotId attemptId =
    and_then (keys v [la ''snapshotId'', la ''attemptId'', la ''provenance'', la ''dashboardAt'', la ''topEight'', la ''products'', la ''categoryPages'', la ''sitemap'']) (\<lambda>p.
    and_then (require (obj_get p (la ''snapshotId'') = snapshotId \<and> obj_get p (la ''attemptId'') = attemptId \<and>
        str_is is_iso (obj_get p (la ''dashboardAt''))) ProjectionIdentity) (\<lambda>_.
    and_then (keys (obj_get p (la ''provenance'')) [la ''kind'', la ''evidenceId'', la ''phase'', la ''canonicalStateId'', la ''sourceSha'',
        la ''frontendSha'', la ''semantics'', la ''snapshotStatus'', la ''consistentRead'', la ''exclusiveWindow'']) (\<lambda>s.
    and_then (require (obj_get s (la ''kind'') \<in> {JStr (la ''fixture''), JStr (la ''sealed-repository-projection'')} \<and>
        str_is is_id (obj_get s (la ''evidenceId'')) \<and> str_is is_id (obj_get s (la ''canonicalStateId'')) \<and>
        obj_get s (la ''phase'') = JStr (phase_name ph) \<and> str_is (is_hex 40) (obj_get s (la ''sourceSha'')) \<and>
        str_is (is_hex 40) (obj_get s (la ''frontendSha'')) \<and> obj_get s (la ''semantics'') = JStr (la ''go-next-c2-v1'') \<and>
        obj_get s (la ''snapshotStatus'') = JStr (la ''published'') \<and> obj_get s (la ''consistentRead'') = JBool True \<and>
        obj_get s (la ''exclusiveWindow'') = JBool True) UnqualifiedProvenance) (\<lambda>_.
    and_then (items (obj_get p (la ''topEight'')) 8 (str_is is_id)) (\<lambda>top.
    and_then (items (obj_get p (la ''products'')) 8 (\<lambda>_. True)) (\<lambda>products.
    and_then (require (length products = length top) InvalidProducts) (\<lambda>_.
    and_then (read_all (read_product (str_of (obj_get p (la ''dashboardAt''))) (map str_of top)) [] products) (\<lambda>ps.
    and_then (items (obj_get p (la ''categoryPages'')) 8 (\<lambda>_. True)) (\<lambda>pages.
    and_then (read_all (read_page 24) [] pages) (\<lambda>cs.
    and_then (keys (obj_get p (la ''sitemap'')) [la ''categorySlugs'', la ''productIds'']) (\<lambda>m.
    and_then (items (obj_get m (la ''categorySlugs'')) 64 (str_is is_slug)) (\<lambda>slugs.
    and_then (items (obj_get m (la ''productIds'')) 5000 (str_is is_id)) (\<lambda>ids.
      Inr \<lparr>p1_kind = obj_get s (la ''kind''), p1_evidenceId = obj_get s (la ''evidenceId''), p1_state = obj_get s (la ''canonicalStateId''),
           p1_sourceSha = obj_get s (la ''sourceSha''), p1_frontendSha = obj_get s (la ''frontendSha''),
           p1_dashboardAt = str_of (obj_get p (la ''dashboardAt'')), p1_topEight = map str_of top, p1_products = ps, p1_pages = cs,
           p1_slugs = map str_of slugs, p1_productIds = map str_of ids\<rparr>)))))))))))))"

definition eligible_v1 :: "projection_v1 \<Rightarrow> product_v1 \<Rightarrow> bool" where
  "eligible_v1 s p \<longleftrightarrow> pv_id p \<in> set (p1_topEight s) \<and>
     (case map_of (p1_pages s) (pv_slug p) of None \<Rightarrow> False | Some ids \<Rightarrow> pv_id p \<in> set ids) \<and>
     pv_slug p \<in> set (p1_slugs s) \<and> pv_id p \<in> set (p1_productIds s)"

definition product_of :: "projection_v1 \<Rightarrow> jstr \<Rightarrow> product_v1 option" where
  "product_of s i = List.find (\<lambda>p. pv_id p = i) (p1_products s)"

text \<open>The products of both projections, by identifier; the first that stayed and changed is the witness.\<close>

definition stable_witness :: "projection_v1 \<Rightarrow> projection_v1 \<Rightarrow> product_v1 \<times> product_v1 option \<Rightarrow> bool" where
  "stable_witness b a = (\<lambda>(p, r). case r of None \<Rightarrow> False
     | Some q \<Rightarrow> pv_slug p = pv_slug q \<and> str_lt (pv_snapshotAt p) (pv_snapshotAt q) \<and> eligible_v1 b p \<and> eligible_v1 a q)"

definition selected_v1 :: "projection_v1 \<Rightarrow> projection_v1 \<Rightarrow> (product_v1 \<times> product_v1) option" where
  "selected_v1 b a =
    map_option (\<lambda>(p, r). (p, the r))
      (List.find (stable_witness b a)
        (map (\<lambda>p. (p, product_of a (pv_id p))) (js_sort (\<lambda>x y. str_le (pv_id x) (pv_id y)) (p1_products b))))"

definition buildManifestV1 :: "jval \<Rightarrow> reason + manifest" where
  "buildManifestV1 input =
    and_then (keys input [la ''version'', la ''attemptId'', la ''beforeSnapshotId'', la ''afterSnapshotId'', la ''before'', la ''after'']) (\<lambda>ob.
    and_then (require (obj_get ob (la ''version'') = JNum (Fin 1) \<and> str_is (is_hex 32) (obj_get ob (la ''attemptId'')) \<and>
        str_is is_uuid (obj_get ob (la ''beforeSnapshotId'')) \<and> str_is is_uuid (obj_get ob (la ''afterSnapshotId'')) \<and>
        obj_get ob (la ''beforeSnapshotId'') \<noteq> obj_get ob (la ''afterSnapshotId'')) InvalidRun) (\<lambda>_.
    and_then (projection_of (obj_get ob (la ''before'')) BeforeMutation (obj_get ob (la ''beforeSnapshotId'')) (obj_get ob (la ''attemptId''))) (\<lambda>b.
    and_then (projection_of (obj_get ob (la ''after'')) AfterCommit (obj_get ob (la ''afterSnapshotId'')) (obj_get ob (la ''attemptId''))) (\<lambda>a.
    and_then (require (p1_kind b = p1_kind a \<and> p1_sourceSha b = p1_sourceSha a \<and> p1_frontendSha b = p1_frontendSha a \<and>
        p1_evidenceId b \<noteq> p1_evidenceId a \<and> p1_state b \<noteq> p1_state a) ConflictingProvenance) (\<lambda>_.
    and_then (require (str_lt (p1_dashboardAt b) (p1_dashboardAt a)) UnchangedDashboard) (\<lambda>_.
      case selected_v1 b a of
        None \<Rightarrow> Inl NoChangedWitness
      | Some (p, q) \<Rightarrow>
          Inr \<lparr>mf_snapshotId = str_of (obj_get ob (la ''afterSnapshotId'')), mf_attemptId = str_of (obj_get ob (la ''attemptId'')),
               mf_targets = targets_of (pv_id p) (pv_slug p) (p1_dashboardAt b) (p1_dashboardAt a) (pv_snapshotAt p) (pv_snapshotAt q)\<rparr>))))))"

definition buildManifest :: "jval \<Rightarrow> reason + manifest" where
  "buildManifest input =
    (case input of
       JObj ob \<Rightarrow> if obj_get ob (la ''version'') = JNum (Fin 2) then buildManifestV2 ob else buildManifestV1 input
     | _ \<Rightarrow> buildManifestV1 input)"

section \<open>Lemmas\<close>

lemma require_Inr [result_simps]: "require P r = Inr u \<longleftrightarrow> P"
  by (simp add: require_def)

lemma str_is_of: "str_is P v \<longleftrightarrow> (\<exists>s. v = JStr s \<and> P s)"
  by (simp add: str_is_def split: jval.splits)

text \<open>A page is watched with different valid time stamps, on the path of its own product or category.\<close>

definition sound_target :: "target \<Rightarrow> bool" where
  "sound_target t \<longleftrightarrow>
    is_iso (ot_before t) \<and> is_iso (ot_productBefore t) \<and> is_id (ot_productId t) \<and> is_slug (ot_slug t) \<and>
    ot_path t = target_path (ot_name t) (ot_productId t) (ot_slug t) \<and>
    (case (ot_after t, ot_productAfter t) of
       (Some a, Some q) \<Rightarrow> is_iso a \<and> is_iso q \<and> str_lt (ot_before t) a \<and> str_lt (ot_productBefore t) q
     | (None, None) \<Rightarrow> True
     | _ \<Rightarrow> False)"

lemma targets_of_sound:
  assumes "is_id pid" "is_slug slug" "is_iso d" "is_iso d'" "is_iso t" "is_iso t'" "str_lt d d'" "str_lt t t'"
  shows "list_all sound_target (targets_of pid slug d d' t t')"
  using assms by (simp add: targets_of_def TARGET_NAMES_def sound_target_def)

lemma targets_of_names: "map ot_name (targets_of pid slug d d' t t') = TARGET_NAMES"
  by (simp add: targets_of_def comp_def)

lemma read_all_inv:
  assumes "read_all f s xs = Inr s'" and "I s" and "\<And>s x s'. f s x = Inr s' \<Longrightarrow> I s \<Longrightarrow> I s'"
  shows "I s'"
  using assms(1,2) by (induction xs arbitrary: s) (auto simp: result_simps dest: assms(3))

definition candidate_ok :: "candidate \<Rightarrow> bool" where
  "candidate_ok c \<longleftrightarrow> is_id (cd_id c) \<and> (case cd_slug c of None \<Rightarrow> True | Some s \<Rightarrow> is_slug s) \<and>
     (case cd_snapshotAt c of None \<Rightarrow> True | Some t \<Rightarrow> is_iso t)"

definition candidates_ok :: "candidate list \<Rightarrow> bool" where
  "candidates_ok cs \<longleftrightarrow> distinct (map cd_id cs) \<and> list_all candidate_ok cs"

lemma null_or_str: "null_or (str_is P) v \<Longrightarrow> opt_str v = Some s \<Longrightarrow> P s"
  by (auto simp: null_or_def str_is_of opt_str_def)

lemma read_candidate_ok:
  assumes "read_candidate ph b seen v = Inr seen'" and "candidates_ok seen"
  shows "candidates_ok seen'"
proof -
  obtain ob where c: "seen' = seen @ [candidate_of ob]" "str_is is_id (obj_get ob (la ''id''))" "cd_id (candidate_of ob) \<notin> set (map cd_id seen)"
      "null_or (str_is is_slug) (obj_get ob (la ''slug''))" "null_or (str_is is_iso) (obj_get ob (la ''snapshotAt''))"
    using assms(1) unfolding read_candidate_def Let_def result_simps sum.inject by blast
  have "candidate_ok (candidate_of ob)"
    using c(2) null_or_str [OF c(4)] null_or_str [OF c(5)] by (auto simp: candidate_ok_def candidate_of_def str_is_of str_of_def split: option.splits)
  with assms(2) c(1,3) show ?thesis by (simp add: candidates_ok_def)
qed

text \<open>What the validation of a projection guarantees about its body.\<close>

definition body_ok :: "pbody \<Rightarrow> bool" where
  "body_ok b \<longleftrightarrow> is_iso (pb_dashboardAt b) \<and> candidates_ok (pb_candidates b)"

lemma read_candidates_ok: "read_all (read_candidate ph b) [] xs = Inr cs \<Longrightarrow> candidates_ok cs"
  by (erule read_all_inv [where I = candidates_ok]) (simp add: candidates_ok_def, erule (1) read_candidate_ok)

lemma read_body_ok: "read_body ph v = Inr b \<Longrightarrow> body_ok b"
  by (auto simp: read_body_def Let_def result_simps body_ok_def str_is_of str_of_def dest: read_candidates_ok)

lemma validateProjectionV2_ok: "validateProjectionV2 v ph attempt = Inr p \<Longrightarrow> body_ok (pj_body p) \<and> str_is (is_hex 32) attempt \<and> pj_attemptId p = str_of attempt"
  by (auto simp: validateProjectionV2_def Let_def result_simps dest: read_body_ok)

lemma least_watchable_in: "least_watchable b = Some w \<Longrightarrow> w \<in> set (pb_candidates b) \<and> watchable b w"
proof -
  let ?s = "js_sort (\<lambda>x y. str_le (cd_id x) (cd_id y)) (filter (watchable b) (pb_candidates b))"
  assume "least_watchable b = Some w"
  then obtain cs where "?s = w # cs" by (auto simp: least_watchable_def split: list.splits)
  then have "w \<in> set ?s" by simp
  then show ?thesis by simp
qed

lemma eligible_parts:
  assumes "eligible b c" and "candidate_ok c"
  shows "is_iso (cd_time_of c)" and "is_slug (cd_slug_of c)" and "cd_slug c = Some (cd_slug_of c)" and "cd_snapshotAt c = Some (cd_time_of c)"
  using assms by (auto simp: eligible_def candidate_ok_def cd_time_of_def cd_slug_of_def split: option.splits)

lemma prepared_ok:
  assumes "prepareBeforeV2 v = Some pre"
  shows "body_ok (pj_body (pp_before pre))" and "candidate_ok (pp_witness pre)" and "eligible (pj_body (pp_before pre)) (pp_witness pre)"
    and "pp_witness pre \<in> set (pb_candidates (pj_body (pp_before pre)))"
    and "pp_targets pre = map without_after (targetsV2 (pp_before pre) (pp_before pre) (pp_witness pre) (pp_witness pre))"
    and "str_is (is_hex 32) (attempt_of v)"
proof -
  obtain b w where b: "validateProjectionV2 v BeforeMutation (attempt_of v) = Inr b" and w: "least_watchable (pj_body b) = Some w"
    and e: "eligible (pj_body b) w" and pre: "pre = \<lparr>pp_before = b, pp_witness = w, pp_targets = map without_after (targetsV2 b b w w)\<rparr>"
    using assms by (auto simp: prepareBeforeV2_def split: sum.splits option.splits if_splits)
  show "body_ok (pj_body (pp_before pre))" "str_is (is_hex 32) (attempt_of v)" using validateProjectionV2_ok [OF b] pre by simp_all
  then show "candidate_ok (pp_witness pre)" "pp_witness pre \<in> set (pb_candidates (pj_body (pp_before pre)))"
    using least_watchable_in [OF w] by (auto simp: pre body_ok_def candidates_ok_def list_all_iff)
  show "eligible (pj_body (pp_before pre)) (pp_witness pre)"
    "pp_targets pre = map without_after (targetsV2 (pp_before pre) (pp_before pre) (pp_witness pre) (pp_witness pre))"
    using e by (simp_all add: pre)
qed

lemma find_candidate_ok: "body_ok (pj_body a) \<Longrightarrow> find_candidate a i = Some q \<Longrightarrow> candidate_ok q"
  by (auto simp: find_candidate_def body_ok_def candidates_ok_def list_all_iff dest: find_Some_iff)

lemma buildManifestV2_parts:
  assumes "buildManifestV2 ob = Inr m"
  obtains pre a q where "prepareBeforeV2 (obj_get ob (la ''before'')) = Some pre"
    and "validateProjectionV2 (obj_get ob (la ''after'')) AfterCommit (obj_get ob (la ''attemptId'')) = Inr a"
    and "obj_get ob (la ''attemptId'') = attempt_of (obj_get ob (la ''before''))"
    and "pj_previous a = Some (pj_snapshotId (pp_before pre))" and "pj_state a \<noteq> pj_state (pp_before pre)"
    and "candidate_ok q" and "eligible (pj_body a) q" and "cd_slug q = cd_slug (pp_witness pre)"
    and "str_lt (cd_time_of (pp_witness pre)) (cd_time_of q)"
    and "str_lt (pb_dashboardAt (pj_body (pp_before pre))) (pb_dashboardAt (pj_body a))"
    and "m = \<lparr>mf_snapshotId = pj_snapshotId a, mf_attemptId = str_of (obj_get ob (la ''attemptId'')),
              mf_targets = targetsV2 (pp_before pre) a (pp_witness pre) q\<rparr>"
proof -
  have k: "keys (JObj ob) ns = Inr ob' \<Longrightarrow> ob' = ob" for ns ob' by (simp add: keys_def split: if_splits)
  obtain pre a q where pre: "prepareBeforeV2 (obj_get ob (la ''before'')) = Some pre"
    and a: "validateProjectionV2 (obj_get ob (la ''after'')) AfterCommit (obj_get ob (la ''attemptId'')) = Inr a"
    and q: "find_candidate a (cd_id (pp_witness pre)) = Some q"
    and rest: "obj_get ob (la ''attemptId'') = attempt_of (obj_get ob (la ''before''))"
      "pj_previous a = Some (pj_snapshotId (pp_before pre))" "pj_state a \<noteq> pj_state (pp_before pre)"
      "eligible (pj_body a) q" "cd_slug q = cd_slug (pp_witness pre)"
      "str_lt (cd_time_of (pp_witness pre)) (cd_time_of q)" "str_lt (pb_dashboardAt (pj_body (pp_before pre))) (pb_dashboardAt (pj_body a))"
      "m = \<lparr>mf_snapshotId = pj_snapshotId a, mf_attemptId = str_of (obj_get ob (la ''attemptId'')),
        mf_targets = targetsV2 (pp_before pre) a (pp_witness pre) q\<rparr>"
    using assms by (auto simp: buildManifestV2_def result_simps Let_def split: option.splits dest!: k)
  have "candidate_ok q" using find_candidate_ok [OF _ q] validateProjectionV2_ok [OF a] by blast
  then show thesis using that [OF pre a] rest by blast
qed

text \<open>Products of version 1.\<close>

definition products_ok :: "product_v1 list \<Rightarrow> bool" where
  "products_ok = list_all (\<lambda>p. is_id (pv_id p) \<and> is_slug (pv_slug p) \<and> is_iso (pv_snapshotAt p))"

lemma read_products_ok: "read_all (read_product d eight) [] xs = Inr ps \<Longrightarrow> products_ok ps"
  by (erule read_all_inv) (auto simp: products_ok_def read_product_def Let_def result_simps str_is_of str_of_def)

lemma projection_of_ok: "projection_of v ph i j = Inr b \<Longrightarrow> is_iso (p1_dashboardAt b) \<and> products_ok (p1_products b)"
  by (auto simp: projection_of_def result_simps str_is_of str_of_def dest: read_products_ok)

lemma selected_v1_ok:
  assumes "selected_v1 b a = Some (p, q)" and "products_ok (p1_products b)" and "products_ok (p1_products a)"
  shows "is_id (pv_id p) \<and> is_slug (pv_slug p) \<and> is_iso (pv_snapshotAt p) \<and> is_iso (pv_snapshotAt q) \<and> str_lt (pv_snapshotAt p) (pv_snapshotAt q)"
proof -
  obtain r where r: "List.find (stable_witness b a) (map (\<lambda>p. (p, product_of a (pv_id p))) (js_sort (\<lambda>x y. str_le (pv_id x) (pv_id y)) (p1_products b))) = Some (p, r)"
    and q: "q = the r" using assms(1) by (auto simp: selected_v1_def)
  from find_Some_iff [OF r] have w: "stable_witness b a (p, r)" and p: "p \<in> set (p1_products b)" and r': "r = product_of a (pv_id p)"
    by (auto simp: js_sort_facts)
  then obtain q' where q': "r = Some q'" by (auto simp: stable_witness_def split: option.splits)
  then have "q' \<in> set (p1_products a)" using r' by (auto simp: product_of_def dest: find_Some_iff)
  with w p q q' assms(2,3) show ?thesis by (auto simp: stable_witness_def products_ok_def list_all_iff)
qed

text \<open>The watched pages of a manifest of either version.\<close>

lemma buildManifest_targets:
  assumes "buildManifest input = Inr m"
  shows "list_all sound_target (mf_targets m)" and "map ot_name (mf_targets m) = TARGET_NAMES"
    and "list_all (\<lambda>t. ot_after t \<noteq> None) (mf_targets m)"
proof -
  have "\<exists>pid slug d d' t t'. mf_targets m = targets_of pid slug d d' t t' \<and> is_id pid \<and> is_slug slug \<and>
      is_iso d \<and> is_iso d' \<and> is_iso t \<and> is_iso t' \<and> str_lt d d' \<and> str_lt t t'"
  proof (cases "\<exists>ob. input = JObj ob \<and> obj_get ob (la ''version'') = JNum (Fin 2)")
    case True
    then obtain ob where "buildManifestV2 ob = Inr m" using assms by (auto simp: buildManifest_def)
    then show ?thesis
    proof (rule buildManifestV2_parts)
      fix pre a q assume pre: "prepareBeforeV2 (obj_get ob (la ''before'')) = Some pre"
        and a: "validateProjectionV2 (obj_get ob (la ''after'')) AfterCommit (obj_get ob (la ''attemptId'')) = Inr a"
        and q: "candidate_ok q" "eligible (pj_body a) q" "cd_slug q = cd_slug (pp_witness pre)"
        and lt: "str_lt (cd_time_of (pp_witness pre)) (cd_time_of q)" "str_lt (pb_dashboardAt (pj_body (pp_before pre))) (pb_dashboardAt (pj_body a))"
        and m: "m = \<lparr>mf_snapshotId = pj_snapshotId a, mf_attemptId = str_of (obj_get ob (la ''attemptId'')), mf_targets = targetsV2 (pp_before pre) a (pp_witness pre) q\<rparr>"
      note p = prepared_ok [OF pre]
      have "is_id (cd_id (pp_witness pre))" "is_iso (pb_dashboardAt (pj_body (pp_before pre)))" using p(1,2) by (simp_all add: candidate_ok_def body_ok_def)
      moreover have "is_iso (pb_dashboardAt (pj_body a))" using validateProjectionV2_ok [OF a] by (simp add: body_ok_def)
      ultimately show ?thesis
        using eligible_parts(1,2) [OF p(3) p(2)] eligible_parts(1) [OF q(2,1)] lt unfolding m targetsV2_def manifest.simps by blast
    qed
  next
    case False
    then have "buildManifestV1 input = Inr m" using assms by (auto simp: buildManifest_def split: jval.splits if_splits)
    then obtain ob b a p q where b: "projection_of (obj_get ob (la ''before'')) BeforeMutation (obj_get ob (la ''beforeSnapshotId'')) (obj_get ob (la ''attemptId'')) = Inr b"
      and a: "projection_of (obj_get ob (la ''after'')) AfterCommit (obj_get ob (la ''afterSnapshotId'')) (obj_get ob (la ''attemptId'')) = Inr a"
      and lt: "str_lt (p1_dashboardAt b) (p1_dashboardAt a)" and sel: "selected_v1 b a = Some (p, q)"
      and m: "mf_targets m = targets_of (pv_id p) (pv_slug p) (p1_dashboardAt b) (p1_dashboardAt a) (pv_snapshotAt p) (pv_snapshotAt q)"
      by (auto simp: buildManifestV1_def result_simps split: option.splits)
    show ?thesis
      using m lt projection_of_ok [OF b] projection_of_ok [OF a] selected_v1_ok [OF sel] by blast
  qed
  then show "list_all sound_target (mf_targets m)" "map ot_name (mf_targets m) = TARGET_NAMES" "list_all (\<lambda>t. ot_after t \<noteq> None) (mf_targets m)"
    by (auto simp: targets_of_sound targets_of_names) (simp add: targets_of_def list_all_iff)
qed

text \<open>The pages watched for a publication are those its manifest then judges.\<close>

lemma manifest_extends_prepared:
  assumes "buildManifestV2 ob = Inr m"
  shows "\<exists>pre. prepareBeforeV2 (obj_get ob (la ''before'')) = Some pre \<and> map without_after (mf_targets m) = pp_targets pre"
  using assms
proof (rule buildManifestV2_parts)
  fix pre a q assume pre: "prepareBeforeV2 (obj_get ob (la ''before'')) = Some pre"
    and m: "m = \<lparr>mf_snapshotId = pj_snapshotId a, mf_attemptId = str_of (obj_get ob (la ''attemptId'')), mf_targets = targetsV2 (pp_before pre) a (pp_witness pre) q\<rparr>"
  show ?thesis
    using pre prepared_ok(5) [OF pre] by (intro exI [of _ pre]) (simp add: m targetsV2_def targets_of_def without_after_def)
qed

end
