(* ===== verification/Observer.thy ===== *)
theory Observer
  imports Manifest
begin

text \<open>
  The observer of a publication (\<open>scripts/revalidation/production-observer.mjs\<close>): the event it
  measures from, the time stamps it reads from the six pages, the plan of the requests, the
  six concurrent sampling loops as a step relation, and the verdicts. The clock, the transport
  and \<open>JSON.parse\<close> are parameters; times are milliseconds.
\<close>

section \<open>Limits and errors\<close>

definition ACCEPTANCE :: rat where "ACCEPTANCE = 5000"
definition END_MS :: rat where "END_MS = 20000"
definition TIMEOUT :: rat where "TIMEOUT = 4000"
definition MAX_REQUESTS :: nat where "MAX_REQUESTS = 21"
definition BODY_BYTES :: nat where "BODY_BYTES = 2097152"
definition SITEMAP_BYTES :: nat where "SITEMAP_BYTES = 8388608"
definition PAUSE :: rat where "PAUSE = 2500"

datatype obs_error =
  TimedOut | Redirected | Non200 | OversizedBody | MissingMarker | UnexpectedRevision | EncodedBody | TransportError

text \<open>What \<open>Date.parse\<close> accepts of the fixed shape: every month has up to 31 days, and 24:00 is midnight.\<close>

definition iso_stamp :: "jstr \<Rightarrow> bool" where
  "iso_stamp s \<longleftrightarrow> iso_shape s \<and>
    1 \<le> digits_at 5 2 s \<and> digits_at 5 2 s \<le> 12 \<and> 1 \<le> digits_at 8 2 s \<and> digits_at 8 2 s \<le> 31 \<and>
    (digits_at 11 2 s \<le> 23 \<and> digits_at 14 2 s \<le> 59 \<and> digits_at 17 2 s \<le> 59 \<or>
     digits_at 11 2 s = 24 \<and> digits_at 14 2 s = 0 \<and> digits_at 17 2 s = 0 \<and> digits_at 20 3 s = 0)"

section \<open>The event\<close>

record event =
  ev_start :: rat
  ev_end :: rat
  ev_receivedUTC :: rat
  ev_publicationId :: jstr
  ev_receipt :: jval

record event_source =
  es_started :: "rat option"
  es_event :: "event option"
  es_publicationId :: jstr

datatype event_error = EventAlreadyStarted | UnverifiedPublication | UnverifiedEvent | ClockUncertainty

definition new_source :: event_source where
  "new_source = \<lparr>es_started = None, es_event = None, es_publicationId = []\<rparr>"

definition begin_event :: "event_source \<Rightarrow> jstr \<Rightarrow> rat \<Rightarrow> event_error + event_source" where
  "begin_event s i now =
    (if es_started s \<noteq> None then Inl EventAlreadyStarted
     else if \<not> is_id i then Inl UnverifiedPublication
     else Inr (s\<lparr>es_started := Some now, es_publicationId := i\<rparr>))"

definition accept204 :: "event_source \<Rightarrow> int \<Rightarrow> jval \<Rightarrow> rat \<Rightarrow> rat \<Rightarrow> event_error + event_source" where
  "accept204 s status receipt now utc =
    (case es_started s of
       None \<Rightarrow> Inl UnverifiedEvent
     | Some started \<Rightarrow>
         if es_event s \<noteq> None \<or> status \<noteq> 204 then Inl UnverifiedEvent
         else if now < started then Inl ClockUncertainty
         else Inr (s\<lparr>es_event := Some \<lparr>ev_start = started, ev_end = now, ev_receivedUTC = utc,
                ev_publicationId = es_publicationId s, ev_receipt = receipt\<rparr>\<rparr>))"

section \<open>Reading a page\<close>

text \<open>\<open>v?.k\<close>; and \<open>v.k\<close>, which throws on null and undefined.\<close>

definition field :: "jval \<Rightarrow> jstr \<Rightarrow> jval" where
  "field v k = (case v of JObj ob \<Rightarrow> obj_get ob k | _ \<Rightarrow> JUndef)"

definition access :: "jval \<Rightarrow> jstr \<Rightarrow> obs_error + jval" where
  "access v k = (if v = JUndef \<or> v = JNull then Inl TransportError else Inr (field v k))"

definition at_index :: "jval \<Rightarrow> nat \<Rightarrow> jval" where
  "at_index v i = (case v of JArr xs \<Rightarrow> (if i < length xs then xs ! i else JUndef) | JObj ob \<Rightarrow> obj_get ob (show_nat (int i)) | _ \<Rightarrow> JUndef)"

record hydrated =
  hq_key :: "jval list"
  hq_data :: jval

definition own_query :: "(jstr \<times> jval) list \<Rightarrow> hydrated list" where
  "own_query ob =
    (case (obj_get ob (la ''queryKey''), obj_get ob (la ''state'')) of
       (JArr k, JObj st) \<Rightarrow> if la ''data'' \<in> set (js_keys st) then [\<lparr>hq_key = k, hq_data = obj_get st (la ''data'')\<rparr>] else []
     | _ \<Rightarrow> [])"

fun visit :: "jval \<Rightarrow> hydrated list" where
  "visit (JObj ob) = own_query ob @ concat (map (\<lambda>(k, v). visit v) ob)"
| "visit (JArr xs) = concat (map visit xs)"
| "visit v = []"

definition rx_flight :: rx where
  "rx_flight = sq [lit (la ''<script''), many (Ch (Cls True [(62, 62)])), lit (la ''>self.__next_f.push(''), Grp 1 (Star False (Ch c_any)), lit (la '')</script>'')]"

definition rx_record :: rx where
  "rx_record = sq [Bol, many1 (Ch (Cls False [(48, 57), (97, 102)])), lit (la '':''), Grp 1 (sq [Ch (Cls False [(91, 91), (123, 123)]), many (Ch c_dot)]), Eol]"

definition chunk_text :: "(jstr \<Rightarrow> jval option) \<Rightarrow> (nat \<times> jstr) list \<Rightarrow> jstr" where
  "chunk_text parse_json m =
    (case parse_json (nullish (map_of m 1) []) of
       None \<Rightarrow> []
     | Some c \<Rightarrow> (case at_index c 1 of JStr s \<Rightarrow> if at_index c 0 = JNum (Fin 1) then s else [] | _ \<Rightarrow> []))"

definition record_queries :: "(jstr \<Rightarrow> jval option) \<Rightarrow> jstr \<Rightarrow> hydrated list" where
  "record_queries parse_json l =
    (case rx_group 1 rx_record l of
       None \<Rightarrow> []
     | Some t \<Rightarrow> (case parse_json t of None \<Rightarrow> [] | Some v \<Rightarrow> visit v))"

definition hydratedQueries :: "(jstr \<Rightarrow> jval option) \<Rightarrow> jstr \<Rightarrow> hydrated list" where
  "hydratedQueries parse_json html =
    (let flight = concat (map (chunk_text parse_json) (rx_matches rx_flight html))
     in concat (map (record_queries parse_json) (split_ch 10 flight)))"

definition sitemapPaths :: "target \<Rightarrow> jstr list" where
  "sitemapPaths t =
    concat (map (\<lambda>p. [la ''/ru/'' @ p, la ''/kk/'' @ p])
      [la ''catalog'', la ''dashboard'', la ''collections/'' @ ot_slug t, la ''products/'' @ ot_productId t])"

definition rx_url_entry :: rx where
  "rx_url_entry = sq [lit (la ''<url>''), Grp 1 (Star False (Ch c_any)), lit (la ''</url>'')]"

definition rx_lastmod :: rx where
  "rx_lastmod = sq [lit (la ''<lastmod>''), Grp 1 (many1 (Ch (Cls True [(60, 60)]))), lit (la ''</lastmod>'')]"

definition sitemap_stamp :: "jstr \<Rightarrow> jstr \<Rightarrow> obs_error + jstr" where
  "sitemap_stamp body path =
    (case filter (\<lambda>e. str_includes e (la ''<loc>https://aktau.market'' @ path @ la ''</loc>''))
        (map (\<lambda>m. nullish (map_of m 1) []) (rx_matches rx_url_entry body)) of
       [e] \<Rightarrow> (case rx_group 1 rx_lastmod e of
                Some s \<Rightarrow> if iso_stamp s then Inr s else Inl MissingMarker
              | None \<Rightarrow> Inl MissingMarker)
     | _ \<Rightarrow> Inl MissingMarker)"

text \<open>The one time stamp all candidates agree on.\<close>

definition agreed_stamp :: "jval list \<Rightarrow> obs_error + jstr" where
  "agreed_stamp vs =
    (if vs = [] \<or> \<not> list_all (str_is iso_stamp) vs \<or> length (js_set vs) \<noteq> 1 then Inl MissingMarker else Inr (str_of (hd vs)))"

definition product_stamp :: "hydrated list \<Rightarrow> jstr \<Rightarrow> obs_error + jstr" where
  "product_stamp qs pid =
    agreed_stamp (map (\<lambda>q. if field (hq_data q) (la ''id'') = JStr pid then field (hq_data q) (la ''snapshotAt'') else JUndef)
      (filter (\<lambda>q. hq_key q = [JStr (la ''product''), JStr pid]) qs))"

definition pages_of :: "jval \<Rightarrow> obs_error + jval list" where
  "pages_of data =
    (case field data (la ''pages'') of
       JUndef \<Rightarrow> Inr [] | JNull \<Rightarrow> Inr []
     | JArr xs \<Rightarrow> Inr (concat (map (\<lambda>x. case x of JArr ys \<Rightarrow> ys | _ \<Rightarrow> [x]) xs))
     | _ \<Rightarrow> Inl TransportError)"

definition category_stamp :: "hydrated list \<Rightarrow> jstr \<Rightarrow> jstr \<Rightarrow> obs_error + jstr" where
  "category_stamp qs slug pid =
    and_then (traverse (\<lambda>q. pages_of (hq_data q))
        (filter (\<lambda>q. at_index (JArr (hq_key q)) 0 = JStr (la ''products'') \<and> field (at_index (JArr (hq_key q)) 1) (la ''category'') = JStr slug) qs)) (\<lambda>pss.
    and_then (traverse (\<lambda>p. and_then (access p (la ''id'')) (\<lambda>i. Inr (p, i))) (concat pss)) (\<lambda>ps.
      agreed_stamp (map (\<lambda>(p, i). field p (la ''snapshotAt'')) (filter (\<lambda>(p, i). i = JStr pid) ps))))"

definition dashboard_queries :: "hydrated list \<Rightarrow> hydrated list" where
  "dashboard_queries qs = filter (\<lambda>q. hq_key q = [JStr (la ''dashboard'')]) qs"

definition dashboard_stamp :: "hydrated list \<Rightarrow> obs_error + jstr" where
  "dashboard_stamp qs = agreed_stamp (map (\<lambda>q. field (field (hq_data q) (la ''summary'')) (la ''snapshotAt'')) (dashboard_queries qs))"

fun some_spread :: "jstr \<Rightarrow> jval list \<Rightarrow> obs_error + bool" where
  "some_spread pid [] = Inr False"
| "some_spread pid (p # ps) = and_then (access p (la ''productId'')) (\<lambda>i. if i = JStr pid then Inr True else some_spread pid ps)"

text \<open>Whether the product is among the eight spreads the catalogue page shows.\<close>

definition spread_shown :: "hydrated list \<Rightarrow> jstr \<Rightarrow> obs_error + bool" where
  "spread_shown qs pid =
    (case dashboard_queries qs of
       [] \<Rightarrow> Inr False
     | q # _ \<Rightarrow>
         (case field (hq_data q) (la ''priceSpreads'') of
            JUndef \<Rightarrow> Inr False | JNull \<Rightarrow> Inr False
          | JArr xs \<Rightarrow> some_spread pid (take 8 xs)
          | _ \<Rightarrow> Inl TransportError))"

definition marker :: "(jstr \<Rightarrow> jval option) \<Rightarrow> jstr \<Rightarrow> target \<Rightarrow> obs_error + jstr list" where
  "marker parse_json body t =
    (let qs = hydratedQueries parse_json body; pid = ot_productId t
     in case ot_name t of
          SitemapPage \<Rightarrow> traverse (sitemap_stamp body) (sitemapPaths t)
        | CategoryPage \<Rightarrow> and_then (category_stamp qs (ot_slug t) pid) (\<lambda>s. Inr [s])
        | DashboardPage \<Rightarrow> and_then (dashboard_stamp qs) (\<lambda>s. Inr [s])
        | CatalogPage \<Rightarrow>
            and_then (dashboard_stamp qs) (\<lambda>s.
            and_then (spread_shown qs pid) (\<lambda>shown.
            and_then (require shown MissingMarker) (\<lambda>_.
            and_then (product_stamp qs pid) (\<lambda>p. Inr [s, p]))))
        | _ \<Rightarrow> and_then (product_stamp qs pid) (\<lambda>s. Inr [s]))"

section \<open>The plan\<close>

definition expected :: "target \<Rightarrow> phase \<Rightarrow> jstr option list" where
  "expected t ph =
    (let stamp = (case ph of BeforeMutation \<Rightarrow> Some (ot_before t) | AfterCommit \<Rightarrow> ot_after t);
         product = (case ph of BeforeMutation \<Rightarrow> Some (ot_productBefore t) | AfterCommit \<Rightarrow> ot_productAfter t)
     in case ot_name t of
          CatalogPage \<Rightarrow> [stamp, product]
        | SitemapPage \<Rightarrow> replicate 6 stamp @ [product, product]
        | _ \<Rightarrow> [stamp])"

datatype plan_error = UnverifiedPlan | UnverifiedClock | InvalidMatrix | InvalidRevision | InvalidPath

text \<open>A plan: its event, if it is one this process registered, and the pages.\<close>

record obs_plan =
  pn_event :: "event option"
  pn_publicationId :: jstr
  pn_targets :: "target list"

text \<open>\<open>iso(x) && iso(y) && x !== y\<close>, of a time stamp that need not be there.\<close>

definition changed_stamp :: "jstr \<Rightarrow> jstr option \<Rightarrow> bool" where
  "changed_stamp x y \<longleftrightarrow> (case y of None \<Rightarrow> False | Some z \<Rightarrow> iso_stamp z \<and> x \<noteq> z)"

definition plan_path :: "target \<Rightarrow> bool" where
  "plan_path t \<longleftrightarrow> ot_path t = target_path (ot_name t) (ot_productId t) (ot_slug t) \<and>
    (case ot_name t of
       ProductRu \<Rightarrow> is_id (ot_productId t) | ProductKk \<Rightarrow> is_id (ot_productId t)
     | CategoryPage \<Rightarrow> is_id (ot_productId t) \<and> is_slug (ot_slug t)
     | _ \<Rightarrow> True)"

definition check_target :: "bool \<Rightarrow> target \<Rightarrow> plan_error option" where
  "check_target capture t =
    (if \<not> iso_stamp (ot_before t) \<or> \<not> capture \<and> \<not> changed_stamp (ot_before t) (ot_after t) then Some InvalidRevision
     else if \<not> plan_path t then Some InvalidPath
     else if ot_name t \<in> {CatalogPage, SitemapPage} \<and>
         (\<not> is_id (ot_productId t) \<or> \<not> iso_stamp (ot_productBefore t) \<or> \<not> capture \<and> \<not> changed_stamp (ot_productBefore t) (ot_productAfter t))
       then Some InvalidRevision
     else if ot_name t = SitemapPage \<and> \<not> is_slug (ot_slug t) then Some InvalidRevision
     else None)"

definition validatePlan :: "obs_plan \<Rightarrow> bool \<Rightarrow> plan_error option" where
  "validatePlan plan capture =
    (case pn_event plan of
       None \<Rightarrow> Some UnverifiedClock
     | Some e \<Rightarrow>
         if pn_publicationId plan \<noteq> ev_publicationId e then Some UnverifiedPlan
         else if length (pn_targets plan) \<noteq> 6 \<or> \<not> list_all (\<lambda>n. length (filter (\<lambda>t. ot_name t = n) (pn_targets plan)) = 1) TARGET_NAMES
           then Some InvalidMatrix
         else check_all (check_target capture) (pn_targets plan))"

section \<open>One sample\<close>

datatype response = GetFailed obs_error | Got int jstr      \<comment> \<open>status and text\<close>

definition max_bytes :: "target \<Rightarrow> nat" where
  "max_bytes t = (if ot_name t = SitemapPage then SITEMAP_BYTES else BODY_BYTES)"

text \<open>\<open>revision.every((v, i) => v === ex[i])\<close>.\<close>

definition every_is :: "jstr list \<Rightarrow> jstr option list \<Rightarrow> bool" where
  "every_is stamps ex \<longleftrightarrow> list_all (\<lambda>(i, v). nth_opt ex i = Some (Some v)) (enumerate 0 stamps)"

definition known_revision :: "target \<Rightarrow> jstr list \<Rightarrow> bool" where
  "known_revision t stamps \<longleftrightarrow>
    list_all (\<lambda>(i, v). nth_opt (expected t BeforeMutation) i = Some (Some v) \<or> nth_opt (expected t AfterCommit) i = Some (Some v)) (enumerate 0 stamps)"

text \<open>What a response shows: the time stamps, and whether they are fresh.\<close>

definition judge :: "(jstr \<Rightarrow> jval option) \<Rightarrow> bool \<Rightarrow> target \<Rightarrow> response \<Rightarrow> obs_error + jstr list \<times> bool" where
  "judge parse_json capture t r =
    (case r of
       GetFailed e \<Rightarrow> Inl e
     | Got status text \<Rightarrow>
         and_then (require (status = 200) (if 300 \<le> status \<and> status < 400 then Redirected else Non200)) (\<lambda>_.
         and_then (require (byte_length text \<le> max_bytes t) OversizedBody) (\<lambda>_.
         and_then (marker parse_json text t) (\<lambda>stamps.
         and_then (require (capture \<or> known_revision t stamps) UnexpectedRevision) (\<lambda>_.
           Inr (stamps, if capture then \<not> every_is stamps (expected t BeforeMutation) else every_is stamps (expected t AfterCommit)))))))"

record sample =
  sm_target :: target
  sm_begin :: rat
  sm_end :: rat
  sm_result :: "obs_error + jstr list \<times> bool"

definition sample_error :: "sample \<Rightarrow> bool" where "sample_error e \<longleftrightarrow> (case sm_result e of Inl _ \<Rightarrow> True | Inr _ \<Rightarrow> False)"
definition sample_fresh :: "sample \<Rightarrow> bool" where "sample_fresh e \<longleftrightarrow> (case sm_result e of Inl _ \<Rightarrow> False | Inr (_, f) \<Rightarrow> f)"
definition sample_stale :: "sample \<Rightarrow> bool" where "sample_stale e \<longleftrightarrow> \<not> sample_error e \<and> \<not> sample_fresh e"

definition sample_markers :: "sample \<Rightarrow> jstr list" where
  "sample_markers e = (case sm_result e of Inl _ \<Rightarrow> [] | Inr (ms, _) \<Rightarrow> ms)"

section \<open>The six loops\<close>

text \<open>
  Each page has its own loop over its remaining offsets; \<open>lp_busy\<close> is the beginning of a request
  under way. The loops share the counter, the flag that stops them and the clock, here the time
  elapsed since the event. A loop runs without interruption from one \<open>await\<close> to the next, but
  time passes also between two readings of the clock.
\<close>

record loop =
  lp_target :: target
  lp_offsets :: "rat list"
  lp_busy :: "rat option"
  lp_lastStart :: "rat option"
  lp_firstFresh :: "rat option"
  lp_failure :: "obs_error option"

record sampling =
  rn_clock :: rat
  rn_count :: nat
  rn_stopped :: bool
  rn_loops :: "loop list"
  rn_events :: "sample list"

definition offsets_of :: "target \<Rightarrow> rat list" where
  "offsets_of t = (case ot_name t of SitemapPage \<Rightarrow> [0, 2500] | CatalogPage \<Rightarrow> [0, 2500, 7500] | _ \<Rightarrow> [0, 2500, 7500, 15000])"

definition start_loop :: "target \<Rightarrow> loop" where
  "start_loop t = \<lparr>lp_target = t, lp_offsets = offsets_of t, lp_busy = None, lp_lastStart = None, lp_firstFresh = None, lp_failure = None\<rparr>"

definition start_sampling :: "rat \<Rightarrow> target list \<Rightarrow> sampling" where
  "start_sampling origin ts = \<lparr>rn_clock = origin, rn_count = 0, rn_stopped = False, rn_loops = map start_loop ts, rn_events = []\<rparr>"

text \<open>When the pause before the next request is over.\<close>

definition due :: "loop \<Rightarrow> rat" where
  "due l = (case lp_lastStart l of None \<Rightarrow> hd (lp_offsets l) | Some s \<Rightarrow> max (hd (lp_offsets l)) (s + PAUSE))"

definition set_loop :: "sampling \<Rightarrow> nat \<Rightarrow> loop \<Rightarrow> sampling" where
  "set_loop s i l = s\<lparr>rn_loops := (rn_loops s)[i := l]\<rparr>"

text \<open>After its pause a loop gives up or sends a request: \<open>t\<close> and \<open>t'\<close> are the readings of the
  clock for the two limits, \<open>b\<close> the one kept as the beginning; \<open>u\<close> is the uncertainty of the event.\<close>

definition gives_up :: "rat \<Rightarrow> sampling \<Rightarrow> loop \<Rightarrow> rat \<Rightarrow> rat \<Rightarrow> bool" where
  "gives_up u s l t t' \<longleftrightarrow> rn_stopped s \<or> END_MS \<le> t + u \<or> MAX_REQUESTS \<le> rn_count s \<or>
     ot_name (lp_target l) = SitemapPage \<and> ACCEPTANCE \<le> t' + u"

definition send_request :: "rat \<Rightarrow> sampling \<Rightarrow> nat \<Rightarrow> rat \<Rightarrow> rat \<Rightarrow> rat \<Rightarrow> sampling" where
  "send_request u s i t t' b =
    (let l = rn_loops s ! i
     in if gives_up u s l t t' then set_loop (s\<lparr>rn_clock := t'\<rparr>) i (l\<lparr>lp_offsets := []\<rparr>)
        else set_loop (s\<lparr>rn_clock := b, rn_count := Suc (rn_count s)\<rparr>) i
               (l\<lparr>lp_offsets := tl (lp_offsets l), lp_busy := Some b, lp_lastStart := Some b\<rparr>))"

text \<open>The time a request may take.\<close>

definition request_timeout :: "rat \<Rightarrow> rat \<Rightarrow> rat" where
  "request_timeout u b =
    (let boundary = (if b + u < ACCEPTANCE then ACCEPTANCE - u else END_MS - u)
     in max 1 (min TIMEOUT (of_int \<lfloor>boundary - b\<rfloor>)))"

definition take_response :: "(jstr \<Rightarrow> jval option) \<Rightarrow> bool \<Rightarrow> sampling \<Rightarrow> nat \<Rightarrow> response \<Rightarrow> rat \<Rightarrow> sampling" where
  "take_response parse_json capture s i r e =
    (let l = rn_loops s ! i; res = judge parse_json capture (lp_target l) r;
         x = \<lparr>sm_target = lp_target l, sm_begin = the (lp_busy l), sm_end = e, sm_result = res\<rparr>
     in set_loop (s\<lparr>rn_clock := e, rn_events := rn_events s @ [x], rn_stopped := rn_stopped s \<or> sample_error x\<rparr>) i
          (l\<lparr>lp_busy := None,
             lp_offsets := (if sample_fresh x \<or> sample_error x then [] else lp_offsets l),
             lp_firstFresh := (if sample_fresh x then Some e else lp_firstFresh l),
             lp_failure := (case res of Inl err \<Rightarrow> Some err | Inr _ \<Rightarrow> lp_failure l)\<rparr>))"

text \<open>Any loop may move next.\<close>

inductive sampling_step :: "(jstr \<Rightarrow> jval option) \<Rightarrow> rat \<Rightarrow> bool \<Rightarrow> sampling \<Rightarrow> sampling \<Rightarrow> bool"
  for parse_json u capture where
  request: "i < length (rn_loops s) \<Longrightarrow> lp_busy (rn_loops s ! i) = None \<Longrightarrow> lp_offsets (rn_loops s ! i) \<noteq> [] \<Longrightarrow>
     rn_clock s \<le> t \<Longrightarrow> due (rn_loops s ! i) \<le> t \<Longrightarrow> t \<le> t' \<Longrightarrow> t' \<le> b \<Longrightarrow>
     sampling_step parse_json u capture s (send_request u s i t t' b)"
| respond: "i < length (rn_loops s) \<Longrightarrow> lp_busy (rn_loops s ! i) \<noteq> None \<Longrightarrow> rn_clock s \<le> e \<Longrightarrow>
     sampling_step parse_json u capture s (take_response parse_json capture s i r e)"

inductive_cases sampling_stepE: "sampling_step parse_json u capture s t"

text \<open>A run of so many steps.\<close>

inductive sampling_run :: "(jstr \<Rightarrow> jval option) \<Rightarrow> rat \<Rightarrow> bool \<Rightarrow> sampling \<Rightarrow> nat \<Rightarrow> sampling \<Rightarrow> bool"
  for parse_json u capture s where
  run_start: "sampling_run parse_json u capture s 0 s"
| run_step: "sampling_run parse_json u capture s n t \<Longrightarrow> sampling_step parse_json u capture t t' \<Longrightarrow> sampling_run parse_json u capture s (Suc n) t'"

definition sampling_done :: "sampling \<Rightarrow> bool" where
  "sampling_done s \<longleftrightarrow> list_all (\<lambda>l. lp_busy l = None \<and> lp_offsets l = []) (rn_loops s)"

section \<open>Verdicts\<close>

datatype verdict = PASS | FAIL | INCONCLUSIVE

definition overall :: "verdict list \<Rightarrow> verdict" where
  "overall vs = (if list_all (\<lambda>v. v = PASS) vs then PASS else if FAIL \<in> set vs then FAIL else INCONCLUSIVE)"

definition samples_of :: "target \<Rightarrow> sample list \<Rightarrow> sample list" where
  "samples_of t es = filter (\<lambda>e. ot_name (sm_target e) = ot_name t) es"

text \<open>While observing: late is a stale answer to a request sent after the acceptance time.\<close>

definition proved_late :: "sample list \<Rightarrow> target \<Rightarrow> bool" where
  "proved_late es t \<longleftrightarrow> list_ex (\<lambda>e. sample_stale e \<and> ACCEPTANCE < sm_begin e) (samples_of t es)"

definition loop_verdict :: "rat \<Rightarrow> sample list \<Rightarrow> loop \<Rightarrow> verdict" where
  "loop_verdict u es l =
    (if proved_late es (lp_target l) then FAIL
     else case lp_firstFresh l of
            None \<Rightarrow> INCONCLUSIVE
          | Some f \<Rightarrow> if f + u \<le> ACCEPTANCE \<and> lp_failure l = None then PASS else INCONCLUSIVE)"

definition observe_verdict :: "rat \<Rightarrow> sampling \<Rightarrow> verdict" where
  "observe_verdict u s =
    (let vs = map (loop_verdict u (rn_events s)) (rn_loops s)
     in if FAIL \<in> set vs then FAIL else if list_all (\<lambda>v. v = PASS) vs \<and> \<not> rn_stopped s then PASS else INCONCLUSIVE)"

text \<open>Whether the plan's window is still open when observing starts, at \<open>now\<close>.\<close>

definition window_open :: "event \<Rightarrow> rat \<Rightarrow> bool" where
  "window_open e now \<longleftrightarrow> ev_end e \<le> now \<and> now - ev_end e + (ev_end e - ev_start e) < ACCEPTANCE"

text \<open>After the fact: the recorded samples against the time stamps the publication was to bring.\<close>

definition target_verdict :: "rat \<Rightarrow> sample list \<Rightarrow> target \<Rightarrow> verdict" where
  "target_verdict u es t =
    (let ss = samples_of t es;
         is_after = (\<lambda>e. map Some (sample_markers e) = expected t AfterCommit);
         fresh = List.find (\<lambda>e. \<not> sample_error e \<and> is_after e) ss;
         unexpected = list_ex (\<lambda>e. sample_fresh e \<and> \<not> is_after e) ss
     in if list_ex sample_error ss \<or> ss = [] \<or> unexpected then INCONCLUSIVE
        else if list_ex (\<lambda>e. sample_stale e \<and> ACCEPTANCE < sm_begin e) ss then FAIL
        else case fresh of
               None \<Rightarrow> INCONCLUSIVE
             | Some e \<Rightarrow> if sm_end e + u \<le> ACCEPTANCE then PASS else INCONCLUSIVE)"

datatype capture_reason = UntrustedCapture | UntrustedProjection | CaptureFailed | EventMismatch | NoManifest reason

text \<open>
  A capture kept in the registry: the projection it was started with, its event's receipt and the
  finished sampling. \<open>same_custody\<close> is the registry's answer for the two projections.
\<close>

record capture =
  ct_before :: jval
  ct_uncertainty :: rat
  ct_receipt :: jval
  ct_sampling :: sampling

definition receipt_matches :: "jval \<Rightarrow> jval \<Rightarrow> jval \<Rightarrow> bool" where
  "receipt_matches receipt before after \<longleftrightarrow>
    field receipt (la ''status'') = JNum (Fin 204) \<and> field receipt (la ''attemptId'') = field before (la ''attemptId'') \<and>
    field receipt (la ''snapshotId'') = field after (la ''snapshotId'') \<and> field receipt (la ''attemptId'') = field after (la ''attemptId'')"

definition verdictCapture :: "bool \<Rightarrow> capture option \<Rightarrow> jval \<Rightarrow> jval \<Rightarrow> capture_reason + verdict" where
  "verdictCapture same_custody stored before after =
    (case stored of
       None \<Rightarrow> Inl UntrustedCapture
     | Some c \<Rightarrow>
         if before \<noteq> ct_before c then Inl UntrustedCapture
         else if \<not> same_custody then Inl UntrustedProjection
         else if rn_stopped (ct_sampling c) then Inl CaptureFailed
         else if \<not> receipt_matches (ct_receipt c) before after then Inl EventMismatch
         else case buildManifest (JObj [(la ''version'', JNum (Fin 2)), (la ''attemptId'', field before (la ''attemptId'')), (la ''before'', before), (la ''after'', after)]) of
                Inl r \<Rightarrow> Inl (NoManifest r)
              | Inr m \<Rightarrow> Inr (overall (map (target_verdict (ct_uncertainty c) (rn_events (ct_sampling c))) (mf_targets m))))"

section \<open>Lemmas on the sampling\<close>

lemma sampling_run_inv:
  assumes "sampling_run parse_json u capture s n t" and "I s"
    and "\<And>s t. sampling_step parse_json u capture s t \<Longrightarrow> I s \<Longrightarrow> I t"
  shows "I t"
  using assms(1,2) by induction (auto intro: assms(3))

lemma set_loop_simps [simp]:
  "rn_loops (set_loop s i l) = (rn_loops s)[i := l]" "rn_clock (set_loop s i l) = rn_clock s"
  "rn_count (set_loop s i l) = rn_count s" "rn_stopped (set_loop s i l) = rn_stopped s" "rn_events (set_loop s i l) = rn_events s"
  by (simp_all add: set_loop_def)

text \<open>Requests still possible, and steps still possible.\<close>

definition loop_steps :: "loop \<Rightarrow> nat" where
  "loop_steps l = 2 * length (lp_offsets l) + (if lp_busy l = None then 0 else 1)"

definition requests_left :: "sampling \<Rightarrow> nat" where
  "requests_left s = sum_list (map (\<lambda>l. length (lp_offsets l)) (rn_loops s))"

definition steps_left :: "sampling \<Rightarrow> nat" where
  "steps_left s = sum_list (map loop_steps (rn_loops s))"

lemma sum_list_replace:
  fixes f :: "'a \<Rightarrow> nat"
  assumes "i < length xs"
  shows "sum_list (map f (xs[i := x])) + f (xs ! i) = sum_list (map f xs) + f x"
  using assms by (induction xs arbitrary: i) (auto split: nat.splits)

lemma replace_counts:
  assumes "i < length (rn_loops s)" and "rn_loops t = (rn_loops s)[i := l]"
    and "rn_count t + length (lp_offsets l) \<le> rn_count s + length (lp_offsets (rn_loops s ! i))"
    and "loop_steps l < loop_steps (rn_loops s ! i)"
  shows "rn_count t + requests_left t \<le> rn_count s + requests_left s \<and> steps_left t < steps_left s"
  using sum_list_replace [OF assms(1), of "\<lambda>l. length (lp_offsets l)" l] sum_list_replace [OF assms(1), of loop_steps l] assms(2-4)
  by (simp add: requests_left_def steps_left_def)

lemma send_request_loops:
  "rn_loops (send_request u s i t t' b) = (rn_loops s)[i :=
    (let l = rn_loops s ! i in if gives_up u s l t t' then l\<lparr>lp_offsets := []\<rparr>
     else l\<lparr>lp_offsets := tl (lp_offsets l), lp_busy := Some b, lp_lastStart := Some b\<rparr>)]"
  by (simp add: send_request_def Let_def)

lemma send_request_counts:
  assumes "i < length (rn_loops s)" and "lp_busy (rn_loops s ! i) = None" and "lp_offsets (rn_loops s ! i) \<noteq> []"
  shows "rn_count (send_request u s i t t' b) + requests_left (send_request u s i t t' b) \<le> rn_count s + requests_left s \<and>
    steps_left (send_request u s i t t' b) < steps_left s"
proof -
  obtain x xs where "lp_offsets (rn_loops s ! i) = x # xs" using assms(3) by (cases "lp_offsets (rn_loops s ! i)") auto
  then show ?thesis
    using assms(2) by (intro replace_counts [OF assms(1) send_request_loops]) (simp_all add: send_request_def Let_def loop_steps_def)
qed

text \<open>What a response leaves of its loop, and the sample it adds.\<close>

definition answered :: "loop \<Rightarrow> sample \<Rightarrow> loop" where
  "answered l x = l\<lparr>lp_busy := None, lp_offsets := (if sample_fresh x \<or> sample_error x then [] else lp_offsets l),
     lp_firstFresh := (if sample_fresh x then Some (sm_end x) else lp_firstFresh l),
     lp_failure := (case sm_result x of Inl err \<Rightarrow> Some err | Inr _ \<Rightarrow> lp_failure l)\<rparr>"

definition sample_of :: "(jstr \<Rightarrow> jval option) \<Rightarrow> bool \<Rightarrow> loop \<Rightarrow> response \<Rightarrow> rat \<Rightarrow> sample" where
  "sample_of parse_json capture l r e =
    \<lparr>sm_target = lp_target l, sm_begin = the (lp_busy l), sm_end = e, sm_result = judge parse_json capture (lp_target l) r\<rparr>"

lemma answered_simps [simp]:
  "lp_target (answered l x) = lp_target l" "lp_busy (answered l x) = None"
  "lp_firstFresh (answered l x) = (if sample_fresh x then Some (sm_end x) else lp_firstFresh l)"
  by (simp_all add: answered_def)

lemma answered_offsets: "length (lp_offsets (answered l x)) \<le> length (lp_offsets l)"
  by (simp add: answered_def)

lemma take_response_eqs:
  "rn_loops (take_response parse_json capture s i r e) = (rn_loops s)[i := answered (rn_loops s ! i) (sample_of parse_json capture (rn_loops s ! i) r e)]"
  "rn_events (take_response parse_json capture s i r e) = rn_events s @ [sample_of parse_json capture (rn_loops s ! i) r e]"
  "rn_stopped (take_response parse_json capture s i r e) = (rn_stopped s \<or> sample_error (sample_of parse_json capture (rn_loops s ! i) r e))"
  "rn_count (take_response parse_json capture s i r e) = rn_count s"
  "rn_clock (take_response parse_json capture s i r e) = e"
  by (simp_all add: take_response_def Let_def answered_def sample_of_def)

lemma take_response_counts:
  assumes "i < length (rn_loops s)" and "lp_busy (rn_loops s ! i) \<noteq> None"
  shows "rn_count (take_response parse_json capture s i r e) + requests_left (take_response parse_json capture s i r e) \<le> rn_count s + requests_left s \<and>
    steps_left (take_response parse_json capture s i r e) < steps_left s"
proof (rule replace_counts [OF assms(1) take_response_eqs(1)])
  let ?x = "sample_of parse_json capture (rn_loops s ! i) r e"
  have le: "length (lp_offsets (answered (rn_loops s ! i) ?x)) \<le> length (lp_offsets (rn_loops s ! i))" by (rule answered_offsets)
  then show "rn_count (take_response parse_json capture s i r e) + length (lp_offsets (answered (rn_loops s ! i) ?x)) \<le> rn_count s + length (lp_offsets (rn_loops s ! i))"
    by (simp add: take_response_eqs)
  show "loop_steps (answered (rn_loops s ! i) ?x) < loop_steps (rn_loops s ! i)" using le assms(2) unfolding loop_steps_def answered_simps(2) by auto
qed

lemma step_counts:
  assumes "sampling_step parse_json u capture s t"
  shows "rn_count t + requests_left t \<le> rn_count s + requests_left s \<and> steps_left t < steps_left s"
  using assms by cases (simp_all only: send_request_counts take_response_counts not_False_eq_True)

lemma run_counts:
  "sampling_run parse_json u capture s n t \<Longrightarrow> rn_count t + requests_left t \<le> rn_count s + requests_left s \<and> n + steps_left t \<le> steps_left s"
  by (induction rule: sampling_run.induct) (auto dest!: step_counts)

text \<open>While not all loops have ended, one of them can move.\<close>

lemma sampling_progress: "\<not> sampling_done s \<Longrightarrow> \<exists>t. sampling_step parse_json u capture s t"
proof -
  assume "\<not> sampling_done s"
  then obtain i where i: "i < length (rn_loops s)" "lp_busy (rn_loops s ! i) \<noteq> None \<or> lp_offsets (rn_loops s ! i) \<noteq> []"
    by (auto simp: sampling_done_def list_all_length)
  show ?thesis
  proof (cases "lp_busy (rn_loops s ! i)")
    case None
    let ?t = "max (rn_clock s) (due (rn_loops s ! i))"
    from None i have "sampling_step parse_json u capture s (send_request u s i ?t ?t ?t)" by (intro request) simp_all
    then show ?thesis by blast
  next
    case (Some b)
    then have "sampling_step parse_json u capture s (take_response parse_json capture s i (GetFailed TimedOut) (rn_clock s))"
      by (intro respond i(1)) simp_all
    then show ?thesis by blast
  qed
qed

text \<open>What the samples and the loops know of each other.\<close>

definition sample_ok :: "(jstr \<Rightarrow> jval option) \<Rightarrow> bool \<Rightarrow> target list \<Rightarrow> sample \<Rightarrow> bool" where
  "sample_ok parse_json capture ts e \<longleftrightarrow> sm_target e \<in> set ts \<and> (\<exists>r. sm_result e = judge parse_json capture (sm_target e) r)"

definition fresh_ok :: "sample list \<Rightarrow> loop \<Rightarrow> bool" where
  "fresh_ok es l \<longleftrightarrow> (case lp_firstFresh l of None \<Rightarrow> True
     | Some f \<Rightarrow> \<exists>e \<in> set es. sm_target e = lp_target l \<and> sample_fresh e \<and> sm_end e = f)"

definition sampling_inv :: "(jstr \<Rightarrow> jval option) \<Rightarrow> bool \<Rightarrow> target list \<Rightarrow> sampling \<Rightarrow> bool" where
  "sampling_inv parse_json capture ts s \<longleftrightarrow>
    map lp_target (rn_loops s) = ts \<and> rn_stopped s = list_ex sample_error (rn_events s) \<and>
    list_all (fresh_ok (rn_events s)) (rn_loops s) \<and> list_all (sample_ok parse_json capture ts) (rn_events s)"

lemma fresh_ok_more: "fresh_ok es l \<Longrightarrow> fresh_ok (es @ xs) l"
  by (auto simp: fresh_ok_def split: option.splits)

lemma map_same: "i < length xs \<Longrightarrow> f y = f (xs ! i) \<Longrightarrow> map f (xs[i := y]) = map f xs"
  by (metis list_update_id map_update)

lemma all_replace: "list_all P xs \<Longrightarrow> P y \<Longrightarrow> list_all P (xs[i := y])"
  by (auto simp: list_all_iff dest!: set_update_subset_insert [THEN subsetD])

lemma sampling_inv_start: "sampling_inv parse_json capture ts (start_sampling origin ts)"
  by (simp add: sampling_inv_def start_sampling_def comp_def start_loop_def fresh_ok_def list_all_iff)

lemma sampling_inv_replace:
  assumes "sampling_inv parse_json capture ts s" and "i < length (rn_loops s)" and "rn_loops t = (rn_loops s)[i := l]"
    and "lp_target l = lp_target (rn_loops s ! i)" and "rn_events t = rn_events s @ xs"
    and "rn_stopped t \<longleftrightarrow> rn_stopped s \<or> list_ex sample_error xs" and "fresh_ok (rn_events t) l" and "list_all (sample_ok parse_json capture ts) xs"
  shows "sampling_inv parse_json capture ts t"
proof -
  have "list_all (fresh_ok (rn_events t)) (rn_loops s)"
    using assms(1) by (simp add: sampling_inv_def list_all_iff assms(5) fresh_ok_more)
  then show ?thesis
    using assms unfolding sampling_inv_def assms(3) by (simp add: map_same all_replace)
qed

lemma sampling_inv_step:
  assumes "sampling_step parse_json u capture s t" and inv: "sampling_inv parse_json capture ts s"
  shows "sampling_inv parse_json capture ts t"
  using assms(1)
proof (elim sampling_stepE)
  fix i tt t' b
  assume i: "i < length (rn_loops s)" and t: "t = send_request u s i tt t' b"
  let ?l = "rn_loops s ! i"
  let ?l' = "if gives_up u s ?l tt t' then ?l\<lparr>lp_offsets := []\<rparr> else ?l\<lparr>lp_offsets := tl (lp_offsets ?l), lp_busy := Some b, lp_lastStart := Some b\<rparr>"
  have same: "rn_loops t = (rn_loops s)[i := ?l']" "lp_target ?l' = lp_target ?l" "lp_firstFresh ?l' = lp_firstFresh ?l"
      "rn_events t = rn_events s @ []" "rn_stopped t = rn_stopped s"
    by (simp_all add: t send_request_def Let_def)
  have "fresh_ok (rn_events s) ?l" using inv i by (simp add: sampling_inv_def list_all_length)
  then have "fresh_ok (rn_events t) ?l'" unfolding fresh_ok_def same(2,3,4) append_Nil2 .
  with inv i same show ?thesis by (intro sampling_inv_replace [OF inv i same(1,2,4)]) simp_all
next
  fix i e r
  assume i: "i < length (rn_loops s)" and t: "t = take_response parse_json capture s i r e"
  let ?l = "rn_loops s ! i"
  let ?x = "sample_of parse_json capture ?l r e"
  have x: "sm_target ?x = lp_target ?l" "sm_end ?x = e" by (simp_all add: sample_of_def)
  have "fresh_ok (rn_events s) ?l" "lp_target ?l \<in> set ts" using inv i by (auto simp: sampling_inv_def list_all_length)
  then have "fresh_ok (rn_events t) (answered ?l ?x)"
    using x fresh_ok_more [of "rn_events s" ?l "[?x]"] by (auto simp: fresh_ok_def t take_response_eqs(2) split: option.splits)
  moreover have "sample_ok parse_json capture ts ?x" using \<open>lp_target ?l \<in> set ts\<close> by (auto simp: sample_ok_def sample_of_def)
  ultimately show ?thesis
    unfolding t by (intro sampling_inv_replace [OF inv i take_response_eqs(1) answered_simps(1) take_response_eqs(2)]) (simp_all add: take_response_eqs)
qed

lemma sampling_inv_run:
  "sampling_run parse_json u capture (start_sampling origin ts) n s \<Longrightarrow> sampling_inv parse_json capture ts s"
  by (erule sampling_run_inv [where I = "sampling_inv parse_json capture ts"]) (rule sampling_inv_start, rule sampling_inv_step)

end
