(* ===== verification/Ledger.thy ===== *)
theory Ledger
  imports Observer
begin

text \<open>
  The ledger of revalidation attempts (\<open>openAttemptLedger\<close> in
  \<open>scripts/revalidation/c2-production-supervisor.mjs\<close>): a directory with a lock and a file of
  attempts, the session that holds the lock, and its operations. What the file system does with
  a save, the clock and the random identifier are arguments of the operations. A file that
  cannot be read, is not JSON or holds something of another shape is unreadable.
\<close>

section \<open>Entries\<close>

datatype attempt_state = Prepared | Armed | EventConsumed | Completed | Inconclusive

datatype ledger_error =
  LedgerPolicy | LedgerDirectory | LedgerLocked | LedgerIncomplete | LedgerCorrupt | LedgerUnavailable
  | AttemptState | AttemptReuse | AttemptIncomplete | SaveFailed | CloseFailed

record history_item =
  hi_state :: attempt_state
  hi_atUTC :: int
  hi_evidence :: jval

record attempt =
  at_id :: jstr
  at_policy :: jval                          \<comment> \<open>\<open>JUndef\<close> when the attempt has none\<close>
  at_state :: attempt_state
  at_transitions :: "attempt_state list"
  at_history :: "history_item list"
  at_verdict :: verdict
  at_evidence :: jval
  at_checkpoints :: "(int \<times> jval) list"

definition terminal :: "attempt_state \<Rightarrow> bool" where
  "terminal s \<longleftrightarrow> s = Completed \<or> s = Inconclusive"

definition verdict_name :: "verdict \<Rightarrow> jstr" where
  "verdict_name v = (case v of PASS \<Rightarrow> la ''PASS'' | FAIL \<Rightarrow> la ''FAIL'' | INCONCLUSIVE \<Rightarrow> la ''INCONCLUSIVE'')"

definition verdict_of :: "jval \<Rightarrow> verdict option" where
  "verdict_of v = List.find (\<lambda>x. v = JStr (verdict_name x)) [PASS, FAIL, INCONCLUSIVE]"

text \<open>The key of a policy; an attempt without one belongs to the legacy series.\<close>

definition policy_key :: "jval \<Rightarrow> ledger_error + jstr" where
  "policy_key p =
    (case p of
       JUndef \<Rightarrow> Inr (la ''legacy'') | JNull \<Rightarrow> Inr (la ''legacy'')
     | JObj ob \<Rightarrow>
         if js_sort str_le (js_keys ob) = [la ''evidencePolicy'', la ''policySha256'', la ''policyVersion''] \<and>
            obj_get ob (la ''evidencePolicy'') = JStr (la ''site-content-verification'') \<and> obj_get ob (la ''policyVersion'') = JNum (Fin 2) \<and>
            str_is (is_hex 64) (obj_get ob (la ''policySha256''))
         then Inr (la ''site-content-verification:2:'' @ str_of (obj_get ob (la ''policySha256'')))
         else Inl LedgerPolicy
     | _ \<Rightarrow> Inl LedgerPolicy)"

definition safe_integer :: "int \<Rightarrow> bool" where
  "safe_integer n \<longleftrightarrow> \<bar>n\<bar> \<le> 9007199254740991"

text \<open>The states an attempt went through are those of its history, from the first to its own.\<close>

definition aligned :: "attempt \<Rightarrow> bool" where
  "aligned e \<longleftrightarrow> at_transitions e \<noteq> [] \<and> hd (at_transitions e) = Prepared \<and> last (at_transitions e) = at_state e \<and>
     map hi_state (at_history e) = at_transitions e \<and> list_all (\<lambda>h. safe_integer (hi_atUTC h)) (at_history e)"

definition finished_ok :: "attempt \<Rightarrow> bool" where
  "finished_ok e \<longleftrightarrow> aligned e \<and> terminal (at_state e) \<and>
     (at_state e = Completed \<longrightarrow> at_transitions e = [Prepared, Armed, EventConsumed, Completed] \<and>
        field (at_evidence e) (la ''acceptance'') = JStr (verdict_name (at_verdict e))) \<and>
     (at_state e = Inconclusive \<longrightarrow> at_verdict e = INCONCLUSIVE)"

definition is_attempt_id :: "jstr \<Rightarrow> bool" where "is_attempt_id = is_hex 32"

fun check_entries :: "jstr list \<Rightarrow> attempt list \<Rightarrow> ledger_error + unit" where
  "check_entries seen [] = Inr ()"
| "check_entries seen (e # es) =
    and_then (policy_key (at_policy e)) (\<lambda>_.
    and_then (require (is_attempt_id (at_id e) \<and> at_id e \<notin> set seen \<and> finished_ok e) LedgerIncomplete) (\<lambda>_.
      check_entries (at_id e # seen) es))"

section \<open>The directory and the session\<close>

datatype ledger_file = Absent | Unreadable | Entries "attempt list"

record ledger_dir =
  ld_lock :: bool
  ld_pending :: bool
  ld_file :: ledger_file

text \<open>\<open>ss_closeFailed\<close> is not a variable of the source: it records that a close of the session has thrown
  after its checks, so that statements can speak of it. No operation looks at it.\<close>

record session =
  ss_policy :: jval
  ss_seen :: "jstr list"
  ss_entries :: "attempt list"
  ss_active :: "attempt option"
  ss_closed :: bool
  ss_closeFailed :: bool
  ss_poisoned :: bool

definition MAX_ENTRIES :: nat where "MAX_ENTRIES = 1000"

text \<open>
  Opening: \<open>private\<close> says whether the directory belongs to the operator alone. The lock is taken
  before anything is read and stays when opening fails afterwards; creating it and writing it out are
  taken to succeed (where that fails the lock stays as well, and opening throws).
\<close>

definition read_entries :: "ledger_dir \<Rightarrow> ledger_error + attempt list" where
  "read_entries d =
    and_then (require (\<not> ld_pending d) LedgerIncomplete) (\<lambda>_.
    and_then (case ld_file d of Absent \<Rightarrow> Inr [] | Unreadable \<Rightarrow> Inl LedgerCorrupt | Entries es \<Rightarrow> Inr es) (\<lambda>es.
    and_then (require (length es \<le> MAX_ENTRIES) LedgerCorrupt) (\<lambda>_.
    and_then (check_entries [] es) (\<lambda>_. Inr es))))"

definition openAttemptLedger :: "bool \<Rightarrow> jval \<Rightarrow> ledger_dir \<Rightarrow> ledger_dir \<times> (ledger_error + session)" where
  "openAttemptLedger private policy d =
    (case policy_key policy of
       Inl e \<Rightarrow> (d, Inl e)
     | Inr _ \<Rightarrow>
         if \<not> private then (d, Inl LedgerDirectory)
         else if ld_lock d then (d, Inl LedgerLocked)
         else (d\<lparr>ld_lock := True\<rparr>,
           and_then (read_entries d) (\<lambda>es.
             Inr \<lparr>ss_policy = policy, ss_seen = map at_id es, ss_entries = es, ss_active = None, ss_closed = False, ss_closeFailed = False, ss_poisoned = False\<rparr>)))"

text \<open>
  What becomes of a save: it succeeds, or it throws, with the new file in place or the old one, and
  with or without a temporary file left behind.
\<close>

datatype save_outcome = Saved | Lost (in_place: bool) (leaves_pending: bool)

definition save :: "save_outcome \<Rightarrow> attempt list \<Rightarrow> ledger_dir \<Rightarrow> session \<Rightarrow> ledger_error option \<times> ledger_dir \<times> session" where
  "save outcome next_entries d s =
    (if ss_poisoned s then (Some LedgerUnavailable, d, s)
     else case outcome of
            Saved \<Rightarrow> (None, d\<lparr>ld_file := Entries next_entries\<rparr>, s\<lparr>ss_entries := next_entries\<rparr>)
          | Lost new pending \<Rightarrow>
              (Some SaveFailed, d\<lparr>ld_file := (if new then Entries next_entries else ld_file d), ld_pending := ld_pending d \<or> pending\<rparr>, s\<lparr>ss_poisoned := True\<rparr>))"

definition prepare_attempt :: "jstr \<Rightarrow> int \<Rightarrow> save_outcome \<Rightarrow> ledger_dir \<Rightarrow> session \<Rightarrow> ledger_error option \<times> ledger_dir \<times> session" where
  "prepare_attempt i now outcome d s =
    (if ss_active s \<noteq> None \<or> ss_closed s then (Some AttemptState, d, s)
     else if i \<in> set (ss_seen s) then (Some AttemptReuse, d, s)
     else
       let e = \<lparr>at_id = i, at_policy = (if ss_policy s = JNull then JUndef else ss_policy s), at_state = Prepared, at_transitions = [Prepared],
                at_history = [\<lparr>hi_state = Prepared, hi_atUTC = now, hi_evidence = JNull\<rparr>], at_verdict = INCONCLUSIVE, at_evidence = JNull, at_checkpoints = []\<rparr>
       in save outcome (ss_entries s @ [e]) d (s\<lparr>ss_active := Some e\<rparr>))"

definition may_follow :: "attempt_state \<Rightarrow> attempt_state list" where
  "may_follow s =
    (case s of Prepared \<Rightarrow> [Armed, Inconclusive] | Armed \<Rightarrow> [EventConsumed, Inconclusive] | EventConsumed \<Rightarrow> [Completed, Inconclusive] | _ \<Rightarrow> [])"

text \<open>The active attempt is replaced, in memory only when the save succeeded.\<close>

definition replace_active :: "attempt \<Rightarrow> save_outcome \<Rightarrow> ledger_dir \<Rightarrow> session \<Rightarrow> ledger_error option \<times> ledger_dir \<times> session" where
  "replace_active e outcome d s =
    (case save outcome (butlast (ss_entries s) @ [e]) d s of
       (None, d', s') \<Rightarrow> (None, d', s'\<lparr>ss_active := Some e\<rparr>)
     | r \<Rightarrow> r)"

definition transition :: "attempt_state \<Rightarrow> jval \<Rightarrow> int \<Rightarrow> save_outcome \<Rightarrow> ledger_dir \<Rightarrow> session \<Rightarrow> ledger_error option \<times> ledger_dir \<times> session" where
  "transition st evidence now outcome d s =
    (case ss_active s of
       None \<Rightarrow> (Some AttemptState, d, s)
     | Some a \<Rightarrow>
         if ss_closed s \<or> st \<notin> set (may_follow (at_state a)) then (Some AttemptState, d, s)
         else case (if st = Completed then verdict_of (field evidence (la ''acceptance'')) else Some INCONCLUSIVE) of
                None \<Rightarrow> (Some AttemptState, d, s)
              | Some v \<Rightarrow>
                  replace_active (a\<lparr>at_state := st, at_transitions := at_transitions a @ [st],
                    at_history := at_history a @ [\<lparr>hi_state = st, hi_atUTC = now, hi_evidence = evidence\<rparr>],
                    at_verdict := v, at_evidence := evidence\<rparr>) outcome d s)"

definition checkpoint :: "jval \<Rightarrow> int \<Rightarrow> save_outcome \<Rightarrow> ledger_dir \<Rightarrow> session \<Rightarrow> ledger_error option \<times> ledger_dir \<times> session" where
  "checkpoint evidence now outcome d s =
    (case ss_active s of
       None \<Rightarrow> (Some AttemptState, d, s)
     | Some a \<Rightarrow>
         if ss_closed s \<or> terminal (at_state a) then (Some AttemptState, d, s)
         else replace_active (a\<lparr>at_checkpoints := at_checkpoints a @ [(now, evidence)]\<rparr>) outcome d s)"

text \<open>The passes in a row under the policy of the session; a failure or another policy starts again.\<close>

fun count_series :: "nat \<Rightarrow> jstr option \<Rightarrow> attempt list \<Rightarrow> ledger_error + nat \<times> jstr option" where
  "count_series n previous [] = Inr (n, previous)"
| "count_series n previous (e # es) =
    and_then (policy_key (at_policy e)) (\<lambda>key.
      let n' = (if Some key \<noteq> previous then 0 else n)
      in count_series (if at_verdict e = FAIL then 0 else if at_state e = Completed \<and> at_verdict e = PASS then Suc n' else n') (Some key) es)"

definition series :: "session \<Rightarrow> ledger_error + nat" where
  "series s =
    (if ss_poisoned s then Inl LedgerUnavailable
     else and_then (policy_key (ss_policy s)) (\<lambda>current.
          and_then (count_series 0 None (ss_entries s)) (\<lambda>(n, previous). Inr (if previous = Some current then n else 0))))"

text \<open>
  Closing removes the lock, then brings the directory to the disk, and either may throw: \<open>LockKept\<close>
  when the lock could not be removed, \<open>Unsynced\<close> when it was removed and the directory could not be
  written out. A lock that is gone cannot be removed.
\<close>

datatype unlock_outcome = Unlocked | LockKept | Unsynced

definition close_ledger :: "unlock_outcome \<Rightarrow> ledger_dir \<Rightarrow> session \<Rightarrow> ledger_error option \<times> ledger_dir \<times> session" where
  "close_ledger outcome d s =
    (if ss_poisoned s \<or> ss_closed s \<or> (case ss_active s of None \<Rightarrow> True | Some a \<Rightarrow> \<not> terminal (at_state a)) then (Some AttemptIncomplete, d, s)
     else if \<not> ld_lock d \<or> outcome = LockKept then (Some CloseFailed, d, s\<lparr>ss_closeFailed := True\<rparr>)
     else if outcome = Unsynced then (Some CloseFailed, d\<lparr>ld_lock := False\<rparr>, s\<lparr>ss_closeFailed := True\<rparr>)
     else (None, d\<lparr>ld_lock := False\<rparr>, s\<lparr>ss_closed := True\<rparr>))"

text \<open>What a session may do next, whatever the outcome.\<close>

inductive ledger_step :: "ledger_dir \<times> session \<Rightarrow> ledger_dir \<times> session \<Rightarrow> bool" where
  step_prepare: "is_attempt_id i \<Longrightarrow> safe_integer now \<Longrightarrow> prepare_attempt i now outcome d s = (r, d', s') \<Longrightarrow> ledger_step (d, s) (d', s')"
| step_transition: "safe_integer now \<Longrightarrow> transition st evidence now outcome d s = (r, d', s') \<Longrightarrow> ledger_step (d, s) (d', s')"
| step_checkpoint: "checkpoint evidence now outcome d s = (r, d', s') \<Longrightarrow> ledger_step (d, s) (d', s')"
| step_close: "close_ledger unlock d s = (r, d', s') \<Longrightarrow> ledger_step (d, s) (d', s')"

inductive_cases ledger_stepE: "ledger_step (d, s) (d', s')"

inductive ledger_run :: "ledger_dir \<times> session \<Rightarrow> ledger_dir \<times> session \<Rightarrow> bool" for start where
  ledger_start: "ledger_run start start"
| ledger_next: "ledger_run start w \<Longrightarrow> ledger_step w w' \<Longrightarrow> ledger_run start w'"

section \<open>The invariant of a session\<close>

definition entries_ok :: "attempt list \<Rightarrow> bool" where
  "entries_ok es \<longleftrightarrow> distinct (map at_id es) \<and>
     list_all (\<lambda>e. is_attempt_id (at_id e) \<and> finished_ok e \<and> (\<exists>k. policy_key (at_policy e) = Inr k)) es"

lemma check_entries_ok:
  "check_entries seen es = Inr () \<longleftrightarrow> entries_ok es \<and> set (map at_id es) \<inter> set seen = {}"
proof (induction es arbitrary: seen)
  case (Cons e es)
  show ?case by (auto simp: result_simps Cons.IH entries_ok_def)
qed (simp add: entries_ok_def)

definition old_entries :: "ledger_file \<Rightarrow> attempt list" where
  "old_entries f = (case f of Entries es \<Rightarrow> es | _ \<Rightarrow> [])"

definition path_to :: "attempt_state \<Rightarrow> attempt_state list" where
  "path_to st = takeWhile (\<lambda>x. x \<noteq> st) [Prepared, Armed, EventConsumed, Completed] @ [st]"

text \<open>The attempt of the session: what it went through, and what a finished one must be.\<close>

definition active_ok :: "session \<Rightarrow> attempt \<Rightarrow> bool" where
  "active_ok s a \<longleftrightarrow> is_attempt_id (at_id a) \<and> at_id a \<notin> set (ss_seen s) \<and> aligned a \<and> (\<exists>k. policy_key (at_policy a) = Inr k) \<and>
     (at_state a \<noteq> Inconclusive \<longrightarrow> at_transitions a = path_to (at_state a)) \<and> (terminal (at_state a) \<longrightarrow> finished_ok a)"

definition session_inv :: "ledger_file \<Rightarrow> ledger_dir \<times> session \<Rightarrow> bool" where
  "session_inv f0 = (\<lambda>(d, s).
     (\<exists>k. policy_key (ss_policy s) = Inr k) \<and> entries_ok (old_entries f0) \<and> ss_seen s = map at_id (old_entries f0) \<and>
     (\<not> ss_closed s \<and> \<not> ss_closeFailed s \<longrightarrow> ld_lock d) \<and>
     (ld_file d = f0 \<or> (\<exists>a. ld_file d = Entries (old_entries f0 @ [a]))) \<and>
     (case ss_active s of
        None \<Rightarrow> \<not> ss_poisoned s \<and> \<not> ss_closed s \<and> \<not> ss_closeFailed s \<and> ss_entries s = old_entries f0 \<and> \<not> ld_pending d
      | Some a \<Rightarrow> active_ok s a \<and> (ss_closed s \<or> ss_closeFailed s \<longrightarrow> terminal (at_state a) \<and> \<not> ss_poisoned s) \<and>
          (\<not> ss_poisoned s \<longrightarrow> ss_entries s = old_entries f0 @ [a] \<and> ld_file d = Entries (old_entries f0 @ [a]) \<and> \<not> ld_pending d)))"

lemma opened_inv:
  assumes "openAttemptLedger private policy d = (d', Inr s)"
  shows "session_inv (ld_file d) (d', s)"
proof -
  obtain es where policy: "\<exists>k. policy_key policy = Inr k" and es: "read_entries d = Inr es" and d': "d' = d\<lparr>ld_lock := True\<rparr>"
    and s: "s = \<lparr>ss_policy = policy, ss_seen = map at_id es, ss_entries = es, ss_active = None, ss_closed = False, ss_closeFailed = False, ss_poisoned = False\<rparr>"
    using assms by (auto simp: openAttemptLedger_def result_simps split: sum.splits if_splits)
  have "es = old_entries (ld_file d)" "entries_ok es" "\<not> ld_pending d"
    using es by (auto simp: read_entries_def result_simps old_entries_def check_entries_ok split: ledger_file.splits)
  with policy show ?thesis by (simp add: session_inv_def d' s)
qed

lemma save_eqs:
  "save outcome es d s = (r, d', s') \<Longrightarrow> ss_poisoned s \<Longrightarrow> r \<noteq> None \<and> d' = d \<and> s' = s"
  "save outcome es d s = (None, d', s') \<Longrightarrow> \<not> ss_poisoned s \<Longrightarrow> d' = d\<lparr>ld_file := Entries es\<rparr> \<and> s' = s\<lparr>ss_entries := es\<rparr>"
  "save outcome es d s = (Some x, d', s') \<Longrightarrow> \<not> ss_poisoned s \<Longrightarrow> s' = s\<lparr>ss_poisoned := True\<rparr> \<and> ld_lock d' = ld_lock d \<and>
     (ld_file d' = ld_file d \<or> ld_file d' = Entries es)"
  by (auto simp: save_def split: if_splits save_outcome.splits)

lemma prepare_inv:
  assumes inv: "session_inv f0 (d, s)" and "is_attempt_id i" and "safe_integer now" and step: "prepare_attempt i now outcome d s = (r, d', s')"
  shows "session_inv f0 (d', s')"
proof (cases "ss_active s = None \<and> \<not> ss_closed s \<and> i \<notin> set (ss_seen s)")
  case False
  then show ?thesis using step inv by (auto simp: prepare_attempt_def split: if_splits)
next
  case True
  obtain e where e: "active_ok s e" and saved: "save outcome (ss_entries s @ [e]) d (s\<lparr>ss_active := Some e\<rparr>) = (r, d', s')"
  proof -
    let ?e = "\<lparr>at_id = i, at_policy = (if ss_policy s = JNull then JUndef else ss_policy s), at_state = Prepared, at_transitions = [Prepared],
                at_history = [\<lparr>hi_state = Prepared, hi_atUTC = now, hi_evidence = JNull\<rparr>], at_verdict = INCONCLUSIVE, at_evidence = JNull, at_checkpoints = []\<rparr>"
    have "\<exists>k. policy_key (at_policy ?e) = Inr k" using inv by (auto simp: session_inv_def policy_key_def)
    then have "active_ok s ?e" using assms(2,3) True by (simp add: active_ok_def aligned_def path_to_def terminal_def)
    moreover have "save outcome (ss_entries s @ [?e]) d (s\<lparr>ss_active := Some ?e\<rparr>) = (r, d', s')"
      using step True by (simp add: prepare_attempt_def Let_def)
    ultimately show thesis using that by blast
  qed
  have u: "\<not> ss_poisoned s" "ss_entries s = old_entries f0" "\<not> ld_pending d" using inv True by (simp_all add: session_inv_def)
  show ?thesis
  proof (cases r)
    case None
    then show ?thesis using save_eqs(2) [OF saved [unfolded None]] u inv True e by (simp add: session_inv_def active_ok_def)
  next
    case (Some x)
    then show ?thesis using save_eqs(3) [OF saved [unfolded Some]] u inv True e by (auto simp: session_inv_def active_ok_def)
  qed
qed

lemma replace_active_inv:
  assumes inv: "session_inv f0 (d, s)" and a: "ss_active s = Some a" "\<not> terminal (at_state a)" and "\<not> ss_closed s" and e: "active_ok s e"
    and step: "replace_active e outcome d s = (r, d', s')"
  shows "session_inv f0 (d', s')"
proof (cases "ss_poisoned s")
  case True
  then have "d' = d \<and> s' = s" using step by (auto simp: replace_active_def save_def split: option.splits prod.splits)
  with inv show ?thesis by simp
next
  case False
  then have es: "ss_entries s = old_entries f0 @ [a]" "\<not> ld_pending d" using inv a by (simp_all add: session_inv_def)
  obtain r1 d1 s1 where saved: "save outcome (old_entries f0 @ [e]) d s = (r1, d1, s1)" by (metis prod_cases3)
  show ?thesis
  proof (cases r1)
    case None
    then have "d' = d1 \<and> s' = s1\<lparr>ss_active := Some e\<rparr>" using step saved es by (simp add: replace_active_def)
    then show ?thesis using save_eqs(2) [OF saved [unfolded None] False] es inv a assms(3) e by (simp add: session_inv_def active_ok_def)
  next
    case (Some x)
    then have "d' = d1 \<and> s' = s1" using step saved es by (simp add: replace_active_def)
    then show ?thesis using save_eqs(3) [OF saved [unfolded Some] False] inv a assms(3) by (auto simp: session_inv_def active_ok_def)
  qed
qed

lemma verdict_of_name: "verdict_of v = Some x \<Longrightarrow> v = JStr (verdict_name x)"
  by (auto simp: verdict_of_def split: if_splits)

lemma path_step: "st \<in> set (may_follow x) \<Longrightarrow> st \<noteq> Inconclusive \<Longrightarrow> path_to st = path_to x @ [st]"
  by (cases x) (auto simp: may_follow_def path_to_def)

lemma may_follow_open: "st \<in> set (may_follow x) \<Longrightarrow> \<not> terminal x"
  by (cases x) (auto simp: may_follow_def terminal_def)

lemma transition_inv:
  assumes inv: "session_inv f0 (d, s)" and "safe_integer now" and step: "transition st evidence now outcome d s = (r, d', s')"
  shows "session_inv f0 (d', s')"
proof (cases "\<exists>a. ss_active s = Some a \<and> \<not> ss_closed s \<and> st \<in> set (may_follow (at_state a)) \<and>
    (if st = Completed then verdict_of (field evidence (la ''acceptance'')) else Some INCONCLUSIVE) \<noteq> None")
  case False
  then have "d' = d \<and> s' = s" using step by (auto simp: transition_def split: option.splits if_splits)
  with inv show ?thesis by simp
next
  case True
  then obtain a v where a: "ss_active s = Some a" "\<not> ss_closed s" "st \<in> set (may_follow (at_state a))"
    and v: "(if st = Completed then verdict_of (field evidence (la ''acceptance'')) else Some INCONCLUSIVE) = Some v" by auto
  let ?e = "a\<lparr>at_state := st, at_transitions := at_transitions a @ [st],
      at_history := at_history a @ [\<lparr>hi_state = st, hi_atUTC = now, hi_evidence = evidence\<rparr>], at_verdict := v, at_evidence := evidence\<rparr>"
  have ok: "active_ok s a" using inv a(1) by (simp add: session_inv_def)
  have not_end: "at_state a \<noteq> Inconclusive" "at_state a \<noteq> Completed" using a(3) by (auto simp: may_follow_def)
  have path: "st \<noteq> Inconclusive \<Longrightarrow> at_transitions ?e = path_to st"
    using ok not_end path_step [OF a(3)] by (simp add: active_ok_def)
  have al: "aligned ?e" using ok assms(2) by (simp add: active_ok_def aligned_def)
  have "st = Completed \<Longrightarrow> at_transitions ?e = [Prepared, Armed, EventConsumed, Completed]" using path by (simp add: path_to_def)
  moreover have "st = Completed \<Longrightarrow> field evidence (la ''acceptance'') = JStr (verdict_name v)" using v by (simp add: verdict_of_name)
  moreover have "st = Inconclusive \<Longrightarrow> v = INCONCLUSIVE" using v by simp
  ultimately have "terminal st \<Longrightarrow> finished_ok ?e" using al by (simp add: finished_ok_def)
  then have "active_ok s ?e" using ok path al by (simp add: active_ok_def)
  moreover have "replace_active ?e outcome d s = (r, d', s')" using step a v by (simp add: transition_def)
  ultimately show ?thesis using replace_active_inv [OF inv a(1) may_follow_open [OF a(3)] a(2)] by blast
qed

lemma checkpoint_inv:
  assumes inv: "session_inv f0 (d, s)" and step: "checkpoint evidence now outcome d s = (r, d', s')"
  shows "session_inv f0 (d', s')"
proof (cases "\<exists>a. ss_active s = Some a \<and> \<not> ss_closed s \<and> \<not> terminal (at_state a)")
  case False
  then have "d' = d \<and> s' = s" using step by (auto simp: checkpoint_def split: option.splits if_splits)
  with inv show ?thesis by simp
next
  case True
  then obtain a where a: "ss_active s = Some a" "\<not> ss_closed s" "\<not> terminal (at_state a)" by auto
  have "active_ok s a" using inv a(1) by (simp add: session_inv_def)
  then have "active_ok s (a\<lparr>at_checkpoints := at_checkpoints a @ [(now, evidence)]\<rparr>)"
    using a(3) by (simp add: active_ok_def aligned_def)
  then show ?thesis using replace_active_inv [OF inv a(1,3,2)] step a by (simp add: checkpoint_def)
qed

text \<open>A close is refused, or the attempt is finished and saved and only the lock and the two marks change.\<close>

lemma close_cases:
  assumes "close_ledger unlock d s = (r, d', s')"
  obtains "r = Some AttemptIncomplete" and "d' = d" and "s' = s"
  | a where "ss_active s = Some a" and "terminal (at_state a)" and "\<not> ss_poisoned s" and "\<not> ss_closed s" and "ld_lock d" and "r = None"
      and "d' = d\<lparr>ld_lock := False\<rparr>" and "s' = s\<lparr>ss_closed := True\<rparr>"
  | a where "ss_active s = Some a" and "terminal (at_state a)" and "\<not> ss_poisoned s" and "\<not> ss_closed s" and "r = Some CloseFailed"
      and "d' = d \<or> d' = d\<lparr>ld_lock := False\<rparr>" and "s' = s\<lparr>ss_closeFailed := True\<rparr>"
proof (cases "ss_poisoned s \<or> ss_closed s \<or> (case ss_active s of None \<Rightarrow> True | Some a \<Rightarrow> \<not> terminal (at_state a))")
  case True
  then have "close_ledger unlock d s = (Some AttemptIncomplete, d, s)" by (simp only: close_ledger_def if_True)
  then show ?thesis using assms that(1) by simp
next
  case False
  then obtain a where a: "ss_active s = Some a" "terminal (at_state a)" "\<not> ss_poisoned s" "\<not> ss_closed s" by (cases "ss_active s") simp_all
  consider "\<not> ld_lock d \<or> unlock = LockKept" | "ld_lock d" "unlock = Unsynced" | "ld_lock d" "unlock = Unlocked" by (cases unlock) auto
  then show ?thesis
  proof cases
    case 1
    then show ?thesis using that(3) [OF a] assms a by (simp add: close_ledger_def)
  next
    case 2
    then show ?thesis using that(3) [OF a] assms a by (simp add: close_ledger_def)
  next
    case 3
    then show ?thesis using that(2) [OF a] assms a by (simp add: close_ledger_def)
  qed
qed

lemma active_ok_marks [simp]:
  "active_ok (s\<lparr>ss_closed := b\<rparr>) = active_ok s" "active_ok (s\<lparr>ss_closeFailed := b\<rparr>) = active_ok s"
  by (simp_all add: active_ok_def fun_eq_iff)

lemma close_inv:
  assumes inv: "session_inv f0 (d, s)" and step: "close_ledger unlock d s = (r, d', s')"
  shows "session_inv f0 (d', s')"
proof (rule close_cases [OF step])
  show "session_inv f0 (d', s')" if "d' = d" "s' = s" using inv that by simp
  show "session_inv f0 (d', s')"
    if "ss_active s = Some a" "terminal (at_state a)" "\<not> ss_poisoned s" "d' = d\<lparr>ld_lock := False\<rparr>" "s' = s\<lparr>ss_closed := True\<rparr>" for a
    using inv that by (simp add: session_inv_def)
  show "session_inv f0 (d', s')"
    if "ss_active s = Some a" "terminal (at_state a)" "\<not> ss_poisoned s" "d' = d \<or> d' = d\<lparr>ld_lock := False\<rparr>" "s' = s\<lparr>ss_closeFailed := True\<rparr>" for a
    using inv that by (elim disjE) (simp_all add: session_inv_def)
qed

lemma ledger_step_inv: "ledger_step w w' \<Longrightarrow> session_inv f0 w \<Longrightarrow> session_inv f0 w'"
  by (cases rule: ledger_step.cases) (auto intro: prepare_inv transition_inv checkpoint_inv close_inv)

lemma ledger_run_inv: "ledger_run w w' \<Longrightarrow> session_inv f0 w \<Longrightarrow> session_inv f0 w'"
  by (induction rule: ledger_run.induct) (auto intro: ledger_step_inv)

text \<open>A closed session leaves a ledger that opens again, unless it has become too long.\<close>

lemma active_ok_entry: "entries_ok es \<Longrightarrow> active_ok s a \<Longrightarrow> ss_seen s = map at_id es \<Longrightarrow> terminal (at_state a) \<Longrightarrow> entries_ok (es @ [a])"
  by (auto simp: entries_ok_def active_ok_def)

lemma reopen:
  assumes "ld_file d = Entries es" and "entries_ok es" and "\<not> ld_lock d" and "\<not> ld_pending d" and "policy_key policy = Inr k"
  shows "snd (openAttemptLedger True policy d) =
    (if length es \<le> MAX_ENTRIES then Inr \<lparr>ss_policy = policy, ss_seen = map at_id es, ss_entries = es, ss_active = None, ss_closed = False, ss_closeFailed = False, ss_poisoned = False\<rparr>
     else Inl LedgerCorrupt)"
proof -
  have "check_entries [] es = Inr ()" using assms(2) by (simp add: check_entries_ok)
  then show ?thesis using assms by (simp add: openAttemptLedger_def read_entries_def require_def)
qed

text \<open>A session is closed when its lock is gone, and opened with the lock.\<close>

lemma step_keeps_lock: "ledger_step (d, s) (d', s') \<Longrightarrow> ss_closed s \<longrightarrow> \<not> ld_lock d \<Longrightarrow> ss_closed s' \<longrightarrow> \<not> ld_lock d'"
  by (elim ledger_stepE)
    (auto simp: prepare_attempt_def transition_def checkpoint_def close_ledger_def replace_active_def save_def Let_def
      split: if_splits option.splits save_outcome.splits)

lemma closed_unlocked:
  assumes "ledger_run (d1, s1) (d, s)" and "ss_closed s1 \<longrightarrow> \<not> ld_lock d1"
  shows "ss_closed s \<longrightarrow> \<not> ld_lock d"
proof -
  have "case w of (d, s) \<Rightarrow> ss_closed s \<longrightarrow> \<not> ld_lock d" if "ledger_run (d1, s1) w" for w
    using that
  proof induction
    case ledger_start
    then show ?case using assms(2) by simp
  next
    case (ledger_next w w')
    then show ?case by (cases w; cases w') (auto dest: step_keeps_lock)
  qed
  from this [OF assms(1)] show ?thesis by simp
qed

lemma opened_open: "openAttemptLedger private policy d = (d', Inr s) \<Longrightarrow> \<not> ss_closed s"
  by (auto simp: openAttemptLedger_def result_simps split: sum.splits if_splits)

text \<open>
  A close that fails after the lock was removed leaves the ledger to anyone while its session still
  counts as open, and closing once more then removes the lock of the operator who came next.
\<close>

lemma unsynced_close_admits_another:
  assumes inv: "session_inv f0 (d, s)" and lock: "ld_lock d" and step: "close_ledger Unsynced d s = (Some CloseFailed, d', s')"
    and room: "length (old_entries f0) < MAX_ENTRIES"
  shows "\<not> ss_closed s' \<and> (\<exists>d2 s2. openAttemptLedger True (ss_policy s) d' = (d2, Inr s2) \<and> ld_lock d2 \<and>
    (\<exists>d3 s3. close_ledger Unlocked d2 s' = (None, d3, s3) \<and> \<not> ld_lock d3))"
proof -
  obtain a where a: "ss_active s = Some a" "terminal (at_state a)" "\<not> ss_poisoned s" "\<not> ss_closed s"
    and d': "d' = d\<lparr>ld_lock := False\<rparr>" and s': "s' = s\<lparr>ss_closeFailed := True\<rparr>"
    using step lock by (auto simp: close_ledger_def split: if_splits option.splits)
  have ok: "active_ok s a" and seen: "ss_seen s = map at_id (old_entries f0)" "entries_ok (old_entries f0)"
    and stored: "ld_file d = Entries (old_entries f0 @ [a])" "\<not> ld_pending d"
    using inv a by (auto simp: session_inv_def)
  obtain k where k: "policy_key (ss_policy s) = Inr k" using inv by (auto simp: session_inv_def)
  obtain d2 r2 where o: "openAttemptLedger True (ss_policy s) d' = (d2, r2)" by fastforce
  have "\<exists>s2. r2 = Inr s2"
    using reopen [OF _ active_ok_entry [OF seen(2) ok seen(1) a(2)], of d' "ss_policy s" k] room stored k o by (simp add: d')
  moreover have "ld_lock d2" using o k by (auto simp: openAttemptLedger_def d')
  ultimately show ?thesis using a o by (auto simp: close_ledger_def s')
qed

section \<open>The series\<close>

definition passed :: "attempt \<Rightarrow> bool" where
  "passed e \<longleftrightarrow> at_state e = Completed \<and> at_verdict e = PASS"

text \<open>The attempts since the last one that failed or had another policy.\<close>

definition current_series :: "jstr \<Rightarrow> attempt list \<Rightarrow> attempt list" where
  "current_series key es = takeWhile (\<lambda>e. policy_key (at_policy e) = Inr key \<and> at_verdict e \<noteq> FAIL) (rev es)"

lemma count_series_append:
  "count_series n p (es @ fs) = and_then (count_series n p es) (\<lambda>(m, q). count_series m q fs)"
proof (induction es arbitrary: n p)
  case (Cons e es)
  show ?case
  proof (cases "policy_key (at_policy e)")
    case (Inr key)
    show ?thesis unfolding append_Cons count_series.simps Inr and_then.simps Let_def by (rule Cons.IH)
  qed simp
qed simp

lemma count_series_reference:
  assumes "list_all (\<lambda>e. \<exists>k. policy_key (at_policy e) = Inr k) es"
  shows "\<exists>n. count_series 0 None es = Inr (n, if es = [] then None else Some (projr (policy_key (at_policy (last es))))) \<and>
    (\<forall>key. (es \<noteq> [] \<and> policy_key (at_policy (last es)) = Inr key) \<longrightarrow> n = length (filter passed (current_series key es)))"
  using assms
proof (induction es rule: rev_induct)
  case (snoc e es)
  then obtain n key where n: "count_series 0 None es = Inr (n, if es = [] then None else Some (projr (policy_key (at_policy (last es)))))"
      "\<And>k. es \<noteq> [] \<Longrightarrow> policy_key (at_policy (last es)) = Inr k \<Longrightarrow> n = length (filter passed (current_series k es))"
    and key: "policy_key (at_policy e) = Inr key" by auto
  let ?prev = "if es = [] then None else Some (projr (policy_key (at_policy (last es))))"
  let ?n = "if Some key \<noteq> ?prev then 0 else n"
  have "?n = length (filter passed (current_series key es))"
  proof (cases "es = []")
    case True
    then show ?thesis by (simp add: current_series_def)
  next
    case False
    then obtain k where k: "policy_key (at_policy (last es)) = Inr k"
      using snoc.prems last_in_set [OF False] by (fastforce simp: list_all_iff)
    show ?thesis
    proof (cases "k = key")
      case True
      then show ?thesis using n(2) [OF False k] False k by simp
    next
      case other: False
      then have "current_series key es = []" using k False by (cases es rule: rev_cases) (simp_all add: current_series_def)
      then show ?thesis using False k other by simp
    qed
  qed
  moreover have "current_series key (es @ [e]) = (if at_verdict e = FAIL then [] else e # current_series key es)"
    using key by (simp add: current_series_def)
  ultimately have m: "(if at_verdict e = FAIL then 0 else if at_state e = Completed \<and> at_verdict e = PASS then Suc ?n else ?n) =
      length (filter passed (current_series key (es @ [e])))"
    by (auto simp: passed_def)
  show ?case
    unfolding count_series_append n(1) and_then.simps case_prod_conv count_series.simps key Let_def m by (simp add: key)
qed simp

text \<open>A session whose saves have succeeded can always count its series.\<close>

lemma series_value:
  assumes inv: "session_inv f0 (d, s)" and healthy: "\<not> ss_poisoned s"
  obtains key n where "policy_key (ss_policy s) = Inr key" and "series s = Inr n"
    and "n = length (filter passed (current_series key (ss_entries s)))"
proof -
  obtain key where key: "policy_key (ss_policy s) = Inr key" using inv by (auto simp: session_inv_def)
  have es: "list_all (\<lambda>e. \<exists>k. policy_key (at_policy e) = Inr k) (ss_entries s)"
    using inv healthy by (auto simp: session_inv_def entries_ok_def active_ok_def list_all_iff split: option.splits)
  then obtain n where n: "count_series 0 None (ss_entries s) = Inr (n, if ss_entries s = [] then None else Some (projr (policy_key (at_policy (last (ss_entries s))))))"
    and ref: "\<And>k. ss_entries s \<noteq> [] \<Longrightarrow> policy_key (at_policy (last (ss_entries s))) = Inr k \<Longrightarrow> n = length (filter passed (current_series k (ss_entries s)))"
    using count_series_reference [OF es] by blast
  have "\<exists>n. series s = Inr n \<and> n = length (filter passed (current_series key (ss_entries s)))"
  proof (cases "ss_entries s = [] \<or> policy_key (at_policy (last (ss_entries s))) \<noteq> Inr key")
    case True
    have "current_series key (ss_entries s) = []"
      using True by (cases "ss_entries s" rule: rev_cases) (auto simp: current_series_def)
    moreover have "\<exists>k. policy_key (at_policy (last (ss_entries s))) = Inr k" if "ss_entries s \<noteq> []"
      using es last_in_set [OF that] by (auto simp: list_all_iff)
    ultimately show ?thesis using healthy n key True by (auto simp: series_def)
  next
    case other: False
    then show ?thesis using healthy n key ref by (auto simp: series_def)
  qed
  then show ?thesis using that key by blast
qed

end
