(* ===== verification/RevalidationProperties.thy ===== *)
theory RevalidationProperties
  imports Ledger
begin

text \<open>
  The properties of the revalidation scripts: what a manifest makes the observer watch, that the
  observer stays within its budget of requests and ends, and what its verdicts prove.
\<close>

section \<open>A publication\<close>

text \<open>Two projections of a catalogue with one product, before and after a publication.\<close>

definition sample_provenance :: "phase \<Rightarrow> int \<Rightarrow> jval" where
  "sample_provenance ph state =
    JObj [(la ''kind'', JStr (la ''sealed-repository-projection'')), (la ''evidenceId'', JStr (evidence_id (replicate 32 97) ph)),
      (la ''canonicalStateId'', JStr (replicate 64 state)), (la ''sourceSha'', JStr (replicate 40 97)), (la ''frontendSha'', JStr (replicate 40 98)),
      (la ''semantics'', JStr (la ''go-next-c2-v2'')), (la ''snapshotStatus'', JStr (la ''published'')), (la ''consistentRead'', JBool True)]"

definition sample_body :: "jstr \<Rightarrow> jval" where
  "sample_body stamp =
    JObj [(la ''dashboardAt'', JStr stamp), (la ''topEight'', JArr [JStr (la ''p1'')]), (la ''witnessId'', JStr (la ''p1'')),
      (la ''candidates'', JArr [JObj [(la ''id'', JStr (la ''p1'')), (la ''slug'', JStr (la ''milk'')), (la ''snapshotAt'', JStr stamp),
        (la ''topEightIndex'', JNum (Fin 0)), (la ''categoryIndex'', JNum (Fin 0)), (la ''sitemapIndex'', JNum (Fin 0))]]),
      (la ''categoryPages'', JArr [JObj [(la ''slug'', JStr (la ''milk'')), (la ''productIds'', JArr [JStr (la ''p1'')])]]),
      (la ''sitemap'', JObj [(la ''categorySlugs'', JArr [JStr (la ''milk'')]), (la ''productCount'', JNum (Fin 1)), (la ''truncated'', JBool False)])]"

definition sample_uuid :: "int \<Rightarrow> jstr" where
  "sample_uuid c = join [45] (map (\<lambda>n. replicate n c) [8, 4, 4, 4, 12])"

definition sample_projection :: "phase \<Rightarrow> int \<Rightarrow> jval \<Rightarrow> jstr \<Rightarrow> jval" where
  "sample_projection ph c previous stamp =
    JObj [(la ''version'', JNum (Fin 2)), (la ''phase'', JStr (phase_name ph)), (la ''attemptId'', JStr (replicate 32 97)),
      (la ''snapshotId'', JStr (sample_uuid c)), (la ''previousSnapshotId'', previous), (la ''provenance'', sample_provenance ph c), (la ''body'', sample_body stamp)]"

definition old_stamp :: jstr where "old_stamp = la ''2026-01-01T00:00:00.000Z''"
definition new_stamp :: jstr where "new_stamp = la ''2026-01-02T00:00:00.000Z''"

definition sample_before :: jval where "sample_before = sample_projection BeforeMutation 97 JNull old_stamp"
definition sample_after :: jval where "sample_after = sample_projection AfterCommit 98 (JStr (sample_uuid 97)) new_stamp"

definition manifest_input :: "jval \<Rightarrow> jval \<Rightarrow> jval" where
  "manifest_input before after =
    JObj [(la ''version'', JNum (Fin 2)), (la ''attemptId'', field before (la ''attemptId'')), (la ''before'', before), (la ''after'', after)]"

lemma sample_manifest: "(case buildManifest (manifest_input sample_before sample_after) of Inr m \<Rightarrow> length (mf_targets m) = 6 | _ \<Rightarrow> False)"
  by code_simp

section \<open>Manifests and plans\<close>

lemma month_days_le: "month_days y m \<le> 31"
  by (simp add: month_days_def)

lemma is_iso_stamp: "is_iso s \<Longrightarrow> iso_stamp s"
  using month_days_le [of "digits_at 0 4 s" "digits_at 5 2 s"] by (simp add: is_iso_def iso_stamp_def Let_def)

lemma str_lt_neq: "str_lt a b \<Longrightarrow> a \<noteq> b"
  by (auto simp: str_lt_def str_le_def)

lemma sound_target_checks:
  assumes "sound_target t"
  shows "check_target True t = None" and "ot_after t \<noteq> None \<Longrightarrow> check_target False t = None"
proof -
  have "plan_path t" using assms by (cases "ot_name t") (simp_all add: sound_target_def plan_path_def)
  then show "check_target True t = None" using assms by (auto simp: sound_target_def check_target_def is_iso_stamp)
  assume "ot_after t \<noteq> None"
  then obtain a q where "ot_after t = Some a" "ot_productAfter t = Some q" "is_iso a" "is_iso q" "str_lt (ot_before t) a" "str_lt (ot_productBefore t) q"
    using assms by (auto simp: sound_target_def split: option.splits)
  then have "changed_stamp (ot_before t) (ot_after t)" "changed_stamp (ot_productBefore t) (ot_productAfter t)"
    by (auto simp: changed_stamp_def is_iso_stamp dest: str_lt_neq)
  with \<open>plan_path t\<close> assms show "check_target False t = None" by (auto simp: sound_target_def check_target_def is_iso_stamp)
qed

lemma matrix_ok:
  assumes "map ot_name ts = TARGET_NAMES"
  shows "length ts = 6 \<and> list_all (\<lambda>n. length (filter (\<lambda>t. ot_name t = n) ts) = 1) TARGET_NAMES"
proof -
  have len: "length (filter (\<lambda>t. ot_name t = n) ts) = length (filter (\<lambda>x. x = n) TARGET_NAMES)" for n
    unfolding assms [symmetric] by (simp add: filter_map comp_def)
  have "length ts = length TARGET_NAMES" using arg_cong [OF assms, of length] by simp
  then show ?thesis unfolding len by (simp add: TARGET_NAMES_def)
qed

text \<open>C15: Whenever a manifest can be built, of either version, it is one the observer accepts: it watches
  the six pages, each on the path of its own product or category, and every time stamp to
  wait for is a moment later than the one before. For version 2 the pages are those that were
  prepared before the publication.\<close>

theorem manifest_is_a_valid_plan:
  assumes "buildManifest input = Inr m" and "pn_event plan = Some e" and "pn_publicationId plan = ev_publicationId e"
    and "pn_targets plan = mf_targets m"
  shows "validatePlan plan False = None \<and> map ot_name (mf_targets m) = TARGET_NAMES \<and>
     list_all (\<lambda>t. sound_target t \<and> ot_after t \<noteq> None) (mf_targets m) \<and>
     (case input of
        JObj ob \<Rightarrow> obj_get ob (la ''version'') \<noteq> JNum (Fin 2) \<or>
          map_option pp_targets (prepareBeforeV2 (obj_get ob (la ''before''))) = Some (map without_after (mf_targets m))
      | _ \<Rightarrow> True)"
proof -
  note m = buildManifest_targets [OF assms(1)]
  have "check_all (check_target False) (mf_targets m) = None"
    using m(1,3) sound_target_checks(2) by (auto simp: check_all_None list_all_iff)
  then have plan: "validatePlan plan False = None" using assms(2-4) matrix_ok [OF m(2)] by (simp add: validatePlan_def)
  have "case input of JObj ob \<Rightarrow> obj_get ob (la ''version'') \<noteq> JNum (Fin 2) \<or>
      map_option pp_targets (prepareBeforeV2 (obj_get ob (la ''before''))) = Some (map without_after (mf_targets m)) | _ \<Rightarrow> True"
    using assms(1) manifest_extends_prepared by (fastforce simp: buildManifest_def split: jval.splits if_splits)
  with plan m show ?thesis by (simp add: list_all_iff)
qed

definition sample_event :: event where
  "sample_event = \<lparr>ev_start = 0, ev_end = 200, ev_receivedUTC = 0, ev_publicationId = la ''pub1'', ev_receipt = JNull\<rparr>"

definition plan_for :: "target list \<Rightarrow> obs_plan" where
  "plan_for ts = \<lparr>pn_event = Some sample_event, pn_publicationId = la ''pub1'', pn_targets = ts\<rparr>"

theorem manifest_is_a_valid_plan_witness:
  "\<exists>m. buildManifest (manifest_input sample_before sample_after) = Inr m \<and> validatePlan (plan_for (mf_targets m)) False = None \<and>
     map ot_name (mf_targets m) = TARGET_NAMES"
proof -
  obtain m where m: "buildManifest (manifest_input sample_before sample_after) = Inr m" using sample_manifest by (auto split: sum.splits)
  show ?thesis
    using manifest_is_a_valid_plan [OF m, of "plan_for (mf_targets m)" sample_event] m by (simp add: plan_for_def sample_event_def)
qed

section \<open>Sampling\<close>

lemma count_mset_map: "count (mset (map f xs)) n = length (filter (\<lambda>x. f x = n) xs)"
  by (induction xs) simp_all

lemma plan_names:
  assumes "validatePlan plan capture = None"
  shows "mset (map ot_name (pn_targets plan)) = mset TARGET_NAMES"
proof (rule multiset_eqI)
  fix n
  have "list_all (\<lambda>n. length (filter (\<lambda>t. ot_name t = n) (pn_targets plan)) = 1) TARGET_NAMES"
    using assms by (auto simp: validatePlan_def split: option.splits if_splits)
  moreover have "n \<in> set TARGET_NAMES" by (cases n) (simp_all add: TARGET_NAMES_def)
  ultimately have "length (filter (\<lambda>t. ot_name t = n) (pn_targets plan)) = 1" by (simp add: list_all_iff)
  moreover have "count (mset (map ot_name (pn_targets plan))) n = length (filter (\<lambda>t. ot_name t = n) (pn_targets plan))"
    by (rule count_mset_map)
  moreover have "count (mset TARGET_NAMES) n = 1" by (cases n) (simp_all add: TARGET_NAMES_def)
  ultimately show "count (mset (map ot_name (pn_targets plan))) n = count (mset TARGET_NAMES) n" by simp
qed

text \<open>The budget of the loops: 21 requests, whatever the order of the pages.\<close>

definition offset_count :: "target_name \<Rightarrow> nat" where
  "offset_count n = (case n of SitemapPage \<Rightarrow> 2 | CatalogPage \<Rightarrow> 3 | _ \<Rightarrow> 4)"

lemma length_offsets_of: "length (offsets_of t) = offset_count (ot_name t)"
  by (cases "ot_name t") (simp_all add: offsets_of_def offset_count_def)

lemma plan_budget:
  assumes "validatePlan plan capture = None"
  shows "requests_left (start_sampling origin (pn_targets plan)) = 21" and "steps_left (start_sampling origin (pn_targets plan)) = 42"
proof -
  have "sum_list (map offset_count (map ot_name (pn_targets plan))) = sum_list (map offset_count TARGET_NAMES)"
    using plan_names [OF assms] by (metis mset_map sum_mset_sum_list)
  then have "sum_list (map (\<lambda>t. length (offsets_of t)) (pn_targets plan)) = 21"
    by (simp add: length_offsets_of comp_def TARGET_NAMES_def offset_count_def)
  moreover from this have "sum_list (map (\<lambda>t. 2 * length (offsets_of t)) (pn_targets plan)) = 42" by (simp add: sum_list_const_mult)
  ultimately show "requests_left (start_sampling origin (pn_targets plan)) = 21" "steps_left (start_sampling origin (pn_targets plan)) = 42"
    by (simp_all add: requests_left_def steps_left_def start_sampling_def comp_def start_loop_def loop_steps_def)
qed

text \<open>C16: Observing a publication is bounded and ends: however the six loops interleave and whatever the
  pages answer, at most 21 requests are sent, no run has more than 42 moves, and until all
  loops have ended one of them can move.\<close>

theorem observing_is_bounded:
  assumes "validatePlan plan capture = None"
    and "sampling_run parse_json u capture (start_sampling origin (pn_targets plan)) n s"
  shows "rn_count s \<le> 21 \<and> n \<le> 42 \<and>
     (sampling_done s \<or> (\<exists>t. sampling_run parse_json u capture (start_sampling origin (pn_targets plan)) (Suc n) t))"
proof -
  have "rn_count s \<le> 21 \<and> n \<le> 42"
    using run_counts [OF assms(2)] plan_budget [OF assms(1), of origin] by (simp add: start_sampling_def)
  then show ?thesis using sampling_progress [of s parse_json u capture] assms(2) by (auto intro: run_step)
qed

theorem observing_is_bounded_witness:
  "\<exists>plan t. validatePlan plan False = None \<and>
     sampling_run (\<lambda>_. None) 200 False (start_sampling 0 (pn_targets plan)) (Suc 0) t"
proof -
  obtain m where m: "buildManifest (manifest_input sample_before sample_after) = Inr m" using sample_manifest by (auto split: sum.splits)
  note ts = buildManifest_targets [OF m]
  let ?p = "plan_for (mf_targets m)"
  have "check_all (check_target False) (mf_targets m) = None"
    using ts(1,3) sound_target_checks(2) by (auto simp: check_all_None list_all_iff)
  then have plan: "validatePlan ?p False = None" using matrix_ok [OF ts(2)] by (simp add: validatePlan_def plan_for_def sample_event_def)
  have "\<not> sampling_done (start_sampling 0 (pn_targets ?p))"
  proof
    assume "sampling_done (start_sampling 0 (pn_targets ?p))"
    then have "steps_left (start_sampling 0 (pn_targets ?p)) = 0" by (auto simp: sampling_done_def steps_left_def list_all_iff loop_steps_def)
    then show False using plan_budget(2) [OF plan, of 0] by simp
  qed
  then show ?thesis using observing_is_bounded [OF plan run_start, where parse_json = "\<lambda>_. None" and u = 200 and origin = 0] plan by blast
qed

text \<open>What the verdict on a page rests on.\<close>

lemma judged_fresh: "judge parse_json False t r = Inr (ms, f) \<Longrightarrow> f = every_is ms (expected t AfterCommit)"
  by (auto simp: judge_def result_simps split: response.splits)

lemma judged_changed: "judge parse_json True t r = Inr (ms, f) \<Longrightarrow> f \<longleftrightarrow> \<not> every_is ms (expected t BeforeMutation)"
  by (auto simp: judge_def result_simps split: response.splits)

definition shows_after :: "rat \<Rightarrow> target \<Rightarrow> sample \<Rightarrow> bool" where
  "shows_after u t e \<longleftrightarrow> sm_target e = t \<and> sm_end e + u \<le> ACCEPTANCE \<and>
     (case sm_result e of Inl _ \<Rightarrow> False | Inr (ms, _) \<Rightarrow> every_is ms (expected t AfterCommit))"

definition shows_late :: "target \<Rightarrow> sample \<Rightarrow> bool" where
  "shows_late t e \<longleftrightarrow> ot_name (sm_target e) = ot_name t \<and> ACCEPTANCE < sm_begin e \<and>
     (case sm_result e of Inl _ \<Rightarrow> False | Inr (ms, _) \<Rightarrow> \<not> every_is ms (expected (sm_target e) AfterCommit))"

text \<open>C6: The verdict of an observation is proved by its samples: PASS means that no request failed and that
  every one of the six pages answered, within the acceptance time including the uncertainty of
  the event, with exactly the time stamps of the new revision; FAIL means that some page still
  answered another revision to a request sent after that time.\<close>

theorem observed_verdict_is_proved:
  assumes "sampling_run parse_json u False (start_sampling origin ts) n s"
  shows "(observe_verdict u s = PASS \<longrightarrow> list_all (\<lambda>t. list_ex (shows_after u t) (rn_events s)) ts \<and> \<not> list_ex sample_error (rn_events s)) \<and>
     (observe_verdict u s = FAIL \<longrightarrow> list_ex (\<lambda>t. list_ex (shows_late t) (rn_events s)) ts)"
proof -
  have inv: "sampling_inv parse_json False ts s" by (rule sampling_inv_run [OF assms])
  have res: "sm_result e = Inr (ms, f) \<Longrightarrow> f = every_is ms (expected (sm_target e) AfterCommit)" if "e \<in> set (rn_events s)" for e ms f
    using inv that judged_fresh by (fastforce simp: sampling_inv_def list_all_iff sample_ok_def)
  have pass: "list_ex (shows_after u t) (rn_events s)" if "observe_verdict u s = PASS" and t: "t \<in> set ts" for t
  proof -
    obtain l where l: "l \<in> set (rn_loops s)" "lp_target l = t" using inv t by (auto simp: sampling_inv_def)
    have "loop_verdict u (rn_events s) l = PASS"
      using that(1) l(1) by (auto simp: observe_verdict_def Let_def list_all_iff split: if_splits)
    then obtain f where f: "lp_firstFresh l = Some f" "f + u \<le> ACCEPTANCE"
      by (auto simp: loop_verdict_def split: if_splits option.splits)
    then obtain e where e: "e \<in> set (rn_events s)" "sm_target e = t" "sample_fresh e" "sm_end e = f"
      using inv l by (fastforce simp: sampling_inv_def list_all_iff fresh_ok_def)
    then have "shows_after u t e" using f(2) res [OF e(1)] by (auto simp: shows_after_def sample_fresh_def split: sum.splits)
    then show ?thesis using e(1) by (auto simp: list_ex_iff)
  qed
  have "\<not> list_ex sample_error (rn_events s)" if "observe_verdict u s = PASS"
    using that inv by (auto simp: observe_verdict_def Let_def sampling_inv_def split: if_splits)
  moreover have "list_ex (\<lambda>t. list_ex (shows_late t) (rn_events s)) ts" if "observe_verdict u s = FAIL"
  proof -
    have "FAIL \<in> set (map (loop_verdict u (rn_events s)) (rn_loops s))"
      using that by (auto simp: observe_verdict_def Let_def split: if_splits)
    then obtain l where l: "l \<in> set (rn_loops s)" "loop_verdict u (rn_events s) l = FAIL" by auto
    then have "proved_late (rn_events s) (lp_target l)" by (auto simp: loop_verdict_def split: if_splits option.splits)
    then obtain e where e: "e \<in> set (rn_events s)" "ot_name (sm_target e) = ot_name (lp_target l)" "sample_stale e" "ACCEPTANCE < sm_begin e"
      by (auto simp: proved_late_def samples_of_def list_ex_iff)
    then have "shows_late (lp_target l) e"
      using res [OF e(1)] by (auto simp: shows_late_def sample_stale_def sample_error_def sample_fresh_def split: sum.splits)
    moreover have "lp_target l \<in> set ts" using inv l(1) by (auto simp: sampling_inv_def)
    ultimately show ?thesis using e(1) by (auto simp: list_ex_iff)
  qed
  ultimately show ?thesis using pass by (auto simp: list_all_iff)
qed

definition dashboard_target :: target where
  "dashboard_target = \<lparr>ot_name = DashboardPage, ot_path = la ''/ru/dashboard'', ot_productId = la ''p1'', ot_slug = la ''milk'',
     ot_before = old_stamp, ot_after = Some new_stamp, ot_productBefore = old_stamp, ot_productAfter = Some new_stamp\<rparr>"

definition page_text :: jstr where
  "page_text = la ''<script>self.__next_f.push(A)</script>''"

definition page_json :: "jstr \<Rightarrow> jval option" where
  "page_json s =
    (if s = la ''A'' then Some (JArr [JNum (Fin 1), JStr (la ''1:{}'')])
     else if s = la ''{}'' then Some (JObj [(la ''queryKey'', JArr [JStr (la ''dashboard'')]),
       (la ''state'', JObj [(la ''data'', JObj [(la ''summary'', JObj [(la ''snapshotAt'', JStr new_stamp)])])])])
     else None)"

definition page_query :: hydrated where
  "page_query = \<lparr>hq_key = [JStr (la ''dashboard'')], hq_data = JObj [(la ''summary'', JObj [(la ''snapshotAt'', JStr new_stamp)])]\<rparr>"

lemma page_steps:
  "concat (map (chunk_text page_json) (rx_matches rx_flight page_text)) = la ''1:{}''"
  "concat (map (record_queries page_json) (split_ch 10 (la ''1:{}''))) = [page_query]"
  "dashboard_stamp [page_query] = Inr new_stamp"
  "known_revision dashboard_target [new_stamp]" "every_is [new_stamp] (expected dashboard_target AfterCommit)"
  by code_simp+

lemma fresh_answer: "judge page_json False dashboard_target (Got 200 page_text) = Inr ([new_stamp], True)"
proof -
  have "marker page_json page_text dashboard_target = Inr [new_stamp]"
    by (simp add: marker_def hydratedQueries_def page_steps Let_def) (simp add: dashboard_target_def page_steps(3))
  moreover have "max_bytes dashboard_target = BODY_BYTES" by (simp add: max_bytes_def dashboard_target_def)
  moreover have "byte_length page_text \<le> BODY_BYTES" by (simp add: page_text_def la_def BODY_BYTES_def)
  ultimately show ?thesis by (simp add: judge_def page_steps require_def)
qed

definition observed :: sampling where
  "observed = take_response page_json False (send_request 200 (start_sampling 0 [dashboard_target]) 0 0 0 0) 0 (Got 200 page_text) 100"

lemma observed_run: "sampling_run page_json 200 False (start_sampling 0 [dashboard_target]) 2 observed"
proof -
  let ?s = "start_sampling 0 [dashboard_target]" and ?t = "send_request 200 (start_sampling 0 [dashboard_target]) 0 0 0 0"
  have "sampling_step page_json 200 False ?s ?t"
    by (rule request) (simp_all add: start_sampling_def start_loop_def due_def offsets_of_def dashboard_target_def)
  moreover have "sampling_step page_json 200 False ?t observed"
    unfolding observed_def
    by (rule respond) (simp_all add: start_sampling_def start_loop_def send_request_def gives_up_def Let_def set_loop_def END_MS_def MAX_REQUESTS_def dashboard_target_def)
  ultimately show ?thesis unfolding numeral_2_eq_2 by (blast intro: run_start run_step)
qed

lemma observed_passes: "observe_verdict 200 observed = PASS"
  by (simp add: observed_def take_response_def fresh_answer start_sampling_def start_loop_def send_request_def gives_up_def Let_def set_loop_def
      END_MS_def MAX_REQUESTS_def observe_verdict_def loop_verdict_def proved_late_def samples_of_def sample_error_def sample_fresh_def sample_stale_def ACCEPTANCE_def)

theorem observed_verdict_is_proved_witness:
  "observe_verdict 200 observed = PASS \<and> list_ex (shows_after 200 dashboard_target) (rn_events observed)"
  using observed_verdict_is_proved [OF observed_run] observed_passes by simp

definition shows_new :: "rat \<Rightarrow> target \<Rightarrow> sample \<Rightarrow> bool" where
  "shows_new u t e \<longleftrightarrow> ot_name (sm_target e) = ot_name t \<and> sm_end e + u \<le> ACCEPTANCE \<and> \<not> sample_error e \<and>
     map Some (sample_markers e) = expected t AfterCommit"

definition shows_old :: "target \<Rightarrow> sample \<Rightarrow> bool" where
  "shows_old t e \<longleftrightarrow> sm_target e = without_after t \<and> ACCEPTANCE < sm_begin e \<and> \<not> sample_error e \<and>
     every_is (sample_markers e) (expected t BeforeMutation)"

lemma same_name_same_target:
  assumes "map ot_name ts = TARGET_NAMES" and "t \<in> set ts" and "s \<in> set ts" and "ot_name s = ot_name t"
  shows "s = t"
proof -
  have "distinct (map ot_name ts)" unfolding assms(1) by (simp add: TARGET_NAMES_def)
  then have "inj_on ot_name (set ts)" by (simp add: distinct_map)
  then show ?thesis using assms(2-4) by (auto dest: inj_onD)
qed

lemma target_verdict_PASS: "target_verdict u es t = PASS \<Longrightarrow> list_ex (shows_new u t) es"
  by (auto simp: target_verdict_def Let_def samples_of_def shows_new_def list_ex_iff split: if_splits option.splits dest!: find_Some_iff)

lemma target_verdict_FAIL:
  "target_verdict u es t = FAIL \<Longrightarrow> \<exists>e \<in> set es. ot_name (sm_target e) = ot_name t \<and> sample_stale e \<and> ACCEPTANCE < sm_begin e"
  by (auto simp: target_verdict_def Let_def samples_of_def list_ex_iff split: if_splits option.splits)

text \<open>C20: A verdict given after the fact is proved by the samples captured before the publication was known:
  the projection is the one the capture was started with, a manifest exists, PASS means every
  page answered in time with exactly the manifest's new time stamps, and FAIL means some page
  still answered a request sent after the acceptance time with exactly the old ones.\<close>

theorem captured_verdict_is_proved:
  assumes "prepareBeforeV2 before = Some pre"
    and "sampling_run parse_json u True (start_sampling origin (pp_targets pre)) n (ct_sampling c)" and "ct_uncertainty c = u"
    and "verdictCapture custody (Some c) before after = Inr v"
  shows "custody \<and> before = ct_before c \<and> \<not> list_ex sample_error (rn_events (ct_sampling c)) \<and>
     (\<exists>m. buildManifest (manifest_input before after) = Inr m \<and>
       (v = PASS \<longrightarrow> list_all (\<lambda>t. list_ex (shows_new u t) (rn_events (ct_sampling c))) (mf_targets m)) \<and>
       (v = FAIL \<longrightarrow> list_ex (\<lambda>t. list_ex (shows_old t) (rn_events (ct_sampling c))) (mf_targets m)))"
proof -
  let ?es = "rn_events (ct_sampling c)"
  have inv: "sampling_inv parse_json True (pp_targets pre) (ct_sampling c)" by (rule sampling_inv_run [OF assms(2)])
  obtain m where custody: "custody" and same: "before = ct_before c" and run: "\<not> rn_stopped (ct_sampling c)"
    and m: "buildManifest (manifest_input before after) = Inr m" and v: "v = overall (map (target_verdict u ?es) (mf_targets m))"
    using assms(3,4) by (auto simp: verdictCapture_def manifest_input_def split: if_splits sum.splits)
  note names = buildManifest_targets(2) [OF m]
  have m2: "buildManifestV2 [(la ''version'', JNum (Fin 2)), (la ''attemptId'', field before (la ''attemptId'')), (la ''before'', before), (la ''after'', after)] = Inr m"
    using m by (simp add: buildManifest_def manifest_input_def obj_get_def)
  have "pp_targets pre = map without_after (mf_targets m)"
    using manifest_extends_prepared [OF m2] assms(1) by (auto simp: obj_get_def la_def)
  then have watched: "sm_target e \<in> without_after ` set (mf_targets m)" if "e \<in> set ?es" for e
    using inv that by (auto simp: sampling_inv_def list_all_iff sample_ok_def)
  have "list_ex (shows_old t) ?es" if t: "t \<in> set (mf_targets m)" and "target_verdict u ?es t = FAIL" for t
  proof -
    obtain e where e: "e \<in> set ?es" "ot_name (sm_target e) = ot_name t" "sample_stale e" "ACCEPTANCE < sm_begin e"
      using target_verdict_FAIL [OF \<open>target_verdict u ?es t = FAIL\<close>] by blast
    obtain t' where t': "t' \<in> set (mf_targets m)" "sm_target e = without_after t'" using watched [OF e(1)] by blast
    then have "t' = t" using same_name_same_target [OF names t t'(1)] e(2) by (simp add: without_after_def)
    moreover obtain r where "sm_result e = judge parse_json True (sm_target e) r"
      using inv e(1) by (auto simp: sampling_inv_def list_all_iff sample_ok_def)
    then have "every_is (sample_markers e) (expected (sm_target e) BeforeMutation)"
      using e(3) judged_changed by (fastforce simp: sample_stale_def sample_error_def sample_fresh_def sample_markers_def split: sum.splits)
    moreover have "expected (without_after t) BeforeMutation = expected t BeforeMutation"
      by (simp add: expected_def without_after_def)
    ultimately have "shows_old t e" using e t'(2) by (simp add: shows_old_def sample_stale_def)
    then show ?thesis using e(1) by (auto simp: list_ex_iff)
  qed
  moreover have "\<exists>t \<in> set (mf_targets m). target_verdict u ?es t = FAIL" if "v = FAIL"
    using that by (auto simp: v overall_def split: if_splits intro: sym)
  ultimately have "v = FAIL \<longrightarrow> list_ex (\<lambda>t. list_ex (shows_old t) ?es) (mf_targets m)"
    unfolding list_ex_iff [of _ "mf_targets m"] by blast
  moreover have "v = PASS \<longrightarrow> list_all (\<lambda>t. list_ex (shows_new u t) ?es) (mf_targets m)"
    by (auto simp: v overall_def list_all_iff target_verdict_PASS split: if_splits)
  moreover have "\<not> list_ex sample_error ?es" using run inv by (simp add: sampling_inv_def)
  ultimately show ?thesis using custody same m by blast
qed

definition sample_receipt :: jval where
  "sample_receipt = JObj [(la ''status'', JNum (Fin 204)), (la ''attemptId'', JStr (replicate 32 97)), (la ''snapshotId'', JStr (sample_uuid 98))]"

definition sample_capture :: "target list \<Rightarrow> capture" where
  "sample_capture ts = \<lparr>ct_before = sample_before, ct_uncertainty = 200, ct_receipt = sample_receipt, ct_sampling = start_sampling 0 ts\<rparr>"

lemma sample_receipt_matches: "receipt_matches sample_receipt sample_before sample_after"
  by code_simp

theorem captured_verdict_is_proved_witness:
  "\<exists>pre v m. prepareBeforeV2 sample_before = Some pre \<and> verdictCapture True (Some (sample_capture (pp_targets pre))) sample_before sample_after = Inr v \<and>
     buildManifest (manifest_input sample_before sample_after) = Inr m"
proof -
  obtain m where m: "buildManifest (manifest_input sample_before sample_after) = Inr m" using sample_manifest by (auto split: sum.splits)
  have m2: "buildManifestV2 [(la ''version'', JNum (Fin 2)), (la ''attemptId'', field sample_before (la ''attemptId'')), (la ''before'', sample_before), (la ''after'', sample_after)] = Inr m"
    using m by (simp add: buildManifest_def manifest_input_def obj_get_def)
  obtain pre where pre: "prepareBeforeV2 sample_before = Some pre"
    using manifest_extends_prepared [OF m2] by (auto simp: obj_get_def la_def)
  let ?c = "sample_capture (pp_targets pre)"
  have v: "verdictCapture True (Some ?c) sample_before sample_after = Inr (overall (map (target_verdict 200 []) (mf_targets m)))"
    using m sample_receipt_matches by (simp add: verdictCapture_def sample_capture_def start_sampling_def manifest_input_def)
  have "sampling_run page_json 200 True (start_sampling 0 (pp_targets pre)) 0 (ct_sampling ?c)"
    by (simp add: sample_capture_def run_start)
  moreover have "ct_uncertainty ?c = 200" by (simp add: sample_capture_def)
  ultimately show ?thesis using captured_verdict_is_proved [OF pre _ _ v] pre v by blast
qed

section \<open>The ledger of attempts\<close>

text \<open>C13: The ledger of attempts never loses or alters a finished attempt and is never used by two operators:
  whatever a session does and however its saves and its closing fail, the file holds the attempts
  found at opening, with at most one added at the end; as long as the session is neither closed nor
  a close of it has thrown after its checks, no other can be opened. By then the ledger has exactly
  one more, finished attempt; it opens again, once the lock is gone, exactly when it held fewer than
  a thousand before; and the lock of a closed session is gone. (A close that throws after removing
  the lock leaves the session open and the ledger to anyone: \<open>unsynced_close_admits_another\<close>. So from
  the first close that throws, the exclusion of others is not claimed.)\<close>

theorem ledger_is_append_only:
  assumes "openAttemptLedger private policy d0 = (d1, Inr s1)" and "ledger_run (d1, s1) (d, s)"
  shows "(ld_file d = ld_file d0 \<or> (\<exists>a. ld_file d = Entries (old_entries (ld_file d0) @ [a]))) \<and>
     (ss_closed s \<or> ss_closeFailed s \<or> (\<exists>e. openAttemptLedger private' policy' d = (d, Inl e))) \<and>
     (ss_closed s \<or> ss_closeFailed s \<longrightarrow>
       (\<exists>a. ld_file d = Entries (old_entries (ld_file d0) @ [a]) \<and> finished_ok a \<and>
         (\<not> ld_lock d \<longrightarrow>
           ((\<exists>s2. snd (openAttemptLedger True policy d) = Inr s2 \<and> ss_entries s2 = old_entries (ld_file d0) @ [a]) \<longleftrightarrow>
            length (old_entries (ld_file d0)) < MAX_ENTRIES)))) \<and>
     (ss_closed s \<longrightarrow> \<not> ld_lock d)"
proof -
  have inv: "session_inv (ld_file d0) (d, s)" by (rule ledger_run_inv [OF assms(2) opened_inv [OF assms(1)]])
  then have "ss_closed s \<or> ss_closeFailed s \<or> (\<exists>e. openAttemptLedger private' policy' d = (d, Inl e))"
    by (auto simp: session_inv_def openAttemptLedger_def split: sum.splits)
  moreover have "\<exists>a. ld_file d = Entries (old_entries (ld_file d0) @ [a]) \<and> finished_ok a \<and>
         (\<not> ld_lock d \<longrightarrow>
           ((\<exists>s2. snd (openAttemptLedger True policy d) = Inr s2 \<and> ss_entries s2 = old_entries (ld_file d0) @ [a]) \<longleftrightarrow>
            length (old_entries (ld_file d0)) < MAX_ENTRIES))" if closed: "ss_closed s \<or> ss_closeFailed s"
  proof -
    obtain a where a: "active_ok s a" "terminal (at_state a)" "ld_file d = Entries (old_entries (ld_file d0) @ [a])" "\<not> ld_pending d"
      and seen: "ss_seen s = map at_id (old_entries (ld_file d0))" "entries_ok (old_entries (ld_file d0))"
      using inv closed by (auto simp: session_inv_def split: option.splits)
    obtain k where "policy_key policy = Inr k" using assms(1) by (auto simp: openAttemptLedger_def split: sum.splits)
    then show ?thesis
      using reopen [OF a(3) active_ok_entry [OF seen(2) a(1) seen(1) a(2)], of policy k] a by (auto simp: active_ok_def)
  qed
  moreover have "ss_closed s \<longrightarrow> \<not> ld_lock d" using closed_unlocked [OF assms(2)] opened_open [OF assms(1)] by simp
  ultimately show ?thesis using inv by (auto simp: session_inv_def)
qed

definition empty_dir :: ledger_dir where
  "empty_dir = \<lparr>ld_lock = False, ld_pending = False, ld_file = Absent\<rparr>"

definition fresh_session :: session where
  "fresh_session = \<lparr>ss_policy = JNull, ss_seen = [], ss_entries = [], ss_active = None, ss_closed = False, ss_closeFailed = False, ss_poisoned = False\<rparr>"

lemma empty_opens: "openAttemptLedger True JNull empty_dir = (empty_dir\<lparr>ld_lock := True\<rparr>, Inr fresh_session)"
  by (simp add: openAttemptLedger_def policy_key_def empty_dir_def read_entries_def require_def fresh_session_def)

text \<open>An attempt that is prepared, given up and closed.\<close>

definition given_up :: "ledger_dir \<times> session" where
  "given_up =
    (let (_, d, s) = prepare_attempt (replicate 32 97) 1 Saved (empty_dir\<lparr>ld_lock := True\<rparr>) fresh_session;
         (_, d, s) = transition Inconclusive JNull 2 Saved d s
     in snd (close_ledger Unlocked d s))"

lemma given_up_run: "ledger_run (empty_dir\<lparr>ld_lock := True\<rparr>, fresh_session) given_up"
proof -
  obtain r d s where p: "prepare_attempt (replicate 32 97) 1 Saved (empty_dir\<lparr>ld_lock := True\<rparr>) fresh_session = (r, d, s)" by (metis prod_cases3)
  obtain r' d' s' where t: "transition Inconclusive JNull 2 Saved d s = (r', d', s')" by (metis prod_cases3)
  obtain r'' d'' s'' where c: "close_ledger Unlocked d' s' = (r'', d'', s'')" by (metis prod_cases3)
  have "is_attempt_id (replicate 32 97)" by code_simp
  then have "ledger_run (empty_dir\<lparr>ld_lock := True\<rparr>, fresh_session) (d'', s'')"
    using p t c by (intro ledger_next [OF ledger_next [OF ledger_next [OF ledger_start step_prepare] step_transition] step_close]) (auto simp: safe_integer_def)
  then show ?thesis by (simp add: given_up_def p t c)
qed

lemma given_up_closed: "ss_closed (snd given_up)"
  by (simp add: given_up_def prepare_attempt_def transition_def close_ledger_def replace_active_def save_def empty_dir_def fresh_session_def
      Let_def may_follow_def terminal_def)

theorem ledger_is_append_only_witness:
  "\<exists>a s2. ld_file (fst given_up) = Entries [a] \<and> finished_ok a \<and> snd (openAttemptLedger True JNull (fst given_up)) = Inr s2 \<and> ss_entries s2 = [a]"
proof -
  obtain d s where w: "given_up = (d, s)" by fastforce
  show ?thesis
    using ledger_is_append_only [OF empty_opens given_up_run [unfolded w]] given_up_closed
    by (auto simp: w empty_dir_def old_entries_def MAX_ENTRIES_def)
qed

text \<open>C21: The series that decides the acceptance is the number of attempts that completed with PASS since the
  last FAIL or change of policy: counting forward through the ledger gives the same as looking
  back from its end, and it is refused once a save has failed.\<close>

theorem series_counts_unbroken_passes:
  assumes "openAttemptLedger private policy d0 = (d1, Inr s1)" and "ledger_run (d1, s1) (d, s)"
  shows "case series s of
       Inl e \<Rightarrow> ss_poisoned s
     | Inr n \<Rightarrow> \<exists>key. policy_key (ss_policy s) = Inr key \<and> n = length (filter passed (current_series key (ss_entries s)))"
proof (cases "ss_poisoned s")
  case True
  then show ?thesis by (simp add: series_def)
next
  case False
  obtain key n where "policy_key (ss_policy s) = Inr key" and "series s = Inr n"
    and "n = length (filter passed (current_series key (ss_entries s)))"
    by (rule series_value [OF ledger_run_inv [OF assms(2) opened_inv [OF assms(1)]] False])
  then show ?thesis by simp
qed

theorem series_counts_unbroken_passes_witness:
  "case series fresh_session of Inl e \<Rightarrow> False | Inr n \<Rightarrow> n = 0"
  using series_counts_unbroken_passes [OF empty_opens ledger_start] by (auto simp: fresh_session_def current_series_def split: sum.splits)

end
