(* ===== verification/Routing.thy ===== *)
theory Routing
  imports Catalog JsNumber
begin

text \<open>
  Addresses of the site (\<open>frontend/src\<close>): languages and their paths (\<open>i18n/languages.ts\<close>,
  \<open>lib/paths.ts\<close>), the redirect in front of every page (\<open>proxy.ts\<close>), the history inside the site
  (\<open>lib/inAppHistory.ts\<close>), the language links (\<open>lib/seo.ts\<close>) and the site map (\<open>app/sitemap.ts\<close>). Making a
  path absolute (\<open>new URL(path, SITE_URL)\<close>) and the catalogue API are parameters.
\<close>

section \<open>Languages\<close>

datatype language = Russian | Kazakh

definition LANGUAGES :: "language list" where
  "LANGUAGES = [Russian, Kazakh]"

fun lang_code :: "language \<Rightarrow> jstr" where
  "lang_code Russian = la ''ru''"
| "lang_code Kazakh = la ''kk''"

definition DEFAULT_LANGUAGE :: language where
  "DEFAULT_LANGUAGE = Russian"

text \<open>\<open>isLanguage\<close> as a type guard: the language a string names, if any.\<close>

definition isLanguage :: "jstr \<Rightarrow> language option" where
  "isLanguage s = List.find (\<lambda>l. lang_code l = s) LANGUAGES"

section \<open>Paths\<close>

definition localePath :: "language \<Rightarrow> jstr \<Rightarrow> jstr" where
  "localePath lang path = (if path = la ''/'' then 47 # lang_code lang else 47 # lang_code lang @ path)"

text \<open>\<open>const [, first, ...rest] = pathname.split('/')\<close>; a missing \<open>first\<close> is no language.\<close>

definition stripLanguage :: "jstr \<Rightarrow> jstr" where
  "stripLanguage pathname =
    (case split_ch 47 pathname of
       _ # first # rest \<Rightarrow> if isLanguage first = None then pathname else 47 # join [47] rest
     | _ \<Rightarrow> pathname)"

definition switchLanguagePath :: "jstr \<Rightarrow> language \<Rightarrow> jstr" where
  "switchLanguagePath pathname lang = localePath lang (stripLanguage pathname)"

datatype nav_section = NavCatalog | NavSearch | NavDashboard

definition navSection :: "jstr \<Rightarrow> nav_section option" where
  "navSection pathname =
    (case split_ch 47 (stripLanguage pathname) of
       _ # first # _ \<Rightarrow>
         if first = la ''catalog'' \<or> first = la ''collections'' \<or> first = la ''products'' then Some NavCatalog
         else if first = la ''search'' then Some NavSearch
         else if first = la ''dashboard'' then Some NavDashboard
         else None
     | _ \<Rightarrow> None)"

section \<open>The redirect\<close>

text \<open>The weight of an entry of Accept-Language: only those above zero are kept, so no \<open>NaN\<close> is compared.\<close>

fun weighs_something :: "jnum \<Rightarrow> bool" where
  "weighs_something (Fin q) = (0 < q)"
| "weighs_something PosInf = True"
| "weighs_something _ = False"

fun weight_le :: "jnum \<Rightarrow> jnum \<Rightarrow> bool" where
  "weight_le (Fin a) (Fin b) = (a \<le> b)"
| "weight_le _ PosInf = True"
| "weight_le NaN _ = True"
| "weight_le NegInf _ = True"
| "weight_le _ _ = False"

record lang_entry =
  le_base :: jstr
  le_q :: jnum
  le_index :: nat

definition header_entry :: "nat \<times> jstr \<Rightarrow> lang_entry" where
  "header_entry part =
    (let pieces = split_ch 59 (to_lower (trim (snd part)));
         q = List.find (\<lambda>a. starts_with a (la ''q='')) (map trim (tl pieces))
     in \<lparr>le_base = hd (split_ch 45 (hd pieces)),
         le_q = (case q of None \<Rightarrow> Fin 1 | Some a \<Rightarrow> js_number (drop 2 a)), le_index = fst part\<rparr>)"

text \<open>\<open>(a, b) => b.q - a.q || a.index - b.index\<close> is at most zero; two infinite weights differ by \<open>NaN\<close>, which is falsy.\<close>

definition entry_le :: "lang_entry \<Rightarrow> lang_entry \<Rightarrow> bool" where
  "entry_le = then_by (\<lambda>a b. weight_le (le_q b) (le_q a)) (\<lambda>a b. le_index a \<le> le_index b)"

definition ranked_entries :: "jstr \<Rightarrow> lang_entry list" where
  "ranked_entries header =
    js_sort entry_le (filter (\<lambda>e. weighs_something (le_q e)) (map header_entry (enumerate 0 (split_ch 44 header))))"

definition languageFromHeader :: "jstr option \<Rightarrow> language option" where
  "languageFromHeader header =
    (if \<not> truthy_str header then None
     else map_option the (List.find (\<lambda>l. l \<noteq> None) (map (\<lambda>e. isLanguage (le_base e)) (ranked_entries (the header)))))"

record page_request =
  rq_pathname :: jstr
  rq_query :: jstr
  rq_cookie :: "jstr option"
  rq_accept :: "jstr option"

definition preferredLanguage :: "page_request \<Rightarrow> language" where
  "preferredLanguage rq =
    (case Option.bind (rq_cookie rq) isLanguage of
       Some l \<Rightarrow> l
     | None \<Rightarrow> nullish (languageFromHeader (rq_accept rq)) DEFAULT_LANGUAGE)"

datatype proxy_answer =
    NextPage
  | Redirect (rd_pathname: jstr) (rd_query: jstr) (rd_status: nat)

definition proxy :: "page_request \<Rightarrow> proxy_answer" where
  "proxy rq =
    (let pathname = rq_pathname rq
     in if pathname = la ''/internal/revalidate'' then NextPage
        else if (case split_ch 47 pathname of _ # first # _ \<Rightarrow> isLanguage first \<noteq> None | _ \<Rightarrow> False) then NextPage
        else let lang = preferredLanguage rq
          in Redirect (if pathname = la ''/'' then 47 # lang_code lang @ la ''/catalog'' else 47 # lang_code lang @ pathname)
               (rq_query rq) (if pathname = la ''/'' then 307 else 308))"

section \<open>The history inside the site\<close>

record history_state =
  hs_entry :: "jstr option"
  hs_navigated :: bool

text \<open>The effect \<open>useTrackInAppNavigation\<close> runs on every path shown.\<close>

definition track_navigation :: "history_state \<Rightarrow> jstr \<Rightarrow> history_state" where
  "track_navigation s pathname =
    (let path = stripLanguage pathname
     in case hs_entry s of
          None \<Rightarrow> s\<lparr>hs_entry := Some path\<rparr>
        | Some e \<Rightarrow> if path \<noteq> e then s\<lparr>hs_navigated := True\<rparr> else s)"

definition resetInAppHistory :: "bool \<Rightarrow> history_state" where
  "resetInAppHistory value = \<lparr>hs_entry = None, hs_navigated = value\<rparr>"

section \<open>Language links and the site map\<close>

definition hreflangPaths :: "jstr \<Rightarrow> (jstr \<times> jstr) list" where
  "hreflangPaths path =
    map (\<lambda>l. (lang_code l, localePath l path)) LANGUAGES @ [(la ''x-default'', localePath DEFAULT_LANGUAGE path)]"

record alternates =
  al_canonical :: jstr
  al_languages :: "(jstr \<times> jstr) list"

definition localeAlternates :: "language \<Rightarrow> jstr \<Rightarrow> alternates" where
  "localeAlternates lang path = \<lparr>al_canonical = localePath lang path, al_languages = hreflangPaths path\<rparr>"

record site_entry =
  se_url :: jstr
  se_languages :: "(jstr \<times> jstr) list"
  se_lastModified :: jstr
  se_priority :: rat
  se_images :: "jstr list"

text \<open>Every entry has \<open>changeFrequency: 'daily'\<close>; \<open>se_images\<close> is empty where the source leaves the field out.\<close>

definition localized :: "(jstr \<Rightarrow> jstr) \<Rightarrow> jstr \<Rightarrow> jstr \<Rightarrow> rat \<Rightarrow> jstr list \<Rightarrow> site_entry list" where
  "localized absoluteUrl path lastModified priority images =
    (let languages = map (\<lambda>(l, href). (l, absoluteUrl href)) (hreflangPaths path)
     in map (\<lambda>lang. \<lparr>se_url = absoluteUrl (localePath lang path), se_languages = languages,
                     se_lastModified = lastModified, se_priority = priority, se_images = images\<rparr>) LANGUAGES)"

definition SITEMAP_PAGE :: nat where
  "SITEMAP_PAGE = 100"

definition MAX_PAGES :: nat where
  "MAX_PAGES = 50"

definition MAX_IN_FLIGHT :: nat where
  "MAX_IN_FLIGHT = 4"

text \<open>The pages of one round, up to the first short one; whether there was one.\<close>

fun take_batches :: "'a list list \<Rightarrow> 'a list \<times> bool" where
  "take_batches [] = ([], False)"
| "take_batches (b # bs) =
    (if length b < SITEMAP_PAGE then (b, True) else (b @ fst (take_batches bs), snd (take_batches bs)))"

text \<open>\<open>Promise.all\<close> of a round: \<open>None\<close> when a request fails, for the exception that passes on.\<close>

definition promise_all :: "'a option list \<Rightarrow> 'a list option" where
  "promise_all rs = (if None \<in> set rs then None else Some (map the rs))"

function all_products :: "(nat \<Rightarrow> nat \<Rightarrow> 'a list option) \<Rightarrow> nat \<Rightarrow> 'a list \<Rightarrow> 'a list option" where
  "all_products get page products =
    (if page < MAX_PAGES then
       let width = min (if page = 0 then 1 else MAX_IN_FLIGHT) (MAX_PAGES - page)
       in case promise_all (map (\<lambda>i. get SITEMAP_PAGE ((page + i) * SITEMAP_PAGE)) [0..<width]) of
            None \<Rightarrow> None
          | Some batches \<Rightarrow>
              let (taken, short) = take_batches batches
              in if short then Some (products @ taken) else all_products get (page + width) (products @ taken)
     else Some products)"
  by pat_completeness auto
termination
  by (relation "measure (\<lambda>(get, page, products). MAX_PAGES - page)") (auto simp: MAX_IN_FLIGHT_def)

declare all_products.simps [simp del]

definition allProducts :: "(nat \<Rightarrow> nat \<Rightarrow> 'a list option) \<Rightarrow> 'a list option" where
  "allProducts get = all_products get 0 []"

text \<open>The three requests run together; any failure is the answer.\<close>

definition sitemap ::
  "(jstr \<Rightarrow> jstr) \<Rightarrow> category list option \<Rightarrow> jstr option \<Rightarrow> (nat \<Rightarrow> nat \<Rightarrow> product_card list option) \<Rightarrow> site_entry list option" where
  "sitemap absoluteUrl categories snapshot get =
    (case (categories, snapshot, allProducts get) of
       (Some cs, Some stamp, Some ps) \<Rightarrow> Some (
         localized absoluteUrl (la ''/catalog'') stamp 1 [] @
         localized absoluteUrl (la ''/dashboard'') stamp (3 / 5) [] @
         concat (map (\<lambda>c. localized absoluteUrl (la ''/collections/'' @ c_slug c) stamp (4 / 5) []) cs) @
         concat (map (\<lambda>p. localized absoluteUrl (la ''/products/'' @ p_id p) (p_snapshotAt p) (7 / 10)
                            (case or_undefined (p_imageUrl p) of None \<Rightarrow> [] | Some u \<Rightarrow> [u])) ps))
     | _ \<Rightarrow> None)"

section \<open>Lemmas\<close>

lemma isLanguage_iff: "isLanguage s = Some l \<longleftrightarrow> s = lang_code l"
  by (cases l) (auto simp: isLanguage_def LANGUAGES_def la_def)

lemma isLanguage_lang_code [simp]: "isLanguage (lang_code l) = Some l"
  by (simp add: isLanguage_iff)

lemma lang_code_no_slash [simp]: "47 \<notin> set (lang_code l)"
  by (cases l) (simp_all add: la_def)

lemma lang_code_inj [simp]: "lang_code l = lang_code m \<longleftrightarrow> l = m"
  by (metis isLanguage_lang_code option.inject)

lemma all_languages: "l \<in> set LANGUAGES"
  by (cases l) (simp_all add: LANGUAGES_def)

lemma slash_path: "la ''/'' = [47]"
  by (simp add: la_def)

lemma split_localePath:
  "split_ch 47 (localePath l (47 # s)) = (if s = [] then [[], lang_code l] else [] # lang_code l # split_ch 47 s)"
  by (simp add: localePath_def slash_path split_ch_append split_ch_word)

lemma stripLanguage_localePath: "stripLanguage (localePath l (47 # s)) = 47 # s"
  by (simp add: stripLanguage_def split_localePath join_split_ch)

text \<open>Every page of the site is below a language.\<close>

lemma split_language_path: "\<exists>rest. split_ch 47 (47 # lang_code l @ 47 # s) = [] # lang_code l # rest"
  by (simp add: split_ch_append)

interpretation entries: ranked entry_le
proof -
  have "ranked weight_le"
  proof
    show "weight_le x y \<or> weight_le y x" for x y by (cases x; cases y) auto
    show "weight_le x y \<Longrightarrow> weight_le y z \<Longrightarrow> weight_le x z" for x y z by (cases x; cases y; cases z) auto
  qed
  then have "ranked (\<lambda>a b. weight_le (le_q b) (le_q a))" unfolding ranked_def by blast
  then show "ranked entry_le" unfolding entry_le_def by (intro ranked_then_by ranked_key)
qed

text \<open>The pages of a list, as a catalogue that does not change answers them.\<close>

definition list_pages :: "'a list \<Rightarrow> nat \<Rightarrow> nat \<Rightarrow> 'a list option" where
  "list_pages xs limit offset = Some (take limit (drop offset xs))"

lemma take_batches_pages:
  "take_batches (map (\<lambda>i. take SITEMAP_PAGE (drop (i * SITEMAP_PAGE) ys)) [0..<w]) =
     (take (w * SITEMAP_PAGE) ys, length ys < w * SITEMAP_PAGE)"
proof (induction w arbitrary: ys)
  case (Suc w)
  let ?page = "\<lambda>ys i. take SITEMAP_PAGE (drop (i * SITEMAP_PAGE) ys)"
  have "[0..<Suc w] = 0 # map Suc [0..<w]" by (simp add: map_Suc_upt upt_conv_Cons del: upt_Suc)
  then have "map (?page ys) [0..<Suc w] = take SITEMAP_PAGE ys # map (?page (drop SITEMAP_PAGE ys)) [0..<w]"
    by (simp add: add.commute del: upt_Suc)
  moreover have "take SITEMAP_PAGE ys @ take (w * SITEMAP_PAGE) (drop SITEMAP_PAGE ys) = take (Suc w * SITEMAP_PAGE) ys"
    by (metis take_add mult_Suc)
  ultimately show ?case using Suc.IH [of "drop SITEMAP_PAGE ys"] by (auto simp del: upt_Suc)
qed simp

lemma promise_all_Some: "promise_all (map (\<lambda>x. Some (f x)) xs) = Some (map f xs)"
  by (auto simp: promise_all_def)

lemma all_products_pages:
  "page \<le> MAX_PAGES \<Longrightarrow> all_products (list_pages xs) page (take (page * SITEMAP_PAGE) xs) = Some (take (MAX_PAGES * SITEMAP_PAGE) xs)"
proof (induction "MAX_PAGES - page" arbitrary: page rule: less_induct)
  case less
  show ?case
  proof (cases "page < MAX_PAGES")
    case False
    then show ?thesis using less.prems by (simp add: all_products.simps)
  next
    case True
    define w where "w = min (if page = 0 then 1 else MAX_IN_FLIGHT) (MAX_PAGES - page)"
    let ?ys = "drop (page * SITEMAP_PAGE) xs"
    have w: "0 < w" "page + w \<le> MAX_PAGES" using True by (auto simp: w_def MAX_IN_FLIGHT_def)
    have "map (\<lambda>i. list_pages xs SITEMAP_PAGE ((page + i) * SITEMAP_PAGE)) [0..<w] =
        map (\<lambda>i. Some (take SITEMAP_PAGE (drop (i * SITEMAP_PAGE) ?ys))) [0..<w]"
      by (simp add: list_pages_def algebra_simps)
    then have all: "promise_all (map (\<lambda>i. list_pages xs SITEMAP_PAGE ((page + i) * SITEMAP_PAGE)) [0..<w]) =
        Some (map (\<lambda>i. take SITEMAP_PAGE (drop (i * SITEMAP_PAGE) ?ys)) [0..<w])"
      by (simp only: promise_all_Some)
    have next_page: "take (page * SITEMAP_PAGE) xs @ take (w * SITEMAP_PAGE) ?ys = take ((page + w) * SITEMAP_PAGE) xs"
      by (simp add: take_add [symmetric] algebra_simps)
    have step: "all_products (list_pages xs) page (take (page * SITEMAP_PAGE) xs) =
        (if length ?ys < w * SITEMAP_PAGE then Some (take ((page + w) * SITEMAP_PAGE) xs)
         else all_products (list_pages xs) (page + w) (take ((page + w) * SITEMAP_PAGE) xs))"
      by (subst all_products.simps) (simp only: True if_True Let_def w_def [symmetric] all option.case take_batches_pages prod.case next_page)
    show ?thesis
    proof (cases "length ?ys < w * SITEMAP_PAGE")
      case short: True
      then have len: "length xs \<le> (page + w) * SITEMAP_PAGE" by (simp add: algebra_simps)
      also have "\<dots> \<le> MAX_PAGES * SITEMAP_PAGE" using w(2) by (rule mult_le_mono1)
      finally show ?thesis using short len by (simp add: step)
    next
      case False
      then show ?thesis using less.hyps [of "page + w"] w by (simp add: step)
    qed
  qed
qed

lemma allProducts_pages: "allProducts (list_pages xs) = Some (take (MAX_PAGES * SITEMAP_PAGE) xs)"
  using all_products_pages [of 0 xs] by (simp add: allProducts_def)

end
