(* ===== verification/Browse.thy ===== *)
theory Browse
  imports Routing
begin

text \<open>
  What a visitor browses with (\<open>frontend/src\<close>): the query of an address, the filters and the sort kept in
  it (\<open>lib/filterParams.ts\<close>), the requests made of it (\<open>api/httpAdapter.ts\<close>, \<open>api/server.ts\<close>,
  \<open>api/queries.ts\<close>), the answers of the test adapter (\<open>api/mockAdapter.ts\<close>), and the state of the
  controls (\<open>components/catalog/DynamicFilters.tsx\<close>, \<open>components/layout/SearchBox.tsx\<close>,
  \<open>views/CategoryPage.tsx\<close>, \<open>views/SearchPage.tsx\<close>, \<open>views/CatalogPage.tsx\<close>). The network and the text of a query are
  parameters.
\<close>

section \<open>\<open>URLSearchParams\<close>\<close>

type_synonym params = "(jstr \<times> jstr) list"

definition params_getAll :: "params \<Rightarrow> jstr \<Rightarrow> jstr list" where
  "params_getAll ps k = map snd (filter (\<lambda>p. fst p = k) ps)"

definition params_get :: "params \<Rightarrow> jstr \<Rightarrow> jstr option" where
  "params_get ps k = map_of ps k"

definition params_delete :: "jstr \<Rightarrow> params \<Rightarrow> params" where
  "params_delete k ps = filter (\<lambda>p. fst p \<noteq> k) ps"

definition params_append :: "jstr \<Rightarrow> jstr \<Rightarrow> params \<Rightarrow> params" where
  "params_append k v ps = ps @ [(k, v)]"

text \<open>\<open>set\<close> replaces the first value in place and drops the others, or appends.\<close>

fun params_set :: "jstr \<Rightarrow> jstr \<Rightarrow> params \<Rightarrow> params" where
  "params_set k v [] = [(k, v)]"
| "params_set k v (p # ps) = (if fst p = k then (k, v) # params_delete k ps else p # params_set k v ps)"

section \<open>Filters and sort in the address\<close>

fun sort_text :: "sort_order \<Rightarrow> jstr" where
  "sort_text PriceAsc = la ''price_asc''"
| "sort_text PriceDesc = la ''price_desc''"
| "sort_text NameAsc = la ''name_asc''"

definition SORT_VALUES :: "sort_order list" where
  "SORT_VALUES = [PriceAsc, PriceDesc, NameAsc]"

definition DEFAULT_SORT :: sort_order where
  "DEFAULT_SORT = PriceAsc"

definition picked :: "params \<Rightarrow> filter_def \<Rightarrow> jstr list" where
  "picked params f =
    (let raw = params_getAll params (f_key f)
     in if f_type f = BooleanFilter then take 1 (filter (\<lambda>v. v = la ''true'' \<or> v = la ''false'') raw)
        else filter (\<lambda>v. list_ex (\<lambda>p. prim_text p = v) (nullish (f_options f) [])) raw)"

definition readFilters :: "params \<Rightarrow> filter_def list \<Rightarrow> (jstr \<times> jstr list) list" where
  "readFilters params filters =
    foldl (\<lambda>values f. if picked params f \<noteq> [] then AList.update (f_key f) (js_set (picked params f)) values else values) [] filters"

definition readSort :: "params \<Rightarrow> sort_order" where
  "readSort params =
    (case List.find (\<lambda>s. params_get params (la ''sort'') = Some (sort_text s)) SORT_VALUES of
       Some s \<Rightarrow> s | None \<Rightarrow> DEFAULT_SORT)"

definition countActive :: "(jstr \<times> jstr list) list \<Rightarrow> nat" where
  "countActive values = foldl (\<lambda>total l. total + length l) 0 (js_values values)"

definition withFilter :: "params \<Rightarrow> jstr \<Rightarrow> jstr list \<Rightarrow> params" where
  "withFilter params key values = foldl (\<lambda>ps v. params_append key v ps) (params_delete key params) values"

definition withoutFilters :: "params \<Rightarrow> filter_def list \<Rightarrow> params" where
  "withoutFilters params filters = foldl (\<lambda>ps f. params_delete (f_key f) ps) params filters"

definition withSort :: "params \<Rightarrow> sort_order \<Rightarrow> params" where
  "withSort params s =
    (if s = DEFAULT_SORT then params_delete (la ''sort'') params else params_set (la ''sort'') (sort_text s) params)"

section \<open>Requests\<close>

record client_query =
  cq_category :: "jstr option"
  cq_search :: "jstr option"
  cq_filters :: "(jstr \<times> jstr list) list"
  cq_sort :: "sort_order option"
  cq_limit :: "nat option"
  cq_offset :: "nat option"

definition set_some :: "jstr \<Rightarrow> jstr option \<Rightarrow> params \<Rightarrow> params" where
  "set_some k v ps = (case v of None \<Rightarrow> ps | Some w \<Rightarrow> params_set k w ps)"

definition append_filters :: "(jstr \<times> jstr list) list \<Rightarrow> params \<Rightarrow> params" where
  "append_filters filters ps = foldl (\<lambda>ps (key, values). foldl (\<lambda>ps v. params_append key v ps) ps values) ps filters"

definition toSearchParams :: "client_query \<Rightarrow> params" where
  "toSearchParams query =
    set_some (la ''offset'') (map_option (show_nat \<circ> int) (cq_offset query))
    (set_some (la ''limit'') (map_option (show_nat \<circ> int) (cq_limit query))
    (set_some (la ''sort'') (map_option sort_text (cq_sort query))
    (append_filters (cq_filters query)
    (set_some (la ''search'') (or_undefined (map_option trim (cq_search query)))
    (set_some (la ''category'') (or_undefined (cq_category query)) [])))))"

text \<open>The query of a server page: every parameter is absent, one text or several.\<close>

datatype page_param = Absent | One jstr | Several "jstr list"

fun param_items :: "page_param \<Rightarrow> jstr list" where
  "param_items Absent = []"
| "param_items (One v) = [v]"
| "param_items (Several vs) = vs"

definition pageSearchParams :: "(jstr \<times> page_param) list \<Rightarrow> params" where
  "pageSearchParams rec =
    foldl (\<lambda>ps (key, value). foldl (\<lambda>ps item. params_append key item ps) ps (param_items value)) [] rec"

text \<open>\<open>String(v)\<close> of a JSON value, and \<open>[...].join(sep)\<close>.\<close>

fun js_string :: "jval \<Rightarrow> jstr" where
  "js_string JUndef = la ''undefined''"
| "js_string JNull = la ''null''"
| "js_string (JBool b) = prim_text (PBool b)"
| "js_string (JNum n) = prim_text (PNum n)"
| "js_string (JStr s) = s"
| "js_string (JArr vs) = join (la '','') (map (\<lambda>v. if v = JUndef \<or> v = JNull then [] else js_string v) vs)"
| "js_string (JObj _) = la ''[object Object]''"

datatype api_failure =
    ApiError (ae_status: nat) (ae_message: jstr)
  | SyntaxError   \<comment> \<open>what \<open>response.json()\<close> throws on a body that is not JSON\<close>

datatype fetched =
    Unreachable
  | Answer (fe_status: nat) (fe_statusText: jstr) (fe_body: "jval option")   \<comment> \<open>\<open>None\<close>: the body is not JSON\<close>

definition error_message :: "jval option \<Rightarrow> jstr \<Rightarrow> jstr" where
  "error_message body statusText =
    (let message = (case body of Some (JObj ob) \<Rightarrow> obj_get ob (la ''message'') | _ \<Rightarrow> JUndef)
     in case message of
          JArr vs \<Rightarrow> join (la '', '') (map (\<lambda>v. if v = JUndef \<or> v = JNull then [] else js_string v) vs)
        | JUndef \<Rightarrow> statusText
        | JNull \<Rightarrow> statusText
        | v \<Rightarrow> js_string v)"

definition rootOf :: "jstr \<Rightarrow> jstr" where
  "rootOf baseUrl = rev (dropWhile (\<lambda>c. c = 47) (rev baseUrl))"

definition http_get :: "(params \<Rightarrow> jstr) \<Rightarrow> (jstr \<Rightarrow> fetched) \<Rightarrow> jstr \<Rightarrow> jstr \<Rightarrow> params option \<Rightarrow> api_failure + jval" where
  "http_get query_text fetch baseUrl path params =
    (let qs = (case params of None \<Rightarrow> [] | Some ps \<Rightarrow> if ps \<noteq> [] then 63 # query_text ps else [])
     in case fetch (rootOf baseUrl @ la ''/api'' @ path @ qs) of
          Unreachable \<Rightarrow> Inl (ApiError 0 (la ''Network error''))
        | Answer status statusText body \<Rightarrow>
            if \<not> (200 \<le> status \<and> status \<le> 299) then Inl (ApiError status (error_message body statusText))
            else case body of None \<Rightarrow> Inl SyntaxError | Some v \<Rightarrow> Inr v)"

definition categoriesPath :: jstr where
  "categoriesPath = la ''/categories''"

definition filtersPath :: "(jstr \<Rightarrow> jstr) \<Rightarrow> jstr \<Rightarrow> jstr" where
  "filtersPath encodeURIComponent slug = la ''/categories/'' @ encodeURIComponent slug @ la ''/filters''"

definition productPath :: "(jstr \<Rightarrow> jstr) \<Rightarrow> jstr \<Rightarrow> jstr" where
  "productPath encodeURIComponent i = la ''/products/'' @ encodeURIComponent i"

datatype page_failure = NotFoundPage | RethrownError api_failure

fun notFoundOn404 :: "api_failure \<Rightarrow> page_failure" where
  "notFoundOn404 (ApiError status message) = (if status = 404 then NotFoundPage else RethrownError (ApiError status message))"
| "notFoundOn404 e = RethrownError e"

section \<open>Lists with more to show\<close>

definition PAGE_SIZE :: nat where
  "PAGE_SIZE = 24"

definition getNextOffset :: "'a list \<Rightarrow> 'a list list \<Rightarrow> nat option" where
  "getNextOffset lastPage allPages = (if length lastPage < PAGE_SIZE then None else Some (length allPages * PAGE_SIZE))"

text \<open>The pages a list holds after its first one and after every press of the button (\<open>useInfiniteQuery\<close>).\<close>

definition fetch_next :: "(nat \<Rightarrow> 'a list) \<Rightarrow> 'a list list \<Rightarrow> 'a list list" where
  "fetch_next get pages =
    (case getNextOffset (last pages) pages of None \<Rightarrow> pages | Some offset \<Rightarrow> pages @ [get offset])"

definition pages_after :: "(nat \<Rightarrow> 'a list) \<Rightarrow> nat \<Rightarrow> 'a list list" where
  "pages_after get n = (fetch_next get ^^ n) [get 0]"

definition page_query :: "client_query \<Rightarrow> nat \<Rightarrow> client_query" where
  "page_query query offset = query\<lparr>cq_limit := Some PAGE_SIZE, cq_offset := Some offset\<rparr>"

definition category_query :: "jstr \<Rightarrow> params \<Rightarrow> filter_def list \<Rightarrow> client_query" where
  "category_query slug params filters =
    \<lparr>cq_category = Some slug, cq_search = None, cq_filters = readFilters params filters,
     cq_sort = Some (readSort params), cq_limit = None, cq_offset = None\<rparr>"

definition search_text :: "params \<Rightarrow> jstr" where
  "search_text params = trim (nullish (params_get params (la ''q'')) [])"

definition search_query :: "params \<Rightarrow> client_query" where
  "search_query params =
    \<lparr>cq_category = None, cq_search = Some (search_text params), cq_filters = [],
     cq_sort = Some (readSort params), cq_limit = None, cq_offset = None\<rparr>"

definition TOP_DEALS :: nat where
  "TOP_DEALS = 8"

text \<open>The best deals of the start page: the first \<open>wanted\<close> of the dashboard, those already loaded.\<close>

definition topDealIds :: "jstr list option \<Rightarrow> nat \<Rightarrow> jstr list" where
  "topDealIds spreads wanted = nullish (map_option (take wanted) spreads) []"

definition shown_deals :: "jstr list option \<Rightarrow> nat \<Rightarrow> bool \<Rightarrow> product_card list \<Rightarrow> product_card list" where
  "shown_deals spreads wanted pending loaded =
    (let shownIds = (if pending then topDealIds spreads (wanted - TOP_DEALS) else topDealIds spreads wanted)
     in List.map_filter (\<lambda>i. map_of (rev (map (\<lambda>p. (p_id p, p)) loaded)) i) shownIds)"

definition has_more_deals :: "jstr list option \<Rightarrow> nat \<Rightarrow> bool" where
  "has_more_deals spreads wanted = (nullish (map_option length spreads) 0 > wanted)"

section \<open>The test adapter\<close>

text \<open>\<open>String(p.attributes[key])\<close>.\<close>

definition attribute_text :: "product_card \<Rightarrow> jstr \<Rightarrow> jstr" where
  "attribute_text p key =
    (case map_of (p_attributes p) key of
       None \<Rightarrow> la ''undefined''
     | Some None \<Rightarrow> la ''null''
     | Some (Some v) \<Rightarrow> prim_text v)"

definition mock_matches :: "client_query \<Rightarrow> product_card \<Rightarrow> bool" where
  "mock_matches query p \<longleftrightarrow>
    \<not> (truthy_str (cq_category query) \<and> Some (p_catSlug p) \<noteq> cq_category query) \<and>
    (let search = map_option (to_lower \<circ> trim) (cq_search query)
     in \<not> (truthy_str search \<and> \<not> str_includes (to_lower (p_name p @ [32] @ nullish (p_brand p) [])) (the search))) \<and>
    list_all (\<lambda>(key, values). attribute_text p key \<in> set values) (filter (\<lambda>f. snd f \<noteq> []) (cq_filters query))"

fun mock_le :: "(jstr \<Rightarrow> jstr \<Rightarrow> bool) \<Rightarrow> sort_order \<Rightarrow> product_card \<Rightarrow> product_card \<Rightarrow> bool" where
  "mock_le collator PriceAsc a b = (p_minPrice a \<le> p_minPrice b)"
| "mock_le collator PriceDesc a b = (p_minPrice b \<le> p_minPrice a)"
| "mock_le collator NameAsc a b = collator (p_name a) (p_name b)"

definition queryProducts :: "(jstr \<Rightarrow> jstr \<Rightarrow> bool) \<Rightarrow> product_card list \<Rightarrow> client_query \<Rightarrow> product_card list" where
  "queryProducts collator source query =
    js_sort (mock_le collator (nullish (cq_sort query) PriceAsc)) (filter (mock_matches query) source)"

definition mock_getProducts :: "(jstr \<Rightarrow> jstr \<Rightarrow> bool) \<Rightarrow> product_card list \<Rightarrow> client_query \<Rightarrow> product_card list" where
  "mock_getProducts collator source query =
    (let matched = drop (nullish (cq_offset query) 0) (queryProducts collator source query)
     in case cq_limit query of None \<Rightarrow> matched | Some l \<Rightarrow> take l matched)"

definition mock_getProduct :: "product_card list \<Rightarrow> jstr \<Rightarrow> api_failure + product_card" where
  "mock_getProduct source i =
    (case List.find (\<lambda>p. p_id p = i) source of
       Some p \<Rightarrow> Inr p
     | None \<Rightarrow> Inl (ApiError 404 (la ''Product \"'' @ i @ la ''\" not found'')))"

definition mock_getCategoryFilters :: "(jstr \<times> filter_schema) list \<Rightarrow> jstr \<Rightarrow> api_failure + filter_schema" where
  "mock_getCategoryFilters schemas slug =
    (case map_of schemas slug of
       Some s \<Rightarrow> Inr s
     | None \<Rightarrow> Inl (ApiError 404 (la ''Category \"'' @ slug @ la ''\" not found'')))"

section \<open>The filter controls\<close>

definition hasChoices :: "filter_def \<Rightarrow> bool" where
  "hasChoices f \<longleftrightarrow> f_type f = BooleanFilter \<or> nullish (map_option length (f_options f)) 0 > 0"

text \<open>Case, the letter yo and the decimal separator do not matter to the search among options.\<close>

definition normalize_text :: "jstr \<Rightarrow> jstr" where
  "normalize_text t = map (\<lambda>c. if c = 1105 then 1077 else if c = 46 then 44 else c) (to_lower (trim t))"

record choice =
  ch_value :: jstr
  ch_text :: jstr

definition choices :: "(jstr \<Rightarrow> prim \<Rightarrow> jstr) \<Rightarrow> filter_def \<Rightarrow> choice list" where
  "choices format f = map (\<lambda>v. \<lparr>ch_value = prim_text v, ch_text = format (f_key f) v\<rparr>) (nullish (f_options f) [])"

definition SEARCHABLE_FROM :: nat where
  "SEARCHABLE_FROM = 13"

definition searchable :: "filter_def \<Rightarrow> bool" where
  "searchable f \<longleftrightarrow> length (nullish (f_options f) []) \<ge> SEARCHABLE_FROM"

definition visible_choices :: "(jstr \<Rightarrow> prim \<Rightarrow> jstr) \<Rightarrow> filter_def \<Rightarrow> jstr list \<Rightarrow> jstr \<Rightarrow> choice list" where
  "visible_choices format f selected query =
    (let needle = normalize_text query; options = choices format f
     in if needle \<noteq> [] then filter (\<lambda>x. ch_value x \<in> set selected \<or> str_includes (normalize_text (ch_text x)) needle) options
        else options)"

definition toggle :: "jstr list \<Rightarrow> jstr \<Rightarrow> jstr list" where
  "toggle selected value = (if value \<in> set selected then filter (\<lambda>v. v \<noteq> value) selected else selected @ [value])"

definition toggle_boolean :: "jstr list \<Rightarrow> jstr list" where
  "toggle_boolean selected = (if la ''true'' \<in> set selected then [] else [la ''true''])"

text \<open>What a press on a filter does to the address of a category page.\<close>

definition press_choice :: "params \<Rightarrow> filter_def list \<Rightarrow> filter_def \<Rightarrow> jstr \<Rightarrow> params" where
  "press_choice params filters f value =
    (let selected = nullish (map_of (readFilters params filters) (f_key f)) []
     in withFilter params (f_key f) (if f_type f = BooleanFilter then toggle_boolean selected else toggle selected value))"

definition replaceQuery :: "(params \<Rightarrow> jstr) \<Rightarrow> jstr \<Rightarrow> params \<Rightarrow> jstr" where
  "replaceQuery query_text pathname params =
    (let search = query_text params in if search \<noteq> [] then pathname @ [63] @ search else pathname)"

section \<open>The search box\<close>

record search_box =
  sb_value :: jstr
  sb_synced :: jstr

definition MIN_LIVE_QUERY :: nat where
  "MIN_LIVE_QUERY = 2"

definition url_query :: "bool \<Rightarrow> params \<Rightarrow> jstr" where
  "url_query onSearchPage params = (if onSearchPage then search_text params else [])"

text \<open>A render takes over the query of the address when it has changed, unless the text already says it.\<close>

definition render_box :: "bool \<Rightarrow> params \<Rightarrow> search_box \<Rightarrow> search_box" where
  "render_box onSearchPage params s =
    (let urlQuery = url_query onSearchPage params
     in if urlQuery \<noteq> sb_synced s
        then \<lparr>sb_value = (if urlQuery \<noteq> trim (sb_value s) then urlQuery else sb_value s), sb_synced = urlQuery\<rparr>
        else s)"

definition should_go :: "bool \<Rightarrow> params \<Rightarrow> search_box \<Rightarrow> bool" where
  "should_go onSearchPage params s \<longleftrightarrow>
    (let liveQuery = trim (sb_value s)
     in liveQuery \<noteq> url_query onSearchPage params \<and>
        (length liveQuery \<ge> MIN_LIVE_QUERY \<or> liveQuery = [] \<and> onSearchPage))"

definition should_submit :: "bool \<Rightarrow> params \<Rightarrow> search_box \<Rightarrow> bool" where
  "should_submit onSearchPage params s \<longleftrightarrow> trim (sb_value s) \<noteq> [] \<and> trim (sb_value s) \<noteq> url_query onSearchPage params"

text \<open>The address a search goes to: on the search page the other parameters stay.\<close>

definition go_to :: "bool \<Rightarrow> params \<Rightarrow> jstr \<Rightarrow> params" where
  "go_to onSearchPage params q =
    (let next_params = (if onSearchPage then params else [])
     in if q \<noteq> [] then params_set (la ''q'') q next_params else params_delete (la ''q'') next_params)"

end
