(* ===== verification/BrowseProperties.thy ===== *)
theory BrowseProperties
  imports Browse CatalogDb Fixtures
begin

text \<open>
  The properties of browsing: the filters kept in the address, the requests a page makes and what
  the backend makes of them, lists shown page by page, the redirect to a language and the site map.
\<close>

section \<open>Numbers printed and read back\<close>

lemma star_run:
  "\<forall>c \<in> set w. in_cls k c \<Longrightarrow> (rev w @ b, r, cs) \<in> set (rx_run (Star True (Ch k)) (b, w @ r, cs))"
proof (induction w arbitrary: b)
  case Nil
  then show ?case by (subst in_star) simp
next
  case (Cons c w)
  then show ?case by (subst in_star) (auto intro!: bexI [of _ "(c # b, w @ r, cs)"])
qed

lemma many1_run:
  "w \<noteq> [] \<Longrightarrow> \<forall>c \<in> set w. in_cls k c \<Longrightarrow> (rev w @ b, r, cs) \<in> set (rx_run (many1 (Ch k)) (b, w @ r, cs))"
  using star_run [of "tl w" k "hd w # b" r cs] by (cases w) (auto simp: many1_def)

text \<open>A text made of an optional minus, digits and an optional fraction is a number for the backend.\<close>

lemma test_rx_number:
  assumes "i \<noteq> []" "\<forall>c \<in> set i. digit_ch c" "\<forall>c \<in> set f. digit_ch c"
  shows "rx_test Catalog.rx_number ((if neg then [45] else []) @ i @ (if f = [] then [] else 46 # f))"
proof -
  let ?m = "if neg then [45] else [] :: jstr" and ?t = "if f = [] then [] else 46 # f"
  have sign: "(rev ?m, i @ ?t, []) \<in> set (rx_run (opt (chr 45)) ([], ?m @ i @ ?t, []))"
    by (auto simp: opt_def chr_def)
  have int: "(rev i @ rev ?m, ?t, []) \<in> set (rx_run (many1 (Ch c_digit)) (rev ?m, i @ ?t, []))"
    using assms by (intro many1_run) simp_all
  have frac: "\<exists>b. (b, [], []) \<in> set (rx_run (opt (Sq (chr 46) (many1 (Ch c_digit)))) (rev i @ rev ?m, ?t, []))"
    using many1_run [of f c_digit "46 # rev i @ rev ?m" "[]" "[]"] assms(3) by (cases "f = []") (auto simp: opt_def chr_def)
  have "rx_run (sq [opt (chr 45), many1 (Ch c_digit), opt (Sq (chr 46) (many1 (Ch c_digit))), Eol]) ([], ?m @ i @ ?t, []) \<noteq> []"
    using sign int frac by (fastforce simp: filter_empty_conv)
  then show ?thesis by (simp add: Catalog.rx_number_def test_Bol)
qed

text \<open>The value of the printed fraction of a number with at most \<open>k\<close> decimals.\<close>

lemma digits_val_Cons: "digits_val (d # s) = (d - 48) * 10 ^ length s + digits_val s"
  by (induction s rule: rev_induct) (simp_all add: digits_val_snoc digits_val_def algebra_simps)

lemma show_frac_digits: "0 \<le> q \<Longrightarrow> q < 1 \<Longrightarrow> c \<in> set (show_frac k q) \<Longrightarrow> digit_ch c"
proof (induction k q rule: show_frac.induct)
  case (2 k q)
  have f: "0 \<le> \<lfloor>10 * q\<rfloor>" "\<lfloor>10 * q\<rfloor> \<le> 9" using 2(2,3) by (simp, linarith)
  have r: "0 \<le> 10 * q - of_int \<lfloor>10 * q\<rfloor>" "10 * q - of_int \<lfloor>10 * q\<rfloor> < 1" by linarith+
  show ?case using 2 f r by (auto simp: digit_ch_def split: if_splits)
qed simp

lemma show_frac_value:
  "0 \<le> q \<Longrightarrow> q < 1 \<Longrightarrow> q * 10 ^ k \<in> \<int> \<Longrightarrow> of_int (digits_val (show_frac k q)) = q * 10 ^ length (show_frac k q)"
proof (induction k q rule: show_frac.induct)
  case (1 q)
  then have "q = 0" by (auto elim!: Ints_cases)
  then show ?case by simp
next
  case (2 k q)
  show ?case
  proof (cases "q = 0")
    case False
    let ?d = "\<lfloor>10 * q\<rfloor>" and ?r = "10 * q - of_int \<lfloor>10 * q\<rfloor>"
    have "?r * 10 ^ k = q * 10 ^ Suc k - of_int (?d * 10 ^ k)" by (simp add: algebra_simps)
    then have "?r * 10 ^ k \<in> \<int>" using 2(4) by (metis Ints_diff Ints_of_int)
    moreover have "0 \<le> ?r" "?r < 1" by linarith+
    ultimately have "of_int (digits_val (show_frac k ?r)) = ?r * 10 ^ length (show_frac k ?r)" using 2(1) False by blast
    then show ?thesis using False by (simp add: digits_val_Cons algebra_simps)
  qed simp
qed

lemma show_frac_Nil: "q * 10 ^ k \<in> \<int> \<Longrightarrow> 0 \<le> q \<Longrightarrow> q < 1 \<Longrightarrow> show_frac k q = [] \<Longrightarrow> q = 0"
  by (cases k) (auto elim!: Ints_cases split: if_splits)

lemma show_frac_zero: "show_frac k 0 = []"
  by (cases k) simp_all

text \<open>A number the catalogue may hold: six decimals, at most nine digits before them.\<close>

definition plain_decimal :: "rat \<Rightarrow> bool" where
  "plain_decimal q \<longleftrightarrow> q * 10 ^ 6 \<in> \<int> \<and> \<bar>q\<bar> < 10 ^ 9"

lemma show_num_read:
  assumes "plain_decimal q"
  shows "rx_test Catalog.rx_number (show_num q)" and "number_of (show_num q) = q"
proof -
  define i where "i = \<lfloor>\<bar>q\<bar>\<rfloor>"
  define f where "f = \<bar>q\<bar> - of_int i"
  define fs where "fs = (if f = 0 then [] else show_frac 17 f)"
  have f: "0 \<le> f" "f < 1" "0 \<le> i" unfolding f_def i_def by linarith+
  have "\<bar>q\<bar> * 10 ^ 6 \<in> \<int>" using assms by (cases "0 \<le> q") (auto simp: plain_decimal_def)
  from Ints_mult [OF Ints_diff [OF this Ints_of_int [of "i * 10 ^ 6"]] Ints_of_int [of "10 ^ 11"]]
  moreover have "f * 10 ^ 17 = (\<bar>q\<bar> * 10 ^ 6 - of_int (i * 10 ^ 6)) * of_int (10 ^ 11)"
    unfolding f_def of_int_mult of_int_power of_int_numeral by (simp add: left_diff_distrib)
  ultimately have "f * 10 ^ 17 \<in> \<int>" by (simp only:)
  note fi = f(1,2) this
  have sf: "show_frac 17 f = [] \<longleftrightarrow> f = 0" using show_frac_Nil [OF fi(3,1,2)] show_frac_zero by blast
  have shown: "show_num q = (if q < 0 then [45] else []) @ show_nat i @ (if fs = [] then [] else 46 # fs)"
    using sf unfolding show_num_def Let_def fs_def f_def i_def by simp
  have digs: "show_nat i \<noteq> []" "\<forall>c \<in> set (show_nat i). digit_ch c" "\<forall>c \<in> set fs. digit_ch c"
    using show_nat_digits [OF f(3)] show_frac_digits [OF f(1,2)] by (auto simp: fs_def)
  show "rx_test Catalog.rx_number (show_num q)"
    unfolding shown by (rule test_rx_number [OF digs])
  have nodot: "46 \<notin> set (show_nat i)" "46 \<notin> set fs" using digs by (auto simp: digit_ch_def)
  have "of_int (digits_val fs) = f * 10 ^ length fs" using show_frac_value [OF fi] by (simp add: fs_def)
  then have frac: "of_int (digits_val fs) / 10 ^ length fs = f" by (simp add: field_simps)
  have "dec_val (show_nat i @ (if fs = [] then [] else 46 # fs)) = of_int i + f"
    using nodot frac f(3) sf by (auto simp: dec_val_def split_ch_append split_ch_word fs_def)
  moreover have "of_int i + f = \<bar>q\<bar>" by (simp add: f_def)
  moreover have "show_nat i \<noteq> [] \<and> hd (show_nat i) \<noteq> 45" using digs by (cases "show_nat i") (auto simp: digit_ch_def)
  ultimately show "number_of (show_num q) = q"
    unfolding shown number_of_def by (cases "show_nat i") (auto split: if_splits)
qed

section \<open>Filters in the address\<close>

lemma foldl_append: "foldl (\<lambda>ps v. params_append key v ps) ps vs = ps @ map (Pair key) vs"
  by (induction vs arbitrary: ps) (simp_all add: params_append_def)

lemma getAll_append: "params_getAll (ps @ qs) k = params_getAll ps k @ params_getAll qs k"
  by (simp add: params_getAll_def)

lemma getAll_Cons: "params_getAll ((a, v) # ps) k = (if k = a then [v] else []) @ params_getAll ps k"
  by (simp add: params_getAll_def)

lemma getAll_Nil [simp]: "params_getAll [] k = []"
  by (simp add: params_getAll_def)

lemma getAll_withFilter:
  "params_getAll (withFilter params key vs) k = (if k = key then vs else params_getAll params k)"
  by (auto simp: withFilter_def foldl_append getAll_append params_getAll_def params_delete_def filter_map comp_def
      intro!: arg_cong [of _ _ "map snd"] filter_cong)

definition filter_state :: "params \<Rightarrow> filter_def \<Rightarrow> (jstr \<times> jstr list) option" where
  "filter_state params f = (if picked params f = [] then None else Some (f_key f, js_set (picked params f)))"

lemma keys_filter_state: "set (js_keys (List.map_filter (filter_state params) fs)) \<subseteq> f_key ` set fs"
  by (auto simp: in_map_filter filter_state_def split: if_splits)

lemma readFilters_onto:
  "distinct (map f_key fs) \<Longrightarrow> set (js_keys vs) \<inter> f_key ` set fs = {} \<Longrightarrow>
   foldl (\<lambda>vs f. if picked params f \<noteq> [] then AList.update (f_key f) (js_set (picked params f)) vs else vs) vs fs =
   vs @ List.map_filter (filter_state params) fs"
proof (induction fs arbitrary: vs)
  case (Cons f fs)
  then show ?case by (auto simp: filter_state_def List.map_filter_simps update_new)
qed (simp add: List.map_filter_simps)

lemma readFilters_alt:
  "distinct (map f_key fs) \<Longrightarrow> readFilters params fs = List.map_filter (filter_state params) fs"
  using readFilters_onto [of fs "[]" params] by (simp add: readFilters_def)

lemma distinct_map_filter_keys:
  "distinct (map f_key fs) \<Longrightarrow> distinct (js_keys (List.map_filter (filter_state params) fs))"
proof (induction fs)
  case (Cons f fs)
  then have new: "f_key f \<notin> set (js_keys (List.map_filter (filter_state params) fs))" using keys_filter_state [of params fs] by auto
  have "filter_state params f = None \<or> (\<exists>vs. filter_state params f = Some (f_key f, vs))" by (simp add: filter_state_def)
  then show ?case using Cons new by (auto simp: List.map_filter_simps)
qed (simp add: List.map_filter_simps)

lemma map_of_readFilters:
  assumes "distinct (map f_key fs)" and "f \<in> set fs"
  shows "map_of (readFilters params fs) (f_key f) = map_option snd (filter_state params f)"
proof (cases "picked params f = []")
  case True
  have "f_key f \<notin> set (js_keys (List.map_filter (filter_state params) fs))"
  proof
    assume "f_key f \<in> set (js_keys (List.map_filter (filter_state params) fs))"
    then obtain g where g: "g \<in> set fs" "filter_state params g \<noteq> None" "f_key g = f_key f"
      by (auto simp: in_map_filter filter_state_def split: if_splits)
    then have "g = f" using assms by (auto simp: distinct_map inj_on_def)
    with g True show False by (simp add: filter_state_def)
  qed
  then show ?thesis using True assms(1) by (simp add: readFilters_alt filter_state_def map_of_eq_None_iff)
next
  case False
  then have "(f_key f, js_set (picked params f)) \<in> set (List.map_filter (filter_state params) fs)"
    using assms(2) by (auto simp: in_map_filter filter_state_def)
  then show ?thesis
    using False assms(1) by (simp add: readFilters_alt distinct_map_filter_keys map_of_eq_Some_iff filter_state_def)
qed

text \<open>What the controls of a filter can select: distinct options of it, or one of the two booleans.\<close>

definition offered :: "filter_def \<Rightarrow> jstr list \<Rightarrow> bool" where
  "offered f vs \<longleftrightarrow>
    (if f_type f = BooleanFilter then vs \<in> {[], [la ''true''], [la ''false'']}
     else distinct vs \<and> set vs \<subseteq> prim_text ` set (nullish (f_options f) []))"

lemma js_set_distinct: "distinct xs \<Longrightarrow> js_set xs = xs"
proof -
  have "distinct (seen @ xs) \<Longrightarrow> set_onto seen xs = seen @ xs" for seen by (induction xs arbitrary: seen) auto
  then show "distinct xs \<Longrightarrow> js_set xs = xs" by (simp add: js_set_def)
qed

lemma picked_withFilter:
  assumes "offered f vs"
  shows "picked (withFilter params (f_key f) vs) f = vs"
proof (cases "f_type f = BooleanFilter")
  case True
  then show ?thesis using assms by (auto simp: picked_def getAll_withFilter offered_def Let_def)
next
  case False
  then have "filter (\<lambda>v. list_ex (\<lambda>p. prim_text p = v) (nullish (f_options f) [])) vs = vs"
    using assms by (intro filter_True) (auto simp: offered_def list_ex_iff)
  with False show ?thesis by (simp add: picked_def getAll_withFilter Let_def)
qed

lemma picked_other: "f_key g \<noteq> key \<Longrightarrow> picked (withFilter params key vs) g = picked params g"
  by (simp add: picked_def getAll_withFilter)

lemma offered_distinct: "offered f vs \<Longrightarrow> distinct vs"
  by (auto simp: offered_def split: if_splits)

lemma read_after_write:
  assumes "distinct (map f_key fs)" and "f \<in> set fs" and "g \<in> set fs" and "offered f vs"
  shows "map_of (readFilters (withFilter params (f_key f) vs) fs) (f_key g) =
    (if g = f then if vs = [] then None else Some vs else map_of (readFilters params fs) (f_key g))"
proof -
  have "f_key g = f_key f \<longleftrightarrow> g = f" using assms(1-3) by (auto simp: distinct_map inj_on_def)
  then show ?thesis
    using assms by (auto simp: map_of_readFilters filter_state_def picked_withFilter picked_other js_set_distinct offered_distinct)
qed

lemma readSort_withFilter: "key \<noteq> la ''sort'' \<Longrightarrow> readSort (withFilter params key vs) = readSort params"
proof -
  assume k: "key \<noteq> la ''sort''"
  have "map_of (withFilter params key vs) (la ''sort'') = map_of params (la ''sort'')"
    using k by (simp add: withFilter_def foldl_append params_delete_def map_add_def map_of_map_restrict)
       (induction params; auto split: option.splits simp: map_of_eq_None_iff)
  then show ?thesis by (simp add: readSort_def params_get_def)
qed

definition selection :: "params \<Rightarrow> filter_def list \<Rightarrow> filter_def \<Rightarrow> jstr set" where
  "selection params fs g = set (nullish (map_of (readFilters params fs) (f_key g)) [])"

lemma picked_offered: "f_type f = MultiSelect \<Longrightarrow> v \<in> set (picked params f) \<Longrightarrow> v \<in> prim_text ` set (nullish (f_options f) [])"
  by (auto simp: picked_def list_ex_iff Let_def)

lemma selected_list:
  assumes "distinct (map f_key fs)" and "f \<in> set fs"
  shows "nullish (map_of (readFilters params fs) (f_key f)) [] = js_set (picked params f)"
  using assms by (simp add: map_of_readFilters filter_state_def)

lemma offered_toggle:
  assumes "distinct (map f_key fs)" "f \<in> set fs" "f_type f = MultiSelect" "v \<in> prim_text ` set (nullish (f_options f) [])"
  shows "offered f (toggle (nullish (map_of (readFilters params fs) (f_key f)) []) v)"
  using assms(3,4) picked_offered [OF assms(3)]
  by (auto simp: selected_list [OF assms(1,2)] offered_def toggle_def)

lemma selection_press:
  assumes "distinct (map f_key fs)" "f \<in> set fs" "g \<in> set fs" "f_type f = MultiSelect"
    "v \<in> prim_text ` set (nullish (f_options f) [])"
  shows "selection (press_choice params fs f v) fs g =
    (if g = f then if v \<in> selection params fs f then selection params fs f - {v} else insert v (selection params fs f)
     else selection params fs g)"
proof -
  let ?S = "nullish (map_of (readFilters params fs) (f_key f)) []"
  have "map_of (readFilters (press_choice params fs f v) fs) (f_key g) =
      (if g = f then if toggle ?S v = [] then None else Some (toggle ?S v) else map_of (readFilters params fs) (f_key g))"
    using read_after_write [OF assms(1,2,3) offered_toggle [OF assms(1,2,4,5)]] assms(4) by (simp add: press_choice_def Let_def)
  moreover have "set (toggle ?S v) = (if v \<in> set ?S then set ?S - {v} else insert v (set ?S))" by (auto simp: toggle_def)
  moreover have "nullish (if xs = [] then None else Some xs) [] = xs" for xs :: "jstr list" by simp
  ultimately show ?thesis by (cases "g = f") (simp_all only: selection_def simp_thms if_True if_False)
qed

lemma getAll_withoutFilters: "params_getAll (withoutFilters params fs) k = (if k \<in> f_key ` set fs then [] else params_getAll params k)"
proof (induction fs arbitrary: params)
  case (Cons f fs)
  have "params_getAll (params_delete (f_key f) params) k = (if k = f_key f then [] else params_getAll params k)"
    by (auto simp: params_getAll_def params_delete_def intro!: arg_cong [of _ _ "map snd"] filter_cong)
  then show ?case using Cons [of "params_delete (f_key f) params"] by (auto simp: withoutFilters_def)
qed (simp add: withoutFilters_def)

lemma readFilters_reset: "distinct (map f_key fs) \<Longrightarrow> readFilters (withoutFilters params fs) fs = []"
proof -
  assume d: "distinct (map f_key fs)"
  have "filter_state (withoutFilters params fs) f = None" if "f \<in> set fs" for f
    using that by (simp add: filter_state_def picked_def getAll_withoutFilters Let_def)
  then have "(k, vs) \<notin> set (List.map_filter (filter_state (withoutFilters params fs)) fs)" for k vs
    by (auto simp: in_map_filter)
  then show ?thesis using d by (metis readFilters_alt list.set_intros(1) neq_Nil_conv surj_pair)
qed

text \<open>C10: The address holds the state of the filters: pressing an option of a filter selects it if it was
  not selected and drops it if it was, changes no other filter and not the sort, pressing it
  again restores every selection, and resetting leaves none active.\<close>

theorem a_press_changes_one_choice:
  assumes "distinct (map f_key fs)" and "f \<in> set fs" and "f_type f = MultiSelect"
    and "v \<in> prim_text ` set (nullish (f_options f) [])" and "f_key f \<noteq> la ''sort''" and "g \<in> set fs"
  shows "selection (press_choice params fs f v) fs g =
       (if g = f then if v \<in> selection params fs f then selection params fs f - {v} else insert v (selection params fs f)
        else selection params fs g) \<and>
     readSort (press_choice params fs f v) = readSort params \<and>
     selection (press_choice (press_choice params fs f v) fs f v) fs g = selection params fs g \<and>
     countActive (readFilters (withoutFilters (press_choice params fs f v) fs) fs) = 0"
proof -
  note press = selection_press [OF assms(1,2) _ assms(3,4)]
  have "selection (press_choice (press_choice params fs f v) fs f v) fs g = selection params fs g"
    using press [OF assms(6)] press [OF assms(2)] by auto
  moreover have "readSort (press_choice params fs f v) = readSort params"
    using assms(5) by (simp add: press_choice_def Let_def readSort_withFilter)
  ultimately show ?thesis using press [OF assms(6)] assms(1) by (simp add: readFilters_reset countActive_def)
qed

theorem a_press_changes_one_choice_witness:
  "let fs = s_filters milkFilters; f = hd fs; v = la ''500'' in
     v \<in> selection (press_choice [] fs f v) fs f \<and> v \<notin> selection (press_choice (press_choice [] fs f v) fs f v) fs f"
proof -
  let ?fs = "s_filters milkFilters" and ?v = "la ''500''"
  have d: "distinct (map f_key ?fs)" by code_simp
  have h: "hd ?fs \<in> set ?fs" by (simp add: milkFilters_def)
  have m: "f_type (hd ?fs) = MultiSelect" "f_key (hd ?fs) \<noteq> la ''sort''" by code_simp+
  have v: "?v \<in> prim_text ` set (nullish (f_options (hd ?fs)) [])" by code_simp
  have e: "selection [] ?fs (hd ?fs) = {}" by code_simp
  show ?thesis using a_press_changes_one_choice [OF d h m(1) v m(2) h, of "[]"] e by (simp add: Let_def)
qed

section \<open>What the backend makes of a page's request\<close>

text \<open>
  What the framework hands the controller of the parameters a client sent, at most a thousand: a
  parameter sent once as a text, one sent several times as the list of its values.
\<close>

definition delivers :: "(params \<Rightarrow> (jstr \<times> jval) list) \<Rightarrow> bool" where
  "delivers received \<longleftrightarrow>
    (\<forall>ps. length ps \<le> 1000 \<longrightarrow>
       distinct (js_keys (received ps)) \<and> set (js_keys (received ps)) = set (js_keys ps) \<and>
       (\<forall>k. obj_get (received ps) k =
          (case params_getAll ps k of [] \<Rightarrow> JUndef | [v] \<Rightarrow> JStr v | vs \<Rightarrow> JArr (map JStr vs))))"

text \<open>The filters of a category as the catalogue serves them: known keys, options of one type.\<close>

fun plain_option :: "prim \<Rightarrow> bool" where
  "plain_option (PNum (Fin q)) = plain_decimal q"
| "plain_option (PNum _) = False"
| "plain_option _ = True"

definition served_filter :: "filter_def \<Rightarrow> bool" where
  "served_filter f \<longleftrightarrow> f_key f \<notin> set standardKeys \<and>
    (if f_type f = BooleanFilter then options_of f = []
     else list_all (\<lambda>p. prim_type p = first_type (options_of f) \<and> plain_option p) (options_of f))"

definition served_schema :: "filter_def list \<Rightarrow> bool" where
  "served_schema fs \<longleftrightarrow> distinct (map f_key fs) \<and> list_all served_filter fs"

lemma traverse_same:
  "list_all2 (\<lambda>x y. f x = Inr y) xs ys \<Longrightarrow> traverse f xs = Inr ys"
  by (simp add: traverse_Inr)

text \<open>An option's text is read back as the option.\<close>

lemma parse_option:
  assumes "served_filter f" and "f_type f = MultiSelect" and "p \<in> set (options_of f)"
  shows "parseFilterValue (prim_text p) f = Inr p"
proof -
  have p: "prim_type p = first_type (options_of f)" "plain_option p"
    using assms by (auto simp: served_filter_def list_all_iff split: if_splits)
  show ?thesis
  proof (cases p)
    case (PStr s)
    then show ?thesis using p assms(2,3) by (simp add: parseFilterValue_def Let_def)
  next
    case (PBool b)
    then show ?thesis using p assms(2,3) by (cases b) (auto simp: parseFilterValue_def Let_def la_def)
  next
    case (PNum n)
    then obtain q where q: "p = num q" "plain_decimal q" using p(2) by (cases n) (simp_all add: num_def)
    then show ?thesis using p(1) assms(2,3) show_num_read [OF q(2)] by (simp add: parseFilterValue_def Let_def num_def)
  qed
qed

lemma parse_picked:
  assumes "served_filter f" and "v \<in> set (picked params f)"
  shows "\<exists>p. parseFilterValue v f = Inr p \<and> prim_text p = v"
proof (cases "f_type f = BooleanFilter")
  case True
  then have "v = la ''true'' \<or> v = la ''false''" using assms(2) by (auto simp: picked_def Let_def dest!: in_set_takeD)
  moreover have "options_of f = []" using True assms(1) by (simp add: served_filter_def)
  ultimately show ?thesis using True by (auto simp: parseFilterValue_def Let_def la_def)
next
  case False
  then have m: "f_type f = MultiSelect" by (cases "f_type f") auto
  then obtain p where "p \<in> set (options_of f)" "prim_text p = v"
    using picked_offered [OF m assms(2)] by (auto simp: options_of_def)
  then show ?thesis using parse_option [OF assms(1) m] by auto
qed

lemma set_append: "k \<notin> set (js_keys ps) \<Longrightarrow> params_set k v ps = ps @ [(k, v)]"
  by (induction ps) auto

definition flat :: "(jstr \<times> jstr list) list \<Rightarrow> params" where
  "flat F = concat (map (\<lambda>(k, vs). map (Pair k) vs) F)"

lemma append_filters_flat: "append_filters F ps = ps @ flat F"
proof (induction F arbitrary: ps)
  case (Cons kv F)
  have "append_filters (kv # F) ps = append_filters F (ps @ map (Pair (fst kv)) (snd kv))"
    by (cases kv) (simp add: append_filters_def foldl_append)
  then show ?case by (cases kv) (simp add: Cons flat_def)
qed (simp add: append_filters_def flat_def)

lemma keys_flat: "set (js_keys (flat F)) = {k. \<exists>vs. (k, vs) \<in> set F \<and> vs \<noteq> []}"
proof (induction F)
  case (Cons kv F)
  obtain a vs where kv: "kv = (a, vs)" by (cases kv)
  have "set (js_keys (flat (kv # F))) = {k. k = a \<and> vs \<noteq> []} \<union> set (js_keys (flat F))"
    by (cases vs) (auto simp: flat_def kv)
  then show ?case unfolding Cons.IH kv by auto
qed (simp add: flat_def)

lemma getAll_flat: "distinct (js_keys F) \<Longrightarrow> params_getAll (flat F) k = nullish (map_of F k) []"
proof (induction F)
  case (Cons kv F)
  obtain a vs where kv: "kv = (a, vs)" by (cases kv)
  have "params_getAll (flat (kv # F)) k = params_getAll (map (Pair a) vs) k @ params_getAll (flat F) k"
    by (simp add: flat_def kv getAll_append)
  also have "params_getAll (map (Pair a) vs) k = (if k = a then vs else [])"
    by (induction vs) (auto simp: params_getAll_def)
  finally have all: "params_getAll (flat (kv # F)) k = (if k = a then vs else []) @ nullish (map_of F k) []" using Cons by simp
  have "map_of F a = None" using Cons.prems by (simp add: kv map_of_eq_None_iff)
  then show ?case using all unfolding kv by auto
qed (simp add: params_getAll_def flat_def)

lemma readFilters_props:
  assumes "distinct (map f_key fs)"
  shows "distinct (js_keys (readFilters params fs))"
    and "(k, vs) \<in> set (readFilters params fs) \<Longrightarrow> \<exists>f \<in> set fs. f_key f = k \<and> vs = js_set (picked params f) \<and> vs \<noteq> []"
  using assms distinct_map_filter_keys [OF assms, of params]
  by (auto simp: readFilters_alt in_map_filter filter_state_def split: if_splits)

lemma category_request:
  assumes "slug \<noteq> []" and "set (js_keys (readFilters params fs)) \<inter> set standardKeys = {}"
  shows "toSearchParams (page_query (category_query slug params fs) offset) =
    (la ''category'', slug) # flat (readFilters params fs) @
      [(la ''sort'', sort_text (readSort params)), (la ''limit'', show_nat 24), (la ''offset'', show_nat (int offset))]"
proof -
  have k: "k \<notin> set (js_keys (flat (readFilters params fs)))" if "k \<in> set standardKeys" for k
  proof -
    have "set (js_keys (flat (readFilters params fs))) \<subseteq> set (js_keys (readFilters params fs))"
      unfolding keys_flat by force
    then show ?thesis using assms(2) that by blast
  qed
  have std: "la ''sort'' \<in> set standardKeys" "la ''limit'' \<in> set standardKeys" "la ''offset'' \<in> set standardKeys"
    by (simp_all add: standardKeys_def)
  have c: "or_undefined (Some slug) = Some slug" using assms(1) by (simp add: or_undefined_def truthy_str_def)
  have ne: "la ''sort'' \<noteq> la ''category''" "la ''limit'' \<noteq> la ''category''" "la ''offset'' \<noteq> la ''category''"
    "la ''limit'' \<noteq> la ''sort''" "la ''offset'' \<noteq> la ''sort''" "la ''offset'' \<noteq> la ''limit''" by (simp_all add: la_def)
  show ?thesis
    using k [OF std(1)] k [OF std(2)] k [OF std(3)] ne
    by (simp add: toSearchParams_def page_query_def category_query_def set_some_def c or_undefined_def [of None]
        append_filters_flat set_append PAGE_SIZE_def)
qed

definition as_texts :: "(jstr \<times> prim list) list \<Rightarrow> (jstr \<times> jstr list) list" where
  "as_texts = map (\<lambda>(k, ps). (k, map prim_text ps))"

lemma parse_texts:
  assumes "\<And>v. v \<in> set vs \<Longrightarrow> \<exists>p. parseFilterValue v f = Inr p \<and> prim_text p = v"
  shows "\<exists>ps. traverse (\<lambda>input. and_then (scalar input k) (\<lambda>s. parseFilterValue s f)) (map JStr vs) = Inr ps \<and> map prim_text ps = vs"
  using assms
proof (induction vs)
  case (Cons v vs)
  then obtain ps where "traverse (\<lambda>input. and_then (scalar input k) (\<lambda>s. parseFilterValue s f)) (map JStr vs) = Inr ps" "map prim_text ps = vs"
    by auto
  moreover obtain p where "parseFilterValue v f = Inr p" "prim_text p = v" using Cons.prems by auto
  ultimately show ?case by auto
qed simp

lemma find_key:
  assumes "distinct (map f_key fs)" and "f \<in> set fs"
  shows "List.find (\<lambda>d. f_key d = f_key f) fs = Some f"
  using assms by (induction fs) (auto simp: image_iff)

lemma parse_entry:
  assumes "served_schema fs" and "slug \<noteq> []" and "(k, vs) \<in> set (readFilters params fs)"
    and "value = (case vs of [] \<Rightarrow> JUndef | [v] \<Rightarrow> JStr v | vs \<Rightarrow> JArr (map JStr vs))"
  shows "\<exists>ps. parseFilterEntry (Some slug) fs (k, value) = Inr (k, ps) \<and> map prim_text ps = vs"
proof -
  have d: "distinct (map f_key fs)" using assms(1) by (simp add: served_schema_def)
  obtain f where f: "f \<in> set fs" "f_key f = k" "vs = js_set (picked params f)" "vs \<noteq> []"
    using readFilters_props(2) [OF d assms(3)] by blast
  have sf: "served_filter f" using assms(1) f(1) by (auto simp: served_schema_def list_all_iff)
  have "\<exists>p. parseFilterValue v f = Inr p \<and> prim_text p = v" if "v \<in> set vs" for v
    using parse_picked [OF sf] that f(3) by simp
  then obtain ps where ps: "traverse (\<lambda>input. and_then (scalar input k) (\<lambda>s. parseFilterValue s f)) (map JStr vs) = Inr ps"
    "map prim_text ps = vs" using parse_texts [of vs f k] by blast
  have "(case value of JArr ws \<Rightarrow> ws | v \<Rightarrow> [v]) = map JStr vs"
    using f(4) by (cases vs; cases "tl vs") (simp_all add: assms(4))
  then show ?thesis
    using ps assms(2) find_key [OF d f(1)] by (auto simp: parseFilterEntry_def truthy_str_def f(2))
qed

lemma parse_raw_filters:
  assumes "served_schema fs" and "slug \<noteq> []"
    and "\<And>k v. (k, v) \<in> set entries \<Longrightarrow> \<exists>vs. (k, vs) \<in> set (readFilters params fs) \<and>
       v = (case vs of [] \<Rightarrow> JUndef | [v] \<Rightarrow> JStr v | vs \<Rightarrow> JArr (map JStr vs))"
  shows "\<exists>ys. traverse (parseFilterEntry (Some slug) fs) entries = Inr ys \<and> js_keys ys = js_keys entries \<and>
     set (as_texts ys) \<subseteq> set (readFilters params fs)"
  using assms(3)
proof (induction entries)
  case (Cons e es)
  obtain k v where e: "e = (k, v)" by (cases e)
  obtain vs where vs: "(k, vs) \<in> set (readFilters params fs)" "v = (case vs of [] \<Rightarrow> JUndef | [v] \<Rightarrow> JStr v | vs \<Rightarrow> JArr (map JStr vs))"
    using Cons.prems [of k v] e by auto
  obtain ps where "parseFilterEntry (Some slug) fs (k, v) = Inr (k, ps)" "map prim_text ps = vs"
    using parse_entry [OF assms(1,2) vs] by blast
  moreover obtain ys where "traverse (parseFilterEntry (Some slug) fs) es = Inr ys" "js_keys ys = js_keys es" "set (as_texts ys) \<subseteq> set (readFilters params fs)"
    using Cons.IH [OF Cons.prems] by auto
  ultimately show ?case using vs(1) by (auto simp: e as_texts_def)
qed (simp add: as_texts_def)

text \<open>C7: A category page never sends a request the backend refuses: whatever is in the address, the
  query of a page of the list is parsed, with the category and the sort of the page, at most 24
  products from the offset asked for, and exactly the filters read from the address.\<close>

theorem category_pages_are_never_refused:
  assumes "delivers received" and "served_schema fs" and "slug \<noteq> []" and "trim slug = slug"
    and "int offset \<le> max_safe_integer"
    and "length (toSearchParams (page_query (category_query slug params fs) offset)) \<le> 1000"
  shows "\<exists>q. parseProductQuery (received (toSearchParams (page_query (category_query slug params fs) offset))) fs = Inr q \<and>
     q_category q = Some slug \<and> q_search q = None \<and> q_sort q = Some (readSort params) \<and>
     q_limit q = Some 24 \<and> q_offset q = Some (int offset) \<and>
     distinct (js_keys (q_filters q)) \<and> set (as_texts (q_filters q)) = set (readFilters params fs)"
proof -
  let ?F = "readFilters params fs" and ?ps = "toSearchParams (page_query (category_query slug params fs) offset)"
  let ?enc = "\<lambda>vs. case vs of [] \<Rightarrow> JUndef | [v] \<Rightarrow> JStr v | vs \<Rightarrow> JArr (map JStr vs)"
  define raw where "raw = received ?ps"
  have d: "distinct (map f_key fs)" using assms(2) by (simp add: served_schema_def)
  note F = readFilters_props [OF d, where params = params]
  have std: "set (js_keys ?F) \<inter> set standardKeys = {}"
    using F(2) assms(2) by (fastforce simp: served_schema_def served_filter_def list_all_iff)
  note ps = category_request [OF assms(3) std, of offset]
  have raw: "distinct (js_keys raw)" "set (js_keys raw) = set (js_keys ?ps)" "obj_get raw k = ?enc (params_getAll ?ps k)" for k
    using assms(1,6) by (auto simp: delivers_def raw_def)
  have none: "map_of ?F k = None" if "k \<in> set standardKeys" for k
    using std that by (auto simp: map_of_eq_None_iff)
  have all: "params_getAll ?ps k = (if k = la ''category'' then [slug] else []) @ nullish (map_of ?F k) [] @
      (if k = la ''sort'' then [sort_text (readSort params)] else []) @
      (if k = la ''limit'' then [show_nat 24] else []) @ (if k = la ''offset'' then [show_nat (int offset)] else [])" for k
    unfolding ps by (simp add: getAll_append getAll_Cons getAll_flat [OF F(1)])
  have ne: "la ''category'' \<noteq> la ''sort''" "la ''category'' \<noteq> la ''limit''" "la ''category'' \<noteq> la ''offset''" "la ''search'' \<noteq> la ''category''"
    "la ''search'' \<noteq> la ''sort''" "la ''search'' \<noteq> la ''limit''" "la ''search'' \<noteq> la ''offset''"
    "la ''limit'' \<noteq> la ''sort''" "la ''offset'' \<noteq> la ''sort''" "la ''offset'' \<noteq> la ''limit''" by (simp_all add: la_def)
  have keys: "la ''category'' \<in> set standardKeys" "la ''search'' \<in> set standardKeys" "la ''sort'' \<in> set standardKeys"
    "la ''limit'' \<in> set standardKeys" "la ''offset'' \<in> set standardKeys" by (simp_all add: standardKeys_def)
  have got: "obj_get raw (la ''category'') = JStr slug" "obj_get raw (la ''search'') = JUndef"
    "obj_get raw (la ''sort'') = JStr (sort_text (readSort params))" "obj_get raw (la ''limit'') = JStr (show_nat 24)"
    "obj_get raw (la ''offset'') = JStr (show_nat (int offset))"
    unfolding raw(3) all using none keys ne by (simp_all add: ne [symmetric])
  define entries where "entries = filter (\<lambda>e. fst e \<notin> set standardKeys) raw"
  have entry: "\<exists>vs. (k, vs) \<in> set ?F \<and> v = ?enc vs" if e: "(k, v) \<in> set entries" for k v
  proof -
    have kv: "(k, v) \<in> set raw" "k \<notin> set standardKeys" using e by (auto simp: entries_def)
    have neq: "k \<noteq> la ''category''" "k \<noteq> la ''sort''" "k \<noteq> la ''limit''" "k \<noteq> la ''offset''" using kv(2) keys by metis+
    have "k \<in> set (js_keys raw)" using kv(1) by (metis fst_conv image_eqI list.set_map)
    then have k: "k \<in> set (js_keys (flat ?F))" using neq unfolding raw(2) ps by simp
    then obtain vs where "(k, vs) \<in> set ?F" unfolding keys_flat by blast
    then have vs: "(k, vs) \<in> set ?F" "map_of ?F k = Some vs" using F(1) by (simp_all add: map_of_eq_Some_iff)
    have "map_of raw k = Some v" using raw(1) kv(1) by (rule map_of_is_SomeI)
    then have "v = obj_get raw k" by (simp add: obj_get_def)
    also have "\<dots> = ?enc vs" unfolding raw(3) all using neq vs(2) by simp
    finally show ?thesis using vs(1) by blast
  qed
  obtain ys where ys: "traverse (parseFilterEntry (Some slug) fs) entries = Inr ys" "js_keys ys = js_keys entries" "set (as_texts ys) \<subseteq> set ?F"
    using parse_raw_filters [OF assms(2,3) entry] by blast
  have "set ?F \<subseteq> set (as_texts ys)"
  proof
    fix kv assume kv: "kv \<in> set ?F"
    obtain k vs where k: "kv = (k, vs)" by (cases kv)
    have "vs \<noteq> []" using F(2) kv k by blast
    then have "k \<in> set (js_keys (flat ?F))" unfolding keys_flat using kv k by blast
    then have "k \<in> set (js_keys raw)" unfolding raw(2) ps by simp
    moreover have "k \<notin> set standardKeys" using std kv k by force
    ultimately have "k \<in> set (js_keys ys)" unfolding ys(2) entries_def by force
    then obtain ws where "(k, ws) \<in> set (as_texts ys)" by (force simp: as_texts_def)
    then show "kv \<in> set (as_texts ys)" using ys(3) F(1) kv k by (metis eq_key_imp_eq_value subsetD)
  qed
  moreover have "distinct (js_keys ys)" unfolding ys(2) entries_def using raw(1) by (rule distinct_map_filter)
  moreover have "parseProductQuery raw fs = Inr \<lparr>q_category = Some slug, q_search = None, q_sort = Some (readSort params),
      q_limit = Some 24, q_offset = Some (int offset), q_filters = ys\<rparr>"
  proof -
    have "integerParam (JStr (show_nat 24)) (la ''limit'') 1 = Inr (Some 24)"
      using show_nat_digits [of 24] by (simp add: integerParam_exact max_safe_integer_def)
    moreover have "integerParam (JStr (show_nat (int offset))) (la ''offset'') 0 = Inr (Some (int offset))"
      using show_nat_digits [of "int offset"] assms(5) by (simp add: integerParam_exact)
    moreover have "parseSort (sort_text s) = Some s" for s by (cases s) (simp_all add: parseSort_def la_def)
    moreover have "parseFilters (Some slug) fs raw = Inr ys" using ys(1) by (simp add: parseFilters_def entries_def)
    ultimately show ?thesis
      using assms(3,4) by (simp add: parseProductQuery_def optScalar_def got or_undefined_def truthy_str_def)
  qed
  ultimately show ?thesis using ys(3) unfolding raw_def by auto
qed

text \<open>A delivery of parameters as the framework documents it.\<close>

definition as_query :: "params \<Rightarrow> (jstr \<times> jval) list" where
  "as_query ps =
    map (\<lambda>(k, pairs). (k, case map snd pairs of [] \<Rightarrow> JUndef | [v] \<Rightarrow> JStr v | vs \<Rightarrow> JArr (map JStr vs))) (group_by fst ps)"

lemma delivers_as_query: "delivers as_query"
proof -
  have keys: "js_keys (as_query ps) = js_set (js_keys ps)" for ps
    by (simp add: as_query_def comp_def case_prod_unfold flip: keys_group_by)
  have "obj_get (as_query ps) k = (case params_getAll ps k of [] \<Rightarrow> JUndef | [v] \<Rightarrow> JStr v | vs \<Rightarrow> JArr (map JStr vs))" for ps k
  proof -
    have "map_of (as_query ps) k =
        map_option (\<lambda>pairs. case map snd pairs of [] \<Rightarrow> JUndef | [v] \<Rightarrow> JStr v | vs \<Rightarrow> JArr (map JStr vs)) (map_of (group_by fst ps) k)"
      unfolding as_query_def by (subst map_of_map) simp
    moreover have "k \<notin> fst ` set ps \<Longrightarrow> params_getAll ps k = []" by (force simp: params_getAll_def filter_empty_conv)
    ultimately show ?thesis by (auto simp: obj_get_def js_map params_getAll_def)
  qed
  then show ?thesis by (simp add: delivers_def keys)
qed

definition milk_address :: params where
  "milk_address = [(la ''utm_source'', la ''qr''), (la ''volumeMl'', la ''500''), (la ''volumeMl'', la ''7''), (la ''volumeMl'', la ''1000''), (la ''sort'', la ''name_asc'')]"

lemma served_milk: "served_schema (s_filters milkFilters)"
proof -
  have "plain_decimal 500" "plain_decimal 1000" "plain_decimal (5 / 2)" "plain_decimal (16 / 5)"
    unfolding plain_decimal_def by (simp_all add: Ints_numeral)
  then show ?thesis
    by (simp add: served_schema_def served_filter_def milkFilters_def standardKeys_def options_of_def first_type_def num_def la_def)
qed

theorem category_pages_are_never_refused_witness:
  "\<exists>q. parseProductQuery (as_query (toSearchParams (page_query (category_query (la ''milk'') milk_address (s_filters milkFilters)) 48)))
      (s_filters milkFilters) = Inr q \<and>
    q_sort q = Some NameAsc \<and> q_offset q = Some 48 \<and> set (as_texts (q_filters q)) = {(la ''volumeMl'', [la ''500'', la ''1000''])}"
proof -
  have l: "length (toSearchParams (page_query (category_query (la ''milk'') milk_address (s_filters milkFilters)) 48)) \<le> 1000" by code_simp
  have m: "la ''milk'' \<noteq> []" "trim (la ''milk'') = la ''milk''" "int 48 \<le> max_safe_integer" by code_simp+
  have r: "readSort milk_address = NameAsc" "readFilters milk_address (s_filters milkFilters) = [(la ''volumeMl'', [la ''500'', la ''1000''])]"
    by code_simp+
  show ?thesis using category_pages_are_never_refused [OF delivers_as_query served_milk m l] r by auto
qed

section \<open>Lists shown page by page\<close>

lemma pages_after_Suc: "pages_after get (Suc n) = fetch_next get (pages_after get n)"
  by (simp add: pages_after_def)

lemma pages_reached:
  "\<exists>m \<le> n. pages_after (\<lambda>off. take PAGE_SIZE (drop off xs)) n = map (\<lambda>i. take PAGE_SIZE (drop (i * PAGE_SIZE) xs)) [0..<Suc m] \<and>
     (m = n \<or> length xs < Suc m * PAGE_SIZE) \<and> (m = 0 \<or> m * PAGE_SIZE \<le> length xs)"
proof (induction n)
  case 0
  then show ?case by (simp add: pages_after_def)
next
  case (Suc n)
  let ?get = "\<lambda>off. take PAGE_SIZE (drop off xs)" and ?pages = "\<lambda>m. map (\<lambda>i. take PAGE_SIZE (drop (i * PAGE_SIZE) xs)) [0..<Suc m]"
  from Suc obtain m where m: "m \<le> n" "pages_after ?get n = ?pages m" "m = n \<or> length xs < Suc m * PAGE_SIZE" "m = 0 \<or> m * PAGE_SIZE \<le> length xs"
    by blast
  have last: "last (?pages m) = take PAGE_SIZE (drop (m * PAGE_SIZE) xs)" by simp
  have len: "length (?pages m) = Suc m" by simp
  have next_off: "getNextOffset (last (?pages m)) (?pages m) = (if length xs < Suc m * PAGE_SIZE then None else Some (Suc m * PAGE_SIZE))"
    unfolding getNextOffset_def last len by (auto simp: min_def PAGE_SIZE_def)
  show ?case
  proof (cases "length xs < Suc m * PAGE_SIZE")
    case True
    then have "pages_after ?get (Suc n) = ?pages m" by (simp only: pages_after_Suc m(2) fetch_next_def next_off if_True option.case)
    then show ?thesis using True m(1,4) by (intro exI [of _ m]) simp
  next
    case False
    then have "pages_after ?get (Suc n) = ?pages (Suc m)"
      unfolding pages_after_Suc m(2) fetch_next_def next_off by simp
    then show ?thesis using False m(1,3) by (intro exI [of _ "Suc m"]) simp
  qed
qed

lemma concat_pages: "concat (map (\<lambda>i. take k (drop (i * k) xs)) [0..<n]) = take (n * k) xs"
proof (induction n)
  case (Suc n)
  have "take (n * k) xs @ take k (drop (n * k) xs) = take (Suc n * k) xs" by (simp add: take_add [symmetric] add.commute)
  with Suc show ?case by simp
qed simp

text \<open>A list shown page by page loses and repeats nothing: after any number of presses of the button it
  shows the first products of the answer in order, as many pages as were asked for or all there
  are; it stops asking exactly when everything is shown, at the latest after one page more than
  the full ones.\<close>

theorem load_more_shows_everything:
  "concat (pages_after (\<lambda>off. take PAGE_SIZE (drop off xs)) n) = take (Suc n * PAGE_SIZE) xs \<and>
   length (pages_after (\<lambda>off. take PAGE_SIZE (drop off xs)) n) = min (Suc n) (Suc (length xs div PAGE_SIZE)) \<and>
   (getNextOffset (last (pages_after (\<lambda>off. take PAGE_SIZE (drop off xs)) n)) (pages_after (\<lambda>off. take PAGE_SIZE (drop off xs)) n) = None
      \<longleftrightarrow> length xs < Suc n * PAGE_SIZE)"
proof -
  obtain m where m: "m \<le> n"
    "pages_after (\<lambda>off. take PAGE_SIZE (drop off xs)) n = map (\<lambda>i. take PAGE_SIZE (drop (i * PAGE_SIZE) xs)) [0..<Suc m]"
    "m = n \<or> length xs < Suc m * PAGE_SIZE" "m = 0 \<or> m * PAGE_SIZE \<le> length xs"
    using pages_reached [of n xs] by blast
  have mono: "Suc m * PAGE_SIZE \<le> Suc n * PAGE_SIZE" using m(1) by (intro mult_le_mono1) simp
  have P: "0 < PAGE_SIZE" by (simp add: PAGE_SIZE_def)
  have reached: "m \<le> length xs div PAGE_SIZE" using m(4) P by (auto simp: less_eq_div_iff_mult_less_eq)
  have ended: "length xs < Suc m * PAGE_SIZE \<longleftrightarrow> length xs div PAGE_SIZE < Suc m" using P by (simp add: div_less_iff_less_mult)
  have "take (Suc m * PAGE_SIZE) xs = take (Suc n * PAGE_SIZE) xs" using m(3) mono by (metis le_less_trans less_imp_le order.trans take_all)
  moreover have "min (Suc n) (Suc (length xs div PAGE_SIZE)) = Suc m" using m(1,3) reached ended by auto
  moreover have "length xs < Suc m * PAGE_SIZE \<longleftrightarrow> length xs < Suc n * PAGE_SIZE" using m(3) mono by (metis less_le_trans)
  moreover have "getNextOffset (take PAGE_SIZE (drop (m * PAGE_SIZE) xs)) (map (\<lambda>i. take PAGE_SIZE (drop (i * PAGE_SIZE) xs)) [0..<Suc m]) = None
      \<longleftrightarrow> length xs < Suc m * PAGE_SIZE"
    by (auto simp: getNextOffset_def min_def PAGE_SIZE_def)
  moreover have "last (map (\<lambda>i. take PAGE_SIZE (drop (i * PAGE_SIZE) xs)) [0..<Suc m]) = take PAGE_SIZE (drop (m * PAGE_SIZE) xs)" by simp
  ultimately show ?thesis unfolding m(2) by (simp add: concat_pages del: upt_Suc)
qed

section \<open>Languages\<close>

text \<open>Every address leads to a page in a language: the proxy either lets a request through or redirects it,
  keeping its query, to the same page below the preferred language (the root to the catalogue,
  for now; any other address for good), and the redirected request is let through.\<close>

theorem every_address_reaches_a_language:
  "proxy (rq\<lparr>rq_pathname := 47 # s\<rparr>) = NextPage \<or>
   (\<exists>p. proxy (rq\<lparr>rq_pathname := 47 # s\<rparr>) = Redirect p (rq_query rq) (if s = [] then 307 else 308) \<and>
      p = localePath (preferredLanguage rq) (if s = [] then la ''/catalog'' else 47 # s) \<and>
      stripLanguage p = (if s = [] then la ''/catalog'' else 47 # s) \<and>
      proxy (rq\<lparr>rq_pathname := p\<rparr>) = NextPage)"
proof -
  let ?l = "preferredLanguage rq" and ?path = "if s = [] then la ''/catalog'' else 47 # s"
  have pref: "preferredLanguage (rq\<lparr>rq_pathname := x\<rparr>) = ?l" for x by (simp add: preferredLanguage_def split: option.split)
  obtain t where t: "?path = 47 # t" "t \<noteq> []" by (cases "s = []") (simp_all add: la_def)
  have p: "localePath ?l ?path = 47 # lang_code ?l @ ?path" using t by (simp add: localePath_def slash_path)
  have "proxy (rq\<lparr>rq_pathname := localePath ?l ?path\<rparr>) = NextPage"
    using split_localePath [of ?l t] t by (simp add: proxy_def Let_def)
  moreover have "stripLanguage (localePath ?l ?path) = ?path" unfolding t(1) by (rule stripLanguage_localePath)
  moreover have "proxy (rq\<lparr>rq_pathname := 47 # s\<rparr>) = NextPage \<or>
      proxy (rq\<lparr>rq_pathname := 47 # s\<rparr>) = Redirect (localePath ?l ?path) (rq_query rq) (if s = [] then 307 else 308)"
    unfolding p by (auto simp: proxy_def Let_def pref slash_path)
  ultimately show ?thesis by blast
qed

text \<open>The entries of a header that count.\<close>

lemma set_ranked: "set (ranked_entries h) = {e \<in> set (map header_entry (enumerate 0 (split_ch 44 h))). weighs_something (le_q e)}"
  by (auto simp: ranked_entries_def)

lemma find_first:
  "List.find P (map f xs) = Some y \<Longrightarrow> sorted_wrt le xs \<Longrightarrow> \<exists>x \<in> set xs. f x = y \<and> P y \<and> (\<forall>z \<in> set xs. P (f z) \<longrightarrow> z = x \<or> le x z)"
proof (induction xs)
  case (Cons x xs)
  then show ?case by (cases "P (f x)") auto
qed simp

text \<open>The language of a visitor without a cookie is the site's language the header weighs most: it is
  named by an entry of positive weight, no other entry naming a language of the site weighs more,
  and without any such entry the page is Russian.\<close>

theorem preferred_language_weighs_most:
  assumes "rq_cookie rq = None" and "rq_accept rq = Some h"
  shows "(\<exists>e \<in> set (ranked_entries h). isLanguage (le_base e) = Some (preferredLanguage rq) \<and>
       (\<forall>e' \<in> set (ranked_entries h). isLanguage (le_base e') \<noteq> None \<longrightarrow> weight_le (le_q e') (le_q e))) \<or>
     (\<forall>e' \<in> set (ranked_entries h). isLanguage (le_base e') = None) \<and> preferredLanguage rq = Russian"
proof -
  let ?f = "\<lambda>e. isLanguage (le_base e)"
  have pref: "preferredLanguage rq = nullish (languageFromHeader (Some h)) Russian"
    using assms by (simp add: preferredLanguage_def DEFAULT_LANGUAGE_def)
  show ?thesis
  proof (cases "List.find (\<lambda>l. l \<noteq> None) (map ?f (ranked_entries h))")
    case None
    then have none: "\<forall>e \<in> set (ranked_entries h). ?f e = None" by (simp add: find_None_conv)
    have "languageFromHeader (Some h) = None" using None by (simp add: languageFromHeader_def)
    then show ?thesis using none pref by simp
  next
    case (Some y)
    have sorted: "sorted_wrt entry_le (ranked_entries h)" unfolding ranked_entries_def by (rule entries.sorted_js_sort)
    obtain e where e: "e \<in> set (ranked_entries h)" "?f e = y" "y \<noteq> None" "\<forall>z \<in> set (ranked_entries h). ?f z \<noteq> None \<longrightarrow> z = e \<or> entry_le e z"
      using find_first [OF Some sorted] by blast
    have "h \<noteq> []"
    proof
      assume h: "h = []"
      have "ranked_entries [] = [\<lparr>le_base = [], le_q = Fin 1, le_index = 0\<rparr>]" by code_simp
      then show False using e(1-3) unfolding h by (auto simp: isLanguage_def LANGUAGES_def la_def)
    qed
    then have "languageFromHeader (Some h) = y" using Some e(3) by (auto simp: languageFromHeader_def truthy_str_def)
    moreover have "weight_le (le_q z) (le_q e)" if "z \<in> set (ranked_entries h)" "?f z \<noteq> None" for z
    proof -
      have "z = e \<or> entry_le e z" using e(4) that by blast
      then show ?thesis by (cases "le_q e") (auto simp: entry_le_def then_by_def split: if_splits)
    qed
    ultimately show ?thesis using e pref by auto
  qed
qed

definition kazakh_first :: page_request where
  "kazakh_first = \<lparr>rq_pathname = la ''/'', rq_query = [], rq_cookie = None, rq_accept = Some (la ''en-US,en;q=0.9, ru;q=0.5,KK-kz;q=0.7'')\<rparr>"

theorem preferred_language_weighs_most_witness:
  "preferredLanguage kazakh_first = Kazakh \<and> (\<exists>e \<in> set (ranked_entries (the (rq_accept kazakh_first))). isLanguage (le_base e) = Some Kazakh)"
proof -
  have k: "preferredLanguage kazakh_first = Kazakh" by code_simp
  have c: "rq_cookie kazakh_first = None" "rq_accept kazakh_first = Some (la ''en-US,en;q=0.9, ru;q=0.5,KK-kz;q=0.7'')"
    by (simp_all add: kazakh_first_def)
  from preferred_language_weighs_most [OF c] k c(2) show ?thesis by auto
qed

text \<open>Switching the language keeps the page: a path switched to another language is the path of the
  same page in that language, switching back gives it again, it lies in the same section, and it
  does not count as a navigation inside the site.\<close>

theorem switching_language_keeps_the_page:
  "switchLanguagePath (localePath l (47 # s)) m = localePath m (47 # s) \<and>
   switchLanguagePath (switchLanguagePath (localePath l (47 # s)) m) l = localePath l (47 # s) \<and>
   stripLanguage (switchLanguagePath (localePath l (47 # s)) m) = 47 # s \<and>
   navSection (switchLanguagePath (localePath l (47 # s)) m) = navSection (localePath l (47 # s)) \<and>
   track_navigation (track_navigation h (localePath l (47 # s))) (switchLanguagePath (localePath l (47 # s)) m) =
     track_navigation h (localePath l (47 # s))"
  by (auto simp: switchLanguagePath_def stripLanguage_localePath navSection_def track_navigation_def Let_def split: option.splits)

section \<open>The site map over the backend\<close>

text \<open>The published products as the list requests answer them, cheapest first.\<close>

definition published_cards ::
  "jstr \<Rightarrow> (product_where \<Rightarrow> product_row list) \<Rightarrow> (jstr \<Rightarrow> jstr \<Rightarrow> bool) \<Rightarrow> (jstr \<Rightarrow> jstr \<Rightarrow> bool) \<Rightarrow> product_card list" where
  "published_cards sid fetch le_ru le_id =
    map normalizeProduct (js_sort (product_le le_ru le_id (Some PriceAsc))
      (List.map_filter mapProduct (fetch \<lparr>w_snapshot = sid, w_category = None, w_search = None\<rparr>)))"

definition plain_query :: "nat \<Rightarrow> nat \<Rightarrow> client_query" where
  "plain_query limit offset =
    \<lparr>cq_category = None, cq_search = None, cq_filters = [], cq_sort = None, cq_limit = Some limit, cq_offset = Some offset\<rparr>"

text \<open>A list request of the site map, answered by the backend over the database.\<close>

definition backend_page ::
  "(params \<Rightarrow> (jstr \<times> jval) list) \<Rightarrow> (jstr \<Rightarrow> http_error + filter_schema option) \<Rightarrow> jstr option \<Rightarrow>
   (product_where \<Rightarrow> product_row list) \<Rightarrow> (jstr \<Rightarrow> jstr \<Rightarrow> bool) \<Rightarrow> (jstr \<Rightarrow> jstr \<Rightarrow> bool) \<Rightarrow> nat \<Rightarrow> nat \<Rightarrow> product_card list option" where
  "backend_page received findFilters latest fetch le_ru le_id limit offset =
    (case findAll findFilters (prismaFindProducts latest fetch le_ru le_id) (received (toSearchParams (plain_query limit offset))) of
       Inr ps \<Rightarrow> Some ps
     | Inl _ \<Rightarrow> None)"

lemma plain_request: "toSearchParams (plain_query limit offset) = [(la ''limit'', show_nat (int limit)), (la ''offset'', show_nat (int offset))]"
  by (simp add: toSearchParams_def plain_query_def set_some_def append_filters_def or_undefined_def truthy_str_def la_def)

lemma filter_all_standard: "set (js_keys raw) \<subseteq> set standardKeys \<Longrightarrow> filter (\<lambda>e. fst e \<notin> set standardKeys) raw = []"
  by (auto simp: filter_empty_conv)

lemma backend_page_answer:
  assumes "delivers received" and "1 \<le> limit" and "limit \<le> 100" and "int offset \<le> max_safe_integer"
  shows "backend_page received findFilters (Some sid) fetch le_ru le_id limit offset = list_pages (published_cards sid fetch le_ru le_id) limit offset"
proof -
  define raw where "raw = received (toSearchParams (plain_query limit offset))"
  let ?ps = "[(la ''limit'', show_nat (int limit)), (la ''offset'', show_nat (int offset))]"
  have raw: "set (js_keys raw) = set (js_keys ?ps)"
    "obj_get raw k = (case params_getAll ?ps k of [] \<Rightarrow> JUndef | [v] \<Rightarrow> JStr v | vs \<Rightarrow> JArr (map JStr vs))" for k
    using assms(1) by (auto simp: delivers_def raw_def plain_request)
  have got: "obj_get raw (la ''category'') = JUndef" "obj_get raw (la ''search'') = JUndef" "obj_get raw (la ''sort'') = JUndef"
    "obj_get raw (la ''limit'') = JStr (show_nat (int limit))" "obj_get raw (la ''offset'') = JStr (show_nat (int offset))"
    unfolding raw(2) by (simp_all add: params_getAll_def la_def)
  have "integerParam (JStr (show_nat (int limit))) (la ''limit'') 1 = Inr (Some (int limit))"
    using show_nat_digits [of "int limit"] assms(2,3) by (simp add: integerParam_exact max_safe_integer_def)
  moreover have "integerParam (JStr (show_nat (int offset))) (la ''offset'') 0 = Inr (Some (int offset))"
    using show_nat_digits [of "int offset"] assms(4) by (simp add: integerParam_exact)
  moreover have "parseFilters None [] raw = Inr []"
  proof -
    have "set (js_keys raw) \<subseteq> set standardKeys" unfolding raw(1) by (simp add: standardKeys_def)
    then show ?thesis by (simp add: parseFilters_def filter_all_standard)
  qed
  moreover have "parseSort (la ''price_asc'') = Some PriceAsc" by (simp add: parseSort_def)
  ultimately have "parseProductQuery raw [] = Inr \<lparr>q_category = None, q_search = None, q_sort = Some PriceAsc,
      q_limit = Some (int limit), q_offset = Some (int offset), q_filters = []\<rparr>"
    using assms(3) by (simp add: parseProductQuery_def optScalar_def got or_undefined_def truthy_str_def)
  then show ?thesis
    unfolding backend_page_def raw_def [symmetric]
    by (simp add: findAll_def got truthy_str_def prismaFindProducts_def withPublishedSnapshot_def or_undefined_def
        matchesFilters_def slice_page_def published_cards_def list_pages_def drop_map take_map)
qed

lemma all_products_cong:
  "(\<And>offset. offset < MAX_PAGES * SITEMAP_PAGE \<Longrightarrow> get SITEMAP_PAGE offset = get' SITEMAP_PAGE offset) \<Longrightarrow>
   all_products get page ps = all_products get' page ps"
proof (induction get page ps rule: all_products.induct)
  case (1 get page ps)
  let ?w = "min (if page = 0 then 1 else MAX_IN_FLIGHT) (MAX_PAGES - page)"
  show ?case
  proof (cases "page < MAX_PAGES")
    case True
    have "get SITEMAP_PAGE ((page + i) * SITEMAP_PAGE) = get' SITEMAP_PAGE ((page + i) * SITEMAP_PAGE)" if "i < ?w" for i
    proof (rule "1.prems")
      have "page + i < MAX_PAGES" using that True by linarith
      then show "(page + i) * SITEMAP_PAGE < MAX_PAGES * SITEMAP_PAGE" by (simp add: SITEMAP_PAGE_def)
    qed
    then have round: "promise_all (map (\<lambda>i. get SITEMAP_PAGE ((page + i) * SITEMAP_PAGE)) [0..<?w]) =
        promise_all (map (\<lambda>i. get' SITEMAP_PAGE ((page + i) * SITEMAP_PAGE)) [0..<?w])"
      by (intro arg_cong [of _ _ promise_all] map_cong) simp_all
    show ?thesis
    proof (cases "promise_all (map (\<lambda>i. get' SITEMAP_PAGE ((page + i) * SITEMAP_PAGE)) [0..<?w])")
      case None
      show ?thesis
        unfolding all_products.simps [of get page] all_products.simps [of get' page] Let_def round None using True by simp
    next
      case (Some bs)
      have "all_products get (page + ?w) (ps @ fst (take_batches bs)) = all_products get' (page + ?w) (ps @ fst (take_batches bs))"
        if "\<not> snd (take_batches bs)"
        using "1.IH" [OF True refl round [unfolded Some] _ refl that] "1.prems" by (simp add: prod_eq_iff)
      then show ?thesis
        unfolding all_products.simps [of get page] all_products.simps [of get' page] Let_def round Some using True
        by (simp add: case_prod_unfold)
    qed
  next
    case False
    then show ?thesis by (simp add: all_products.simps)
  qed
qed

lemma list_all_concat: "list_all P (concat xss) \<longleftrightarrow> list_all (list_all P) xss"
  by (induction xss) simp_all

definition site_paths :: "category list \<Rightarrow> product_card list \<Rightarrow> jstr list" where
  "site_paths cs ps = [la ''/catalog'', la ''/dashboard''] @ map (\<lambda>c. la ''/collections/'' @ c_slug c) cs @
     map (\<lambda>p. la ''/products/'' @ p_id p) ps"

definition in_all_languages :: "(jstr \<Rightarrow> jstr) \<Rightarrow> jstr \<Rightarrow> jstr list" where
  "in_all_languages absoluteUrl path = map (\<lambda>l. absoluteUrl (localePath l path)) LANGUAGES"

lemma localized_urls: "map se_url (localized absoluteUrl path stamp prio images) = in_all_languages absoluteUrl path"
  by (simp add: localized_def Let_def in_all_languages_def comp_def)

lemma localized_languages:
  "e \<in> set (localized absoluteUrl path stamp prio images) \<Longrightarrow> js_keys (se_languages e) = map lang_code LANGUAGES @ [la ''x-default''] \<and>
    set (in_all_languages absoluteUrl path) = set (js_values (se_languages e)) \<and> se_url e \<in> set (js_values (se_languages e))"
  by (auto simp: localized_def Let_def hreflangPaths_def in_all_languages_def LANGUAGES_def DEFAULT_LANGUAGE_def)

text \<open>The site map over a published catalogue can always be built and lists, in every language, the start
  page, the dashboard, every category and every published product the API shows, up to the first
  five thousand, in the order of the catalogue; every entry links the same page in all languages,
  itself included. Nothing else is listed.\<close>

theorem sitemap_lists_every_page:
  assumes "delivers received"
  shows "\<exists>es. sitemap absoluteUrl (Some cs) (Some stamp) (backend_page received findFilters (Some sid) fetch le_ru le_id) = Some es \<and>
     map se_url es = concat (map (in_all_languages absoluteUrl) (site_paths cs (take 5000 (published_cards sid fetch le_ru le_id)))) \<and>
     list_all (\<lambda>e. js_keys (se_languages e) = [la ''ru'', la ''kk'', la ''x-default''] \<and> se_url e \<in> set (js_values (se_languages e))) es"
proof -
  let ?ps = "take 5000 (published_cards sid fetch le_ru le_id)"
  have "allProducts (backend_page received findFilters (Some sid) fetch le_ru le_id) = allProducts (list_pages (published_cards sid fetch le_ru le_id))"
    unfolding allProducts_def
    by (intro all_products_cong backend_page_answer assms) (simp_all add: SITEMAP_PAGE_def MAX_PAGES_def max_safe_integer_def)
  also have "\<dots> = Some ?ps" by (simp add: allProducts_pages MAX_PAGES_def SITEMAP_PAGE_def)
  finally have all: "allProducts (backend_page received findFilters (Some sid) fetch le_ru le_id) = Some ?ps" .
  have keys: "map lang_code LANGUAGES @ [la ''x-default''] = [la ''ru'', la ''kk'', la ''x-default'']" by (simp add: LANGUAGES_def)
  have "list_all (\<lambda>e. js_keys (se_languages e) = [la ''ru'', la ''kk'', la ''x-default''] \<and> se_url e \<in> set (js_values (se_languages e)))
      (localized absoluteUrl path st prio images)" for path st prio images
    using localized_languages [of _ absoluteUrl path st prio images] unfolding keys by (simp add: list_all_iff)
  then show ?thesis
    by (simp add: sitemap_def all site_paths_def localized_urls map_concat comp_def list_all_concat list.pred_map list.pred_True)
qed

definition one_row :: product_row where
  "one_row = \<lparr>pr_id = la ''p1'', pr_name = la ''Milk'', pr_brand = None, pr_catSlug = la ''milk'', pr_catName = la ''Milk'', pr_imageUrl = None,
     pr_attributes = JNull, pr_offers = [\<lparr>or_store = DINA, or_storeName = la ''Dina'', or_price = 500, or_oldPrice = None, or_inStock = True, or_snapshotAt = 0\<rparr>]\<rparr>"

theorem sitemap_lists_every_page_witness:
  "\<exists>es. sitemap (\<lambda>p. p) (Some []) (Some []) (backend_page as_query (\<lambda>_. Inr None) (Some []) (\<lambda>_. [one_row]) (\<le>) (\<le>)) = Some es \<and>
     map se_url es = [la ''/ru/catalog'', la ''/kk/catalog'', la ''/ru/dashboard'', la ''/kk/dashboard'', la ''/ru/products/p1'', la ''/kk/products/p1'']"
proof -
  obtain c where c: "mapProduct one_row = Some c"
    using mapProduct_None [of one_row] by (cases "mapProduct one_row") (auto simp: one_row_def usableRow_def)
  then have i: "p_id c = la ''p1''" using mapProduct_Some(2) [OF c] by (simp add: one_row_def)
  have "published_cards [] (\<lambda>_. [one_row]) (\<le>) (\<le>) = [normalizeProduct c]" by (simp add: published_cards_def c List.map_filter_simps)
  then have p: "concat (map (in_all_languages (\<lambda>p. p)) (site_paths [] (take 5000 (published_cards [] (\<lambda>_. [one_row]) (\<le>) (\<le>))))) =
      [la ''/ru/catalog'', la ''/kk/catalog'', la ''/ru/dashboard'', la ''/kk/dashboard'', la ''/ru/products/p1'', la ''/kk/products/p1'']"
    by (simp add: i site_paths_def in_all_languages_def LANGUAGES_def localePath_def la_def)
  show ?thesis
    by (rule exE [OF sitemap_lists_every_page [OF delivers_as_query, of "\<lambda>p. p" "[]" "[]" "\<lambda>_. Inr None" "[]" "\<lambda>_. [one_row]" "(\<le>)" "(\<le>)"]],
        elim conjE, intro exI conjI, assumption, simp only: p)
qed

end
