(* ===== verification/Compare.thy ===== *)
theory Compare
  imports Browse Dashboard
begin

text \<open>
  What the site makes of prices (\<open>frontend/src/lib\<close>): offers and discounts (\<open>offers.ts\<close>), baskets
  (\<open>baskets.ts\<close>, \<open>basketText.ts\<close>), shops on the map (\<open>stores.ts\<close>), the age of the prices (\<open>freshness.ts\<close>),
  attribute values (\<open>attributes.ts\<close>), and the numbers of \<open>ProductCard.tsx\<close>, \<open>ProductPage.tsx\<close> and
  \<open>DashboardPage.tsx\<close>. Number formats and translations are parameters.
\<close>

section \<open>Double precision\<close>

text \<open>
  A discount is computed in binary floating point and rounded down, so it is modelled with the
  rounding of every operation: to the nearest number of 53 bits, ties to even, in the range
  without under- or overflow.
\<close>

function bits :: "int \<Rightarrow> nat" where
  "bits n = (if n \<le> 0 then 0 else Suc (bits (n div 2)))"
  by pat_completeness auto
termination
  by (relation "measure nat") auto

declare bits.simps [simp del]

definition pow2 :: "int \<Rightarrow> rat" where
  "pow2 e = (if 0 \<le> e then 2 ^ nat e else 1 / 2 ^ nat (- e))"

text \<open>The exponent of the leading bit.\<close>

definition binade :: "rat \<Rightarrow> int" where
  "binade q =
    (let (a, b) = quotient_of q; e = int (bits a) - int (bits b)
     in if pow2 e \<le> q then e else e - 1)"

definition round_even :: "rat \<Rightarrow> int" where
  "round_even x =
    (let n = \<lfloor>x\<rfloor>; r = x - of_int n
     in if r < 1 / 2 \<or> r = 1 / 2 \<and> even n then n else n + 1)"

definition double :: "rat \<Rightarrow> rat" where
  "double q =
    (if q = 0 then 0
     else let u = pow2 (binade \<bar>q\<bar> - 52) in (if q < 0 then - 1 else 1) * of_int (round_even (\<bar>q\<bar> / u)) * u)"

section \<open>Offers\<close>

definition sortOffers :: "offer list \<Rightarrow> offer list" where
  "sortOffers offers = js_sort (\<lambda>a b. o_price a \<le> o_price b) offers"

definition savingOf :: "offer list \<Rightarrow> (int \<times> jstr) option" where
  "savingOf offers =
    (if length offers < 2 then None
     else let ordered = sortOffers offers; top_offer = last ordered; amount = o_price top_offer - o_price (hd ordered)
       in if amount > 0 then Some (amount, o_storeName top_offer) else None)"

definition topOffers :: "offer list \<Rightarrow> nat \<Rightarrow> offer list \<times> nat \<times> int" where
  "topOffers offers limit =
    (let ordered = sortOffers offers
     in (take limit ordered, length ordered - limit, if ordered \<noteq> [] then o_price (last ordered) else 0))"

definition discountPercent :: "offer option \<Rightarrow> int option" where
  "discountPercent x =
    (case Option.bind x o_oldPrice of
       None \<Rightarrow> None
     | Some oldPrice \<Rightarrow>
         if oldPrice = 0 \<or> oldPrice \<le> o_price (the x) then None
         else let percent = \<lfloor>double (double (of_int (oldPrice - o_price (the x)) / of_int oldPrice) * 100)\<rfloor>
           in if percent \<ge> 1 then Some percent else None)"

definition OFFERS_SHOWN :: nat where
  "OFFERS_SHOWN = 3"

text \<open>The old price a card strikes out: that of its best offer, when it is higher.\<close>

definition struck_price :: "offer option \<Rightarrow> int option" where
  "struck_price best =
    (case Option.bind best o_oldPrice of None \<Rightarrow> None | Some p \<Rightarrow> if p > o_price (the best) then Some p else None)"

record card_prices =
  cp_shown :: "(offer \<times> bool) list"   \<comment> \<open>with whether it is marked as the best\<close>
  cp_hidden :: nat
  cp_maxPrice :: int
  cp_oldPrice :: "int option"
  cp_discount :: "int option"
  cp_saving :: "(int \<times> jstr) option"

definition hd_option :: "'a list \<Rightarrow> 'a option" where
  "hd_option xs = (case xs of [] \<Rightarrow> None | x # _ \<Rightarrow> Some x)"

definition productCard :: "product_card \<Rightarrow> card_prices" where
  "productCard p =
    (let (shown, hidden, maxPrice) = topOffers (p_offers p) OFFERS_SHOWN;
         best = hd_option shown; compared = length (p_offers p) > 1
     in \<lparr>cp_shown = map (\<lambda>x. (x, compared \<and> o_price x = p_minPrice p)) shown,
         cp_hidden = hidden, cp_maxPrice = maxPrice, cp_oldPrice = struck_price best,
         cp_discount = discountPercent best, cp_saving = savingOf (p_offers p)\<rparr>)"

definition OFFERS_VISIBLE :: nat where
  "OFFERS_VISIBLE = 5"

text \<open>The rows of the offers on a product's page: the offer, whether it is the best, and how much dearer it is.\<close>

definition offer_rows :: "product_card \<Rightarrow> bool \<Rightarrow> (offer \<times> bool \<times> int) list" where
  "offer_rows p expanded =
    (let offers = sortOffers (p_offers p); compared = length offers > 1
     in map (\<lambda>x. (x, compared \<and> o_price x = p_minPrice p, o_price x - p_minPrice p))
          (if expanded then offers else take OFFERS_VISIBLE offers))"

section \<open>Baskets\<close>

record basket_summary = basket +
  bs_missing :: nat
  bs_empty :: bool
  bs_best :: bool
  bs_overBest :: "int option"

definition missing_items :: "basket \<Rightarrow> nat" where
  "missing_items b = length (filter (\<lambda>i. i_price i = None) (k_items b))"

definition basket_rank :: "basket \<Rightarrow> nat" where
  "basket_rank b = (if missing_items b = length (k_items b) then 2 else if missing_items b > 0 then 1 else 0)"

definition basket_le :: "basket \<Rightarrow> basket \<Rightarrow> bool" where
  "basket_le = then_by (\<lambda>a b. basket_rank a \<le> basket_rank b) (\<lambda>a b. k_total a \<le> k_total b)"

text \<open>\<open>b === best\<close> compares the objects, so the best basket is a position in the sorted list.\<close>

definition best_position :: "basket list \<Rightarrow> nat option" where
  "best_position bs = List.find (\<lambda>i. missing_items (bs ! i) = 0) [0..<length bs]"

definition summary_of :: "basket list \<Rightarrow> nat \<Rightarrow> basket_summary" where
  "summary_of bs i =
    (let b = bs ! i; best = best_position bs
     in basket.extend b
          \<lparr>bs_missing = missing_items b, bs_empty = (missing_items b = length (k_items b)), bs_best = (best = Some i),
           bs_overBest = (case best of
              None \<Rightarrow> None
            | Some j \<Rightarrow> if i \<noteq> j \<and> missing_items b = 0 then Some (k_total b - k_total (bs ! j)) else None)\<rparr>)"

definition summarizeBaskets :: "basket list \<Rightarrow> basket_summary list" where
  "summarizeBaskets baskets = (let bs = js_sort basket_le baskets in map (summary_of bs) [0..<length bs])"

definition basketLine :: "(int \<Rightarrow> jstr) \<Rightarrow> (jstr \<Rightarrow> jstr \<Rightarrow> jstr) \<Rightarrow> basket_summary \<Rightarrow> jstr" where
  "basketLine formatPrice t b =
    (if bs_empty b then t (la ''dashboard.basketOnMapNoData'') []
     else let line = t (la ''dashboard.basketOnMap'') (formatPrice (k_total b))
       in if bs_missing b > 0 then line @ [32, 183, 32] @ t (la ''dashboard.basketIncomplete'') [] else line)"

section \<open>Shops on the map\<close>

fun store_code_text :: "store_code \<Rightarrow> jstr" where
  "store_code_text DINA = la ''DINA''"
| "store_code_text DANA = la ''DANA''"
| "store_code_text FIX_PRICE = la ''FIX_PRICE''"

definition STORE_COLORS :: "(jstr \<times> jstr) list" where
  "STORE_COLORS = [(la ''DINA'', la ''#2a78d6''), (la ''DANA'', la ''#eb6834''), (la ''FIX_PRICE'', la ''#4a3aa7'')]"

definition FALLBACK_COLOR :: jstr where
  "FALLBACK_COLOR = la ''#697178''"

definition storeColor :: "jstr \<Rightarrow> jstr" where
  "storeColor c = nullish (map_of STORE_COLORS c) FALLBACK_COLOR"

definition locationKey :: "location \<Rightarrow> jstr" where
  "locationKey l = store_code_text (l_store l) @ [58] @ l_address l"

record store_group =
  sg_store :: store_code
  sg_storeName :: jstr
  sg_locations :: "location list"

definition groupByStore :: "location list \<Rightarrow> store_group list" where
  "groupByStore locations =
    map (\<lambda>(c, ls). \<lparr>sg_store = c, sg_storeName = l_storeName (hd ls), sg_locations = ls\<rparr>) (group_by l_store locations)"

section \<open>Age, attributes and the figures of the dashboard\<close>

definition STALE_AFTER_HOURS :: int where
  "STALE_AFTER_HOURS = 36"

definition isPriceStale :: "(jstr \<Rightarrow> int option) \<Rightarrow> jstr \<Rightarrow> int \<Rightarrow> bool" where
  "isPriceStale parse_date snapshotAt now =
    (case parse_date snapshotAt of
       None \<Rightarrow> False
     | Some t \<Rightarrow> let age = now - t in age > 0 \<and> age > STALE_AFTER_HOURS * 3600000)"

datatype unit_kind = Volume | Weight | Percent | Pieces

definition unitOf :: "jstr \<Rightarrow> unit_kind option" where
  "unitOf key =
    (if ends_with key (la ''Ml'') then Some Volume
     else if ends_with key (la ''Grams'') then Some Weight
     else if ends_with key (la ''Percent'') then Some Percent
     else if key = la ''count'' \<or> ends_with key (la ''Count'') then Some Pieces
     else None)"

text \<open>The text of a number takes the number format and the words for the units from outside; \<open>NaN\<close> and the infinities never reach it.\<close>

definition formatAttributeValue :: "(rat \<Rightarrow> jstr) \<Rightarrow> (jstr \<Rightarrow> jstr) \<Rightarrow> jstr \<Rightarrow> prim \<Rightarrow> jstr" where
  "formatAttributeValue fmt t key v =
    (case v of
       PBool b \<Rightarrow> t (if b then la ''attr.yes'' else la ''attr.no'')
     | PStr s \<Rightarrow> s
     | PNum (Fin q) \<Rightarrow>
         (case unitOf key of
            Some Volume \<Rightarrow> if q \<ge> 1000 then fmt (q / 1000) @ [32] @ t (la ''units.l'') else fmt q @ [32] @ t (la ''units.ml'')
          | Some Weight \<Rightarrow> if q \<ge> 1000 then fmt (q / 1000) @ [32] @ t (la ''units.kg'') else fmt q @ [32] @ t (la ''units.g'')
          | Some Percent \<Rightarrow> fmt q @ [37]
          | Some Pieces \<Rightarrow> fmt q @ [32] @ t (la ''units.pcs'')
          | None \<Rightarrow> fmt q)
     | PNum n \<Rightarrow> prim_text (PNum n))"

text \<open>The rows of a product's attributes: what the schema names and the product knows.\<close>

definition attribute_rows :: "filter_def list \<Rightarrow> product_card \<Rightarrow> (jstr \<times> jstr \<times> prim) list" where
  "attribute_rows filters p =
    List.map_filter (\<lambda>f. case map_of (p_attributes p) (f_key f) of
        Some (Some v) \<Rightarrow> Some (f_key f, f_label f, v) | _ \<Rightarrow> None) filters"

definition matchedShare :: "int \<Rightarrow> int \<Rightarrow> rat" where
  "matchedShare canonicalProducts matched =
    (if canonicalProducts > 0 then of_int matched / of_int canonicalProducts * 100 else 0)"

definition shown_baskets :: "basket list option \<Rightarrow> basket_summary list" where
  "shown_baskets bs = (case bs of None \<Rightarrow> [] | Some xs \<Rightarrow> if xs = [] then [] else summarizeBaskets xs)"

end
