(* ===== verification/CompareProperties.thy ===== *)
theory CompareProperties
  imports Compare Fixtures
begin

text \<open>
  The properties of what the site makes of prices: discounts as they are computed in binary
  floating point, the offers of a card, and the comparison of the baskets.
\<close>

section \<open>Rounding to a double\<close>

lemma bits_bounds: "0 < n \<Longrightarrow> 2 ^ (bits n - 1) \<le> n \<and> n < 2 ^ bits n \<and> 0 < bits n"
proof (induction n rule: bits.induct)
  case (1 n)
  show ?case
  proof (cases "n div 2 \<le> 0")
    case True
    then have "n = 1" using 1(2) by linarith
    moreover have "bits 1 = 1" by (simp add: bits.simps [of 1] bits.simps [of 0])
    ultimately show ?thesis by simp
  next
    case False
    then have IH: "2 ^ (bits (n div 2) - 1) \<le> n div 2" "n div 2 < 2 ^ bits (n div 2)" "0 < bits (n div 2)" using 1 by auto
    have b: "bits n = Suc (bits (n div 2))" using 1(2) by (simp add: bits.simps [of n])
    obtain k where k: "bits (n div 2) = Suc k" using IH(3) by (cases "bits (n div 2)") auto
    show ?thesis using IH(1,2) unfolding b k by auto
  qed
qed

lemma pow2_pos: "0 < pow2 e"
  by (simp add: pow2_def)

lemma pow2_add: "pow2 (a + b) = pow2 a * pow2 b"
proof -
  have "pow2 e = 2 powi e" for e by (simp add: pow2_def power_int_def inverse_eq_divide power_one_over)
  then show ?thesis by (simp add: power_int_add)
qed

lemma pow2_binade_le:
  assumes "0 < q"
  shows "pow2 (binade q) \<le> q"
proof -
  obtain a b where ab: "quotient_of q = (a, b)" by (cases "quotient_of q")
  have b: "0 < b" and q: "q = of_int a / of_int b"
    using quotient_of_denom_pos [OF ab] quotient_of_div [OF ab] by auto
  then have a: "0 < a" using assms by (simp add: zero_less_divide_iff)
  let ?x = "bits a" and ?y = "bits b" and ?e = "int (bits a) - int (bits b)"
  have "2 ^ (?x - 1) \<le> a" "b \<le> 2 ^ ?y" and xp: "0 < ?x" using bits_bounds [of a] bits_bounds [of b] a b by auto
  then have "of_int (2 ^ (?x - 1)) \<le> (of_int a :: rat)" "of_int b \<le> (of_int (2 ^ ?y) :: rat)" by (simp_all only: of_int_le_iff)
  then have x: "(2::rat) ^ (?x - 1) \<le> of_int a" and y: "of_int b \<le> (2::rat) ^ ?y" by simp_all
  have "pow2 (?e - 1) * 2 ^ ?y = 2 ^ (?x - 1)"
  proof -
    have "pow2 (?e - 1) * 2 ^ ?y = pow2 (?e - 1) * pow2 (int ?y)" by (simp add: pow2_def)
    also have "\<dots> = pow2 (?e - 1 + int ?y)" by (rule pow2_add [symmetric])
    also have "?e - 1 + int ?y = int (?x - 1)" using xp by simp
    finally show ?thesis by (simp add: pow2_def)
  qed
  then have "pow2 (?e - 1) * of_int b \<le> of_int a"
    using x y pow2_pos [of "?e - 1"] by (metis mult_left_mono less_imp_le order_trans)
  then have "pow2 (?e - 1) \<le> q" using b by (simp add: q pos_le_divide_eq)
  then show ?thesis by (simp add: binade_def ab Let_def)
qed

lemma round_even_near: "\<bar>of_int (round_even x) - x\<bar> \<le> 1 / 2"
proof -
  have f: "0 \<le> x - of_int \<lfloor>x\<rfloor>" "x - of_int \<lfloor>x\<rfloor> < 1" by linarith+
  show ?thesis unfolding round_even_def Let_def using f by (simp split: if_splits)
qed

text \<open>The relative error of an operation is at most half a unit of the last of the 53 bits.\<close>

definition ulp :: rat where
  "ulp = 1 / 2 ^ 53"

lemma double_near:
  assumes "0 \<le> q"
  shows "\<bar>double q - q\<bar> \<le> q * ulp"
proof (cases "q = 0")
  case False
  then have q: "0 < q" using assms by simp
  let ?u = "pow2 (binade q - 52)"
  have u: "0 < ?u" by (rule pow2_pos)
  have "double q - q = (of_int (round_even (q / ?u)) - q / ?u) * ?u"
    using q u by (simp add: double_def Let_def left_diff_distrib)
  then have "\<bar>double q - q\<bar> \<le> ?u / 2"
    using mult_right_mono [OF round_even_near [of "q / ?u"], of ?u] u by (simp add: abs_mult)
  also have "?u = pow2 (binade q) * pow2 (- 52)" by (simp flip: pow2_add)
  also have "\<dots> / 2 = pow2 (binade q) * ulp" by (simp add: pow2_def ulp_def)
  also have "\<dots> \<le> q * ulp" using pow2_binade_le [OF q] by (intro mult_right_mono) (simp_all add: ulp_def)
  finally show ?thesis .
qed (simp add: double_def)

lemma double_nonneg: "0 \<le> q \<Longrightarrow> 0 \<le> double q"
proof -
  assume q: "0 \<le> q"
  have "q * ulp \<le> q * 1" using q by (intro mult_left_mono) (simp_all add: ulp_def)
  then show ?thesis using double_near [OF q] by linarith
qed

section \<open>Discounts\<close>

text \<open>The computed percentage is within \<open>2 ^ -31\<close> of the exact one.\<close>

lemma percent_near:
  assumes "0 \<le> p" and "p \<le> 1"
  shows "\<bar>double (double p * 100) - 100 * p\<bar> < 1 / 2 ^ 31"
proof -
  let ?x = "double p"
  have u: "0 < ulp" by (simp add: ulp_def)
  have "p * ulp \<le> ulp" using assms(2) u by simp
  then have x: "\<bar>?x - p\<bar> \<le> ulp" using double_near [OF assms(1)] by linarith
  moreover have "ulp \<le> 1" by (simp add: ulp_def)
  ultimately have "?x \<le> 2" using assms(2) by linarith
  moreover have "0 \<le> ?x" using assms(1) by (rule double_nonneg)
  moreover have "?x * 100 * ulp \<le> 200 * ulp" using calculation u by (intro mult_right_mono) simp_all
  ultimately have "\<bar>double (?x * 100) - ?x * 100\<bar> \<le> 200 * ulp"
    using double_near [of "?x * 100"] by linarith
  then have "\<bar>double (?x * 100) - 100 * p\<bar> \<le> 300 * ulp" using x by linarith
  also have "\<dots> < 1 / 2 ^ 31" by (simp add: ulp_def)
  finally show ?thesis .
qed

text \<open>A percentage with a denominator of 31 bits that passes an integer passes it by more than that.\<close>

lemma apart:
  fixes n :: int
  assumes "0 < old" and "old < 2 ^ 31" and "of_int n < (of_int m :: rat) / of_int old"
  shows "of_int n + 1 / 2 ^ 31 < (of_int m :: rat) / of_int old"
proof -
  have o: "(0::rat) < of_int old" using assms(1) by simp
  have "of_int (n * old) < (of_int m :: rat)" using assms(3) o by (simp add: pos_less_divide_eq)
  then have "n * old + 1 \<le> m" by (simp only: of_int_less_iff zless_iff_Suc_zadd) linarith
  then have "of_int (n * old + 1) \<le> (of_int m :: rat)" by (simp only: of_int_le_iff)
  then have "of_int (n * old + 1) / of_int old \<le> (of_int m :: rat) / of_int old" using o by (intro divide_right_mono) simp_all
  moreover have "of_int (n * old + 1) / of_int old = (of_int n + 1 / of_int old :: rat)" using o by (simp add: add_divide_distrib)
  ultimately have "of_int n + 1 / of_int old \<le> (of_int m :: rat) / of_int old" by simp
  moreover have "(1 :: rat) / 2 ^ 31 < 1 / of_int old"
    using assms(1,2) by (intro divide_strict_left_mono) (simp_all flip: of_int_power_less_of_int_cancel_iff)
  ultimately show ?thesis by linarith
qed

text \<open>C31: The discount shown is never more than the true one: for prices that fit the database it is at least
  1 and at most the exact percentage, which it misses by no more than one, and when none is
  shown the price is not reduced by more than 1 percent.\<close>

theorem discount_never_overstated:
  assumes "0 \<le> o_price x" and "o_oldPrice x = Some old" and "o_price x < old" and "old < 2 ^ 31"
  shows "case discountPercent (Some x) of
       Some d \<Rightarrow> 1 \<le> d \<and> of_int d \<le> (of_int (100 * (old - o_price x)) :: rat) / of_int old \<and>
         (of_int (100 * (old - o_price x)) :: rat) / of_int old \<le> of_int d + 1
     | None \<Rightarrow> (of_int (100 * (old - o_price x)) :: rat) / of_int old \<le> 1"
proof -
  define m where "m = 100 * (old - o_price x)"
  let ?p = "(of_int (old - o_price x) :: rat) / of_int old" and ?E = "(of_int m :: rat) / of_int old"
  define y where "y = double (double ?p * 100)"
  have old: "0 < old" using assms(1,3) by simp
  have E: "?E = 100 * ?p" by (simp add: m_def)
  have "0 \<le> ?p" "?p \<le> 1" using assms(1,3) old by (simp_all add: divide_le_eq)
  then have near: "\<bar>y - ?E\<bar> < 1 / 2 ^ 31" unfolding E y_def by (rule percent_near)
  have below: "of_int \<lfloor>y\<rfloor> \<le> ?E"
  proof (rule ccontr)
    assume "\<not> of_int \<lfloor>y\<rfloor> \<le> ?E"
    then have "of_int (- \<lfloor>y\<rfloor>) < (of_int (- m) :: rat) / of_int old" by simp
    from apart [OF old assms(4) this] have "?E + 1 / 2 ^ 31 < of_int \<lfloor>y\<rfloor>" by simp
    then show False using near of_int_floor_le [of y] by linarith
  qed
  have above: "?E \<le> of_int \<lfloor>y\<rfloor> + 1"
  proof (rule ccontr)
    assume "\<not> ?E \<le> of_int \<lfloor>y\<rfloor> + 1"
    then have "of_int (\<lfloor>y\<rfloor> + 1) < ?E" by simp
    from apart [OF old assms(4) this] have "of_int \<lfloor>y\<rfloor> + 1 + 1 / 2 ^ 31 < ?E" by simp
    then show False using near floor_correct [of y] by linarith
  qed
  have "discountPercent (Some x) = (if \<lfloor>y\<rfloor> \<ge> 1 then Some \<lfloor>y\<rfloor> else None)"
    using assms(2,3) old by (simp add: discountPercent_def Let_def y_def)
  moreover have "?E \<le> 1" if "\<not> 1 \<le> \<lfloor>y\<rfloor>"
  proof -
    have "of_int \<lfloor>y\<rfloor> \<le> (0::rat)" using that by simp
    then show ?thesis using above by linarith
  qed
  ultimately show ?thesis using below above unfolding m_def [symmetric] by auto
qed

definition sale :: "int \<Rightarrow> int \<Rightarrow> offer" where
  "sale price old = \<lparr>o_store = DINA, o_storeName = la ''Dina'', o_price = price, o_oldPrice = Some old\<rparr>"

text \<open>The discount from 1000 to 710 is 29 percent exactly, and is shown as 28.\<close>

lemma discount_one_less: "discountPercent (Some (sale 710 1000)) = Some 28"
  by code_simp

theorem discount_never_overstated_witness:
  "discountPercent (Some (sale 710 1000)) = Some 28 \<and> (28 :: rat) \<le> of_int (100 * (1000 - 710)) / of_int 1000"
  using discount_never_overstated [of "sale 710 1000" 1000] discount_one_less by (simp add: sale_def)

section \<open>The prices of a card\<close>

lemma sortOffers_ends:
  assumes "y \<in> set os"
  shows "o_price (hd (sortOffers os)) \<le> o_price y" and "o_price y \<le> o_price (last (sortOffers os))"
proof -
  let ?s = "sortOffers os"
  have y: "y \<in> set ?s" and ne: "?s \<noteq> []" using assms by (auto simp: sortOffers_def)
  have sorted: "sorted_wrt (\<lambda>a b. o_price a \<le> o_price b) ?s" unfolding sortOffers_def by (rule offer_order.sorted_js_sort)
  show "o_price (hd ?s) \<le> o_price y" using y sorted by (cases ?s) auto
  obtain zs z where z: "?s = zs @ [z]" using ne by (metis append_butlast_last_id)
  show "o_price y \<le> o_price (last ?s)" using y sorted unfolding z by (auto simp: sorted_wrt_append)
qed

lemma sortOffers_set [simp]: "set (sortOffers os) = set os" "length (sortOffers os) = length os"
  by (simp_all add: sortOffers_def)

text \<open>A product card tells the truth about its offers: it shows up to three of them, counts the rest, names
  the highest price, marks an offer as the best exactly when there is another to compare with and
  none is cheaper, and the saving it names is the difference between the dearest and the cheapest
  offer, at the shop of the dearest; it names none only when all prices are equal.\<close>

theorem card_tells_the_truth:
  assumes "p = normalizeProduct q" and "p_offers q \<noteq> []"
  shows "length (cp_shown (productCard p)) = min 3 (length (p_offers p)) \<and>
     length (cp_shown (productCard p)) + cp_hidden (productCard p) = length (p_offers p) \<and>
     list_all (\<lambda>(x, best). x \<in> set (p_offers p) \<and>
       (best \<longleftrightarrow> 1 < length (p_offers p) \<and> list_all (\<lambda>y. o_price x \<le> o_price y) (p_offers p))) (cp_shown (productCard p)) \<and>
     list_all (\<lambda>y. o_price y \<le> cp_maxPrice (productCard p)) (p_offers p) \<and>
     (case cp_saving (productCard p) of
        None \<Rightarrow> list_all (\<lambda>y. o_price y = p_minPrice p) (p_offers p)
      | Some (amount, store) \<Rightarrow> 0 < amount \<and> amount = cp_maxPrice (productCard p) - p_minPrice p \<and>
          list_ex (\<lambda>y. o_storeName y = store \<and> o_price y = cp_maxPrice (productCard p)) (p_offers p))"
proof -
  let ?os = "p_offers p" and ?s = "sortOffers (p_offers p)"
  have ne: "?os \<noteq> []" "?s \<noteq> []" using assms by (simp_all add: sortOffers_def)
  have min_in: "p_minPrice p \<in> o_price ` set ?os" and min_le: "\<And>y. y \<in> set ?os \<Longrightarrow> p_minPrice p \<le> o_price y"
    using normalizeProduct_min [OF assms(2)] assms(1) by auto
  have ends: "\<And>y. y \<in> set ?os \<Longrightarrow> o_price (hd ?s) \<le> o_price y" "\<And>y. y \<in> set ?os \<Longrightarrow> o_price y \<le> o_price (last ?s)"
    using sortOffers_ends by blast+
  have mem: "hd ?s \<in> set ?os" "last ?s \<in> set ?os"
    using ne(2) hd_in_set [of ?s] last_in_set [of ?s] by simp_all
  have hd: "o_price (hd ?s) = p_minPrice p" using min_in min_le [OF mem(1)] ends(1) by fastforce
  have best: "o_price x = p_minPrice p \<longleftrightarrow> list_all (\<lambda>y. o_price x \<le> o_price y) ?os" if "x \<in> set ?os" for x
    using min_in min_le that by (fastforce simp: list_all_iff)
  have fields: "cp_shown (productCard p) = map (\<lambda>x. (x, length ?os > 1 \<and> o_price x = p_minPrice p)) (take 3 ?s)"
    "cp_hidden (productCard p) = length ?os - 3" "cp_maxPrice (productCard p) = o_price (last ?s)"
    "cp_saving (productCard p) = savingOf ?os"
    using ne by (simp_all add: productCard_def topOffers_def OFFERS_SHOWN_def Let_def)
  have shown: "list_all (\<lambda>(x, b). x \<in> set ?os \<and> (b \<longleftrightarrow> 1 < length ?os \<and> list_all (\<lambda>y. o_price x \<le> o_price y) ?os)) (cp_shown (productCard p))"
    unfolding fields list.pred_map by (auto simp: list.pred_set best dest!: in_set_takeD)
  have saving: "savingOf ?os = (if o_price (last ?s) > p_minPrice p then Some (o_price (last ?s) - p_minPrice p, o_storeName (last ?s)) else None)"
  proof (cases "length ?os < 2")
    case True
    then obtain z where "?os = [z]" using ne by (cases ?os; cases "tl ?os") auto
    then have "o_price (last ?s) = p_minPrice p" using hd mem by (cases ?s) (auto simp: sortOffers_def)
    then show ?thesis using True by (simp add: savingOf_def)
  qed (simp add: savingOf_def Let_def hd)
  have equal: "o_price y = p_minPrice p" if "y \<in> set ?os" "\<not> o_price (last ?s) > p_minPrice p" for y
    using ends(2) [OF that(1)] min_le [OF that(1)] that(2) by simp
  have len: "length (cp_shown (productCard p)) = min 3 (length ?os)" by (simp add: fields(1))
  moreover have "list_all (\<lambda>y. o_price y \<le> cp_maxPrice (productCard p)) ?os" using ends(2) by (simp add: list_all_iff fields(3))
  moreover have "length (cp_shown (productCard p)) + cp_hidden (productCard p) = length ?os" unfolding len fields(2) by simp
  moreover have "case cp_saving (productCard p) of
        None \<Rightarrow> list_all (\<lambda>y. o_price y = p_minPrice p) ?os
      | Some (amount, store) \<Rightarrow> 0 < amount \<and> amount = cp_maxPrice (productCard p) - p_minPrice p \<and>
          list_ex (\<lambda>y. o_storeName y = store \<and> o_price y = cp_maxPrice (productCard p)) ?os"
    using mem(2) equal unfolding fields(3,4) saving by (auto simp: list_all_iff list_ex_iff)
  ultimately show ?thesis using shown by blast
qed

theorem card_tells_the_truth_witness:
  "case cp_saving (productCard (normalizeProduct (hd fixture_products))) of None \<Rightarrow> False | Some (amount, store) \<Rightarrow> 0 < amount"
proof -
  let ?p = "normalizeProduct (hd fixture_products)"
  have ne: "p_offers (hd fixture_products) \<noteq> []" by (simp add: fixture_products_def)
  have "\<not> list_all (\<lambda>y. o_price y = p_minPrice ?p) (p_offers ?p)" by code_simp
  then show ?thesis using card_tells_the_truth [OF refl ne] by (auto split: option.splits prod.splits)
qed

section \<open>The comparison of the baskets\<close>

interpretation baskets: ranked basket_le
  unfolding basket_le_def by (intro ranked_then_by ranked_key)

definition complete :: "basket_summary \<Rightarrow> bool" where
  "complete s \<longleftrightarrow> bs_missing s = 0"

lemma truncate_summary: "basket.truncate (summary_of bs i) = bs ! i"
  by (simp add: summary_of_def Let_def basket.truncate_def basket.extend_def)

lemma summary_fields:
  "bs_missing (summary_of bs i) = missing_items (bs ! i)" "bs_empty (summary_of bs i) = (missing_items (bs ! i) = length (k_items (bs ! i)))"
  "k_total (summary_of bs i) = k_total (bs ! i)" "bs_best (summary_of bs i) = (best_position bs = Some i)"
  "bs_overBest (summary_of bs i) = (case best_position bs of None \<Rightarrow> None
     | Some j \<Rightarrow> if i \<noteq> j \<and> missing_items (bs ! i) = 0 then Some (k_total (bs ! i) - k_total (bs ! j)) else None)"
  by (simp_all add: summary_of_def Let_def basket.extend_def)

lemma best_position_props:
  assumes "best_position bs = Some j" and "sorted_wrt basket_le bs" and "\<And>b. b \<in> set bs \<Longrightarrow> k_items b \<noteq> []"
  shows "j < length bs" and "missing_items (bs ! j) = 0"
    and "i < length bs \<Longrightarrow> missing_items (bs ! i) = 0 \<Longrightarrow> k_total (bs ! j) \<le> k_total (bs ! i)"
proof -
  have j: "j < length bs" "missing_items (bs ! j) = 0" "\<And>i. i < j \<Longrightarrow> missing_items (bs ! i) \<noteq> 0"
    using assms(1) unfolding best_position_def List.find_Some_iff by auto
  then show "j < length bs" "missing_items (bs ! j) = 0" by simp_all
  assume i: "i < length bs" "missing_items (bs ! i) = 0"
  have rank: "basket_rank (bs ! n) = 0" if "n < length bs" "missing_items (bs ! n) = 0" for n
    using assms(3) [OF nth_mem [OF that(1)]] that(2) by (simp add: basket_rank_def)
  show "k_total (bs ! j) \<le> k_total (bs ! i)"
  proof (cases "i = j")
    case False
    then have "j < i" using j(3) i(2) by (meson linorder_neqE_nat)
    then have "basket_le (bs ! j) (bs ! i)" using assms(2) i(1) by (simp add: sorted_wrt_nth_less)
    then show ?thesis using rank [OF i] rank [OF j(1,2)] by (simp add: basket_le_def then_by_def split: if_splits)
  qed simp
qed

lemma best_position_None: "best_position bs = None \<longleftrightarrow> (\<forall>b \<in> set bs. missing_items b \<noteq> 0)"
  by (auto simp: best_position_def find_None_conv all_set_conv_all_nth)

lemma calculated_items: "b \<in> set (calculateBaskets products stores) \<Longrightarrow> k_items b \<noteq> []"
  by (auto simp: calculateBaskets_def Let_def BASKET_SLOTS_def)

lemma one_position: "length (filter (\<lambda>i. i = j) [0..<n]) = (if j < n then 1 else 0)"
  by (induction n) auto

text \<open>C9: The comparison of the shops' baskets is honest: every basket the backend calculated is listed once,
  complete ones first, then incomplete, then empty ones, by rising total; if any basket is
  complete exactly one is called the best, it is complete and no complete one is cheaper; every other
  complete basket is told how much more it costs than the best, and no other basket is compared.\<close>

theorem basket_comparison_is_honest:
  "mset (map basket.truncate (summarizeBaskets (calculateBaskets products stores))) = mset (calculateBaskets products stores) \<and>
   sorted_wrt (\<lambda>a b. basket_le (basket.truncate a) (basket.truncate b)) (summarizeBaskets (calculateBaskets products stores)) \<and>
   length (filter bs_best (summarizeBaskets (calculateBaskets products stores))) =
     (if list_ex complete (summarizeBaskets (calculateBaskets products stores)) then 1 else 0) \<and>
   list_all (\<lambda>b. bs_best b \<longrightarrow> complete b \<and>
       list_all (\<lambda>s. complete s \<longrightarrow> k_total b \<le> k_total s \<and>
           (bs_overBest s = (if bs_best s then None else Some (k_total s - k_total b))))
         (summarizeBaskets (calculateBaskets products stores)))
     (summarizeBaskets (calculateBaskets products stores)) \<and>
   list_all (\<lambda>s. complete s \<or> bs_overBest s = None) (summarizeBaskets (calculateBaskets products stores))"
proof -
  let ?c = "calculateBaskets products stores"
  define bs where "bs = js_sort basket_le ?c"
  have S: "summarizeBaskets ?c = map (summary_of bs) [0..<length bs]" by (simp add: summarizeBaskets_def Let_def bs_def)
  have sorted: "sorted_wrt basket_le bs" unfolding bs_def by (rule baskets.sorted_js_sort)
  have items: "k_items b \<noteq> []" if "b \<in> set bs" for b using that calculated_items by (simp add: bs_def)
  have trunc: "map basket.truncate (summarizeBaskets ?c) = bs" unfolding S by (simp add: comp_def truncate_summary map_nth)
  have "mset (map basket.truncate (summarizeBaskets ?c)) = mset ?c" unfolding trunc bs_def by simp
  moreover have "sorted_wrt (\<lambda>a b. basket_le (basket.truncate a) (basket.truncate b)) (summarizeBaskets ?c)"
    using sorted unfolding trunc [symmetric] sorted_wrt_map .
  moreover have "length (filter bs_best (summarizeBaskets ?c)) = (if list_ex complete (summarizeBaskets ?c) then 1 else 0)"
  proof (cases "best_position bs")
    case None
    then have "\<not> list_ex complete (summarizeBaskets ?c)"
      unfolding S by (auto simp: list_ex_iff complete_def summary_fields best_position_None)
    then show ?thesis unfolding S by (simp add: filter_map comp_def summary_fields None)
  next
    case (Some j)
    have "list_ex complete (summarizeBaskets ?c)"
      unfolding S list_ex_iff using best_position_props(1,2) [OF Some sorted items] by (auto simp: complete_def summary_fields)
    moreover have "length (filter bs_best (summarizeBaskets ?c)) = length (filter (\<lambda>i. i = j) [0..<length bs])"
    proof -
      have "(bs_best \<circ> summary_of bs) = (\<lambda>i. i = j)" by (auto simp: fun_eq_iff summary_fields Some)
      then show ?thesis unfolding S by (simp add: filter_map)
    qed
    ultimately show ?thesis using best_position_props(1) [OF Some sorted items] by (simp add: one_position)
  qed
  moreover have "list_all (\<lambda>b. bs_best b \<longrightarrow> complete b \<and> list_all (\<lambda>s. complete s \<longrightarrow> k_total b \<le> k_total s \<and>
           (bs_overBest s = (if bs_best s then None else Some (k_total s - k_total b)))) (summarizeBaskets ?c)) (summarizeBaskets ?c)"
  proof (cases "best_position bs")
    case None
    then show ?thesis unfolding S by (simp add: list.pred_map comp_def summary_fields list.pred_True)
  next
    case (Some j)
    have j: "j < length bs" "missing_items (bs ! j) = 0"
      and cheapest: "\<And>i. i < length bs \<Longrightarrow> missing_items (bs ! i) = 0 \<Longrightarrow> k_total (bs ! j) \<le> k_total (bs ! i)"
      using best_position_props [OF Some sorted items] by auto
    have best: "bs_best (summary_of bs i) \<longleftrightarrow> i = j" for i by (auto simp: summary_fields Some)
    have "complete (summary_of bs i) \<longrightarrow> k_total (summary_of bs j) \<le> k_total (summary_of bs i) \<and>
        bs_overBest (summary_of bs i) = (if bs_best (summary_of bs i) then None else Some (k_total (summary_of bs i) - k_total (summary_of bs j)))"
      if "i < length bs" for i
      using cheapest [OF that] unfolding best complete_def summary_fields Some by simp
    then have "list_all (\<lambda>s. complete s \<longrightarrow> k_total (summary_of bs j) \<le> k_total s \<and>
        (bs_overBest s = (if bs_best s then None else Some (k_total s - k_total (summary_of bs j))))) (summarizeBaskets ?c)"
      unfolding S list.pred_map comp_def list_all_iff by simp
    moreover have "complete (summary_of bs j)" using j(2) by (simp add: complete_def summary_fields)
    moreover have "b = summary_of bs j" if "b \<in> set (summarizeBaskets ?c)" "bs_best b" for b
      using that best unfolding S by auto
    ultimately show ?thesis by (metis (no_types, lifting) list_all_iff)
  qed
  moreover have "list_all (\<lambda>s. complete s \<or> bs_overBest s = None) (summarizeBaskets ?c)"
    unfolding S list_all_iff by (auto simp: complete_def summary_fields split: option.splits)
  ultimately show ?thesis by blast
qed

theorem basket_comparison_is_honest_witness:
  "(let S = summarizeBaskets (calculateBaskets (map normalizeProduct fixture_products) [(DANA, la ''Dana''), (DINA, la ''Dina'')])
    in list_ex bs_best S = list_ex complete S \<and> length S = 2)"
proof -
  define S where "S = summarizeBaskets (calculateBaskets (map normalizeProduct fixture_products) [(DANA, la ''Dana''), (DINA, la ''Dina'')])"
  note honest = basket_comparison_is_honest [of "map normalizeProduct fixture_products" "[(DANA, la ''Dana''), (DINA, la ''Dina'')]", folded S_def]
  have "length S = length (calculateBaskets (map normalizeProduct fixture_products) [(DANA, la ''Dana''), (DINA, la ''Dina'')])"
    using arg_cong [OF conjunct1 [OF honest], of size] by simp
  then have "length S = 2" by (simp add: calculateBaskets_def)
  moreover have "length (filter bs_best S) = (if list_ex complete S then 1 else 0)" using honest by blast
  then have "list_ex bs_best S = list_ex complete S"
    by (cases "filter bs_best S = []") (auto simp: list_ex_iff filter_empty_conv split: if_splits)
  ultimately show ?thesis by (simp add: S_def [symmetric] Let_def)
qed

end
