(* ===== verification/SiteConfig.thy ===== *)
theory SiteConfig
  imports Browse
begin

text \<open>
  The configuration of the site and what it tells others (\<open>frontend/src\<close>): the settings of the API
  (\<open>lib/config.ts\<close>, \<open>api/catalogApi.ts\<close>), the security headers (\<open>lib/security-headers.ts\<close>), and the
  analytics: identifiers, pages and origins of visits (\<open>lib/analytics.ts\<close>), page views
  (\<open>lib/analytics-browser.ts\<close>) and product events (\<open>lib/pilot-analytics.ts\<close>). The parser of URLs is a
  parameter; a provider's function is taken to return, as the queue the code installs does.
\<close>

record web_url =
  u_protocol :: jstr
  u_username :: jstr
  u_password :: jstr
  u_hostname :: jstr
  u_port :: jstr
  u_origin :: jstr
  u_href :: jstr
  u_searchParams :: params

section \<open>Settings\<close>

definition httpUrl :: "(jstr \<Rightarrow> web_url option) \<Rightarrow> jstr option \<Rightarrow> jstr \<Rightarrow> jstr + jstr" where
  "httpUrl parse value name =
    (if \<not> truthy_str (map_option trim value) then Inl (name @ la '' is required'')
     else case parse (the value) of
       None \<Rightarrow> Inl (name @ la '' must be an HTTP(S) URL'')
     | Some url \<Rightarrow>
         if u_protocol url \<notin> {la ''http:'', la ''https:''} \<or> u_username url \<noteq> [] \<or> u_password url \<noteq> []
         then Inl (name @ la '' must be an HTTP(S) URL without credentials'')
         else Inr (rootOf (u_href url)))"

record api_env =
  ev_mode :: "jstr option"
  ev_publicBaseUrl :: "jstr option"
  ev_serverBaseUrl :: "jstr option"
  ev_nodeEnv :: "jstr option"
  ev_enableTestMocks :: "jstr option"

datatype api_config =
    MockMode
  | HttpMode (cf_public: jstr) (cf_server: jstr)

definition validateApiConfig :: "(jstr \<Rightarrow> web_url option) \<Rightarrow> api_env \<Rightarrow> jstr + api_config" where
  "validateApiConfig parse env =
    (if ev_mode env \<noteq> Some (la ''http'') \<and> ev_mode env \<noteq> Some (la ''mock'')
     then Inl (la ''NEXT_PUBLIC_API_MODE must be explicitly http or mock'')
     else if ev_mode env = Some (la ''mock'') then
       if ev_nodeEnv env = Some (la ''production'') \<and> ev_enableTestMocks env \<noteq> Some (la ''1'')
       then Inl (la ''Production requires HTTP; test mocks require NEXT_PUBLIC_ENABLE_TEST_MOCKS=1'')
       else Inr MockMode
     else and_then (httpUrl parse (ev_publicBaseUrl env) (la ''NEXT_PUBLIC_API_BASE_URL'')) (\<lambda>publicBaseUrl.
          and_then (if ev_serverBaseUrl env = None then Inr publicBaseUrl
                    else httpUrl parse (ev_serverBaseUrl env) (la ''API_BASE_URL'')) (\<lambda>serverBaseUrl.
          Inr (HttpMode publicBaseUrl serverBaseUrl))))"

datatype api_adapter =
    MockAdapter
  | HttpAdapter jstr bool

definition createCatalogApi :: "(jstr \<Rightarrow> web_url option) \<Rightarrow> jstr option \<Rightarrow> api_env \<Rightarrow> bool \<Rightarrow> jstr + api_adapter" where
  "createCatalogApi parse processNodeEnv env isServer =
    and_then (validateApiConfig parse
        (env\<lparr>ev_nodeEnv := (case ev_nodeEnv env of None \<Rightarrow> processNodeEnv | Some e \<Rightarrow> Some e)\<rparr>)) (\<lambda>config.
      Inr (case config of
        MockMode \<Rightarrow> MockAdapter
      | HttpMode pub srv \<Rightarrow> HttpAdapter (if isServer then srv else pub) isServer))"

text \<open>\<open>new URL(...)\<close> throws where the parser fails.\<close>

definition new_url :: "(jstr \<Rightarrow> web_url option) \<Rightarrow> jstr \<Rightarrow> jstr + web_url" where
  "new_url parse s = (case parse s of None \<Rightarrow> Inl (la ''Invalid URL'') | Some u \<Rightarrow> Inr u)"

definition siteUrl :: "(jstr \<Rightarrow> web_url option) \<Rightarrow> jstr option \<Rightarrow> jstr option \<Rightarrow> jstr + web_url" where
  "siteUrl parse value nodeEnv =
    (if \<not> truthy_str value \<and> nodeEnv \<noteq> Some (la ''production'') then new_url parse (la ''http://localhost:3000'')
     else and_then (httpUrl parse value (la ''NEXT_PUBLIC_SITE_URL'')) (new_url parse))"

section \<open>Analytics: identifiers, pages, origins\<close>

definition upper_or_digit :: "int \<Rightarrow> bool" where
  "upper_or_digit c \<longleftrightarrow> 65 \<le> c \<and> c \<le> 90 \<or> digit_ch c"

text \<open>\<open>/^G-[A-Z0-9]{6,20}$/\<close> and \<open>/^[1-9][0-9]{0,11}$/\<close>.\<close>

definition ga_id :: "jstr \<Rightarrow> bool" where
  "ga_id s \<longleftrightarrow> starts_with s (la ''G-'') \<and> 8 \<le> length s \<and> length s \<le> 22 \<and> list_all upper_or_digit (drop 2 s)"

definition metrika_id :: "jstr \<Rightarrow> bool" where
  "metrika_id s \<longleftrightarrow> s \<noteq> [] \<and> length s \<le> 12 \<and> list_all digit_ch s \<and> hd s \<noteq> 48"

record analytics_ids =
  ai_ga :: "jstr option"
  ai_metrika :: "int option"

definition analyticsIds :: "jstr option \<Rightarrow> jstr option \<Rightarrow> analytics_ids" where
  "analyticsIds ga metrika =
    \<lparr>ai_ga = (if truthy_str ga \<and> trim (the ga) = the ga \<and> ga_id (the ga) then ga else None),
     ai_metrika = (if truthy_str metrika \<and> trim (the metrika) = the metrika \<and> metrika_id (the metrika)
                   then Some (digits_val (the metrika)) else None)\<rparr>"

text \<open>\<open>[a-z0-9-]\<close> and \<open>[A-Za-z0-9_-]\<close>.\<close>

definition slug_ch :: "int \<Rightarrow> bool" where
  "slug_ch c \<longleftrightarrow> 97 \<le> c \<and> c \<le> 122 \<or> digit_ch c \<or> c = 45"

definition id_ch :: "int \<Rightarrow> bool" where
  "id_ch c \<longleftrightarrow> word_ch c \<or> c = 45"

definition slug_text :: "jstr \<Rightarrow> bool" where
  "slug_text s \<longleftrightarrow> s \<noteq> [] \<and> length s \<le> 64 \<and> list_all slug_ch s"

definition id_text :: "jstr \<Rightarrow> bool" where
  "id_text s \<longleftrightarrow> s \<noteq> [] \<and> length s \<le> 128 \<and> list_all id_ch s"

text \<open>The pages that may be named: the pattern of \<open>analyticsPage\<close>, with its optional slash at the end.\<close>

definition public_page :: "jstr \<Rightarrow> bool" where
  "public_page rest \<longleftrightarrow>
    rest \<in> {la ''catalog'', la ''dashboard'', la ''search''} \<or>
    starts_with rest (la ''products/'') \<and> id_text (drop 9 rest) \<or>
    starts_with rest (la ''collections/'') \<and> slug_text (drop 12 rest)"

definition public_path :: "jstr \<Rightarrow> bool" where
  "public_path pathname \<longleftrightarrow>
    list_ex (\<lambda>l. starts_with pathname (47 # lang_code l @ [47])) LANGUAGES \<and>
    (let rest = drop 4 pathname in public_page rest \<or> rest \<noteq> [] \<and> last rest = 47 \<and> public_page (butlast rest))"

definition analyticsPage :: "(jstr \<Rightarrow> web_url option) \<Rightarrow> jstr \<Rightarrow> jstr \<Rightarrow> jstr \<Rightarrow> jstr option" where
  "analyticsPage parse site origin pathname =
    (case parse site of
       None \<Rightarrow> None
     | Some canonical \<Rightarrow>
         if u_protocol canonical \<noteq> la ''https:'' \<or> u_username canonical \<noteq> [] \<or> u_password canonical \<noteq> [] \<or>
            u_origin canonical \<noteq> origin \<or> u_hostname canonical = la ''localhost'' \<or>
            ends_with (u_hostname canonical) (la ''.localhost'') \<or> ends_with (u_hostname canonical) (la ''.vercel.app'')
         then None
         else if \<not> public_path pathname \<or> 10 \<in> set pathname then None
         else Some (u_origin canonical @ pathname))"

definition CAMPAIGNS :: "(jstr \<times> jstr list) list" where
  "CAMPAIGNS =
    [(la ''utm_source'', [la ''google'', la ''yandex'', la ''instagram'', la ''telegram'', la ''facebook'', la ''whatsapp'', la ''qr'', la ''siri'']),
     (la ''utm_medium'', [la ''organic'', la ''cpc'', la ''social'', la ''referral'', la ''email'', la ''qr'', la ''offline'']),
     (la ''utm_campaign'', [la ''pilot'', la ''pilot_2026'', la ''launch'', la ''aktau_market''])]"

definition REFERRERS :: "jstr list" where
  "REFERRERS = [la ''www.google.com'', la ''www.google.kz'', la ''yandex.ru'', la ''yandex.kz'', la ''www.instagram.com'',
     la ''t.me'', la ''www.facebook.com'']"

record attribution =
  at_campaign :: params
  at_referrer :: jstr

definition campaign_of :: "params \<Rightarrow> params" where
  "campaign_of query =
    foldl (\<lambda>ps (key, allowed_values).
        case params_getAll query key of
          [v] \<Rightarrow> if v \<in> set allowed_values then params_set key v ps else ps
        | _ \<Rightarrow> ps) [] CAMPAIGNS"

definition referrer_of :: "(jstr \<Rightarrow> web_url option) \<Rightarrow> jstr \<Rightarrow> jstr \<Rightarrow> jstr" where
  "referrer_of parse origin referrer =
    (case parse referrer of
       None \<Rightarrow> []
     | Some ref \<Rightarrow>
         if u_protocol ref = la ''https:'' \<and> u_username ref = [] \<and> u_password ref = [] \<and> u_port ref = [] \<and>
            u_hostname ref \<in> set REFERRERS \<and> u_origin ref \<noteq> origin
         then u_origin ref @ [47] else [])"

text \<open>The address of the page is one the browser has parsed already.\<close>

definition entryAttribution :: "(jstr \<Rightarrow> web_url option) \<Rightarrow> web_url \<Rightarrow> jstr \<Rightarrow> attribution" where
  "entryAttribution parse entry referrer =
    \<lparr>at_campaign = campaign_of (u_searchParams entry), at_referrer = referrer_of parse (u_origin entry) referrer\<rparr>"

section \<open>Analytics: product events\<close>

datatype product_event =
    ViewItem (ev_productId: jstr) (ev_category: jstr)
  | OffersExpand (ev_productId: jstr) (ev_category: jstr)
  | CategoryView (ev_category: jstr)
  | FilterReset (ev_category: jstr)
  | FilterApply (ev_category: jstr) (ev_filterKey: jstr)
  | SortChange jstr "jstr option"
  | Search int int
  | SearchNoResults int int

datatype field_value =
    FText jstr
  | FNumber int
  | FBool bool
  | FItem jstr jstr    \<comment> \<open>one item with its identifier and category\<close>

text \<open>\<open>/^[a-zA-Z][a-zA-Z0-9]{0,63}$/\<close>.\<close>

definition filter_key_text :: "jstr \<Rightarrow> bool" where
  "filter_key_text s \<longleftrightarrow> s \<noteq> [] \<and> length s \<le> 64 \<and> list_all (\<lambda>c. word_ch c \<and> c \<noteq> 95) s \<and> \<not> digit_ch (hd s)"

definition safe_integer :: "int \<Rightarrow> bool" where
  "safe_integer n \<longleftrightarrow> \<bar>n\<bar> \<le> 9007199254740991"

definition search_fields :: "int \<Rightarrow> int \<Rightarrow> (jstr \<times> field_value) list option" where
  "search_fields len visible =
    (if \<not> safe_integer len \<or> len < 1 \<or> \<not> safe_integer visible \<or> visible < 0 then None
     else Some [(la ''query_class'', FText (la ''redacted'')),
       (la ''length_bucket'', FText (if len \<le> 3 then la ''1-3'' else if len \<le> 10 then la ''4-10'' else la ''11+'')),
       (la ''visible_count'', FNumber (min visible 24)), (la ''has_results'', FBool (visible > 0))])"

definition item_fields :: "jstr \<Rightarrow> jstr \<Rightarrow> (jstr \<times> field_value) list option" where
  "item_fields productId category =
    (if \<not> id_text productId \<or> \<not> slug_text category then None else Some [(la ''items'', FItem productId category)])"

definition category_fields :: "jstr \<Rightarrow> (jstr \<times> field_value) list option" where
  "category_fields category = (if \<not> slug_text category then None else Some [(la ''category_slug'', FText category)])"

fun eventFields :: "product_event \<Rightarrow> (jstr \<times> field_value) list option" where
  "eventFields (ViewItem productId category) = item_fields productId category"
| "eventFields (OffersExpand productId category) = item_fields productId category"
| "eventFields (CategoryView category) = category_fields category"
| "eventFields (FilterReset category) = category_fields category"
| "eventFields (FilterApply category filterKey) =
    (if \<not> slug_text category \<or> \<not> filter_key_text filterKey then None
     else Some [(la ''category_slug'', FText category), (la ''filter_key'', FText filterKey)])"
| "eventFields (SortChange s category) =
    (if s \<notin> sort_text ` set SORT_VALUES \<or> truthy_str category \<and> \<not> slug_text (the category) then None
     else Some ((la ''sort_type'', FText s) # (if truthy_str category then [(la ''category_slug'', FText (the category))] else [])))"
| "eventFields (Search len visible) = search_fields len visible"
| "eventFields (SearchNoResults len visible) = search_fields len visible"

fun event_name :: "product_event \<Rightarrow> jstr" where
  "event_name (ViewItem _ _) = la ''view_item''"
| "event_name (OffersExpand _ _) = la ''offers_expand''"
| "event_name (CategoryView _) = la ''category_view''"
| "event_name (FilterReset _) = la ''filter_reset''"
| "event_name (FilterApply _ _) = la ''filter_apply''"
| "event_name (SortChange _ _) = la ''sort_change''"
| "event_name (Search _ _) = la ''search''"
| "event_name (SearchNoResults _ _) = la ''search_no_results''"

fun is_search :: "product_event \<Rightarrow> bool" where
  "is_search (Search _ _) = True"
| "is_search (SearchNoResults _ _) = True"
| "is_search _ = False"

section \<open>Analytics: page views and sending\<close>

record page_fields =
  pf_location :: jstr
  pf_path :: jstr
  pf_referrer :: jstr

text \<open>What a provider is told; the options of the two set-up calls are constants of the source.\<close>

datatype provider_call =
    GtagJs
  | GtagConfig jstr page_fields
  | GtagSet page_fields
  | GtagPageView jstr page_fields
  | GtagEvent jstr jstr "(jstr \<times> field_value) list" page_fields
  | YmInit int
  | YmHit int jstr jstr
  | YmGoal int jstr "(jstr \<times> field_value) list"

record page_state =
  pt_ga :: "(jstr \<times> jstr) option"
  pt_metrika :: "(int \<times> jstr) option"
  pt_entry :: "attribution option"
  pt_path :: "jstr option"
  pt_visit :: nat
  pt_events :: "jstr list"
  pt_searches :: "jstr list"

definition fresh_page_state :: page_state where
  "fresh_page_state = \<lparr>pt_ga = None, pt_metrika = None, pt_entry = None, pt_path = None, pt_visit = 0, pt_events = [], pt_searches = []\<rparr>"

text \<open>The document: its settings, its whole address with the query, its path, and where it was reached from.\<close>

record document =
  dc_site :: "jstr option"
  dc_address :: web_url
  dc_pathname :: jstr
  dc_ga :: "jstr option"
  dc_metrika :: "jstr option"
  dc_referrer :: jstr

definition with_campaign :: "(params \<Rightarrow> jstr) \<Rightarrow> jstr \<Rightarrow> bool \<Rightarrow> attribution \<Rightarrow> jstr" where
  "with_campaign query_text url first entry =
    (if first \<and> at_campaign entry \<noteq> [] then url @ [63] @ query_text (at_campaign entry) else url)"

text \<open>\<open>resolve path url\<close> stands for \<open>new URL(path, url).href\<close>.\<close>

definition ga_pageview ::
  "(params \<Rightarrow> jstr) \<Rightarrow> (jstr \<Rightarrow> jstr \<Rightarrow> jstr) \<Rightarrow> jstr \<Rightarrow> jstr \<Rightarrow> jstr \<Rightarrow> attribution \<Rightarrow> page_state \<Rightarrow> page_state \<times> provider_call list" where
  "ga_pageview query_text resolve pathname url ga entry st =
    (if pt_ga st = Some (ga, pathname) then (st, [])
     else let fs = \<lparr>pf_location = with_campaign query_text url (pt_ga st = None) entry, pf_path = pathname,
                        pf_referrer = (case pt_ga st of None \<Rightarrow> at_referrer entry | Some (_, path) \<Rightarrow> resolve path url)\<rparr>
       in (st\<lparr>pt_ga := Some (ga, pathname)\<rparr>,
           (if map_option fst (pt_ga st) \<noteq> Some ga then [GtagJs, GtagConfig ga fs] else []) @
           [GtagSet fs, GtagPageView ga fs]))"

definition metrika_pageview ::
  "(params \<Rightarrow> jstr) \<Rightarrow> (jstr \<Rightarrow> jstr \<Rightarrow> jstr) \<Rightarrow> jstr \<Rightarrow> jstr \<Rightarrow> int \<Rightarrow> attribution \<Rightarrow> page_state \<Rightarrow> page_state \<times> provider_call list" where
  "metrika_pageview query_text resolve pathname url metrika entry st =
    (if pt_metrika st = Some (metrika, pathname) then (st, [])
     else let referer = (case pt_metrika st of None \<Rightarrow> at_referrer entry | Some (_, path) \<Rightarrow> resolve path url);
              location = with_campaign query_text url (pt_metrika st = None) entry
       in (st\<lparr>pt_metrika := Some (metrika, pathname)\<rparr>,
           (if map_option fst (pt_metrika st) \<noteq> Some metrika then [YmInit metrika] else []) @ [YmHit metrika location referer]))"

definition enter_page :: "jstr \<Rightarrow> attribution \<Rightarrow> page_state \<Rightarrow> page_state" where
  "enter_page pathname entry st =
    (let st1 = st\<lparr>pt_entry := Some (nullish (pt_entry st) entry)\<rparr>
     in if pt_path st1 \<noteq> Some pathname then st1\<lparr>pt_path := Some pathname, pt_visit := pt_visit st1 + 1, pt_events := []\<rparr> else st1)"

definition pageview ::
  "(params \<Rightarrow> jstr) \<Rightarrow> (jstr \<Rightarrow> jstr \<Rightarrow> jstr) \<Rightarrow> jstr \<Rightarrow> jstr \<Rightarrow> analytics_ids \<Rightarrow> attribution \<Rightarrow> page_state \<Rightarrow> page_state \<times> provider_call list" where
  "pageview query_text resolve pathname url ids entry st =
    (let st1 = enter_page pathname entry st; e = the (pt_entry st1);
         (st2, ga_calls) = (case ai_ga ids of None \<Rightarrow> (st1, []) | Some ga \<Rightarrow> ga_pageview query_text resolve pathname url ga e st1);
         (st3, ym_calls) = (case ai_metrika ids of None \<Rightarrow> (st2, []) | Some m \<Rightarrow> metrika_pageview query_text resolve pathname url m e st2)
     in (st3, ga_calls @ ym_calls))"

definition ensureAnalytics ::
  "(jstr \<Rightarrow> web_url option) \<Rightarrow> (params \<Rightarrow> jstr) \<Rightarrow> (jstr \<Rightarrow> jstr \<Rightarrow> jstr) \<Rightarrow> document \<Rightarrow> page_state \<Rightarrow>
   (analytics_ids \<times> jstr) option \<times> page_state \<times> provider_call list" where
  "ensureAnalytics parse query_text resolve d st =
    (let ids = analyticsIds (dc_ga d) (dc_metrika d)
     in case analyticsPage parse (nullish (dc_site d) []) (u_origin (dc_address d)) (dc_pathname d) of
          None \<Rightarrow> (None, st, [])
        | Some url \<Rightarrow>
            if ai_ga ids = None \<and> ai_metrika ids = None then (None, st, [])
            else (Some (ids, url), pageview query_text resolve (dc_pathname d) url ids (entryAttribution parse (dc_address d) (dc_referrer d)) st))"

text \<open>\<open>pathname.split('/')[1]\<close> of an address with a slash.\<close>

definition path_language :: "jstr \<Rightarrow> jstr" where
  "path_language pathname = (case split_ch 47 pathname of _ # first # _ \<Rightarrow> first | _ \<Rightarrow> [])"

definition MAX_EVENT_KEYS :: nat where
  "MAX_EVENT_KEYS = 512"

definition send_event :: "analytics_ids \<Rightarrow> jstr \<Rightarrow> jstr \<Rightarrow> product_event \<Rightarrow> (jstr \<times> field_value) list \<Rightarrow> provider_call list" where
  "send_event ids url pathname event fs =
    (let payload = fs @ [(la ''language'', FText (path_language pathname))]
     in (case ai_ga ids of None \<Rightarrow> []
         | Some ga \<Rightarrow> [GtagEvent ga (event_name event) payload \<lparr>pf_location = url, pf_path = pathname, pf_referrer = []\<rparr>]) @
        (case ai_metrika ids of None \<Rightarrow> [] | Some m \<Rightarrow> [YmGoal m (event_name event) payload]))"

definition trackProductEvent ::
  "(jstr \<Rightarrow> web_url option) \<Rightarrow> (params \<Rightarrow> jstr) \<Rightarrow> (jstr \<Rightarrow> jstr \<Rightarrow> jstr) \<Rightarrow> document \<Rightarrow> product_event \<Rightarrow> jstr option \<Rightarrow> page_state \<Rightarrow>
   page_state \<times> provider_call list" where
  "trackProductEvent parse query_text resolve d event onceKey st =
    (case eventFields event of
       None \<Rightarrow> (st, [])
     | Some fs \<Rightarrow>
         (case ensureAnalytics parse query_text resolve d st of
            (None, st1, calls) \<Rightarrow> (st1, calls)
          | (Some (ids, url), st1, calls) \<Rightarrow>
              let search = is_search event; seen = (if search then pt_searches st1 else pt_events st1);
                  key = (if search \<and> truthy_str onceKey then Some (dc_pathname d @ [58] @ the onceKey) else onceKey)
              in if truthy_str key \<and> (the key \<in> set seen \<or> length seen \<ge> MAX_EVENT_KEYS) then (st1, calls)
                 else let seen1 = (if truthy_str key then seen @ [the key] else seen);
                          st2 = (if search then st1\<lparr>pt_searches := seen1\<rparr> else st1\<lparr>pt_events := seen1\<rparr>)
                   in (st2, calls @ send_event ids url (dc_pathname d) event fs)))"

section \<open>Security headers\<close>

definition productImageOrigins :: "jstr list" where
  "productImageOrigins = [la ''https://backend.dinamarket.kz'', la ''https://dana-market.kz'', la ''https://fix-price.kz'',
     la ''https://img.fix-price.com'', la ''https://img.fix-price.kz'']"

definition tileOrigins :: "jstr list" where
  "tileOrigins = [la ''https://tile.openstreetmap.org'']"

definition quoted :: "string \<Rightarrow> jstr" where
  "quoted s = [39] @ la s @ [39]"

definition analytics_scripts :: "analytics_ids \<Rightarrow> jstr list" where
  "analytics_scripts ids =
    (if ai_ga ids \<noteq> None then [la ''https://www.googletagmanager.com''] else []) @
    (if ai_metrika ids \<noteq> None \<and> ai_metrika ids \<noteq> Some 0 then [la ''https://mc.yandex.ru''] else [])"

definition analytics_collectors :: "analytics_ids \<Rightarrow> jstr list" where
  "analytics_collectors ids =
    (if ai_ga ids \<noteq> None then [la ''https://www.google-analytics.com'', la ''https://region1.google-analytics.com''] else []) @
    (if ai_metrika ids \<noteq> None \<and> ai_metrika ids \<noteq> Some 0 then [la ''https://mc.yandex.ru''] else [])"

text \<open>Each directive with its sources; the header joins them with semicolons.\<close>

definition policy_directives :: "jstr \<Rightarrow> bool \<Rightarrow> analytics_ids \<Rightarrow> (jstr \<times> jstr list) list" where
  "policy_directives apiOrigin testMocks ids =
    [(la ''default-src'', [quoted ''self'']),
     (la ''script-src'', [quoted ''self'', quoted ''unsafe-inline''] @ analytics_scripts ids),
     (la ''style-src'', [quoted ''self'', quoted ''unsafe-inline'']),
     (la ''font-src'', [quoted ''self'']),
     (la ''img-src'', [quoted ''self'', la ''data:''] @ productImageOrigins @ tileOrigins @
        (if testMocks then [la ''https://example.invalid''] else []) @ analytics_collectors ids),
     (la ''connect-src'', quoted ''self'' # (if apiOrigin \<noteq> [] then [apiOrigin] else []) @ analytics_collectors ids),
     (la ''object-src'', [quoted ''none'']),
     (la ''base-uri'', [quoted ''self'']),
     (la ''frame-ancestors'', [quoted ''none'']),
     (la ''form-action'', [quoted ''self''])]"

definition securityHeaders ::
  "(jstr \<Rightarrow> web_url option) \<Rightarrow> jstr option \<Rightarrow> bool \<Rightarrow> jstr option \<Rightarrow> jstr option \<Rightarrow> jstr + (jstr \<times> jstr) list" where
  "securityHeaders parse apiBaseUrl testMocks ga metrika =
    (let ids = analyticsIds ga metrika
     in and_then (if apiBaseUrl = None then Inr []
                  else and_then (httpUrl parse apiBaseUrl (la ''NEXT_PUBLIC_API_BASE_URL'')) (\<lambda>u.
                       and_then (new_url parse u) (\<lambda>url. Inr (u_origin url)))) (\<lambda>apiOrigin.
       Inr [(la ''Content-Security-Policy'',
              join (la ''; '') (map (\<lambda>(d, sources). join [32] (d # sources)) (policy_directives apiOrigin testMocks ids))),
            (la ''X-Content-Type-Options'', la ''nosniff''),
            (la ''Referrer-Policy'', la ''no-referrer''),
            (la ''X-Frame-Options'', la ''DENY''),
            (la ''Permissions-Policy'', la ''camera=(), microphone=(), geolocation=(), payment=(), usb=()'')]))"

end
