(* ===== verification/Webhook.thy ===== *)
theory Webhook
  imports JsNumber
begin

text \<open>
  The address through which a publication makes the site forget its cached pages
  (\<open>frontend/src/lib/revalidation.ts\<close>, \<open>frontend/src/app/internal/revalidate/route.ts\<close>). The message
  authentication code and the decoding of UTF-8 are parameters; bytes are integers.
\<close>

definition REVALIDATION_BODY :: jstr where
  "REVALIDATION_BODY = [123, 34] @ la ''event'' @ [34, 58, 34] @ la ''snapshot_published'' @ [34, 125]"

definition MAX_REVALIDATION_BYTES :: nat where
  "MAX_REVALIDATION_BYTES = 128"

section \<open>Authentication\<close>

text \<open>\<open>/^[0-9]{1,12}$/\<close> and \<open>/^v1=[0-9a-f]{64}$/\<close>.\<close>

definition rx_timestamp :: "jstr \<Rightarrow> bool" where
  "rx_timestamp s \<longleftrightarrow> 1 \<le> length s \<and> length s \<le> 12 \<and> list_all digit_ch s"

definition hex_ch :: "int \<Rightarrow> bool" where
  "hex_ch c \<longleftrightarrow> digit_ch c \<or> 97 \<le> c \<and> c \<le> 102"

definition rx_signature :: "jstr \<Rightarrow> bool" where
  "rx_signature s \<longleftrightarrow> starts_with s (la ''v1='') \<and> length s = 67 \<and> list_all hex_ch (drop 3 s)"

text \<open>\<open>Buffer.from(s, 'hex')\<close> of an even number of hexadecimal digits.\<close>

fun from_hex :: "jstr \<Rightarrow> int list" where
  "from_hex (a # b # s) = (16 * digit_of a + digit_of b) # from_hex s"
| "from_hex _ = []"

text \<open>What is signed: the time stamp, a full stop and the body.\<close>

definition signed_bytes :: "jstr \<Rightarrow> int list \<Rightarrow> int list" where
  "signed_bytes timestamp body = timestamp @ [46] @ body"

text \<open>\<open>None\<close>: \<open>timingSafeEqual\<close> throws on lists of different lengths.\<close>

definition authenticated ::
  "(jstr \<Rightarrow> int list \<Rightarrow> int list) \<Rightarrow> jstr \<Rightarrow> jstr option \<Rightarrow> jstr option \<Rightarrow> int list \<Rightarrow> int \<Rightarrow> bool option" where
  "authenticated hmac secret timestamp signature body now =
    (if byte_length secret < 32 \<or> \<not> truthy_str timestamp \<or> \<not> rx_timestamp (the timestamp) \<or>
        \<not> truthy_str signature \<or> \<not> rx_signature (the signature) then Some False
     else let seconds = digits_val (the timestamp)
       in if seconds > 9007199254740991 \<or> \<bar>now div 1000 - seconds\<bar> > 300 then Some False
          else let expected_code = hmac secret (signed_bytes (the timestamp) body); given = from_hex (drop 3 (the signature))
            in if length expected_code \<noteq> length given then None else Some (expected_code = given))"

section \<open>The body\<close>

text \<open>What reading the body yields: pieces, and at the end either \<open>done\<close> or a failure.\<close>

record body_stream =
  by_chunks :: "int list list"
  by_fails :: bool

fun read_chunks :: "nat \<Rightarrow> int list list \<Rightarrow> int list list \<Rightarrow> bool \<Rightarrow> int list option" where
  "read_chunks sz got [] fails = (if fails then None else Some (concat got))"
| "read_chunks sz got (c # cs) fails =
    (if sz + length c > MAX_REVALIDATION_BYTES then None
     else read_chunks (sz + length c) (got @ [c]) cs fails)"

definition boundedBody :: "body_stream option \<Rightarrow> int list option" where
  "boundedBody body = (case body of None \<Rightarrow> Some [] | Some st \<Rightarrow> read_chunks 0 [] (by_chunks st) (by_fails st))"

text \<open>How many bytes are read before the body is accepted or given up, the piece in hand included.\<close>

fun bytes_read :: "nat \<Rightarrow> int list list \<Rightarrow> nat" where
  "bytes_read sz [] = sz"
| "bytes_read sz (c # cs) =
    (if sz + length c > MAX_REVALIDATION_BYTES then sz + length c else bytes_read (sz + length c) cs)"

section \<open>The request\<close>

record webhook_request =
  wr_body :: "body_stream option"
  wr_timestamp :: "jstr option"
  wr_signature :: "jstr option"
  wr_search :: jstr     \<comment> \<open>the query of the address, with its question mark\<close>

datatype cache_action =
    RevalidateTag jstr
  | RevalidatePath jstr

text \<open>
  The status answered and what was made stale before. \<open>{ expire: 0 }\<close> and the page type are fixed
  arguments of the two calls. The answer 500 is the framework's to an exception.
\<close>

definition POST ::
  "(jstr \<Rightarrow> int list \<Rightarrow> int list) \<Rightarrow> (int list \<Rightarrow> jstr) \<Rightarrow> jstr option \<Rightarrow> int \<Rightarrow> webhook_request \<Rightarrow> nat \<times> cache_action list" where
  "POST hmac utf8 secret now rq =
    (if \<not> truthy_str secret \<or> byte_length (the secret) < 32 then (503, [])
     else case boundedBody (wr_body rq) of
       None \<Rightarrow> (401, [])
     | Some body \<Rightarrow>
         (case authenticated hmac (the secret) (wr_timestamp rq) (wr_signature rq) body now of
            None \<Rightarrow> (500, [])
          | Some False \<Rightarrow> (401, [])
          | Some True \<Rightarrow>
              if wr_search rq \<noteq> [] \<or> utf8 body \<noteq> REVALIDATION_BODY then (400, [])
              else (204, [RevalidateTag (la ''catalog-data''), RevalidatePath (la ''/[lang]/(site)/products/[id]'')])))"

section \<open>Lemmas\<close>

lemma read_chunks_Some:
  "read_chunks sz got cs fails = Some body \<Longrightarrow> sz = length (concat got) \<Longrightarrow> sz \<le> MAX_REVALIDATION_BYTES \<Longrightarrow>
    body = concat got @ concat cs \<and> length body \<le> MAX_REVALIDATION_BYTES \<and> \<not> fails"
proof (induction sz got cs fails rule: read_chunks.induct)
  case (1 sz got fails)
  then show ?case by (simp split: if_splits)
next
  case (2 sz got c cs fails)
  have fits: "\<not> sz + length c > MAX_REVALIDATION_BYTES" using 2(2) by (auto split: if_splits)
  then have "body = concat (got @ [c]) @ concat cs \<and> length body \<le> MAX_REVALIDATION_BYTES \<and> \<not> fails"
    using 2 by (intro "2.IH") simp_all
  then show ?case by auto
qed

lemma read_chunks_exact:
  "sz = length (concat got) \<Longrightarrow> length (concat got @ concat cs) \<le> MAX_REVALIDATION_BYTES \<Longrightarrow>
    read_chunks sz got cs False = Some (concat got @ concat cs)"
proof (induction cs arbitrary: sz got)
  case (Cons c cs)
  then show ?case using Cons.IH [of "sz + length c" "got @ [c]"] by simp
qed simp

lemma boundedBody_Some:
  "boundedBody (Some st) = Some body \<longleftrightarrow> \<not> by_fails st \<and> body = concat (by_chunks st) \<and> length body \<le> MAX_REVALIDATION_BYTES"
  using read_chunks_Some [of 0 "[]" "by_chunks st" "by_fails st" body] read_chunks_exact [of 0 "[]" "by_chunks st"]
  by (auto simp: boundedBody_def)

lemma bytes_read_bound: "sz \<le> MAX_REVALIDATION_BYTES \<Longrightarrow> (\<And>c. c \<in> set cs \<Longrightarrow> length c \<le> k) \<Longrightarrow> bytes_read sz cs \<le> MAX_REVALIDATION_BYTES + k"
proof (induction sz cs rule: bytes_read.induct)
  case (2 sz c cs)
  have "length c \<le> k" by (rule 2(3)) simp
  with 2(2) have b: "sz + length c \<le> MAX_REVALIDATION_BYTES + k" by (rule add_mono)
  show ?case
  proof (cases "sz + length c > MAX_REVALIDATION_BYTES")
    case False
    then show ?thesis using 2 by simp
  qed (simp add: b)
qed simp

lemma length_from_hex: "length (from_hex s) = length s div 2"
  by (induction s rule: from_hex.induct) auto

text \<open>A code of 32 bytes is what a signature of the right form holds, so the comparison never throws.\<close>

lemma authenticated_Some:
  assumes "\<And>k m. length (hmac k m) = 32"
  shows "authenticated hmac secret timestamp signature body now \<noteq> None"
  using assms by (auto simp: authenticated_def Let_def rx_signature_def length_from_hex)

lemma authenticated_True:
  "authenticated hmac secret timestamp signature body now = Some True \<longleftrightarrow>
    32 \<le> byte_length secret \<and>
    (\<exists>t s. timestamp = Some t \<and> rx_timestamp t \<and> signature = Some s \<and> rx_signature s \<and> \<bar>now div 1000 - digits_val t\<bar> \<le> 300 \<and>
       digits_val t \<le> 9007199254740991 \<and> from_hex (drop 3 s) = hmac secret (signed_bytes t body))"
  by (auto simp: authenticated_def Let_def truthy_str_def rx_timestamp_def rx_signature_def not_le Suc_le_eq split: if_splits)

end
