(* ===== verification/SiteProperties.thy ===== *)
theory SiteProperties
  imports SiteConfig Webhook
begin

text \<open>
  The properties of the site's edges: who may make it forget its pages, which configuration it
  accepts, and what it tells the providers of analytics.
\<close>

section \<open>Publications\<close>

text \<open>A signature as the publisher writes it.\<close>

definition hex_digit :: "int \<Rightarrow> int" where
  "hex_digit n = (if n < 10 then 48 + n else 87 + n)"

fun to_hex :: "int list \<Rightarrow> jstr" where
  "to_hex [] = []"
| "to_hex (b # bs) = hex_digit (b div 16) # hex_digit (b mod 16) # to_hex bs"

definition byte :: "int \<Rightarrow> bool" where
  "byte b \<longleftrightarrow> 0 \<le> b \<and> b < 256"

lemma digit_of_hex: "0 \<le> n \<Longrightarrow> n < 16 \<Longrightarrow> digit_of (hex_digit n) = n \<and> hex_ch (hex_digit n)"
  by (auto simp: digit_of_def hex_digit_def digit_ch_def lower_ch_def hex_ch_def)

lemma from_hex_to_hex: "list_all byte bs \<Longrightarrow> from_hex (to_hex bs) = bs \<and> list_all hex_ch (to_hex bs) \<and> length (to_hex bs) = 2 * length bs"
proof (induction bs)
  case (Cons b bs)
  then have b: "0 \<le> b div 16" "b div 16 < 16" "0 \<le> b mod 16" "b mod 16 < 16" by (auto simp: byte_def)
  then show ?case using Cons digit_of_hex [OF b(1,2)] digit_of_hex [OF b(3,4)] by simp
qed simp

definition signed_request :: "(jstr \<Rightarrow> int list \<Rightarrow> int list) \<Rightarrow> jstr \<Rightarrow> int \<Rightarrow> int list list \<Rightarrow> webhook_request" where
  "signed_request hmac key seconds pieces =
    \<lparr>wr_body = Some \<lparr>by_chunks = pieces, by_fails = False\<rparr>, wr_timestamp = Some (show_nat seconds),
     wr_signature = Some (la ''v1='' @ to_hex (hmac key (signed_bytes (show_nat seconds) (concat pieces)))), wr_search = []\<rparr>"

definition genuine :: "(jstr \<Rightarrow> int list \<Rightarrow> int list) \<Rightarrow> (int list \<Rightarrow> jstr) \<Rightarrow> jstr option \<Rightarrow> int \<Rightarrow> webhook_request \<Rightarrow> bool" where
  "genuine hmac utf8 secret now rq \<longleftrightarrow>
    (case (secret, boundedBody (wr_body rq), wr_timestamp rq, wr_signature rq) of
       (Some k, Some body, Some t, Some sig) \<Rightarrow>
         32 \<le> byte_length k \<and> length body \<le> MAX_REVALIDATION_BYTES \<and> utf8 body = REVALIDATION_BODY \<and> wr_search rq = [] \<and>
         rx_timestamp t \<and> \<bar>now div 1000 - digits_val t\<bar> \<le> 300 \<and> rx_signature sig \<and>
         from_hex (drop 3 sig) = hmac k (signed_bytes t body)
     | _ \<Rightarrow> False)"

lemma twelve_digits: "rx_timestamp t \<Longrightarrow> digits_val t \<le> 9007199254740991"
proof -
  have "list_all digit_ch t \<Longrightarrow> digits_val t < 10 ^ length t" for t
    by (induction t rule: rev_induct) (auto simp: digits_val_snoc digit_ch_def)
  then have "rx_timestamp t \<Longrightarrow> digits_val t < 10 ^ length t" by (simp add: rx_timestamp_def)
  moreover have "rx_timestamp t \<Longrightarrow> (10::int) ^ length t \<le> 10 ^ 12" by (intro power_increasing) (simp_all add: rx_timestamp_def)
  ultimately show "rx_timestamp t \<Longrightarrow> digits_val t \<le> 9007199254740991" by fastforce
qed

lemma boundedBody_length: "boundedBody b = Some body \<Longrightarrow> length body \<le> MAX_REVALIDATION_BYTES"
  by (cases b) (auto simp: boundedBody_def dest!: read_chunks_Some)

definition toy_hmac :: "jstr \<Rightarrow> int list \<Rightarrow> int list" where
  "toy_hmac k m = replicate 32 ((digits_val k + sum_list m) mod 256)"

definition toy_secret :: jstr where
  "toy_secret = replicate 32 97"

lemma toy_hmac_sound: "length (toy_hmac k m) = 32" "list_all byte (toy_hmac k m)"
  by (simp_all add: toy_hmac_def byte_def list_all_iff)

definition toy_publication :: webhook_request where
  "toy_publication = signed_request toy_hmac toy_secret 1700000000 [take 5 REVALIDATION_BODY, drop 5 REVALIDATION_BODY]"

text \<open>C8: Only a genuine publication makes the site forget its pages: the answer is 204 exactly when the secret
  is set and long enough, at most 128 bytes arrived, they are the one message, there is no query,
  the time stamp is within five minutes and the signature is the code of both under the secret;
  exactly then the catalogue data and the product pages are made stale, and in every other case
  nothing is and the answer is 400, 401 or 503.\<close>

theorem only_genuine_publications_count:
  assumes "\<And>k m. length (hmac k m) = 32"
  shows "if genuine hmac utf8 secret now rq
     then POST hmac utf8 secret now rq = (204, [RevalidateTag (la ''catalog-data''), RevalidatePath (la ''/[lang]/(site)/products/[id]'')])
     else snd (POST hmac utf8 secret now rq) = [] \<and> fst (POST hmac utf8 secret now rq) \<in> {400, 401, 503}"
proof (cases "\<not> truthy_str secret \<or> byte_length (the secret) < 32")
  case True
  then have "\<not> genuine hmac utf8 secret now rq" by (auto simp: genuine_def truthy_str_def split: option.splits)
  then show ?thesis using True by (auto simp: POST_def)
next
  case False
  then obtain k where k: "secret = Some k" "32 \<le> byte_length k" by (auto simp: truthy_str_def)
  show ?thesis
  proof (cases "boundedBody (wr_body rq)")
    case None
    then have "\<not> genuine hmac utf8 secret now rq" by (simp add: genuine_def split: option.splits)
    then show ?thesis using None False by (auto simp: POST_def)
  next
    case (Some body)
    obtain b where b: "authenticated hmac k (wr_timestamp rq) (wr_signature rq) body now = Some b"
      using authenticated_Some [where hmac = hmac and secret = k and timestamp = "wr_timestamp rq" and signature = "wr_signature rq" and body = body and now = now]
        assms by blast
    have "genuine hmac utf8 secret now rq \<longleftrightarrow> b \<and> wr_search rq = [] \<and> utf8 body = REVALIDATION_BODY"
      using authenticated_True [where hmac = hmac and secret = k and timestamp = "wr_timestamp rq" and signature = "wr_signature rq" and body = body and now = now] b k boundedBody_length [OF Some]
      by (auto simp: genuine_def Some twelve_digits split: option.splits)
    then show ?thesis using False b by (cases b) (auto simp: POST_def k Some)
  qed
qed

theorem only_genuine_publications_count_witness:
  "POST toy_hmac id (Some toy_secret) 1700000299999 toy_publication =
     (204, [RevalidateTag (la ''catalog-data''), RevalidatePath (la ''/[lang]/(site)/products/[id]'')]) \<and>
   snd (POST toy_hmac id (Some toy_secret) 1700000301000 toy_publication) = []"
proof -
  have yes: "genuine toy_hmac id (Some toy_secret) 1700000299999 toy_publication" by code_simp
  have no: "\<not> genuine toy_hmac id (Some toy_secret) 1700000301000 toy_publication" by code_simp
  show ?thesis
    using only_genuine_publications_count [where hmac = toy_hmac and ?utf8.0 = id and secret = "Some toy_secret" and now = 1700000299999 and rq = toy_publication] yes
      only_genuine_publications_count [where hmac = toy_hmac and ?utf8.0 = id and secret = "Some toy_secret" and now = 1700000301000 and rq = toy_publication] no
    by (simp add: toy_hmac_sound(1))
qed

text \<open>A publisher that knows the secret is heard: signing the message with the current time is accepted
  whatever pieces the body arrives in, and any server clock within five minutes.\<close>

theorem publishers_are_heard:
  assumes "\<And>k m. length (hmac k m) = 32" and "\<And>k m. list_all byte (hmac k m)" and "32 \<le> byte_length key"
    and "concat pieces = REVALIDATION_BODY" and "utf8 REVALIDATION_BODY = REVALIDATION_BODY"
    and "0 \<le> seconds" and "seconds < 10 ^ 12" and "\<bar>now div 1000 - seconds\<bar> \<le> 300"
  shows "fst (POST hmac utf8 (Some key) now (signed_request hmac key seconds pieces)) = 204"
proof -
  let ?t = "show_nat seconds" and ?code = "hmac key (signed_bytes (show_nat seconds) (concat pieces))"
  have digits: "?t \<noteq> []" "list_all digit_ch ?t" using show_nat_digits [OF assms(6)] by (auto simp: list_all_iff)
  have len: "length ?t \<le> 12"
  proof -
    have "n < 10 ^ m \<Longrightarrow> 0 < m \<Longrightarrow> 0 \<le> n \<Longrightarrow> length (show_nat n) \<le> m" for n m
    proof (induction n arbitrary: m rule: show_nat.induct)
      case (1 n)
      show ?case
      proof (cases "n < 10")
        case True
        then show ?thesis using 1(3) by (simp add: show_nat.simps [of n])
      next
        case False
        then obtain m' where m: "m = Suc m'" "0 < m'" using 1(2,3) by (cases m; cases "m - 1") auto
        have "n div 10 < 10 ^ m'" using 1(2) unfolding m by (simp add: div_less_iff_less_mult)
        then have "length (show_nat (n div 10)) \<le> m'" using 1(1) False m(2) 1(4) by simp
        then show ?thesis using False m by (simp add: show_nat.simps [of n])
      qed
    qed
    from this [of seconds 12] assms(6,7) show ?thesis by simp
  qed
  have hex: "from_hex (to_hex ?code) = ?code" "list_all hex_ch (to_hex ?code)" "length (to_hex ?code) = 64"
    using from_hex_to_hex [OF assms(2), of key "signed_bytes ?t (concat pieces)"] assms(1) by simp_all
  have v1: "la ''v1='' = [118, 49, 61]" by (simp add: la_def)
  have body: "boundedBody (Some \<lparr>by_chunks = pieces, by_fails = False\<rparr>) = Some REVALIDATION_BODY"
    by (simp add: boundedBody_Some assms(4) REVALIDATION_BODY_def MAX_REVALIDATION_BYTES_def la_def)
  have "genuine hmac utf8 (Some key) now (signed_request hmac key seconds pieces)"
    using digits len hex assms(3,5,6,8) body
    by (simp add: genuine_def signed_request_def v1 rx_timestamp_def rx_signature_def Suc_le_eq assms(4) boundedBody_length [OF body])
  then show ?thesis using only_genuine_publications_count [of hmac utf8 "Some key" now "signed_request hmac key seconds pieces"] assms(1) by simp
qed

theorem publishers_are_heard_witness:
  "fst (POST toy_hmac id (Some toy_secret) 1700000299999 (signed_request toy_hmac toy_secret 1700000000 [REVALIDATION_BODY])) = 204"
proof -
  have "32 \<le> byte_length toy_secret" by code_simp
  then show ?thesis
    by (intro publishers_are_heard) (simp_all add: toy_hmac_sound)
qed

section \<open>Configuration\<close>

lemma httpUrl_Inr:
  "httpUrl parse v name = Inr base \<longleftrightarrow>
    (\<exists>s u. v = Some s \<and> trim s \<noteq> [] \<and> parse s = Some u \<and> u_protocol u \<in> {la ''http:'', la ''https:''} \<and>
       u_username u = [] \<and> u_password u = [] \<and> base = rootOf (u_href u))"
  by (cases v) (auto simp: httpUrl_def truthy_str_def split: option.splits)

text \<open>The value of the base address an adapter speaks to: the public one in a browser, and on a server the
  server's own where it is set.\<close>

definition base_setting :: "api_env \<Rightarrow> bool \<Rightarrow> jstr option" where
  "base_setting env isServer =
    (if isServer \<and> ev_serverBaseUrl env \<noteq> None then ev_serverBaseUrl env else ev_publicBaseUrl env)"

text \<open>A production build never answers from mock data unless the flag for tests is set: where an adapter is created
  at all, it speaks to the configured address, read as a URL of HTTP or HTTPS without credentials,
  the server's own address is used on the server only, and the mode was spelled out.\<close>

theorem production_never_mocks:
  assumes "createCatalogApi parse processNodeEnv env isServer = Inr adapter"
    and "nullish (ev_nodeEnv env) (nullish processNodeEnv []) = la ''production''" and "ev_enableTestMocks env \<noteq> Some (la ''1'')"
  shows "ev_mode env = Some (la ''http'') \<and>
    (\<exists>u. parse (nullish (base_setting env isServer) []) = Some u \<and> adapter = HttpAdapter (rootOf (u_href u)) isServer \<and>
       u_protocol u \<in> {la ''http:'', la ''https:''} \<and> u_username u = [] \<and> u_password u = [])"
proof -
  have prod: "(case ev_nodeEnv env of None \<Rightarrow> processNodeEnv | Some e \<Rightarrow> Some e) = Some (la ''production'')"
    using assms(2) by (auto simp: nullish_def la_def split: option.splits)
  have "ev_mode env = Some (la ''http'')"
    using assms(1,3) prod by (auto simp: createCatalogApi_def validateApiConfig_def split: if_splits)
  then show ?thesis
    using assms(1) by (auto simp: createCatalogApi_def validateApiConfig_def result_simps httpUrl_Inr base_setting_def nullish_def la_def split: if_splits)
qed

definition toy_parse :: "jstr \<Rightarrow> web_url option" where
  "toy_parse s = (if starts_with s (la ''https://'')
     then Some \<lparr>u_protocol = la ''https:'', u_username = [], u_password = [], u_hostname = drop 8 s, u_port = [],
            u_origin = s, u_href = s @ [47], u_searchParams = []\<rparr> else None)"

definition toy_env :: api_env where
  "toy_env = \<lparr>ev_mode = Some (la ''http''), ev_publicBaseUrl = Some (la ''https://api.example.kz''), ev_serverBaseUrl = None,
     ev_nodeEnv = Some (la ''production''), ev_enableTestMocks = None\<rparr>"

theorem production_never_mocks_witness:
  "createCatalogApi toy_parse None toy_env True = Inr (HttpAdapter (la ''https://api.example.kz'') True) \<and> ev_mode toy_env = Some (la ''http'')"
proof -
  have made: "createCatalogApi toy_parse None toy_env True = Inr (HttpAdapter (la ''https://api.example.kz'') True)" by code_simp
  have prod: "nullish (ev_nodeEnv toy_env) (nullish None []) = la ''production''" by code_simp
  show ?thesis using production_never_mocks [OF made prod] made by (simp add: toy_env_def)
qed

section \<open>Analytics\<close>

text \<open>The texts an event may carry: identifiers, slugs, keys of filters, the words of the search statistics.\<close>

definition disclosed :: "jstr \<Rightarrow> bool" where
  "disclosed t \<longleftrightarrow> id_text t \<or> slug_text t \<or> filter_key_text t \<or> t \<in> sort_text ` set SORT_VALUES \<or>
     t \<in> {la ''redacted'', la ''1-3'', la ''4-10'', la ''11+''} \<or> t \<in> lang_code ` set LANGUAGES"

fun value_texts :: "field_value \<Rightarrow> jstr list" where
  "value_texts (FText t) = [t]"
| "value_texts (FItem a b) = [a, b]"
| "value_texts _ = []"

text \<open>The pages of a session: a public path, and its address without any query.\<close>

definition page_of :: "document list \<Rightarrow> jstr \<Rightarrow> jstr \<Rightarrow> bool" where
  "page_of ds url path \<longleftrightarrow> list_ex (\<lambda>d. path = dc_pathname d \<and> public_path path \<and> 10 \<notin> set path \<and> url = u_origin (dc_address d) @ path) ds"

text \<open>The only words of a query that may be told: those of the campaign vocabulary.\<close>

definition campaign_words :: "params \<Rightarrow> bool" where
  "campaign_words c \<longleftrightarrow> list_all (\<lambda>(k, v). list_ex (\<lambda>(key, allowed_values). k = key \<and> v \<in> set allowed_values) CAMPAIGNS) c"

definition known_referrer :: "(jstr \<Rightarrow> web_url option) \<Rightarrow> jstr \<Rightarrow> bool" where
  "known_referrer parse ref \<longleftrightarrow> ref = [] \<or> (\<exists>r u. parse r = Some u \<and> u_hostname u \<in> set REFERRERS \<and> ref = u_origin u @ [47])"

text \<open>A page view: the address of a page of the session, with a campaign at most, reached from a known
  site or from another page of the session.\<close>

definition view_safe ::
  "(jstr \<Rightarrow> web_url option) \<Rightarrow> (params \<Rightarrow> jstr) \<Rightarrow> (jstr \<Rightarrow> jstr \<Rightarrow> jstr) \<Rightarrow> document list \<Rightarrow> jstr \<Rightarrow> jstr \<Rightarrow> jstr \<Rightarrow> bool" where
  "view_safe parse query_text resolve ds location path referrer \<longleftrightarrow>
    (\<exists>url. page_of ds url path \<and> (location = url \<or> (\<exists>c. campaign_words c \<and> location = url @ [63] @ query_text c)) \<and>
       (known_referrer parse referrer \<or> (\<exists>u p. page_of ds u p \<and> referrer = resolve p url)))"

definition EVENT_NAMES :: "jstr list" where
  "EVENT_NAMES = map la [''view_item'', ''offers_expand'', ''category_view'', ''filter_reset'', ''filter_apply'', ''sort_change'', ''search'',
     ''search_no_results'']"

definition payload_safe :: "jstr \<Rightarrow> (jstr \<times> field_value) list \<Rightarrow> bool" where
  "payload_safe name payload \<longleftrightarrow> name \<in> set EVENT_NAMES \<and> list_all (\<lambda>v. list_all disclosed (value_texts (snd v))) payload"

text \<open>Everything a call tells, its payload and its page fields alike.\<close>

fun call_safe ::
  "(jstr \<Rightarrow> web_url option) \<Rightarrow> (params \<Rightarrow> jstr) \<Rightarrow> (jstr \<Rightarrow> jstr \<Rightarrow> jstr) \<Rightarrow> document list \<Rightarrow> provider_call \<Rightarrow> bool" where
  "call_safe parse query_text resolve ds (GtagEvent _ name payload fs) \<longleftrightarrow>
     payload_safe name payload \<and> page_of ds (pf_location fs) (pf_path fs) \<and> pf_referrer fs = []"
| "call_safe parse query_text resolve ds (YmGoal _ name payload) \<longleftrightarrow> payload_safe name payload"
| "call_safe parse query_text resolve ds (GtagConfig _ fs) \<longleftrightarrow> view_safe parse query_text resolve ds (pf_location fs) (pf_path fs) (pf_referrer fs)"
| "call_safe parse query_text resolve ds (GtagSet fs) \<longleftrightarrow> view_safe parse query_text resolve ds (pf_location fs) (pf_path fs) (pf_referrer fs)"
| "call_safe parse query_text resolve ds (GtagPageView _ fs) \<longleftrightarrow> view_safe parse query_text resolve ds (pf_location fs) (pf_path fs) (pf_referrer fs)"
| "call_safe parse query_text resolve ds (YmHit _ location referrer) \<longleftrightarrow> (\<exists>path. view_safe parse query_text resolve ds location path referrer)"
| "call_safe parse query_text resolve ds GtagJs \<longleftrightarrow> True"
| "call_safe parse query_text resolve ds (YmInit _) \<longleftrightarrow> True"

lemma eventFields_disclosed: "eventFields e = Some fs \<Longrightarrow> list_all (\<lambda>v. list_all disclosed (value_texts (snd v))) fs"
  by (cases e) (auto simp: item_fields_def category_fields_def search_fields_def disclosed_def truthy_str_def split: if_splits)

lemma path_language_public: "public_path pathname \<Longrightarrow> path_language pathname \<in> lang_code ` set LANGUAGES"
  by (auto simp: public_path_def LANGUAGES_def starts_with_iff path_language_def la_def Let_def)

lemma ensureAnalytics_page:
  "ensureAnalytics parse query_text resolve d st = (Some (ids, url), st1, calls) \<Longrightarrow> d \<in> set ds \<Longrightarrow>
    page_of ds url (dc_pathname d) \<and> public_path (dc_pathname d)"
  by (auto simp: ensureAnalytics_def analyticsPage_def Let_def page_of_def list_ex_iff split: option.splits if_splits)

text \<open>The attribution a document was entered with uses no other words.\<close>

lemma campaign_words_set: "campaign_words ps \<Longrightarrow> (k, vs) \<in> set CAMPAIGNS \<Longrightarrow> v \<in> set vs \<Longrightarrow> campaign_words (params_set k v ps)"
proof (induction ps)
  case Nil
  then show ?case by (auto simp: campaign_words_def list_ex_iff)
next
  case (Cons p ps)
  have "campaign_words (params_delete k ps)" using Cons.prems(1) by (auto simp: campaign_words_def list_all_iff params_delete_def)
  then show ?case using Cons by (auto simp: campaign_words_def list_ex_iff)
qed

lemma entry_words: "campaign_words (at_campaign (entryAttribution parse u r))" "known_referrer parse (at_referrer (entryAttribution parse u r))"
proof -
  let ?take = "\<lambda>query ps (key, allowed_values). case params_getAll query key of
          [v] \<Rightarrow> if v \<in> set allowed_values then params_set key v ps else ps | _ \<Rightarrow> ps"
  have taken: "campaign_words (?take query ps c)" if "campaign_words ps" "c \<in> set CAMPAIGNS" for query ps c
    using that by (cases c) (auto intro: campaign_words_set split: list.split)
  have steps: "campaign_words (foldl (?take query) ps cs)" if "campaign_words ps" "set cs \<subseteq> set CAMPAIGNS" for query ps cs
    using that
  proof (induction cs arbitrary: ps)
    case (Cons c cs)
    then show ?case using Cons.IH [OF taken [OF Cons.prems(1), of c query]] by simp
  qed simp
  have "campaign_words []" by (simp add: campaign_words_def)
  from steps [OF this subset_refl] show "campaign_words (at_campaign (entryAttribution parse u r))"
    by (simp add: entryAttribution_def campaign_of_def)
  show "known_referrer parse (at_referrer (entryAttribution parse u r))"
    by (auto simp: entryAttribution_def referrer_of_def known_referrer_def split: option.split)
qed

text \<open>What the state of the page remembers of the session.\<close>

definition remembers :: "(jstr \<Rightarrow> web_url option) \<Rightarrow> document list \<Rightarrow> page_state \<Rightarrow> bool" where
  "remembers parse ds st \<longleftrightarrow>
    (case pt_entry st of None \<Rightarrow> True | Some e \<Rightarrow> campaign_words (at_campaign e) \<and> known_referrer parse (at_referrer e)) \<and>
    (case pt_ga st of None \<Rightarrow> True | Some (_, p) \<Rightarrow> \<exists>u. page_of ds u p) \<and> (case pt_metrika st of None \<Rightarrow> True | Some (_, p) \<Rightarrow> \<exists>u. page_of ds u p)"

lemma with_campaign_safe: "campaign_words (at_campaign e) \<Longrightarrow>
    with_campaign query_text url first e = url \<or> (\<exists>c. campaign_words c \<and> with_campaign query_text url first e = url @ [63] @ query_text c)"
  by (auto simp: with_campaign_def)

lemma ga_pageview_safe:
  assumes "ga_pageview query_text resolve p u ga e st = (st1, calls)" and "page_of ds u p" and "remembers parse ds st"
    and "campaign_words (at_campaign e)" and "known_referrer parse (at_referrer e)"
  shows "remembers parse ds st1 \<and> list_all (call_safe parse query_text resolve ds) calls \<and>
    pt_searches st1 = pt_searches st \<and> pt_events st1 = pt_events st \<and> pt_entry st1 = pt_entry st"
proof (cases "pt_ga st = Some (ga, p)")
  case False
  let ?r = "case pt_ga st of None \<Rightarrow> at_referrer e | Some (_, path) \<Rightarrow> resolve path u"
  have "known_referrer parse ?r \<or> (\<exists>u' q. page_of ds u' q \<and> ?r = resolve q u)"
    using assms(3,5) by (auto simp: remembers_def split: option.splits)
  then have "view_safe parse query_text resolve ds (with_campaign query_text u (pt_ga st = None) e) p ?r"
    using assms(2) with_campaign_safe [OF assms(4)] unfolding view_safe_def by blast
  then show ?thesis using assms(1-3) False by (auto simp: ga_pageview_def Let_def remembers_def)
qed (use assms in \<open>simp add: ga_pageview_def\<close>)

lemma metrika_pageview_safe:
  assumes "metrika_pageview query_text resolve p u m e st = (st1, calls)" and "page_of ds u p" and "remembers parse ds st"
    and "campaign_words (at_campaign e)" and "known_referrer parse (at_referrer e)"
  shows "remembers parse ds st1 \<and> list_all (call_safe parse query_text resolve ds) calls \<and>
    pt_searches st1 = pt_searches st \<and> pt_events st1 = pt_events st \<and> pt_entry st1 = pt_entry st"
proof (cases "pt_metrika st = Some (m, p)")
  case False
  let ?r = "case pt_metrika st of None \<Rightarrow> at_referrer e | Some (_, path) \<Rightarrow> resolve path u"
  have "known_referrer parse ?r \<or> (\<exists>u' q. page_of ds u' q \<and> ?r = resolve q u)"
    using assms(3,5) by (auto simp: remembers_def split: option.splits)
  then have "view_safe parse query_text resolve ds (with_campaign query_text u (pt_metrika st = None) e) p ?r"
    using assms(2) with_campaign_safe [OF assms(4)] unfolding view_safe_def by blast
  then show ?thesis using assms(1-3) False by (auto simp: metrika_pageview_def Let_def remembers_def)
qed (use assms in \<open>simp add: metrika_pageview_def\<close>)

lemma pageview_safe:
  assumes "pageview query_text resolve p u ids e st = (st1, calls)" and page: "page_of ds u p" and "remembers parse ds st"
    and "campaign_words (at_campaign e)" and "known_referrer parse (at_referrer e)"
  shows "remembers parse ds st1 \<and> list_all (call_safe parse query_text resolve ds) calls \<and>
    pt_searches st1 = pt_searches st \<and> pt_events st1 \<in> {pt_events st, []}"
proof -
  define s0 where "s0 = enter_page p e st"
  define e0 where "e0 = the (pt_entry s0)"
  have s0: "remembers parse ds s0" "pt_searches s0 = pt_searches st" "pt_events s0 \<in> {pt_events st, []}"
    and e0: "campaign_words (at_campaign e0)" "known_referrer parse (at_referrer e0)"
    using assms(3-5) by (auto simp: s0_def e0_def enter_page_def remembers_def nullish_def Let_def split: option.split)
  obtain s1 c1 where ga: "(case ai_ga ids of None \<Rightarrow> (s0, []) | Some ga \<Rightarrow> ga_pageview query_text resolve p u ga e0 s0) = (s1, c1)" by fastforce
  have s1: "remembers parse ds s1 \<and> list_all (call_safe parse query_text resolve ds) c1 \<and> pt_searches s1 = pt_searches s0 \<and> pt_events s1 = pt_events s0"
    using ga ga_pageview_safe [OF _ page s0(1) e0] s0(1) by (auto split: option.splits)
  obtain s2 c2 where ym: "(case ai_metrika ids of None \<Rightarrow> (s1, []) | Some m \<Rightarrow> metrika_pageview query_text resolve p u m e0 s1) = (s2, c2)" by fastforce
  have s2: "remembers parse ds s2 \<and> list_all (call_safe parse query_text resolve ds) c2 \<and> pt_searches s2 = pt_searches s1 \<and> pt_events s2 = pt_events s1"
    using ym metrika_pageview_safe [OF _ page _ e0] s1 by (auto split: option.splits)
  have "pageview query_text resolve p u ids e st = (s2, c1 @ c2)"
    unfolding pageview_def Let_def s0_def [symmetric] e0_def [symmetric] ga prod.case ym by simp
  then show ?thesis using assms(1) s0 s1 s2 by simp
qed

lemma ensureAnalytics_safe:
  assumes "ensureAnalytics parse query_text resolve d st = (r, st1, calls)" and d: "d \<in> set ds" and "remembers parse ds st"
  shows "remembers parse ds st1 \<and> list_all (call_safe parse query_text resolve ds) calls \<and>
    pt_searches st1 = pt_searches st \<and> pt_events st1 \<in> {pt_events st, []}"
proof (cases r)
  case None
  then show ?thesis using assms by (auto simp: ensureAnalytics_def Let_def split: option.splits if_splits)
next
  case (Some iu)
  then obtain ids url where iu: "r = Some (ids, url)" by (cases iu) auto
  have "pageview query_text resolve (dc_pathname d) url ids (entryAttribution parse (dc_address d) (dc_referrer d)) st = (st1, calls)"
    using assms(1) iu by (auto simp: ensureAnalytics_def Let_def split: option.splits if_splits)
  then show ?thesis
    using pageview_safe [OF _ _ assms(3) entry_words] ensureAnalytics_page [OF assms(1) [unfolded iu] d] by blast
qed

text \<open>A session: what is told to the providers while events happen in documents.\<close>

fun track_all ::
  "(jstr \<Rightarrow> web_url option) \<Rightarrow> (params \<Rightarrow> jstr) \<Rightarrow> (jstr \<Rightarrow> jstr \<Rightarrow> jstr) \<Rightarrow> (document \<times> product_event \<times> jstr option) list \<Rightarrow> page_state \<Rightarrow>
   page_state \<times> provider_call list" where
  "track_all parse query_text resolve [] st = (st, [])"
| "track_all parse query_text resolve ((d, e, k) # es) st =
    (let (st1, calls) = trackProductEvent parse query_text resolve d e k st; (st2, more) = track_all parse query_text resolve es st1
     in (st2, calls @ more))"

definition keys_bounded :: "page_state \<Rightarrow> bool" where
  "keys_bounded st \<longleftrightarrow> distinct (pt_events st) \<and> length (pt_events st) \<le> MAX_EVENT_KEYS \<and>
     distinct (pt_searches st) \<and> length (pt_searches st) \<le> MAX_EVENT_KEYS"

lemma event_name_known: "event_name e \<in> set EVENT_NAMES"
  by (cases e) (simp_all add: EVENT_NAMES_def)

lemma send_event_safe:
  assumes "eventFields e = Some fs" and "page_of ds url pathname" and "public_path pathname"
  shows "list_all (call_safe parse query_text resolve ds) (send_event ids url pathname e fs)"
  using eventFields_disclosed [OF assms(1)] path_language_public [OF assms(3)] assms(2) event_name_known [of e]
  by (auto simp: send_event_def Let_def payload_safe_def disclosed_def list.pred_map comp_def split: option.splits)

lemma trackProductEvent_safe:
  assumes "trackProductEvent parse query_text resolve d e k st = (st1, calls)" and d: "d \<in> set ds" and "keys_bounded st" and "remembers parse ds st"
  shows "keys_bounded st1 \<and> remembers parse ds st1 \<and> list_all (call_safe parse query_text resolve ds) calls"
proof (cases "eventFields e")
  case None
  then show ?thesis using assms by (simp add: trackProductEvent_def)
next
  case fs: (Some fs)
  obtain r s cs where en: "ensureAnalytics parse query_text resolve d st = (r, s, cs)" by (metis prod_cases3)
  note kept = ensureAnalytics_safe [OF en d assms(4)]
  have kb: "keys_bounded s" using assms(3) kept by (auto simp: keys_bounded_def)
  show ?thesis
  proof (cases r)
    case None
    then show ?thesis using assms(1) fs en kb kept by (simp add: trackProductEvent_def)
  next
    case (Some iu)
    then obtain ids url where iu: "r = Some (ids, url)" by (cases iu) auto
    have page: "page_of ds url (dc_pathname d)" "public_path (dc_pathname d)" using ensureAnalytics_page [OF en [unfolded iu] d] by simp_all
    note sent = send_event_safe [OF fs page, of parse query_text resolve ids]
    show ?thesis
      using assms(1) fs en kb kept sent unfolding iu
      by (auto simp: trackProductEvent_def Let_def keys_bounded_def remembers_def split: if_splits)
  qed
qed

lemma track_all_safe:
  "track_all parse query_text resolve es st = (st', calls) \<Longrightarrow> set (map fst es) \<subseteq> set ds \<Longrightarrow> keys_bounded st \<Longrightarrow> remembers parse ds st \<Longrightarrow>
    keys_bounded st' \<and> list_all (call_safe parse query_text resolve ds) calls"
proof (induction es arbitrary: st st' calls)
  case (Cons x es)
  obtain d e k where x: "x = (d, e, k)" by (cases x)
  obtain st1 cs where one: "trackProductEvent parse query_text resolve d e k st = (st1, cs)" by fastforce
  obtain st2 more where rest: "track_all parse query_text resolve es st1 = (st2, more)" by fastforce
  have d: "d \<in> set ds" "set (map fst es) \<subseteq> set ds" using Cons.prems(2) by (simp_all add: x)
  note first = trackProductEvent_safe [OF one d(1) Cons.prems(3,4)]
  have "keys_bounded st2 \<and> list_all (call_safe parse query_text resolve ds) more" using Cons.IH [OF rest d(2)] first by simp
  then show ?case using Cons.prems(1) first by (auto simp: x one rest)
qed simp

text \<open>C32: Product events tell the providers nothing but the vocabulary of the site, whatever happens in a
  session and whatever addresses its documents have: the name of an event is one of eight; every text of its
  payload is an identifier, a slug, a filter key, a sort order, a length class or a language; the
  page sent along is the canonical address of a public page of the session, without query or
  referrer. The page views that precede them name such a page too, followed at most by words of the
  campaign vocabulary, and as referrer a known site or a page of the session. So the text of a
  search, which the addresses hold, is never sent. The remembered keys are distinct and at most 512.\<close>

theorem events_disclose_no_text:
  "let (st, calls) = track_all parse query_text resolve es fresh_page_state
   in keys_bounded st \<and> list_all (call_safe parse query_text resolve (map fst es)) calls"
proof -
  obtain st calls where run: "track_all parse query_text resolve es fresh_page_state = (st, calls)" by fastforce
  have "keys_bounded st \<and> list_all (call_safe parse query_text resolve (map fst es)) calls"
    by (rule track_all_safe [OF run]) (simp_all add: keys_bounded_def remembers_def fresh_page_state_def)
  then show ?thesis by (simp add: run)
qed

text \<open>A search for milk, whose text stands in the address of the document.\<close>

definition toy_document :: document where
  "toy_document = \<lparr>dc_site = Some (la ''https://adilbaga.kz''),
     dc_address = \<lparr>u_protocol = la ''https:'', u_username = [], u_password = [], u_hostname = la ''adilbaga.kz'', u_port = [],
        u_origin = la ''https://adilbaga.kz'', u_href = la ''https://adilbaga.kz/ru/search?q=milk'', u_searchParams = [(la ''q'', la ''milk'')]\<rparr>,
     dc_pathname = la ''/ru/search'', dc_ga = Some (la ''G-ABCDEF12''), dc_metrika = Some (la ''12345''), dc_referrer = []\<rparr>"

definition toy_calls :: "provider_call list" where
  "toy_calls = snd (track_all toy_parse (\<lambda>_. []) (\<lambda>_ u. u) [(toy_document, Search 4 0, None)] fresh_page_state)"

lemma toy_sent: "list_ex (\<lambda>c. case c of GtagEvent _ name _ _ \<Rightarrow> name = la ''search'' | _ \<Rightarrow> False) toy_calls"
  by code_simp

theorem events_disclose_no_text_witness:
  "\<exists>ga payload fs. GtagEvent ga (la ''search'') payload fs \<in> set toy_calls \<and> pf_location fs = la ''https://adilbaga.kz/ru/search''"
proof -
  obtain c where c: "c \<in> set toy_calls" "case c of GtagEvent _ name _ _ \<Rightarrow> name = la ''search'' | _ \<Rightarrow> False"
    using toy_sent by (auto simp: list_ex_iff)
  from c(2) obtain ga payload fs where "c = GtagEvent ga (la ''search'') payload fs" by (auto split: provider_call.splits)
  with c(1) have sent: "GtagEvent ga (la ''search'') payload fs \<in> set toy_calls" by simp
  have "list_all (call_safe toy_parse (\<lambda>_. []) (\<lambda>_ u. u) [toy_document]) toy_calls"
    using events_disclose_no_text [of toy_parse "\<lambda>_. []" "\<lambda>_ u. u" "[(toy_document, Search 4 0, None)]"]
    by (simp only: toy_calls_def Let_def case_prod_beta list.map fst_conv)
  then have "page_of [toy_document] (pf_location fs) (pf_path fs)" using sent by (auto simp: list_all_iff)
  then have "pf_location fs = u_origin (dc_address toy_document) @ dc_pathname toy_document" by (auto simp: page_of_def)
  moreover have "u_origin (dc_address toy_document) @ dc_pathname toy_document = la ''https://adilbaga.kz/ru/search''" by code_simp
  ultimately show ?thesis using sent by metis
qed

lemma ga_again:
  assumes "ga_pageview query_text resolve p u ga e st = (st1, calls)"
  shows "pt_ga st1 = Some (ga, p)" and "pt_metrika st1 = pt_metrika st" and "pt_entry st1 = pt_entry st" and "pt_path st1 = pt_path st"
  using assms by (auto simp: ga_pageview_def Let_def split: if_splits)

lemma metrika_again:
  assumes "metrika_pageview query_text resolve p u m e st = (st1, calls)"
  shows "pt_metrika st1 = Some (m, p)" and "pt_ga st1 = pt_ga st" and "pt_entry st1 = pt_entry st" and "pt_path st1 = pt_path st"
  using assms by (auto simp: metrika_pageview_def Let_def split: if_splits)

lemma pageview_after:
  assumes "pageview query_text resolve p u ids e st = (st1, calls)"
  shows "pt_path st1 = Some p" and "pt_entry st1 \<noteq> None"
    and "ai_ga ids = Some ga \<Longrightarrow> pt_ga st1 = Some (ga, p)" and "ai_metrika ids = Some m \<Longrightarrow> pt_metrika st1 = Some (m, p)"
  using assms
  by (auto simp: pageview_def enter_page_def Let_def nullish_def ga_again metrika_again split: option.splits prod.splits if_splits)

lemma pageview_again:
  assumes "pt_path st = Some p" and "pt_entry st \<noteq> None"
    and "\<And>ga. ai_ga ids = Some ga \<Longrightarrow> pt_ga st = Some (ga, p)" and "\<And>m. ai_metrika ids = Some m \<Longrightarrow> pt_metrika st = Some (m, p)"
  shows "pageview query_text resolve p u ids e st = (st, [])"
proof -
  obtain x where x: "pt_entry st = Some x" using assms(2) by auto
  have "enter_page p e st = st" using assms(1) x by (simp add: enter_page_def nullish_def)
  then show ?thesis
    using assms(3,4)
    by (cases "ai_ga ids"; cases "ai_metrika ids") (simp_all add: pageview_def ga_pageview_def metrika_pageview_def Let_def)
qed

lemma ensureAnalytics_again:
  assumes "ensureAnalytics parse query_text resolve d st = (r, st1, calls)"
  shows "ensureAnalytics parse query_text resolve d (st1\<lparr>pt_searches := ss, pt_events := es\<rparr>) =
    (r, st1\<lparr>pt_searches := ss, pt_events := es\<rparr>, [])"
proof (cases r)
  case None
  then show ?thesis using assms by (auto simp: ensureAnalytics_def Let_def split: option.splits if_splits)
next
  case (Some iu)
  then obtain ids url where iu: "iu = (ids, url)" "r = Some (ids, url)" by (cases iu) auto
  have ids: "ids = analyticsIds (dc_ga d) (dc_metrika d)" "\<not> (ai_ga ids = None \<and> ai_metrika ids = None)"
    "analyticsPage parse (nullish (dc_site d) []) (u_origin (dc_address d)) (dc_pathname d) = Some url"
    "pageview query_text resolve (dc_pathname d) url ids (entryAttribution parse (dc_address d) (dc_referrer d)) st = (st1, calls)"
    using assms iu(2) by (auto simp: ensureAnalytics_def Let_def split: option.splits if_splits)
  have "pageview query_text resolve (dc_pathname d) url ids (entryAttribution parse (dc_address d) (dc_referrer d)) (st1\<lparr>pt_searches := ss, pt_events := es\<rparr>) =
      (st1\<lparr>pt_searches := ss, pt_events := es\<rparr>, [])"
    using pageview_after [OF ids(4)] by (intro pageview_again) auto
  then show ?thesis using ids iu(2) unfolding ensureAnalytics_def Let_def by simp
qed

lemma ensureAnalytics_stays:
  "ensureAnalytics parse query_text resolve d st = (r, st1, calls) \<Longrightarrow> ensureAnalytics parse query_text resolve d st1 = (r, st1, [])"
  using ensureAnalytics_again [where ss = "pt_searches st1" and es = "pt_events st1" and st = st and ?st1.0 = st1] by simp

text \<open>An event with a key counts once: repeating it in the same document tells the providers nothing more and changes
  nothing, whether it was sent, refused or the page is not one that is measured.\<close>

theorem event_counts_once:
  assumes "truthy_str k"
  shows "let (st1, _) = trackProductEvent parse query_text resolve d e k st
         in trackProductEvent parse query_text resolve d e k st1 = (st1, [])"
proof (cases "eventFields e")
  case None
  then show ?thesis by (simp add: trackProductEvent_def)
next
  case (Some fs)
  obtain r s cs where en: "ensureAnalytics parse query_text resolve d st = (r, s, cs)" by (metis prod_cases3)
  note again = ensureAnalytics_stays [OF en] ensureAnalytics_again [OF en, where es = "pt_events s", simplified]
    ensureAnalytics_again [OF en, where ss = "pt_searches s", simplified]
  have colon: "truthy_str (Some (p @ 58 # x))" for p x by (simp add: truthy_str_def)
  show ?thesis
    using assms by (cases r) (auto simp: trackProductEvent_def Some en again Let_def colon split: if_splits)
qed

theorem event_counts_once_witness:
  "case trackProductEvent toy_parse (\<lambda>_. []) (\<lambda>_ u. u) toy_document (Search 4 0) (Some (la ''milk'')) fresh_page_state of
     (st1, calls) \<Rightarrow> calls \<noteq> [] \<and> trackProductEvent toy_parse (\<lambda>_. []) (\<lambda>_ u. u) toy_document (Search 4 0) (Some (la ''milk'')) st1 = (st1, [])"
proof -
  have "truthy_str (Some (la ''milk''))" by code_simp
  note once = event_counts_once [OF this, of toy_parse "\<lambda>_. []" "\<lambda>_ u. u" toy_document "Search 4 0" fresh_page_state]
  have "snd (trackProductEvent toy_parse (\<lambda>_. []) (\<lambda>_ u. u) toy_document (Search 4 0) (Some (la ''milk'')) fresh_page_state) \<noteq> []" by code_simp
  then show ?thesis using once by (auto split: prod.splits)
qed

end
