(* ===== verification/Receiver.thy ===== *)
theory Receiver
  imports Observer
begin

text \<open>
  The receiver of the publication event (\<open>scripts/revalidation/fifo-adapter.mjs\<close>): the calibration
  of the publisher's clock against the observer's, the wait for the one message in the FIFO, its
  checks, and the window of the event it opens. Times are nanoseconds as integers; the file
  system, the readings of the clocks, \<open>JSON.parse\<close> and \<open>JSON.stringify\<close> are parameters. The
  conversion to milliseconds is exact here; the source rounds the same quotients to doubles.
\<close>

section \<open>The clocks\<close>

text \<open>\<open>/^[1-9][0-9]{0,19}$/\<close>.\<close>

definition ns_text :: "jstr \<Rightarrow> bool" where
  "ns_text s \<longleftrightarrow> s \<noteq> [] \<and> length s \<le> 20 \<and> list_all digit_ch s \<and> hd s \<noteq> 48"

datatype clock_error = UnsupportedPlatform | ClockProbeFailed | ClockProbeInvalid | ClockUncertain

text \<open>One sample: the observer's clock before and after, and what the probe printed in between.\<close>

record clock_sample =
  cs_before :: int
  cs_after :: int
  cs_probe :: "(jval \<times> jval) option"    \<comment> \<open>boot identifier and monotonic time\<close>

record calibration =
  cb_bootId :: jstr
  cb_lower :: int
  cb_upper :: int
  cb_measuredAt :: int

definition mono_of :: "clock_sample \<Rightarrow> int" where
  "mono_of x = (case cs_probe x of Some (_, JStr s) \<Rightarrow> digits_val s | _ \<Rightarrow> 0)"

fun narrow :: "jstr \<Rightarrow> (int \<times> int) option \<Rightarrow> clock_sample list \<Rightarrow> clock_error + (int \<times> int) option" where
  "narrow bootId b [] = Inr b"
| "narrow bootId b (x # xs) =
    (case cs_probe x of
       None \<Rightarrow> Inl ClockProbeFailed
     | Some (boot, reading) \<Rightarrow>
         if boot \<noteq> JStr bootId \<or> \<not> str_is ns_text reading then Inl ClockProbeInvalid
         else let lo = cs_before x - mono_of x; hi = cs_after x - mono_of x
           in narrow bootId (case b of None \<Rightarrow> Some (lo, hi)
                | Some (l, u) \<Rightarrow> Some (if lo > l then lo else l, if hi < u then hi else u)) xs)"

text \<open>The source takes five samples; \<open>measuredAt\<close> is the clock at the end.\<close>

definition calibrateClock :: "bool \<Rightarrow> jstr \<Rightarrow> clock_sample list \<Rightarrow> int \<Rightarrow> clock_error + calibration" where
  "calibrateClock linux bootId samples measuredAt =
    (if \<not> linux then Inl UnsupportedPlatform
     else and_then (narrow bootId None samples) (\<lambda>b.
       case b of
         None \<Rightarrow> Inl ClockUncertain
       | Some (lower, upper) \<Rightarrow>
           if lower > upper \<or> lower > 0 \<or> upper < 0 \<or> upper - lower > 100000000 then Inl ClockUncertain
           else Inr \<lparr>cb_bootId = bootId, cb_lower = lower, cb_upper = upper, cb_measuredAt = measuredAt\<rparr>))"

section \<open>Waiting for the message\<close>

datatype recv_reason =
    ProductionTransportFixed | ClockUnverified | InvalidRun | ClockOrReaderUnavailable | FifoReadFailed
  | PartialOrOversized | SupervisionExpired | EventMissing | SupervisionBudget | InvalidMessage | UnrelatedEvent
  | BootMismatch | DuplicateOrCapacity | NotAccepted204 jval | EventExpired | ManifestUnverified | FixtureTransportRequired
  | EventClockUncertain | LedgerUnavailable | IpcUnavailable

definition CALIBRATION_AGE :: int where "CALIBRATION_AGE = 60000000000"
definition REFRESH_AGE :: int where "REFRESH_AGE = 30000000000"
definition SUPERVISION_NS :: int where "SUPERVISION_NS = 2100000000000"
definition BUDGET_NS :: int where "BUDGET_NS = 31000000000"

text \<open>What the receiver was opened with; \<open>rc_calibration\<close> is \<open>None\<close> for one that was not made here.\<close>

record receiver =
  rc_persistent :: bool
  rc_attemptId :: jval
  rc_calibration :: "calibration option"
  rc_armedAt :: int

definition usable_calibration :: "calibration option \<Rightarrow> jstr \<Rightarrow> int \<Rightarrow> bool" where
  "usable_calibration c boot now =
    (case c of None \<Rightarrow> False | Some k \<Rightarrow> cb_bootId k = boot \<and> \<not> now - cb_measuredAt k > CALIBRATION_AGE)"

text \<open>\<open>intact\<close>: the FIFO at the path is still the opened one.\<close>

definition isArmed :: "receiver \<Rightarrow> bool \<Rightarrow> jstr \<Rightarrow> int \<Rightarrow> bool \<Rightarrow> bool" where
  "isArmed rc is_closed boot now intact \<longleftrightarrow> \<not> is_closed \<and> usable_calibration (rc_calibration rc) boot now \<and> intact"

definition start_observe :: "receiver \<Rightarrow> bool \<Rightarrow> bool \<Rightarrow> jval \<Rightarrow> jstr \<Rightarrow> int \<Rightarrow> recv_reason + int" where
  "start_observe rc has_get has_sleep waitMs boot now =
    (if rc_persistent rc \<and> (has_get \<or> has_sleep) then Inl ProductionTransportFixed
     else if \<not> usable_calibration (rc_calibration rc) boot now then Inl ClockUnverified
     else if \<not> str_is (is_hex 32) (rc_attemptId rc) \<or> \<not> rc_persistent rc \<and> \<not> int_in 1 10000 waitMs then Inl InvalidRun
     else Inr (if rc_persistent rc then rc_armedAt rc + SUPERVISION_NS
               else now + (case waitMs of JNum (Fin q) \<Rightarrow> \<lfloor>q\<rfloor> | _ \<Rightarrow> 0) * 1000000))"

datatype fifo_read = NoData | ReadFailed | FifoData nat jstr

text \<open>
  One turn of the loop: what the refresh of the calibration came to before it, the readings of
  the clock at the loop's condition, for the age and after the read, and the read itself.
\<close>

record poll =
  po_refreshed :: "calibration option option"
  po_test :: int
  po_age :: int
  po_boot :: jstr
  po_closed :: bool
  po_read :: fifo_read
  po_done :: int

record waiting =
  wt_calibration :: calibration
  wt_refreshing :: bool
  wt_refreshError :: bool

definition settle_refresh :: "poll \<Rightarrow> waiting \<Rightarrow> waiting" where
  "settle_refresh p w =
    (if \<not> wt_refreshing w then w
     else case po_refreshed p of
            None \<Rightarrow> w
          | Some None \<Rightarrow> w\<lparr>wt_refreshing := False, wt_refreshError := True\<rparr>
          | Some (Some c) \<Rightarrow> w\<lparr>wt_refreshing := False, wt_calibration := c\<rparr>)"

text \<open>The result of a turn: \<open>None\<close> to go on.\<close>

definition poll_once :: "bool \<Rightarrow> int \<Rightarrow> poll \<Rightarrow> waiting \<Rightarrow> (recv_reason + jstr) option \<times> waiting" where
  "poll_once persistent deadline p w0 =
    (let w = settle_refresh p w0; age = po_age p - cb_measuredAt (wt_calibration w);
         w' = (if persistent \<and> \<not> wt_refreshing w \<and> age > REFRESH_AGE then w\<lparr>wt_refreshing := True\<rparr> else w)
     in if \<not> po_test p < deadline then (Some (Inl EventMissing), w)
        else if persistent \<and> (wt_refreshError w \<or> age > CALIBRATION_AGE \<or> po_boot p \<noteq> cb_bootId (wt_calibration w) \<or> po_closed p)
        then (Some (Inl ClockOrReaderUnavailable), w)
        else case po_read p of
               ReadFailed \<Rightarrow> (Some (Inl FifoReadFailed), w')
             | NoData \<Rightarrow> (None, w')
             | FifoData n raw \<Rightarrow>
                 if n = 0 then (None, w')
                 else if n > 4096 \<or> \<not> ends_with raw [10] \<or> 10 \<in> set (butlast raw) then (Some (Inl PartialOrOversized), w')
                 else if persistent \<and> po_done p \<ge> deadline then (Some (Inl SupervisionExpired), w')
                 else (Some (Inr raw), w'))"

text \<open>\<open>None\<close>: still waiting after these turns.\<close>

fun wait_message :: "bool \<Rightarrow> int \<Rightarrow> poll list \<Rightarrow> waiting \<Rightarrow> (recv_reason + jstr) option \<times> waiting" where
  "wait_message persistent deadline [] w = (None, w)"
| "wait_message persistent deadline (p # ps) w =
    (case poll_once persistent deadline p w of
       (None, w') \<Rightarrow> wait_message persistent deadline ps w'
     | r \<Rightarrow> r)"

section \<open>The message\<close>

definition EVENT_KEYS :: "jstr list" where
  "EVENT_KEYS = [la ''version'', la ''snapshotId'', la ''attemptId'', la ''status'', la ''startMono'', la ''endMono'', la ''bootId'', la ''errorClass'']"

definition read_event :: "(jstr \<Rightarrow> jval option) \<Rightarrow> (jval \<Rightarrow> jstr) \<Rightarrow> jstr \<Rightarrow> recv_reason + (jstr \<times> jval) list" where
  "read_event parse stringify raw =
    (case parse raw of
       Some (JObj ob) \<Rightarrow>
         if stringify (JObj ob) @ [10] \<noteq> raw \<or> join (la '','') (js_keys ob) \<noteq> join (la '','') EVENT_KEYS \<or>
            obj_get ob (la ''version'') \<noteq> JNum (Fin 1) \<or> \<not> str_is ns_text (obj_get ob (la ''startMono'')) \<or> \<not> str_is ns_text (obj_get ob (la ''endMono''))
         then Inl InvalidMessage else Inr ob
     | _ \<Rightarrow> Inl InvalidMessage)"

definition MAX_CONSUMED :: nat where "MAX_CONSUMED = 256"

text \<open>The identity of an event, and its check against those this process has used up.\<close>

definition identify :: "jval \<Rightarrow> calibration \<Rightarrow> jstr list \<Rightarrow> (jstr \<times> jval) list \<Rightarrow> recv_reason + jstr" where
  "identify attemptId c consumed ob =
    (if \<not> str_is is_uuid (obj_get ob (la ''snapshotId'')) \<or> obj_get ob (la ''attemptId'') \<noteq> attemptId then Inl UnrelatedEvent
     else if obj_get ob (la ''bootId'') \<noteq> JStr (cb_bootId c) then Inl BootMismatch
     else let i = str_of (obj_get ob (la ''snapshotId'')) @ [58] @ str_of attemptId
       in if i \<in> set consumed \<or> length consumed \<ge> MAX_CONSUMED then Inl DuplicateOrCapacity else Inr i)"

text \<open>
  Whether the projection or the manifest the receiver was opened with may be used: with a
  projection its custody, and that it is qualified; without one that the manifest names this event.
\<close>

record evidence =
  ve_owned :: bool
  ve_before :: jval
  ve_production :: bool
  ve_fixture :: bool
  ve_has_after :: bool

datatype evidence_source =
    FromProjection evidence
  | FromManifest jval

definition evidence_ok :: "bool \<Rightarrow> bool \<Rightarrow> jval \<Rightarrow> jval \<Rightarrow> evidence_source \<Rightarrow> recv_reason + unit" where
  "evidence_ok persistent has_get attemptId snapshotId source =
    (case source of
       FromProjection v \<Rightarrow>
         and_then (require (ve_owned v \<and> field (ve_before v) (la ''attemptId'') = attemptId \<and> prepareBeforeV2 (ve_before v) \<noteq> None \<and>
           (if persistent then ve_production v else ve_fixture v) \<and> ve_has_after v) ManifestUnverified) (\<lambda>_.
           require (has_get \<or> persistent) FixtureTransportRequired)
     | FromManifest m \<Rightarrow>
         and_then (require (field m (la ''snapshotId'') = snapshotId \<and> field m (la ''attemptId'') = attemptId) ManifestUnverified) (\<lambda>_.
           require (field m (la ''fixtureOnly'') = JBool True \<longrightarrow> has_get) FixtureTransportRequired))"

text \<open>The moments of the event on the observer's clock relative to \<open>anchor\<close>, in milliseconds, rounded outward.\<close>

definition ms_down :: "int \<Rightarrow> rat" where "ms_down d = of_int (d div 1000) / 1000"
definition ms_up :: "int \<Rightarrow> rat" where "ms_up d = of_int (- ((- d) div 1000)) / 1000"

definition event_bounds :: "calibration \<Rightarrow> int \<Rightarrow> int \<Rightarrow> int \<Rightarrow> recv_reason + rat \<times> rat" where
  "event_bounds c start finish anchor =
    (let beginDelta = start + cb_lower c - anchor; endDelta = finish + cb_upper c - anchor;
         beginMs = ms_down beginDelta; endMs = ms_up endDelta
     in if beginDelta < - 20000000000 \<or> endDelta > 100000000 \<or> endDelta < beginDelta then Inl EventClockUncertain
        else if endMs - beginMs \<ge> 5000 \<or> beginMs < - 20000 then Inl EventClockUncertain
        else Inr (beginMs, endMs))"

definition mono_field :: "(jstr \<times> jval) list \<Rightarrow> jstr \<Rightarrow> int" where
  "mono_field ob k = digits_val (str_of (obj_get ob k))"

text \<open>Accepting the message: \<open>refreshFailed\<close> is the state of the refresh, \<open>now\<close> and \<open>nowNS\<close> two readings.\<close>

definition accept_message ::
  "(jstr \<Rightarrow> jval option) \<Rightarrow> (jval \<Rightarrow> jstr) \<Rightarrow> receiver \<Rightarrow> waiting \<Rightarrow> int \<Rightarrow> bool \<Rightarrow> evidence_source \<Rightarrow> int \<Rightarrow> int \<Rightarrow> jstr \<Rightarrow> jstr list \<Rightarrow>
   (recv_reason + (jstr \<times> jval) list \<times> rat \<times> rat) \<times> jstr list" where
  "accept_message parse stringify rc w deadline has_get source now nowNS raw consumed =
    (if rc_persistent rc \<and> wt_refreshError w then (Inl ClockUnverified, consumed)
     else if rc_persistent rc \<and> deadline - now < BUDGET_NS then (Inl SupervisionBudget, consumed)
     else case and_then (read_event parse stringify raw) (\<lambda>ob.
                and_then (identify (rc_attemptId rc) (wt_calibration w) consumed ob) (\<lambda>i. Inr (ob, i))) of
            Inl e \<Rightarrow> (Inl e, consumed)
          | Inr (ob, i) \<Rightarrow>
              (if obj_get ob (la ''status'') \<noteq> JNum (Fin 204) \<or> obj_get ob (la ''errorClass'') \<noteq> JStr (la ''none'')
               then Inl (NotAccepted204 (JObj ob))
               else let start = mono_field ob (la ''startMono''); finish = mono_field ob (la ''endMono''); c = wt_calibration w
                 in if nowNS - cb_measuredAt c > CALIBRATION_AGE then Inl ClockUnverified
                    else if start > finish \<or> finish + cb_lower c > nowNS \<or> nowNS - (finish + cb_lower c) > 5000000000 then Inl EventExpired
                    else and_then (evidence_ok (rc_persistent rc) has_get (rc_attemptId rc) (obj_get ob (la ''snapshotId'')) source) (\<lambda>_.
                         and_then (event_bounds c start finish nowNS) (\<lambda>(b, e). Inr (ob, b, e))), consumed @ [i]))"

text \<open>The event's window: begun at the earlier bound and accepted at the later one.\<close>

definition receipt_of :: "(jstr \<times> jval) list \<Rightarrow> calibration \<Rightarrow> jval" where
  "receipt_of ob c = JObj (ob @
     [(la ''calibrationLowerNs'', JStr (show_int (cb_lower c))), (la ''calibrationUpperNs'', JStr (show_int (cb_upper c))),
      (la ''calibrationMeasuredAtNs'', JStr (show_int (cb_measuredAt c)))])"

definition open_window :: "jstr \<Rightarrow> (jstr \<times> jval) list \<Rightarrow> calibration \<Rightarrow> rat \<Rightarrow> rat \<Rightarrow> rat \<Rightarrow> recv_reason + event_source" where
  "open_window attemptId ob c beginMs endMs utc =
    (case and_then (begin_event new_source attemptId beginMs) (\<lambda>s. accept204 s 204 (receipt_of ob c) endMs utc) of
       Inl _ \<Rightarrow> Inl IpcUnavailable
     | Inr s \<Rightarrow> Inr s)"

text \<open>
  What happens then in production: the hook of the supervisor, which may throw, the capture, and
  the request for the projection after the publication, each with the deadline looked at again.
\<close>

definition conclude :: "bool \<Rightarrow> bool option \<Rightarrow> bool \<Rightarrow> jval \<Rightarrow> bool \<Rightarrow> jval \<Rightarrow> bool \<Rightarrow> recv_reason + jval" where
  "conclude persistent hook captured capture late_capture after late_after =
    (if persistent \<and> hook = None then Inl LedgerUnavailable
     else if persistent \<and> hook = Some False then Inl IpcUnavailable
     else if \<not> captured then Inr capture
     else if persistent \<and> late_capture then Inl SupervisionExpired
     else if persistent \<and> late_after then Inl SupervisionExpired
     else Inr after)"

section \<open>Lemmas\<close>

text \<open>Where the difference of the clocks is constant, the bounds keep it.\<close>

definition brackets :: "int \<Rightarrow> clock_sample \<Rightarrow> bool" where
  "brackets difference x \<longleftrightarrow> cs_before x \<le> mono_of x + difference \<and> mono_of x + difference \<le> cs_after x"

lemma narrow_keeps:
  "narrow bootId b xs = Inr (Some (l, u)) \<Longrightarrow> list_all (brackets difference) xs \<Longrightarrow>
    (case b of None \<Rightarrow> True | Some (l0, u0) \<Rightarrow> l0 \<le> difference \<and> difference \<le> u0) \<Longrightarrow> l \<le> difference \<and> difference \<le> u"
proof (induction bootId b xs arbitrary: l u rule: narrow.induct)
  case (2 bootId b x xs)
  obtain boot reading where p: "cs_probe x = Some (boot, reading)" "boot = JStr bootId" "str_is ns_text reading"
    using "2.prems"(1) by (auto split: option.splits if_splits)
  let ?b = "case b of None \<Rightarrow> Some (cs_before x - mono_of x, cs_after x - mono_of x)
     | Some (l, u) \<Rightarrow> Some (if cs_before x - mono_of x > l then cs_before x - mono_of x else l, if cs_after x - mono_of x < u then cs_after x - mono_of x else u)"
  have step: "narrow bootId ?b xs = Inr (Some (l, u))" using "2.prems"(1) p by (simp add: Let_def)
  have "case ?b of None \<Rightarrow> True | Some (l0, u0) \<Rightarrow> l0 \<le> difference \<and> difference \<le> u0"
    using "2.prems"(2,3) by (auto simp: brackets_def split: option.splits)
  then show ?case using "2.IH" [OF p(1) refl _ refl refl step] p "2.prems"(2) by simp
qed simp

lemma calibrateClock_sound:
  assumes "calibrateClock linux bootId samples t = Inr c" and "list_all (brackets difference) samples"
  shows "cb_lower c \<le> difference" and "difference \<le> cb_upper c" and "cb_upper c - cb_lower c \<le> 100000000"
    and "cb_lower c \<le> 0" and "0 \<le> cb_upper c"
proof -
  obtain l u where n: "narrow bootId None samples = Inr (Some (l, u))" and c: "c = \<lparr>cb_bootId = bootId, cb_lower = l, cb_upper = u, cb_measuredAt = t\<rparr>"
    and w: "\<not> (l > u \<or> l > 0 \<or> u < 0 \<or> u - l > 100000000)"
    using assms(1) by (auto simp: calibrateClock_def result_simps split: if_splits option.splits)
  have "l \<le> difference \<and> difference \<le> u" by (rule narrow_keeps [OF n assms(2)]) simp
  then show "cb_lower c \<le> difference" and "difference \<le> cb_upper c" and "cb_upper c - cb_lower c \<le> 100000000"
    and "cb_lower c \<le> 0" and "0 \<le> cb_upper c" using c w by simp_all
qed

lemma ms_down_le: "1000000 * ms_down d \<le> of_int d"
proof -
  have "1000 * (d div 1000) \<le> d" by simp
  then have "(of_int (1000 * (d div 1000)) :: rat) \<le> of_int d" by (simp only: of_int_le_iff)
  then show ?thesis by (simp add: ms_down_def)
qed

lemma ms_up_ge: "of_int d \<le> 1000000 * ms_up d"
  using ms_down_le [of "- d"] by (simp add: ms_up_def ms_down_def)

lemma event_bounds_bracket:
  assumes "event_bounds c start finish anchor = Inr (b, e)" and "cb_lower c \<le> difference" and "difference \<le> cb_upper c"
  shows "1000000 * b \<le> of_int (start + difference - anchor)" and "of_int (finish + difference - anchor) \<le> 1000000 * e"
    and "e - b < 5000" and "- 20000 \<le> b"
proof -
  have be: "b = ms_down (start + cb_lower c - anchor)" "e = ms_up (finish + cb_upper c - anchor)" "e - b < 5000" "- 20000 \<le> b"
    using assms(1) by (auto simp: event_bounds_def Let_def split: if_splits)
  have "(of_int (start + cb_lower c - anchor) :: rat) \<le> of_int (start + difference - anchor)" using assms(2) by (simp only: of_int_le_iff)
  then show "1000000 * b \<le> of_int (start + difference - anchor)" using ms_down_le [of "start + cb_lower c - anchor"] be(1) by simp
  have "(of_int (finish + difference - anchor) :: rat) \<le> of_int (finish + cb_upper c - anchor)" using assms(3) by (simp only: of_int_le_iff)
  then show "of_int (finish + difference - anchor) \<le> 1000000 * e" using ms_up_ge [of "finish + cb_upper c - anchor"] be(2) by simp
  show "e - b < 5000" and "- 20000 \<le> b" using be by simp_all
qed

lemma accept_message_Inr:
  assumes "accept_message parse stringify rc w deadline has_get source now nowNS raw consumed = (Inr (ob, b, e), consumed')"
  shows "event_bounds (wt_calibration w) (mono_field ob (la ''startMono'')) (mono_field ob (la ''endMono'')) nowNS = Inr (b, e)"
    and "\<exists>i. consumed' = consumed @ [i] \<and> i \<notin> set consumed \<and> length consumed < MAX_CONSUMED"
    and "mono_field ob (la ''startMono'') \<le> mono_field ob (la ''endMono'')"
    and "nowNS - (mono_field ob (la ''endMono'') + cb_lower (wt_calibration w)) \<le> 5000000000"
    and "obj_get ob (la ''attemptId'') = rc_attemptId rc" and "obj_get ob (la ''status'') = JNum (Fin 204)"
    and "rc_persistent rc \<Longrightarrow> BUDGET_NS \<le> deadline - now"
proof -
  obtain i where r: "\<not> (rc_persistent rc \<and> deadline - now < BUDGET_NS)"
    "and_then (read_event parse stringify raw) (\<lambda>ob. and_then (identify (rc_attemptId rc) (wt_calibration w) consumed ob) (\<lambda>i. Inr (ob, i))) = Inr (ob, i)"
    "consumed' = consumed @ [i]"
    and rest: "obj_get ob (la ''status'') = JNum (Fin 204)"
      "event_bounds (wt_calibration w) (mono_field ob (la ''startMono'')) (mono_field ob (la ''endMono'')) nowNS = Inr (b, e)"
      "mono_field ob (la ''startMono'') \<le> mono_field ob (la ''endMono'')"
      "nowNS - (mono_field ob (la ''endMono'') + cb_lower (wt_calibration w)) \<le> 5000000000"
    using assms unfolding accept_message_def Let_def
    by (auto simp: result_simps not_le not_less split: if_splits sum.splits prod.splits)
  have i: "identify (rc_attemptId rc) (wt_calibration w) consumed ob = Inr i" using r(2) by (auto simp: result_simps)
  show "event_bounds (wt_calibration w) (mono_field ob (la ''startMono'')) (mono_field ob (la ''endMono'')) nowNS = Inr (b, e)" by (rule rest(2))
  show "\<exists>i. consumed' = consumed @ [i] \<and> i \<notin> set consumed \<and> length consumed < MAX_CONSUMED"
    using i r(3) by (auto simp: identify_def Let_def split: if_splits)
  show "obj_get ob (la ''attemptId'') = rc_attemptId rc" using i by (auto simp: identify_def split: if_splits)
  show "mono_field ob (la ''startMono'') \<le> mono_field ob (la ''endMono'')"
    and "nowNS - (mono_field ob (la ''endMono'') + cb_lower (wt_calibration w)) \<le> 5000000000"
    and "obj_get ob (la ''status'') = JNum (Fin 204)" using rest by simp_all
  show "rc_persistent rc \<Longrightarrow> BUDGET_NS \<le> deadline - now" using r(1) by simp
qed

end
