(* ===== verification/Provider.thy ===== *)
theory Provider
  imports Receiver
begin

text \<open>
  Where the supervisor's evidence comes from (\<open>scripts/revalidation/projection-provider.mjs\<close>): the
  files only the administrator can write, the identity of the deployment before and after, the
  authority to start, the projections read through a child process and their custody, and the
  request for the projection after the publication. File contents, process facts, clocks, digests,
  \<open>JSON.parse\<close>, \<open>JSON.stringify\<close> and \<open>Date.parse\<close> are parameters. A projection object carries the
  custody it was minted with, which is what the registry keyed by objects says.
\<close>

section \<open>Files of the administrator\<close>

record file_stat =
  fs_directory :: bool
  fs_regular :: bool
  fs_symlink :: bool
  fs_uid :: nat
  fs_nlink :: nat
  fs_mode :: nat
  fs_size :: nat

text \<open>Neither the group nor others may write: \<open>mode & 0o022\<close> is zero.\<close>

definition unwritable :: "nat \<Rightarrow> bool" where
  "unwritable mode \<longleftrightarrow> (mode div 2) mod 2 = 0 \<and> (mode div 16) mod 2 = 0"

definition root_directory :: "file_stat \<Rightarrow> bool" where
  "root_directory st \<longleftrightarrow> fs_directory st \<and> \<not> fs_symlink st \<and> fs_uid st = 0 \<and> unwritable (fs_mode st)"

text \<open>\<open>rootFile\<close>: the directories up to the root, the opened file and the bytes read from it.\<close>

definition rootFile :: "file_stat list \<Rightarrow> file_stat \<Rightarrow> nat \<Rightarrow> int list \<Rightarrow> int list option" where
  "rootFile dirs st maximum bytes =
    (if \<not> list_all root_directory dirs then None
     else if \<not> fs_regular st \<or> fs_uid st \<noteq> 0 \<or> fs_nlink st \<noteq> 1 \<or> \<not> unwritable (fs_mode st) \<or> fs_size st < 1 \<or> fs_size st > maximum then None
     else if length bytes > maximum then None
     else Some bytes)"

definition rootJSON :: "(int list \<Rightarrow> jstr) \<Rightarrow> (jstr \<Rightarrow> jval option) \<Rightarrow> (jval \<Rightarrow> jstr) \<Rightarrow> int list option \<Rightarrow> jval option" where
  "rootJSON utf8 parse stringify bytes =
    (case bytes of
       None \<Rightarrow> None
     | Some bs \<Rightarrow>
         (case parse (utf8 bs) of
            None \<Rightarrow> None
          | Some v \<Rightarrow> if stringify v @ [10] \<noteq> utf8 bs then None else Some v))"

definition exact :: "jval \<Rightarrow> jstr list \<Rightarrow> bool" where
  "exact v names \<longleftrightarrow> (case v of JObj ob \<Rightarrow> length ob = length names \<and> list_all (\<lambda>k. k \<in> set (js_keys ob)) names | _ \<Rightarrow> False)"

definition hex :: "jval \<Rightarrow> nat \<Rightarrow> bool" where
  "hex v n \<longleftrightarrow> str_is (is_hex n) v"

definition safe_max :: int where "safe_max = 9007199254740991"

definition approval_ok :: "bool \<Rightarrow> jval \<Rightarrow> bool" where
  "approval_ok x64 a \<longleftrightarrow>
     exact a [la ''version'', la ''approved'', la ''sourceSha'', la ''binarySha256'', la ''clockSha256'', la ''buildId'', la ''platform''] \<and>
     field a (la ''version'') = JNum (Fin 1) \<and> field a (la ''approved'') = JBool True \<and> hex (field a (la ''sourceSha'')) 40 \<and>
     hex (field a (la ''binarySha256'')) 64 \<and> hex (field a (la ''clockSha256'')) 64 \<and>
     field a (la ''platform'') = JStr (la ''linux/amd64'') \<and> x64 \<and> str_is (text_in Manifest.id_ch 1 80) (field a (la ''buildId''))"

section \<open>The identity of the deployment\<close>

datatype identity_error = DeploymentChanged | DeploymentUnverified | AuthorityMissing

definition SITE_NAMES :: "jstr list" where
  "SITE_NAMES = [la ''product_ru'', la ''product_kk'', la ''sitemap'', la ''catalog'', la ''dashboard'', la ''category'']"

definition sitePolicy :: "(jval \<Rightarrow> jstr) \<Rightarrow> jval option \<Rightarrow> jstr option" where
  "sitePolicy digest policy =
    (case policy of
       None \<Rightarrow> None
     | Some p \<Rightarrow>
         if \<not> exact p [la ''version'', la ''evidence'', la ''origin'', la ''representations''] \<or> field p (la ''version'') \<noteq> JNum (Fin 2) \<or>
            field p (la ''evidence'') \<noteq> JStr (la ''site-content-verification'') \<or> field p (la ''origin'') \<noteq> JStr (la ''https://aktau.market'') \<or>
            field p (la ''representations'') \<noteq> JArr (map JStr SITE_NAMES)
         then None else Some (digest p))"

definition deployment_id :: "jval \<Rightarrow> bool" where
  "deployment_id v = str_is (\<lambda>s. starts_with s (la ''dpl_'') \<and> text_in (\<lambda>c. Manifest.id_ch c \<and> c \<noteq> 95 \<and> c \<noteq> 45) 1 80 (drop 4 s)) v"

text \<open>\<open>{ ...v, k: x }\<close>.\<close>

definition with_field :: "jval \<Rightarrow> jstr \<Rightarrow> jval \<Rightarrow> jval" where
  "with_field v k x = JObj (AList.update k x (case v of JObj ob \<Rightarrow> ob | _ \<Rightarrow> []))"

definition int_of :: "jval \<Rightarrow> int" where
  "int_of v = (case v of JNum (Fin q) \<Rightarrow> \<lfloor>q\<rfloor> | _ \<Rightarrow> 0)"

definition pin_ok :: "jval \<Rightarrow> int \<Rightarrow> bool" where
  "pin_ok pin now \<longleftrightarrow>
     exact pin [la ''version'', la ''evidence'', la ''alias'', la ''deploymentId'', la ''frontendSha'', la ''ownerConfirmedAt''] \<and>
     field pin (la ''version'') = JNum (Fin 1) \<and> field pin (la ''evidence'') = JStr (la ''owner-pinned-configuration'') \<and>
     field pin (la ''alias'') = JStr (la ''aktau.market'') \<and> hex (field pin (la ''frontendSha'')) 40 \<and> deployment_id (field pin (la ''deploymentId'')) \<and>
     int_in 1 safe_max (field pin (la ''ownerConfirmedAt'')) \<and> int_of (field pin (la ''ownerConfirmedAt'')) \<le> now"

text \<open>
  The attestation of each version, with the moment of its confirmation filled in. A confirmation
  that is not a whole number is refused with the same error by the checks that follow.
\<close>

definition read_deployment ::
  "(jval \<Rightarrow> jstr) \<Rightarrow> jval option \<Rightarrow> int \<Rightarrow> jval \<Rightarrow> identity_error + jval" where
  "read_deployment digest frontend now d =
    (if field d (la ''version'') = JNum (Fin 3) then
       (case sitePolicy digest frontend of
          None \<Rightarrow> Inl AuthorityMissing
        | Some sha \<Rightarrow>
            if \<not> exact d [la ''version'', la ''attemptId'', la ''stage'', la ''origin'', la ''optInInactive'', la ''legitimatePublication'',
                 la ''identityEvidence'', la ''policyVersion'', la ''policySha256'', la ''checkedAt''] \<or>
               field d (la ''origin'') \<noteq> JStr (la ''https://aktau.market'') \<or> field d (la ''identityEvidence'') \<noteq> JStr (la ''site-content-verification'') \<or>
               field d (la ''policyVersion'') \<noteq> JNum (Fin 2) \<or> field d (la ''policySha256'') \<noteq> JStr sha
            then Inl DeploymentUnverified
            else Inr (with_field d (la ''confirmedAt'') (field d (la ''checkedAt''))))
     else if field d (la ''version'') = JNum (Fin 2) then
       (case frontend of
          None \<Rightarrow> Inl AuthorityMissing
        | Some pin \<Rightarrow>
            if \<not> pin_ok pin now \<or>
               \<not> exact d [la ''version'', la ''attemptId'', la ''stage'', la ''alias'', la ''deploymentId'', la ''frontendSha'', la ''optInInactive'',
                 la ''legitimatePublication'', la ''identityEvidence'', la ''configurationSha256'', la ''checkedAt''] \<or>
               field d (la ''identityEvidence'') \<noteq> field pin (la ''evidence'') \<or> field d (la ''configurationSha256'') \<noteq> JStr (digest pin) \<or>
               field d (la ''frontendSha'') \<noteq> field pin (la ''frontendSha'') \<or> field d (la ''deploymentId'') \<noteq> field pin (la ''deploymentId'') \<or>
               int_of (field d (la ''checkedAt'')) < int_of (field pin (la ''ownerConfirmedAt''))
            then Inl DeploymentUnverified
            else Inr (with_field (with_field d (la ''confirmedAt'') (field d (la ''checkedAt''))) (la ''ownerConfirmedAt'') (field pin (la ''ownerConfirmedAt''))))
     else if field d (la ''version'') \<noteq> JNum (Fin 1) \<or>
        \<not> exact d [la ''version'', la ''attemptId'', la ''stage'', la ''alias'', la ''deploymentId'', la ''frontendSha'', la ''ready'', la ''target'',
          la ''confirmedAt'', la ''optInInactive'', la ''legitimatePublication''] \<or>
        field d (la ''ready'') \<noteq> JBool True \<or> field d (la ''target'') \<noteq> JStr (la ''Production'')
     then Inl DeploymentUnverified
     else Inr d)"

datatype stage = Before | After

definition stage_name :: "stage \<Rightarrow> jstr" where
  "stage_name s = (case s of Before \<Rightarrow> la ''before'' | After \<Rightarrow> la ''after'')"

definition ATTESTATION_MS :: int where "ATTESTATION_MS = 2100000"

definition deployment_ok :: "jval \<Rightarrow> stage \<Rightarrow> int \<Rightarrow> jval \<Rightarrow> bool" where
  "deployment_ok attemptId s now d \<longleftrightarrow>
     field d (la ''attemptId'') = attemptId \<and> field d (la ''stage'') = JStr (stage_name s) \<and>
     (field d (la ''version'') = JNum (Fin 3) \<or>
       field d (la ''alias'') = JStr (la ''aktau.market'') \<and> hex (field d (la ''frontendSha'')) 40 \<and> deployment_id (field d (la ''deploymentId''))) \<and>
     field d (la ''legitimatePublication'') = JBool True \<and> int_in (- safe_max) safe_max (field d (la ''confirmedAt'')) \<and>
     type_of (field d (la ''optInInactive'')) = TBoolean \<and> (s = After \<longrightarrow> field d (la ''optInInactive'') = JBool True) \<and>
     int_of (field d (la ''confirmedAt'')) \<le> now \<and> now - int_of (field d (la ''confirmedAt'')) \<le> ATTESTATION_MS"

definition INVARIANT_FIELDS :: "jstr list" where
  "INVARIANT_FIELDS = [la ''version'', la ''attemptId'', la ''alias'', la ''deploymentId'', la ''frontendSha'', la ''ready'', la ''target'',
     la ''legitimatePublication'', la ''identityEvidence'', la ''configurationSha256'', la ''ownerConfirmedAt'', la ''origin'',
     la ''policyVersion'', la ''policySha256'']"

definition agrees :: "jval \<Rightarrow> jval \<Rightarrow> bool" where
  "agrees d before \<longleftrightarrow> list_all (\<lambda>k. field d k = field before k) INVARIANT_FIELDS \<and>
     int_of (field before (la ''confirmedAt'')) \<le> int_of (field d (la ''confirmedAt''))"

record identity_state =
  is_agreed :: "jval option"
  is_drift :: bool

text \<open>\<open>verified\<close>: the approval and the binaries are unchanged; \<open>deployment\<close> and \<open>frontend\<close> the files, where readable.\<close>

definition identity ::
  "(jval \<Rightarrow> jstr) \<Rightarrow> bool \<Rightarrow> jval option \<Rightarrow> jval option \<Rightarrow> int \<Rightarrow> jval \<Rightarrow> stage option \<Rightarrow> identity_state \<Rightarrow>
   (identity_error + jval) \<times> identity_state" where
  "identity digest verified deployment frontend now attemptId stg st =
    (case stg of
       None \<Rightarrow> (Inl DeploymentChanged, st)
     | Some s \<Rightarrow>
         if is_drift st then (Inl DeploymentChanged, st)
         else if \<not> verified then (Inl AuthorityMissing, st)
         else case deployment of
           None \<Rightarrow> (Inl AuthorityMissing, st)
         | Some d0 \<Rightarrow>
             (case read_deployment digest frontend now d0 of
                Inl e \<Rightarrow> (Inl e, st)
              | Inr d \<Rightarrow>
                  if \<not> deployment_ok attemptId s now d then (Inl DeploymentUnverified, st)
                  else if s = Before then
                    (case is_agreed st of
                       None \<Rightarrow> (Inr d, st\<lparr>is_agreed := Some d\<rparr>)
                     | Some b \<Rightarrow> if d \<noteq> b then (Inl DeploymentChanged, st\<lparr>is_drift := True\<rparr>) else (Inr b, st))
                  else
                    (case is_agreed st of
                       None \<Rightarrow> (Inl DeploymentChanged, st\<lparr>is_drift := True\<rparr>)
                     | Some b \<Rightarrow> if \<not> agrees d b then (Inl DeploymentChanged, st\<lparr>is_drift := True\<rparr>) else (Inr d, st))))"

section \<open>Projections and their custody\<close>

record token =
  tk_custody :: "nat option"     \<comment> \<open>\<open>None\<close>: an object no provider has minted\<close>
  tk_value :: jval
  tk_baseline :: "jval option"

record provider =
  pv_custody :: nat
  pv_production :: bool
  pv_sourceSha :: jval
  pv_frontendSha :: jval           \<comment> \<open>of the attempt, where the deployment names one\<close>
  pv_policy :: "(jval \<times> jval \<times> jval) option"
  pv_settled :: "nat list"         \<comment> \<open>the captures an after was asked for\<close>

definition ownsProviderBefore :: "provider \<Rightarrow> token \<Rightarrow> bool" where
  "ownsProviderBefore pv b \<longleftrightarrow> tk_custody b = Some (pv_custody pv)"

definition sameProviderCustody :: "token \<Rightarrow> token \<Rightarrow> bool" where
  "sameProviderCustody b a \<longleftrightarrow> tk_custody b \<noteq> None \<and> tk_custody b = tk_custody a"

definition admitsProductionCapture :: "provider \<Rightarrow> token \<Rightarrow> bool" where
  "admitsProductionCapture pv b \<longleftrightarrow> pv_production pv \<and> ownsProviderBefore pv b"

definition providerBeforeBaseline :: "provider \<Rightarrow> token \<Rightarrow> jval option" where
  "providerBeforeBaseline pv b =
    (if \<not> ownsProviderBefore pv b then None
     else case tk_baseline b of
            None \<Rightarrow> None
          | Some base \<Rightarrow> if field base (la ''snapshotId'') \<noteq> field (tk_value b) (la ''snapshotId'') then None else Some base)"

text \<open>The child process: what it printed, or how it failed.\<close>

record exec_error =
  ee_killed :: bool
  ee_signal :: jval
  ee_code :: jval
  ee_stderr :: jstr

datatype exec_outcome = Printed jstr | Crashed exec_error

datatype failure_class = Execution | Validation | FTimeout | FOutput | FIdentity | FChain | FProjection

definition GO_FAILURES :: "(int \<times> string \<times> failure_class) list" where
  "GO_FAILURES = [(3, ''identity'', FIdentity), (4, ''chain'', FChain), (1, ''timeout'', FTimeout), (1, ''projection'', FProjection), (1, ''output'', FOutput)]"

definition failure_of :: "exec_error \<Rightarrow> failure_class" where
  "failure_of e =
    (if ee_killed e \<and> ee_signal e = JStr (la ''SIGTERM'') then FTimeout
     else if ee_code e = JStr (la ''ERR_CHILD_PROCESS_STDIO_MAXBUFFER'') then FOutput
     else foldl (\<lambda>c (n, name, f). if ee_code e = JNum (Fin (of_int n)) \<and> ee_stderr e = la ''c2projection_failed:'' @ la name @ [10] then f else c)
            Execution GO_FAILURES)"

definition baseline_ok :: "jval \<Rightarrow> bool" where
  "baseline_ok p \<longleftrightarrow>
     (case p of JObj ob \<Rightarrow> js_keys ob = [la ''projection'', la ''baseline''] | _ \<Rightarrow> False) \<and>
     (case field p (la ''baseline'') of JObj ob \<Rightarrow> js_keys ob = [la ''snapshotId'', la ''publishedAt''] | _ \<Rightarrow> False) \<and>
     field (field p (la ''baseline'')) (la ''snapshotId'') = field (field p (la ''projection'')) (la ''snapshotId'') \<and>
     str_is is_iso (field (field p (la ''baseline'')) (la ''publishedAt''))"

definition provenance_ok :: "(jval \<Rightarrow> jstr) \<Rightarrow> provider \<Rightarrow> jval \<Rightarrow> bool" where
  "provenance_ok digest pv p \<longleftrightarrow>
     (let s = field p (la ''provenance'')
      in field s (la ''sourceSha'') = pv_sourceSha pv \<and>
         (case pv_policy pv of
            Some (e, v, h) \<Rightarrow> field s (la ''evidencePolicy'') = e \<and> field s (la ''policyVersion'') = v \<and> field s (la ''policySha256'') = h
          | None \<Rightarrow> field s (la ''frontendSha'') = pv_frontendSha pv) \<and>
         field s (la ''canonicalStateId'') = JStr (digest (field p (la ''body''))))"

definition load ::
  "(jstr \<Rightarrow> jval option) \<Rightarrow> (jval \<Rightarrow> jstr) \<Rightarrow> (jval \<Rightarrow> jstr) \<Rightarrow> provider \<Rightarrow> phase \<Rightarrow> jval \<Rightarrow> bool \<Rightarrow> exec_outcome \<Rightarrow> failure_class + token" where
  "load parse stringify digest pv ph attemptId ready outcome =
    (case outcome of
       Crashed e \<Rightarrow> Inl (failure_of e)
     | Printed stdout \<Rightarrow>
         (case parse stdout of
            None \<Rightarrow> Inl Validation
          | Some p \<Rightarrow>
              if stringify p @ [10] \<noteq> stdout \<or> byte_length stdout \<ge> 16384 \<or> ready \<and> \<not> baseline_ok p then Inl Validation
              else let v = (if ready then field p (la ''projection'') else p)
                in (case validateProjectionV2 v ph attemptId of
                      Inl _ \<Rightarrow> Inl Validation
                    | Inr _ \<Rightarrow>
                        if \<not> provenance_ok digest pv v then Inl Validation
                        else Inr \<lparr>tk_custody = Some (pv_custody pv), tk_value = v,
                                  tk_baseline = (if ready then Some (field p (la ''baseline'')) else None)\<rparr>)))"

section \<open>After the publication\<close>

datatype after_reason =
    UntrustedProductionCapture | UntrustedCaptureOrBefore | AfterAlreadyRequested | AfterLate | AfterEventMismatch
  | AfterUnavailable failure_class | NoVerdict capture_reason

text \<open>What the registry knows of a capture: the moments on the event's clock, and whether production admitted it.\<close>

record timing =
  tm_age :: rat
  tm_now :: rat
  tm_completedAt :: rat
  tm_receipt :: jval
  tm_admitted :: bool

definition receipt_ok :: "jval \<Rightarrow> jval \<Rightarrow> bool" where
  "receipt_ok receipt before \<longleftrightarrow>
     (case receipt of JObj _ \<Rightarrow> True | _ \<Rightarrow> False) \<and> field receipt (la ''status'') = JNum (Fin 204) \<and>
     field receipt (la ''attemptId'') = field before (la ''attemptId'') \<and> str_is is_uuid (field receipt (la ''snapshotId''))"

text \<open>\<open>handle\<close> names the capture, \<open>age2\<close> its age once the child process has ended.\<close>

definition provider_after ::
  "(jstr \<Rightarrow> jval option) \<Rightarrow> (jval \<Rightarrow> jstr) \<Rightarrow> (jval \<Rightarrow> jstr) \<Rightarrow> nat \<Rightarrow> timing option \<Rightarrow> capture option \<Rightarrow> token \<Rightarrow> exec_outcome \<Rightarrow> rat \<Rightarrow> provider \<Rightarrow>
   (after_reason + verdict) \<times> provider" where
  "provider_after parse stringify digest handle tm stored b outcome age2 pv =
    (if pv_production pv \<and> \<not> (case tm of None \<Rightarrow> False | Some t \<Rightarrow> tm_admitted t) then (Inl UntrustedProductionCapture, pv)
     else case tm of
       None \<Rightarrow> (Inl UntrustedCaptureOrBefore, pv)
     | Some t \<Rightarrow>
         if \<not> ownsProviderBefore pv b \<or> prepareBeforeV2 (tk_value b) = None then (Inl UntrustedCaptureOrBefore, pv)
         else if handle \<in> set (pv_settled pv) then (Inl AfterAlreadyRequested, pv)
         else let pv' = pv\<lparr>pv_settled := pv_settled pv @ [handle]\<rparr>
           in (if tm_age t < 0 \<or> tm_age t > 60000 \<or> tm_now t < tm_completedAt t then Inl AfterLate
               else if \<not> receipt_ok (tm_receipt t) (tk_value b) then Inl AfterEventMismatch
               else let after = load parse stringify digest pv AfterCommit (field (tk_value b) (la ''attemptId'')) False outcome
                 in if age2 > 60000 then Inl AfterLate
                    else case after of
                           Inl f \<Rightarrow> Inl (AfterUnavailable f)
                         | Inr a \<Rightarrow>
                             (case verdictCapture (sameProviderCustody b a) stored (tk_value b) (tk_value a) of
                                Inl r \<Rightarrow> Inl (NoVerdict r)
                              | Inr v \<Rightarrow> Inr v), pv'))"

section \<open>The authority to start\<close>

text \<open>What is known of the process: its identities, its files under \<open>/proc\<close>, and digests of what runs.\<close>

record process_facts =
  pf_uid :: int
  pf_euid :: int
  pf_gid :: int
  pf_egid :: int
  pf_pid :: int
  pf_execPath :: jstr
  pf_protected :: bool        \<comment> \<open>\<open>/proc/self/status\<close> belongs to the administrator\<close>
  pf_bootId :: jstr
  pf_startTicks :: jstr
  pf_parentRoot :: bool
  pf_untraced :: bool
  pf_nodeSha :: jstr
  pf_commandSha :: jstr
  pf_supervisorSha :: jstr

definition ready_names :: "bool \<Rightarrow> jstr list" where
  "ready_names site =
    [la ''version'', la ''attemptId'', la ''sourceSha''] @ (if site then [] else [la ''frontendSha'', la ''deploymentId'']) @
    [la ''confirmedAt'', la ''bootId'', la ''operatorUid'', la ''operatorGid'', la ''supervisorPid'', la ''supervisorStartTicks'',
     la ''nodeExecutable'', la ''nodeSha256'', la ''commandSha256'', la ''supervisorSha256'', la ''ingestSha256'', la ''relaySha256'', la ''expiresAt''] @
    (if site then [la ''evidencePolicy'', la ''policyVersion'', la ''policySha256''] else [])"

definition path_text :: "jstr \<Rightarrow> bool" where
  "path_text s \<longleftrightarrow> starts_with s [47] \<and> text_in (\<lambda>c. Manifest.id_ch c \<or> c = 46 \<or> c = 47) 1 255 (tl s)"

text \<open>\<open>parse_date\<close> is \<open>Date.parse\<close>, \<open>iso_of\<close> the ISO text of a moment.\<close>

definition ready_document_ok ::
  "(jval \<Rightarrow> int option) \<Rightarrow> (int \<Rightarrow> jstr) \<Rightarrow> (jstr \<Rightarrow> bool) \<Rightarrow> process_facts \<Rightarrow> int \<Rightarrow> jval \<Rightarrow> jval \<Rightarrow> jval \<Rightarrow> bool" where
  "ready_document_ok parse_date iso_of normalized f now before initial a \<longleftrightarrow>
    (let site = (field initial (la ''identityEvidence'') = JStr (la ''site-content-verification''))
     in (case a of JObj ob \<Rightarrow> js_keys ob = ready_names site | _ \<Rightarrow> False) \<and>
        field a (la ''version'') = JNum (Fin (if site then 2 else 1)) \<and>
        field a (la ''attemptId'') = field before (la ''attemptId'') \<and>
        field a (la ''sourceSha'') = field (field before (la ''provenance'')) (la ''sourceSha'') \<and>
        field a (la ''frontendSha'') = field initial (la ''frontendSha'') \<and> field a (la ''deploymentId'') = field initial (la ''deploymentId'') \<and>
        (site \<longrightarrow> field a (la ''evidencePolicy'') = JStr (la ''site-content-verification'') \<and> field a (la ''policyVersion'') = JNum (Fin 2) \<and>
           field a (la ''policySha256'') = field initial (la ''policySha256'')) \<and>
        field a (la ''confirmedAt'') = JStr (iso_of (int_of (field initial (la ''confirmedAt'')))) \<and>
        field a (la ''operatorUid'') = JNum (Fin (of_int (pf_euid f))) \<and> field a (la ''operatorGid'') = JNum (Fin (of_int (pf_egid f))) \<and>
        field a (la ''supervisorPid'') = JNum (Fin (of_int (pf_pid f))) \<and> pf_uid f = pf_euid f \<and> pf_gid f = pf_egid f \<and>
        field a (la ''nodeExecutable'') = JStr (pf_execPath f) \<and> path_text (pf_execPath f) \<and> normalized (pf_execPath f) \<and> pf_protected f \<and>
        str_is ns_text (field a (la ''supervisorStartTicks'')) \<and>
        (case (parse_date (field a (la ''expiresAt'')), parse_date (field a (la ''confirmedAt''))) of
           (Some expires, Some confirmed) \<Rightarrow>
             field a (la ''expiresAt'') = JStr (iso_of expires) \<and> length (iso_of expires) = 24 \<and>
             confirmed \<le> now \<and> now < expires \<and> expires - confirmed \<le> ATTESTATION_MS
         | _ \<Rightarrow> False) \<and>
        field a (la ''bootId'') = JStr (pf_bootId f) \<and>
        list_all (\<lambda>k. hex (field a k) 64) [la ''nodeSha256'', la ''commandSha256'', la ''supervisorSha256'', la ''ingestSha256'', la ''relaySha256''])"

text \<open>\<open>identity_now\<close> is the identity read again for the projection; \<open>approved\<close> the approval as it is now.\<close>

definition productionReadyAuthority ::
  "(jval \<Rightarrow> int option) \<Rightarrow> (int \<Rightarrow> jstr) \<Rightarrow> (jstr \<Rightarrow> bool) \<Rightarrow> process_facts \<Rightarrow> int \<Rightarrow> jval \<Rightarrow> jval option \<Rightarrow> jval option \<Rightarrow> jval option \<Rightarrow> jval option" where
  "productionReadyAuthority parse_date iso_of normalized f now before identity_now ready approved =
    (case (identity_now, ready, approved) of
       (Some initial, Some a, Some app) \<Rightarrow>
         if ready_document_ok parse_date iso_of normalized f now before initial a \<and>
            field a (la ''relaySha256'') = field app (la ''clockSha256'') \<and> field a (la ''sourceSha'') = field app (la ''sourceSha'') \<and>
            field a (la ''supervisorStartTicks'') = JStr (pf_startTicks f) \<and> pf_parentRoot f \<and> pf_untraced f \<and>
            field a (la ''nodeSha256'') = JStr (pf_nodeSha f) \<and> field a (la ''commandSha256'') = JStr (pf_commandSha f) \<and>
            field a (la ''supervisorSha256'') = JStr (pf_supervisorSha f)
         then Some a else None
     | _ \<Rightarrow> None)"

definition recheckProductionReadyAuthority ::
  "(jval \<Rightarrow> int option) \<Rightarrow> bool \<Rightarrow> bool \<Rightarrow> int \<Rightarrow> jval option \<Rightarrow> jval option \<Rightarrow> bool" where
  "recheckProductionReadyAuthority parse_date protected approval_unchanged now ready authority \<longleftrightarrow>
    (case (ready, authority) of
       (Some r, Some a) \<Rightarrow>
         r = a \<and> \<not> (case parse_date (field a (la ''expiresAt'')) of None \<Rightarrow> False | Some e \<Rightarrow> e \<le> now) \<and> protected \<and> approval_unchanged
     | _ \<Rightarrow> False)"

text \<open>The identity bound to a projection read before: same attempt, commit and policy.\<close>

definition productionBeforeIdentity :: "provider \<Rightarrow> token \<Rightarrow> jval option \<Rightarrow> jval option" where
  "productionBeforeIdentity pv b identity_now =
    (if \<not> pv_production pv \<or> \<not> ownsProviderBefore pv b then None
     else case identity_now of
       None \<Rightarrow> None
     | Some i \<Rightarrow>
         let s = field (tk_value b) (la ''provenance'')
         in if field i (la ''attemptId'') \<noteq> field (tk_value b) (la ''attemptId'') \<or> field i (la ''frontendSha'') \<noteq> field s (la ''frontendSha'') \<or>
               field i (la ''identityEvidence'') = JStr (la ''site-content-verification'') \<and>
               (field i (la ''policyVersion'') \<noteq> field s (la ''policyVersion'') \<or> field i (la ''policySha256'') \<noteq> field s (la ''policySha256''))
            then None else Some i)"

text \<open>The guard before every run of the binary in production.\<close>

definition run_guard ::
  "phase \<Rightarrow> jval \<Rightarrow> (stage \<Rightarrow> identity_state \<Rightarrow> (identity_error + jval) \<times> identity_state) \<Rightarrow> stage option \<Rightarrow> jval option \<Rightarrow> identity_state \<Rightarrow>
   bool \<times> jval option \<times> identity_state" where
  "run_guard ph attemptId ask current initial st =
    (if ph = BeforeMutation then
       (if initial \<noteq> None then (False, initial, st)
        else case ask Before st of
               (Inl _, st') \<Rightarrow> (False, None, st')
             | (Inr i, st') \<Rightarrow> (field i (la ''attemptId'') = attemptId, Some i, st'))
     else case initial of
            None \<Rightarrow> (False, None, st)
          | Some i \<Rightarrow>
              if field i (la ''attemptId'') \<noteq> attemptId then (False, initial, st)
              else (case current of
                      None \<Rightarrow> (False, initial, st)
                    | Some s \<Rightarrow> (case ask s st of (Inl _, st') \<Rightarrow> (False, initial, st') | (Inr _, st') \<Rightarrow> (True, initial, st'))))"

section \<open>Lemmas\<close>

text \<open>The calls of \<open>identity\<close> in a session, with what the files held and the clock said at each.\<close>

record identity_call =
  ic_verified :: bool
  ic_deployment :: "jval option"
  ic_frontend :: "jval option"
  ic_now :: int
  ic_attempt :: jval
  ic_stage :: "stage option"

fun identities :: "(jval \<Rightarrow> jstr) \<Rightarrow> identity_call list \<Rightarrow> identity_state \<Rightarrow> (stage option \<times> (identity_error + jval)) list" where
  "identities digest [] st = []"
| "identities digest (c # cs) st =
    (let (r, st') = identity digest (ic_verified c) (ic_deployment c) (ic_frontend c) (ic_now c) (ic_attempt c) (ic_stage c) st
     in (ic_stage c, r) # identities digest cs st')"

lemma identity_result:
  assumes "identity digest verified deployment frontend now attemptId stg st = (r, st')"
  shows "is_drift st \<Longrightarrow> is_drift st' \<and> (\<exists>e. r = Inl e)"
    and "is_agreed st = Some b \<Longrightarrow> is_agreed st' = Some b"
    and "r = Inr d \<Longrightarrow> \<exists>b. is_agreed st' = Some b \<and> (stg = Some Before \<and> d = b \<or> stg = Some After \<and> agrees d b)"
    and "r = Inl DeploymentChanged \<Longrightarrow> stg \<noteq> None \<Longrightarrow> is_drift st'"
proof -
  have read: "read_deployment digest frontend now x \<noteq> Inl DeploymentChanged" for x
    by (auto simp: read_deployment_def split: option.splits if_splits)
  show "is_drift st \<Longrightarrow> is_drift st' \<and> (\<exists>e. r = Inl e)" using assms by (auto simp: identity_def split: option.splits)
  show "is_agreed st = Some b \<Longrightarrow> is_agreed st' = Some b"
    using assms by (auto simp: identity_def split: option.splits sum.splits if_splits)
  show "r = Inr d \<Longrightarrow> \<exists>b. is_agreed st' = Some b \<and> (stg = Some Before \<and> d = b \<or> stg = Some After \<and> agrees d b)"
    using assms by (auto simp: identity_def split: option.splits sum.splits if_splits) (metis stage.exhaust)+
  show "r = Inl DeploymentChanged \<Longrightarrow> stg \<noteq> None \<Longrightarrow> is_drift st'"
    using assms read by (auto simp: identity_def split: option.splits sum.splits if_splits)
qed

lemma identities_drift: "is_drift st \<Longrightarrow> list_all (\<lambda>(_, r). \<exists>e. r = Inl e) (identities digest cs st)"
proof (induction cs arbitrary: st)
  case (Cons c cs)
  obtain r st' where i: "identity digest (ic_verified c) (ic_deployment c) (ic_frontend c) (ic_now c) (ic_attempt c) (ic_stage c) st = (r, st')" by fastforce
  show ?case using identity_result(1) [OF i Cons.prems] Cons.IH [of st'] by (auto simp: i)
qed simp

lemma identities_agree:
  assumes "is_agreed st = Some b"
  shows "list_all (\<lambda>(s, r). \<forall>d. r = Inr d \<longrightarrow> s = Some Before \<and> d = b \<or> s = Some After \<and> agrees d b) (identities digest cs st)"
  using assms
proof (induction cs arbitrary: st)
  case (Cons c cs)
  obtain r st' where i: "identity digest (ic_verified c) (ic_deployment c) (ic_frontend c) (ic_now c) (ic_attempt c) (ic_stage c) st = (r, st')" by fastforce
  have b: "is_agreed st' = Some b" by (rule identity_result(2) [OF i Cons.prems])
  show ?case using Cons.IH [OF b] identity_result(3) [OF i] b by (auto simp: i)
qed simp

lemma identities_fresh:
  "\<exists>b. list_all (\<lambda>(s, r). \<forall>d. r = Inr d \<longrightarrow> s = Some Before \<and> d = b \<or> s = Some After \<and> agrees d b) (identities digest cs st)"
proof (induction cs arbitrary: st)
  case (Cons c cs)
  obtain r st' where i: "identity digest (ic_verified c) (ic_deployment c) (ic_frontend c) (ic_now c) (ic_attempt c) (ic_stage c) st = (r, st')" by fastforce
  show ?case
  proof (cases "is_agreed st'")
    case None
    then have "\<And>d. r \<noteq> Inr d" using identity_result(3) [OF i] by fastforce
    then show ?thesis using Cons.IH [of st'] by (simp add: i)
  next
    case (Some b)
    then show ?thesis using identities_agree [OF Some] identity_result(3) [OF i] by (intro exI [of _ b]) (auto simp: i)
  qed
qed simp

end
