(* ===== verification/Attempt.thy ===== *)
theory Attempt
  imports Provider Ledger
begin

text \<open>
  One supervised attempt (\<open>prepareObservation\<close> in
  \<open>scripts/revalidation/c2-production-supervisor.mjs\<close>): the session whose \<open>arm\<close>, \<open>observe\<close>,
  \<open>cancel\<close> and \<open>finalize\<close> run interleaved with the relay's and the receiver's callbacks. Each
  definition is what the source does between two awaits; what the provider, the receiver, the relay,
  the clock and the ledger's saves and its closing come to are its arguments. Promises that are awaited twice
  give one value: the receiver closes once, the relay's end is remembered.
\<close>

section \<open>The state\<close>

datatype arm_stage = NotArming | WaitBefore | WaitClock jval jval | WaitRelay | ArmDone bool

datatype observe_stage = NotObserving | WaitArmed | WaitCleanup | ObserveDone

datatype cancel_stage = NotCancelling | CancelWaitArm | CancelWaitRelay | CancelWaitPending | CancelDone | CancelRejected

datatype relay_state = NoRelay | RelayOpen | RelayClosed bool

datatype pending = NoReceiver | Observing | Settled jval | PendingRejected

record supervision =
  sv_dir :: ledger_dir
  sv_session :: session
  sv_initial :: "jval option"
  sv_arm :: arm_stage
  sv_receiverOpen :: bool
  sv_pending :: pending
  sv_relay :: relay_state
  sv_consumed :: bool
  sv_authority :: "jval option"
  sv_result :: "jval option"
  sv_completedUTC :: "int option"
  sv_cleanup :: bool
  sv_observe :: observe_stage
  sv_cancel :: cancel_stage
  sv_cancelled :: bool
  sv_observed :: bool
  sv_finalized :: bool

definition inconclusive :: "string \<Rightarrow> jval" where
  "inconclusive why = JObj [(la ''acceptance'', JStr (la ''INCONCLUSIVE'')), (la ''reason'', JStr (la why)), (la ''request_count'', JNum (Fin 0))]"

text \<open>\<open>{ ...r, acceptance: 'INCONCLUSIVE', reason: why }\<close>.\<close>

definition made_inconclusive :: "jval \<Rightarrow> string \<Rightarrow> jval" where
  "made_inconclusive r why = with_field (with_field r (la ''acceptance'') (JStr (la ''INCONCLUSIVE''))) (la ''reason'') (JStr (la why))"

definition is_conclusive :: "jval \<Rightarrow> bool" where
  "is_conclusive r \<longleftrightarrow> field r (la ''acceptance'') \<noteq> JStr (la ''INCONCLUSIVE'')"

definition site_session :: "session \<Rightarrow> bool" where
  "site_session s \<longleftrightarrow> field (ss_policy s) (la ''evidencePolicy'') = JStr (la ''site-content-verification'')"

text \<open>Preparing: the ledger is opened and the attempt recorded; nothing else happens before.\<close>

definition prepareObservation ::
  "bool \<Rightarrow> jval \<Rightarrow> jstr \<Rightarrow> int \<Rightarrow> save_outcome \<Rightarrow> ledger_dir \<Rightarrow> ledger_dir \<times> supervision option" where
  "prepareObservation private policy attemptId now outcome d0 =
    (case openAttemptLedger private policy d0 of
       (d, Inl _) \<Rightarrow> (d, None)
     | (d, Inr s) \<Rightarrow>
         (case prepare_attempt attemptId now outcome d s of
            (Some _, d', _) \<Rightarrow> (d', None)
          | (None, d', s') \<Rightarrow>
              (d', Some \<lparr>sv_dir = d', sv_session = s', sv_initial = None, sv_arm = NotArming, sv_receiverOpen = False, sv_pending = NoReceiver,
                 sv_relay = NoRelay, sv_consumed = False, sv_authority = None, sv_result = None, sv_completedUTC = None, sv_cleanup = True,
                 sv_observe = NotObserving, sv_cancel = NotCancelling, sv_cancelled = False, sv_observed = False, sv_finalized = False\<rparr>)))"

text \<open>An operation of the ledger, run on the session's ledger.\<close>

definition on_ledger ::
  "(ledger_dir \<Rightarrow> session \<Rightarrow> ledger_error option \<times> ledger_dir \<times> session) \<Rightarrow> supervision \<Rightarrow> ledger_error option \<times> supervision" where
  "on_ledger operation st = (case operation (sv_dir st) (sv_session st) of (e, d, s) \<Rightarrow> (e, st\<lparr>sv_dir := d, sv_session := s\<rparr>))"

section \<open>Arming\<close>

definition close_receiver :: "bool \<Rightarrow> supervision \<Rightarrow> supervision" where
  "close_receiver ok st =
    (if sv_receiverOpen st then st\<lparr>sv_receiverOpen := False, sv_cleanup := sv_cleanup st \<and> ok\<rparr> else st)"

text \<open>The relay exists only once it has been opened, so a failing \<open>arm\<close> has none to close.\<close>

definition arm_fail :: "bool \<Rightarrow> supervision \<Rightarrow> supervision" where
  "arm_fail close_ok st =
    (close_receiver close_ok st)\<lparr>sv_result := Some (inconclusive ''operator_prerequisite_or_evidence_failure''), sv_arm := ArmDone False\<rparr>"

definition arm_start :: "jval option \<Rightarrow> supervision \<Rightarrow> supervision" where
  "arm_start identity_before st =
    (if sv_cancelled st \<or> sv_arm st \<noteq> NotArming then st
     else case identity_before of
            None \<Rightarrow> arm_fail True st
          | Some i \<Rightarrow> st\<lparr>sv_initial := Some i, sv_arm := WaitBefore\<rparr>)"

definition policy_unchanged :: "supervision \<Rightarrow> jval \<Rightarrow> bool" where
  "policy_unchanged st i \<longleftrightarrow>
    (site_session (sv_session st) \<longrightarrow> field i (la ''identityEvidence'') = JStr (la ''site-content-verification'') \<and>
       field i (la ''policyVersion'') = field (ss_policy (sv_session st)) (la ''policyVersion'') \<and>
       field i (la ''policySha256'') = field (ss_policy (sv_session st)) (la ''policySha256''))"

text \<open>The projection before has come, with the identity read again and the baseline.\<close>

definition arm_before :: "jval option \<Rightarrow> jval option \<Rightarrow> jval option \<Rightarrow> supervision \<Rightarrow> supervision" where
  "arm_before projection identity_now baseline st =
    (if sv_arm st \<noteq> WaitBefore then st
     else case (sv_cancelled st, projection, baseline) of
            (False, Some b, Some base) \<Rightarrow>
              if prepareBeforeV2 b = None \<or> identity_now \<noteq> sv_initial st \<or> \<not> policy_unchanged st (the (sv_initial st))
              then arm_fail True st else st\<lparr>sv_arm := WaitClock b base\<rparr>
          | _ \<Rightarrow> arm_fail True st)"

text \<open>The clock is calibrated; the receiver opens, the ledger notes it, the relay is started.\<close>

definition arm_clock :: "bool \<Rightarrow> bool \<Rightarrow> jval \<Rightarrow> int \<Rightarrow> save_outcome \<Rightarrow> bool \<Rightarrow> bool \<Rightarrow> supervision \<Rightarrow> supervision" where
  "arm_clock calibrated opens note now outcome spawned close_ok st =
    (case sv_arm st of
       WaitClock b base \<Rightarrow>
         if \<not> calibrated \<or> sv_cancelled st \<or> \<not> opens then arm_fail True st
         else (case on_ledger (transition Armed note now outcome) (st\<lparr>sv_receiverOpen := True\<rparr>) of
                 (Some _, st') \<Rightarrow> arm_fail close_ok st'
               | (None, st') \<Rightarrow>
                   if spawned then st'\<lparr>sv_pending := Observing, sv_arm := WaitRelay\<rparr>
                   else arm_fail close_ok (st'\<lparr>sv_pending := Observing\<rparr>))
     | _ \<Rightarrow> st)"

definition arm_relay :: "bool \<Rightarrow> bool \<Rightarrow> bool \<Rightarrow> supervision \<Rightarrow> supervision" where
  "arm_relay opened stopped close_ok st =
    (if sv_arm st \<noteq> WaitRelay then st
     else if opened then st\<lparr>sv_relay := RelayOpen, sv_arm := ArmDone True\<rparr>
     else arm_fail close_ok (st\<lparr>sv_cleanup := sv_cleanup st \<and> stopped\<rparr>))"

section \<open>The callbacks\<close>

definition peer_allowed :: "jval \<Rightarrow> jval \<Rightarrow> jstr \<Rightarrow> bool \<Rightarrow> bool" where
  "peer_allowed a peer boot expired \<longleftrightarrow>
     field peer (la ''uid'') = field a (la ''operatorUid'') \<and> field peer (la ''gid'') = field a (la ''operatorGid'') \<and>
     field peer (la ''rootControlled'') = JBool True \<and> field peer (la ''executableSha256'') = field a (la ''ingestSha256'') \<and>
     field peer (la ''bootId'') = field a (la ''bootId'') \<and> int_in 1 safe_max (field peer (la ''pid'')) \<and>
     field a (la ''bootId'') = JStr boot \<and> \<not> expired"

text \<open>The publisher asks whether all is ready: the first peer the authority allows is noted.\<close>

definition on_respond :: "bool \<Rightarrow> jval option \<Rightarrow> jval \<Rightarrow> jstr \<Rightarrow> bool \<Rightarrow> jval \<Rightarrow> int \<Rightarrow> save_outcome \<Rightarrow> supervision \<Rightarrow> bool \<times> supervision" where
  "on_respond reader_armed authority peer boot expired note now outcome st =
    (if sv_arm st \<notin> {WaitRelay, ArmDone True} \<or> \<not> reader_armed then (False, st)
     else case authority of
            None \<Rightarrow> (False, st)
          | Some a \<Rightarrow>
              if sv_consumed st \<or> \<not> peer_allowed a peer boot expired then (False, st)
              else (case on_ledger (checkpoint note now outcome) (st\<lparr>sv_consumed := True, sv_authority := Some a\<rparr>) of
                      (Some _, st') \<Rightarrow> (False, st')
                    | (None, st') \<Rightarrow> (True, st')))"

text \<open>The receiver has the event: \<open>recheck\<close> stands for the authority looked at again.\<close>

definition on_event :: "bool \<Rightarrow> (jval option \<Rightarrow> bool) \<Rightarrow> jval \<Rightarrow> int \<Rightarrow> save_outcome \<Rightarrow> supervision \<Rightarrow> bool \<times> supervision" where
  "on_event live recheck event now outcome st =
    (if sv_pending st \<noteq> Observing \<or> sv_relay st = NoRelay \<or> \<not> live \<or> \<not> recheck (sv_authority st) then (False, st)
     else case on_ledger (transition EventConsumed event now outcome) st of
            (Some _, st') \<Rightarrow> (False, st')
          | (None, st') \<Rightarrow> (True, st'))"

definition pending_settles :: "jval option \<Rightarrow> supervision \<Rightarrow> supervision" where
  "pending_settles r st =
    (if sv_pending st \<noteq> Observing then st
     else st\<lparr>sv_pending := (case r of None \<Rightarrow> PendingRejected | Some v \<Rightarrow> Settled v)\<rparr>)"

section \<open>Observing\<close>

definition observe_start :: "jval option \<Rightarrow> supervision \<Rightarrow> supervision" where
  "observe_start identity_before st =
    (if sv_cancelled st \<or> sv_finalized st \<or> sv_observed st then st
     else (arm_start identity_before st)\<lparr>sv_observed := True, sv_observe := WaitArmed\<rparr>)"

text \<open>The result awaited: the one of a failed arming, or the receiver's. \<open>None\<close> where the await throws.\<close>

definition awaited :: "supervision \<Rightarrow> jval option" where
  "awaited st = (case sv_result st of Some r \<Rightarrow> Some r | None \<Rightarrow> (case sv_pending st of Settled r \<Rightarrow> Some r | _ \<Rightarrow> None))"

definition ready_to_judge :: "supervision \<Rightarrow> bool" where
  "ready_to_judge st \<longleftrightarrow> sv_observe st = WaitArmed \<and> (case sv_arm st of ArmDone _ \<Rightarrow> True | _ \<Rightarrow> False) \<and>
     (sv_result st = None \<longrightarrow> sv_pending st \<noteq> Observing)"

definition observe_result :: "bool \<Rightarrow> (jval option \<Rightarrow> bool) \<Rightarrow> bool \<Rightarrow> supervision \<Rightarrow> supervision" where
  "observe_result live recheck close_ok st =
    (if \<not> ready_to_judge st then st
     else let why = ''operator_prerequisite_or_evidence_failure'';
              result = (case awaited st of
                 None \<Rightarrow> made_inconclusive (inconclusive why) why
               | Some r \<Rightarrow>
                   if is_conclusive r \<and> (sv_relay st = NoRelay \<or> \<not> live \<or> \<not> recheck (sv_authority st)) then made_inconclusive r why else r)
       in (close_receiver close_ok (st\<lparr>sv_result := Some result\<rparr>))\<lparr>sv_observe := WaitCleanup\<rparr>)"

definition close_relay :: "bool \<Rightarrow> supervision \<Rightarrow> supervision" where
  "close_relay clean st =
    (case sv_relay st of
       NoRelay \<Rightarrow> st
     | RelayOpen \<Rightarrow> st\<lparr>sv_relay := RelayClosed clean, sv_cleanup := sv_cleanup st \<and> clean\<rparr>
     | RelayClosed c \<Rightarrow> st\<lparr>sv_cleanup := sv_cleanup st \<and> c\<rparr>)"

text \<open>The note for the ledger is made of the result, the time and the first identity.\<close>

definition observe_cleaned :: "bool \<Rightarrow> (jval \<Rightarrow> jval) \<Rightarrow> int \<Rightarrow> save_outcome \<Rightarrow> supervision \<Rightarrow> supervision" where
  "observe_cleaned clean note now outcome st =
    (if sv_observe st \<noteq> WaitCleanup then st
     else let st1 = close_relay clean st;
              result = (if sv_cleanup st1 then the (sv_result st1) else made_inconclusive (the (sv_result st1)) ''cleanup_unverified'');
              st2 = st1\<lparr>sv_result := Some result, sv_completedUTC := Some now\<rparr>
       in (snd (on_ledger (checkpoint (note result) now outcome) st2))\<lparr>sv_observe := ObserveDone\<rparr>)"

section \<open>Cancelling\<close>

definition cancel_start :: "supervision \<Rightarrow> supervision" where
  "cancel_start st =
    (if sv_cancel st \<noteq> NotCancelling then st
     else if sv_finalized st then st\<lparr>sv_cancel := CancelRejected\<rparr>
     else st\<lparr>sv_cancelled := True, sv_cancel := CancelWaitArm\<rparr>)"

definition cancel_armed :: "bool \<Rightarrow> supervision \<Rightarrow> supervision" where
  "cancel_armed close_ok st =
    (if sv_cancel st \<noteq> CancelWaitArm \<or> \<not> (case sv_arm st of NotArming \<Rightarrow> True | ArmDone _ \<Rightarrow> True | _ \<Rightarrow> False) then st
     else (close_receiver close_ok st)\<lparr>sv_cancel := CancelWaitRelay\<rparr>)"

definition cancel_relay :: "bool \<Rightarrow> supervision \<Rightarrow> supervision" where
  "cancel_relay clean st =
    (if sv_cancel st \<noteq> CancelWaitRelay then st else (close_relay clean st)\<lparr>sv_cancel := CancelWaitPending\<rparr>)"

text \<open>\<open>timely\<close>: the receiver's promise settled within five seconds.\<close>

definition pending_clean :: "bool \<Rightarrow> supervision \<Rightarrow> bool" where
  "pending_clean timely st = (case sv_pending st of NoReceiver \<Rightarrow> True | Settled _ \<Rightarrow> timely | _ \<Rightarrow> False)"

definition cancel_pending :: "bool \<Rightarrow> int \<Rightarrow> save_outcome \<Rightarrow> unlock_outcome \<Rightarrow> supervision \<Rightarrow> supervision" where
  "cancel_pending timely now outcome unlock st =
    (if sv_cancel st \<noteq> CancelWaitPending then st
     else let st1 = st\<lparr>sv_cleanup := sv_cleanup st \<and> pending_clean timely st\<rparr>
       in case on_ledger (transition Inconclusive (inconclusive ''cancelled_without_qualified_result'') now outcome) st1 of
            (Some _, st2) \<Rightarrow> st2\<lparr>sv_cancel := CancelRejected\<rparr>
          | (None, st2) \<Rightarrow>
              let st3 = st2\<lparr>sv_finalized := True\<rparr>
              in if \<not> sv_cleanup st3 then st3\<lparr>sv_cancel := CancelDone\<rparr>
                 else case on_ledger (close_ledger unlock) st3 of
                        (Some _, st4) \<Rightarrow> st4\<lparr>sv_cancel := CancelRejected\<rparr>
                      | (None, st4) \<Rightarrow> st4\<lparr>sv_cancel := CancelDone\<rparr>)"

section \<open>Finishing\<close>

definition POST_FIELDS :: "jstr list" where
  "POST_FIELDS = [la ''deploymentId'', la ''frontendSha'', la ''identityEvidence'', la ''policyVersion'', la ''policySha256'', la ''origin'',
     la ''configurationSha256'', la ''ownerConfirmedAt'']"

text \<open>The identity after: the same deployment, confirmed after the observation ended, with the opt-in off.\<close>

definition same_deployment :: "jval \<Rightarrow> jval \<Rightarrow> int option \<Rightarrow> bool" where
  "same_deployment i post completed \<longleftrightarrow>
     list_all (\<lambda>k. field post k = field i k) POST_FIELDS \<and>
     (case completed of None \<Rightarrow> True | Some t \<Rightarrow> t \<le> int_of (field post (la ''confirmedAt''))) \<and>
     field post (la ''optInInactive'') = JBool True"

definition final_result :: "bool \<Rightarrow> jval option \<Rightarrow> supervision \<Rightarrow> jval \<Rightarrow> jval" where
  "final_result rechecked post st r =
    (if (is_conclusive r \<longrightarrow> rechecked) \<and>
        (case (sv_initial st, post) of (Some i, Some p) \<Rightarrow> same_deployment i p (sv_completedUTC st) | _ \<Rightarrow> False)
     then r else made_inconclusive r ''post_identity_or_cleanup_unverified'')"

record verdict_report =
  vr_acceptance :: jval
  vr_count :: nat
  vr_accepted :: bool
  vr_reconcile :: bool

text \<open>
  The operator calls it once the observation has ended. \<open>None\<close>: it throws. The attestation is
  \<open>None\<close> where reading it throws.
\<close>

definition finalize :: "(jval option \<Rightarrow> bool) \<Rightarrow> jval option \<Rightarrow> int \<Rightarrow> save_outcome \<Rightarrow> unlock_outcome \<Rightarrow> supervision \<Rightarrow> verdict_report option \<times> supervision" where
  "finalize recheck post now outcome unlock st =
    (if sv_cancelled st \<or> sv_finalized st \<or> \<not> sv_observed st then (None, st)
     else case sv_result st of
       None \<Rightarrow> (None, st)
     | Some r \<Rightarrow>
         let final = final_result (recheck (sv_authority st)) post st r
         in case on_ledger (transition (if is_conclusive final then Completed else Inconclusive) final now outcome) st of
              (Some _, st1) \<Rightarrow> (None, st1)
            | (None, st1) \<Rightarrow>
                (case series (sv_session st1) of
                   Inl _ \<Rightarrow> (None, st1)
                 | Inr n \<Rightarrow>
                     (case (if sv_cleanup st1 then on_ledger (close_ledger unlock) st1 else (None, st1)) of
                        (Some _, st2) \<Rightarrow> (None, st2)
                      | (None, st2) \<Rightarrow>
                          (Some \<lparr>vr_acceptance = field final (la ''acceptance''), vr_count = n, vr_accepted = (sv_cleanup st2 \<and> n \<ge> 3),
                             vr_reconcile = (\<not> sv_cleanup st2)\<rparr>, st2\<lparr>sv_finalized := True\<rparr>))))"

section \<open>Runs\<close>

text \<open>\<open>recheck\<close> is never true without an authority, and the clock is a whole number that JavaScript can hold.\<close>

inductive sup_step :: "supervision \<Rightarrow> supervision \<Rightarrow> bool" where
  sup_arm: "sup_step st (arm_start i st)"
| sup_before: "sup_step st (arm_before b i base st)"
| sup_clock: "safe_integer now \<Longrightarrow> sup_step st (arm_clock calibrated opens note now outcome spawned close_ok st)"
| sup_relay: "sup_step st (arm_relay opened stopped close_ok st)"
| sup_respond: "sup_step st (snd (on_respond reader_armed authority peer boot expired note now outcome st))"
| sup_event: "safe_integer now \<Longrightarrow> \<not> recheck None \<Longrightarrow> sup_step st (snd (on_event live recheck event now outcome st))"
| sup_pending: "sup_step st (pending_settles r st)"
| sup_observe: "sup_step st (observe_start i st)"
| sup_result: "\<not> recheck None \<Longrightarrow> sup_step st (observe_result live recheck close_ok st)"
| sup_cleaned: "sup_step st (observe_cleaned clean note now outcome st)"
| sup_cancel: "sup_step st (cancel_start st)"
| sup_cancel_armed: "sup_step st (cancel_armed close_ok st)"
| sup_cancel_relay: "sup_step st (cancel_relay clean st)"
| sup_cancel_pending: "safe_integer now \<Longrightarrow> sup_step st (cancel_pending timely now outcome unlock st)"
| sup_finalize: "safe_integer now \<Longrightarrow> \<not> recheck None \<Longrightarrow> sv_observe st = ObserveDone \<Longrightarrow>
    sup_step st (snd (finalize recheck post now outcome unlock st))"

inductive supervised :: "bool \<Rightarrow> jval \<Rightarrow> ledger_dir \<Rightarrow> supervision \<Rightarrow> bool" for owned policy d0 where
  supervised_start: "is_attempt_id i \<Longrightarrow> safe_integer now \<Longrightarrow> prepareObservation owned policy i now outcome d0 = (d, Some st) \<Longrightarrow>
    supervised owned policy d0 st"
| supervised_step: "supervised owned policy d0 st \<Longrightarrow> sup_step st st' \<Longrightarrow> supervised owned policy d0 st'"

end
