(* ===== verification/Relay.thy ===== *)
theory Relay
  imports Ledger
begin

text \<open>
  The hand-over between the operator's supervisor and the publisher: the relay child whose
  standard output is read line by line (\<open>openReadyRelay\<close> in
  \<open>scripts/revalidation/c2-production-supervisor.mjs\<close>) as a state machine over what the child
  does, and the operator's commands and the course of one attempt
  (\<open>scripts/revalidation/c2-operator-entry.mjs\<close>). Bytes are integers; the decoding of UTF-8,
  \<open>JSON.parse\<close> and \<open>JSON.stringify\<close> are parameters.
\<close>

section \<open>The relay\<close>

datatype relay_phase = Starting | Listening | Responding | Answered | Delivered

text \<open>A promise is settled once: \<open>None\<close> while pending.\<close>

record relay =
  rl_buffer :: "int list"
  rl_phase :: relay_phase
  rl_failed :: bool
  rl_closing :: bool
  rl_listening :: "bool option"
  rl_delivered :: "bool option"
  rl_asked :: "(jval \<times> jval) list"     \<comment> \<open>the calls of \<open>respond\<close>: request and peer\<close>
  rl_waiting :: bool                     \<comment> \<open>a call of \<open>respond\<close> has not settled\<close>
  rl_written :: "jstr list"
  rl_exited :: bool

definition new_relay :: relay where
  "new_relay = \<lparr>rl_buffer = [], rl_phase = Starting, rl_failed = False, rl_closing = False, rl_listening = None, rl_delivered = None,
     rl_asked = [], rl_waiting = False, rl_written = [], rl_exited = False\<rparr>"

definition settle :: "bool \<Rightarrow> bool option \<Rightarrow> bool option" where
  "settle v p = (case p of None \<Rightarrow> Some v | Some w \<Rightarrow> Some w)"

definition relay_fail :: "relay \<Rightarrow> relay" where
  "relay_fail st =
    (if rl_failed st then st
     else st\<lparr>rl_failed := True, rl_listening := settle False (rl_listening st), rl_delivered := settle False (rl_delivered st)\<rparr>)"

definition MAX_SAFE :: int where "MAX_SAFE = 9007199254740991"

definition has_keys :: "jstr list \<Rightarrow> jval \<Rightarrow> bool" where
  "has_keys names v = (case v of JObj ob \<Rightarrow> join (la '','') (js_keys ob) = join (la '','') names | _ \<Rightarrow> False)"

definition request_ok :: "jstr \<Rightarrow> jval \<Rightarrow> bool" where
  "request_ok attemptId r \<longleftrightarrow> has_keys [la ''version'', la ''attemptId'', la ''nonce''] r \<and>
     field r (la ''version'') = JNum (Fin 1) \<and> field r (la ''attemptId'') = JStr attemptId \<and> str_is (is_hex 32) (field r (la ''nonce''))"

definition peer_ok :: "jval \<Rightarrow> bool" where
  "peer_ok p \<longleftrightarrow>
     has_keys [la ''pid'', la ''uid'', la ''gid'', la ''executableSha256'', la ''rootControlled'', la ''bootId''] p \<and>
     int_in 1 MAX_SAFE (field p (la ''pid'')) \<and> int_in 0 MAX_SAFE (field p (la ''uid'')) \<and> int_in 0 MAX_SAFE (field p (la ''gid'')) \<and>
     str_is (is_hex 64) (field p (la ''executableSha256'')) \<and> type_of (field p (la ''rootControlled'')) = TBoolean \<and>
     str_is is_uuid (field p (la ''bootId''))"

definition state_line :: "string \<Rightarrow> jstr" where
  "state_line s = [123, 34] @ la ''state'' @ [34, 58, 34] @ la s @ [34, 125, 10]"

text \<open>One line of the child's output; the first component says whether the loop goes on.\<close>

definition relay_line :: "(jstr \<Rightarrow> jval option) \<Rightarrow> (jval \<Rightarrow> jstr) \<Rightarrow> jstr \<Rightarrow> jstr \<Rightarrow> relay \<Rightarrow> bool \<times> relay" where
  "relay_line parse stringify attemptId raw st =
    (case parse raw of
       None \<Rightarrow> (False, relay_fail st)
     | Some frame \<Rightarrow>
         if stringify frame @ [10] \<noteq> raw then (False, relay_fail st)
         else if \<not> (case frame of JObj _ \<Rightarrow> True | _ \<Rightarrow> False) then (False, relay_fail st)
         else if rl_phase st = Starting \<and> raw = state_line ''listening''
         then (True, st\<lparr>rl_phase := Listening, rl_listening := settle True (rl_listening st)\<rparr>)
         else if rl_phase st = Listening \<and> has_keys [la ''state'', la ''request'', la ''peer''] frame \<and> field frame (la ''state'') = JStr (la ''request'')
         then let st' = st\<lparr>rl_phase := Responding\<rparr>; r = field frame (la ''request''); p = field frame (la ''peer'')
           in if \<not> request_ok attemptId r \<or> \<not> peer_ok p then (False, relay_fail st')
              else (True, st'\<lparr>rl_asked := rl_asked st' @ [(r, p)], rl_waiting := True\<rparr>)
         else if rl_phase st = Answered \<and> raw = state_line ''delivered''
         then (True, st\<lparr>rl_phase := Delivered, rl_delivered := settle True (rl_delivered st)\<rparr>)
         else (False, relay_fail st))"

definition first_line :: "int list \<Rightarrow> int list" where
  "first_line bs = takeWhile (\<lambda>b. b \<noteq> 10) bs @ [10]"

definition after_line :: "int list \<Rightarrow> int list" where
  "after_line bs = tl (dropWhile (\<lambda>b. b \<noteq> 10) bs)"

lemma after_line_shorter: "10 \<in> set bs \<Longrightarrow> length (after_line bs) < length bs"
proof -
  assume "10 \<in> set bs"
  then have "dropWhile (\<lambda>b. b \<noteq> 10) bs \<noteq> []" by (simp add: dropWhile_eq_Nil_conv)
  moreover have "length (dropWhile (\<lambda>b. b \<noteq> 10) bs) \<le> length bs" by (rule length_dropWhile_le)
  ultimately show ?thesis by (cases "dropWhile (\<lambda>b. b \<noteq> 10) bs") (simp_all add: after_line_def)
qed

lemma relay_fail_buffer [simp]: "rl_buffer (relay_fail st) = rl_buffer st"
  by (simp add: relay_fail_def)

lemma relay_line_buffer: "relay_line parse stringify attemptId raw st = (go, st') \<Longrightarrow> rl_buffer st' = rl_buffer st"
  by (auto simp: relay_line_def Let_def split: option.splits if_splits)

lemma relay_line_shorter:
  assumes "(go, st') = relay_line parse stringify attemptId raw (st\<lparr>rl_buffer := after_line (rl_buffer st)\<rparr>)" and "10 \<in> set (rl_buffer st)"
  shows "length (rl_buffer st') < length (rl_buffer st)"
  using relay_line_buffer [OF assms(1) [symmetric]] after_line_shorter [OF assms(2)] by simp

function drain ::
  "(int list \<Rightarrow> jstr) \<Rightarrow> (jstr \<Rightarrow> jval option) \<Rightarrow> (jval \<Rightarrow> jstr) \<Rightarrow> jstr \<Rightarrow> relay \<Rightarrow> relay" where
  "drain utf8 parse stringify attemptId st =
    (if 10 \<notin> set (rl_buffer st) then st
     else case relay_line parse stringify attemptId (utf8 (first_line (rl_buffer st))) (st\<lparr>rl_buffer := after_line (rl_buffer st)\<rparr>) of
            (True, st') \<Rightarrow> drain utf8 parse stringify attemptId st'
          | (False, st') \<Rightarrow> st')"
  by pat_completeness auto

termination
  by (relation "measure (\<lambda>(_, _, _, _, st). length (rl_buffer st))") (auto dest: relay_line_shorter)

declare drain.simps [simp del]

definition MAX_BUFFER :: nat where "MAX_BUFFER = 8192"

definition on_data ::
  "(int list \<Rightarrow> jstr) \<Rightarrow> (jstr \<Rightarrow> jval option) \<Rightarrow> (jval \<Rightarrow> jstr) \<Rightarrow> jstr \<Rightarrow> int list \<Rightarrow> relay \<Rightarrow> relay" where
  "on_data utf8 parse stringify attemptId chunk st =
    (let st' = st\<lparr>rl_buffer := rl_buffer st @ chunk\<rparr>
     in if length (rl_buffer st') > MAX_BUFFER then relay_fail st' else drain utf8 parse stringify attemptId st')"

text \<open>\<open>respond\<close> has settled: \<open>None\<close> when it threw.\<close>

definition on_answer :: "(jval \<Rightarrow> jstr) \<Rightarrow> jval option \<Rightarrow> relay \<Rightarrow> relay" where
  "on_answer stringify answer st =
    (if \<not> rl_waiting st then st
     else let st' = st\<lparr>rl_waiting := False\<rparr>
       in case answer of
            None \<Rightarrow> relay_fail st'
          | Some v \<Rightarrow>
              if rl_failed st' \<or> rl_phase st' \<noteq> Responding then relay_fail st'
              else let encoded = stringify v @ [10]
                in if byte_length encoded > 4096 then relay_fail st'
                   else st'\<lparr>rl_phase := Answered, rl_written := rl_written st' @ [encoded]\<rparr>)"

text \<open>The child ends, with code 0 or otherwise; the timer of the start runs out; the relay is closed.\<close>

definition on_exit :: "bool \<Rightarrow> relay \<Rightarrow> relay" where
  "on_exit zero st =
    (let st' = st\<lparr>rl_exited := True\<rparr>
     in if \<not> rl_closing st \<and> (\<not> zero \<or> rl_phase st \<noteq> Delivered \<or> rl_buffer st \<noteq> []) then relay_fail st' else st')"

definition on_timer :: "relay \<Rightarrow> relay" where
  "on_timer st = (if rl_listening st = None then relay_fail st else st)"

definition stop_child :: "relay \<Rightarrow> relay" where
  "stop_child st = st\<lparr>rl_closing := True, rl_delivered := settle False (rl_delivered st)\<rparr>"

definition is_live :: "relay \<Rightarrow> bool" where
  "is_live st \<longleftrightarrow> \<not> rl_failed st \<and> \<not> rl_closing st \<and> rl_phase st = Delivered \<and> \<not> rl_exited st"

inductive relay_step ::
  "(int list \<Rightarrow> jstr) \<Rightarrow> (jstr \<Rightarrow> jval option) \<Rightarrow> (jval \<Rightarrow> jstr) \<Rightarrow> jstr \<Rightarrow> relay \<Rightarrow> relay \<Rightarrow> bool" for utf8 parse stringify attemptId where
  step_data: "relay_step utf8 parse stringify attemptId st (on_data utf8 parse stringify attemptId chunk st)"
| step_answer: "relay_step utf8 parse stringify attemptId st (on_answer stringify answer st)"
| step_error: "relay_step utf8 parse stringify attemptId st (relay_fail st)"
| step_exit: "relay_step utf8 parse stringify attemptId st (on_exit zero st)"
| step_timer: "relay_step utf8 parse stringify attemptId st (on_timer st)"
| step_stop: "relay_step utf8 parse stringify attemptId st (stop_child st)"

inductive relay_run ::
  "(int list \<Rightarrow> jstr) \<Rightarrow> (jstr \<Rightarrow> jval option) \<Rightarrow> (jval \<Rightarrow> jstr) \<Rightarrow> jstr \<Rightarrow> relay \<Rightarrow> bool" for utf8 parse stringify attemptId where
  relay_start: "relay_run utf8 parse stringify attemptId new_relay"
| relay_next: "relay_run utf8 parse stringify attemptId st \<Longrightarrow> relay_step utf8 parse stringify attemptId st st' \<Longrightarrow> relay_run utf8 parse stringify attemptId st'"

section \<open>The operator\<close>

text \<open>The channel of commands: at most sixteen characters per command, read only when one is asked for.\<close>

record channel =
  ch_pending :: bool
  ch_invalid :: bool
  ch_buffer :: jstr

datatype command_result = Waiting | Rejected | Command jstr

definition channel_fail :: "channel \<Rightarrow> command_result \<times> channel" where
  "channel_fail c = (if ch_pending c then Rejected else Waiting, c\<lparr>ch_pending := False, ch_invalid := True\<rparr>)"

definition channel_data :: "jstr \<Rightarrow> channel \<Rightarrow> command_result \<times> channel" where
  "channel_data chunk c =
    (if \<not> ch_pending c \<or> ch_invalid c \<or> length (ch_buffer c) + length chunk > 16 then channel_fail c
     else let c' = c\<lparr>ch_buffer := ch_buffer c @ chunk\<rparr>
       in if \<not> ends_with (ch_buffer c') [10] then (Waiting, c')
          else if ch_buffer c' \<notin> {la ''ARM'' @ [10], la ''FINALIZE'' @ [10], la ''CANCEL'' @ [10]} then channel_fail c'
          else (Command (trim (ch_buffer c')), c'\<lparr>ch_pending := False, ch_buffer := []\<rparr>))"

definition channel_ask :: "channel \<Rightarrow> command_result \<times> channel" where
  "channel_ask c = (if ch_invalid c \<or> ch_pending c then (Rejected, c) else (Waiting, c\<lparr>ch_pending := True\<rparr>))"

text \<open>
  The course of an attempt. Every awaited call has an outcome, \<open>None\<close> when it threw, was overtaken
  by the deadline or the cancellation, or the deadline had passed before or after it.
\<close>

datatype operator_report =
    PreparedReport jstr | ArmedReport jstr | ObservedReport jstr
  | FinalizedReport verdict nat bool bool
  | CancelledInconclusive | ReconciliationRequired | NotArmed

record final_result =
  fr_acceptance :: "verdict option"
  fr_count :: "nat option"
  fr_accepted :: "bool option"
  fr_reconcile :: bool

record operator_env =
  oe_launched :: bool
  oe_prepared :: "jval option"                 \<comment> \<open>the identifier of the session\<close>
  oe_before :: "jstr option"                   \<comment> \<open>the command\<close>
  oe_armed :: "(jstr \<times> jval) option"     \<comment> \<open>the state and the identifier\<close>
  oe_observed :: "unit option"
  oe_after :: "jstr option"
  oe_finalized :: "final_result option"
  oe_cancelled :: "bool option"                \<comment> \<open>whether reconciliation is required\<close>

definition give_up :: "operator_env \<Rightarrow> operator_report list \<Rightarrow> nat \<times> operator_report list" where
  "give_up env reports = (1, reports @ [if oe_cancelled env = Some False then CancelledInconclusive else ReconciliationRequired])"

definition result_ok :: "final_result \<Rightarrow> bool" where
  "result_ok r \<longleftrightarrow> fr_acceptance r \<noteq> None \<and> fr_count r \<noteq> None \<and> fr_accepted r \<noteq> None \<and>
     (the (fr_accepted r) \<longleftrightarrow> the (fr_count r) \<ge> 3 \<and> \<not> fr_reconcile r)"

definition runOperatorAttempt :: "operator_env \<Rightarrow> nat \<times> operator_report list" where
  "runOperatorAttempt env =
    (if \<not> oe_launched env then (1, [NotArmed])
     else case oe_prepared env of
       None \<Rightarrow> (1, [NotArmed])
     | Some attempt \<Rightarrow>
         if \<not> str_is (is_hex 32) attempt then give_up env []
         else let i = str_of attempt; r1 = [PreparedReport i]
           in if oe_before env \<noteq> Some (la ''ARM'') then give_up env r1
              else if oe_armed env \<noteq> Some (la ''armed'', attempt) then give_up env r1
              else let r2 = r1 @ [ArmedReport i]
                in if oe_observed env = None then give_up env r2
                   else let r3 = r2 @ [ObservedReport i]
                     in if oe_after env \<noteq> Some (la ''FINALIZE'') then give_up env r3
                        else case oe_finalized env of
                               None \<Rightarrow> give_up env r3
                             | Some r \<Rightarrow>
                                 if \<not> result_ok r then give_up env r3
                                 else (0, r3 @ [FinalizedReport (the (fr_acceptance r)) (the (fr_count r)) (the (fr_accepted r)) (fr_reconcile r)]))"

section \<open>Lemmas\<close>

text \<open>The invariant of the relay: how far it got says what was asked, written and told.\<close>

definition relay_inv :: "jstr \<Rightarrow> relay \<Rightarrow> bool" where
  "relay_inv attemptId st \<longleftrightarrow>
     length (rl_asked st) \<le> 1 \<and> list_all (\<lambda>(r, p). request_ok attemptId r \<and> peer_ok p) (rl_asked st) \<and>
     (rl_phase st \<in> {Starting, Listening} \<longrightarrow> rl_asked st = [] \<and> \<not> rl_waiting st) \<and>
     (rl_waiting st \<longrightarrow> rl_asked st \<noteq> []) \<and>
     length (rl_written st) = (if rl_phase st \<in> {Answered, Delivered} then 1 else 0) \<and>
     (rl_written st \<noteq> [] \<longrightarrow> rl_asked st \<noteq> [] \<and> \<not> rl_waiting st) \<and>
     (rl_delivered st = Some True \<longrightarrow> rl_phase st = Delivered) \<and>
     (rl_delivered st = Some False \<longrightarrow> rl_failed st \<or> rl_closing st) \<and>
     (rl_phase st = Delivered \<longrightarrow> rl_delivered st \<noteq> None)"

lemma settle_simps [simp]: "settle v None = Some v" "settle v (Some w) = Some w" "settle v p \<noteq> None"
  by (auto simp: settle_def split: option.splits)

lemma settle_eq: "settle v p = Some w \<longleftrightarrow> p = Some w \<or> p = None \<and> v = w"
  by (auto simp: settle_def split: option.splits)

lemma relay_inv_fail: "relay_inv attemptId st \<Longrightarrow> relay_inv attemptId (relay_fail st)"
  by (auto simp: relay_inv_def relay_fail_def settle_eq)

lemma relay_inv_buffer [simp]: "relay_inv attemptId (st\<lparr>rl_buffer := bs\<rparr>) = relay_inv attemptId st"
  by (simp add: relay_inv_def)

lemma relay_inv_line:
  assumes "relay_inv attemptId st" and "relay_line parse stringify attemptId raw st = (go, st')"
  shows "relay_inv attemptId st'"
proof -
  have responding: "relay_inv attemptId (st\<lparr>rl_phase := Responding\<rparr>)" if "rl_phase st = Listening"
    using assms(1) that by (auto simp: relay_inv_def)
  show ?thesis
    using assms unfolding relay_line_def Let_def
    by (auto simp: settle_eq intro: relay_inv_fail relay_inv_fail [OF responding] split: option.splits if_splits)
      (auto simp: relay_inv_def settle_eq split: if_splits)
qed

lemma relay_inv_drain: "relay_inv attemptId st \<Longrightarrow> relay_inv attemptId (drain utf8 parse stringify attemptId st)"
proof (induction utf8 parse stringify attemptId st rule: drain.induct)
  case (1 utf8 parse stringify attemptId st)
  obtain go st' where line: "relay_line parse stringify attemptId (utf8 (first_line (rl_buffer st))) (st\<lparr>rl_buffer := after_line (rl_buffer st)\<rparr>) = (go, st')"
    by fastforce
  have "relay_inv attemptId st'" by (rule relay_inv_line [OF _ line]) (simp add: 1(2))
  then show ?case using 1 line by (subst drain.simps) (auto split: bool.splits)
qed

lemma relay_inv_answer: "relay_inv attemptId st \<Longrightarrow> relay_inv attemptId (on_answer stringify answer st)"
proof -
  assume inv: "relay_inv attemptId st"
  have quiet: "relay_inv attemptId (st\<lparr>rl_waiting := False\<rparr>)" using inv by (auto simp: relay_inv_def)
  show ?thesis
  proof (cases "rl_waiting st \<and> \<not> rl_failed st \<and> rl_phase st = Responding")
    case True
    then show ?thesis
      using inv relay_inv_fail [OF quiet] by (auto simp: on_answer_def Let_def relay_inv_def split: option.splits)
  next
    case False
    then show ?thesis using inv relay_inv_fail [OF quiet] by (auto simp: on_answer_def Let_def split: option.splits)
  qed
qed

lemma relay_inv_step: "relay_step utf8 parse stringify attemptId st st' \<Longrightarrow> relay_inv attemptId st \<Longrightarrow> relay_inv attemptId st'"
proof (induction rule: relay_step.induct)
  case (step_data st chunk)
  then show ?case by (auto simp: on_data_def Let_def intro: relay_inv_fail relay_inv_drain)
next
  case (step_exit st zero)
  then have "relay_inv attemptId (st\<lparr>rl_exited := True\<rparr>)" by (simp add: relay_inv_def)
  then show ?case by (auto simp: on_exit_def Let_def intro: relay_inv_fail)
next
  case (step_stop st)
  then show ?case by (auto simp: stop_child_def relay_inv_def settle_eq)
qed (auto simp: on_timer_def intro: relay_inv_fail relay_inv_answer)

lemma relay_run_inv: "relay_run utf8 parse stringify attemptId st \<Longrightarrow> relay_inv attemptId st"
proof (induction rule: relay_run.induct)
  case relay_start
  show ?case by (simp add: relay_inv_def new_relay_def)
qed (rule relay_inv_step)

text \<open>An answer is written only while nothing has failed.\<close>

lemma relay_live: "relay_inv attemptId st \<Longrightarrow> is_live st \<Longrightarrow> length (rl_asked st) = 1 \<and> length (rl_written st) = 1 \<and> rl_delivered st = Some True"
proof -
  assume inv: "relay_inv attemptId st" and l: "is_live st"
  then have phase: "rl_phase st = Delivered" and ok: "\<not> rl_failed st" "\<not> rl_closing st" by (simp_all add: is_live_def)
  then have w: "length (rl_written st) = 1" using inv by (simp add: relay_inv_def)
  then have "rl_written st \<noteq> []" by auto
  then have "rl_asked st \<noteq> []" "length (rl_asked st) \<le> 1" using inv by (simp_all add: relay_inv_def)
  then have "length (rl_asked st) = 1" by (cases "rl_asked st") simp_all
  moreover obtain v where v: "rl_delivered st = Some v" using inv phase by (auto simp: relay_inv_def)
  moreover have "v = True" using inv ok v by (cases v) (simp_all add: relay_inv_def)
  ultimately show ?thesis using w by simp
qed

text \<open>Exit code 0 means every step went through, and what is reported as accepted was.\<close>

lemma give_up_code [simp]: "fst (give_up env rs) = 1"
  by (simp add: give_up_def)

lemma operator_zero:
  assumes "fst (runOperatorAttempt env) = 0"
  shows "oe_launched env \<and> oe_before env = Some (la ''ARM'') \<and> oe_observed env \<noteq> None \<and> oe_after env = Some (la ''FINALIZE'') \<and>
      (\<exists>a r. oe_prepared env = Some a \<and> str_is (is_hex 32) a \<and> oe_armed env = Some (la ''armed'', a) \<and>
         oe_finalized env = Some r \<and> result_ok r)"
proof -
  have l: "oe_launched env" using assms by (cases "oe_launched env") (simp_all add: runOperatorAttempt_def)
  obtain a where a: "oe_prepared env = Some a" using assms l by (cases "oe_prepared env") (simp_all add: runOperatorAttempt_def)
  have h: "str_is (is_hex 32) a" using assms by (rule contrapos_pp) (simp add: runOperatorAttempt_def l a)
  have b: "oe_before env = Some (la ''ARM'')" using assms by (rule contrapos_pp) (simp add: runOperatorAttempt_def Let_def l a h)
  have c: "oe_armed env = Some (la ''armed'', a)" using assms by (rule contrapos_pp) (simp add: runOperatorAttempt_def Let_def l a h b)
  have d: "oe_observed env = Some ()"
    using assms by (cases "oe_observed env") (simp_all add: runOperatorAttempt_def Let_def l a h b c)
  have e: "oe_after env = Some (la ''FINALIZE'')" using assms by (rule contrapos_pp) (simp add: runOperatorAttempt_def Let_def l a h b c d)
  obtain r where r: "oe_finalized env = Some r"
    using assms by (cases "oe_finalized env") (simp_all add: runOperatorAttempt_def Let_def l a h b c d e)
  have "result_ok r" using assms by (rule contrapos_pp) (simp add: runOperatorAttempt_def Let_def l a h b c d e r)
  with l a h b c d e r show ?thesis by simp
qed

end
