(* ===== verification/SupervisionProperties.thy ===== *)
theory SupervisionProperties
  imports Attempt Relay RevalidationProperties
begin

text \<open>
  The properties of a supervised attempt: the clocks and the one message it listens to, the
  hand-over to the publisher, the deployment it is bound to, and what may count as a verdict.
\<close>

section \<open>The ledger under a session\<close>

lemma ledger_run_trans: "ledger_run w0 w1 \<Longrightarrow> ledger_run w1 w2 \<Longrightarrow> ledger_run w0 w2"
  by (rotate_tac, induction rule: ledger_run.induct) (auto intro: ledger_next)

lemma ledger_run_step: "ledger_step w w' \<Longrightarrow> ledger_run w w'"
  by (rule ledger_next [OF ledger_start])

text \<open>An operation of the ledger changes the directory and the session only.\<close>

lemma on_ledger_fields:
  assumes "on_ledger operation st = (e, st')"
  shows "st' = st\<lparr>sv_dir := sv_dir st', sv_session := sv_session st'\<rparr>" and "operation (sv_dir st) (sv_session st) = (e, sv_dir st', sv_session st')"
  using assms by (auto simp: on_ledger_def split: prod.splits)

lemma on_ledger_same:
  assumes "on_ledger operation st = (e, st')"
  shows "sv_initial st' = sv_initial st" "sv_arm st' = sv_arm st" "sv_receiverOpen st' = sv_receiverOpen st" "sv_pending st' = sv_pending st"
    "sv_relay st' = sv_relay st" "sv_consumed st' = sv_consumed st" "sv_authority st' = sv_authority st" "sv_result st' = sv_result st"
    "sv_completedUTC st' = sv_completedUTC st" "sv_cleanup st' = sv_cleanup st" "sv_observe st' = sv_observe st" "sv_cancel st' = sv_cancel st"
    "sv_cancelled st' = sv_cancelled st" "sv_observed st' = sv_observed st" "sv_finalized st' = sv_finalized st"
  using assms by (auto simp: on_ledger_def split: prod.splits)

section \<open>The invariant\<close>

fun arm_ok :: "arm_stage \<Rightarrow> bool \<Rightarrow> pending \<Rightarrow> relay_state \<Rightarrow> jval option \<Rightarrow> observe_stage \<Rightarrow> jval option \<Rightarrow> bool" where
  "arm_ok NotArming open_now p rl result ob i \<longleftrightarrow> \<not> open_now \<and> p = NoReceiver \<and> rl = NoRelay \<and> result = None \<and> ob = NotObserving"
| "arm_ok WaitBefore open_now p rl result ob i \<longleftrightarrow> \<not> open_now \<and> p = NoReceiver \<and> rl = NoRelay \<and> result = None \<and> i \<noteq> None"
| "arm_ok (WaitClock _ _) open_now p rl result ob i \<longleftrightarrow> \<not> open_now \<and> p = NoReceiver \<and> rl = NoRelay \<and> result = None \<and> i \<noteq> None"
| "arm_ok WaitRelay open_now p rl result ob i \<longleftrightarrow> p \<noteq> NoReceiver \<and> rl = NoRelay \<and> result = None \<and> i \<noteq> None"
| "arm_ok (ArmDone True) open_now p rl result ob i \<longleftrightarrow> p \<noteq> NoReceiver \<and> i \<noteq> None"
| "arm_ok (ArmDone False) open_now p rl result ob i \<longleftrightarrow> \<not> open_now \<and> rl = NoRelay \<and> result \<noteq> None \<and> \<not> is_conclusive (the result)"

fun out_of_arm :: "arm_stage \<Rightarrow> bool" where
  "out_of_arm (ArmDone _) = True"
| "out_of_arm _ = False"

fun observe_ok :: "observe_stage \<Rightarrow> arm_stage \<Rightarrow> bool \<Rightarrow> jval option \<Rightarrow> bool \<Rightarrow> relay_state \<Rightarrow> int option \<Rightarrow> bool" where
  "observe_ok NotObserving arm open_now result seen rl t \<longleftrightarrow> True"
| "observe_ok WaitArmed arm open_now result seen rl t \<longleftrightarrow> seen"
| "observe_ok WaitCleanup arm open_now result seen rl t \<longleftrightarrow> seen \<and> out_of_arm arm \<and> \<not> open_now \<and> result \<noteq> None"
| "observe_ok ObserveDone arm open_now result seen rl t \<longleftrightarrow>
     seen \<and> out_of_arm arm \<and> \<not> open_now \<and> result \<noteq> None \<and> rl \<noteq> RelayOpen \<and> t \<noteq> None"

text \<open>A conclusive result is the receiver's own, found with the authority still there.\<close>

definition verdict_ok :: "jval option \<Rightarrow> pending \<Rightarrow> jval option \<Rightarrow> observe_stage \<Rightarrow> bool" where
  "verdict_ok result p authority ob \<longleftrightarrow>
    (case result of None \<Rightarrow> True
     | Some r \<Rightarrow> is_conclusive r \<longrightarrow> p = Settled r \<and> authority \<noteq> None \<and> ob \<in> {WaitCleanup, ObserveDone})"

definition relay_ok :: "bool \<Rightarrow> relay_state \<Rightarrow> bool" where
  "relay_ok cleanup rl \<longleftrightarrow> (cleanup \<longrightarrow> rl \<noteq> RelayClosed False)"

fun cancel_ok :: "cancel_stage \<Rightarrow> bool \<Rightarrow> bool \<Rightarrow> arm_stage \<Rightarrow> bool \<Rightarrow> relay_state \<Rightarrow> bool" where
  "cancel_ok NotCancelling cancelled finalized arm open_now rl \<longleftrightarrow> \<not> cancelled"
| "cancel_ok CancelRejected cancelled finalized arm open_now rl \<longleftrightarrow> True"
| "cancel_ok CancelWaitArm cancelled finalized arm open_now rl \<longleftrightarrow> cancelled \<and> \<not> finalized"
| "cancel_ok CancelWaitRelay cancelled finalized arm open_now rl \<longleftrightarrow>
     cancelled \<and> \<not> finalized \<and> (arm = NotArming \<or> out_of_arm arm) \<and> \<not> open_now"
| "cancel_ok CancelWaitPending cancelled finalized arm open_now rl \<longleftrightarrow>
     cancelled \<and> \<not> finalized \<and> (arm = NotArming \<or> out_of_arm arm) \<and> \<not> open_now \<and> rl \<noteq> RelayOpen"
| "cancel_ok CancelDone cancelled finalized arm open_now rl \<longleftrightarrow>
     cancelled \<and> finalized \<and> (arm = NotArming \<or> out_of_arm arm) \<and> \<not> open_now \<and> rl \<noteq> RelayOpen"

definition core_inv :: "supervision \<Rightarrow> bool" where
  "core_inv st \<longleftrightarrow>
     arm_ok (sv_arm st) (sv_receiverOpen st) (sv_pending st) (sv_relay st) (sv_result st) (sv_observe st) (sv_initial st) \<and>
     observe_ok (sv_observe st) (sv_arm st) (sv_receiverOpen st) (sv_result st) (sv_observed st) (sv_relay st) (sv_completedUTC st) \<and>
     verdict_ok (sv_result st) (sv_pending st) (sv_authority st) (sv_observe st) \<and>
     relay_ok (sv_cleanup st) (sv_relay st) \<and>
     cancel_ok (sv_cancel st) (sv_cancelled st) (sv_finalized st) (sv_arm st) (sv_receiverOpen st) (sv_relay st)"

lemma core_inv_ledger: "on_ledger operation st = (e, st') \<Longrightarrow> core_inv st' \<longleftrightarrow> core_inv st"
  by (simp add: core_inv_def on_ledger_same)

lemma field_with_field [simp]: "field (with_field v k x) j = (if j = k then x else field (JObj (case v of JObj ob \<Rightarrow> ob | _ \<Rightarrow> [])) j)"
  by (simp add: with_field_def field_def obj_get_def update_conv')

lemma made_inconclusive_not [simp]: "\<not> is_conclusive (made_inconclusive r why)"
  by (simp add: is_conclusive_def made_inconclusive_def la_def field_def obj_get_def with_field_def update_conv')

lemma inconclusive_not [simp]: "\<not> is_conclusive (inconclusive why)"
  by (simp add: is_conclusive_def inconclusive_def field_def obj_get_def)

lemma verdict_ok_simps [simp]:
  "verdict_ok None p a ob" "\<not> is_conclusive r \<Longrightarrow> verdict_ok (Some r) p a ob"
  "is_conclusive r \<Longrightarrow> verdict_ok (Some r) p a ob \<longleftrightarrow> p = Settled r \<and> a \<noteq> None \<and> ob \<in> {WaitCleanup, ObserveDone}"
  by (simp_all add: verdict_ok_def)

lemma core_arm_fail:
  assumes "core_inv st" and "\<not> out_of_arm (sv_arm st)" and "sv_cancelled st \<longrightarrow> sv_arm st \<noteq> NotArming"
  shows "core_inv (arm_fail ok st)"
  using assms
  by (cases "sv_arm st"; cases "sv_observe st"; cases "sv_cancel st"; simp add: core_inv_def arm_fail_def close_receiver_def relay_ok_def)

text \<open>What closing the receiver or the relay, and the settling of the promise, keep.\<close>

lemma arm_ok_closed [intro]: "arm_ok a ro p rl r ob i \<Longrightarrow> arm_ok a False p rl r ob i"
  by (cases "(a, ro, p, rl, r, ob, i)" rule: arm_ok.cases) simp_all

lemma observe_ok_closed [intro]: "observe_ok ob a ro r os rl t \<Longrightarrow> observe_ok ob a False r os rl t"
  by (cases ob) simp_all

lemma cancel_ok_closed [intro]: "cancel_ok c cd fd a ro rl \<Longrightarrow> cancel_ok c cd fd a False rl"
  by (cases c) simp_all

lemma arm_ok_relay [intro]: "arm_ok a ro p RelayOpen r ob i \<Longrightarrow> arm_ok a ro p (RelayClosed b) r ob i"
  by (cases "(a, ro, p, RelayOpen, r, ob, i)" rule: arm_ok.cases) simp_all

lemma observe_ok_relay [intro]: "observe_ok ob a ro r os RelayOpen t \<Longrightarrow> observe_ok ob a ro r os (RelayClosed b) t"
  by (cases ob) simp_all

lemma cancel_ok_relay [intro]: "cancel_ok c cd fd a ro RelayOpen \<Longrightarrow> cancel_ok c cd fd a ro (RelayClosed b)"
  by (cases c) simp_all

lemma arm_ok_settled [intro]: "arm_ok a ro Observing rl r ob i \<Longrightarrow> q \<noteq> NoReceiver \<Longrightarrow> arm_ok a ro q rl r ob i"
  by (cases "(a, ro, Observing, rl, r, ob, i)" rule: arm_ok.cases) simp_all

lemma verdict_ok_settled [intro]: "verdict_ok r Observing au ob \<Longrightarrow> verdict_ok r q au ob"
  by (cases r) (simp_all add: verdict_ok_def)

lemma core_close_receiver: "core_inv st \<Longrightarrow> core_inv (close_receiver ok st)"
  by (auto simp: core_inv_def close_receiver_def relay_ok_def)

lemma core_close_relay: "core_inv st \<Longrightarrow> core_inv (close_relay clean st)"
  by (cases "sv_relay st") (auto simp: core_inv_def close_relay_def relay_ok_def)

lemma core_pending: "core_inv st \<Longrightarrow> core_inv (pending_settles r st)"
  by (auto simp: core_inv_def pending_settles_def split: option.split)

lemma core_arm_start: "core_inv st \<Longrightarrow> core_inv (arm_start i st)"
proof (cases "sv_cancelled st \<or> sv_arm st \<noteq> NotArming")
  case False
  assume inv: "core_inv st"
  show ?thesis
  proof (cases i)
    case None
    then show ?thesis using False core_arm_fail [OF inv, of True] by (simp add: arm_start_def)
  next
    case (Some j)
    have "sv_cancel st = NotCancelling \<or> sv_cancel st = CancelRejected" "sv_observe st = NotObserving"
      using inv False by (cases "sv_cancel st"; simp add: core_inv_def)+
    then show ?thesis using inv False Some by (auto simp: arm_start_def core_inv_def)
  qed
qed (simp add: arm_start_def)

lemma core_arm_before: "core_inv st \<Longrightarrow> core_inv (arm_before b i base st)"
proof (cases "sv_arm st = WaitBefore")
  case True
  assume inv: "core_inv st"
  have failed: "core_inv (arm_fail True st)" using True inv by (intro core_arm_fail) simp_all
  have "sv_observe st \<in> {NotObserving, WaitArmed}" "sv_cancel st \<in> {NotCancelling, CancelRejected, CancelWaitArm}"
    using inv True by (cases "sv_observe st"; cases "sv_cancel st"; simp add: core_inv_def)+
  then have "core_inv (st\<lparr>sv_arm := WaitClock x y\<rparr>)" for x y using inv True by (auto simp: core_inv_def)
  then show ?thesis using True failed by (auto simp: arm_before_def split: option.split bool.split)
qed (simp add: arm_before_def)

lemma arming_facts:
  assumes "core_inv st" and "\<not> out_of_arm (sv_arm st)"
  shows "sv_observe st \<in> {NotObserving, WaitArmed}"
    and "sv_arm st \<noteq> NotArming \<Longrightarrow> sv_cancel st \<in> {NotCancelling, CancelRejected, CancelWaitArm}"
proof -
  show "sv_observe st \<in> {NotObserving, WaitArmed}" using assms by (cases "sv_observe st") (simp_all add: core_inv_def)
  show "sv_arm st \<noteq> NotArming \<Longrightarrow> sv_cancel st \<in> {NotCancelling, CancelRejected, CancelWaitArm}"
    using assms by (cases "sv_cancel st") (simp_all add: core_inv_def)
qed

lemma core_arm_clock: "core_inv st \<Longrightarrow> core_inv (arm_clock calibrated opens note now outcome spawned close_ok st)"
proof (cases "sv_arm st")
  case (WaitClock b base)
  assume inv: "core_inv st"
  obtain e st' where l: "on_ledger (transition Armed note now outcome) (st\<lparr>sv_receiverOpen := True\<rparr>) = (e, st')" by fastforce
  note same = on_ledger_same [OF l]
  have facts: "sv_observe st \<in> {NotObserving, WaitArmed}" "sv_cancel st \<in> {NotCancelling, CancelRejected, CancelWaitArm}"
    using arming_facts [OF inv] WaitClock by simp_all
  have failed: "core_inv (arm_fail True st)" using inv WaitClock by (intro core_arm_fail) simp_all
  have failed': "core_inv (arm_fail close_ok st')" "core_inv (arm_fail close_ok (st'\<lparr>sv_pending := Observing\<rparr>))"
    using inv WaitClock facts by (auto simp: core_inv_def arm_fail_def close_receiver_def same relay_ok_def)
  have ok: "core_inv (st'\<lparr>sv_pending := Observing, sv_arm := WaitRelay\<rparr>)"
    using inv WaitClock facts by (auto simp: core_inv_def same)
  show ?thesis using WaitClock failed failed' ok l by (auto simp: arm_clock_def split: option.split)
qed (simp_all add: arm_clock_def)

lemma core_arm_relay: "core_inv st \<Longrightarrow> core_inv (arm_relay opened stopped close_ok st)"
proof (cases "sv_arm st = WaitRelay")
  case True
  assume inv: "core_inv st"
  have facts: "sv_observe st \<in> {NotObserving, WaitArmed}" "sv_cancel st \<in> {NotCancelling, CancelRejected, CancelWaitArm}"
    using arming_facts [OF inv] True by simp_all
  have "core_inv (arm_fail close_ok (st\<lparr>sv_cleanup := sv_cleanup st \<and> stopped\<rparr>))"
    using inv True by (intro core_arm_fail) (auto simp: core_inv_def relay_ok_def)
  moreover have "core_inv (st\<lparr>sv_relay := RelayOpen, sv_arm := ArmDone True\<rparr>)"
    using inv True facts by (auto simp: core_inv_def relay_ok_def)
  ultimately show ?thesis using True by (simp add: arm_relay_def)
qed (simp add: arm_relay_def)

lemma core_respond: "core_inv st \<Longrightarrow> core_inv (snd (on_respond reader_armed authority peer boot expired note now outcome st))"
proof -
  assume inv: "core_inv st"
  have "core_inv (st\<lparr>sv_consumed := True, sv_authority := Some a\<rparr>)" for a
    using inv by (auto simp: core_inv_def verdict_ok_def split: option.splits)
  then show ?thesis
    using inv by (auto simp: on_respond_def core_inv_ledger split: option.split prod.split)
qed

lemma core_event: "core_inv st \<Longrightarrow> core_inv (snd (on_event live recheck event now outcome st))"
  by (auto simp: on_event_def core_inv_ledger split: option.split prod.split)

lemma core_observe_start: "core_inv st \<Longrightarrow> core_inv (observe_start i st)"
proof (cases "sv_cancelled st \<or> sv_finalized st \<or> sv_observed st")
  case False
  assume inv: "core_inv st"
  have ob: "sv_observe st = NotObserving" using inv False by (cases "sv_observe st") (simp_all add: core_inv_def)
  let ?t = "arm_start i st"
  have inv': "core_inv ?t" by (rule core_arm_start [OF inv])
  have same: "sv_observe ?t = NotObserving" "sv_arm ?t \<noteq> NotArming"
    using ob False by (auto simp: arm_start_def arm_fail_def close_receiver_def split: option.split)
  have "arm_ok (sv_arm ?t) ro p rl r WaitArmed j = arm_ok (sv_arm ?t) ro p rl r NotObserving j" for ro p rl r j
    using same(2) by (cases "(sv_arm ?t, ro, p, rl, r, WaitArmed, j)" rule: arm_ok.cases) simp_all
  moreover have "verdict_ok r p a NotObserving \<Longrightarrow> verdict_ok r p a WaitArmed" for r p a
    by (cases r) (auto simp: verdict_ok_def)
  ultimately show ?thesis using inv' same False by (simp add: observe_start_def core_inv_def)
qed (auto simp: observe_start_def)

lemma core_observe_result:
  assumes inv: "core_inv st" and "\<not> recheck None"
  shows "core_inv (observe_result live recheck close_ok st)"
proof (cases "ready_to_judge st")
  case True
  then have ob: "sv_observe st = WaitArmed" and arm: "out_of_arm (sv_arm st)"
    by (auto simp: ready_to_judge_def split: arm_stage.splits)
  have none: "\<not> is_conclusive r" if "sv_result st = Some r" for r
    using inv that ob by (auto simp: core_inv_def verdict_ok_def)
  define r where "r = (case awaited st of None \<Rightarrow> made_inconclusive (inconclusive ''operator_prerequisite_or_evidence_failure'') ''operator_prerequisite_or_evidence_failure''
     | Some r \<Rightarrow> if is_conclusive r \<and> (sv_relay st = NoRelay \<or> \<not> live \<or> \<not> recheck (sv_authority st))
          then made_inconclusive r ''operator_prerequisite_or_evidence_failure'' else r)"
  have good: "verdict_ok (Some r) (sv_pending st) (sv_authority st) WaitCleanup"
    using assms(2) none unfolding r_def
    by (cases "sv_result st"; cases "sv_pending st"; cases "sv_authority st") (auto simp: awaited_def verdict_ok_def)
  have "arm_ok (sv_arm st) False (sv_pending st) (sv_relay st) (Some r) WaitCleanup (sv_initial st)"
  proof (cases "sv_arm st")
    case (ArmDone ok)
    then obtain q where "ok \<or> sv_result st = Some q \<and> \<not> is_conclusive q \<and> sv_relay st = NoRelay"
      using inv by (cases ok) (auto simp: core_inv_def)
    then show ?thesis using inv ArmDone by (cases ok) (auto simp: core_inv_def r_def awaited_def)
  qed (use arm in simp_all)
  moreover have "sv_observed st" using inv ob by (simp add: core_inv_def)
  moreover have "cancel_ok (sv_cancel st) (sv_cancelled st) (sv_finalized st) (sv_arm st) False (sv_relay st)"
    using inv by (auto simp: core_inv_def)
  ultimately have "core_inv (st\<lparr>sv_result := Some r, sv_receiverOpen := False, sv_cleanup := cl, sv_observe := WaitCleanup\<rparr>)"
    if "cl \<longrightarrow> sv_cleanup st" for cl
    using inv good arm that by (auto simp: core_inv_def relay_ok_def)
  note closed = this
  show ?thesis
  proof (cases "sv_receiverOpen st")
    case True
    then show ?thesis using closed [of "sv_cleanup st \<and> close_ok"] \<open>ready_to_judge st\<close>
      by (simp add: observe_result_def close_receiver_def Let_def r_def [symmetric])
  next
    case False
    then have "core_inv (st\<lparr>sv_result := Some r, sv_observe := WaitCleanup\<rparr>)"
      using closed [of "sv_cleanup st"] by (simp add: core_inv_def)
    then show ?thesis using False \<open>ready_to_judge st\<close>
      by (simp add: observe_result_def close_receiver_def Let_def r_def [symmetric])
  qed
qed (simp add: observe_result_def assms)

lemma core_observe_cleaned: "core_inv st \<Longrightarrow> core_inv (observe_cleaned clean note now outcome st)"
proof (cases "sv_observe st = WaitCleanup")
  case True
  assume "core_inv st"
  define st1 where "st1 = close_relay clean st"
  have inv: "core_inv st1" unfolding st1_def by (rule core_close_relay) fact
  have ob: "sv_observe st1 = WaitCleanup" and rl: "sv_relay st1 \<noteq> RelayOpen"
    using True by (auto simp: st1_def close_relay_def split: relay_state.splits)
  obtain r0 where r0: "sv_result st1 = Some r0" using inv ob by (auto simp: core_inv_def)
  define r where "r = (if sv_cleanup st1 then r0 else made_inconclusive r0 ''cleanup_unverified'')"
  obtain e st2 where l: "on_ledger (checkpoint (note r) now outcome) (st1\<lparr>sv_result := Some r, sv_completedUTC := Some now\<rparr>) = (e, st2)" by fastforce
  have "arm_ok (sv_arm st1) (sv_receiverOpen st1) (sv_pending st1) (sv_relay st1) (Some r) ObserveDone (sv_initial st1)"
  proof (cases "sv_arm st1")
    case (ArmDone ok)
    then show ?thesis using inv r0 by (cases ok) (auto simp: core_inv_def r_def)
  qed (use inv ob in \<open>simp_all add: core_inv_def\<close>)
  moreover have "verdict_ok (Some r) (sv_pending st1) (sv_authority st1) ObserveDone"
    using inv r0 ob by (auto simp: core_inv_def r_def verdict_ok_def)
  ultimately have "core_inv (st1\<lparr>sv_result := Some r, sv_completedUTC := Some now, sv_observe := ObserveDone\<rparr>)"
    using inv ob rl r0 unfolding core_inv_def by auto
  then have "core_inv (st2\<lparr>sv_observe := ObserveDone\<rparr>)" by (auto simp: core_inv_def on_ledger_same [OF l])
  then show ?thesis using True r0 l by (cases "sv_cleanup st1") (simp_all add: observe_cleaned_def Let_def st1_def [symmetric] r_def)
qed (simp add: observe_cleaned_def)

lemma core_cancel_start: "core_inv st \<Longrightarrow> core_inv (cancel_start st)"
  by (cases "sv_cancel st") (auto simp: cancel_start_def core_inv_def)

lemma core_cancel_armed: "core_inv st \<Longrightarrow> core_inv (cancel_armed close_ok st)"
proof (cases "sv_cancel st = CancelWaitArm \<and> (sv_arm st = NotArming \<or> out_of_arm (sv_arm st))")
  case True
  assume "core_inv st"
  then have "core_inv (close_receiver close_ok st)" by (rule core_close_receiver)
  moreover have "sv_receiverOpen (close_receiver close_ok st) = False" "sv_cancel (close_receiver close_ok st) = CancelWaitArm"
      "sv_arm (close_receiver close_ok st) = sv_arm st" using True by (simp_all add: close_receiver_def)
  ultimately have "core_inv ((close_receiver close_ok st)\<lparr>sv_cancel := CancelWaitRelay\<rparr>)" using True by (simp add: core_inv_def)
  then show ?thesis using True by (cases "sv_arm st") (simp_all add: cancel_armed_def)
next
  case False
  then show "core_inv st \<Longrightarrow> ?thesis" by (cases "sv_arm st") (auto simp: cancel_armed_def)
qed

lemma core_cancel_relay: "core_inv st \<Longrightarrow> core_inv (cancel_relay clean st)"
proof -
  assume "core_inv st"
  then have "core_inv (close_relay clean st)" by (rule core_close_relay)
  then show ?thesis using \<open>core_inv st\<close>
    by (cases "sv_relay st") (auto simp: cancel_relay_def core_inv_def close_relay_def)
qed

lemma core_cancel_pending: "core_inv st \<Longrightarrow> core_inv (cancel_pending timely now outcome unlock st)"
proof (cases "sv_cancel st = CancelWaitPending")
  case True
  assume inv: "core_inv st"
  define st1 where "st1 = st\<lparr>sv_cleanup := sv_cleanup st \<and> pending_clean timely st\<rparr>"
  have inv1: "core_inv st1" and c1: "sv_cancel st1 = CancelWaitPending" using inv True by (auto simp: st1_def core_inv_def relay_ok_def)
  obtain e st2 where l: "on_ledger (transition Inconclusive (inconclusive ''cancelled_without_qualified_result'') now outcome) st1 = (e, st2)" by fastforce
  have inv2: "core_inv st2" using inv1 core_inv_ledger [OF l] by simp
  have c2: "sv_cancel st2 = CancelWaitPending" using c1 by (simp add: on_ledger_same [OF l])
  have rejected: "core_inv (st2\<lparr>sv_cancel := CancelRejected\<rparr>)" using inv2 by (simp add: core_inv_def)
  have fin: "core_inv (st2\<lparr>sv_finalized := True, sv_cancel := c\<rparr>)" if "c \<in> {CancelRejected, CancelDone}" for c
    using inv2 c2 that by (auto simp: core_inv_def)
  obtain e' st4 where l': "on_ledger (close_ledger unlock) (st2\<lparr>sv_finalized := True\<rparr>) = (e', st4)" by fastforce
  have "core_inv (st4\<lparr>sv_cancel := c\<rparr>)" if "c \<in> {CancelRejected, CancelDone}" for c
    using fin [OF that] by (simp add: core_inv_def on_ledger_same [OF l'])
  then show ?thesis using True rejected fin l l'
    by (auto simp: cancel_pending_def Let_def st1_def [symmetric] split: option.split)
qed (simp add: cancel_pending_def)

lemma core_finalize:
  assumes inv: "core_inv st"
  shows "core_inv (snd (finalize recheck post now outcome unlock st))"
proof (cases "sv_cancelled st \<or> sv_finalized st \<or> \<not> sv_observed st \<or> sv_result st = None")
  case False
  then obtain r where r: "sv_result st = Some r" by auto
  define final where "final = final_result (recheck (sv_authority st)) post st r"
  obtain e st1 where l: "on_ledger (transition (if is_conclusive final then Completed else Inconclusive) final now outcome) st = (e, st1)" by fastforce
  obtain e' st2 where l': "on_ledger (close_ledger unlock) st1 = (e', st2)" by fastforce
  have inv1: "core_inv st1" using inv core_inv_ledger [OF l] by simp
  have inv2: "core_inv st2" using inv1 core_inv_ledger [OF l'] by simp
  have "\<not> sv_cancelled st1" "\<not> sv_cancelled st2" using False by (simp_all add: on_ledger_same [OF l] on_ledger_same [OF l'])
  then have "core_inv (st1\<lparr>sv_finalized := True\<rparr>)" "core_inv (st2\<lparr>sv_finalized := True\<rparr>)"
    using inv1 inv2 by (cases "sv_cancel st1"; cases "sv_cancel st2"; simp add: core_inv_def)+
  then show ?thesis
    using False r l l' inv inv1 inv2
    by (auto simp: finalize_def Let_def final_def [symmetric] split: option.split sum.split prod.split)
qed (use inv in \<open>auto simp: finalize_def split: option.split\<close>)

lemma core_step: "sup_step st st' \<Longrightarrow> core_inv st \<Longrightarrow> core_inv st'"
  by (induction rule: sup_step.induct)
    (simp_all add: core_arm_start core_arm_before core_arm_clock core_arm_relay core_respond core_event core_pending core_observe_start
      core_observe_result core_observe_cleaned core_cancel_start core_cancel_armed core_cancel_relay core_cancel_pending core_finalize)

lemma supervised_core: "supervised owned policy d0 st \<Longrightarrow> core_inv st"
proof (induction rule: supervised.induct)
  case (supervised_start i now outcome d st)
  then show ?case by (auto simp: prepareObservation_def core_inv_def relay_ok_def split: prod.splits sum.splits option.splits)
qed (rule core_step)

section \<open>The ledger of the attempt\<close>

abbreviation ledger_of :: "supervision \<Rightarrow> ledger_dir \<times> session" where
  "ledger_of st \<equiv> (sv_dir st, sv_session st)"

lemma on_ledger_run:
  assumes "on_ledger operation st = (e, st')" and "\<And>e d s. operation (sv_dir st) (sv_session st) = (e, d, s) \<Longrightarrow> ledger_step (ledger_of st) (d, s)"
  shows "ledger_run (ledger_of st) (ledger_of st')"
  using assms by (auto simp: on_ledger_def split: prod.splits intro: ledger_run_step)

lemma on_transition_run: "on_ledger (transition t evidence now outcome) st = (e, st') \<Longrightarrow> safe_integer now \<Longrightarrow> ledger_run (ledger_of st) (ledger_of st')"
  by (erule on_ledger_run) (rule step_transition)

lemma on_checkpoint_run: "on_ledger (checkpoint evidence now outcome) st = (e, st') \<Longrightarrow> ledger_run (ledger_of st) (ledger_of st')"
  by (erule on_ledger_run) (rule step_checkpoint)

lemma on_close_run: "on_ledger (close_ledger unlock) st = (e, st') \<Longrightarrow> ledger_run (ledger_of st) (ledger_of st')"
  by (erule on_ledger_run) (rule step_close)

lemma quiet_steps [simp]:
  "ledger_of (arm_fail ok st) = ledger_of st" "ledger_of (close_receiver ok st) = ledger_of st" "ledger_of (close_relay clean st) = ledger_of st"
  by (simp_all add: arm_fail_def close_receiver_def close_relay_def split: relay_state.split)

text \<open>Only these steps touch the ledger, each by the ledger's own operations.\<close>

lemma step_ledger: "sup_step st st' \<Longrightarrow> ledger_run (ledger_of st) (ledger_of st')"
proof (induction rule: sup_step.induct)
  case (sup_clock now st calibrated opens nt outcome spawned close_ok)
  obtain e t where l: "on_ledger (transition Armed nt now outcome) (st\<lparr>sv_receiverOpen := True\<rparr>) = (e, t)" by fastforce
  have "ledger_run (ledger_of st) (ledger_of t)" using on_transition_run [OF l sup_clock] by simp
  then show ?case using l
    by (auto simp: arm_clock_def ledger_start arm_fail_def close_receiver_def split: arm_stage.split option.split)
next
  case (sup_respond st reader_armed authority peer boot expired nt now outcome)
  have "ledger_run (ledger_of st) (ledger_of t)"
    if "on_ledger (checkpoint nt now outcome) (st\<lparr>sv_consumed := True, sv_authority := Some a\<rparr>) = (e, t)" for a e t
    using on_checkpoint_run [OF that] by simp
  then show ?case by (auto simp: on_respond_def ledger_start split: option.split prod.split)
next
  case (sup_event now recheck st live event outcome)
  then show ?case by (auto simp: on_event_def ledger_start split: option.split prod.split intro: on_transition_run)
next
  case (sup_cleaned st clean nt now outcome)
  define st1 where "st1 = close_relay clean st"
  have "ledger_run (ledger_of st) (ledger_of (snd (on_ledger (checkpoint (nt r) now outcome) (st1\<lparr>sv_result := Some r, sv_completedUTC := Some now\<rparr>))))" for r
    using on_checkpoint_run [of "nt r" now outcome "st1\<lparr>sv_result := Some r, sv_completedUTC := Some now\<rparr>"]
    by (cases "on_ledger (checkpoint (nt r) now outcome) (st1\<lparr>sv_result := Some r, sv_completedUTC := Some now\<rparr>)") (auto simp: st1_def)
  then show ?case by (auto simp: observe_cleaned_def ledger_start Let_def st1_def [symmetric])
next
  case (sup_cancel_pending now st timely outcome unlock)
  define st1 where "st1 = st\<lparr>sv_cleanup := sv_cleanup st \<and> pending_clean timely st\<rparr>"
  obtain e st2 where l: "on_ledger (transition Inconclusive (inconclusive ''cancelled_without_qualified_result'') now outcome) st1 = (e, st2)" by fastforce
  obtain e' st4 where l': "on_ledger (close_ledger unlock) (st2\<lparr>sv_finalized := True\<rparr>) = (e', st4)" by fastforce
  have r2: "ledger_run (ledger_of st) (ledger_of st2)" using on_transition_run [OF l sup_cancel_pending] by (simp add: st1_def)
  moreover have "ledger_run (ledger_of st) (ledger_of st4)" using ledger_run_trans [OF r2] on_close_run [OF l'] by simp
  ultimately show ?case using l l' by (auto simp: cancel_pending_def ledger_start Let_def st1_def [symmetric] split: option.split)
next
  case (sup_finalize now recheck st post outcome unlock)
  have "ledger_run (ledger_of st) (ledger_of st2)"
    if l: "on_ledger (transition t final now outcome) st = (e, st1)" and l': "on_ledger (close_ledger unlock) st1 = (e', st2)" for t final e st1 e' st2
    by (rule ledger_run_trans [OF on_transition_run [OF l sup_finalize(1)] on_close_run [OF l']])
  then show ?case using sup_finalize(1)
    by (auto simp: finalize_def Let_def ledger_start split: option.split sum.split prod.split intro: on_transition_run)
qed (simp_all add: arm_start_def arm_before_def arm_relay_def pending_settles_def observe_start_def observe_result_def cancel_start_def
    cancel_armed_def cancel_relay_def ledger_start Let_def split: option.split bool.split)

lemma supervised_ledger:
  assumes "supervised owned policy d0 st"
  obtains d1 s1 where "openAttemptLedger owned policy d0 = (d1, Inr s1)" and "ledger_run (d1, s1) (ledger_of st)"
proof -
  have "\<exists>d1 s1. openAttemptLedger owned policy d0 = (d1, Inr s1) \<and> ledger_run (d1, s1) (ledger_of st)"
    using assms
  proof induction
    case (supervised_start i now outcome d st)
    then show ?case
      by (auto simp: prepareObservation_def split: prod.splits sum.splits option.splits intro!: ledger_run_step step_prepare)
  next
    case (supervised_step st st')
    then show ?case using ledger_run_trans step_ledger by blast
  qed
  then show ?thesis using that by blast
qed

lemma supervised_session: "supervised owned policy d0 st \<Longrightarrow> session_inv (ld_file d0) (ledger_of st)"
  by (erule supervised_ledger) (rule ledger_run_inv [OF _ opened_inv])

section \<open>What completes\<close>

text \<open>The attempt of the session once it is completed.\<close>

definition completed_attempt :: "session \<Rightarrow> attempt option" where
  "completed_attempt s = (case ss_active s of None \<Rightarrow> None | Some a \<Rightarrow> if at_state a = Completed then Some a else None)"

lemma completed_attempt_Some: "completed_attempt s = Some a \<longleftrightarrow> ss_active s = Some a \<and> at_state a = Completed"
  by (auto simp: completed_attempt_def split: option.splits)

lemma may_follow_Completed [simp]: "may_follow Completed = []"
  by (simp add: may_follow_def)

lemma completed_transition:
  assumes "transition t evidence now outcome d s = (e, d', s')"
  shows "t \<noteq> Completed \<Longrightarrow> completed_attempt s' = completed_attempt s"
    and "t = Completed \<Longrightarrow> e = None \<Longrightarrow> \<exists>a. ss_active s' = Some a \<and> at_state a = Completed \<and> at_evidence a = evidence \<and>
           verdict_of (field evidence (la ''acceptance'')) = Some (at_verdict a) \<and> \<not> ss_poisoned s' \<and> \<not> ss_closed s'"
    and "t = Completed \<Longrightarrow> e \<noteq> None \<Longrightarrow> completed_attempt s' = completed_attempt s"
    and "e = None \<Longrightarrow> terminal t \<Longrightarrow> \<exists>a. ss_active s' = Some a \<and> at_state a = t \<and> \<not> ss_poisoned s' \<and> \<not> ss_closed s'"
  using assms
  by (auto simp: transition_def replace_active_def save_def completed_attempt_def terminal_def split: option.splits if_splits save_outcome.splits)

lemma completed_checkpoint: "checkpoint evidence now outcome d s = (e, d', s') \<Longrightarrow> completed_attempt s' = completed_attempt s"
  by (auto simp: checkpoint_def replace_active_def save_def completed_attempt_def terminal_def split: option.splits if_splits save_outcome.splits)

lemma completed_close: "close_ledger unlock d s = (e, d', s') \<Longrightarrow> completed_attempt s' = completed_attempt s"
  by (auto elim!: close_cases simp: completed_attempt_def)

lemma completed_on_ledger:
  "on_ledger (transition t evidence now outcome) st = (e, st') \<Longrightarrow> t \<noteq> Completed \<Longrightarrow> completed_attempt (sv_session st') = completed_attempt (sv_session st)"
  "on_ledger (checkpoint evidence now outcome) st = (e, st') \<Longrightarrow> completed_attempt (sv_session st') = completed_attempt (sv_session st)"
  "on_ledger (close_ledger unlock) st = (e, st') \<Longrightarrow> completed_attempt (sv_session st') = completed_attempt (sv_session st)"
  by (auto dest!: on_ledger_fields(2) completed_transition(1) completed_checkpoint completed_close)

text \<open>What a completed attempt shows, and that it has been finished or its ledger's closing threw.\<close>

definition proven :: "supervision \<Rightarrow> attempt \<Rightarrow> bool" where
  "proven st a \<longleftrightarrow> (sv_finalized st \<and> \<not> sv_cancelled st \<or> ss_closeFailed (sv_session st)) \<and> sv_cancel st \<noteq> CancelDone \<and>
     sv_observe st = ObserveDone \<and>
     sv_result st = Some (at_evidence a) \<and> is_conclusive (at_evidence a) \<and>
     verdict_of (field (at_evidence a) (la ''acceptance'')) = Some (at_verdict a)"

definition done_inv :: "supervision \<Rightarrow> bool" where
  "done_inv st \<longleftrightarrow> (case completed_attempt (sv_session st) of None \<Rightarrow> True | Some a \<Rightarrow> proven st a)"

text \<open>Once the observation is over and the attempt completed, nothing of this changes.\<close>

definition frozen :: "supervision \<Rightarrow> supervision \<Rightarrow> bool" where
  "frozen st st' \<longleftrightarrow> (sv_finalized st \<and> \<not> sv_cancelled st \<longrightarrow> sv_finalized st' \<and> \<not> sv_cancelled st') \<and>
     (ss_closeFailed (sv_session st) \<longrightarrow> ss_closeFailed (sv_session st')) \<and> (sv_cancel st \<noteq> CancelDone \<longrightarrow> sv_cancel st' \<noteq> CancelDone) \<and>
     sv_observe st' = ObserveDone \<and> sv_result st' = sv_result st"

lemma frozen_done:
  assumes "done_inv st" and "completed_attempt (sv_session st') = completed_attempt (sv_session st)"
    and "\<And>a. completed_attempt (sv_session st) = Some a \<Longrightarrow> sv_observe st = ObserveDone \<Longrightarrow> frozen st st'"
  shows "done_inv st'"
  using assms by (auto simp: done_inv_def proven_def frozen_def split: option.splits)

lemma done_arm: "core_inv st \<Longrightarrow> sv_observe st = ObserveDone \<Longrightarrow> out_of_arm (sv_arm st)"
  by (simp add: core_inv_def)

text \<open>A completed attempt takes no transition and no checkpoint any more.\<close>

lemma completed_refuses [simp]:
  assumes "completed_attempt s = Some a"
  shows "transition t evidence now outcome d s = (Some AttemptState, d, s)" and "checkpoint evidence now outcome d s = (Some AttemptState, d, s)"
  using assms by (simp_all add: completed_attempt_Some transition_def checkpoint_def terminal_def)

lemma completed_refuses_on [simp]:
  assumes "completed_attempt (sv_session st) = Some a"
  shows "on_ledger (transition t evidence now outcome) st = (Some AttemptState, st)" and "on_ledger (checkpoint evidence now outcome) st = (Some AttemptState, st)"
  using assms by (simp_all add: on_ledger_def)

lemma quiet_frozen:
  assumes "core_inv st" and "completed_attempt (sv_session st) = Some a" and "sv_observe st = ObserveDone"
  shows "frozen st (arm_start i st)" "frozen st (arm_before b j base st)" "frozen st (arm_relay opened stopped close_ok st)"
    "frozen st (pending_settles r st)" "frozen st (observe_start i st)" "frozen st (observe_result live recheck close_ok st)"
    "frozen st (cancel_start st)" "frozen st (cancel_armed close_ok st)" "frozen st (cancel_relay clean st)"
    "frozen st (arm_clock calibrated opens nt now outcome spawned close_ok st)" "frozen st (observe_cleaned clean nt' now outcome st)"
    "frozen st (cancel_pending timely now outcome unlock st)"
proof -
  obtain ok where arm: "sv_arm st = ArmDone ok" using done_arm [OF assms(1,3)] by (cases "sv_arm st") auto
  have seen: "sv_observed st" using assms(1,3) by (simp add: core_inv_def)
  have cancelling: "sv_cancel st = CancelWaitPending \<or> sv_cancel st = CancelWaitRelay \<or> sv_cancel st = CancelWaitArm \<Longrightarrow> sv_cancelled st"
    using assms(1) by (auto simp: core_inv_def)
  show "frozen st (arm_start i st)" "frozen st (arm_before b j base st)" "frozen st (arm_relay opened stopped close_ok st)"
    "frozen st (pending_settles r st)" "frozen st (observe_start i st)" "frozen st (observe_result live recheck close_ok st)"
    "frozen st (cancel_start st)" "frozen st (cancel_armed close_ok st)" "frozen st (cancel_relay clean st)"
    "frozen st (arm_clock calibrated opens nt now outcome spawned close_ok st)" "frozen st (observe_cleaned clean nt' now outcome st)"
    "frozen st (cancel_pending timely now outcome unlock st)"
    using assms(2,3) arm seen cancelling
    by (auto simp: frozen_def arm_start_def arm_before_def arm_relay_def pending_settles_def observe_start_def observe_result_def ready_to_judge_def
        cancel_start_def cancel_armed_def cancel_relay_def arm_clock_def observe_cleaned_def cancel_pending_def Let_def
        close_receiver_def close_relay_def split: relay_state.split)
qed

lemma quiet_sessions [simp]:
  "sv_session (arm_fail ok st) = sv_session st" "sv_session (close_receiver ok st) = sv_session st" "sv_session (close_relay clean st) = sv_session st"
  by (simp_all add: arm_fail_def close_receiver_def close_relay_def split: relay_state.split)

lemma quiet_completed [simp]:
  "completed_attempt (sv_session (arm_start i st)) = completed_attempt (sv_session st)"
  "completed_attempt (sv_session (arm_before b j base st)) = completed_attempt (sv_session st)"
  "completed_attempt (sv_session (arm_relay opened stopped close_ok st)) = completed_attempt (sv_session st)"
  "completed_attempt (sv_session (pending_settles r st)) = completed_attempt (sv_session st)"
  "completed_attempt (sv_session (observe_start i st)) = completed_attempt (sv_session st)"
  "completed_attempt (sv_session (observe_result live recheck close_ok st)) = completed_attempt (sv_session st)"
  "completed_attempt (sv_session (cancel_start st)) = completed_attempt (sv_session st)"
  "completed_attempt (sv_session (cancel_armed close_ok st)) = completed_attempt (sv_session st)"
  "completed_attempt (sv_session (cancel_relay clean st)) = completed_attempt (sv_session st)"
  by (simp_all add: arm_start_def arm_before_def arm_relay_def pending_settles_def observe_start_def observe_result_def cancel_start_def
    cancel_armed_def cancel_relay_def Let_def split: option.split bool.split)

text \<open>The operations that write to the ledger without completing an attempt.\<close>

lemma writing_completed:
  "completed_attempt (sv_session (arm_clock calibrated opens nt now outcome spawned close_ok st)) = completed_attempt (sv_session st)"
  "completed_attempt (sv_session (snd (on_respond reader_armed authority peer boot expired nt now outcome st))) = completed_attempt (sv_session st)"
  "completed_attempt (sv_session (snd (on_event live recheck event now outcome st))) = completed_attempt (sv_session st)"
  "completed_attempt (sv_session (observe_cleaned clean nt' now outcome st)) = completed_attempt (sv_session st)"
  "completed_attempt (sv_session (cancel_pending timely now outcome unlock st)) = completed_attempt (sv_session st)"
proof -
  obtain e t where l: "on_ledger (transition Armed nt now outcome) (st\<lparr>sv_receiverOpen := True\<rparr>) = (e, t)" by fastforce
  then show "completed_attempt (sv_session (arm_clock calibrated opens nt now outcome spawned close_ok st)) = completed_attempt (sv_session st)"
    using completed_on_ledger(1) [OF l]
    by (auto simp: arm_clock_def arm_fail_def close_receiver_def split: arm_stage.split option.split)
  have "completed_attempt (sv_session t) = completed_attempt (sv_session st)"
    if "on_ledger (checkpoint nt now outcome) (st\<lparr>sv_consumed := True, sv_authority := Some a\<rparr>) = (e, t)" for a e t
    using completed_on_ledger(2) [OF that] by simp
  then show "completed_attempt (sv_session (snd (on_respond reader_armed authority peer boot expired nt now outcome st))) = completed_attempt (sv_session st)"
    by (auto simp: on_respond_def split: option.split prod.split)
  show "completed_attempt (sv_session (snd (on_event live recheck event now outcome st))) = completed_attempt (sv_session st)"
    by (auto simp: on_event_def completed_on_ledger(1) split: option.split prod.split)
  define st1 where "st1 = close_relay clean st"
  have "completed_attempt (sv_session (snd (on_ledger (checkpoint (nt' r) now outcome) (st1\<lparr>sv_result := Some r, sv_completedUTC := Some now\<rparr>)))) =
      completed_attempt (sv_session st)" for r
    using completed_on_ledger(2) [of "nt' r" now outcome "st1\<lparr>sv_result := Some r, sv_completedUTC := Some now\<rparr>"]
    by (cases "on_ledger (checkpoint (nt' r) now outcome) (st1\<lparr>sv_result := Some r, sv_completedUTC := Some now\<rparr>)") (auto simp: st1_def)
  then show "completed_attempt (sv_session (observe_cleaned clean nt' now outcome st)) = completed_attempt (sv_session st)"
    by (simp add: observe_cleaned_def Let_def st1_def [symmetric])
  define st2 where "st2 = st\<lparr>sv_cleanup := sv_cleanup st \<and> pending_clean timely st\<rparr>"
  obtain e2 st3 where l2: "on_ledger (transition Inconclusive (inconclusive ''cancelled_without_qualified_result'') now outcome) st2 = (e2, st3)" by fastforce
  obtain e4 st4 where l4: "on_ledger (close_ledger unlock) (st3\<lparr>sv_finalized := True\<rparr>) = (e4, st4)" by fastforce
  show "completed_attempt (sv_session (cancel_pending timely now outcome unlock st)) = completed_attempt (sv_session st)"
    using l2 l4 completed_on_ledger(1) [OF l2] completed_on_ledger(3) [OF l4]
    by (auto simp: cancel_pending_def Let_def st2_def split: option.split)
qed

lemma respond_frozen:
  "completed_attempt (sv_session st) = Some a \<Longrightarrow> sv_observe st = ObserveDone \<Longrightarrow>
     frozen st (snd (on_respond reader_armed authority peer boot expired nt now outcome st))"
  "completed_attempt (sv_session st) = Some a \<Longrightarrow> sv_observe st = ObserveDone \<Longrightarrow> frozen st (snd (on_event live recheck event now outcome st))"
  by (auto simp: on_respond_def on_event_def frozen_def split: option.split)

text \<open>After a transition that was saved, closing succeeds or is noted as failed.\<close>

lemma close_noted:
  assumes "close_ledger unlock d s = (Some x, d', s')" and "ss_active s = Some a" and "terminal (at_state a)" and "\<not> ss_poisoned s" and "\<not> ss_closed s"
  shows "ss_closeFailed s'"
  by (rule close_cases [OF assms(1)]) (use assms in \<open>auto simp: close_ledger_def split: if_splits\<close>)

lemma final_conclusive:
  assumes "is_conclusive (final_result rechecked post st r)"
  shows "final_result rechecked post st r = r" and "rechecked"
    and "\<exists>i p. sv_initial st = Some i \<and> post = Some p \<and> same_deployment i p (sv_completedUTC st)"
  using assms by (auto simp: final_result_def split: if_splits option.splits)

lemma done_finalize:
  assumes core: "core_inv st" and inv: "session_inv f0 (ledger_of st)" and now: "safe_integer now" and ob: "sv_observe st = ObserveDone"
    and held: "done_inv st"
  shows "done_inv (snd (finalize recheck post now outcome unlock st))"
proof (cases "sv_cancelled st \<or> sv_finalized st \<or> \<not> sv_observed st \<or> sv_result st = None")
  case False
  then obtain r where r: "sv_result st = Some r" by auto
  define final where "final = final_result (recheck (sv_authority st)) post st r"
  define t where "t = (if is_conclusive final then Completed else Inconclusive)"
  obtain e st1 where l: "on_ledger (transition t final now outcome) st = (e, st1)" by fastforce
  note tr = on_ledger_fields(2) [OF l]
  have finalize: "finalize recheck post now outcome unlock st =
      (case e of Some _ \<Rightarrow> (None, st1) | None \<Rightarrow> snd (None, finalize recheck post now outcome unlock st))"
    using False r l by (simp add: finalize_def final_def [symmetric] t_def [symmetric] split: option.split)
  show ?thesis
  proof (cases "completed_attempt (sv_session st)")
    case (Some a)
    then have "st1 = st" "e = Some AttemptState" using l by auto
    then show ?thesis using finalize held by simp
  next
    case none: None
    show ?thesis
    proof (cases e)
      case (Some x)
      have "completed_attempt (sv_session st1) = None" using completed_transition(1,3) [OF tr] none Some by (cases "t = Completed") simp_all
      then show ?thesis using finalize Some by (simp add: done_inv_def)
    next
      case None
      have terminal: "terminal t" by (simp add: t_def terminal_def)
      obtain a where a: "ss_active (sv_session st1) = Some a" "at_state a = t" "\<not> ss_poisoned (sv_session st1)" "\<not> ss_closed (sv_session st1)"
        using completed_transition(4) [OF tr None terminal] by blast
      have "session_inv f0 (ledger_of st1)" by (rule ledger_run_inv [OF on_transition_run [OF l now] inv])
      then obtain n where n: "series (sv_session st1) = Inr n" using series_value a(3) by blast
      obtain e2 st2 where l2: "on_ledger (close_ledger unlock) st1 = (e2, st2)" by fastforce
      define st3 where "st3 = (if sv_cleanup st1 then (if e2 = None then st2\<lparr>sv_finalized := True\<rparr> else st2) else st1\<lparr>sv_finalized := True\<rparr>)"
      have result: "snd (finalize recheck post now outcome unlock st) = st3"
        using False r l n l2 None
        by (simp add: finalize_def Let_def final_def [symmetric] t_def [symmetric] st3_def split: if_split option.split)
      have session: "completed_attempt (sv_session st3) = completed_attempt (sv_session st1)"
        using completed_on_ledger(3) [OF l2] by (simp add: st3_def)
      have noted: "ss_closeFailed (sv_session st2)" if "e2 \<noteq> None"
        using that close_noted [OF _ a(1) _ a(3,4)] on_ledger_fields(2) [OF l2] terminal a(2) by auto
      show ?thesis
      proof (cases "is_conclusive final")
        case True
        then have c: "final = r" using final_conclusive(1) unfolding final_def by blast
        obtain b where b: "completed_attempt (sv_session st1) = Some b" "at_evidence b = final"
            "verdict_of (field final (la ''acceptance'')) = Some (at_verdict b)"
          using completed_transition(2) [OF tr _ None] True by (auto simp: t_def completed_attempt_Some)
        have "sv_cancel st \<noteq> CancelDone" using core False by (auto simp: core_inv_def)
        then have "proven st3 b"
          using b c True False r ob noted
          by (auto simp: proven_def st3_def on_ledger_same [OF l] on_ledger_same [OF l2])
        then show ?thesis unfolding result using session b(1) by (simp add: done_inv_def)
      next
        case other: False
        have "completed_attempt (sv_session st1) = None" using completed_transition(1) [OF tr] none other by (simp add: t_def)
        then show ?thesis unfolding result using session by (simp add: done_inv_def)
      qed
    qed
  qed
qed (use held in \<open>auto simp: finalize_def split: option.split\<close>)

lemma done_step:
  assumes "sup_step st st'" and "core_inv st" and "session_inv f0 (ledger_of st)" and "done_inv st"
  shows "done_inv st'"
  using assms
proof (induction rule: sup_step.induct)
  case (sup_finalize now recheck st post outcome)
  then show ?case by (intro done_finalize)
qed (erule frozen_done, simp add: writing_completed, simp add: quiet_frozen respond_frozen)+

lemma completed_prepare: "prepare_attempt i now outcome d s = (None, d', s') \<Longrightarrow> completed_attempt s' = None"
  by (auto simp: prepare_attempt_def Let_def save_def completed_attempt_def split: if_splits save_outcome.splits)

lemma supervised_done: "supervised owned policy d0 st \<Longrightarrow> done_inv st"
proof (induction rule: supervised.induct)
  case (supervised_start i now outcome d st)
  then have "completed_attempt (sv_session st) = None"
    by (auto simp: prepareObservation_def completed_prepare split: prod.splits sum.splits option.splits)
  then show ?case by (simp add: done_inv_def)
next
  case (supervised_step st st')
  then show ?case using done_step supervised_core supervised_session by blast
qed

text \<open>What a report of \<open>finalize\<close> comes from.\<close>

lemma finalize_report:
  assumes "finalize recheck post now outcome unlock st = (Some rep, st')"
  obtains r final st1 n e st2 where "sv_result st = Some r" and "\<not> sv_cancelled st" and "\<not> sv_finalized st" and "sv_observed st"
    and "final = final_result (recheck (sv_authority st)) post st r"
    and "on_ledger (transition (if is_conclusive final then Completed else Inconclusive) final now outcome) st = (None, st1)"
    and "series (sv_session st1) = Inr n" and "on_ledger (close_ledger unlock) st1 = (e, st2)" and "sv_cleanup st1 \<longrightarrow> e = None"
    and "st' = (if sv_cleanup st1 then st2 else st1)\<lparr>sv_finalized := True\<rparr>"
    and "rep = \<lparr>vr_acceptance = field final (la ''acceptance''), vr_count = n, vr_accepted = (sv_cleanup st1 \<and> n \<ge> 3), vr_reconcile = (\<not> sv_cleanup st1)\<rparr>"
proof -
  obtain r where r: "sv_result st = Some r" "\<not> sv_cancelled st" "\<not> sv_finalized st" "sv_observed st"
    using assms by (auto simp: finalize_def split: if_splits option.splits)
  define final where "final = final_result (recheck (sv_authority st)) post st r"
  obtain e1 st1 where l: "on_ledger (transition (if is_conclusive final then Completed else Inconclusive) final now outcome) st = (e1, st1)" by fastforce
  obtain e st2 where l2: "on_ledger (close_ledger unlock) st1 = (e, st2)" by fastforce
  have e1: "e1 = None" using assms r l by (cases e1) (simp_all add: finalize_def final_def [symmetric])
  obtain n where n: "series (sv_session st1) = Inr n"
    using assms r l e1 by (cases "series (sv_session st1)") (simp_all add: finalize_def final_def [symmetric])
  have clean: "sv_cleanup st1 \<longrightarrow> e = None" using assms r l l2 e1 n by (cases e; cases "sv_cleanup st1") (simp_all add: finalize_def final_def [symmetric])
  have "sv_cleanup st2 = sv_cleanup st1" by (rule on_ledger_same [OF l2])
  then have "st' = (if sv_cleanup st1 then st2 else st1)\<lparr>sv_finalized := True\<rparr> \<and>
      rep = \<lparr>vr_acceptance = field final (la ''acceptance''), vr_count = n, vr_accepted = (sv_cleanup st1 \<and> n \<ge> 3), vr_reconcile = (\<not> sv_cleanup st1)\<rparr>"
    using assms r l l2 e1 n clean by (auto simp: finalize_def final_def [symmetric] split: if_splits)
  then show ?thesis using that r final_def l n l2 clean e1 by blast
qed

lemma close_keeps: "close_ledger unlock d s = (e, d', s') \<Longrightarrow> ss_entries s' = ss_entries s \<and> ss_policy s' = ss_policy s \<and> ss_active s' = ss_active s"
  by (auto simp: close_ledger_def split: if_splits)

lemma transition_open:
  assumes "transition t evidence now outcome d s = (None, d', s')" and "session_inv f0 (d, s)"
  shows "\<not> ss_closeFailed s'"
proof -
  obtain a where a: "ss_active s = Some a" "t \<in> set (may_follow (at_state a))" "ss_closeFailed s' = ss_closeFailed s"
    using assms(1) by (auto simp: transition_def replace_active_def save_def split: option.splits if_splits save_outcome.splits)
  then show ?thesis using assms(2) may_follow_open by (auto simp: session_inv_def)
qed

lemma close_unlocks: "close_ledger unlock d s = (None, d', s') \<Longrightarrow> \<not> ld_lock d' \<and> ss_closed s'"
  by (auto simp: close_ledger_def split: if_splits)

text \<open>A course that ends well, step by step.\<close>

definition w_identity :: jval where
  "w_identity = JObj [(la ''confirmedAt'', JNum (Fin 5)), (la ''optInInactive'', JBool True)]"

definition w_boot :: jstr where "w_boot = la ''00000000-0000-0000-0000-000000000000''"

definition w_authority :: jval where
  "w_authority = JObj [(la ''uid'', JNum (Fin 7)), (la ''gid'', JNum (Fin 7)), (la ''operatorUid'', JNum (Fin 7)), (la ''operatorGid'', JNum (Fin 7)),
     (la ''rootControlled'', JBool True), (la ''executableSha256'', JNull), (la ''ingestSha256'', JNull), (la ''bootId'', JStr w_boot),
     (la ''pid'', JNum (Fin 9))]"

definition w_prepared :: supervision where
  "w_prepared = the (snd (prepareObservation True JNull (replicate 32 97) 1 Saved empty_dir))"

definition w_armed :: supervision where
  "w_armed = arm_relay True True True (arm_clock True True JNull 2 Saved True True
     (arm_before (Some sample_before) (Some w_identity) (Some JNull) (arm_start (Some w_identity) w_prepared)))"

definition w_settled :: supervision where
  "w_settled = pending_settles (Some (JObj [(la ''acceptance'', JStr (la ''PASS''))]))
     (snd (on_event True (\<lambda>a. a \<noteq> None) JNull 4 Saved
       (snd (on_respond True (Some w_authority) w_authority w_boot False JNull 3 Saved w_armed))))"

definition w_observed :: supervision where
  "w_observed = observe_cleaned True (\<lambda>r. r) 5 Saved (observe_result True (\<lambda>a. a \<noteq> None) True (observe_start None w_settled))"

definition w_final :: supervision where
  "w_final = snd (finalize (\<lambda>a. a \<noteq> None) (Some w_identity) 6 Saved Unlocked w_observed)"

lemma w_prepares: "\<exists>d. prepareObservation True JNull (replicate 32 97) 1 Saved empty_dir = (d, Some w_prepared)"
proof -
  have "snd (prepareObservation True JNull (replicate 32 97) 1 Saved empty_dir) \<noteq> None" by code_simp
  then show ?thesis by (cases "prepareObservation True JNull (replicate 32 97) 1 Saved empty_dir") (auto simp: w_prepared_def)
qed

lemma w_observed_run: "supervised True JNull empty_dir w_observed"
proof -
  obtain d where d: "prepareObservation True JNull (replicate 32 97) 1 Saved empty_dir = (d, Some w_prepared)" using w_prepares by blast
  have "is_attempt_id (replicate 32 97)" by code_simp
  then have "supervised True JNull empty_dir w_prepared" using d by (intro supervised_start) (simp_all add: safe_integer_def)
  then have "supervised True JNull empty_dir w_armed"
    unfolding w_armed_def by (intro supervised_step [OF _ sup_relay] supervised_step [OF _ sup_clock] supervised_step [OF _ sup_before]
      supervised_step [OF _ sup_arm]) (simp_all add: safe_integer_def)
  then have "supervised True JNull empty_dir w_settled"
    unfolding w_settled_def by (intro supervised_step [OF _ sup_pending] supervised_step [OF _ sup_event] supervised_step [OF _ sup_respond])
      (simp_all add: safe_integer_def)
  then show ?thesis
    unfolding w_observed_def by (intro supervised_step [OF _ sup_cleaned] supervised_step [OF _ sup_result] supervised_step [OF _ sup_observe]) simp_all
qed

lemma w_completed: "map_option at_state (ss_active (sv_session w_final)) = Some Completed"
  by code_simp

lemma w_closed_well: "\<not> ss_closeFailed (sv_session w_final)"
  by code_simp

lemma w_observed_done: "sv_observe w_observed = ObserveDone"
  by code_simp

text \<open>C11: An attempt is recorded as completed only by the full course: the observation has ended, the
  attempt has been finished without a cancellation (or all but that: the ledger's closing threw, which
  leaves the recorded attempt and rejects every later cancellation), its evidence is word for word the
  verdict the receiver settled on, found conclusive while the authority to publish had been claimed by
  a peer, and the recorded verdict is the one of that evidence. This holds in every reachable state,
  however the steps of arming, publishing, observing, cancelling and finishing interleave and
  whatever each awaited call comes to.\<close>

theorem only_verified_attempts_complete:
  assumes "supervised owned policy d0 st" and "ss_active (sv_session st) = Some a" and "at_state a = Completed"
  shows "(sv_finalized st \<and> \<not> sv_cancelled st \<or> ss_closeFailed (sv_session st)) \<and> sv_cancel st \<noteq> CancelDone \<and>
     sv_observe st = ObserveDone \<and> sv_pending st = Settled (at_evidence a) \<and> sv_result st = Some (at_evidence a) \<and> is_conclusive (at_evidence a) \<and>
     verdict_of (field (at_evidence a) (la ''acceptance'')) = Some (at_verdict a) \<and> sv_authority st \<noteq> None"
proof -
  have "completed_attempt (sv_session st) = Some a" using assms by (simp add: completed_attempt_Some)
  then have p: "proven st a" using supervised_done [OF assms(1)] by (simp add: done_inv_def)
  then have "verdict_ok (sv_result st) (sv_pending st) (sv_authority st) (sv_observe st)"
    using supervised_core [OF assms(1)] by (simp add: core_inv_def)
  then show ?thesis using p by (simp add: proven_def)
qed

theorem only_verified_attempts_complete_witness:
  "\<exists>a. ss_active (sv_session w_final) = Some a \<and> at_state a = Completed \<and> sv_pending w_final = Settled (at_evidence a) \<and> \<not> sv_cancelled w_final"
proof -
  obtain a where a: "ss_active (sv_session w_final) = Some a" "at_state a = Completed" using w_completed by auto
  have "supervised True JNull empty_dir w_final"
    unfolding w_final_def by (intro supervised_step [OF w_observed_run sup_finalize] w_observed_done) (simp_all add: safe_integer_def)
  then show ?thesis using only_verified_attempts_complete [OF _ a] a w_closed_well by blast
qed

text \<open>C12: Finishing an attempt, where it reports and does not throw, reports acceptance exactly when the clean-up was verified and at least three
  attempts under the present policy have passed since the last failure; the count is the one the
  ledger gives. A conclusive verdict is reported only when the authority was found unchanged and the
  deployment before and after the publication is the same one, confirmed after the observation
  ended with the opt-in off, and it is the receiver's own verdict. The lock of the ledger is
  released exactly when the clean-up was verified.\<close>

theorem acceptance_needs_three_passes:
  assumes "supervised owned policy d0 st" and "safe_integer now" and "finalize recheck post now outcome unlock st = (Some rep, st')"
  shows "\<exists>key n. policy_key (ss_policy (sv_session st')) = Inr key \<and>
       n = length (filter passed (current_series key (ss_entries (sv_session st')))) \<and> vr_count rep = n \<and>
       (vr_accepted rep \<longleftrightarrow> sv_cleanup st \<and> 3 \<le> n) \<and> (vr_reconcile rep \<longleftrightarrow> \<not> sv_cleanup st) \<and>
       (ld_lock (sv_dir st') \<longleftrightarrow> \<not> sv_cleanup st) \<and>
       (vr_acceptance rep = JStr (la ''INCONCLUSIVE'') \<or>
         (\<exists>r i p. sv_pending st = Settled r \<and> vr_acceptance rep = field r (la ''acceptance'') \<and> recheck (sv_authority st) \<and>
            sv_initial st = Some i \<and> post = Some p \<and> same_deployment i p (sv_completedUTC st)))"
proof -
  obtain r final st1 n e st2 where r: "sv_result st = Some r" and "\<not> sv_cancelled st" and "\<not> sv_finalized st" and "sv_observed st" and final: "final = final_result (recheck (sv_authority st)) post st r"
    and l: "on_ledger (transition (if is_conclusive final then Completed else Inconclusive) final now outcome) st = (None, st1)"
    and n: "series (sv_session st1) = Inr n" and l2: "on_ledger (close_ledger unlock) st1 = (e, st2)" and e: "sv_cleanup st1 \<longrightarrow> e = None"
    and st': "st' = (if sv_cleanup st1 then st2 else st1)\<lparr>sv_finalized := True\<rparr>"
    and rep: "rep = \<lparr>vr_acceptance = field final (la ''acceptance''), vr_count = n, vr_accepted = (sv_cleanup st1 \<and> n \<ge> 3), vr_reconcile = (\<not> sv_cleanup st1)\<rparr>"
    by (rule finalize_report [OF assms(3)], rule that; assumption)
  have inv: "session_inv (ld_file d0) (ledger_of st1)"
    by (rule ledger_run_inv [OF on_transition_run [OF l assms(2)] supervised_session [OF assms(1)]])
  have "\<exists>a. \<not> ss_poisoned (sv_session st1) \<and> \<not> ss_closed (sv_session st1)"
    using completed_transition(4) [OF on_ledger_fields(2) [OF l] refl] by (cases "is_conclusive final") (auto simp: terminal_def)
  then have healthy: "\<not> ss_poisoned (sv_session st1)" "\<not> ss_closed (sv_session st1)" by simp_all
  obtain key where key: "policy_key (ss_policy (sv_session st1)) = Inr key"
      "n = length (filter passed (current_series key (ss_entries (sv_session st1))))"
    using series_value [OF inv healthy(1)] n by (metis sum.inject(2))
  have clean: "sv_cleanup st1 = sv_cleanup st" by (rule on_ledger_same [OF l])
  note close = on_ledger_fields(2) [OF l2]
  have session: "ss_policy (sv_session st') = ss_policy (sv_session st1)" "ss_entries (sv_session st') = ss_entries (sv_session st1)"
    using close_keeps [OF close] by (simp_all add: st')
  have lock: "ld_lock (sv_dir st') \<longleftrightarrow> \<not> sv_cleanup st"
  proof (cases "sv_cleanup st1")
    case True
    then show ?thesis using close_unlocks close e clean by (simp add: st')
  next
    case False
    have "\<not> ss_closeFailed (sv_session st1)" by (rule transition_open [OF on_ledger_fields(2) [OF l] supervised_session [OF assms(1)]])
    then show ?thesis using inv healthy clean False by (simp add: st' session_inv_def)
  qed
  have "vr_acceptance rep = JStr (la ''INCONCLUSIVE'') \<or>
       (sv_pending st = Settled r \<and> vr_acceptance rep = field r (la ''acceptance'') \<and> recheck (sv_authority st) \<and>
         (\<exists>i p. sv_initial st = Some i \<and> post = Some p \<and> same_deployment i p (sv_completedUTC st)))"
  proof (cases "is_conclusive final")
    case True
    note c = final_conclusive [OF True [unfolded final]]
    have "sv_pending st = Settled r"
      using supervised_core [OF assms(1)] r True c(1) by (simp add: core_inv_def final)
    then show ?thesis using c by (simp add: rep final)
  qed (simp add: is_conclusive_def rep)
  then show ?thesis using key session lock clean by (auto simp: rep)
qed

lemma w_report: "map_option vr_count (fst (finalize (\<lambda>a. a \<noteq> None) (Some w_identity) 6 Saved Unlocked w_observed)) = Some 1"
  by code_simp

theorem acceptance_needs_three_passes_witness:
  "\<exists>rep. fst (finalize (\<lambda>a. a \<noteq> None) (Some w_identity) 6 Saved Unlocked w_observed) = Some rep \<and> vr_count rep = 1 \<and> \<not> vr_accepted rep"
proof -
  obtain rep st' where r: "finalize (\<lambda>a. a \<noteq> None) (Some w_identity) 6 Saved Unlocked w_observed = (Some rep, st')" and n: "vr_count rep = 1"
    using w_report by (cases "finalize (\<lambda>a. a \<noteq> None) (Some w_identity) 6 Saved Unlocked w_observed") auto
  have "safe_integer 6" by (simp add: safe_integer_def)
  then show ?thesis using acceptance_needs_three_passes [OF w_observed_run _ r] r n by auto
qed

section \<open>The message from the publisher\<close>

text \<open>C17: When every reading of the probe was taken between the two readings of the observer's clock around
  it, so that some constant difference of the clocks explains them, an accepted message opens a
  window, on the observer's clock, that holds the whole publication: its begin and its end, carried
  over by that unknown difference, lie within the bounds, the window is shorter than five seconds
  and begins at most twenty seconds ago, and the publication ended at most five seconds ago. The
  message belongs to this attempt, and its identity is used up once, of at most 256.\<close>

theorem event_window_brackets_publication:
  assumes "calibrateClock linux bootId samples t = Inr (wt_calibration w)" and "list_all (brackets difference) samples"
    and "accept_message parse stringify rc w deadline has_get source now nowNS raw consumed = (Inr (ob, b, e), consumed')"
  shows "1000000 * b \<le> of_int (mono_field ob (la ''startMono'') + difference - nowNS) \<and>
     of_int (mono_field ob (la ''endMono'') + difference - nowNS) \<le> 1000000 * e \<and> e - b < 5000 \<and> - 20000 \<le> b \<and>
     nowNS - (mono_field ob (la ''endMono'') + difference) \<le> 5000000000 \<and> obj_get ob (la ''attemptId'') = rc_attemptId rc \<and>
     (\<exists>i. consumed' = consumed @ [i] \<and> i \<notin> set consumed \<and> length consumed < MAX_CONSUMED)"
proof -
  note c = calibrateClock_sound [OF assms(1,2)]
  note m = accept_message_Inr [OF assms(3)]
  have "nowNS - (mono_field ob (la ''endMono'') + difference) \<le> 5000000000" using c(1) m(4) by simp
  then show ?thesis using event_bounds_bracket [OF m(1) c(1,2)] m(2,5) by simp
qed

definition w_sample :: clock_sample where
  "w_sample = \<lparr>cs_before = 999999990, cs_after = 1000000010, cs_probe = Some (JStr w_boot, JStr (la ''1000000000''))\<rparr>"

definition w_clock :: calibration where
  "w_clock = \<lparr>cb_bootId = w_boot, cb_lower = -10, cb_upper = 10, cb_measuredAt = 1000000020\<rparr>"

definition w_message :: "(jstr \<times> jval) list" where
  "w_message = [(la ''version'', JNum (Fin 1)), (la ''snapshotId'', JStr w_boot), (la ''attemptId'', JStr (replicate 32 97)),
     (la ''status'', JNum (Fin 204)), (la ''startMono'', JStr (la ''2000000000'')), (la ''endMono'', JStr (la ''2000000100'')),
     (la ''bootId'', JStr w_boot), (la ''errorClass'', JStr (la ''none''))]"

definition w_receiver :: receiver where
  "w_receiver = \<lparr>rc_persistent = False, rc_attemptId = JStr (replicate 32 97), rc_calibration = Some w_clock, rc_armedAt = 0\<rparr>"

definition w_waiting :: waiting where
  "w_waiting = \<lparr>wt_calibration = w_clock, wt_refreshing = False, wt_refreshError = False\<rparr>"

definition w_accept :: "(recv_reason + (jstr \<times> jval) list \<times> rat \<times> rat) \<times> jstr list" where
  "w_accept = accept_message (\<lambda>_. Some (JObj w_message)) (\<lambda>_. []) w_receiver w_waiting 0 True (FromManifest (JObj w_message)) 0 2000001000 [10] []"

lemma w_calibrates: "calibrateClock True w_boot [w_sample] 1000000020 = Inr (wt_calibration w_waiting)"
  by code_simp

lemma w_brackets: "list_all (brackets 0) [w_sample]"
  by code_simp

lemma w_accepted: "case fst w_accept of Inl _ \<Rightarrow> False | Inr (ob, _) \<Rightarrow> ob = w_message"
  by code_simp

theorem event_window_brackets_publication_witness:
  "\<exists>b e. fst w_accept = Inr (w_message, b, e) \<and> 1000000 * b \<le> - 1000 \<and> - 900 \<le> 1000000 * e \<and> length (snd w_accept) = 1"
proof -
  obtain r consumed where r: "w_accept = (r, consumed)" by fastforce
  obtain b e where "r = Inr (w_message, b, e)" using w_accepted by (cases r) (auto simp: r)
  then have a: "w_accept = (Inr (w_message, b, e), consumed)" using r by simp
  have m: "mono_field w_message (la ''startMono'') = 2000000000" "mono_field w_message (la ''endMono'') = 2000000100" by code_simp+
  show ?thesis
    using event_window_brackets_publication [OF w_calibrates w_brackets a [unfolded w_accept_def]] m by (auto simp: a)
qed

section \<open>The identity of the deployment\<close>

lemma identities_after_drift:
  "identities digest cs st = before @ (Some s, Inl DeploymentChanged) # rest \<Longrightarrow> list_all (\<lambda>(_, r). \<exists>e. r = Inl e) rest"
proof (induction cs arbitrary: st before)
  case (Cons c cs)
  obtain r st' where i: "identity digest (ic_verified c) (ic_deployment c) (ic_frontend c) (ic_now c) (ic_attempt c) (ic_stage c) st = (r, st')" by fastforce
  show ?case
  proof (cases before)
    case Nil
    then have "ic_stage c = Some s" "r = Inl DeploymentChanged" "rest = identities digest cs st'" using Cons.prems by (simp_all add: i)
    then show ?thesis using identity_result(4) [OF i] identities_drift by simp
  next
    case (Cons x xs)
    then show ?thesis using Cons.prems Cons.IH [of st' xs] by (simp add: i)
  qed
qed simp

text \<open>C19: Within one session all identities of the deployment that are answered are of one deployment: those
  before the publication are the same document, and those after it agree with that document in every
  field that identifies the deployment and are confirmed no earlier. Once a change has been noticed,
  no identity is answered again, whatever the files hold afterwards.\<close>

theorem deployment_identity_is_pinned:
  assumes "identities digest cs \<lparr>is_agreed = None, is_drift = False\<rparr> = answers"
  shows "\<exists>b. list_all (\<lambda>(s, r). case r of Inl _ \<Rightarrow> True | Inr d \<Rightarrow> s = Some Before \<and> d = b \<or> s = Some After \<and> agrees d b) answers \<and>
     (\<forall>before s rest. answers = before @ (Some s, Inl DeploymentChanged) # rest \<longrightarrow> list_all (\<lambda>(_, r). \<exists>e. r = Inl e) rest)"
proof -
  obtain b where "list_all (\<lambda>(s, r). \<forall>d. r = Inr d \<longrightarrow> s = Some Before \<and> d = b \<or> s = Some After \<and> agrees d b) answers"
    using identities_fresh assms by blast
  then have "list_all (\<lambda>(s, r). case r of Inl _ \<Rightarrow> True | Inr d \<Rightarrow> s = Some Before \<and> d = b \<or> s = Some After \<and> agrees d b) answers"
    by (auto simp: list_all_iff split: sum.split)
  then show ?thesis using identities_after_drift assms by blast
qed

definition w_deployment :: "stage \<Rightarrow> string \<Rightarrow> jval" where
  "w_deployment s sha = JObj [(la ''version'', JNum (Fin 1)), (la ''attemptId'', JNull), (la ''stage'', JStr (stage_name s)),
     (la ''alias'', JStr (la ''aktau.market'')), (la ''deploymentId'', JStr (la ''dpl_a'')), (la ''frontendSha'', JStr (concat (replicate 40 (la sha)))),
     (la ''ready'', JBool True), (la ''target'', JStr (la ''Production'')), (la ''confirmedAt'', JNum (Fin 1)), (la ''optInInactive'', JBool True),
     (la ''legitimatePublication'', JBool True)]"

definition w_call :: "stage \<Rightarrow> string \<Rightarrow> identity_call" where
  "w_call s sha = \<lparr>ic_verified = True, ic_deployment = Some (w_deployment s sha), ic_frontend = None, ic_now = 2, ic_attempt = JNull, ic_stage = Some s\<rparr>"

definition w_answers :: "(stage option \<times> (identity_error + jval)) list" where
  "w_answers = identities (\<lambda>_. []) [w_call Before ''a'', w_call After ''a'', w_call After ''b'', w_call After ''a'']
     \<lparr>is_agreed = None, is_drift = False\<rparr>"

lemma w_answered:
  "w_answers = [(Some Before, Inr (w_deployment Before ''a'')), (Some After, Inr (w_deployment After ''a'')),
     (Some After, Inl DeploymentChanged), (Some After, Inl DeploymentChanged)]"
  by code_simp

theorem deployment_identity_is_pinned_witness:
  "agrees (w_deployment After ''a'') (w_deployment Before ''a'') \<and> list_all (\<lambda>(_, r). \<exists>e. r = Inl e) (drop 3 w_answers)"
proof -
  note t = deployment_identity_is_pinned [OF w_answers_def [symmetric]]
  have "w_answers = take 2 w_answers @ (Some After, Inl DeploymentChanged) # drop 3 w_answers" by (simp add: w_answered)
  then show ?thesis using t by (auto simp: w_answered)
qed

section \<open>The hand-over\<close>

text \<open>C18: The relay asks the supervisor at most once, with a well-formed request for this attempt and a
  well-formed peer, and writes at most one answer, after it has asked. It tells that the answer has
  been delivered, and counts as live, only after exactly one such answer was written, whatever the
  child prints, in whatever pieces, and whenever it fails, ends or is stopped.\<close>

theorem relay_hands_over_once:
  assumes "relay_run utf8 parse stringify attemptId st"
  shows "length (rl_asked st) \<le> 1 \<and> list_all (\<lambda>(r, p). request_ok attemptId r \<and> peer_ok p) (rl_asked st) \<and>
     length (rl_written st) \<le> length (rl_asked st) \<and>
     (is_live st \<or> rl_delivered st = Some True \<longrightarrow> rl_delivered st = Some True \<and> length (rl_asked st) = 1 \<and> length (rl_written st) = 1)"
proof -
  have inv: "relay_inv attemptId st" by (rule relay_run_inv [OF assms])
  have written: "length (rl_written st) \<le> 1" "rl_written st \<noteq> [] \<longrightarrow> rl_asked st \<noteq> []" "length (rl_asked st) \<le> 1"
    using inv by (auto simp: relay_inv_def)
  have le: "length (rl_written st) \<le> length (rl_asked st)" using written(1,2) by (cases "rl_asked st"; cases "rl_written st") simp_all
  have "length (rl_written st) = 1" if "rl_delivered st = Some True" using inv that by (simp add: relay_inv_def)
  then have "rl_delivered st = Some True \<Longrightarrow> length (rl_asked st) = 1 \<and> length (rl_written st) = 1"
    using le written(3) by fastforce
  then show ?thesis using relay_live [OF inv] le written(3) inv by (auto simp: relay_inv_def)
qed

definition w_request :: jval where
  "w_request = JObj [(la ''state'', JStr (la ''request'')),
     (la ''request'', JObj [(la ''version'', JNum (Fin 1)), (la ''attemptId'', JStr (replicate 32 97)), (la ''nonce'', JStr (replicate 32 98))]),
     (la ''peer'', JObj [(la ''pid'', JNum (Fin 9)), (la ''uid'', JNum (Fin 7)), (la ''gid'', JNum (Fin 7)), (la ''executableSha256'', JStr (replicate 64 97)),
        (la ''rootControlled'', JBool True), (la ''bootId'', JStr w_boot)])]"

text \<open>A table of the three lines in place of the parser; the request is abbreviated to one letter.\<close>

definition w_lines :: "(jstr \<times> jval) list" where
  "w_lines = [(state_line ''listening'', JObj [(la ''state'', JStr (la ''listening''))]), ([82, 10], w_request),
     (state_line ''delivered'', JObj [(la ''state'', JStr (la ''delivered''))])]"

definition w_stringify :: "jval \<Rightarrow> jstr" where
  "w_stringify v = (case List.find (\<lambda>(l, x). x = v) w_lines of None \<Rightarrow> [] | Some (l, _) \<Rightarrow> butlast l)"

definition w_relay :: relay where
  "w_relay = on_data id (map_of w_lines) w_stringify (replicate 32 97) (state_line ''delivered'')
     (on_answer w_stringify (Some JNull)
       (on_data id (map_of w_lines) w_stringify (replicate 32 97) (state_line ''listening'' @ [82, 10]) new_relay))"

lemma w_relay_live: "is_live w_relay"
  by code_simp

theorem relay_hands_over_once_witness: "is_live w_relay \<and> length (rl_asked w_relay) = 1 \<and> length (rl_written w_relay) = 1"
proof -
  have "relay_run id (map_of w_lines) w_stringify (replicate 32 97) w_relay"
    unfolding w_relay_def by (intro relay_next [OF _ step_data] relay_next [OF _ step_answer] relay_start)
  then show ?thesis using relay_hands_over_once w_relay_live by blast
qed

end
