(* ===== verification/Monitor.thy ===== *)
theory Monitor
  imports Ledger
begin

text \<open>
  The monitor of the production API: the five requests of one check
  (\<open>scripts/ops/verify-go-production.mjs\<close>), the state it keeps between runs with its lock
  (\<open>scripts/ops/monitor-state.mjs\<close>), and one run with the delivery of an incident
  (\<open>scripts/ops/monitor-go-production.mjs\<close>). What comes over the wire, \<open>JSON.parse\<close>, the decoding
  of UTF-8, the clocks and the outcomes of the writes are parameters.
\<close>

section \<open>What the API must answer\<close>

definition is_object :: "jval \<Rightarrow> bool" where
  "is_object v = (case v of JObj _ \<Rightarrow> True | _ \<Rightarrow> False)"

definition strings :: "jval \<Rightarrow> jstr list \<Rightarrow> bool" where
  "strings v names \<longleftrightarrow> is_object v \<and> list_all (\<lambda>k. type_of (field v k) = TString) names"

definition finite_num :: "jval \<Rightarrow> bool" where
  "finite_num v = (case v of JNum n \<Rightarrow> is_finite n | _ \<Rightarrow> False)"

definition positive_num :: "jval \<Rightarrow> bool" where
  "positive_num v = (case v of JNum (Fin q) \<Rightarrow> 0 < q | _ \<Rightarrow> False)"

definition whole_num :: "jval \<Rightarrow> bool" where
  "whole_num v = (case v of JNum (Fin q) \<Rightarrow> q = of_int \<lfloor>q\<rfloor> | _ \<Rightarrow> False)"

text \<open>A time stamp with up to three digits of a second, or none.\<close>

definition pad_stamp :: "jstr \<Rightarrow> jstr" where
  "pad_stamp s = butlast s @ (if length s = 20 then la ''.000'' else replicate (24 - length s) 48) @ la ''Z''"

definition stamp :: "jval \<Rightarrow> bool" where
  "stamp v = str_is (\<lambda>s. length s \<in> {20, 22, 23, 24} \<and> last s = 90 \<and> iso_stamp (pad_stamp s)) v"

definition all_items :: "(jval \<Rightarrow> bool) \<Rightarrow> jval \<Rightarrow> bool" where
  "all_items P v = (case v of JArr xs \<Rightarrow> list_all P xs | _ \<Rightarrow> False)"

definition category_ok :: "jval \<Rightarrow> bool" where
  "category_ok v = strings v [la ''slug'', la ''name'']"

definition nullable :: "jval \<Rightarrow> bool" where
  "nullable v \<longleftrightarrow> v = JNull \<or> type_of v = TString"

definition store_ok :: "jval \<Rightarrow> bool" where
  "store_ok v \<longleftrightarrow> strings v [la ''storeCode'', la ''storeName''] \<and>
     str_of (field v (la ''storeCode'')) \<in> {la ''DINA'', la ''DANA'', la ''FIX_PRICE''}"

definition attribute_ok :: "jval \<Rightarrow> bool" where
  "attribute_ok v \<longleftrightarrow> v = JNull \<or> type_of v = TString \<or> type_of v = TBoolean \<or> finite_num v"

definition offer_ok :: "jval \<Rightarrow> bool" where
  "offer_ok v \<longleftrightarrow> store_ok v \<and> positive_num (field v (la ''price'')) \<and>
     (field v (la ''oldPrice'') = JNull \<or> finite_num (field v (la ''oldPrice'')))"

definition product_ok :: "jval \<Rightarrow> bool" where
  "product_ok v \<longleftrightarrow> strings v [la ''id'', la ''name''] \<and> nullable (field v (la ''brand'')) \<and> nullable (field v (la ''imageUrl'')) \<and>
     category_ok (field v (la ''category'')) \<and>
     (case field v (la ''attributes'') of JObj ob \<Rightarrow> list_all (\<lambda>(_, x). attribute_ok x) ob | _ \<Rightarrow> False) \<and>
     positive_num (field v (la ''minPrice'')) \<and> stamp (field v (la ''snapshotAt'')) \<and>
     field v (la ''offers'') \<noteq> JArr [] \<and> all_items offer_ok (field v (la ''offers''))"

definition spread_ok :: "jval \<Rightarrow> bool" where
  "spread_ok v \<longleftrightarrow> strings v [la ''productId'', la ''name''] \<and>
     list_all (\<lambda>k. finite_num (field v k)) [la ''minPrice'', la ''maxPrice'', la ''differencePercent'']"

definition location_ok :: "jval \<Rightarrow> bool" where
  "location_ok v \<longleftrightarrow> store_ok v \<and> strings v [la ''name'', la ''address''] \<and> finite_num (field v (la ''latitude'')) \<and>
     finite_num (field v (la ''longitude''))"

definition basket_item_ok :: "jval \<Rightarrow> bool" where
  "basket_item_ok v \<longleftrightarrow> strings v [la ''categorySlug'', la ''categoryName''] \<and> nullable (field v (la ''productId'')) \<and>
     nullable (field v (la ''name'')) \<and> (field v (la ''price'') = JNull \<or> finite_num (field v (la ''price'')))"

definition basket_ok :: "jval \<Rightarrow> bool" where
  "basket_ok v \<longleftrightarrow> store_ok v \<and> finite_num (field v (la ''total'')) \<and> all_items basket_item_ok (field v (la ''items''))"

datatype endpoint = Live | Ready | Categories | Products | DashboardPage

definition schema_ok :: "endpoint \<Rightarrow> jval \<Rightarrow> bool" where
  "schema_ok e v =
    (case e of
       Live \<Rightarrow> is_object v \<and> field v (la ''status'') = JStr (la ''ok'')
     | Ready \<Rightarrow> is_object v \<and> field v (la ''status'') = JStr (la ''ready'')
     | Categories \<Rightarrow> all_items (\<lambda>x. strings x [la ''id'', la ''slug'', la ''name'']) v
     | Products \<Rightarrow> (case v of JArr xs \<Rightarrow> length xs \<le> 1 \<and> list_all product_ok xs | _ \<Rightarrow> False)
     | DashboardPage \<Rightarrow>
         is_object v \<and> is_object (field v (la ''summary'')) \<and>
         list_all (\<lambda>k. whole_num (field (field v (la ''summary'')) k)) [la ''canonicalProducts'', la ''stores'', la ''matchedAcrossStores''] \<and>
         stamp (field (field v (la ''summary'')) (la ''snapshotAt'')) \<and> all_items spread_ok (field v (la ''priceSpreads'')) \<and>
         all_items location_ok (field v (la ''locations'')) \<and> all_items basket_ok (field v (la ''baskets'')))"

section \<open>One request\<close>

datatype stop =
    NoStop | GlobalDeadline | StopTransport | StopTimeout | BodyLimit | PartialBody | InvalidJson | AccessBlocked | Redirected | HttpStatus
  | ContentType | BadSchema

text \<open>What happens to the body; the timer is what remains when nothing else comes.\<close>

datatype wire = Chunk "int list" | WireAborted | WireError | WireEnd bool

text \<open>The answer: none (an error, or the timer), or a status, the type, the length and the body.\<close>

datatype answer = NoAnswer bool | Answer int jstr "jstr option" "wire list"

text \<open>\<open>/^application\/json(?:\s*;|$)/i\<close>.\<close>

definition json_type :: "jstr \<Rightarrow> bool" where
  "json_type t \<longleftrightarrow> map lower_ch (take 16 t) = la ''application/json'' \<and>
     (drop 16 t = [] \<or> starts_with (dropWhile space_ch (drop 16 t)) (la '';''))"

fun read_body :: "(int list \<Rightarrow> jstr option) \<Rightarrow> nat \<Rightarrow> int option \<Rightarrow> int list \<Rightarrow> wire list \<Rightarrow> stop + jstr" where
  "read_body utf8 limit len got [] = Inl StopTimeout"
| "read_body utf8 limit len got (Chunk bs # ws) =
    (if length (got @ bs) > limit then Inl BodyLimit else read_body utf8 limit len (got @ bs) ws)"
| "read_body utf8 limit len got (WireAborted # ws) = Inl PartialBody"
| "read_body utf8 limit len got (WireError # ws) = Inl StopTransport"
| "read_body utf8 limit len got (WireEnd whole # ws) =
    (if \<not> whole \<or> (len \<noteq> None \<and> len \<noteq> Some (int (length got))) then Inl PartialBody
     else case utf8 got of None \<Rightarrow> Inl InvalidJson | Some t \<Rightarrow> Inr t)"

definition get_page :: "(int list \<Rightarrow> jstr option) \<Rightarrow> nat \<Rightarrow> answer \<Rightarrow> stop + int \<times> jstr \<times> jstr" where
  "get_page utf8 limit a =
    (case a of
       NoAnswer expired \<Rightarrow> Inl (if expired then StopTimeout else StopTransport)
     | Answer status mime len ws \<Rightarrow>
         if status \<noteq> 200 then Inr (status, [], [])
         else if \<not> json_type mime then Inr (status, mime, [])
         else if (case len of None \<Rightarrow> False | Some n \<Rightarrow> n = [] \<or> \<not> list_all digit_ch n \<or> digits_val n > int limit) then Inl BodyLimit
         else map_sum id (\<lambda>t. (status, mime, t)) (read_body utf8 limit (map_option digits_val len) [] ws))"

section \<open>One check\<close>

datatype row_outcome = RowBlocked | RowFail | RowPass
datatype schema_class = NotChecked | SchemaInvalid | SchemaValid

record row =
  rw_endpoint :: endpoint
  rw_statusClass :: "int option"      \<comment> \<open>the first digit of the status\<close>
  rw_latencyMs :: int
  rw_schemaClass :: schema_class
  rw_outcome :: row_outcome
  rw_reason :: stop
  rw_snapshotAt :: "jval option"

text \<open>The readings of the clock around a request: its start, and each later one in turn.\<close>

record turn =
  tu_start :: rat
  tu_latency :: rat
  tu_deadline :: rat
  tu_timeout :: rat
  tu_caught :: rat
  tu_answer :: answer

definition TARGETS :: "(endpoint \<times> nat) list" where
  "TARGETS = [(Live, 65536), (Ready, 65536), (Categories, 1048576), (Products, 1048576), (DashboardPage, 1048576)]"

definition latency :: "rat \<Rightarrow> rat \<Rightarrow> int" where
  "latency start now = max 0 \<lfloor>now - start + 1 / 2\<rfloor>"

definition caught :: "turn \<Rightarrow> stop \<Rightarrow> row \<Rightarrow> row" where
  "caught t reason r =
    (let r' = r\<lparr>rw_latencyMs := latency (tu_start t) (tu_caught t), rw_reason := reason\<rparr>
     in if reason \<in> {InvalidJson, ContentType} then r'\<lparr>rw_outcome := RowFail, rw_schemaClass := SchemaInvalid\<rparr> else r')"

definition check_row ::
  "(int list \<Rightarrow> jstr option) \<Rightarrow> (jstr \<Rightarrow> jval option) \<Rightarrow> rat \<Rightarrow> endpoint \<times> nat \<Rightarrow> turn \<Rightarrow> row" where
  "check_row utf8 parse finish target t =
    (let (e, limit) = target; allowed = min 8000 (finish - tu_start t);
         r0 = \<lparr>rw_endpoint = e, rw_statusClass = None, rw_latencyMs = 0, rw_schemaClass = NotChecked, rw_outcome = RowBlocked,
               rw_reason = StopTransport, rw_snapshotAt = None\<rparr>
     in case get_page utf8 limit (tu_answer t) of
          Inl reason \<Rightarrow> caught t reason r0
        | Inr (status, mime, text) \<Rightarrow>
            if tu_deadline t \<ge> finish then caught t GlobalDeadline r0
            else if tu_timeout t - tu_start t \<ge> allowed then caught t StopTimeout r0
            else if status < 100 \<or> status > 599 then caught t StopTransport r0
            else let r1 = r0\<lparr>rw_latencyMs := latency (tu_start t) (tu_latency t), rw_statusClass := Some (status div 100)\<rparr>
              in if status \<noteq> 200
                 then caught t (if status = 403 then AccessBlocked else if status \<ge> 300 \<and> status < 400 then Redirected else HttpStatus) r1
                 else if \<not> json_type mime then caught t ContentType r1
                 else if byte_length text > int limit then caught t BodyLimit r1
                 else case parse text of
                        None \<Rightarrow> caught t InvalidJson r1
                      | Some v \<Rightarrow>
                          if \<not> schema_ok e v then caught t BadSchema (r1\<lparr>rw_schemaClass := SchemaInvalid, rw_outcome := RowFail\<rparr>)
                          else r1\<lparr>rw_schemaClass := SchemaValid, rw_outcome := RowPass, rw_reason := NoStop,
                                  rw_snapshotAt := (if e = DashboardPage then Some (field (field v (la ''summary'')) (la ''snapshotAt'')) else None)\<rparr>)"

record check_report =
  ck_outcome :: row_outcome
  ck_reason :: stop
  ck_requests :: nat
  ck_records :: "row list"

fun check_targets ::
  "(int list \<Rightarrow> jstr option) \<Rightarrow> (jstr \<Rightarrow> jval option) \<Rightarrow> rat \<Rightarrow> (endpoint \<times> nat) list \<Rightarrow> (nat \<Rightarrow> turn) \<Rightarrow> row list \<Rightarrow> check_report" where
  "check_targets utf8 parse finish [] turns rows =
    \<lparr>ck_outcome = RowPass, ck_reason = NoStop, ck_requests = length rows, ck_records = rows\<rparr>"
| "check_targets utf8 parse finish (x # xs) turns rows =
    (let t = turns (length rows)
     in if finish - tu_start t \<le> 0
        then \<lparr>ck_outcome = RowBlocked, ck_reason = GlobalDeadline, ck_requests = length rows, ck_records = rows\<rparr>
        else let r = check_row utf8 parse finish x t
          in if rw_outcome r \<noteq> RowPass
             then \<lparr>ck_outcome = rw_outcome r, ck_reason = rw_reason r, ck_requests = Suc (length rows), ck_records = rows @ [r]\<rparr>
             else check_targets utf8 parse finish xs turns (rows @ [r]))"

definition verify_api :: "(int list \<Rightarrow> jstr option) \<Rightarrow> (jstr \<Rightarrow> jval option) \<Rightarrow> rat \<Rightarrow> (nat \<Rightarrow> turn) \<Rightarrow> check_report" where
  "verify_api utf8 parse begun turns = check_targets utf8 parse (begun + 50000) TARGETS turns []"

definition healthy :: "check_report \<Rightarrow> bool" where
  "healthy c \<longleftrightarrow> ck_outcome c = RowPass \<and> ck_requests c = 5 \<and>
     map rw_endpoint (ck_records c) = [Live, Ready, Categories, Products, DashboardPage] \<and>
     list_all (\<lambda>r. rw_outcome r = RowPass \<and> rw_schemaClass r = SchemaValid \<and> rw_statusClass r = Some 2) (ck_records c)"

section \<open>The state\<close>

datatype mo_phase = AllOk | Degraded | Incident
datatype incident = Opened | Recovered

record notice =
  no_id :: jstr
  no_type :: incident
  no_atUTC :: int
  no_nextAttemptUTC :: int
  no_attempts :: int
  no_manual :: bool

record monitor =
  mo_phase :: mo_phase
  mo_failures :: int
  mo_lastUTC :: "int option"
  mo_pending :: "notice option"

definition MAX_TIME :: int where "MAX_TIME = 8640000000000000"

definition time_ok :: "int \<Rightarrow> bool" where
  "time_ok t \<longleftrightarrow> 0 \<le> t \<and> t < MAX_TIME"

definition failures_of :: "mo_phase \<Rightarrow> int" where
  "failures_of p = (case p of AllOk \<Rightarrow> 0 | Degraded \<Rightarrow> 1 | Incident \<Rightarrow> 2)"

definition notice_ok :: "monitor \<Rightarrow> notice \<Rightarrow> bool" where
  "notice_ok s p \<longleftrightarrow> (no_manual p \<longrightarrow> 1 \<le> no_attempts p) \<and> is_hex 32 (no_id p) \<and> time_ok (no_atUTC p) \<and> time_ok (no_nextAttemptUTC p) \<and>
     (case mo_lastUTC s of
        None \<Rightarrow> False
      | Some now \<Rightarrow> no_atUTC p \<le> now \<and> no_atUTC p \<le> no_nextAttemptUTC p \<and> 0 \<le> no_attempts p \<and> no_attempts p \<le> 3 \<and>
          no_nextAttemptUTC p = (if no_attempts p = 0 then no_atUTC p else now + 60000)) \<and>
     mo_phase s = (if no_type p = Opened then Incident else AllOk)"

definition validateState :: "monitor \<Rightarrow> bool" where
  "validateState s \<longleftrightarrow> mo_failures s = failures_of (mo_phase s) \<and>
     (case mo_lastUTC s of None \<Rightarrow> mo_phase s = AllOk | Some t \<Rightarrow> time_ok t) \<and>
     (case mo_pending s of None \<Rightarrow> True | Some p \<Rightarrow> notice_ok s p)"

text \<open>The directory: the lock, a file left by an interrupted write, and the file of the state.\<close>

datatype state_file = NoState | StateFile monitor | BadState

record monitor_dir =
  md_lock :: bool
  md_leftover :: bool
  md_file :: state_file

definition first_state :: monitor where
  "first_state = \<lparr>mo_phase = AllOk, mo_failures = 0, mo_lastUTC = None, mo_pending = None\<rparr>"

text \<open>
  The checks of the platform, the path and its directories refuse before the lock is made; making
  it durable may fail after. The lock stays on every failure.
\<close>

datatype lock_outcome = Refused | LockFailed | LockMade

definition openState :: "lock_outcome \<Rightarrow> monitor_dir \<Rightarrow> monitor option \<times> monitor_dir" where
  "openState made d =
    (if made = Refused \<or> md_lock d then (None, d)
     else let d' = d\<lparr>md_lock := True\<rparr>
       in if made = LockFailed \<or> md_leftover d then (None, d')
          else case md_file d of
                 NoState \<Rightarrow> (Some first_state, d')
               | StateFile s \<Rightarrow> (if validateState s then Some s else None, d')
               | BadState \<Rightarrow> (None, d'))"

text \<open>A write: done, failed before or after the temporary file was made, or after the renaming.\<close>

datatype write_outcome = Written | NotStarted | LeftOver | Renamed

definition save_state :: "write_outcome \<Rightarrow> monitor \<Rightarrow> monitor_dir \<Rightarrow> bool \<times> monitor_dir" where
  "save_state w s d =
    (if \<not> validateState s then (False, d)
     else case w of
            Written \<Rightarrow> (True, d\<lparr>md_file := StateFile s\<rparr>)
          | NotStarted \<Rightarrow> (False, d)
          | LeftOver \<Rightarrow> (False, d\<lparr>md_leftover := True\<rparr>)
          | Renamed \<Rightarrow> (False, d\<lparr>md_file := StateFile s\<rparr>))"

section \<open>One run\<close>

datatype mo_outcome = MBlocked | MPending | MDelivered | MRecovered | MPhase mo_phase

datatype mo_reason =
    DeliveryNotConfigured | Cancelled | StateUnavailable | ClockDiscontinuity | ReconciliationNeeded | Exhausted | Cooldown
  | DeliveryFailed | PendingDelivered | ProbeComplete | ProbeUnavailable

text \<open>Closing removes the lock unless it is not the one made; syncing the directory may fail after.\<close>

datatype close_outcome = Closed | LockKept | CloseUnsynced

record run_env =
  en_notifier :: "bool option"          \<comment> \<open>none, or whether it is the one of Telegram\<close>
  en_aborted :: bool
  en_lock :: lock_outcome
  en_now :: int
  en_healthy :: bool
  en_abortedLater :: bool
  en_id :: jstr
  en_accepted :: bool
  en_probeSaved :: write_outcome
  en_attemptSaved :: write_outcome
  en_deliverySaved :: write_outcome
  en_closed :: close_outcome

text \<open>The notices handed to the notifier, with the time.\<close>

type_synonym sent = "(notice \<times> int) list"

text \<open>\<open>None\<close>: a save threw, and the run ends as blocked with the lock kept.\<close>

definition deliver :: "run_env \<Rightarrow> bool \<Rightarrow> monitor \<Rightarrow> notice \<Rightarrow> monitor_dir \<Rightarrow> (mo_outcome \<times> mo_reason) option \<times> monitor_dir \<times> sent" where
  "deliver env telegram s p d =
    (if no_manual p \<or> telegram \<and> no_attempts p > 0 then (Some (MPending, ReconciliationNeeded), d, [])
     else if no_attempts p \<ge> 3 then (Some (MPending, Exhausted), d, [])
     else if en_now env < no_nextAttemptUTC p then (Some (MPending, Cooldown), d, [])
     else let p' = p\<lparr>no_attempts := no_attempts p + 1, no_nextAttemptUTC := en_now env + 60000, no_manual := telegram\<rparr>;
              s' = s\<lparr>mo_lastUTC := Some (en_now env), mo_pending := Some p'\<rparr>
       in case save_state (en_attemptSaved env) s' d of
            (False, d') \<Rightarrow> (None, d', [])
          | (True, d') \<Rightarrow>
              if \<not> en_accepted env
              then (Some (MPending, if telegram then ReconciliationNeeded else DeliveryFailed), d', [(p', en_now env)])
              else (case save_state (en_deliverySaved env) (s'\<lparr>mo_pending := None\<rparr>) d' of
                      (False, d'') \<Rightarrow> (None, d'', [(p', en_now env)])
                    | (True, d'') \<Rightarrow> (Some (MDelivered, PendingDelivered), d'', [(p', en_now env)])))"

definition next_phase :: "bool \<Rightarrow> monitor \<Rightarrow> mo_phase" where
  "next_phase ok s = (if ok then AllOk else if min 2 (mo_failures s + 1) = 1 then Degraded else Incident)"

definition incident_of :: "bool \<Rightarrow> mo_phase \<Rightarrow> mo_phase \<Rightarrow> incident option" where
  "incident_of ok previous now =
    (if previous \<noteq> Incident \<and> now = Incident then Some Opened else if previous = Incident \<and> ok then Some Recovered else None)"

definition probed :: "run_env \<Rightarrow> monitor \<Rightarrow> monitor" where
  "probed env s =
    (let ok = en_healthy env; ph = next_phase ok s
     in s\<lparr>mo_lastUTC := Some (en_now env), mo_failures := (if ok then 0 else min 2 (mo_failures s + 1)), mo_phase := ph,
          mo_pending := map_option (\<lambda>t. \<lparr>no_id = en_id env, no_type = t, no_atUTC = en_now env, no_nextAttemptUTC = en_now env,
            no_attempts = 0, no_manual = False\<rparr>) (incident_of ok (mo_phase s) ph)\<rparr>)"

text \<open>The run within the opened store; the last component is the probe, where its state was saved.\<close>

definition run_open :: "run_env \<Rightarrow> bool \<Rightarrow> monitor \<Rightarrow> monitor_dir \<Rightarrow> (mo_outcome \<times> mo_reason) option \<times> monitor_dir \<times> sent \<times> bool option" where
  "run_open env telegram s d =
    (if en_now env < 0 \<or> en_now env \<ge> 8639999999940000 \<or> (case mo_lastUTC s of None \<Rightarrow> False | Some t \<Rightarrow> en_now env < t)
     then (Some (MBlocked, ClockDiscontinuity), d, [], None)
     else case mo_pending s of
       Some p \<Rightarrow> (case deliver env telegram s p d of (r, d', out) \<Rightarrow> (r, d', out, None))
     | None \<Rightarrow>
         if en_abortedLater env then (Some (MBlocked, Cancelled), d, [], None)
         else let s' = probed env s
           in (case save_state (en_probeSaved env) s' d of
                 (False, d') \<Rightarrow> (None, d', [], None)
               | (True, d') \<Rightarrow>
                   let r = (if map_option no_type (mo_pending s') = Some Recovered then MRecovered else MPhase (mo_phase s'),
                            if en_healthy env then ProbeComplete else ProbeUnavailable)
                   in case mo_pending s' of
                        None \<Rightarrow> (Some r, d', [], Some (en_healthy env))
                      | Some p \<Rightarrow>
                          (case deliver env telegram s' p d' of
                             (None, d'', out) \<Rightarrow> (None, d'', out, Some (en_healthy env))
                           | (Some q, d'', out) \<Rightarrow> (Some (if fst q = MDelivered then r else q), d'', out, Some (en_healthy env)))))"

definition runMonitor :: "run_env \<Rightarrow> monitor_dir \<Rightarrow> (mo_outcome \<times> mo_reason) \<times> monitor_dir \<times> sent \<times> bool option" where
  "runMonitor env d =
    (case en_notifier env of
       None \<Rightarrow> ((MBlocked, DeliveryNotConfigured), d, [], None)
     | Some telegram \<Rightarrow>
         if en_aborted env then ((MBlocked, Cancelled), d, [], None)
         else case openState (en_lock env) d of
                (None, d1) \<Rightarrow> ((MBlocked, StateUnavailable), d1, [], None)
              | (Some s, d1) \<Rightarrow>
                  (case run_open env telegram s d1 of
                     (None, d2, out, ok) \<Rightarrow> ((MBlocked, StateUnavailable), d2, out, ok)
                   | (Some r, d2, out, ok) \<Rightarrow>
                       (if en_closed env = Closed then r else (MBlocked, StateUnavailable),
                        if en_closed env = LockKept then d2 else d2\<lparr>md_lock := False\<rparr>, out, ok)))"

text \<open>\<open>main\<close>: the exit code.\<close>

definition exit_code :: "mo_outcome \<Rightarrow> int" where
  "exit_code r = (if r \<in> {MPhase AllOk, MRecovered, MDelivered} then 0 else if r = MBlocked then 2 else 1)"

end
