(* ===== verification/MonitorProperties.thy ===== *)
theory MonitorProperties
  imports Monitor
begin

text \<open>
  The properties of the monitor: what a check that counts as healthy shows, what opens and ends an
  incident, and how it is announced over any number of runs, interrupted writes included.
\<close>

section \<open>The check\<close>

text \<open>A target that answered as it must, in its time.\<close>

definition target_ok :: "(int list \<Rightarrow> jstr option) \<Rightarrow> (jstr \<Rightarrow> jval option) \<Rightarrow> rat \<Rightarrow> endpoint \<times> nat \<Rightarrow> turn \<Rightarrow> bool" where
  "target_ok utf8 parse finish x t \<longleftrightarrow>
     tu_start t < finish \<and> tu_deadline t < finish \<and> tu_timeout t - tu_start t < min 8000 (finish - tu_start t) \<and>
     (\<exists>mime text v. get_page utf8 (snd x) (tu_answer t) = Inr (200, mime, text) \<and> json_type mime \<and>
        byte_length text \<le> int (snd x) \<and> parse text = Some v \<and> schema_ok (fst x) v)"

lemma caught_not_pass [simp]: "rw_outcome r \<noteq> RowPass \<Longrightarrow> rw_outcome (caught t reason r) \<noteq> RowPass"
  by (simp add: caught_def Let_def)

lemma check_row_pass:
  assumes "tu_start t < finish"
  shows "rw_outcome (check_row utf8 parse finish x t) = RowPass \<longleftrightarrow> target_ok utf8 parse finish x t"
  using assms
  by (cases "get_page utf8 (snd x) (tu_answer t)")
    (auto simp: check_row_def target_ok_def Let_def not_le not_less split: prod.splits option.splits if_splits)

lemma check_row_fields:
  assumes "rw_outcome (check_row utf8 parse finish x t) = RowPass"
  shows "rw_endpoint (check_row utf8 parse finish x t) = fst x" and "rw_schemaClass (check_row utf8 parse finish x t) = SchemaValid"
    and "rw_statusClass (check_row utf8 parse finish x t) = Some 2"
  using assms
  by (cases "get_page utf8 (snd x) (tu_answer t)"; auto simp: check_row_def Let_def split: prod.splits option.splits if_splits)+

lemma check_targets_pass:
  "ck_outcome (check_targets utf8 parse finish xs turns rows) = RowPass \<longleftrightarrow>
     list_all (\<lambda>i. target_ok utf8 parse finish (xs ! i) (turns (length rows + i))) [0..<length xs]"
proof (induction xs arbitrary: rows)
  case (Cons x xs)
  let ?t = "turns (length rows)"
  let ?r = "check_row utf8 parse finish x ?t"
  have upt: "[0..<length (x # xs)] = 0 # map Suc [0..<length xs]" by (simp add: map_Suc_upt upt_conv_Cons del: upt_Suc)
  have rest: "list_all (\<lambda>i. target_ok utf8 parse finish ((x # xs) ! i) (turns (length rows + i))) [0..<length (x # xs)] \<longleftrightarrow>
      target_ok utf8 parse finish x ?t \<and> list_all (\<lambda>i. target_ok utf8 parse finish (xs ! i) (turns (length (rows @ [?r]) + i))) [0..<length xs]"
    unfolding upt by (simp add: list.pred_map comp_def del: map_Suc_upt)
  have late: "\<not> target_ok utf8 parse finish x ?t" if "finish - tu_start ?t \<le> 0" using that by (simp add: target_ok_def)
  show ?case unfolding rest using Cons.IH [of "rows @ [?r]"] check_row_pass [of ?t finish utf8 parse x] late
    by (auto simp: Let_def not_le)
qed simp

abbreviation row_ok :: "row \<Rightarrow> bool" where
  "row_ok r \<equiv> rw_outcome r = RowPass \<and> rw_schemaClass r = SchemaValid \<and> rw_statusClass r = Some 2"

lemma check_targets_rows:
  "ck_outcome (check_targets utf8 parse finish xs turns rows) = RowPass \<Longrightarrow> list_all row_ok rows \<Longrightarrow>
     list_all row_ok (ck_records (check_targets utf8 parse finish xs turns rows)) \<and>
     map rw_endpoint (ck_records (check_targets utf8 parse finish xs turns rows)) = map rw_endpoint rows @ map fst xs \<and>
     ck_requests (check_targets utf8 parse finish xs turns rows) = length rows + length xs"
proof (induction xs arbitrary: rows)
  case (Cons x xs)
  let ?r = "check_row utf8 parse finish x (turns (length rows))"
  have pass: "rw_outcome ?r = RowPass" and start: "\<not> finish - tu_start (turns (length rows)) \<le> 0"
    and rest: "ck_outcome (check_targets utf8 parse finish xs turns (rows @ [?r])) = RowPass"
    using Cons.prems(1) by (auto simp: Let_def split: if_splits)
  have rows: "list_all row_ok (rows @ [?r])" using Cons.prems(2) check_row_fields [OF pass] pass by simp
  show ?case using Cons.IH [OF rest rows] pass start check_row_fields(1) [OF pass] by (simp add: Let_def)
qed simp

text \<open>A check counts as healthy exactly when each of the five pages was requested in time and answered
  with status 200, a JSON type and a whole body within its limit, in valid JSON of the page's
  shape: neither the order of the pages nor the bookkeeping of the rows can make a difference.\<close>

theorem healthy_means_every_page_answered:
  "healthy (verify_api utf8 parse begun turns) \<longleftrightarrow>
     list_all (\<lambda>i. target_ok utf8 parse (begun + 50000) (TARGETS ! i) (turns i)) [0..<5]"
proof -
  have five: "length TARGETS = 5" "map fst TARGETS = [Live, Ready, Categories, Products, DashboardPage]" by (simp_all add: TARGETS_def)
  have "healthy (verify_api utf8 parse begun turns) \<longleftrightarrow> ck_outcome (verify_api utf8 parse begun turns) = RowPass"
    using check_targets_rows [of utf8 parse "begun + 50000" TARGETS turns "[]"] five by (auto simp: healthy_def verify_api_def)
  then show ?thesis using check_targets_pass [of utf8 parse "begun + 50000" TARGETS turns "[]"] five by (simp add: verify_api_def)
qed

section \<open>Runs\<close>

definition empty_monitor :: monitor_dir where
  "empty_monitor = \<lparr>md_lock = False, md_leftover = False, md_file = NoState\<rparr>"

definition monitor_step :: "run_env \<Rightarrow> monitor_dir \<times> sent \<times> bool list \<Rightarrow> monitor_dir \<times> sent \<times> bool list" where
  "monitor_step env = (\<lambda>(d, out, oks).
     case runMonitor env d of (_, d', sent_now, ok) \<Rightarrow> (d', out @ sent_now, oks @ (case ok of None \<Rightarrow> [] | Some b \<Rightarrow> [b])))"

definition monitor_runs :: "run_env list \<Rightarrow> monitor_dir \<times> sent \<times> bool list" where
  "monitor_runs envs = foldl (\<lambda>w e. monitor_step e w) (empty_monitor, [], []) envs"

text \<open>Two failed probes in a row are an incident, one is not, and one that succeeds ends it.\<close>

definition expected_phase :: "bool list \<Rightarrow> mo_phase" where
  "expected_phase oks = (if oks = [] \<or> last oks then AllOk else if butlast oks \<noteq> [] \<and> \<not> last (butlast oks) then Incident else Degraded)"

text \<open>What may be sent after a notice: the same again after a minute, or at once one of the other kind.\<close>

definition follows :: "notice \<times> int \<Rightarrow> notice \<times> int \<Rightarrow> bool" where
  "follows = (\<lambda>(p, t) (q, u).
     no_id q = no_id p \<and> no_type q = no_type p \<and> no_atUTC q = no_atUTC p \<and> no_attempts q = no_attempts p + 1 \<and> \<not> no_manual p \<and> t + 60000 \<le> u \<or>
     no_type q \<noteq> no_type p \<and> no_attempts q = 1 \<and> no_atUTC q = u \<and> t \<le> u)"

definition sent_ok :: "sent \<Rightarrow> bool" where
  "sent_ok out \<longleftrightarrow> successively follows out \<and> (case out of [] \<Rightarrow> True | x # _ \<Rightarrow> no_type (fst x) = Opened \<and> no_attempts (fst x) = 1) \<and>
     list_all (\<lambda>x. 1 \<le> no_attempts (fst x) \<and> no_attempts (fst x) \<le> 3) out"

definition file_ok :: "monitor_dir \<Rightarrow> bool" where
  "file_ok d \<longleftrightarrow> (case md_file d of NoState \<Rightarrow> True | StateFile s \<Rightarrow> validateState s | BadState \<Rightarrow> False)"

definition linked :: "monitor \<Rightarrow> sent \<Rightarrow> bool list \<Rightarrow> bool" where
  "linked s out oks \<longleftrightarrow> mo_phase s = expected_phase oks \<and>
     (mo_phase s = Incident \<longleftrightarrow> out \<noteq> [] \<and> no_type (fst (last out)) = Opened) \<and>
     (out \<noteq> [] \<longrightarrow> (\<exists>t. mo_lastUTC s = Some t \<and> snd (last out) \<le> t)) \<and>
     (case mo_pending s of None \<Rightarrow> True
      | Some p \<Rightarrow> out \<noteq> [] \<and> p = fst (last out) \<and> no_nextAttemptUTC p = snd (last out) + 60000)"

definition state_of :: "monitor_dir \<Rightarrow> monitor" where
  "state_of d = (case md_file d of StateFile s \<Rightarrow> s | _ \<Rightarrow> first_state)"

definition monitor_inv :: "monitor_dir \<times> sent \<times> bool list \<Rightarrow> bool" where
  "monitor_inv = (\<lambda>(d, out, oks). file_ok d \<and> sent_ok out \<and> (\<not> md_lock d \<longrightarrow> linked (state_of d) out oks))"

lemma save_state_facts:
  assumes "save_state w s d = (ok, d')"
  shows "md_lock d' = md_lock d" and "file_ok d \<Longrightarrow> file_ok d'" and "ok \<Longrightarrow> md_file d' = StateFile s \<and> validateState s"
  using assms by (auto simp: save_state_def file_ok_def split: if_splits write_outcome.splits)

lemma sent_ok_snoc:
  "sent_ok (out @ [x]) \<longleftrightarrow> sent_ok out \<and> 1 \<le> no_attempts (fst x) \<and> no_attempts (fst x) \<le> 3 \<and>
     (if out = [] then no_type (fst x) = Opened \<and> no_attempts (fst x) = 1 else follows (last out) x)"
proof -
  have "successively follows (out @ [x]) \<longleftrightarrow> successively follows out \<and> (out = [] \<or> follows (last out) x)"
    by (cases "out = []") (simp_all add: successively_append_iff)
  then show ?thesis by (cases out) (auto simp: sent_ok_def)
qed

lemma sent_ok_single: "sent_ok [x] \<longleftrightarrow> no_type (fst x) = Opened \<and> no_attempts (fst x) = 1"
  using sent_ok_snoc [of "[]" x] by (auto simp: sent_ok_def)

text \<open>One delivery: it sends nothing, or the pending notice with one more attempt.\<close>

lemma deliver_cases:
  assumes "deliver env telegram s p d = (r, d', sent_now)" and "validateState s" and "mo_pending s = Some p"
  defines "q \<equiv> p\<lparr>no_attempts := no_attempts p + 1, no_nextAttemptUTC := en_now env + 60000, no_manual := telegram\<rparr>"
  shows "md_lock d' = md_lock d" and "file_ok d \<Longrightarrow> file_ok d'"
    and "sent_now = [] \<and> (r \<noteq> None \<longrightarrow> d' = d) \<or>
       sent_now = [(q, en_now env)] \<and> \<not> no_manual p \<and> no_attempts p < 3 \<and> no_nextAttemptUTC p \<le> en_now env \<and>
       (r \<noteq> None \<longrightarrow> (\<exists>pe \<in> {None, Some q}. md_file d' = StateFile (s\<lparr>mo_lastUTC := Some (en_now env), mo_pending := pe\<rparr>)))"
    and "sent_now = [] \<Longrightarrow> no_attempts p = 0 \<Longrightarrow> no_atUTC p \<le> en_now env \<Longrightarrow> r = None"
proof -
  let ?s = "s\<lparr>mo_lastUTC := Some (en_now env), mo_pending := Some q\<rparr>"
  obtain ok1 d1 where s1: "save_state (en_attemptSaved env) ?s d = (ok1, d1)" by fastforce
  obtain ok2 d2 where s2: "save_state (en_deliverySaved env) (?s\<lparr>mo_pending := None\<rparr>) d1 = (ok2, d2)" by fastforce
  note f1 = save_state_facts [OF s1] and f2 = save_state_facts [OF s2]
  note eq = assms(1) [unfolded deliver_def, folded q_def]
  show "md_lock d' = md_lock d" and "file_ok d \<Longrightarrow> file_ok d'"
    using eq s1 s2 f1(1,2) f2(1,2) by (auto simp: Let_def split: if_splits bool.splits)
  show "sent_now = [] \<and> (r \<noteq> None \<longrightarrow> d' = d) \<or>
       sent_now = [(q, en_now env)] \<and> \<not> no_manual p \<and> no_attempts p < 3 \<and> no_nextAttemptUTC p \<le> en_now env \<and>
       (r \<noteq> None \<longrightarrow> (\<exists>pe \<in> {None, Some q}. md_file d' = StateFile (s\<lparr>mo_lastUTC := Some (en_now env), mo_pending := pe\<rparr>)))"
    using eq s1 s2 f1(3) f2(3) by (auto simp: Let_def not_le not_less split: if_splits bool.splits)
  assume "sent_now = []" "no_attempts p = 0" "no_atUTC p \<le> en_now env"
  moreover have "notice_ok s p" using assms(2,3) by (simp add: validateState_def)
  ultimately show "r = None"
    using eq s1 s2 by (auto simp: Let_def notice_ok_def split: if_splits bool.splits option.splits)
qed

text \<open>A probe moves the phase as the history of the probes says, and opens or ends an incident.\<close>

lemma next_phase_expected:
  "validateState s \<Longrightarrow> mo_phase s = expected_phase oks \<Longrightarrow> next_phase ok s = expected_phase (oks @ [ok])"
  by (auto simp: next_phase_def expected_phase_def validateState_def failures_of_def split: if_splits)

lemma next_phase_incident:
  assumes "validateState s"
  shows "incident_of ok (mo_phase s) (next_phase ok s) = None \<Longrightarrow> next_phase ok s = Incident \<longleftrightarrow> mo_phase s = Incident"
    and "incident_of ok (mo_phase s) (next_phase ok s) = Some t \<Longrightarrow> (t = Opened \<longleftrightarrow> next_phase ok s = Incident) \<and> (t = Opened \<longleftrightarrow> mo_phase s \<noteq> Incident)"
  using assms by (cases "mo_phase s"; cases ok; auto simp: incident_of_def next_phase_def validateState_def failures_of_def)+

abbreviation probes_of :: "bool option \<Rightarrow> bool list" where
  "probes_of ok \<equiv> (case ok of None \<Rightarrow> [] | Some b \<Rightarrow> [b])"

lemma deliver_pending_inv:
  assumes run: "deliver env telegram s p d = (r, d', sent_now)" and s: "validateState s" "mo_pending s = Some p"
    and ok: "file_ok d" "sent_ok out" and l: "linked s out oks" and st: "state_of d = s"
  shows "md_lock d' = md_lock d" and "file_ok d'" and "sent_ok (out @ sent_now)" and "r \<noteq> None \<longrightarrow> linked (state_of d') (out @ sent_now) oks"
proof -
  define q where "q = p\<lparr>no_attempts := no_attempts p + 1, no_nextAttemptUTC := en_now env + 60000, no_manual := telegram\<rparr>"
  note c = deliver_cases [OF run s, folded q_def]
  have last: "out \<noteq> []" "p = fst (last out)" "no_nextAttemptUTC p = snd (last out) + 60000"
    and phase: "mo_phase s = expected_phase oks" "mo_phase s = Incident \<longleftrightarrow> no_type p = Opened"
    using l s(2) by (auto simp: linked_def)
  have attempts: "0 \<le> no_attempts p" using s by (auto simp: validateState_def notice_ok_def split: option.splits)
  show "md_lock d' = md_lock d" and "file_ok d'" using c(1,2) ok(1) by simp_all
  have "(sent_now = [] \<and> (r \<noteq> None \<longrightarrow> d' = d)) \<or> (sent_now = [(q, en_now env)] \<and> follows (last out) (q, en_now env) \<and> no_attempts p < 3 \<and>
      (r \<noteq> None \<longrightarrow> (\<exists>pe \<in> {None, Some q}. md_file d' = StateFile (s\<lparr>mo_lastUTC := Some (en_now env), mo_pending := pe\<rparr>))))"
    using c(3) last(2,3) by (cases "last out") (auto simp: follows_def q_def)
  then show "sent_ok (out @ sent_now)" and "r \<noteq> None \<longrightarrow> linked (state_of d') (out @ sent_now) oks"
    using ok(2) attempts last l st phase by (auto simp: sent_ok_snoc linked_def state_of_def q_def split: option.split)
qed

lemma deliver_fresh_inv:
  assumes run: "deliver env telegram s p d = (r, d', sent_now)" and s: "validateState s" "mo_pending s = Some p"
    and p: "no_attempts p = 0" "no_atUTC p = en_now env" and ok: "file_ok d" "sent_ok out"
    and phase: "mo_phase s = expected_phase oks" "no_type p = Opened \<longleftrightarrow> mo_phase s = Incident"
    and before: "if out = [] then no_type p = Opened else no_type (fst (last out)) \<noteq> no_type p \<and> snd (last out) \<le> en_now env"
  shows "md_lock d' = md_lock d" and "file_ok d'" and "sent_ok (out @ sent_now)" and "r \<noteq> None \<longrightarrow> linked (state_of d') (out @ sent_now) oks"
proof -
  define q where "q = p\<lparr>no_attempts := no_attempts p + 1, no_nextAttemptUTC := en_now env + 60000, no_manual := telegram\<rparr>"
  note c = deliver_cases [OF run s, folded q_def]
  show "md_lock d' = md_lock d" and "file_ok d'" using c(1,2) ok(1) by simp_all
  have nxt: "if out = [] then no_type q = Opened else follows (last out) (q, en_now env)"
    using before p by (cases "last out") (auto simp: follows_def q_def)
  have "(sent_now = [] \<and> r = None) \<or> (sent_now = [(q, en_now env)] \<and>
      (r \<noteq> None \<longrightarrow> (\<exists>pe \<in> {None, Some q}. md_file d' = StateFile (s\<lparr>mo_lastUTC := Some (en_now env), mo_pending := pe\<rparr>))))"
    using c(3,4) p by auto
  then show "sent_ok (out @ sent_now)" and "r \<noteq> None \<longrightarrow> linked (state_of d') (out @ sent_now) oks"
    using ok(2) nxt p phase by (auto simp: sent_ok_snoc sent_ok_single linked_def state_of_def q_def split: option.split if_splits)
qed

lemma run_open_inv:
  assumes run: "run_open env telegram s d = (r, d', sent_now, ok)" and s: "validateState s" and st: "state_of d = s"
    and inv: "file_ok d" "sent_ok out" "linked s out oks"
  shows "md_lock d' = md_lock d \<and> file_ok d' \<and> sent_ok (out @ sent_now) \<and> (r \<noteq> None \<longrightarrow> linked (state_of d') (out @ sent_now) (oks @ probes_of ok))"
proof (cases "en_now env < 0 \<or> en_now env \<ge> 8639999999940000 \<or> (case mo_lastUTC s of None \<Rightarrow> False | Some t \<Rightarrow> en_now env < t)")
  case True
  then show ?thesis using run inv st by (simp add: run_open_def)
next
  case clock: False
  show ?thesis
  proof (cases "mo_pending s")
    case (Some p)
    obtain r' d'' o' where del: "deliver env telegram s p d = (r', d'', o')" by (metis prod_cases3)
    then show ?thesis using deliver_pending_inv [OF del s Some inv st] run clock Some by (simp add: run_open_def)
  next
    case None
    define ok' where "ok' = en_healthy env"
    define s' where "s' = probed env s"
    obtain b d1 where save: "save_state (en_probeSaved env) s' d = (b, d1)" by fastforce
    note f = save_state_facts [OF save]
    have phase: "mo_phase s' = expected_phase (oks @ [ok'])"
      using next_phase_expected [OF s, of oks ok'] inv(3) by (simp add: s'_def probed_def Let_def ok'_def linked_def)
    show ?thesis
    proof (cases "en_abortedLater env \<or> \<not> b")
      case True
      then show ?thesis
        using run clock None save f(1,2) inv st by (cases "en_abortedLater env"; cases b) (simp_all add: run_open_def s'_def [symmetric] Let_def)
    next
      case saved: False
      then have b: b and d1: "md_file d1 = StateFile s'" "validateState s'" using f(3) by simp_all
      have late: "out \<noteq> [] \<longrightarrow> snd (last out) \<le> en_now env" using inv(3) clock by (auto simp: linked_def)
      show ?thesis
      proof (cases "mo_pending s'")
        case none: None
        have "incident_of ok' (mo_phase s) (next_phase ok' s) = None" using none by (simp add: s'_def probed_def Let_def ok'_def)
        from next_phase_incident(1) [OF s this] have "linked s' out (oks @ [ok'])"
          using inv(3) phase none late by (auto simp: linked_def s'_def probed_def Let_def ok'_def)
        then show ?thesis
          using run clock None save saved b none f(1,2) inv d1 by (auto simp: run_open_def s'_def [symmetric] Let_def state_of_def ok'_def)
      next
        case (Some p)
        obtain t where t: "incident_of ok' (mo_phase s) (next_phase ok' s) = Some t"
          and p: "no_type p = t" "no_attempts p = 0" "no_atUTC p = en_now env" using Some by (auto simp: s'_def probed_def Let_def ok'_def)
        note i = next_phase_incident(2) [OF s t]
        have kind: "no_type p = Opened \<longleftrightarrow> mo_phase s' = Incident" using i p by (simp add: s'_def probed_def Let_def ok'_def)
        have before: "if out = [] then no_type p = Opened else no_type (fst (last out)) \<noteq> no_type p \<and> snd (last out) \<le> en_now env"
          using i p inv(3) late by (cases t; cases "no_type (fst (last out))") (auto simp: linked_def)
        obtain r' d'' o' where del: "deliver env telegram s' p d1 = (r', d'', o')" by (metis prod_cases3)
        have "file_ok d1" using f(2) inv(1) by simp
        note del_inv = deliver_fresh_inv [OF del d1(2) Some p(2,3) this inv(2) phase kind before]
        show ?thesis
          using del_inv del run clock None save saved b Some f(1)
          by (cases r') (auto simp: run_open_def s'_def [symmetric] Let_def ok'_def)
      qed
    qed
  qed
qed

lemma monitor_step_inv:
  assumes "monitor_inv w"
  shows "monitor_inv (monitor_step env w)"
proof -
  obtain d out oks where w: "w = (d, out, oks)" by (cases w) auto
  have inv: "file_ok d" "sent_ok out" "\<not> md_lock d \<Longrightarrow> linked (state_of d) out oks" using assms by (simp_all add: w monitor_inv_def)
  obtain res d1 sent_now ok where run: "runMonitor env d = (res, d1, sent_now, ok)" by (metis prod_cases4)
  have "file_ok d1 \<and> sent_ok (out @ sent_now) \<and> (\<not> md_lock d1 \<longrightarrow> linked (state_of d1) (out @ sent_now) (oks @ probes_of ok))"
  proof (cases "en_notifier env = None \<or> en_aborted env")
    case True
    then show ?thesis using run inv by (auto simp: runMonitor_def split: option.splits)
  next
    case False
    then obtain telegram where t: "en_notifier env = Some telegram" "\<not> en_aborted env" by auto
    obtain so d2 where op: "openState (en_lock env) d = (so, d2)" by fastforce
    show ?thesis
    proof (cases so)
      case None
      have "d2 = d \<or> d2 = d\<lparr>md_lock := True\<rparr>" using op by (auto simp: openState_def Let_def split: if_splits state_file.splits)
      then show ?thesis using run t op None inv by (auto simp: runMonitor_def file_ok_def)
    next
      case (Some s)
      then have d2: "\<not> md_lock d" "d2 = d\<lparr>md_lock := True\<rparr>" "state_of d2 = s" "validateState s"
        using op by (auto simp: openState_def Let_def state_of_def first_state_def validateState_def failures_of_def split: if_splits state_file.splits)
      obtain r d3 o3 ok3 where ro: "run_open env telegram s d2 = (r, d3, o3, ok3)" by (metis prod_cases4)
      have "file_ok d2" using inv(1) d2(2) by (simp add: file_ok_def)
      moreover have "linked s out oks" using inv(3) d2 by (simp add: state_of_def)
      ultimately have r: "md_lock d3 \<and> file_ok d3 \<and> sent_ok (out @ o3) \<and> (r \<noteq> None \<longrightarrow> linked (state_of d3) (out @ o3) (oks @ probes_of ok3))"
        using run_open_inv [OF ro d2(4,3) _ inv(2)] d2(2) by simp
      have unlocked: "file_ok (d3\<lparr>md_lock := False\<rparr>) = file_ok d3" "state_of (d3\<lparr>md_lock := False\<rparr>) = state_of d3"
        by (simp_all add: file_ok_def state_of_def)
      show ?thesis using run t op Some ro r unlocked by (cases r) (auto simp: runMonitor_def split: if_splits)
    qed
  qed
  then show ?thesis by (simp add: w monitor_step_def run monitor_inv_def)
qed

lemma monitor_runs_inv: "monitor_inv (monitor_runs envs)"
proof (induction envs rule: rev_induct)
  case Nil
  show ?case by (simp add: monitor_runs_def monitor_inv_def empty_monitor_def file_ok_def sent_ok_def linked_def state_of_def first_state_def expected_phase_def)
next
  case (snoc e es)
  then show ?case using monitor_step_inv by (simp add: monitor_runs_def)
qed

text \<open>C22: Over any number of runs, whatever the probes, the receiver, the clock and the writes do, the state
  on disk stays valid, and the notices sent tell a story in order: the first opens an incident, the
  same notice is repeated only after a minute, at most three times, and never after Telegram had
  it, and what follows it otherwise is a notice of the other kind, sent in the run that found it.\<close>

theorem incidents_are_announced_in_order:
  "case monitor_runs envs of (d, out, oks) \<Rightarrow> file_ok d \<and> sent_ok out"
  using monitor_runs_inv [of envs] by (auto simp: monitor_inv_def)

text \<open>C23: Whenever the monitor can run again, its lock being free after any course of runs with failing
  saves and closes, its phase is the one the history of its probes gives, counted anew: one failed
  probe is a degradation, two in a row are an incident, a successful one ends it; and an incident
  stands exactly when the last notice sent opened one, so none goes unannounced. (A run whose save
  throws keeps the lock: then the stored state may be an incident with no notice sent, and the monitor
  does not run again until someone removes the lock.)\<close>

theorem two_failures_make_an_incident:
  assumes "monitor_runs envs = (d, out, oks)" and "\<not> md_lock d"
  shows "mo_phase (state_of d) = expected_phase oks \<and>
     (mo_phase (state_of d) = Incident \<longleftrightarrow> out \<noteq> [] \<and> no_type (fst (last out)) = Opened)"
  using monitor_runs_inv [of envs] assms by (auto simp: monitor_inv_def linked_def)

text \<open>Two failures, a notice refused and sent again a minute later, and a recovery.\<close>

definition sample_run :: "int \<Rightarrow> bool \<Rightarrow> bool \<Rightarrow> run_env" where
  "sample_run now well accepted = \<lparr>en_notifier = Some False, en_aborted = False, en_lock = LockMade, en_now = now, en_healthy = well,
     en_abortedLater = False, en_id = replicate 32 97, en_accepted = accepted, en_probeSaved = Written, en_attemptSaved = Written,
     en_deliverySaved = Written, en_closed = Closed\<rparr>"

lemma sample_incident:
  "(case monitor_runs [sample_run 0 False True, sample_run 1 False False, sample_run 2 True True, sample_run 60001 True True, sample_run 60002 True True]
    of (d, out, oks) \<Rightarrow> map (\<lambda>(p, t). (no_type p, no_attempts p, t)) out = [(Opened, 1, 1), (Opened, 2, 60001), (Recovered, 1, 60002)] \<and>
      oks = [False, False, True] \<and> \<not> md_lock d \<and> mo_phase (state_of d) = AllOk)"
  by code_simp

lemma sample_two_failures:
  "case monitor_runs [sample_run 0 False True, sample_run 1 False True] of (d, out, oks) \<Rightarrow> \<not> md_lock d \<and> expected_phase oks = Incident"
  by code_simp

theorem two_failures_make_an_incident_witness:
  "case monitor_runs [sample_run 0 False True, sample_run 1 False True] of (d, out, oks) \<Rightarrow>
     mo_phase (state_of d) = Incident \<and> out \<noteq> [] \<and> no_type (fst (last out)) = Opened"
proof -
  obtain d out oks where r: "monitor_runs [sample_run 0 False True, sample_run 1 False True] = (d, out, oks)" by (metis prod_cases3)
  then have "\<not> md_lock d" "expected_phase oks = Incident" using sample_two_failures by simp_all
  then have "mo_phase (state_of d) = Incident \<and> out \<noteq> [] \<and> no_type (fst (last out)) = Opened"
    using two_failures_make_an_incident [OF r] by metis
  then show ?thesis by (simp add: r)
qed

end
