(* ===== verification/Deploy.thy ===== *)
theory Deploy
  imports Ledger
begin

text \<open>
  What may be deployed: the gate before a deployment (\<open>scripts/deploy/auto-gate.mjs\<close>), the client
  that promotes the publisher (\<open>scripts/ops/sync-promotion.mjs\<close>), and the settings and the
  confirmation of the Telegram notifier (\<open>scripts/ops/telegram-notifier.mjs\<close>). The answers of
  GitHub, of the remote host and of the child processes, \<open>JSON.parse\<close>, \<open>JSON.stringify\<close> and the
  decoding of UTF-8 are parameters; \<open>None\<close> stands for an assertion that throws.
\<close>

definition repository :: jstr where "repository = la ''kiratonine/AdilBaga''"

definition mandatory :: "jstr list" where
  "mandatory = [la ''Contracts'', la ''Frontend'', la ''Go Quality'', la ''Security'', la ''Nest Reference'', la ''Pipeline Quality'',
     la ''PostgreSQL Integration'', la ''Ephemeral Staging'', la ''CI Gate'']"

definition is_sha :: "jval \<Rightarrow> bool" where
  "is_sha v = str_is (is_hex 40) v"

definition full_name :: "jval \<Rightarrow> jval" where
  "full_name v = field v (la ''full_name'')"

text \<open>\<open>/^[1-9][0-9]{0,15}$/\<close>.\<close>

definition run_text :: "jstr \<Rightarrow> bool" where
  "run_text s \<longleftrightarrow> text_in digit_ch 1 16 s \<and> hd s \<noteq> 48"

definition max_safe :: int where "max_safe = 9007199254740991"

section \<open>The gate before a deployment\<close>

datatype candidate = Disabled | RejectedEvent | VerifyCI jval int | Eligible jval int | SkippedStale

definition green_push :: "jval \<Rightarrow> bool" where
  "green_push r \<longleftrightarrow> field r (la ''event'') = JStr (la ''push'') \<and> field r (la ''head_branch'') = JStr (la ''main'') \<and>
     field r (la ''status'') = JStr (la ''completed'') \<and> field r (la ''conclusion'') = JStr (la ''success'') \<and>
     full_name (field r (la ''head_repository'')) = JStr repository"

definition eventCandidate :: "jval \<Rightarrow> jstr option \<Rightarrow> jstr option \<Rightarrow> jstr option \<Rightarrow> candidate option" where
  "eventCandidate event name enabled branch =
    (if enabled \<noteq> Some (la ''true'') then Some Disabled
     else if event = JNull \<or> event = JUndef then None
     else if full_name (field event (la ''repository'')) \<noteq> JStr repository then Some RejectedEvent
     else if name = Some (la ''workflow_run'') then
       (let r = field event (la ''workflow_run'')
        in if \<not> green_push r then Some RejectedEvent
           else if is_sha (field r (la ''head_sha'')) \<and> int_in 1 max_safe (field r (la ''id''))
           then Some (VerifyCI (field r (la ''head_sha'')) (case field r (la ''id'') of JNum (Fin q) \<Rightarrow> \<lfloor>q\<rfloor> | _ \<Rightarrow> 0)) else None)
     else let i = field event (la ''inputs'')
       in if name = Some (la ''workflow_dispatch'') \<and> branch = Some (la ''refs/heads/main'') \<and> field i (la ''mode'') = JStr (la ''deploy'')
          then (let n = digits_val (str_of (field i (la ''ci_run'')))
                in if is_sha (field i (la ''sha'')) \<and> str_is run_text (field i (la ''ci_run'')) \<and> n \<le> max_safe
                   then Some (VerifyCI (field i (la ''sha'')) n) else None)
          else Some RejectedEvent)"

definition job_named :: "jstr \<Rightarrow> jval \<Rightarrow> bool" where
  "job_named name j \<longleftrightarrow> field j (la ''name'') = JStr name"

definition job_green :: "jval \<Rightarrow> bool" where
  "job_green j \<longleftrightarrow> field j (la ''status'') = JStr (la ''completed'') \<and> field j (la ''conclusion'') = JStr (la ''success'')"

text \<open>\<open>assert.equal\<close> of two answers of GitHub: two objects or lists are never the same one.\<close>

definition same_value :: "jval \<Rightarrow> jval \<Rightarrow> bool" where
  "same_value v w \<longleftrightarrow> v = w \<and> (case v of JArr _ \<Rightarrow> False | JObj _ \<Rightarrow> False | _ \<Rightarrow> True)"

definition verifyCI :: "jval \<Rightarrow> int \<Rightarrow> jval \<Rightarrow> jval \<Rightarrow> jval list \<Rightarrow> jval \<Rightarrow> candidate option" where
  "verifyCI sha n run workflow jobs main =
    (if is_sha sha \<and> full_name (field run (la ''repository'')) = JStr repository \<and>
        field run (la ''id'') = JNum (Fin (of_int n)) \<and> field run (la ''head_sha'') = sha \<and> green_push run \<and>
        same_value (field workflow (la ''id'')) (field run (la ''workflow_id'')) \<and> field workflow (la ''path'') = JStr (la ''.github/workflows/ci.yml'') \<and>
        field workflow (la ''name'') = JStr (la ''CI'') \<and> field workflow (la ''state'') = JStr (la ''active'') \<and> length jobs = 9 \<and>
        list_all (\<lambda>name. case filter (job_named name) jobs of
            [j] \<Rightarrow> job_green j \<and> field j (la ''head_sha'') = sha \<and> same_value (field j (la ''run_attempt'')) (field run (la ''run_attempt''))
          | _ \<Rightarrow> False) mandatory
     then Some (if main = sha then Eligible sha n else SkippedStale) else None)"

text \<open>\<open>check\<close>, given the answers to its four requests. It throws when the answer for main has no object.\<close>

definition check_candidate :: "jval \<Rightarrow> int \<Rightarrow> jval \<Rightarrow> jval \<Rightarrow> jval \<Rightarrow> jval \<Rightarrow> candidate option" where
  "check_candidate sha n run workflow response main =
    (case field response (la ''jobs'') of
       JArr jobs \<Rightarrow>
         if field response (la ''total_count'') = JNum (Fin (of_nat (length jobs))) \<and> field main (la ''object'') \<notin> {JNull, JUndef}
         then verifyCI sha n run workflow jobs (field (field main (la ''object'')) (la ''sha'')) else None
     | _ \<Rightarrow> None)"

definition gate_main :: "jval \<Rightarrow> jstr option \<Rightarrow> jstr option \<Rightarrow> jstr option \<Rightarrow> jval \<Rightarrow> jval \<Rightarrow> jval \<Rightarrow> jval \<Rightarrow> candidate option" where
  "gate_main event name enabled branch run workflow response main =
    (case eventCandidate event name enabled branch of
       Some (VerifyCI sha n) \<Rightarrow> check_candidate sha n run workflow response main
     | c \<Rightarrow> c)"

section \<open>The promotion of the publisher\<close>

definition CI :: "jstr list" where
  "CI = [la ''Contracts'', la ''Go Quality'', la ''Nest Reference'', la ''Frontend'', la ''Pipeline Quality'', la ''Security'',
     la ''PostgreSQL Integration'', la ''Ephemeral Staging'', la ''CI Gate'']"

definition validateCI :: "jval \<Rightarrow> jval \<Rightarrow> jval list \<Rightarrow> jval \<Rightarrow> bool" where
  "validateCI sha ci jobs main \<longleftrightarrow>
     is_sha sha \<and> sha = main \<and> field ci (la ''head_sha'') = sha \<and> full_name (field ci (la ''repository'')) = JStr repository \<and>
     green_push ci \<and> field ci (la ''path'') = JStr (la ''.github/workflows/ci.yml'') \<and>
     int_in 1 max_safe (field ci (la ''id'')) \<and> int_in 1 max_safe (field ci (la ''run_attempt'')) \<and> length jobs = 9 \<and>
     list_all (\<lambda>j. type_of (field j (la ''name'')) = TString) jobs \<and>
     js_sort str_le (map (\<lambda>j. str_of (field j (la ''name''))) jobs) = js_sort str_le CI \<and> list_all job_green jobs"

datatype root_reply = Reply jval | Rejection jstr

definition SAFE_CLASSES :: "jstr list" where
  "SAFE_CLASSES = map la [''main_drift'', ''active_runtime'', ''operator_actor_active'', ''pending_promotion_recovery'',
     ''pending_c2_recovery'', ''active_attempt'', ''old_closure_drift'', ''unapproved_source_drift'', ''dirty_publisher'',
     ''protected_delta'', ''unexpected_base'', ''replayed_release'', ''producer_source_changed'', ''github_archive_digest'',
     ''insufficient_memory_capacity'', ''trusted_authorization_unavailable'', ''command_cleanup_unverified'']"

definition parseRootReply :: "(jstr \<Rightarrow> jval option) \<Rightarrow> (jval \<Rightarrow> jstr) \<Rightarrow> bool \<Rightarrow> jstr \<Rightarrow> root_reply option" where
  "parseRootReply parse stringify ok raw =
    (case parse raw of
       None \<Rightarrow> None
     | Some v \<Rightarrow>
         if stringify v @ [10] \<noteq> raw then None
         else if ok then Some (Reply v)
         else Some (Rejection
           (if field v (la ''status'') = JStr (la ''BLOCKED'') \<and> str_is (\<lambda>s. s \<in> set SAFE_CLASSES) (field v (la ''errorClass''))
            then str_of (field v (la ''errorClass'')) else la ''root_rejection'')))"

text \<open>
  The gate of the promotion. \<open>head\<close> is the checked-out commit, \<open>relevant\<close> whether the commit
  changed the publisher since its parent, \<open>remote\<close> the publisher's state, \<open>moved\<close> whether the
  publisher's commit and this one differ in the publisher.
\<close>

datatype promotion_kind = BuildOnly | Promote

datatype gate_verdict = NoRelevantChange | Gated bool promotion_kind

record promotion_env =
  pr_repository :: jval
  pr_ref :: jval
  pr_eventName :: jval
  pr_enabled :: jval
  pr_event :: jval
  pr_ci :: jval
  pr_jobs :: jval
  pr_main :: jval
  pr_head :: jval
  pr_parents :: "jval list"
  pr_relevant :: "bool option"
  pr_remote :: "jval option"
  pr_moved :: "bool option"

definition this_repository :: "promotion_env \<Rightarrow> bool" where
  "this_repository env \<longleftrightarrow> pr_repository env = JStr repository \<and> pr_ref env = JStr (la ''refs/heads/main'')"

definition is_manual :: "promotion_env \<Rightarrow> bool" where
  "is_manual env \<longleftrightarrow> pr_eventName env = JStr (la ''workflow_dispatch'')"

definition js_text :: "jval \<Rightarrow> jstr" where
  "js_text v = (case as_prim v of Some p \<Rightarrow> prim_text p | None \<Rightarrow> [])"

definition promotion_gate :: "promotion_env \<Rightarrow> gate_verdict option" where
  "promotion_gate env =
    (let manual = is_manual env; inputs = field (pr_event env) (la ''inputs''); wf = field (pr_event env) (la ''workflow_run'');
         sha = (if manual then field inputs (la ''sha'') else field wf (la ''head_sha''));
         i = (if manual then field inputs (la ''ci_run'') else field wf (la ''id'')); mode = field inputs (la ''mode'');
         build_only = (manual \<and> mode = JStr (la ''build-only'')); artifact = (manual \<and> mode = JStr (la ''manual-artifact''))
     in if \<not> this_repository env \<or> \<not> manual \<and> pr_eventName env \<noteq> JStr (la ''workflow_run'') \<or> \<not> run_text (js_text i) \<or>
           manual \<and> mode \<notin> {JStr (la ''build-only''), JStr (la ''promote''), JStr (la ''manual-artifact'')}
        then None
        else case pr_jobs env of
               JArr jobs \<Rightarrow>
                 if \<not> validateCI sha (pr_ci env) jobs (pr_main env) \<or> pr_head env \<noteq> sha then None
                 else if build_only then Some (Gated True BuildOnly)
                 else if artifact then Some (Gated True Promote)
                 else if pr_enabled env \<noteq> JStr (la ''true'') then None
                 else if \<not> manual \<and> (pr_parents env = [] \<or> pr_relevant env = None) then None
                 else if \<not> manual \<and> pr_relevant env = Some False then Some NoRelevantChange
                 else (case pr_remote env of
                         None \<Rightarrow> None
                       | Some status \<Rightarrow>
                           let published_sha = field (field status (la ''publisher'')) (la ''sha'')
                           in if \<not> is_sha published_sha then None
                              else if published_sha = sha then Some (Gated (field status (la ''authorityAligned'') \<in> {JUndef, JNull, JBool False, JNum (Fin 0), JStr []}) Promote)
                              else map_option (\<lambda>b. Gated b Promote) (pr_moved env))
             | _ \<Rightarrow> None)"

section \<open>The notifier\<close>

definition telegram_token :: "jstr \<Rightarrow> bool" where
  "telegram_token s \<longleftrightarrow>
     (case split_ch 58 s of
        [number, secret] \<Rightarrow> run_text number \<and> text_in Manifest.id_ch 35 35 secret
      | _ \<Rightarrow> False)"

definition validateTelegramConfig :: "jval \<Rightarrow> jval \<Rightarrow> (jstr \<times> jstr) option" where
  "validateTelegramConfig token admin =
    (if str_is telegram_token token \<and> str_is run_text admin \<and> digits_val (str_of admin) \<le> 4503599627370495
     then Some (str_of token, str_of admin) else None)"

text \<open>One line of the selected settings: an optional \<open>export\<close>, one of two names, and the value, unquoted.\<close>

definition blank :: "int \<Rightarrow> bool" where
  "blank c \<longleftrightarrow> c = 32 \<or> c = 9"

definition line_end :: "int \<Rightarrow> bool" where
  "line_end c \<longleftrightarrow> c \<in> {10, 13, 8232, 8233}"

definition strip_export :: "jstr \<Rightarrow> jstr" where
  "strip_export s =
    (let rest = drop 6 s in if starts_with s (la ''export'') \<and> rest \<noteq> [] \<and> blank (hd rest) then dropWhile blank rest else s)"

definition unquote :: "jstr \<Rightarrow> jstr" where
  "unquote v =
    (if starts_with v [34] \<and> ends_with v [34] \<or> starts_with v [39] \<and> ends_with v [39] then (if length v \<le> 1 then [] else tl (butlast v)) else v)"

definition telegram_entry :: "jstr \<Rightarrow> (jstr \<times> jstr) option" where
  "telegram_entry line =
    (let s = strip_export (trim line)
     in case List.find (\<lambda>k. starts_with s k \<and> starts_with (dropWhile blank (drop (length k) s)) [61]) [la ''BOT_TOKEN'', la ''ADMIN_ID''] of
          None \<Rightarrow> None
        | Some k \<Rightarrow>
            let v = dropWhile blank (tl (dropWhile blank (drop (length k) s)))
            in if list_all (\<lambda>c. \<not> line_end c) v then Some (k, unquote v) else None)"

fun telegram_entries :: "jstr list \<Rightarrow> (jstr \<times> jstr) list \<Rightarrow> (jstr \<times> jstr) list option" where
  "telegram_entries [] entries = Some entries"
| "telegram_entries (line # lines) entries =
    (case telegram_entry line of
       None \<Rightarrow> None
     | Some (k, v) \<Rightarrow> if map_of entries k \<noteq> None then None else telegram_entries lines (entries @ [(k, v)]))"

definition parseTelegramEntries :: "jstr list \<Rightarrow> (jstr \<times> jstr) option" where
  "parseTelegramEntries lines =
    (case telegram_entries lines [] of
       None \<Rightarrow> None
     | Some entries \<Rightarrow>
         let get = (\<lambda>k. case map_of entries k of None \<Rightarrow> JUndef | Some v \<Rightarrow> JStr v)
         in validateTelegramConfig (get (la ''BOT_TOKEN'')) (get (la ''ADMIN_ID'')))"

text \<open>The confirmation: an accepted message, to the administrator's private chat when one is named.\<close>

definition telegram_confirms :: "jstr \<Rightarrow> jval \<Rightarrow> bool" where
  "telegram_confirms admin v \<longleftrightarrow>
     (let r = field v (la ''result''); chat = field r (la ''chat'')
      in field v (la ''ok'') = JBool True \<and> int_in 1 max_safe (field r (la ''message_id'')) \<and>
         (chat = JUndef \<or>
          int_in (- max_safe) max_safe (field chat (la ''id'')) \<and> js_text (field chat (la ''id'')) = admin \<and>
          field chat (la ''type'') = JStr (la ''private'')))"

section \<open>Lemmas\<close>

text \<open>Nine jobs that contain each of nine names once have just those names.\<close>

lemma exactly_named:
  assumes "length jobs = 9" and "list_all (\<lambda>name. length (filter (job_named name) jobs) = 1) mandatory"
  shows "mset (map (\<lambda>j. field j (la ''name'')) jobs) = mset (map JStr mandatory)"
proof -
  let ?names = "map (\<lambda>j. field j (la ''name'')) jobs"
  have once: "count (mset ?names) (JStr n) = 1" if "n \<in> set mandatory" for n
  proof -
    have "count (mset ?names) (JStr n) = length (filter (job_named n) jobs)"
      by (induction jobs) (simp_all add: job_named_def)
    then show ?thesis using assms(2) that by (simp add: list_all_iff)
  qed
  have distinct: "distinct mandatory" by (simp add: mandatory_def la_def)
  then have dist: "distinct (map JStr mandatory)" by (simp add: distinct_map inj_on_def)
  have le: "mset (map JStr mandatory) \<subseteq># mset ?names"
  proof (rule mset_subset_eqI)
    fix x
    show "count (mset (map JStr mandatory)) x \<le> count (mset ?names) x"
    proof (cases "x \<in> set (map JStr mandatory)")
      case True
      then obtain n where n: "n \<in> set mandatory" "x = JStr n" by auto
      have "count (mset (map JStr mandatory)) x = 1" using dist True by (metis distinct_count_atmost_1)
      then show ?thesis using once [OF n(1)] n(2) by simp
    next
      case False
      then have "count (mset (map JStr mandatory)) x = 0" by (metis count_mset_0_iff)
      then show ?thesis by simp
    qed
  qed
  have "size (mset ?names) = size (mset (map JStr mandatory))" using assms(1) by (simp add: mandatory_def)
  then show ?thesis using le by (metis mset_subset_size subset_mset.le_imp_less_or_eq less_irrefl)
qed

end
