(* ===== verification/DeployProperties.thy ===== *)
theory DeployProperties
  imports Deploy
begin

text \<open>The properties of the two gates: what a deployment and a promotion presuppose, and that they agree.\<close>

interpretation text_rank: ranked str_le
  by unfold_locales (auto simp: str_le_def)

lemma js_sort_text: "js_sort str_le xs = sort xs"
proof -
  have "sorted_wrt (\<le>) (js_sort str_le xs)" using text_rank.sorted_js_sort [of xs] by (simp add: str_le_def [abs_def])
  then show ?thesis by (intro properties_for_sort [symmetric]) (simp_all add: sorted_wrt_iff_nth_less sorted_iff_nth_mono_less)
qed

lemma sorted_text_eq: "mset xs = mset ys \<Longrightarrow> js_sort str_le xs = js_sort str_le ys"
  by (metis js_sort_text mset_sort properties_for_sort sorted_sort)

lemma single_case: "(case xs of [x] \<Rightarrow> P x | _ \<Rightarrow> False) \<longleftrightarrow> (\<exists>x. xs = [x] \<and> P x)"
  by (cases xs rule: remdups_adj.cases) simp_all

lemma run_text_positive: "run_text s \<Longrightarrow> 1 \<le> digits_val s"
proof -
  have "list_all digit_ch s \<Longrightarrow> s \<noteq> [] \<Longrightarrow> hd s \<noteq> 48 \<Longrightarrow> 1 \<le> digits_val s"
  proof (induction s rule: rev_induct)
    case (snoc d s)
    then show ?case by (cases "s = []") (auto simp: digits_val_snoc digits_val_snoc [of "[]", simplified] digit_ch_def)
  qed simp
  then show "run_text s \<Longrightarrow> 1 \<le> digits_val s" by (cases s) (auto simp: run_text_def text_in_def)
qed

lemma candidate_positive:
  assumes "eventCandidate event name enabled branch = Some (VerifyCI sha n)"
  shows "1 \<le> n \<and> n \<le> max_safe"
proof -
  have "1 \<le> \<lfloor>q\<rfloor> \<and> \<lfloor>q\<rfloor> \<le> max_safe" if "int_in 1 max_safe (JNum (Fin q))" for q
    using that by (simp add: int_in_def le_floor_iff floor_le_iff)
  moreover have "1 \<le> digits_val (str_of v)" if "str_is run_text v" for v
    using that run_text_positive by (cases v) (simp_all add: str_is_def str_of_def)
  moreover have "\<exists>q. v = JNum (Fin q)" if "int_in 1 max_safe v" for v
    using that by (auto simp: int_in_def split: jval.splits jnum.splits)
  ultimately show ?thesis
    using assms by (fastforce simp: eventCandidate_def Let_def split: if_splits)
qed

lemma verifyCI_jobs:
  assumes "verifyCI sha n run workflow jobs main = Some c"
  shows "length jobs = 9" and "mset (map (\<lambda>j. field j (la ''name'')) jobs) = mset (map JStr mandatory)"
    and "list_all (\<lambda>j. job_green j \<and> field j (la ''head_sha'') = sha \<and> field j (la ''run_attempt'') = field run (la ''run_attempt'')) jobs"
    and "green_push run" and "is_sha sha" and "c = (if main = sha then Eligible sha n else SkippedStale)"
    and "field run (la ''head_sha'') = sha" and "full_name (field run (la ''repository'')) = JStr repository"
    and "field run (la ''id'') = JNum (Fin (of_int n))"
proof -
  have each: "list_all (\<lambda>name. case filter (job_named name) jobs of
            [j] \<Rightarrow> job_green j \<and> field j (la ''head_sha'') = sha \<and> same_value (field j (la ''run_attempt'')) (field run (la ''run_attempt''))
          | _ \<Rightarrow> False) mandatory"
    and rest: "length jobs = 9" "green_push run" "is_sha sha" "c = (if main = sha then Eligible sha n else SkippedStale)"
      "field run (la ''head_sha'') = sha" "full_name (field run (la ''repository'')) = JStr repository"
      "field run (la ''id'') = JNum (Fin (of_int n))"
    using assms unfolding verifyCI_def by (simp_all split: if_splits)
  then show "length jobs = 9" "green_push run" "is_sha sha" "c = (if main = sha then Eligible sha n else SkippedStale)"
      "field run (la ''head_sha'') = sha" "full_name (field run (la ''repository'')) = JStr repository"
      "field run (la ''id'') = JNum (Fin (of_int n))" by simp_all
  have "list_all (\<lambda>name. length (filter (job_named name) jobs) = 1) mandatory"
    using each by (auto simp: list_all_iff single_case)
  with rest(1) show names: "mset (map (\<lambda>j. field j (la ''name'')) jobs) = mset (map JStr mandatory)" by (rule exactly_named)
  show "list_all (\<lambda>j. job_green j \<and> field j (la ''head_sha'') = sha \<and> field j (la ''run_attempt'') = field run (la ''run_attempt'')) jobs"
    unfolding list_all_iff
  proof
    fix j assume j: "j \<in> set jobs"
    then have "field j (la ''name'') \<in> set (map JStr mandatory)"
      using mset_eq_setD [OF names] by auto
    then obtain name where name: "name \<in> set mandatory" "job_named name j" by (auto simp: job_named_def)
    then have "j \<in> set (filter (job_named name) jobs)" using j by simp
    moreover obtain x where "filter (job_named name) jobs = [x]"
      "job_green x \<and> field x (la ''head_sha'') = sha \<and> field x (la ''run_attempt'') = field run (la ''run_attempt'')"
      using each name(1) by (auto simp: list_all_iff single_case same_value_def)
    ultimately show "job_green j \<and> field j (la ''head_sha'') = sha \<and> field j (la ''run_attempt'') = field run (la ''run_attempt'')"
      by auto
  qed
qed

text \<open>C24: Whatever event starts the gate and whatever GitHub answers, a commit becomes eligible for
  deployment only when deployments are switched on, it is the commit main points to, and one
  successful push run on main of this repository tested it with exactly the nine mandatory jobs, all
  of them successful, at that commit and in that attempt. The check of the
  promotion, which is written independently, accepts that run and these jobs exactly when the run's
  path is the one of the CI workflow and its attempt number is a positive safe integer, the two
  conditions the gate does not look at in the run.\<close>

theorem only_green_main_is_deployed:
  assumes "gate_main event name enabled branch run workflow response main = Some (Eligible sha n)"
  shows "enabled = Some (la ''true'') \<and> field (field main (la ''object'')) (la ''sha'') = sha \<and> is_sha sha \<and> green_push run \<and>
     field run (la ''head_sha'') = sha \<and>
     (\<exists>jobs. field response (la ''jobs'') = JArr jobs \<and> mset (map (\<lambda>j. field j (la ''name'')) jobs) = mset (map JStr mandatory) \<and>
        list_all (\<lambda>j. job_green j \<and> field j (la ''head_sha'') = sha \<and> field j (la ''run_attempt'') = field run (la ''run_attempt'')) jobs \<and>
        validateCI sha run jobs (field (field main (la ''object'')) (la ''sha'')) =
          (field run (la ''path'') = JStr (la ''.github/workflows/ci.yml'') \<and> int_in 1 max_safe (field run (la ''run_attempt''))))"
proof -
  have c: "eventCandidate event name enabled branch = Some (VerifyCI sha n)"
    and check: "check_candidate sha n run workflow response main = Some (Eligible sha n)"
  proof -
    obtain c0 where c0: "eventCandidate event name enabled branch = Some c0" using assms by (auto simp: gate_main_def split: option.splits)
    have "c0 \<noteq> Eligible x y" for x y using c0 by (auto simp: eventCandidate_def Let_def split: if_splits)
    then obtain sha0 n0 where v: "c0 = VerifyCI sha0 n0" "check_candidate sha0 n0 run workflow response main = Some (Eligible sha n)"
      using assms c0 by (cases c0) (simp_all add: gate_main_def)
    then have "sha0 = sha \<and> n0 = n" by (auto simp: check_candidate_def verifyCI_def split: jval.splits if_splits)
    then show "eventCandidate event name enabled branch = Some (VerifyCI sha n)"
      and "check_candidate sha n run workflow response main = Some (Eligible sha n)" using v c0 by simp_all
  qed
  have on: "enabled = Some (la ''true'')" using c by (auto simp: eventCandidate_def split: if_splits)
  note positive = candidate_positive [OF c]
  obtain jobs where jobs: "field response (la ''jobs'') = JArr jobs"
    and v: "verifyCI sha n run workflow jobs (field (field main (la ''object'')) (la ''sha'')) = Some (Eligible sha n)"
    using check by (auto simp: check_candidate_def split: jval.splits if_splits)
  note j = verifyCI_jobs [OF v]
  have main: "field (field main (la ''object'')) (la ''sha'') = sha" using j(6) by (simp split: if_splits)
  have types: "list_all (\<lambda>j. type_of (field j (la ''name'')) = TString) jobs"
  proof -
    have "set (map (\<lambda>j. field j (la ''name'')) jobs) = set (map JStr mandatory)" using mset_eq_setD [OF j(2)] .
    then have "field x (la ''name'') \<in> JStr ` set mandatory" if "x \<in> set jobs" for x using that by fastforce
    then show ?thesis by (fastforce simp: list_all_iff)
  qed
  have "mset (map (\<lambda>j. str_of (field j (la ''name''))) jobs) = image_mset str_of (mset (map (\<lambda>j. field j (la ''name'')) jobs))"
    by (simp add: image_mset.compositionality comp_def)
  also have "\<dots> = mset mandatory" unfolding j(2) by (simp add: image_mset.compositionality comp_def str_of_def)
  also have "\<dots> = mset CI" by (simp add: mandatory_def CI_def add_mset_commute)
  finally have sorted: "js_sort str_le (map (\<lambda>j. str_of (field j (la ''name''))) jobs) = js_sort str_le CI" by (rule sorted_text_eq)
  have green: "list_all job_green jobs" using j(3) by (simp add: list_all_iff)
  have "validateCI sha run jobs (field (field main (la ''object'')) (la ''sha'')) =
          (field run (la ''path'') = JStr (la ''.github/workflows/ci.yml'') \<and> int_in 1 max_safe (field run (la ''run_attempt'')))"
    unfolding validateCI_def main using j(1,4,5,7,8,9) types sorted green positive by (simp add: int_in_def)
  then show ?thesis using on main j(2,3,4,5,7) jobs by blast
qed

text \<open>A green push of the nine jobs to the commit of forty a's.\<close>

definition w_sha :: jval where "w_sha = JStr (replicate 40 97)"

definition w_run :: jval where
  "w_run = JObj [(la ''event'', JStr (la ''push'')), (la ''head_branch'', JStr (la ''main'')), (la ''status'', JStr (la ''completed'')),
     (la ''conclusion'', JStr (la ''success'')), (la ''head_repository'', JObj [(la ''full_name'', JStr repository)]),
     (la ''repository'', JObj [(la ''full_name'', JStr repository)]), (la ''id'', JNum (Fin 5)), (la ''head_sha'', w_sha), (la ''workflow_id'', JNum (Fin 7)),
     (la ''run_attempt'', JNum (Fin 1)), (la ''path'', JStr (la ''.github/workflows/ci.yml''))]"

definition w_event :: jval where
  "w_event = JObj [(la ''repository'', JObj [(la ''full_name'', JStr repository)]), (la ''workflow_run'', w_run)]"

definition w_workflow :: jval where
  "w_workflow = JObj [(la ''id'', JNum (Fin 7)), (la ''path'', JStr (la ''.github/workflows/ci.yml'')), (la ''name'', JStr (la ''CI'')),
     (la ''state'', JStr (la ''active''))]"

definition w_jobs :: jval where
  "w_jobs = JObj [(la ''total_count'', JNum (Fin 9)), (la ''jobs'', JArr (map (\<lambda>name. JObj [(la ''name'', JStr name), (la ''status'', JStr (la ''completed'')),
     (la ''conclusion'', JStr (la ''success'')), (la ''head_sha'', w_sha), (la ''run_attempt'', JNum (Fin 1))]) mandatory))]"

definition w_main :: jval where "w_main = JObj [(la ''object'', JObj [(la ''sha'', w_sha)])]"

lemma w_eligible:
  "gate_main w_event (Some (la ''workflow_run'')) (Some (la ''true'')) None w_run w_workflow w_jobs w_main = Some (Eligible w_sha 5)"
  by code_simp

theorem only_green_main_is_deployed_witness:
  "is_sha w_sha \<and> green_push w_run \<and> (\<exists>jobs. field w_jobs (la ''jobs'') = JArr jobs \<and> validateCI w_sha w_run jobs w_sha)"
proof -
  have path: "field w_run (la ''path'') = JStr (la ''.github/workflows/ci.yml'')" and attempt: "int_in 1 max_safe (field w_run (la ''run_attempt''))"
    and main: "field (field w_main (la ''object'')) (la ''sha'') = w_sha" by code_simp+
  show ?thesis using only_green_main_is_deployed [OF w_eligible] path attempt by (auto simp: main)
qed

end
