(* ===== verification/Spec2Isabelle.thy ===== *)
theory Spec2Isabelle
  imports CatalogProperties VoiceProperties ImportProperties SyncProperties ScrapeProperties CommandProperties RevalidationProperties BrowseProperties CompareProperties SiteProperties SupervisionProperties MonitorProperties DeployProperties
begin

text \<open>
  Adil Baga compares the grocery prices of the shops of Aktau. A pipeline scrapes the shops, matches
  their products into canonical cards and writes a bundle; an API serves the cards; a website shows
  them, with a voice assistant; scripts publish a new catalogue, prove that the website shows it, watch
  the API and guard deployments. This library models the TypeScript and JavaScript code of these
  parts and proves what makes it correct. Names of definitions are the source's, where Isabelle
  allows it; each theory opens with the files it models.

  \<^bold>\<open>Foundations.\<close> \<open>Prelude\<close> holds results, lists, maps and the contract of a comparator (\<open>ranked\<close>) with
  JavaScript's stable sort; \<open>JsText\<close> strings as lists of UTF-16 units; \<open>JsValue\<close> untyped values;
  \<open>JsNumber\<close> numbers and doubles; \<open>JsRegex\<close> a matcher for the regular expressions that are more than
  a class of characters. Locales state the interfaces: comparators, the
  repositories of products and categories, the session store of the voice assistant; each is
  interpreted on the definitions of the components that provide it.

  \<^bold>\<open>The API\<close> (\<open>backend/src\<close>). \<open>Catalog\<close>: the contract, query validation and the services over any
  repository. \<open>CatalogDb\<close>: the PostgreSQL repositories, over the rows Prisma returns. \<open>Dashboard\<close>:
  nearest shop, baskets, price spreads. \<open>Fixtures\<close>: the in-memory repositories. \<open>Nlp\<close>, \<open>Voice\<close>: the
  parsing of spoken questions, the conversation and its sessions. \<open>Normalizer\<close>, \<open>Matcher\<close>, \<open>Scrapers\<close>:
  the importer's reading of names, its grouping and its shops. \<open>CatalogProperties\<close>,
  \<open>VoiceProperties\<close> and \<open>ImportProperties\<close> show that cards are priced at their cheapest usable offer,
  that no query leaves its bounds, that a clarification stays answerable until it expires, and that
  the cheapest answer is the cheapest.

  \<^bold>\<open>The pipeline\<close> (\<open>pipeline/src\<close>). \<open>SourceFile\<close>: the files of the shops, their validation and atomic
  writing. \<open>Units\<close>, \<open>Classify\<close>, \<open>Match\<close>, \<open>Bundle\<close>: sizes, categories by a language model, clusters
  and the bundle. \<open>Dictionary\<close>, \<open>Overrides\<close>, \<open>Taxonomy\<close>: the remembered matching, its manual
  corrections, the filters written for the API. \<open>Sync\<close>, \<open>Cover\<close>: publishing, and the narrow scrapes
  that cover what is published. \<open>Pool\<close>, \<open>Http\<close>: workers, polite fetching and the model's client.
  \<open>DinaCrawl\<close>, \<open>DanaCrawl\<close>, \<open>FixCrawl\<close>: the three shops. \<open>Commands\<close>: the command line.
  \<open>SyncProperties\<close>, \<open>ScrapeProperties\<close>, \<open>CommandProperties\<close> show that nothing is lost or offered
  twice from the files to the bundle, that only complete scrapes are written, that scrapes end, and
  that the pool computes what a plain loop does.

  \<^bold>\<open>The website\<close> (\<open>frontend/src\<close>). \<open>Routing\<close>: addresses, languages, site map. \<open>Browse\<close>: filters in the
  address, requests and paging. \<open>Compare\<close>: the figures shown. \<open>Webhook\<close>: the signed request that makes
  pages stale. \<open>SiteConfig\<close>: settings, analytics, headers. \<open>BrowseProperties\<close>,
  \<open>CompareProperties\<close>, \<open>SiteProperties\<close> show that what a page asks for the API accepts, that a press
  changes one choice, that discounts are never overstated, and that only signed publications count.

  \<^bold>\<open>Proving a publication\<close> (\<open>scripts/revalidation\<close>). \<open>Manifest\<close>: projections of the catalogue before and
  after, and the six pages to watch. \<open>Observer\<close>: sampling the pages and the verdict. \<open>Ledger\<close>: the
  attempts on disk, with every outcome of a save and of a close. \<open>Receiver\<close>: the clocks and the one message of the publisher. \<open>Relay\<close>: the hand-over
  and the operator. \<open>Provider\<close>: the administrator's files, the pinned deployment and the custody of
  projections. \<open>Attempt\<close>: the session that drives one attempt, as a step relation over its
  interleaved parts. The observer's verdict reaches the ledger only through \<open>Attempt\<close>, which uses
  \<open>Receiver\<close> for the event, \<open>Provider\<close> for identity and authority, \<open>Relay\<close> for the hand-over.
  \<open>RevalidationProperties\<close> shows that verdicts are proved by the samples and that the ledger keeps
  every attempt; \<open>SupervisionProperties\<close> that in every reachable state a completed attempt was
  observed to the end, and that acceptance needs three passes, the same deployment and a verified
  clean-up.

  \<^bold>\<open>Operations\<close> (\<open>scripts/ops\<close>, \<open>scripts/deploy\<close>). \<open>Monitor\<close>: the check of the API and the incidents
  kept between runs. \<open>Deploy\<close>: the gates of deployment and promotion, the settings of the notifier.
  \<open>MonitorProperties\<close> and \<open>DeployProperties\<close> show that incidents are announced in order and in time
  and that only a commit with all its jobs green is deployed. The theorem of this theory crosses
  components: the filters the pipeline writes are the ones the API serves.

  \<^bold>\<open>Idealisations.\<close> Numbers of JSON are exact rationals, prices integers; doubles appear where rounding
  is visible (the discount). Where the source would compute with an infinite price of Fix Price or a
  NaN of Dana, the model says so at the definition. Objects are association lists in insertion order,
  integer-like keys included. Parameters stand for what is not under \<open>src\<close> or is decided outside: the
  database, HTTP, language models, cheerio, JSON text, digests and authentication codes, the URL
  parser, locale collation, the file system's outcomes, clocks and random identifiers. Hypotheses
  about them are named in the theorems and met by concrete functions in the witnesses. \<open>Date.parse\<close>
  is written out with V8's tolerance for days past the end of a month. Manifests and ledgers are
  read as JSON data. In \<open>Attempt\<close> each definition is what runs between two awaits, a promise awaited
  twice gives one value, and the operator finishes only after observing. In \<open>Receiver\<close> the milliseconds
  are exact quotients.

  \<^bold>\<open>Fuel and bounds.\<close> Recursion is structural or carries a measure. Two loops have no bound of their own
  and take fuel, \<open>None\<close> meaning that it ran out: the pages of Fix Price, for which the reported totals
  are enough (\<open>fix_price_scrape_ends\<close>), and the queue of Dina's categories, for which the categories
  the shop can name are enough (\<open>dina_walk_ends\<close>). Loops over outside answers take the list of those
  answers or are step relations; the observer sends at most 21 requests and makes at most 42 moves
  (\<open>observing_is_bounded\<close>).

  \<^bold>\<open>Not modelled.\<close> React markup, effects and timers, texts of translations and page metadata; NestJS
  wiring, the database's schema and seed; one-off scripts over the modelled importers; self-tests;
  images; the transports of sockets, TLS and child processes, the dropping of privileges, the
  credential and the local test provider; packaging and continuous integration. The Go backend and
  the Python and shell tooling are outside the language of this library.
\<close>

section \<open>From the pipeline's taxonomy to the API's filters\<close>

lemma filterOption_prim [simp]: "finite_prim v \<Longrightarrow> filterOption (prim_val v) = Some v"
  by (cases v) simp_all

lemma card_value_finite: "card_value key c = Some v \<Longrightarrow> finite_prim v"
  by (auto simp: card_value_def num_def split: if_splits)

lemma filter_values_finite: "v \<in> set (filter_values cards f) \<Longrightarrow> finite_prim v"
  by (auto simp: filter_values_def in_map_filter dest: card_value_finite)

lemma map_filter_prims: "list_all finite_prim vs \<Longrightarrow> List.map_filter filterOption (map prim_val vs) = vs"
  by (induction vs) (auto simp: List.map_filter_simps)

text \<open>What the API makes of one generated filter.\<close>

definition served :: "filter_def \<Rightarrow> jstr \<times> jstr \<times> filter_type \<times> jval" where
  "served f = (f_key f, f_label f, f_type f, JArr (map prim_val (nullish (f_options f) [])))"

definition generated :: "filter_definition \<Rightarrow> jstr \<times> jstr \<times> filter_type \<times> jval" where
  "generated d = (fd_key d, fd_label d, MultiSelect, fd_options d)"

definition filter_json :: "filter_definition \<Rightarrow> jval" where
  "filter_json d = JObj [(la ''key'', JStr (fd_key d)), (la ''label'', JStr (fd_label d)),
     (la ''type'', JStr (fd_type d)), (la ''options'', fd_options d)]"

lemma filterItem_generated:
  assumes "filter_for cards f = Some d"
  shows "\<exists>s. filterItem (filter_json d) = Some s \<and> served s = generated d"
proof -
  obtain vs where vs: "set vs = set (filter_values cards f)" and d: "fd_type d = la ''multi-select''" "fd_options d = JArr (map prim_val vs)"
    using filter_for_Some [OF assms] by metis
  have "List.map_filter filterOption (map prim_val vs) = vs"
    by (rule map_filter_prims) (use filter_values_finite vs in \<open>auto simp: list_all_iff\<close>)
  then show ?thesis
    by (simp add: filterItem_def filter_json_def served_def generated_def d obj_get_def la_def)
qed

lemma definitions_generated:
  "list_all (\<lambda>d. \<exists>cards f. filter_for cards f = Some d) fs \<Longrightarrow>
   map served (List.map_filter filterItem (map filter_json fs)) = map generated fs"
proof (induction fs)
  case (Cons d fs)
  then obtain cards f where "filter_for cards f = Some d" by auto
  then obtain s where "filterItem (filter_json d) = Some s" "served s = generated d" using filterItem_generated by blast
  with Cons show ?case by (simp add: List.map_filter_simps)
qed (simp add: List.map_filter_simps)

text \<open>C39: The filters the pipeline generates for a published category reach the client unchanged: read
  back by the API from the JSON of the migration, every filter keeps its key, its label and all
  its options, in order.\<close>

theorem taxonomy_is_served_unchanged:
  "list_all (\<lambda>slug. case filterSchemaFor dict slug of
      Inl e \<Rightarrow> False
    | Inr fs \<Rightarrow> map served (definitions (schema_json fs)) = map generated fs) DEFAULT_PUBLISH_CATEGORIES"
proof -
  have "map served (definitions (schema_json fs)) = map generated fs" if "filterSchemaFor dict slug = Inr fs" for slug fs
  proof -
    have "list_all (\<lambda>d. \<exists>cards f. filter_for cards f = Some d) fs"
      using that unfolding filterSchemaFor_def list_all_iff by (simp split: option.splits) (metis in_map_filter)
    from definitions_generated [OF this] show ?thesis
      by (simp add: definitions_def schema_json_def filter_json_def [abs_def] obj_get_def)
  qed
  moreover have "\<exists>fs. filterSchemaFor dict slug = Inr fs" if "isCategorySlug slug" for slug
    using known_category [OF that] by (auto simp: filterSchemaFor_def)
  ultimately show ?thesis using default_scope_known by (fastforce simp: list_all_iff)
qed

end
